(* ===== verification/Prelude.thy ===== *)
theory Prelude
  imports "HOL-Library.Char_ord" "HOL-Library.List_Lexorder" "HOL-Library.Sublist"
    "HOL-Library.Multiset" "HOL-Library.Word"
begin

text \<open>
  The generic layer of the development: the names of the types that every component
  uses, the theorem collections that carry the component proofs, and the facts on
  lists, options and maps that more than one component needs.  Nothing here is
  about kubechecks itself.

  A Go \<open>string\<close> is an Isabelle \<open>string\<close>: a list of 8-bit characters, that is of
  bytes, so that \<open>length\<close> is Go's \<open>len\<close>.  A Go map is a partial function; a loop that
  ranges over a map takes the order in which the runtime happens to enumerate the keys
  as an explicit list argument.  A Go slice is a list.
\<close>

section \<open>Names\<close>

type_synonym 'v strmap = "string \<Rightarrow> 'v option"

abbreviation slen :: "'a list \<Rightarrow> int" where
  "slen xs \<equiv> int (length xs)"

named_theorems len_simps "lengths of rendered strings"
named_theorems inv_intros "invariant preservation, one rule per operation"

section \<open>Lists\<close>

lemma foldl_invariant:
  assumes "P s" and "\<And>s x. P s \<Longrightarrow> x \<in> set xs \<Longrightarrow> P (f s x)"
  shows "P (foldl f s xs)"
  using assms by (induction xs arbitrary: s) auto

lemma fold_invariant_set:
  assumes "P s" and "\<And>s x. P s \<Longrightarrow> x \<in> set xs \<Longrightarrow> P (f x s)"
  shows "P (fold f xs s)"
  using assms by (induction xs arbitrary: s) auto

lemma sorted_list_unique:
  fixes xs ys :: "'a::linorder list"
  assumes "set xs = set ys" "distinct xs" "distinct ys"
  shows "sort xs = sort ys"
proof -
  have "mset xs = mset ys" using assms by (simp add: set_eq_iff_mset_eq_distinct)
  then show ?thesis by (metis properties_for_sort sorted_sort mset_sort)
qed

lemma length_concat_sum [len_simps]: "length (concat xss) = sum_list (map length xss)"
  by (rule length_concat)

section \<open>Maps\<close>

definition keys_of :: "('k \<Rightarrow> 'v option) \<Rightarrow> 'k list \<Rightarrow> bool" where
  "keys_of m ks = (distinct ks \<and> set ks = dom m)"

lemma keys_of_sort:
  fixes m :: "'k::linorder \<Rightarrow> 'v option"
  assumes "keys_of m ks" "keys_of m ks'"
  shows "sort ks = sort ks'"
  using assms sorted_list_unique unfolding keys_of_def by metis

lemma keys_of_mset:
  assumes "keys_of m ks" "keys_of m ks'"
  shows "mset ks = mset ks'"
  using assms unfolding keys_of_def by (metis set_eq_iff_mset_eq_distinct)

lemma keys_of_in: "keys_of m ks \<Longrightarrow> k \<in> set ks \<longleftrightarrow> m k \<noteq> None"
  by (auto simp: keys_of_def dom_def)

end
