(* ===== verification/GoStrings.thy ===== *)
theory GoStrings
  imports Prelude
begin

text \<open>
  The functions of Go's \<open>strings\<close>, \<open>unicode/utf8\<close> and \<open>strconv\<close> packages that the program
  calls, on strings as byte lists.  They model the standard library, so none of them
  maps to a line of the repository; the lemmas are the facts the component theories use.
\<close>

section \<open>Prefixes, suffixes and search\<close>

abbreviation nl :: char where "nl \<equiv> CHR 0x0A"

definition has_prefix :: "string \<Rightarrow> string \<Rightarrow> bool" where
  "has_prefix s p = (take (length p) s = p)"

definition has_suffix :: "string \<Rightarrow> string \<Rightarrow> bool" where
  "has_suffix s p = has_prefix (rev s) (rev p)"

fun str_index :: "string \<Rightarrow> string \<Rightarrow> nat option" where
  "str_index [] p = (if p = [] then Some 0 else None)"
| "str_index (c # s) p =
    (if has_prefix (c # s) p then Some 0 else map_option Suc (str_index s p))"

definition str_contains :: "string \<Rightarrow> string \<Rightarrow> bool" where
  "str_contains s p = (str_index s p \<noteq> None)"

text \<open>\<open>strings.Cut\<close> returns the text before and after the first separator, if there is one.\<close>

definition str_cut :: "string \<Rightarrow> string \<Rightarrow> (string \<times> string) option" where
  "str_cut s p = map_option (\<lambda>i. (take i s, drop (i + length p) s)) (str_index s p)"

definition trim_prefix :: "string \<Rightarrow> string \<Rightarrow> string" where
  "trim_prefix s p = (if has_prefix s p then drop (length p) s else s)"

definition trim_suffix :: "string \<Rightarrow> string \<Rightarrow> string" where
  "trim_suffix s p = (if has_suffix s p then take (length s - length p) s else s)"

definition trim_left :: "string \<Rightarrow> string \<Rightarrow> string" where
  "trim_left s cutset = dropWhile (\<lambda>c. c \<in> set cutset) s"

definition trim_right :: "string \<Rightarrow> string \<Rightarrow> string" where
  "trim_right s cutset = rev (trim_left (rev s) cutset)"

lemma has_prefix_iff: "has_prefix s p \<longleftrightarrow> (\<exists>t. s = p @ t)"
  unfolding has_prefix_def by (metis append_eq_conv_conj append_take_drop_id)

lemma has_prefix_append [simp]: "has_prefix (p @ t) p"
  by (simp add: has_prefix_def)

lemma has_prefix_Nil [simp]: "has_prefix s []"
  by (simp add: has_prefix_def)

lemma has_prefix_refl [simp]: "has_prefix s s"
  by (simp add: has_prefix_def)

lemma has_prefix_Cons [simp]:
  "has_prefix [] (d # p) = False"
  "has_prefix (c # s) (d # p) = (c = d \<and> has_prefix s p)"
  by (auto simp: has_prefix_def)

lemma has_suffix_iff: "has_suffix s p \<longleftrightarrow> (\<exists>t. s = t @ p)"
  unfolding has_suffix_def has_prefix_iff
  by (metis rev_append rev_rev_ident)

lemma has_suffix_append [simp]: "has_suffix (t @ p) p"
  by (auto simp: has_suffix_iff)

lemma trim_prefix_append [simp]: "trim_prefix (p @ t) p = t"
  by (simp add: trim_prefix_def)

lemma trim_suffix_append [simp]: "trim_suffix (t @ p) p = t"
  by (simp add: trim_suffix_def)

lemma trim_left_length: "length (trim_left s cs) \<le> length s"
  by (simp add: trim_left_def length_dropWhile_le)

lemma str_index_Some:
  "str_index s p = Some i \<Longrightarrow> has_prefix (drop i s) p \<and> i \<le> length s"
  by (induction s p arbitrary: i rule: str_index.induct) (auto split: if_splits)

lemma str_index_least:
  "str_index s p = Some i \<Longrightarrow> j < i \<Longrightarrow> \<not> has_prefix (drop j s) p"
proof (induction s p arbitrary: i j rule: str_index.induct)
  case (2 c s p)
  then show ?case by (cases j) (auto split: if_splits)
qed (auto split: if_splits)

lemma str_index_None: "str_index s p = None \<Longrightarrow> \<not> has_prefix (drop j s) p"
proof (induction s p arbitrary: j rule: str_index.induct)
  case (2 c s p)
  then show ?case by (cases j) (auto split: if_splits)
next
  case (1 p)
  then show ?case by (cases p) auto
qed

lemma str_index_eqI:
  assumes "has_prefix (drop i s) p" "\<And>j. j < i \<Longrightarrow> \<not> has_prefix (drop j s) p"
  shows "str_index s p = Some (if i \<le> length s then i else length s)"
proof (cases "str_index s p")
  case None
  then show ?thesis using assms(1) str_index_None by blast
next
  case (Some k)
  then have k: "has_prefix (drop k s) p" "k \<le> length s" using str_index_Some by auto
  have "\<not> k < i" using assms(2) k(1) by blast
  show ?thesis
  proof (cases "i \<le> length s")
    case True
    have "\<not> i < k" using str_index_least[OF Some] assms(1) by blast
    then show ?thesis using True Some \<open>\<not> k < i\<close> by simp
  next
    case False
    then show ?thesis using k(2) \<open>\<not> k < i\<close> by simp
  qed
qed

lemma str_index_skip:
  "p \<noteq> [] \<Longrightarrow> hd p \<notin> set a \<Longrightarrow> str_index (a @ s) p = map_option ((+) (length a)) (str_index s p)"
proof (induction a)
  case Nil
  then show ?case by (cases "str_index s p") auto
next
  case (Cons c a)
  then have "\<not> has_prefix (c # a @ s) p" by (cases p) auto
  then show ?case using Cons by (simp add: option.map_comp comp_def)
qed

lemma has_prefix_drop_append:
  "i + length pat \<le> length p \<Longrightarrow> has_prefix (drop i (p @ r)) pat = has_prefix (drop i p) pat"
  by (simp add: has_prefix_def)

text \<open>An occurrence whose last character is not in the tail of a string lies in front of the
  tail, so it is found at the same place whatever the tail is.\<close>

lemma str_index_stable:
  assumes i: "str_index (p @ t) pat = Some i" and pat: "pat \<noteq> []" "last pat \<notin> set t"
  shows "i + length pat \<le> length p \<and> str_index (p @ r) pat = Some i"
proof -
  have hp: "has_prefix (drop i (p @ t)) pat" using i str_index_Some by blast
  have le: "i + length pat \<le> length p"
  proof (rule ccontr)
    assume n: "\<not> ?thesis"
    have "length (take (length pat) (drop i (p @ t))) = length pat"
      using hp by (simp add: has_prefix_def)
    then have len: "i + length pat \<le> length (p @ t)"
      using pat(1) by (cases pat) (auto simp: min_def split: if_splits)
    have nth: "take (length pat) (drop i X) ! (length pat - 1) = X ! (i + length pat - 1)"
      if "i + length pat \<le> length X" for X :: string
      using that pat(1) by (cases pat) auto
    have "last pat = take (length pat) (drop i (p @ t)) ! (length pat - 1)"
      by (simp only: hp[unfolded has_prefix_def] last_conv_nth[OF pat(1)])
    also have "\<dots> = (p @ t) ! (i + length pat - 1)"
      by (rule nth[OF len])
    also have "\<dots> = t ! (i + length pat - 1 - length p)"
      using n by (auto simp: nth_append)
    also have "\<dots> \<in> set t" using len n pat(1) by (intro nth_mem) (auto simp: Suc_leI)
    finally show False using pat(2) by simp
  qed
  have "has_prefix (drop i (p @ r)) pat"
    using hp has_prefix_drop_append[OF le] by blast
  moreover have "\<not> has_prefix (drop j (p @ r)) pat" if "j < i" for j
  proof -
    have "\<not> has_prefix (drop j (p @ t)) pat" using str_index_least[OF i that] .
    moreover have "j + length pat \<le> length p" using le that by simp
    ultimately show ?thesis using has_prefix_drop_append by blast
  qed
  ultimately show ?thesis using le str_index_eqI[of i "p @ r" pat] by simp
qed

lemma str_contains_iff: "str_contains s p \<longleftrightarrow> sublist p s"
proof
  assume "str_contains s p"
  then obtain i where "str_index s p = Some i" by (auto simp: str_contains_def)
  then have "has_prefix (drop i s) p" using str_index_Some by blast
  then obtain t where "drop i s = p @ t" by (auto simp: has_prefix_iff)
  then have "s = take i s @ p @ t" by (metis append_take_drop_id)
  then show "sublist p s" unfolding sublist_def by blast
next
  assume "sublist p s"
  then obtain a b where "s = a @ p @ b" by (auto simp: sublist_def)
  then have "has_prefix (drop (length a) s) p" by simp
  then show "str_contains s p" using str_index_None by (auto simp: str_contains_def)
qed

lemma str_cut_Some:
  assumes "str_cut s p = Some (a, b)"
  shows "s = a @ p @ b"
proof -
  from assms obtain i where i: "str_index s p = Some i" "a = take i s" "b = drop (i + length p) s"
    by (auto simp: str_cut_def)
  then have "has_prefix (drop i s) p" using str_index_Some by blast
  then have "drop i s = p @ drop (length p) (drop i s)"
    by (metis append_take_drop_id has_prefix_def)
  then show ?thesis using i by (metis append_take_drop_id drop_drop add.commute)
qed

lemma has_prefix_nth:
  "has_prefix (drop j s) p \<Longrightarrow> k < length p \<Longrightarrow> j + k < length s \<and> s ! (j + k) = p ! k"
proof -
  assume h: "has_prefix (drop j s) p" and k: "k < length p"
  obtain t where t: "drop j s = p @ t" using h by (auto simp: has_prefix_iff)
  then have "k < length (drop j s)" using k by simp
  then have l: "j + k < length s" by simp
  then have "s ! (j + k) = drop j s ! k" by simp
  then show ?thesis using t k l by (simp add: nth_append)
qed

text \<open>Text without the pattern does not start an occurrence that reaches past it when a separator
  without characters of the pattern follows, or when the pattern cannot overlap itself.\<close>

lemma str_index_after_sep:
  assumes "\<not> str_contains a p" "sep \<noteq> []" "set sep \<inter> set p = {}" "p \<noteq> []"
  shows "str_index (a @ sep @ p @ t) p = Some (length a + length sep)"
proof -
  let ?s = "a @ sep @ p @ t"
  have "\<not> has_prefix (drop j ?s) p" if j: "j < length a + length sep" for j
  proof
    assume h: "has_prefix (drop j ?s) p"
    show False
    proof (cases "j + length p \<le> length a")
      case True
      then have "has_prefix (drop j a) p" using has_prefix_drop_append[OF True] h by blast
      then show False using assms(1) str_index_None by (auto simp: str_contains_def)
    next
      case False
      define q where "q = max j (length a)"
      have q: "j \<le> q" "length a \<le> q" "q - j < length p" "q < length a + length sep"
        using j False assms(2,4) by (auto simp: q_def max_def)
      have "q - length a < length sep" using q by simp
      then have "?s ! q = sep ! (q - length a)" using q(2) by (simp add: nth_append)
      moreover have "?s ! q = p ! (q - j)" using has_prefix_nth[OF h q(3)] q(1) by simp
      moreover have "sep ! (q - length a) \<in> set sep" "p ! (q - j) \<in> set p" using q by (auto intro!: nth_mem)
      ultimately show False using assms(3) by auto
    qed
  qed
  then show ?thesis using str_index_eqI[of "length a + length sep" ?s p] by simp
qed

lemma str_index_unbordered:
  assumes "\<not> str_contains a (c # p)" "c \<notin> set p"
  shows "str_index (a @ (c # p) @ t) (c # p) = Some (length a)"
proof -
  let ?s = "a @ (c # p) @ t"
  have "\<not> has_prefix (drop j ?s) (c # p)" if j: "j < length a" for j
  proof
    assume h: "has_prefix (drop j ?s) (c # p)"
    show False
    proof (cases "j + length (c # p) \<le> length a")
      case True
      then have "has_prefix (drop j a) (c # p)" using has_prefix_drop_append[OF True] h by blast
      then show False using assms(1) str_index_None by (auto simp: str_contains_def)
    next
      case False
      then have k: "length a - j < length (c # p)" by simp
      have "?s ! length a = (c # p) ! (length a - j)" using has_prefix_nth[OF h k] j by simp
      then have "c = p ! (length a - j - 1)" using j by (simp add: nth_append nth_Cons')
      moreover have "length a - j - 1 < length p" using j k by simp
      ultimately show False using assms(2) by (metis nth_mem)
    qed
  qed
  then show ?thesis using str_index_eqI[of "length a" ?s "c # p"] by simp
qed

section \<open>White space and case\<close>

text \<open>The length of the encoding of a \<open>unicode.IsSpace\<close> rune at the head of a string, 0 if
  the string does not start with one; \<open>space_len_rev\<close> reads a reversed string.\<close>

definition ascii_space :: "char \<Rightarrow> bool" where
  "ascii_space c = (c \<in> {CHR 0x09, CHR 0x0A, CHR 0x0B, CHR 0x0C, CHR 0x0D, CHR 0x20})"

definition space3 :: "char \<Rightarrow> char \<Rightarrow> char \<Rightarrow> bool" where
  "space3 a b c =
    (a = CHR 0xE1 \<and> b = CHR 0x9A \<and> c = CHR 0x80 \<or>
     a = CHR 0xE2 \<and> b = CHR 0x80 \<and>
       (0x80 \<le> (of_char c :: nat) \<and> (of_char c :: nat) \<le> 0x8A \<or>
        c \<in> {CHR 0xA8, CHR 0xA9, CHR 0xAF}) \<or>
     a = CHR 0xE2 \<and> b = CHR 0x81 \<and> c = CHR 0x9F \<or>
     a = CHR 0xE3 \<and> b = CHR 0x80 \<and> c = CHR 0x80)"

definition space2 :: "char \<Rightarrow> char \<Rightarrow> bool" where
  "space2 a b = (a = CHR 0xC2 \<and> (b = CHR 0x85 \<or> b = CHR 0xA0))"

fun space_len :: "string \<Rightarrow> nat" where
  "space_len [] = 0"
| "space_len (a # s) =
    (if ascii_space a then 1
     else case s of
       [] \<Rightarrow> 0
     | b # t \<Rightarrow> if space2 a b then 2
                else (case t of [] \<Rightarrow> 0 | c # _ \<Rightarrow> if space3 a b c then 3 else 0))"

fun space_len_rev :: "string \<Rightarrow> nat" where
  "space_len_rev [] = 0"
| "space_len_rev (a # s) =
    (if ascii_space a then 1
     else case s of
       [] \<Rightarrow> 0
     | b # t \<Rightarrow> if space2 b a then 2
                else (case t of [] \<Rightarrow> 0 | c # _ \<Rightarrow> if space3 c b a then 3 else 0))"

lemma space_len_pos: "0 < space_len s \<Longrightarrow> 0 < length s"
  by (cases s) auto

function trim_space_left :: "string \<Rightarrow> string" where
  "trim_space_left s =
    (if space_len s = 0 then s else trim_space_left (drop (space_len s) s))"
  by auto

termination
  by (relation "measure length") (use space_len_pos in \<open>fastforce+\<close>)

lemma space_len_rev_pos: "0 < space_len_rev s \<Longrightarrow> 0 < length s"
  by (cases s) auto

function trim_space_left_rev :: "string \<Rightarrow> string" where
  "trim_space_left_rev s =
    (if space_len_rev s = 0 then s else trim_space_left_rev (drop (space_len_rev s) s))"
  by auto

termination
  by (relation "measure length") (use space_len_rev_pos in \<open>fastforce+\<close>)

declare trim_space_left.simps [simp del] trim_space_left_rev.simps [simp del]

definition trim_space :: "string \<Rightarrow> string" where
  "trim_space s = rev (trim_space_left_rev (rev (trim_space_left s)))"

lemma trim_space_left_length: "length (trim_space_left s) \<le> length s"
  by (induction s rule: trim_space_left.induct) (subst trim_space_left.simps, auto)

lemma trim_space_left_rev_length: "length (trim_space_left_rev s) \<le> length s"
  by (induction s rule: trim_space_left_rev.induct) (subst trim_space_left_rev.simps, auto)

lemma trim_space_length: "length (trim_space s) \<le> length s"
  unfolding trim_space_def
  using trim_space_left_length[of s] trim_space_left_rev_length[of "rev (trim_space_left s)"]
  by simp

lemma space_len_cases:
  "space_len s \<noteq> 0 \<Longrightarrow>
   (\<exists>a t. s = a # t \<and> ascii_space a \<and> space_len s = 1) \<or>
   (\<exists>a b t. s = a # b # t \<and> space2 a b \<and> space_len s = 2) \<or>
   (\<exists>a b c t. s = a # b # c # t \<and> space3 a b c \<and> space_len s = 3)"
  by (cases s) (auto split: list.splits if_splits)

lemma space_len_rev_cases:
  "space_len_rev s \<noteq> 0 \<Longrightarrow>
   (\<exists>a t. s = a # t \<and> ascii_space a \<and> space_len_rev s = 1) \<or>
   (\<exists>a b t. s = a # b # t \<and> space2 b a \<and> space_len_rev s = 2) \<or>
   (\<exists>a b c t. s = a # b # c # t \<and> space3 c b a \<and> space_len_rev s = 3)"
  by (cases s) (auto split: list.splits if_splits)

lemma space_not_backtick:
  "ascii_space a \<Longrightarrow> a \<noteq> CHR ''`''"
  "space2 a b \<Longrightarrow> a \<noteq> CHR ''`'' \<and> b \<noteq> CHR ''`''"
  "space3 a b c \<Longrightarrow> a \<noteq> CHR ''`'' \<and> b \<noteq> CHR ''`'' \<and> c \<noteq> CHR ''`''"
  by (auto simp: ascii_space_def space2_def space3_def)

lemma space_len_ascii: "CHR ''`'' \<in> set s \<longleftrightarrow> CHR ''`'' \<in> set (drop (space_len s) s)"
proof (cases "space_len s = 0")
  case False
  then show ?thesis using space_len_cases[OF False] space_not_backtick
    by (elim disjE exE conjE) (simp_all, metis+)
qed simp

lemma space_len_rev_ascii: "CHR ''`'' \<in> set s \<longleftrightarrow> CHR ''`'' \<in> set (drop (space_len_rev s) s)"
proof (cases "space_len_rev s = 0")
  case False
  then show ?thesis using space_len_rev_cases[OF False] space_not_backtick
    by (elim disjE exE conjE) (simp_all, metis+)
qed simp

lemma trim_space_left_keeps: "CHR ''`'' \<in> set s \<longleftrightarrow> CHR ''`'' \<in> set (trim_space_left s)"
proof (induction s rule: trim_space_left.induct)
  case (1 s)
  show ?case
  proof (cases "space_len s = 0")
    case True
    then have "trim_space_left s = s" by (subst trim_space_left.simps) (rule if_P)
    then show ?thesis by simp
  next
    case False
    then have "trim_space_left s = trim_space_left (drop (space_len s) s)"
      by (subst trim_space_left.simps) (rule if_not_P)
    then show ?thesis using 1[OF False] space_len_ascii[of s] by metis
  qed
qed

lemma trim_space_left_rev_keeps: "CHR ''`'' \<in> set s \<longleftrightarrow> CHR ''`'' \<in> set (trim_space_left_rev s)"
proof (induction s rule: trim_space_left_rev.induct)
  case (1 s)
  show ?case
  proof (cases "space_len_rev s = 0")
    case True
    then have "trim_space_left_rev s = s" by (subst trim_space_left_rev.simps) (rule if_P)
    then show ?thesis by simp
  next
    case False
    then have "trim_space_left_rev s = trim_space_left_rev (drop (space_len_rev s) s)"
      by (subst trim_space_left_rev.simps) (rule if_not_P)
    then show ?thesis using 1[OF False] space_len_rev_ascii[of s] by metis
  qed
qed

lemma trim_space_backtick: "CHR ''`'' \<in> set (trim_space s) \<longleftrightarrow> CHR ''`'' \<in> set s"
  unfolding trim_space_def
  by (metis trim_space_left_keeps trim_space_left_rev_keeps set_rev)

text \<open>\<open>strings.ToLower\<close>: ASCII letters, and the two non-ASCII letters whose lower case is
  an ASCII one (U+0130 and U+212A); other non-ASCII letters are left as they are, which is
  invisible to the comparisons with ASCII literals that the program makes.\<close>

definition lower_char :: "char \<Rightarrow> char" where
  "lower_char c = (let n = of_char c :: nat in
     if 65 \<le> n \<and> n \<le> 90 then char_of (n + 32) else c)"

fun to_lower :: "string \<Rightarrow> string" where
  "to_lower (a # b # c # s) =
    (if a = CHR 0xC4 \<and> b = CHR 0xB0 then CHR ''i'' # CHR 0xCC # CHR 0x87 # to_lower (c # s)
     else if a = CHR 0xE2 \<and> b = CHR 0x84 \<and> c = CHR 0xAA then CHR ''k'' # to_lower s
     else lower_char a # to_lower (b # c # s))"
| "to_lower [a, b] =
    (if a = CHR 0xC4 \<and> b = CHR 0xB0 then [CHR ''i'', CHR 0xCC, CHR 0x87]
     else [lower_char a, lower_char b])"
| "to_lower [a] = [lower_char a]"
| "to_lower [] = []"

text \<open>\<open>strings.EqualFold\<close>: ASCII letters, and the two other letters that fold to an ASCII one (U+017F
  and U+212A).  Other letters are compared as they are: what the program compares this way, names
  of users and repositories and the configured comment, is compared with ASCII text.\<close>

fun fold_case :: "string \<Rightarrow> string" where
  "fold_case (a # b # c # s) =
    (if a = CHR 0xC5 \<and> b = CHR 0xBF then CHR ''s'' # fold_case (c # s)
     else if a = CHR 0xE2 \<and> b = CHR 0x84 \<and> c = CHR 0xAA then CHR ''k'' # fold_case s
     else lower_char a # fold_case (b # c # s))"
| "fold_case [a, b] =
    (if a = CHR 0xC5 \<and> b = CHR 0xBF then ''s'' else [lower_char a, lower_char b])"
| "fold_case [a] = [lower_char a]"
| "fold_case [] = []"

definition EqualFold :: "string \<Rightarrow> string \<Rightarrow> bool" where
  "EqualFold s t = (fold_case s = fold_case t)"

lemma EqualFold_refl [simp]: "EqualFold s s"
  by (simp add: EqualFold_def)

section \<open>Splitting, joining, numbers\<close>

fun split_after_nl :: "string \<Rightarrow> string list" where
  "split_after_nl [] = [[]]"
| "split_after_nl (c # s) =
    (if c = nl then [c] # split_after_nl s
     else case split_after_nl s of [] \<Rightarrow> [[c]] | l # ls \<Rightarrow> (c # l) # ls)"

fun split_char :: "char \<Rightarrow> string \<Rightarrow> string list" where
  "split_char d [] = [[]]"
| "split_char d (c # s) =
    (if c = d then [] # split_char d s
     else case split_char d s of [] \<Rightarrow> [[c]] | l # ls \<Rightarrow> (c # l) # ls)"

fun str_join :: "string \<Rightarrow> string list \<Rightarrow> string" where
  "str_join sep [] = []"
| "str_join sep [x] = x"
| "str_join sep (x # y # ys) = x @ sep @ str_join sep (y # ys)"

fun itoa :: "nat \<Rightarrow> string" where
  "itoa n = (if n < 10 then [char_of (48 + n)] else itoa (n div 10) @ [char_of (48 + n mod 10)])"

declare itoa.simps [simp del]

text \<open>\<open>utf8.RuneStart\<close>: a byte is a continuation byte when its top bits are 10.\<close>

definition rune_start :: "char \<Rightarrow> bool" where
  "rune_start c = ((of_char c :: nat) div 64 \<noteq> 2)"

lemma split_after_nl_nonempty [simp]: "split_after_nl s \<noteq> []"
  by (induction s) (auto split: list.splits)

lemma split_char_nonempty [simp]: "split_char d s \<noteq> []"
  by (induction s) (auto split: list.splits)

lemma concat_split_after_nl [simp]: "concat (split_after_nl s) = s"
  by (induction s) (auto split: list.splits)

lemma str_join_Cons: "ys \<noteq> [] \<Longrightarrow> str_join sep (x # ys) = x @ sep @ str_join sep ys"
  by (cases ys) auto

lemma str_join_split_char [simp]: "str_join [d] (split_char d s) = s"
proof (induction s)
  case (Cons c s)
  show ?case
  proof (cases "split_char d s")
    case Nil then show ?thesis by simp
  next
    case (Cons l ls)
    then show ?thesis using Cons.IH by (cases ls) auto
  qed
qed simp

lemma split_char_no_sep: "x \<in> set (split_char d s) \<Longrightarrow> d \<notin> set x"
  by (induction s arbitrary: x) (auto split: list.splits if_splits)

lemma str_join_empty: "str_join [] xs = concat xs"
  by (induction "[]::string" xs rule: str_join.induct) auto

lemma itoa_nonempty [simp]: "itoa n \<noteq> []"
  by (subst itoa.simps) auto

lemma itoa_length_mono: "m \<le> n \<Longrightarrow> length (itoa m) \<le> length (itoa n)"
proof (induction n arbitrary: m rule: itoa.induct)
  case (1 n)
  show ?case
  proof (cases "m < 10")
    case True
    then show ?thesis
      using itoa_nonempty[of n] by (subst itoa.simps) (simp add: Suc_leI)
  next
    case False
    then have "\<not> n < 10" using 1 by simp
    then have "length (itoa (m div 10)) \<le> length (itoa (n div 10))"
      using 1 div_le_mono by blast
    then show ?thesis using False \<open>\<not> n < 10\<close> by (simp add: itoa.simps[of m] itoa.simps[of n])
  qed
qed

lemma itoa_length_le: "length (itoa n) \<le> Suc n"
proof (induction n rule: itoa.induct)
  case (1 n)
  then show ?case by (cases "n < 10") (subst itoa.simps, force)+
qed


text \<open>A proper line ends with a newline and has no other.\<close>

definition proper_line :: "string \<Rightarrow> bool" where
  "proper_line l = (l \<noteq> [] \<and> last l = nl \<and> nl \<notin> set (butlast l))"

lemma split_after_nl_proper:
  assumes "proper_line l"
  shows "split_after_nl (l @ t) = l # split_after_nl t"
proof -
  have "nl \<notin> set x \<Longrightarrow> split_after_nl (x @ nl # t) = (x @ [nl]) # split_after_nl t" for x
    by (induction x) (auto split: list.splits)
  from this[of "butlast l"] show ?thesis
    using assms append_butlast_last_id[of l] unfolding proper_line_def
    by (metis append.assoc append_Cons append_Nil)
qed

lemma split_after_nl_concat:
  "\<forall>l\<in>set ls. proper_line l \<Longrightarrow> split_after_nl (concat ls @ t) = ls @ split_after_nl t"
  by (induction ls) (auto simp: split_after_nl_proper)

lemma split_after_nl_lines:
  assumes "s = [] \<or> last s = nl" "l \<in> set (split_after_nl s)" "l \<noteq> []"
  shows "proper_line l"
  using assms
proof (induction s arbitrary: l)
  case (Cons c s)
  show ?case
  proof (cases "c = nl")
    case True
    then show ?thesis using Cons by (cases "s = []") (auto simp: proper_line_def)
  next
    case False
    then have s: "s \<noteq> []" "last s = nl" using Cons.prems(1) by (auto split: if_splits)
    obtain m ms where ms: "split_after_nl s = m # ms" by (cases "split_after_nl s") auto
    have "m \<noteq> []" using ms s(1) by (cases s) (auto split: if_splits list.splits)
    then have "proper_line m" using Cons.IH[of m] s ms by simp
    moreover have "l = c # m \<or> l \<in> set ms" using Cons.prems(2) ms False by auto
    ultimately show ?thesis
      using Cons.IH[of l] Cons.prems(3) s ms False by (auto simp: proper_line_def)
  qed
qed simp


lemma trim_space_left_drop: "\<exists>k. trim_space_left s = drop k s"
proof (induction s rule: trim_space_left.induct)
  case (1 s)
  show ?case
  proof (cases "space_len s = 0")
    case True
    then have "trim_space_left s = drop 0 s" by (subst trim_space_left.simps) simp
    then show ?thesis by blast
  next
    case False
    then obtain k where "trim_space_left (drop (space_len s) s) = drop k (drop (space_len s) s)"
      using 1 by blast
    then have "trim_space_left s = drop (k + space_len s) s"
      using False by (subst trim_space_left.simps) simp
    then show ?thesis by blast
  qed
qed

lemma trim_space_left_rev_set: "set (trim_space_left_rev s) \<subseteq> set s"
proof (induction s rule: trim_space_left_rev.induct)
  case (1 s)
  show ?case
  proof (cases "space_len_rev s = 0")
    case True
    then have "trim_space_left_rev s = s" by (subst trim_space_left_rev.simps) simp
    then show ?thesis by simp
  next
    case False
    then have "trim_space_left_rev s = trim_space_left_rev (drop (space_len_rev s) s)"
      by (subst trim_space_left_rev.simps) simp
    then show ?thesis using 1[OF False] set_drop_subset by (metis order_trans)
  qed
qed

lemma trim_space_set: "set (trim_space s) \<subseteq> set s"
  unfolding trim_space_def
  using trim_space_left_rev_set[of "rev (trim_space_left s)"] trim_space_left_drop[of s]
  by (metis order_trans set_drop_subset set_rev)

lemma trim_space_no_nl:
  assumes "nl \<notin> set (butlast s)"
  shows "nl \<notin> set (trim_space s)"
proof -
  obtain k where t: "trim_space_left s = drop k s" using trim_space_left_drop by blast
  show ?thesis
  proof (cases "drop k s = [] \<or> last (drop k s) \<noteq> nl")
    case True
    have "nl \<notin> set (drop k s)"
      using True assms append_butlast_last_id[of "drop k s"] in_set_dropD[of nl k "butlast s"]
      by (metis Un_iff butlast_drop empty_iff empty_set list.set(2) insert_iff set_append)
    then show ?thesis
      unfolding trim_space_def t using trim_space_left_rev_set[of "rev (drop k s)"] by auto
  next
    case False
    let ?y = "rev (butlast (drop k s))"
    have r: "rev (drop k s) = nl # ?y"
      using False by (metis append_butlast_last_id rev_eq_Cons_iff rev_rev_ident)
    have "trim_space_left_rev (nl # ?y) = trim_space_left_rev ?y"
      by (subst trim_space_left_rev.simps) (simp add: ascii_space_def)
    moreover have "nl \<notin> set ?y"
      using assms by (metis butlast_drop in_set_dropD set_rev)
    ultimately show ?thesis
      unfolding trim_space_def t r using trim_space_left_rev_set[of ?y] by auto
  qed
qed

end
