(* ===== verification/RepoUrl.thy ===== *)
theory RepoUrl
  imports GoStrings
begin

text \<open>
  \<open>pkg/repoUrl.go\<close>: repository URLs in their canonical form, the key under which queues,
  caches and application indexes are kept.  The two URL parsers the code chooses between
  (\<open>net/url\<close> for http, \<open>git-urls\<close> for the rest) are not under \<open>src/\<close>; they are the fields
  of a record that every definition takes.
\<close>

record url_parts =
  u_Host :: string
  u_Path :: string
  u_Query :: "(string \<times> string) list"

record url_parsers =
  up_http :: "string \<Rightarrow> string + url_parts"
  up_git :: "string \<Rightarrow> string + url_parts"

record repo_url =
  ru_Host :: string
  ru_Path :: string

definition CloneURL :: "repo_url \<Rightarrow> string \<Rightarrow> string" where
  "CloneURL r username =
    (if username \<noteq> [] then ''https://'' @ username @ ''@'' @ ru_Host r @ ''/'' @ ru_Path r
     else ''https://'' @ ru_Host r @ ''/'' @ ru_Path r)"

definition NormalizeRepoUrl ::
  "url_parsers \<Rightarrow> string \<Rightarrow> string + (repo_url \<times> (string \<times> string) list)" where
  "NormalizeRepoUrl ps s =
    (let parser = (if has_prefix s ''http'' then up_http ps else up_git ps) in
     case parser s of
       Inl err \<Rightarrow> Inl err
     | Inr r \<Rightarrow>
         let path = trim_prefix (u_Path r) ''/'';
             path = trim_suffix path ''.git''
         in Inr (\<lparr>ru_Host = u_Host r, ru_Path = path\<rparr>, u_Query r))"

definition Canonicalize :: "url_parsers \<Rightarrow> string \<Rightarrow> string + repo_url" where
  "Canonicalize ps cloneURL =
    (case NormalizeRepoUrl ps cloneURL of
       Inl err \<Rightarrow> Inl (''failed to parse clone url: '' @ err)
     | Inr (parsed, _) \<Rightarrow> Inr parsed)"

definition AreSameRepos :: "url_parsers \<Rightarrow> string \<Rightarrow> string \<Rightarrow> bool" where
  "AreSameRepos ps url1 url2 =
    (case Canonicalize ps url1 of
       Inl _ \<Rightarrow> False
     | Inr repo1 \<Rightarrow> (case Canonicalize ps url2 of Inl _ \<Rightarrow> False | Inr repo2 \<Rightarrow> repo1 = repo2))"

lemma AreSameRepos_iff:
  "AreSameRepos ps a b \<longleftrightarrow> (\<exists>r. Canonicalize ps a = Inr r \<and> Canonicalize ps b = Inr r)"
  by (auto simp: AreSameRepos_def split: sum.splits)

lemma AreSameRepos_sym: "AreSameRepos ps a b = AreSameRepos ps b a"
  by (auto simp: AreSameRepos_iff)

lemma AreSameRepos_trans: "AreSameRepos ps a b \<Longrightarrow> AreSameRepos ps b c \<Longrightarrow> AreSameRepos ps a c"
  by (auto simp: AreSameRepos_iff)

text \<open>What the http parser documents for an https URL of the shape that \<open>CloneURL\<close> prints: the
  user info is dropped from the host and the path keeps its leading slash.\<close>

definition parses_clone_url :: "url_parsers \<Rightarrow> repo_url \<Rightarrow> string \<Rightarrow> bool" where
  "parses_clone_url ps r username =
    (case up_http ps (CloneURL r username) of
       Inl _ \<Rightarrow> False
     | Inr u \<Rightarrow> u_Host u = ru_Host r \<and> u_Path u = ''/'' @ ru_Path r)"

lemma Canonicalize_CloneURL:
  assumes "parses_clone_url ps r username" "\<not> has_suffix (ru_Path r) ''.git''"
  shows "Canonicalize ps (CloneURL r username) = Inr r"
proof -
  have "has_prefix (CloneURL r username) ''http''" by (auto simp: CloneURL_def)
  moreover have "trim_prefix (CHR ''/'' # ru_Path r) ''/'' = ru_Path r"
    using trim_prefix_append[of "''/''" "ru_Path r"] by simp
  ultimately show ?thesis
    using assms by (auto simp: parses_clone_url_def Canonicalize_def NormalizeRepoUrl_def Let_def
        trim_suffix_def split: sum.splits)
qed

section \<open>Property\<close>

text \<open>The clone URL of a canonical repository, with or without the user name, is recognised as
  that repository: printing a URL for git and reading it back gives the same repository, so
  that a repository keeps a single queue, cache entry and application index.\<close>

theorem clone_url_is_same_repo:
  assumes "parses_clone_url ps r u" "parses_clone_url ps r v" "\<not> has_suffix (ru_Path r) ''.git''"
  shows "Canonicalize ps (CloneURL r u) = Inr r \<and> AreSameRepos ps (CloneURL r u) (CloneURL r v)"
  using Canonicalize_CloneURL assms by (auto simp: AreSameRepos_iff)

text \<open>A parser for the two URLs of the witness.\<close>

definition demo_parsers :: url_parsers where
  "demo_parsers = \<lparr>up_http = (\<lambda>s.
      if s \<in> {''https://git.io/a/b'', ''https://bot@git.io/a/b''}
      then Inr \<lparr>u_Host = ''git.io'', u_Path = ''/a/b'', u_Query = []\<rparr> else Inl ''bad''),
    up_git = (\<lambda>_. Inl ''bad'')\<rparr>"

theorem clone_url_is_same_repo_witness:
  "AreSameRepos demo_parsers ''https://git.io/a/b'' ''https://bot@git.io/a/b''"
proof -
  let ?r = "\<lparr>ru_Host = ''git.io'', ru_Path = ''a/b''\<rparr>"
  have "parses_clone_url demo_parsers ?r []" "parses_clone_url demo_parsers ?r ''bot''"
    by (simp_all add: parses_clone_url_def demo_parsers_def CloneURL_def)
  moreover have "\<not> has_suffix (ru_Path ?r) ''.git''" by (simp add: has_suffix_def)
  ultimately show ?thesis
    using clone_url_is_same_repo[of demo_parsers ?r "[]" "''bot''"] by (simp add: CloneURL_def)
qed

end
