(* ===== verification/CommitState.thy ===== *)
theory CommitState
  imports Prelude GoStrings
begin

text \<open>
  \<open>pkg/commitState.go\<close>: the state of a check, a \<open>uint8\<close> ordered from best to worst, the
  rendering and parsing of its name, and the two folds \<open>WorstState\<close> and \<open>BestState\<close>.
  Every component that reports a result combines states with these two, so what the
  rest of the development relies on is stated once, as the locale of a state
  combiner, and interpreted for both.
\<close>

section \<open>The enumeration\<close>

datatype commit_state = CommitState (state_code: "8 word")

instantiation commit_state :: linorder
begin

definition less_eq_commit_state :: "commit_state \<Rightarrow> commit_state \<Rightarrow> bool" where
  "less_eq_commit_state s t = (state_code s \<le> state_code t)"

definition less_commit_state :: "commit_state \<Rightarrow> commit_state \<Rightarrow> bool" where
  "less_commit_state s t = (state_code s < state_code t)"

instance
  by standard (auto simp: less_eq_commit_state_def less_commit_state_def commit_state.expand)

end

definition StateNone :: commit_state where "StateNone = CommitState 0"
definition StateSkip :: commit_state where "StateSkip = CommitState 1"
definition StateSuccess :: commit_state where "StateSuccess = CommitState 2"
definition StateRunning :: commit_state where "StateRunning = CommitState 3"
definition StateWarning :: commit_state where "StateWarning = CommitState 4"
definition StateFailure :: commit_state where "StateFailure = CommitState 5"
definition StateError :: commit_state where "StateError = CommitState 6"
definition StatePanic :: commit_state where "StatePanic = CommitState 7"

lemmas state_defs = StateNone_def StateSkip_def StateSuccess_def StateRunning_def
  StateWarning_def StateFailure_def StateError_def StatePanic_def

lemma StateNone_least [simp]: "StateNone \<le> s"
  by (simp add: less_eq_commit_state_def StateNone_def)

section \<open>Names\<close>

definition defaultString :: string where
  "defaultString = ''Unknown''"

definition stateString :: "commit_state \<Rightarrow> string option" where
  "stateString = [StateNone \<mapsto> '''', StateSkip \<mapsto> ''Skipped'', StateSuccess \<mapsto> ''Passed'',
     StateRunning \<mapsto> ''Running'', StateWarning \<mapsto> ''Warning'', StateFailure \<mapsto> ''Failed'',
     StateError \<mapsto> ''Error'', StatePanic \<mapsto> ''Panic'']"

definition BareString :: "commit_state \<Rightarrow> string" where
  "BareString s = (case stateString s of None \<Rightarrow> defaultString | Some text \<Rightarrow> text)"

definition ParseCommitState :: "string \<Rightarrow> string + commit_state" where
  "ParseCommitState s =
    (let l = to_lower s in
     if l = ''success'' then Inr StateSuccess
     else if l = ''running'' then Inr StateRunning
     else if l = ''warning'' then Inr StateWarning
     else if l = ''failure'' then Inr StateFailure
     else if l = ''error'' then Inr StateError
     else if l = ''panic'' then Inr StatePanic
     else if l = ''skip'' \<or> l = ''skipped'' then Inr StateSkip
     else Inl (''unknown commit state: '' @ s))"

section \<open>Combining states\<close>

definition WorstState :: "commit_state \<Rightarrow> commit_state \<Rightarrow> commit_state" where
  "WorstState l1 l2 = max l1 l2"

definition BestState :: "commit_state \<Rightarrow> commit_state \<Rightarrow> commit_state" where
  "BestState l1 l2 = min l1 l2"

section \<open>What the two combiners promise\<close>

text \<open>Callers fold a combiner over results in the order of a map iteration or of goroutine
  completion.  The contract that makes this harmless is associativity, commutativity and
  idempotence; with a neutral start value the fold depends on the set of results only.\<close>

locale combiner =
  fixes comb :: "'s \<Rightarrow> 's \<Rightarrow> 's"
  assumes comb_assoc: "comb (comb a b) c = comb a (comb b c)"
    and comb_commute: "comb a b = comb b a"
    and comb_idem: "comb a a = a"
begin

lemma comb_left_commute: "comb a (comb b c) = comb b (comb a c)"
  by (metis comb_assoc comb_commute)

lemma foldl_absorb: "foldl comb (comb a s) xs = comb a (foldl comb s xs)"
  by (induction xs arbitrary: s) (simp_all add: comb_assoc)

lemma foldl_mset: "mset xs = mset ys \<Longrightarrow> foldl comb s xs = foldl comb s ys"
proof (induction xs arbitrary: ys s)
  case (Cons x xs)
  then have "x \<in> set ys" by (metis list.set_intros(1) set_mset_mset)
  then obtain us vs where ys: "ys = us @ x # vs" by (meson split_list)
  then have "mset xs = mset (us @ vs)" using Cons.prems by simp
  then have "foldl comb s xs = foldl comb s (us @ vs)" by (rule Cons.IH)
  then have "comb x (foldl comb s xs) = comb x (foldl comb s (us @ vs))" by simp
  then have "foldl comb s (x # xs) = foldl comb (comb x (foldl comb s us)) vs"
    using foldl_absorb[of x s xs] foldl_absorb[of x "foldl comb s us" vs]
    by (simp add: comb_commute[of s x])
  also have "comb x (foldl comb s us) = comb (foldl comb s us) x"
    by (rule comb_commute)
  finally show ?case using ys by simp
qed simp

lemma foldl_member: "x \<in> set xs \<Longrightarrow> comb x (foldl comb s xs) = foldl comb s xs"
proof (induction xs arbitrary: s)
  case (Cons y ys)
  show ?case
  proof (cases "x = y")
    case True
    then show ?thesis
      by (simp add: foldl_absorb[symmetric] comb_left_commute comb_idem)
  next
    case False
    then show ?thesis using Cons by simp
  qed
qed simp

end

locale neutral_combiner = combiner +
  fixes neutral :: 's
  assumes comb_neutral: "comb neutral a = a"
begin

lemma foldl_start: "foldl comb a xs = comb a (foldl comb neutral xs)"
  by (metis comb_commute comb_neutral foldl_absorb)

lemma foldl_concat: "foldl comb a (concat xss) = foldl comb a (map (foldl comb neutral) xss)"
  by (induction xss arbitrary: a) (simp_all add: foldl_start[symmetric])

end

interpretation worst: neutral_combiner WorstState StateNone
  by unfold_locales (auto simp: WorstState_def max.assoc max.commute max_def antisym)

interpretation best: combiner BestState
  unfolding BestState_def by unfold_locales (rule min.assoc, rule min.commute, rule min.idem)

lemma WorstState_ge: "s \<le> WorstState s t" "t \<le> WorstState s t"
  by (auto simp: WorstState_def)

lemma WorstState_None_iff [simp]:
  "WorstState s t = StateNone \<longleftrightarrow> s = StateNone \<and> t = StateNone"
  unfolding WorstState_def by (metis StateNone_least antisym max.cobounded1 max.cobounded2 max.idem)

lemma foldl_WorstState_Max: "foldl WorstState s xs = Max (insert s (set xs))"
proof (induction xs arbitrary: s)
  case (Cons x xs)
  have "foldl WorstState s (x # xs) = Max (insert (max s x) (set xs))"
    using Cons[of "max s x"] unfolding WorstState_def by (simp only: foldl_Cons)
  also have "\<dots> = Max (insert s (set (x # xs)))"
    by (cases "xs = []") (auto simp: max.assoc)
  finally show ?case .
qed simp

end
