(* ===== verification/VcsTypes.thy ===== *)
theory VcsTypes
  imports CommitState
begin

text \<open>
  \<open>pkg/vcs/repo.go\<close> and \<open>types.go\<close>: the pull request that every component passes around and the
  code suggestions of a review.  The embedded server configuration is a record of its own where
  a component reads it.
\<close>

record pull_request =
  pr_BaseRef :: string
  pr_HeadRef :: string
  pr_DefaultBranch :: string
  pr_Remote :: string
  pr_CloneURL :: string
  pr_Name :: string
  pr_Owner :: string
  pr_CheckID :: int
  pr_SHA :: string
  pr_FullName :: string
  pr_Username :: string
  pr_Email :: string
  pr_Labels :: "string list"
  pr_Title :: string
  pr_Description :: string

definition pr_zero :: pull_request where
  "pr_zero = \<lparr>pr_BaseRef = [], pr_HeadRef = [], pr_DefaultBranch = [], pr_Remote = [], pr_CloneURL = [],
     pr_Name = [], pr_Owner = [], pr_CheckID = 0, pr_SHA = [], pr_FullName = [], pr_Username = [],
     pr_Email = [], pr_Labels = [], pr_Title = [], pr_Description = []\<rparr>"

text \<open>A suggested replacement of the lines from \<open>sg_StartLine\<close> (0 for one line) to \<open>sg_EndLine\<close>.\<close>

record review_suggestion =
  sg_Path :: string
  sg_StartLine :: int
  sg_EndLine :: int
  sg_Body :: string
  sg_Suggestion :: string

end
