(* ===== verification/RepoQueue.thy ===== *)
theory RepoQueue
  imports RepoUrl VcsTypes
begin

text \<open>
  \<open>pkg/queue/manager.go\<close>: one bounded queue and one worker per repository.  A request first
  supersedes (it records its commit as the one to check and cancels a running check of an
  older commit), then tries to send without blocking; the worker receives, begins (or skips
  a commit the pull request has moved past), checks, and ends.  The methods are functions on
  the queue's record; the goroutines that interleave them are the step relation \<open>qstep\<close>,
  in which superseding and sending are separate steps because the code holds no lock between
  them.  Contexts are numbered; the map \<open>q_causes\<close> holds the first cause a context was
  cancelled with.  Metrics and log lines are left out.
\<close>

section \<open>State\<close>

datatype cause = ErrCheckSuperseded | Finished | RootCancelled

record runningCheck =
  rc_sha :: string
  rc_ctx :: nat

record repo_queue =
  q_cap :: nat
  q_items :: "pull_request list"
  q_latestSHA :: "int \<Rightarrow> string option"
  q_running :: "int \<Rightarrow> runningCheck option"
  q_causes :: "nat \<Rightarrow> cause option"
  q_nextCtx :: nat
  q_rootDone :: bool
  q_closed :: bool
  q_processed :: nat

definition newQueue :: "nat \<Rightarrow> repo_queue" where
  "newQueue cap =
    \<lparr>q_cap = cap, q_items = [], q_latestSHA = (\<lambda>_. None), q_running = (\<lambda>_. None),
     q_causes = (\<lambda>_. None), q_nextCtx = 0, q_rootDone = False, q_closed = False, q_processed = 0\<rparr>"

definition cancelCtx :: "nat \<Rightarrow> cause \<Rightarrow> repo_queue \<Rightarrow> repo_queue" where
  "cancelCtx c why q =
    (case q_causes q c of Some _ \<Rightarrow> q | None \<Rightarrow> q\<lparr>q_causes := (q_causes q)(c \<mapsto> why)\<rparr>)"

section \<open>Operations\<close>

definition supersede :: "pull_request \<Rightarrow> repo_queue \<Rightarrow> repo_queue" where
  "supersede pr q =
    (let q = q\<lparr>q_latestSHA := (q_latestSHA q)(pr_CheckID pr \<mapsto> pr_SHA pr)\<rparr> in
     case q_running q (pr_CheckID pr) of
       Some r \<Rightarrow> if rc_sha r \<noteq> pr_SHA pr then cancelCtx (rc_ctx r) ErrCheckSuperseded q else q
     | None \<Rightarrow> q)"

text \<open>The non-blocking send of \<open>Enqueue\<close>: \<open>None\<close> when the queue is full.\<close>

definition trySend :: "pull_request \<Rightarrow> repo_queue \<Rightarrow> repo_queue option" where
  "trySend pr q =
    (if length (q_items q) < q_cap q then Some (q\<lparr>q_items := q_items q @ [pr]\<rparr>) else None)"

definition begin_check :: "pull_request \<Rightarrow> repo_queue \<Rightarrow> nat option \<times> repo_queue" where
  "begin_check pr q =
    (if (case q_latestSHA q (pr_CheckID pr) of Some latest \<Rightarrow> latest \<noteq> pr_SHA pr | None \<Rightarrow> False)
     then (None, q)
     else let c = q_nextCtx q;
              q = q\<lparr>q_nextCtx := Suc c,
                    q_running := (q_running q)(pr_CheckID pr \<mapsto> \<lparr>rc_sha = pr_SHA pr, rc_ctx = c\<rparr>)\<rparr>;
              q = (if q_rootDone q then cancelCtx c RootCancelled q else q)
          in (Some c, q))"

definition end_check :: "pull_request \<Rightarrow> repo_queue \<Rightarrow> repo_queue" where
  "end_check pr q =
    (let q = (case q_running q (pr_CheckID pr) of
          Some r \<Rightarrow> if rc_sha r = pr_SHA pr
            then (cancelCtx (rc_ctx r) Finished q)\<lparr>q_running := (q_running q)(pr_CheckID pr := None)\<rparr>
            else q
        | None \<Rightarrow> q)
     in if (case q_latestSHA q (pr_CheckID pr) of Some l \<Rightarrow> l | None \<Rightarrow> []) = pr_SHA pr
        then q\<lparr>q_latestSHA := (q_latestSHA q)(pr_CheckID pr := None)\<rparr> else q)"

definition countProcessed :: "bool \<Rightarrow> repo_queue \<Rightarrow> repo_queue" where
  "countProcessed ok q = (if ok then q\<lparr>q_processed := Suc (q_processed q)\<rparr> else q)"

text \<open>\<open>cancelAll\<close> at the end of a shutdown that timed out: every context derived from the root.\<close>

definition cancelRoot :: "repo_queue \<Rightarrow> repo_queue" where
  "cancelRoot q = q\<lparr>q_rootDone := True,
     q_causes := (\<lambda>c. if c < q_nextCtx q \<and> q_causes q c = None then Some RootCancelled else q_causes q c)\<rparr>"

text \<open>\<open>notifyDroppedRequests\<close>: the queue is drained, the last request of every pull request is
  kept, and its pull request gets one message.  \<open>order\<close> enumerates the keys of the map.\<close>

definition drainMap :: "pull_request list \<Rightarrow> int \<Rightarrow> pull_request option" where
  "drainMap items = foldl (\<lambda>m r. m(pr_CheckID r \<mapsto> r)) (\<lambda>_. None) items"

definition notifyDropped :: "int list \<Rightarrow> pull_request list \<Rightarrow> pull_request list" where
  "notifyDropped order items = map (\<lambda>k. the (drainMap items k)) order"

section \<open>The queue manager\<close>

record queue_manager =
  qm_queues :: "repo_queue strmap"
  qm_queueSize :: int
  qm_rootDone :: bool

definition NewQueueManager :: "int \<Rightarrow> queue_manager" where
  "NewQueueManager sz =
    \<lparr>qm_queues = (\<lambda>_. None), qm_queueSize = (if sz \<le> 0 then 100 else sz), qm_rootDone = False\<rparr>"

definition repoKey :: "repo_url \<Rightarrow> string" where
  "repoKey r = ru_Host r @ ''/'' @ ru_Path r"

text \<open>The double-checked locking of \<open>Enqueue\<close>: whatever the read lock showed, the queue is
  created only when it is still missing under the write lock.\<close>

definition getOrCreate :: "string \<Rightarrow> queue_manager \<Rightarrow> queue_manager" where
  "getOrCreate key qm =
    (case qm_queues qm key of
       Some _ \<Rightarrow> qm
     | None \<Rightarrow> qm\<lparr>qm_queues := (qm_queues qm)(key \<mapsto>
         (newQueue (nat (qm_queueSize qm)))\<lparr>q_rootDone := qm_rootDone qm\<rparr>)\<rparr>)"

datatype enqueue_result = Enqueued | QueueFull | BadURL string

definition Enqueue :: "url_parsers \<Rightarrow> pull_request \<Rightarrow> queue_manager \<Rightarrow> enqueue_result \<times> queue_manager" where
  "Enqueue ps pr qm =
    (case Canonicalize ps (pr_CloneURL pr) of
       Inl err \<Rightarrow> (BadURL (''failed to canonicalize repo URL: '' @ err), qm)
     | Inr r \<Rightarrow>
         let key = repoKey r;
             qm = getOrCreate key qm;
             q = supersede pr (the (qm_queues qm key))
         in case trySend pr q of
              Some q' \<Rightarrow> (Enqueued, qm\<lparr>qm_queues := (qm_queues qm)(key \<mapsto> q')\<rparr>)
            | None \<Rightarrow> (QueueFull, qm\<lparr>qm_queues := (qm_queues qm)(key \<mapsto> q)\<rparr>))"

definition GetStats :: "string list \<Rightarrow> queue_manager \<Rightarrow> nat \<times> (string \<times> nat \<times> nat \<times> nat) list" where
  "GetStats order qm = (length order,
     map (\<lambda>k. let q = the (qm_queues qm k) in (k, length (q_items q), q_cap q, q_processed q)) order)"

section \<open>Interleavings\<close>

datatype worker = Idle | Received pull_request | Checking pull_request nat | Stopped

text \<open>The goroutines of one repository: the requests that have superseded and not sent yet, the
  worker, and what has happened so far (accepted, taken, rejected and dropped requests).\<close>

record sys =
  s_q :: repo_queue
  s_pending :: "pull_request list"
  s_worker :: worker
  s_accepted :: "pull_request list"
  s_taken :: "pull_request list"
  s_rejected :: "pull_request list"
  s_dropped :: "pull_request list"

definition initial :: "nat \<Rightarrow> sys" where
  "initial cap = \<lparr>s_q = newQueue cap, s_pending = [], s_worker = Idle, s_accepted = [],
     s_taken = [], s_rejected = [], s_dropped = []\<rparr>"

inductive qstep :: "sys \<Rightarrow> sys \<Rightarrow> bool" where
  Supersede: "qstep s (s\<lparr>s_q := supersede r (s_q s), s_pending := s_pending s @ [r]\<rparr>)"
| SendOk: "r \<in> set (s_pending s) \<Longrightarrow> trySend r (s_q s) = Some q \<Longrightarrow>
    qstep s (s\<lparr>s_q := q, s_pending := remove1 r (s_pending s), s_accepted := s_accepted s @ [r]\<rparr>)"
| SendFull: "r \<in> set (s_pending s) \<Longrightarrow> trySend r (s_q s) = None \<Longrightarrow>
    qstep s (s\<lparr>s_pending := remove1 r (s_pending s), s_rejected := s_rejected s @ [r]\<rparr>)"
| Receive: "s_worker s = Idle \<Longrightarrow> q_items (s_q s) = r # rs \<Longrightarrow>
    qstep s (s\<lparr>s_q := (s_q s)\<lparr>q_items := rs\<rparr>, s_worker := Received r, s_taken := s_taken s @ [r]\<rparr>)"
| Begin: "s_worker s = Received r \<Longrightarrow> begin_check r (s_q s) = (Some c, q) \<Longrightarrow>
    qstep s (s\<lparr>s_q := q, s_worker := Checking r c\<rparr>)"
| Skip: "s_worker s = Received r \<Longrightarrow> begin_check r (s_q s) = (None, q) \<Longrightarrow>
    qstep s (s\<lparr>s_q := q, s_worker := Idle\<rparr>)"
| Finish: "s_worker s = Checking r c \<Longrightarrow>
    qstep s (s\<lparr>s_q := end_check r (countProcessed ok (s_q s)), s_worker := Idle\<rparr>)"
| Close: "qstep s (s\<lparr>s_q := (s_q s)\<lparr>q_closed := True\<rparr>\<rparr>)"
| CancelAll: "qstep s (s\<lparr>s_q := cancelRoot (s_q s)\<rparr>)"
| Drain: "s_worker s = Idle \<Longrightarrow> q_closed (s_q s) \<Longrightarrow>
    qstep s (s\<lparr>s_q := (s_q s)\<lparr>q_items := []\<rparr>, s_worker := Stopped,
               s_dropped := s_dropped s @ q_items (s_q s)\<rparr>)"

inductive reachable :: "nat \<Rightarrow> sys \<Rightarrow> bool" for cap where
  start: "reachable cap (initial cap)"
| next_state: "reachable cap s \<Longrightarrow> qstep s s' \<Longrightarrow> reachable cap s'"

lemma reachable_invariant:
  assumes "reachable cap s" "I (initial cap)" "\<And>s s'. I s \<Longrightarrow> qstep s s' \<Longrightarrow> I s'"
  shows "I s"
  using assms by (induction rule: reachable.induct) auto

subsection \<open>What the operations leave alone\<close>

lemma cancelCtx_frame [simp]:
  "q_cap (cancelCtx c w q) = q_cap q" "q_items (cancelCtx c w q) = q_items q"
  "q_latestSHA (cancelCtx c w q) = q_latestSHA q" "q_running (cancelCtx c w q) = q_running q"
  "q_nextCtx (cancelCtx c w q) = q_nextCtx q" "q_rootDone (cancelCtx c w q) = q_rootDone q"
  "q_closed (cancelCtx c w q) = q_closed q" "q_processed (cancelCtx c w q) = q_processed q"
  by (simp_all add: cancelCtx_def split: option.splits)

lemma cancelCtx_causes [simp]:
  "q_causes (cancelCtx c w q) d = (if d = c \<and> q_causes q c = None then Some w else q_causes q d)"
  by (auto simp: cancelCtx_def split: option.splits)

lemma supersede_frame [simp]:
  "q_cap (supersede r q) = q_cap q" "q_items (supersede r q) = q_items q"
  "q_running (supersede r q) = q_running q" "q_nextCtx (supersede r q) = q_nextCtx q"
  "q_closed (supersede r q) = q_closed q"
  "q_latestSHA (supersede r q) = (q_latestSHA q)(pr_CheckID r \<mapsto> pr_SHA r)"
  by (simp_all add: supersede_def Let_def split: option.splits)

lemma supersede_causes:
  "q_causes (supersede r q) d =
    (case q_running q (pr_CheckID r) of
       Some rc \<Rightarrow> if rc_sha rc \<noteq> pr_SHA r \<and> d = rc_ctx rc \<and> q_causes q d = None
                 then Some ErrCheckSuperseded else q_causes q d
     | None \<Rightarrow> q_causes q d)"
  by (auto simp: supersede_def Let_def split: option.splits)

lemma countProcessed_frame [simp]:
  "q_cap (countProcessed ok q) = q_cap q" "q_items (countProcessed ok q) = q_items q"
  "q_latestSHA (countProcessed ok q) = q_latestSHA q" "q_running (countProcessed ok q) = q_running q"
  "q_nextCtx (countProcessed ok q) = q_nextCtx q" "q_causes (countProcessed ok q) = q_causes q"
  by (simp_all add: countProcessed_def)

lemma end_check_frame [simp]:
  "q_cap (end_check r q) = q_cap q" "q_items (end_check r q) = q_items q"
  "q_nextCtx (end_check r q) = q_nextCtx q"
  by (simp_all add: end_check_def Let_def split: option.splits)

lemma end_check_latest:
  "q_latestSHA (end_check r q) i = Some l \<Longrightarrow>
   q_latestSHA q i = Some l \<and> (i = pr_CheckID r \<longrightarrow> l \<noteq> pr_SHA r)"
  by (auto simp: end_check_def Let_def split: option.splits if_splits)

lemma end_check_running:
  "q_running q (pr_CheckID r) = Some rc \<Longrightarrow> rc_sha rc = pr_SHA r \<Longrightarrow>
   q_running (end_check r q) = (q_running q)(pr_CheckID r := None)"
  by (simp add: end_check_def Let_def split: option.splits)

lemma end_check_causes:
  "q_causes (end_check r q) d \<noteq> None \<Longrightarrow>
   q_causes q d \<noteq> None \<or> (\<exists>rc. q_running q (pr_CheckID r) = Some rc \<and> d = rc_ctx rc)"
  by (auto simp: end_check_def Let_def split: option.splits if_splits)

lemma begin_check_Some:
  assumes "begin_check r q = (Some c, q')"
  shows "c = q_nextCtx q" "q_nextCtx q' = Suc c" "q_items q' = q_items q" "q_cap q' = q_cap q"
    "q_latestSHA q' = q_latestSHA q" "q_running q' = (q_running q)(pr_CheckID r \<mapsto> \<lparr>rc_sha = pr_SHA r, rc_ctx = c\<rparr>)"
    "q_latestSHA q (pr_CheckID r) \<in> {None, Some (pr_SHA r)}"
    "q_causes q' = (if q_rootDone q \<and> q_causes q c = None then (q_causes q)(c \<mapsto> RootCancelled) else q_causes q)"
  using assms by (auto simp: begin_check_def Let_def split: option.splits if_splits)

lemma begin_check_None:
  "begin_check r q = (None, q') \<Longrightarrow> q' = q \<and> (\<exists>l. q_latestSHA q (pr_CheckID r) = Some l \<and> l \<noteq> pr_SHA r)"
  by (auto simp: begin_check_def Let_def split: option.splits if_splits)

lemma trySend_Some: "trySend r q = Some q' \<Longrightarrow> q' = q\<lparr>q_items := q_items q @ [r]\<rparr> \<and> length (q_items q) < q_cap q"
  by (simp add: trySend_def split: if_splits)

subsection \<open>Invariants\<close>

definition cap_inv :: "nat \<Rightarrow> sys \<Rightarrow> bool" where
  "cap_inv cap s = (q_cap (s_q s) = cap \<and> length (q_items (s_q s)) \<le> cap)"

definition fresh_inv :: "sys \<Rightarrow> bool" where
  "fresh_inv s = (\<forall>c\<ge>q_nextCtx (s_q s). q_causes (s_q s) c = None)"

definition running_inv :: "sys \<Rightarrow> bool" where
  "running_inv s = (case s_worker s of
     Checking r c \<Rightarrow> q_running (s_q s) = [pr_CheckID r \<mapsto> \<lparr>rc_sha = pr_SHA r, rc_ctx = c\<rparr>] \<and> c < q_nextCtx (s_q s)
   | _ \<Rightarrow> q_running (s_q s) = Map.empty)"

definition superseded_inv :: "sys \<Rightarrow> bool" where
  "superseded_inv s = (case s_worker s of
     Checking r c \<Rightarrow> q_latestSHA (s_q s) (pr_CheckID r) \<in> {None, Some (pr_SHA r)} \<or> q_causes (s_q s) c \<noteq> None
   | _ \<Rightarrow> True)"

definition handling :: "sys \<Rightarrow> pull_request list" where
  "handling s = s_pending s @ q_items (s_q s) @
     (case s_worker s of Received r \<Rightarrow> [r] | Checking r _ \<Rightarrow> [r] | _ \<Rightarrow> [])"

definition latest_inv :: "sys \<Rightarrow> bool" where
  "latest_inv s = (\<forall>i l. q_latestSHA (s_q s) i = Some l \<longrightarrow>
     (\<exists>r\<in>set (handling s @ s_rejected s @ s_dropped s). pr_CheckID r = i \<and> pr_SHA r = l))"

definition fifo_inv :: "sys \<Rightarrow> bool" where
  "fifo_inv s = (s_accepted s = s_taken s @ s_dropped s @ q_items (s_q s) \<and>
     (s_worker s \<noteq> Stopped \<longrightarrow> s_dropped s = []))"

lemma cap_inv_step [inv_intros]: "qstep s s' \<Longrightarrow> cap_inv cap s \<Longrightarrow> cap_inv cap s'"
  by (induction rule: qstep.induct)
    (auto simp: cap_inv_def cancelRoot_def dest: begin_check_Some begin_check_None trySend_Some)

lemma fresh_inv_step [inv_intros]: "qstep s s' \<Longrightarrow> fresh_inv s \<and> running_inv s \<Longrightarrow> fresh_inv s'"
proof (induction rule: qstep.induct)
  case (Supersede s r)
  then show ?case
    by (auto simp: fresh_inv_def running_inv_def supersede_causes split: option.splits worker.splits if_splits)
next
  case (Begin s r c q)
  then show ?case using begin_check_Some[OF Begin(2)] by (auto simp: fresh_inv_def)
next
  case (Finish s r c ok)
  then show ?case
    using end_check_causes[of r "countProcessed ok (s_q s)"]
    by (force simp: fresh_inv_def running_inv_def)
qed (auto simp: fresh_inv_def cancelRoot_def dest: begin_check_None trySend_Some)

lemma running_inv_step [inv_intros]: "qstep s s' \<Longrightarrow> running_inv s \<Longrightarrow> running_inv s'"
proof (induction rule: qstep.induct)
  case (Begin s r c q)
  then show ?case using begin_check_Some[OF Begin(2)] by (simp add: running_inv_def)
next
  case (Finish s r c ok)
  then have "q_running (countProcessed ok (s_q s)) = [pr_CheckID r \<mapsto> \<lparr>rc_sha = pr_SHA r, rc_ctx = c\<rparr>]"
    by (simp add: running_inv_def)
  then have "q_running (end_check r (countProcessed ok (s_q s))) = Map.empty"
    using end_check_running[of "countProcessed ok (s_q s)" r "\<lparr>rc_sha = pr_SHA r, rc_ctx = c\<rparr>"] by simp
  then show ?case by (simp add: running_inv_def)
qed (auto simp: running_inv_def cancelRoot_def split: worker.splits dest: begin_check_None trySend_Some)

lemma superseded_inv_step [inv_intros]:
  "qstep s s' \<Longrightarrow> superseded_inv s \<and> running_inv s \<Longrightarrow> superseded_inv s'"
proof (induction rule: qstep.induct)
  case (Supersede s r)
  then show ?case
    by (auto simp: superseded_inv_def running_inv_def supersede_causes split: option.splits worker.splits if_splits)
next
  case (Begin s r c q)
  then show ?case using begin_check_Some[OF Begin(2)] by (simp add: superseded_inv_def)
qed (auto simp: superseded_inv_def cancelRoot_def running_inv_def split: worker.splits dest: begin_check_None trySend_Some)

lemma set_remove1_insert: "x \<in> set xs \<Longrightarrow> set xs = insert x (set (remove1 x xs))"
  by (induction xs) auto

lemma latest_inv_step [inv_intros]: "qstep s s' \<Longrightarrow> latest_inv s \<Longrightarrow> latest_inv s'"
proof (induction rule: qstep.induct)
  case (Supersede s r)
  then show ?case by (fastforce simp: latest_inv_def handling_def split: worker.splits)
next
  case (SendOk r s q)
  then have "set (handling s) = set (handling (s\<lparr>s_q := q, s_pending := remove1 r (s_pending s),
      s_accepted := s_accepted s @ [r]\<rparr>))"
    using trySend_Some[OF SendOk(2)] set_remove1_insert[OF SendOk(1)]
    by (auto simp: handling_def split: worker.splits)
  then show ?case using SendOk trySend_Some[OF SendOk(2)] by (simp add: latest_inv_def)
next
  case (SendFull r s)
  then have "set (handling s) \<subseteq> insert r (set (handling (s\<lparr>s_pending := remove1 r (s_pending s),
      s_rejected := s_rejected s @ [r]\<rparr>)))"
    using set_remove1_insert[OF SendFull(1)] by (auto simp: handling_def split: worker.splits)
  then show ?case using SendFull by (fastforce simp: latest_inv_def)
next
  case (Receive s r rs)
  then show ?case by (fastforce simp: latest_inv_def handling_def split: worker.splits)
next
  case (Begin s r c q)
  then show ?case using begin_check_Some[OF Begin(2)] by (fastforce simp: latest_inv_def handling_def)
next
  case (Skip s r q)
  then show ?case using begin_check_None[OF Skip(2)] by (fastforce simp: latest_inv_def handling_def)
next
  case (Finish s r c ok)
  then show ?case using end_check_latest[of r "countProcessed ok (s_q s)"]
    by (fastforce simp: latest_inv_def handling_def)
next
  case (Close s)
  then show ?case by (simp add: latest_inv_def handling_def)
next
  case (CancelAll s)
  then show ?case by (simp add: latest_inv_def handling_def cancelRoot_def)
next
  case (Drain s)
  then show ?case by (fastforce simp: latest_inv_def handling_def)
qed

lemma fifo_inv_step [inv_intros]: "qstep s s' \<Longrightarrow> fifo_inv s \<Longrightarrow> fifo_inv s'"
  by (induction rule: qstep.induct)
    (auto simp: fifo_inv_def cancelRoot_def dest: begin_check_Some begin_check_None trySend_Some)

lemma queue_invariants:
  assumes "reachable cap s"
  shows "cap_inv cap s \<and> fresh_inv s \<and> running_inv s \<and> superseded_inv s \<and> latest_inv s \<and> fifo_inv s"
  using assms
proof (rule reachable_invariant)
  show "cap_inv cap (initial cap) \<and> fresh_inv (initial cap) \<and> running_inv (initial cap) \<and>
      superseded_inv (initial cap) \<and> latest_inv (initial cap) \<and> fifo_inv (initial cap)"
    by (simp add: initial_def newQueue_def cap_inv_def fresh_inv_def running_inv_def
        superseded_inv_def latest_inv_def fifo_inv_def)
qed (use inv_intros in blast)

section \<open>Shutdown\<close>

lemma drainMap_step: "drainMap (items @ [r]) = (drainMap items)(pr_CheckID r \<mapsto> r)"
  by (simp add: drainMap_def)

lemma drainMap_dom: "dom (drainMap items) = pr_CheckID ` set items"
proof (induction items rule: rev_induct)
  case (snoc r items)
  have "dom ((drainMap items)(pr_CheckID r \<mapsto> r)) = insert (pr_CheckID r) (dom (drainMap items))"
    by (simp only: dom_fun_upd) simp
  then show ?case using snoc by (simp only: drainMap_step) simp
qed (simp add: drainMap_def)

lemma drainMap_key: "drainMap items k = Some r \<Longrightarrow> r \<in> set items \<and> pr_CheckID r = k"
  by (induction items rule: rev_induct)
    (auto simp: drainMap_step split: if_splits, simp_all add: drainMap_def)

lemma notifyDropped_ids:
  assumes "keys_of (drainMap items) order"
  shows "map pr_CheckID (notifyDropped order items) = order"
proof -
  have "pr_CheckID (the (drainMap items k)) = k" if "k \<in> set order" for k
    using keys_of_in[OF assms, of k] that drainMap_key by fastforce
  then show ?thesis by (simp add: notifyDropped_def map_idI)
qed

section \<open>Properties\<close>

text \<open>C3 In every interleaving of webhooks, worker and shutdown: the queue never holds more than its
  capacity; the table of running checks holds exactly the one check the worker is running, if
  any, so a repository never has two checks at a time; and when a newer commit of the pull
  request that is being checked has been recorded, the context of that check is cancelled.\<close>

theorem queue_is_safe:
  assumes "reachable cap s"
  shows "length (q_items (s_q s)) \<le> cap \<and> running_inv s \<and> superseded_inv s"
  using queue_invariants[OF assms] by (simp add: cap_inv_def)

definition demo_pr :: "int \<Rightarrow> string \<Rightarrow> pull_request" where
  "demo_pr i sha = pr_zero\<lparr>pr_CheckID := i, pr_SHA := sha\<rparr>"

definition demo_one :: sys where
  "demo_one = (initial 1)\<lparr>s_q := supersede (demo_pr 7 ''b'') (newQueue 1), s_pending := [demo_pr 7 ''b'']\<rparr>"

lemma demo_one_reachable: "reachable 1 demo_one"
  using next_state[OF start Supersede[of "initial 1" "demo_pr 7 ''b''"]]
  by (simp add: demo_one_def initial_def)

theorem queue_is_safe_witness: "length (q_items (s_q demo_one)) \<le> 1 \<and> superseded_inv demo_one"
  using queue_is_safe[OF demo_one_reachable] by simp

text \<open>No update of a pull request is lost before shutdown: the commit that is recorded as the one
  to check has a request that is waiting to be sent, queued, in the hands of the worker, or
  was rejected or dropped with a message.\<close>

theorem latest_commit_has_request:
  assumes "reachable cap s" "q_latestSHA (s_q s) i = Some l"
  shows "list_ex (\<lambda>r. pr_CheckID r = i \<and> pr_SHA r = l) (handling s @ s_rejected s @ s_dropped s)"
  using queue_invariants[OF assms(1)] assms(2) by (auto simp: latest_inv_def list_ex_iff)

theorem latest_commit_has_request_witness:
  "list_ex (\<lambda>r. pr_CheckID r = 7 \<and> pr_SHA r = ''b'')
    (handling demo_one @ s_rejected demo_one @ s_dropped demo_one)"
proof -
  have "q_latestSHA (s_q demo_one) 7 = Some ''b''" by (simp add: demo_one_def demo_pr_def)
  then show ?thesis using latest_commit_has_request[OF demo_one_reachable] by blast
qed



text \<open>At shutdown every pull request with a dropped request gets exactly one message, that of its
  last request, whatever the order in which the runtime enumerates them.\<close>

theorem dropped_requests_notified_once:
  assumes "keys_of (drainMap items) order"
  shows "distinct (map pr_CheckID (notifyDropped order items)) \<and>
    set (map pr_CheckID (notifyDropped order items)) = pr_CheckID ` set items \<and>
    set (notifyDropped order items) \<subseteq> set items"
proof -
  have "set (notifyDropped order items) \<subseteq> set items"
    using keys_of_in[OF assms] drainMap_key by (fastforce simp: notifyDropped_def)
  then show ?thesis
    using notifyDropped_ids[OF assms] assms drainMap_dom[of items] by (simp add: keys_of_def)
qed

theorem dropped_requests_notified_once_witness:
  "distinct (map pr_CheckID (notifyDropped [7] [demo_pr 7 ''a'', demo_pr 7 ''b'']))"
proof -
  have "keys_of (drainMap [demo_pr 7 ''a'', demo_pr 7 ''b'']) [7]"
    by (simp add: keys_of_def drainMap_def demo_pr_def)
  then show ?thesis using dropped_requests_notified_once by blast
qed

text \<open>Enqueueing concerns one repository only: all clone URLs of a repository share a queue that is
  created once and never replaced, the queues of other repositories are untouched, and the
  request is appended to its queue exactly when the result says so.\<close>

theorem enqueue_is_local:
  assumes "Canonicalize ps (pr_CloneURL pr) = Inr r" "Enqueue ps pr qm = (res, qm')"
    and "q = the (qm_queues (getOrCreate (repoKey r) qm) (repoKey r))"
  shows "(k \<noteq> repoKey r \<longrightarrow> qm_queues qm' k = qm_queues qm k) \<and>
    (qm_queues qm (repoKey r) \<noteq> None \<longrightarrow> qm_queues qm (repoKey r) = Some q) \<and>
    (\<exists>q'. qm_queues qm' (repoKey r) = Some q' \<and> q_cap q' = q_cap q \<and>
      q_latestSHA q' (pr_CheckID pr) = Some (pr_SHA pr) \<and>
      (if length (q_items q) < q_cap q then res = Enqueued \<and> q_items q' = q_items q @ [pr]
       else res = QueueFull \<and> q_items q' = q_items q))"
  using assms by (auto simp: Enqueue_def Let_def trySend_def getOrCreate_def split: option.splits if_splits)

definition demo_enqueue_pr :: pull_request where
  "demo_enqueue_pr = (demo_pr 7 ''b'')\<lparr>pr_CloneURL := ''https://git.io/a/b''\<rparr>"

theorem enqueue_is_local_witness:
  "fst (Enqueue demo_parsers demo_enqueue_pr (NewQueueManager 0)) = Enqueued"
proof -
  have c: "Canonicalize demo_parsers (pr_CloneURL demo_enqueue_pr) = Inr \<lparr>ru_Host = ''git.io'', ru_Path = ''a/b''\<rparr>"
    by code_simp
  obtain res qm' where e: "Enqueue demo_parsers demo_enqueue_pr (NewQueueManager 0) = (res, qm')" by fastforce
  show ?thesis
    using enqueue_is_local[OF c e refl, of "[]"] e
    by (auto simp: getOrCreate_def NewQueueManager_def newQueue_def split: if_splits)
qed

subsection \<open>What the contract does not promise\<close>

text \<open>C39 A request that is rejected because the queue is full has already superseded: the commit it
  records makes the worker skip the request of the same pull request that was accepted before
  it, so that neither commit is checked.\<close>

theorem rejected_request_starves_accepted:
  "\<exists>s b a. reachable 1 s \<and> b \<in> set (s_accepted s) \<and> a \<in> set (s_rejected s) \<and>
    pr_CheckID a = pr_CheckID b \<and> handling s = [] \<and> s_dropped s = [] \<and>
    q_nextCtx (s_q s) = 0"
proof -
  let ?b = "demo_pr 7 ''b''" and ?a = "demo_pr 7 ''a''"
  define s1 where "s1 = (initial 1)\<lparr>s_q := supersede ?b (s_q (initial 1)), s_pending := s_pending (initial 1) @ [?b]\<rparr>"
  define q2 where "q2 = (s_q s1)\<lparr>q_items := q_items (s_q s1) @ [?b]\<rparr>"
  define s2 where "s2 = s1\<lparr>s_q := q2, s_pending := remove1 ?b (s_pending s1), s_accepted := s_accepted s1 @ [?b]\<rparr>"
  define s3 where "s3 = s2\<lparr>s_q := supersede ?a (s_q s2), s_pending := s_pending s2 @ [?a]\<rparr>"
  define s4 where "s4 = s3\<lparr>s_pending := remove1 ?a (s_pending s3), s_rejected := s_rejected s3 @ [?a]\<rparr>"
  define s5 where "s5 = s4\<lparr>s_q := (s_q s4)\<lparr>q_items := []\<rparr>, s_worker := Received ?b, s_taken := s_taken s4 @ [?b]\<rparr>"
  define s6 where "s6 = s5\<lparr>s_q := s_q s5, s_worker := Idle\<rparr>"
  note defs = s1_def q2_def s2_def s3_def s4_def s5_def s6_def initial_def newQueue_def
  have "reachable 1 s1" unfolding s1_def by (intro next_state[OF start] Supersede)
  moreover have "qstep s1 s2" unfolding s2_def
    by (rule SendOk) (simp_all add: defs trySend_def)
  moreover have "qstep s2 s3" unfolding s3_def by (rule Supersede)
  moreover have "qstep s3 s4" unfolding s4_def
    by (rule SendFull) (simp_all add: defs trySend_def)
  moreover have "qstep s4 s5" unfolding s5_def
    by (rule Receive) (simp_all add: defs)
  moreover have "qstep s5 s6" unfolding s6_def
    by (rule Skip[of _ ?b]) (simp_all add: defs begin_check_def demo_pr_def)
  ultimately have r: "reachable 1 s6" by (meson next_state)
  have "?b \<in> set (s_accepted s6)" "?a \<in> set (s_rejected s6)" "handling s6 = []" "s_dropped s6 = []"
    by (simp_all add: defs handling_def)
  moreover have "q_nextCtx (s_q s6) = 0" by (simp add: defs)
  moreover have "pr_CheckID ?a = pr_CheckID ?b" by (simp add: demo_pr_def)
  ultimately show ?thesis using r by blast
qed

end
