(* ===== verification/GoPaths.thy ===== *)
theory GoPaths
  imports GoStrings
begin

text \<open>
  Go's \<open>path\<close> package (and \<open>path/filepath\<close> on a slash-separated system): \<open>Clean\<close>, \<open>Dir\<close>,
  \<open>Base\<close>, \<open>Ext\<close>, \<open>Join\<close>.  \<open>Clean\<close> is defined through the list of components it keeps, which is
  what the component theories reason about.  The standard library, so nothing here maps to
  a line of the repository.
\<close>

section \<open>Clean\<close>

abbreviation slash :: char where "slash \<equiv> CHR ''/''"

definition rooted :: "string \<Rightarrow> bool" where
  "rooted s = (s \<noteq> [] \<and> hd s = slash)"

text \<open>The stack of kept components, innermost first.\<close>

definition clean_push :: "bool \<Rightarrow> string list \<Rightarrow> string \<Rightarrow> string list" where
  "clean_push r st c =
    (if c = [] \<or> c = ''.'' then st
     else if c = ''..'' then
       (case st of [] \<Rightarrow> if r then [] else [''..''] | t # ts \<Rightarrow> if t = ''..'' then ''..'' # st else ts)
     else c # st)"

definition clean_comps :: "string \<Rightarrow> string list" where
  "clean_comps s = rev (foldl (clean_push (rooted s)) [] (split_char slash s))"

definition path_clean :: "string \<Rightarrow> string" where
  "path_clean s =
    (if rooted s then slash # str_join [slash] (clean_comps s)
     else if clean_comps s = [] then ''.'' else str_join [slash] (clean_comps s))"

text \<open>\<open>path.Split\<close>: up to and including the last slash.\<close>

definition path_split_dir :: "string \<Rightarrow> string" where
  "path_split_dir s = rev (dropWhile (\<lambda>c. c \<noteq> slash) (rev s))"

definition path_dir :: "string \<Rightarrow> string" where
  "path_dir s = path_clean (path_split_dir s)"

definition path_base :: "string \<Rightarrow> string" where
  "path_base s =
    (if s = [] then ''.''
     else let s = rev (dropWhile (\<lambda>c. c = slash) (rev s));
              b = rev (takeWhile (\<lambda>c. c \<noteq> slash) (rev s))
          in if b = [] then [slash] else b)"

definition path_ext :: "string \<Rightarrow> string" where
  "path_ext s =
    (let b = takeWhile (\<lambda>c. c \<noteq> slash) (rev s) in
     if CHR ''.'' \<in> set b then CHR ''.'' # rev (takeWhile (\<lambda>c. c \<noteq> CHR ''.'') b) else [])"

definition path_join :: "string list \<Rightarrow> string" where
  "path_join elems =
    (let es = dropWhile (\<lambda>e. e = []) elems in
     if es = [] then [] else path_clean (str_join [slash] es))"

section \<open>Components\<close>

definition comp_ok :: "string \<Rightarrow> bool" where
  "comp_ok c = (c \<noteq> [] \<and> c \<noteq> ''.'' \<and> slash \<notin> set c)"

lemma clean_push_cases:
  "clean_push r st c \<in> {st, [], [''..''], ''..'' # st, tl st} \<or>
   (clean_push r st c = c # st \<and> c \<noteq> [] \<and> c \<noteq> ''.'')"
  by (simp add: clean_push_def split: list.split)

lemma dots_ok: "comp_ok ''..''"
  by (simp add: comp_ok_def)

lemma clean_push_ok:
  assumes "list_all comp_ok st" "slash \<notin> set c"
  shows "list_all comp_ok (clean_push r st c)"
proof -
  have "list_all comp_ok (tl st)" using assms(1) by (cases st) auto
  moreover have "comp_ok c" if "c \<noteq> []" "c \<noteq> ''.''" using that assms(2) by (simp only: comp_ok_def) simp
  ultimately show ?thesis
    using clean_push_cases[of r st c] assms(1) dots_ok
    by (elim disjE insertE emptyE conjE) simp_all
qed

lemma clean_comps_ok: "c \<in> set (clean_comps s) \<Longrightarrow> comp_ok c"
proof -
  have "list_all comp_ok (foldl (clean_push (rooted s)) [] (split_char slash s))"
    by (rule foldl_invariant) (simp_all add: clean_push_ok split_char_no_sep)
  then show "c \<in> set (clean_comps s) \<Longrightarrow> comp_ok c" by (simp add: clean_comps_def list_all_iff)
qed

lemma join_head_ok:
  "c \<noteq> [] \<Longrightarrow> slash \<notin> set c \<Longrightarrow> str_join [slash] (c # cs) \<noteq> [] \<and> hd (str_join [slash] (c # cs)) \<noteq> slash"
  by (cases cs; cases c) auto

lemma comp_split_unique:
  assumes "slash \<notin> set a" "slash \<notin> set b" "a @ s = b @ t"
    and "s = [] \<or> hd s = slash" "t = [] \<or> hd t = slash"
  shows "a = b \<and> s = t"
  using assms
proof (induction a arbitrary: b)
  case Nil
  then show ?case by (cases b) auto
next
  case (Cons x a)
  then show ?case by (cases b) auto
qed

lemma join_inject:
  assumes "\<forall>c\<in>set cs. comp_ok c" "\<forall>d\<in>set ds. comp_ok d"
  shows "str_join [slash] cs = str_join [slash] ds \<longleftrightarrow> cs = ds"
  using assms
proof (induction cs arbitrary: ds)
  case Nil
  then show ?case by (cases ds; cases "tl ds") (auto simp: comp_ok_def)
next
  case (Cons c cs)
  show ?case
  proof (cases ds)
    case Nil
    then show ?thesis using Cons.prems by (cases cs) (auto simp: comp_ok_def)
  next
    case (Cons d ds')
    note D = this
    have c: "slash \<notin> set c" "slash \<notin> set d" using Cons.prems \<open>ds = d # ds'\<close> by (auto simp: comp_ok_def)
    have e: "str_join [slash] (x # xs) = x @ (if xs = [] then [] else slash # str_join [slash] xs)"
      for x :: string and xs by (cases xs) auto
    show ?thesis
    proof
      assume "str_join [slash] (c # cs) = str_join [slash] ds"
      then have "c = d \<and> (if cs = [] then [] else slash # str_join [slash] cs) =
          (if ds' = [] then [] else slash # str_join [slash] ds')"
        using c unfolding D e by (intro comp_split_unique) auto
      then show "c # cs = ds" using Cons.IH[of ds'] Cons.prems D by (auto split: if_splits)
    qed simp
  qed
qed

text \<open>A string prefix that ends at a slash is a prefix of the components.\<close>

lemma join_prefix:
  assumes "\<forall>c\<in>set cs. comp_ok c" "\<forall>d\<in>set ds. comp_ok d" "ds \<noteq> []"
  shows "has_prefix (str_join [slash] cs) (str_join [slash] ds @ [slash]) \<longleftrightarrow>
    (\<exists>es. es \<noteq> [] \<and> cs = ds @ es)"
  using assms
proof (induction ds arbitrary: cs)
  case (Cons d ds)
  have e: "str_join [slash] (x # xs) = x @ (if xs = [] then [] else slash # str_join [slash] xs)"
    for x :: string and xs by (cases xs) auto
  show ?case
  proof (cases cs)
    case Nil
    then show ?thesis by (auto simp: has_prefix_def)
  next
    case C: (Cons c cs')
    have ok: "slash \<notin> set c" "slash \<notin> set d" using Cons.prems C by (auto simp: comp_ok_def)
    show ?thesis
    proof
      assume "has_prefix (str_join [slash] cs) (str_join [slash] (d # ds) @ [slash])"
      then obtain t where "str_join [slash] (c # cs') = (str_join [slash] (d # ds) @ [slash]) @ t"
        unfolding C has_prefix_iff by blast
      then have "c @ (if cs' = [] then [] else slash # str_join [slash] cs') =
          d @ (if ds = [] then slash # t else slash # str_join [slash] ds @ slash # t)"
        unfolding e by auto
      then have cd: "c = d \<and> (if cs' = [] then [] else slash # str_join [slash] cs') =
          (if ds = [] then slash # t else slash # str_join [slash] ds @ slash # t)"
        by (intro comp_split_unique) (use ok in auto)
      then have ne: "cs' \<noteq> []" by (auto split: if_splits)
      show "\<exists>es. es \<noteq> [] \<and> cs = (d # ds) @ es"
      proof (cases "ds = []")
        case True
        then show ?thesis using cd ne C by auto
      next
        case False
        then have "has_prefix (str_join [slash] cs') (str_join [slash] ds @ [slash])"
          using cd ne by (auto simp: has_prefix_iff)
        then show ?thesis using Cons.IH[of cs'] Cons.prems C False cd by auto
      qed
    next
      assume "\<exists>es. es \<noteq> [] \<and> cs = (d # ds) @ es"
      then obtain es where es: "es \<noteq> []" "cs' = ds @ es" "c = d" using C by auto
      show "has_prefix (str_join [slash] cs) (str_join [slash] (d # ds) @ [slash])"
      proof (cases "ds = []")
        case True
        then show ?thesis using es unfolding C e has_prefix_iff by auto
      next
        case False
        then have "has_prefix (str_join [slash] cs') (str_join [slash] ds @ [slash])"
          using Cons.IH[of cs'] Cons.prems C es by auto
        then show ?thesis using es False unfolding C e has_prefix_iff by auto
      qed
    qed
  qed
qed simp

section \<open>Lengths\<close>

definition weight :: "string list \<Rightarrow> nat" where
  "weight cs = sum_list (map (\<lambda>c. Suc (length c)) cs)"

lemma weight_simps [simp]: "weight [] = 0" "weight (c # cs) = Suc (length c) + weight cs"
  "weight (cs @ ds) = weight cs + weight ds" "weight (rev cs) = weight cs"
  by (simp_all add: weight_def rev_map[symmetric])

lemma weight_join: "cs \<noteq> [] \<Longrightarrow> Suc (length (str_join [slash] cs)) = weight cs"
  by (induction "[slash]" cs rule: str_join.induct) auto

lemma weight_split: "weight (split_char d s) = Suc (length s)"
  by (induction s) (auto split: list.splits)

lemma clean_push_weight:
  "weight (clean_push r st c) \<le> weight st + (if c = [] then 0 else Suc (length c))"
  by (auto simp: clean_push_def split: list.splits)

definition kept_weight :: "string list \<Rightarrow> nat" where
  "kept_weight cs = weight (filter (\<lambda>c. c \<noteq> []) cs)"

lemma foldl_clean_weight: "weight (foldl (clean_push r) st cs) \<le> weight st + kept_weight cs"
proof (induction cs arbitrary: st)
  case (Cons c cs)
  have "weight (foldl (clean_push r) st (c # cs)) \<le> weight (clean_push r st c) + kept_weight cs"
    using Cons by simp
  then show ?case using clean_push_weight[of r st c] by (auto simp: kept_weight_def)
qed (simp add: kept_weight_def)

lemma clean_comps_weight: "weight (clean_comps s) \<le> kept_weight (split_char slash s)"
  using foldl_clean_weight[of "rooted s" "[]" "split_char slash s"] by (simp add: clean_comps_def)

lemma kept_le_weight: "kept_weight cs + length (filter (\<lambda>c. c = []) cs) = weight cs"
  by (induction cs) (auto simp: kept_weight_def)

lemma split_char_last_sep: "s \<noteq> [] \<Longrightarrow> last s = d \<Longrightarrow> last (split_char d s) = []"
proof (induction s)
  case (Cons a s)
  show ?case
  proof (cases "s = []")
    case True
    then show ?thesis using Cons.prems by simp
  next
    case False
    then have "split_char d s \<noteq> [[]]" by (metis str_join_split_char str_join.simps(2))
    moreover have "last (split_char d s) = []" using False Cons by simp
    ultimately show ?thesis by (auto split: list.splits)
  qed
qed simp

lemma split_char_first_sep: "s \<noteq> [] \<Longrightarrow> hd s = d \<Longrightarrow> split_char d s = [] # split_char d (tl s)"
  by (cases s) auto

lemma one_empty: "[] \<in> set cs \<Longrightarrow> 1 \<le> length (filter (\<lambda>c. c = []) cs)"
  by (induction cs) auto

lemma path_clean_length_slash:
  assumes "s \<noteq> []" "last s = slash"
  shows "path_clean s \<in> {''.'', ''/''} \<or> length (path_clean s) < length s"
proof (cases "rooted s")
  case r: True
  then have sp: "split_char slash s = [] # split_char slash (tl s)"
    by (simp add: rooted_def split_char_first_sep)
  show ?thesis
  proof (cases "tl s = []")
    case True
    then have "kept_weight (split_char slash s) = 0" using sp by (simp add: kept_weight_def)
    then have "weight (clean_comps s) = 0" using clean_comps_weight[of s] by simp
    then have "clean_comps s = []" by (cases "clean_comps s") auto
    then show ?thesis using r by (simp add: path_clean_def)
  next
    case False
    then have "last (tl s) = slash" using assms by (metis last_tl)
    then have "[] \<in> set (split_char slash (tl s))"
      using False split_char_last_sep split_char_nonempty by (metis last_in_set)
    then have "1 \<le> length (filter (\<lambda>c. c = []) (split_char slash (tl s)))"
      by (rule one_empty)
    then have "kept_weight (split_char slash s) + 2 \<le> Suc (length s)"
      using kept_le_weight[of "split_char slash s"] weight_split[of slash s] sp by simp
    then have "weight (clean_comps s) < length s" using clean_comps_weight[of s] by simp
    moreover have "length (path_clean s) = weight (clean_comps s)" if "clean_comps s \<noteq> []"
      using r weight_join[OF that] by (simp add: path_clean_def)
    moreover have "path_clean s = ''/''" if "clean_comps s = []" using r that by (simp add: path_clean_def)
    ultimately show ?thesis by (metis insertCI)
  qed
next
  case False
  have "[] \<in> set (split_char slash s)"
    using assms split_char_last_sep split_char_nonempty by (metis last_in_set)
  then have "1 \<le> length (filter (\<lambda>c. c = []) (split_char slash s))"
    by (rule one_empty)
  then have "weight (clean_comps s) \<le> length s"
    using clean_comps_weight[of s] kept_le_weight[of "split_char slash s"] weight_split[of slash s] by simp
  moreover have "Suc (length (path_clean s)) = weight (clean_comps s)" if "clean_comps s \<noteq> []"
    using False weight_join[OF that] that by (simp add: path_clean_def)
  moreover have "path_clean s = ''.''" if "clean_comps s = []" using False that by (simp add: path_clean_def)
  ultimately show ?thesis by (metis insertCI Suc_le_eq)
qed

text \<open>Going up from a directory either reaches \<open>.\<close> or \<open>/\<close> or gets shorter.\<close>

lemma path_dir_length: "path_dir s \<in> {''.'', ''/''} \<or> length (path_dir s) < length s"
proof (cases "path_split_dir s = []")
  case True
  then show ?thesis by (simp add: path_dir_def path_clean_def rooted_def clean_comps_def clean_push_def)
next
  case False
  then have ne: "dropWhile (\<lambda>c. c \<noteq> slash) (rev s) \<noteq> []" by (simp add: path_split_dir_def)
  then have "hd (dropWhile (\<lambda>c. c \<noteq> slash) (rev s)) = slash" using hd_dropWhile[OF ne] by simp
  then have l: "last (path_split_dir s) = slash" using ne by (simp add: path_split_dir_def last_rev)
  have "length (path_split_dir s) \<le> length s"
    by (metis length_dropWhile_le length_rev path_split_dir_def)
  then show ?thesis using path_clean_length_slash[OF False l] unfolding path_dir_def
    by (elim disjE) (blast, linarith)
qed

section \<open>Appending below a directory\<close>

lemma split_char_append: "split_char d (a @ d # b) = split_char d a @ split_char d b"
  by (induction a) (auto split: list.splits)

definition clean_state :: "string \<Rightarrow> bool \<times> string list" where
  "clean_state s = (rooted s, foldl (clean_push (rooted s)) [] (split_char slash s))"

definition clean_below :: "bool \<times> string list \<Rightarrow> string \<Rightarrow> bool \<times> string list" where
  "clean_below st p = (fst st, foldl (clean_push (fst st)) (snd st) (split_char slash p))"

definition render_state :: "bool \<times> string list \<Rightarrow> string" where
  "render_state st =
    (if fst st then slash # str_join [slash] (rev (snd st))
     else if snd st = [] then ''.'' else str_join [slash] (rev (snd st)))"

lemma path_clean_state: "path_clean s = render_state (clean_state s)"
  by (simp add: path_clean_def render_state_def clean_state_def clean_comps_def)

lemma clean_state_below: "b \<noteq> [] \<Longrightarrow> clean_state (b @ slash # p) = clean_below (clean_state b) p"
proof -
  assume "b \<noteq> []"
  then have "rooted (b @ slash # p) = rooted b" by (cases b) (simp_all add: rooted_def)
  then show ?thesis by (simp add: clean_state_def clean_below_def split_char_append)
qed

lemma path_join_below: "b \<noteq> [] \<Longrightarrow> path_join [b, p] = render_state (clean_below (clean_state b) p)"
  by (simp add: path_join_def path_clean_state clean_state_below)

lemma clean_state_ok: "c \<in> set (snd (clean_state s)) \<Longrightarrow> comp_ok c"
  using clean_comps_ok[of c s] by (simp add: clean_state_def clean_comps_def)

lemma clean_below_file:
  assumes "f \<noteq> []" "f \<noteq> ''.''" "f \<noteq> ''..''" "slash \<notin> set f"
  shows "clean_below st f = (fst st, f # snd st)"
proof -
  have "split_char slash f = [f]" using assms(4) by (induction f) auto
  then show ?thesis using assms by (simp add: clean_below_def clean_push_def)
qed

lemma render_state_inject:
  assumes "list_all comp_ok (snd s)" "list_all comp_ok (snd t)" "snd s \<noteq> []" "snd t \<noteq> []"
    and "render_state s = render_state t"
  shows "s = t"
proof -
  have ok: "\<forall>c\<in>set (rev (snd s)). comp_ok c" "\<forall>c\<in>set (rev (snd t)). comp_ok c"
    using assms(1,2) by (simp_all add: list_all_iff)
  have h: "hd (str_join [slash] (rev (snd s))) \<noteq> slash" "hd (str_join [slash] (rev (snd t))) \<noteq> slash"
    "str_join [slash] (rev (snd s)) \<noteq> []" "str_join [slash] (rev (snd t)) \<noteq> []"
    using join_head_ok ok assms(3,4)
    by (cases "rev (snd s)"; cases "rev (snd t)"; simp add: comp_ok_def)+
  have "fst s = fst t \<and> str_join [slash] (rev (snd s)) = str_join [slash] (rev (snd t))"
    using assms(3-5) h by (auto simp: render_state_def split: if_splits) (metis list.sel(1))+
  then show ?thesis using join_inject[OF ok] by (simp add: prod_eq_iff)
qed

text \<open>Where the same file name below two directories is the same path, so is every other path.\<close>

lemma same_dir_same_below:
  assumes "b \<noteq> []" "b' \<noteq> []" "path_join [b, f] = path_join [b', f]"
    and "f \<noteq> []" "f \<noteq> ''.''" "f \<noteq> ''..''" "slash \<notin> set f"
  shows "path_join [b, p] = path_join [b', p]"
proof -
  have ok: "comp_ok f" using assms(4,5,7) by (simp add: comp_ok_def)
  have "(fst (clean_state b), f # snd (clean_state b)) = (fst (clean_state b'), f # snd (clean_state b'))"
    using assms(3) ok clean_state_ok unfolding path_join_below[OF assms(1)] path_join_below[OF assms(2)]
      clean_below_file[OF assms(4-7)]
    by (intro render_state_inject) (auto simp: list_all_iff)
  then have "clean_state b = clean_state b'" by (simp add: prod_eq_iff)
  then show ?thesis using assms(1,2) by (simp add: path_join_below)
qed

end
