(* ===== verification/ArgoTypes.thy ===== *)
theory ArgoTypes
  imports GoStrings
begin

text \<open>
  The Argo CD objects the program reads, reduced to the fields it reads.  The types belong
  to the argo-cd module, and so do the two methods that choose the source of an
  application; those are fields of a record that every definition takes, and what argo-cd
  documents of them is the predicate \<open>argo_api_ok\<close>.
\<close>

record helm_source =
  h_FileParameters :: "string list"
  h_ValueFiles :: "string list"

record app_source =
  src_RepoURL :: string
  src_Path :: string
  src_TargetRevision :: string
  src_Helm :: "helm_source option"

record app_spec =
  sp_Source :: "app_source option"
  sp_Sources :: "app_source list"
  sp_DestinationName :: string
  sp_DestinationServer :: string

record application =
  app_Name :: string
  app_Namespace :: string
  app_Spec :: app_spec

record git_item =
  gi_Path :: string
  gi_Exclude :: bool

record git_generator =
  gg_RepoURL :: string
  gg_Revision :: string
  gg_Directories :: "git_item list"
  gg_Files :: "git_item list"

text \<open>A generator has a Git part, or nests one level of generators in a matrix or a merge.\<close>

record generator =
  gen_Git :: "git_generator option"
  gen_Matrix :: "git_generator option list option"
  gen_Merge :: "git_generator option list option"

record application_set =
  as_Name :: string
  as_Namespace :: string
  as_Annotations :: "string \<Rightarrow> string option"
  as_TemplateSpec :: app_spec
  as_Generators :: "generator list"

record argo_api =
  ap_GetSource :: "app_spec \<Rightarrow> app_source"
  ap_HasMultipleSources :: "app_spec \<Rightarrow> bool"

definition src_zero :: app_source where
  "src_zero = \<lparr>src_RepoURL = [], src_Path = [], src_TargetRevision = [], src_Helm = None\<rparr>"

text \<open>Documented behaviour: a spec has multiple sources when the list is not empty; its source is
  then the first of the list, otherwise the single source, otherwise an empty one.\<close>

definition argo_api_ok :: "argo_api \<Rightarrow> bool" where
  "argo_api_ok api =
    ((\<forall>s. ap_HasMultipleSources api s = (sp_Sources s \<noteq> [])) \<and>
     (\<forall>s. ap_GetSource api s =
        (if sp_Sources s \<noteq> [] then hd (sp_Sources s)
         else case sp_Source s of Some src \<Rightarrow> src | None \<Rightarrow> src_zero)))"

definition demo_api :: argo_api where
  "demo_api = \<lparr>ap_GetSource = (\<lambda>s. if sp_Sources s \<noteq> [] then hd (sp_Sources s)
      else case sp_Source s of Some src \<Rightarrow> src | None \<Rightarrow> src_zero),
    ap_HasMultipleSources = (\<lambda>s. sp_Sources s \<noteq> [])\<rparr>"

lemma demo_api_ok: "argo_api_ok demo_api"
  by (simp add: argo_api_ok_def demo_api_def)

end
