(* ===== verification/AppDir.thy ===== *)
theory AppDir
  imports GoPaths ArgoTypes
begin

text \<open>
  \<open>pkg/appdir/app_directory.go\<close>: the index from directories and files of a repository to the
  applications whose manifests they feed, and the search for the applications that a change
  list affects.  Slices are values here: the sharing of backing arrays between an index
  and the unions made from it is not modelled.  Where the code ranges over a map the order
  is an argument.  \<open>AddApp\<close> dereferences the single source of an application without
  checking it, so it is partial.
\<close>

section \<open>The index\<close>

record app_directory =
  ad_dirs :: "string list strmap"
  ad_files :: "string list strmap"
  ad_apps :: "application strmap"

definition NewAppDirectory :: app_directory where
  "NewAppDirectory = \<lparr>ad_dirs = (\<lambda>_. None), ad_files = (\<lambda>_. None), ad_apps = (\<lambda>_. None)\<rparr>"

definition takeFirst :: "'a \<Rightarrow> 'a \<Rightarrow> 'a" where "takeFirst a b = a"

definition mergeLists :: "'a list \<Rightarrow> 'a list \<Rightarrow> 'a list" where "mergeLists a b = a @ b"

definition mergeMaps :: "'a strmap \<Rightarrow> 'a strmap \<Rightarrow> ('a \<Rightarrow> 'a \<Rightarrow> 'a) \<Rightarrow> 'a strmap" where
  "mergeMaps first second combine = (\<lambda>k.
     case second k of
       None \<Rightarrow> first k
     | Some v \<Rightarrow> (case first k of None \<Rightarrow> Some v | Some e \<Rightarrow> Some (combine e v)))"

definition dir_Union :: "app_directory \<Rightarrow> app_directory \<Rightarrow> app_directory" where
  "dir_Union d other =
    \<lparr>ad_dirs = mergeMaps (ad_dirs d) (ad_dirs other) mergeLists,
     ad_files = mergeMaps (ad_files d) (ad_files other) mergeLists,
     ad_apps = mergeMaps (ad_apps d) (ad_apps other) takeFirst\<rparr>"

definition names_at :: "string list strmap \<Rightarrow> string \<Rightarrow> string list" where
  "names_at m p = (case m p of None \<Rightarrow> [] | Some ns \<Rightarrow> ns)"

definition addName :: "string \<Rightarrow> string \<Rightarrow> string list strmap \<Rightarrow> string list strmap" where
  "addName name p m = m(p \<mapsto> names_at m p @ [name])"

fun removeFromSlice :: "string list \<Rightarrow> string \<Rightarrow> string list" where
  "removeFromSlice [] e = []"
| "removeFromSlice (x # xs) e = (if x = e then xs else x # removeFromSlice xs e)"

definition dropName :: "string \<Rightarrow> string \<Rightarrow> string list strmap \<Rightarrow> string list strmap" where
  "dropName name p m = m(p \<mapsto> removeFromSlice (names_at m p) name)"

definition addDir :: "string \<Rightarrow> string \<Rightarrow> app_directory \<Rightarrow> app_directory" where
  "addDir name p d = d\<lparr>ad_dirs := addName name p (ad_dirs d)\<rparr>"

definition addFile :: "string \<Rightarrow> string \<Rightarrow> app_directory \<Rightarrow> app_directory" where
  "addFile name p d = d\<lparr>ad_files := addName name p (ad_files d)\<rparr>"

definition getSources :: "argo_api \<Rightarrow> application \<Rightarrow> app_source list option" where
  "getSources api app =
    (if \<not> ap_HasMultipleSources api (app_Spec app)
     then map_option (\<lambda>s. [s]) (sp_Source (app_Spec app))
     else Some (sp_Sources (app_Spec app)))"

text \<open>The paths of the extra helm files of a source.\<close>

definition helm_paths :: "app_source \<Rightarrow> string list" where
  "helm_paths src = (case src_Helm src of
     None \<Rightarrow> []
   | Some h \<Rightarrow> map (\<lambda>p. path_join [src_Path src, p]) (h_FileParameters h @ h_ValueFiles h))"

definition addSource :: "application \<Rightarrow> app_directory \<Rightarrow> app_source \<Rightarrow> app_directory" where
  "addSource app d src =
    (let d = addDir (app_Name app) (src_Path src) (d\<lparr>ad_apps := (ad_apps d)(app_Name app \<mapsto> app)\<rparr>)
     in foldl (\<lambda>d p. addFile (app_Name app) p d) d (helm_paths src))"

definition AddApp :: "argo_api \<Rightarrow> application \<Rightarrow> app_directory \<Rightarrow> app_directory option" where
  "AddApp api app d =
    (case ad_apps d (app_Name app) of
       Some _ \<Rightarrow> Some d
     | None \<Rightarrow> map_option (foldl (addSource app) d) (getSources api app))"

definition dir_RemoveApp :: "argo_api \<Rightarrow> application \<Rightarrow> app_directory \<Rightarrow> app_directory" where
  "dir_RemoveApp api app d =
    (let src = ap_GetSource api (app_Spec app);
         d = d\<lparr>ad_apps := (ad_apps d)(app_Name app := None)\<rparr>;
         d = d\<lparr>ad_dirs := dropName (app_Name app) (src_Path src) (ad_dirs d)\<rparr>
     in foldl (\<lambda>d p. d\<lparr>ad_files := dropName (app_Name app) p (ad_files d)\<rparr>) d (helm_paths src))"

definition GetApps :: "string list \<Rightarrow> (application \<Rightarrow> bool) \<Rightarrow> app_directory \<Rightarrow> application list" where
  "GetApps order flt d = filter flt (map (\<lambda>k. the (ad_apps d k)) order)"

section \<open>The search\<close>

definition dirContainsPath :: "string \<Rightarrow> string \<Rightarrow> bool" where
  "dirContainsPath dir changePath =
    (let changePath = path_clean changePath; dir = path_clean dir in
     if dir = ''.'' \<or> dir = ''/'' then True
     else let dir = trim_prefix dir ''/'' in
       if changePath = dir then True else has_prefix changePath (dir @ ''/''))"

definition getTargetRevision :: "argo_api \<Rightarrow> application \<Rightarrow> string" where
  "getTargetRevision api app = src_TargetRevision (ap_GetSource api (app_Spec app))"

definition getSourcePath :: "argo_api \<Rightarrow> application \<Rightarrow> string" where
  "getSourcePath api app = src_Path (ap_GetSource api (app_Spec app))"

definition shouldInclude :: "argo_api \<Rightarrow> string \<Rightarrow> application \<Rightarrow> bool" where
  "shouldInclude api targetBranch app =
    (let rev = getTargetRevision api app in
     if rev = [] then True
     else if rev = targetBranch then True
     else if rev = ''HEAD'' then
       (if targetBranch = ''main'' then True else if targetBranch = ''master'' then True else False)
     else False)"

text \<open>The names found for one changed path, \<open>dirs\<close> being the order of the directory map.\<close>

definition namesForPath :: "string list \<Rightarrow> app_directory \<Rightarrow> string \<Rightarrow> string list" where
  "namesForPath dirs d p =
    concat (map (\<lambda>dir. if dirContainsPath dir p then names_at (ad_dirs d) dir else []) dirs) @
    names_at (ad_files d) p"

definition appsSet :: "string list \<Rightarrow> app_directory \<Rightarrow> string list \<Rightarrow> string list" where
  "appsSet dirs d changeList = remdups (concat (map (namesForPath dirs d) changeList))"

text \<open>\<open>order\<close> is the order in which the set of names is enumerated.\<close>

definition FindApps ::
  "argo_api \<Rightarrow> string list \<Rightarrow> app_directory \<Rightarrow> string \<Rightarrow> application list" where
  "FindApps api order d targetBranch =
    concat (map (\<lambda>name. case ad_apps d name of
        None \<Rightarrow> []
      | Some app \<Rightarrow> if shouldInclude api targetBranch app then [app] else []) order)"

section \<open>Matching paths\<close>

lemma path_clean_unrooted:
  "\<not> rooted s \<Longrightarrow> path_clean s = (if clean_comps s = [] then ''.'' else str_join [slash] (clean_comps s))"
  by (simp add: path_clean_def)

lemma join_not_dot: "\<forall>c\<in>set cs. comp_ok c \<Longrightarrow> cs \<noteq> [] \<Longrightarrow> str_join [slash] cs \<noteq> ''.''"
  by (cases cs; cases "tl cs") (auto simp: comp_ok_def append_eq_Cons_conv)

lemma join_not_slash: "\<forall>c\<in>set cs. comp_ok c \<Longrightarrow> cs \<noteq> [] \<Longrightarrow> hd (str_join [slash] cs) \<noteq> slash"
  using join_head_ok by (cases cs) (auto simp: comp_ok_def)

text \<open>A changed path, relative to the repository, is inside a directory exactly when the
  components of the directory are a prefix of the components of the path.\<close>

lemma dirContainsPath_comps:
  assumes "\<not> rooted p"
  shows "dirContainsPath dir p \<longleftrightarrow> prefix (clean_comps dir) (clean_comps p)"
proof (cases "clean_comps dir = []")
  case True
  then show ?thesis by (simp add: dirContainsPath_def path_clean_def Let_def)
next
  case ne: False
  let ?ds = "clean_comps dir" and ?cs = "clean_comps p"
  have okd: "\<forall>c\<in>set ?ds. comp_ok c" and okc: "\<forall>c\<in>set ?cs. comp_ok c" using clean_comps_ok by auto
  have jd: "str_join [slash] ?ds \<noteq> ''.''" "hd (str_join [slash] ?ds) \<noteq> slash"
    using join_not_dot[OF okd ne] join_not_slash[OF okd ne] by auto
  have jn: "str_join [slash] ?ds \<noteq> []"
    using ne okd by (cases ?ds; cases "tl ?ds") (auto simp: comp_ok_def)
  have cl: "path_clean dir \<noteq> ''.'' \<and> path_clean dir \<noteq> ''/'' \<and>
      trim_prefix (path_clean dir) ''/'' = str_join [slash] ?ds"
  proof (cases "rooted dir")
    case True
    then have "path_clean dir = ''/'' @ str_join [slash] ?ds" by (simp add: path_clean_def)
    then show ?thesis using jn by (simp del: append.simps) simp
  next
    case False
    then have "path_clean dir = str_join [slash] ?ds" using ne by (simp add: path_clean_def)
    moreover have "\<not> has_prefix (str_join [slash] ?ds) ''/''"
      using jd(2) jn by (cases "str_join [slash] ?ds") auto
    ultimately show ?thesis using jd jn by (auto simp: trim_prefix_def)
  qed
  then have step: "dirContainsPath dir p \<longleftrightarrow> path_clean p = str_join [slash] ?ds \<or>
      has_prefix (path_clean p) (str_join [slash] ?ds @ [slash])"
    by (simp add: dirContainsPath_def Let_def)
  show ?thesis
  proof (cases "?cs = []")
    case True
    then have "path_clean p = ''.''" using assms by (simp add: path_clean_unrooted)
    moreover have "\<not> has_prefix ''.'' (str_join [slash] ?ds @ [slash])"
      by (auto simp: has_prefix_def jn jd(1))
    ultimately show ?thesis using step jd(1) True ne by (auto simp: prefix_def)
  next
    case False
    then have "path_clean p = str_join [slash] ?cs" using assms by (simp add: path_clean_unrooted)
    then have "dirContainsPath dir p \<longleftrightarrow> ?cs = ?ds \<or> (\<exists>es. es \<noteq> [] \<and> ?cs = ?ds @ es)"
      using step join_inject[OF okc okd] join_prefix[OF okc okd ne] by simp
    then show ?thesis by (auto simp: prefix_def)
  qed
qed

section \<open>Multi-maps of names\<close>

text \<open>What the index needs of its maps from paths to names: adding and dropping a name changes
  how often that name stands at that path, by one, and nothing else.\<close>

locale name_index =
  fixes times :: "'m \<Rightarrow> string \<Rightarrow> string \<Rightarrow> nat"
    and ins :: "string \<Rightarrow> string \<Rightarrow> 'm \<Rightarrow> 'm"
    and del :: "string \<Rightarrow> string \<Rightarrow> 'm \<Rightarrow> 'm"
  assumes times_ins: "times (ins n p m) q x = times m q x + (if q = p \<and> x = n then 1 else 0)"
    and times_del: "times (del n p m) q x = times m q x - (if q = p \<and> x = n then 1 else 0)"
begin

lemma times_ins_all:
  "times (foldl (\<lambda>m p. ins n p m) m ps) q x = times m q x + (if x = n then count_list ps q else 0)"
  by (induction ps arbitrary: m) (auto simp: times_ins)

lemma times_del_all:
  "times (foldl (\<lambda>m p. del n p m) m ps) q x = times m q x - (if x = n then count_list ps q else 0)"
  by (induction ps arbitrary: m) (auto simp: times_del)

lemma del_undoes_ins:
  "times (foldl (\<lambda>m p. del n p m) (foldl (\<lambda>m p. ins n p m) m ps) ps) q x = times m q x"
  by (simp add: times_del_all times_ins_all)

end

lemma count_list_removeFromSlice:
  "count_list (removeFromSlice xs n) x = count_list xs x - (if x = n then 1 else 0)"
  by (induction xs) auto

interpretation names: name_index "\<lambda>m p x. count_list (names_at m p) x" addName dropName
  by unfold_locales (auto simp: addName_def dropName_def names_at_def count_list_removeFromSlice)

lemma in_names_at: "n \<in> set (names_at m p) \<longleftrightarrow> 0 < count_list (names_at m p) n"
  using count_list_0_iff[of "names_at m p" n] by auto

section \<open>The index and what it indexes\<close>

definition sources_of :: "argo_api \<Rightarrow> application \<Rightarrow> app_source list" where
  "sources_of api app = (case getSources api app of None \<Rightarrow> [] | Some ss \<Rightarrow> ss)"

definition dirs_of :: "argo_api \<Rightarrow> application \<Rightarrow> string list" where
  "dirs_of api app = map src_Path (sources_of api app)"

definition files_of :: "argo_api \<Rightarrow> application \<Rightarrow> string list" where
  "files_of api app = concat (map helm_paths (sources_of api app))"

lemma addFile_fold:
  "foldl (\<lambda>d p. addFile n p d) d ps =
    d\<lparr>ad_files := foldl (\<lambda>m p. addName n p m) (ad_files d) ps\<rparr>"
  by (induction ps arbitrary: d) (auto simp: addFile_def)

lemma dropFile_fold:
  "foldl (\<lambda>d p. d\<lparr>ad_files := dropName n p (ad_files d)\<rparr>) d ps =
    d\<lparr>ad_files := foldl (\<lambda>m p. dropName n p m) (ad_files d) ps\<rparr>"
  by (induction ps arbitrary: d) auto

lemma addSource_eq:
  "addSource app d src =
    d\<lparr>ad_apps := (ad_apps d)(app_Name app \<mapsto> app), ad_dirs := addName (app_Name app) (src_Path src) (ad_dirs d),
      ad_files := foldl (\<lambda>m p. addName (app_Name app) p m) (ad_files d) (helm_paths src)\<rparr>"
  by (simp add: addSource_def addDir_def addFile_fold)

lemma addSources_fold:
  "ss \<noteq> [] \<Longrightarrow> foldl (addSource app) d ss =
    \<lparr>ad_dirs = foldl (\<lambda>m p. addName (app_Name app) p m) (ad_dirs d) (map src_Path ss),
     ad_files = foldl (\<lambda>m p. addName (app_Name app) p m) (ad_files d) (concat (map helm_paths ss)),
     ad_apps = (ad_apps d)(app_Name app \<mapsto> app)\<rparr>"
proof (induction ss arbitrary: d)
  case (Cons s ss)
  then show ?case by (cases "ss = []"; cases d) (auto simp: addSource_eq)
qed simp

text \<open>Every stored application stands at its directories and files, as often as it has them,
  and nothing else stands anywhere.\<close>

definition index_ok :: "argo_api \<Rightarrow> app_directory \<Rightarrow> bool" where
  "index_ok api d =
    ((\<forall>n a. ad_apps d n = Some a \<longrightarrow> app_Name a = n) \<and>
     (\<forall>p n. count_list (names_at (ad_dirs d) p) n =
        (case ad_apps d n of None \<Rightarrow> 0 | Some a \<Rightarrow> count_list (dirs_of api a) p)) \<and>
     (\<forall>p n. count_list (names_at (ad_files d) p) n =
        (case ad_apps d n of None \<Rightarrow> 0 | Some a \<Rightarrow> count_list (files_of api a) p)))"

lemma index_ok_new: "index_ok api NewAppDirectory"
  by (simp add: index_ok_def NewAppDirectory_def names_at_def)

lemma index_ok_add:
  assumes "index_ok api d" "AddApp api app d = Some d'" "argo_api_ok api"
  shows "index_ok api d'"
proof (cases "ad_apps d (app_Name app)")
  case (Some a)
  then show ?thesis using assms by (simp add: AddApp_def)
next
  case None
  then obtain ss where ss: "getSources api app = Some ss" "d' = foldl (addSource app) d ss"
    using assms(2) by (auto simp: AddApp_def)
  have "ss \<noteq> []" using ss(1) assms(3) by (auto simp: getSources_def argo_api_ok_def split: if_splits)
  then have d': "ad_apps d' = (ad_apps d)(app_Name app \<mapsto> app)"
    "ad_dirs d' = foldl (\<lambda>m p. addName (app_Name app) p m) (ad_dirs d) (dirs_of api app)"
    "ad_files d' = foldl (\<lambda>m p. addName (app_Name app) p m) (ad_files d) (files_of api app)"
    using ss addSources_fold[of ss app d] by (simp_all add: dirs_of_def files_of_def sources_of_def)
  have c: "count_list (names_at (ad_dirs d) p) n =
      (case ad_apps d n of None \<Rightarrow> 0 | Some a \<Rightarrow> count_list (dirs_of api a) p)"
    "count_list (names_at (ad_files d) p) n =
      (case ad_apps d n of None \<Rightarrow> 0 | Some a \<Rightarrow> count_list (files_of api a) p)" for p n
    using assms(1) by (simp_all add: index_ok_def)
  have nm: "\<forall>n a. ad_apps d' n = Some a \<longrightarrow> app_Name a = n"
    using assms(1) by (auto simp: d'(1) index_ok_def)
  have "\<forall>p n. count_list (names_at (ad_dirs d') p) n =
      (case ad_apps d' n of None \<Rightarrow> 0 | Some a \<Rightarrow> count_list (dirs_of api a) p)"
    unfolding d'(2) names.times_ins_all c by (simp add: d'(1) None)
  moreover have "\<forall>p n. count_list (names_at (ad_files d') p) n =
      (case ad_apps d' n of None \<Rightarrow> 0 | Some a \<Rightarrow> count_list (files_of api a) p)"
    unfolding d'(3) names.times_ins_all c by (simp add: d'(1) None)
  ultimately show ?thesis using nm unfolding index_ok_def by blast
qed

definition single_source :: "argo_api \<Rightarrow> application \<Rightarrow> bool" where
  "single_source api app = (getSources api app = Some [ap_GetSource api (app_Spec app)])"

lemma index_ok_remove:
  assumes "index_ok api d" "ad_apps d (app_Name app) = Some app" "single_source api app"
  shows "index_ok api (dir_RemoveApp api app d)"
proof -
  let ?d' = "dir_RemoveApp api app d"
  have s: "dirs_of api app = [src_Path (ap_GetSource api (app_Spec app))]"
    "files_of api app = helm_paths (ap_GetSource api (app_Spec app))"
    using assms(3) by (simp_all add: single_source_def dirs_of_def files_of_def sources_of_def)
  have d': "ad_apps ?d' = (ad_apps d)(app_Name app := None)"
    "ad_dirs ?d' = foldl (\<lambda>m p. dropName (app_Name app) p m) (ad_dirs d) (dirs_of api app)"
    "ad_files ?d' = foldl (\<lambda>m p. dropName (app_Name app) p m) (ad_files d) (files_of api app)"
    by (simp_all add: dir_RemoveApp_def Let_def dropFile_fold s)
  have c: "count_list (names_at (ad_dirs d) p) n =
      (case ad_apps d n of None \<Rightarrow> 0 | Some a \<Rightarrow> count_list (dirs_of api a) p)"
    "count_list (names_at (ad_files d) p) n =
      (case ad_apps d n of None \<Rightarrow> 0 | Some a \<Rightarrow> count_list (files_of api a) p)" for p n
    using assms(1) by (simp_all add: index_ok_def)
  have nm: "\<forall>n a. ad_apps ?d' n = Some a \<longrightarrow> app_Name a = n"
    using assms(1) by (auto simp: d'(1) index_ok_def)
  have "\<forall>p n. count_list (names_at (ad_dirs ?d') p) n =
      (case ad_apps ?d' n of None \<Rightarrow> 0 | Some a \<Rightarrow> count_list (dirs_of api a) p)"
    unfolding d'(2) names.times_del_all c by (simp add: d'(1) assms(2))
  moreover have "\<forall>p n. count_list (names_at (ad_files ?d') p) n =
      (case ad_apps ?d' n of None \<Rightarrow> 0 | Some a \<Rightarrow> count_list (files_of api a) p)"
    unfolding d'(3) names.times_del_all c by (simp add: d'(1) assms(2))
  ultimately show ?thesis using nm unfolding index_ok_def by blast
qed

text \<open>The indexes the watchers build: applications are added, and removed as they were added.\<close>

inductive built :: "argo_api \<Rightarrow> app_directory \<Rightarrow> bool" for api where
  built_new: "built api NewAppDirectory"
| built_add: "built api d \<Longrightarrow> AddApp api app d = Some d' \<Longrightarrow> built api d'"
| built_remove: "built api d \<Longrightarrow> ad_apps d (app_Name app) = Some app \<Longrightarrow> single_source api app \<Longrightarrow>
    built api (dir_RemoveApp api app d)"

lemma built_index_ok: "built api d \<Longrightarrow> argo_api_ok api \<Longrightarrow> index_ok api d"
  by (induction rule: built.induct) (auto intro: index_ok_new index_ok_add index_ok_remove)

subsection \<open>The search finds what the index holds\<close>

lemma appsSet_iff:
  assumes "keys_of (ad_dirs d) dirs"
  shows "n \<in> set (appsSet dirs d changes) \<longleftrightarrow>
    (\<exists>p\<in>set changes. (\<exists>dir. dirContainsPath dir p \<and> n \<in> set (names_at (ad_dirs d) dir)) \<or>
       n \<in> set (names_at (ad_files d) p))"
proof -
  have "n \<in> set (names_at (ad_dirs d) dir) \<Longrightarrow> dir \<in> set dirs" for dir
    using keys_of_in[OF assms, of dir] by (cases "ad_dirs d dir") (auto simp: names_at_def)
  then show ?thesis by (auto simp: appsSet_def namesForPath_def)
qed

lemma FindApps_iff:
  "app \<in> set (FindApps api order d branch) \<longleftrightarrow>
    (\<exists>n\<in>set order. ad_apps d n = Some app \<and> shouldInclude api branch app)"
proof -
  have "set (case ad_apps d n of None \<Rightarrow> [] | Some a \<Rightarrow> if shouldInclude api branch a then [a] else []) =
      {a. ad_apps d n = Some a \<and> shouldInclude api branch a}" for n
    by (auto split: option.split)
  then show ?thesis by (simp add: FindApps_def)
qed

lemma FindApps_exact:
  assumes "index_ok api d" "keys_of (ad_dirs d) dirs" "set order = set (appsSet dirs d changes)"
  shows "app \<in> set (FindApps api order d branch) \<longleftrightarrow>
    ad_apps d (app_Name app) = Some app \<and> shouldInclude api branch app \<and>
    (\<exists>p\<in>set changes. (\<exists>dir\<in>set (dirs_of api app). dirContainsPath dir p) \<or> p \<in> set (files_of api app))"
proof -
  have nm: "ad_apps d n = Some app \<Longrightarrow> n = app_Name app" for n
    using assms(1) unfolding index_ok_def by metis
  have "n \<in> set (names_at (ad_dirs d) dir) \<longleftrightarrow> dir \<in> set (dirs_of api app)"
    "n \<in> set (names_at (ad_files d) dir) \<longleftrightarrow> dir \<in> set (files_of api app)"
    if "ad_apps d n = Some app" for n dir
    using assms(1) that count_list_0_iff[of "dirs_of api app" dir] count_list_0_iff[of "files_of api app" dir]
    unfolding index_ok_def in_names_at by auto
  note at = this
  have "app \<in> set (FindApps api order d branch) \<longleftrightarrow>
      ad_apps d (app_Name app) = Some app \<and> shouldInclude api branch app \<and> app_Name app \<in> set order"
    unfolding FindApps_iff using nm by blast
  then show ?thesis
    unfolding assms(3) appsSet_iff[OF assms(2)] using at by blast
qed

section \<open>Properties\<close>

text \<open>A changed file is inside the directory of an application exactly when the path components of
  the directory are a prefix of those of the file: a sibling whose name merely starts alike
  does not match, and the root in any spelling matches everything.\<close>

theorem dir_match_is_component_prefix:
  assumes "\<not> rooted p"
  shows "dirContainsPath dir p = prefix (clean_comps dir) (clean_comps p)"
  using dirContainsPath_comps[OF assms] .

theorem dir_match_is_component_prefix_witness:
  "dirContainsPath ''./apps/'' ''apps/web/x.yaml'' \<and> \<not> dirContainsPath ''apps'' ''apps-other/x.yaml''"
proof -
  have r: "\<not> rooted ''apps/web/x.yaml''" "\<not> rooted ''apps-other/x.yaml''" by (simp_all add: rooted_def)
  have "clean_comps ''./apps/'' = [''apps'']" "clean_comps ''apps/web/x.yaml'' = [''apps'', ''web'', ''x.yaml'']"
    "clean_comps ''apps'' = [''apps'']" "clean_comps ''apps-other/x.yaml'' = [''apps-other'', ''x.yaml'']"
    by code_simp+
  then show ?thesis using dir_match_is_component_prefix[OF r(1), of "''./apps/''"]
      dir_match_is_component_prefix[OF r(2), of "''apps''"] by simp
qed


definition demo_source :: "string \<Rightarrow> app_source" where
  "demo_source p = src_zero\<lparr>src_Path := p\<rparr>"

definition demo_app :: "string list \<Rightarrow> application" where
  "demo_app ps = \<lparr>app_Name = ''web'', app_Namespace = ''argocd'', app_Spec =
     \<lparr>sp_Source = None, sp_Sources = map demo_source ps, sp_DestinationName = [], sp_DestinationServer = []\<rparr>\<rparr>"

definition demo_dir :: app_directory where
  "demo_dir = the (AddApp demo_api (demo_app [''a'', ''b'']) NewAppDirectory)"

lemma demo_dir_added: "AddApp demo_api (demo_app [''a'', ''b'']) NewAppDirectory = Some demo_dir"
  by (simp add: demo_dir_def AddApp_def NewAppDirectory_def getSources_def demo_api_def demo_app_def)

lemma demo_dir_dirs: "ad_dirs demo_dir = [''a'' \<mapsto> [''web''], ''b'' \<mapsto> [''web'']]"
  "ad_apps demo_dir = [''web'' \<mapsto> demo_app [''a'', ''b'']]"
  by (simp_all add: demo_dir_def AddApp_def NewAppDirectory_def getSources_def demo_api_def demo_app_def
      addSource_eq demo_source_def src_zero_def addName_def names_at_def)


text \<open>Removing an application with several sources cleans up its first source only: when an update
  drops the second source, a change in the dropped directory still finds the application.\<close>

theorem dropped_source_still_matches:
  "\<exists>d'. AddApp demo_api (demo_app [''a'']) (dir_RemoveApp demo_api (demo_app [''a'', ''b'']) demo_dir) = Some d' \<and>
    \<not> list_ex (\<lambda>dir. dirContainsPath dir ''b/x'') (dirs_of demo_api (demo_app [''a''])) \<and>
    demo_app [''a''] \<in> set (FindApps demo_api (appsSet [''b''] d' [''b/x'']) d' ''main'')"
proof -
  let ?r = "dir_RemoveApp demo_api (demo_app [''a'', ''b'']) demo_dir"
  let ?d' = "addSource (demo_app [''a'']) ?r (demo_source ''a'')"
  have c: "dirContainsPath ''a'' ''b/x''  = False" "dirContainsPath ''b'' ''b/x'' = True" by code_simp+
  have "ad_apps ?r = (\<lambda>_. None)" "ad_dirs ?r ''b'' = Some [''web'']"
    by (auto simp: dir_RemoveApp_def demo_dir_dirs demo_api_def demo_app_def demo_source_def src_zero_def
        helm_paths_def dropName_def names_at_def)
  then have r: "AddApp demo_api (demo_app [''a'']) ?r = Some ?d'" "ad_dirs ?d' ''b'' = Some [''web'']"
    "ad_apps ?d' ''web'' = Some (demo_app [''a''])"
    by (simp_all add: AddApp_def getSources_def demo_api_def demo_app_def addSource_eq
        demo_source_def src_zero_def addName_def)
  have "''web'' \<in> set (appsSet [''b''] ?d' [''b/x''])"
    using r(2) c(2) by (simp add: appsSet_def namesForPath_def names_at_def)
  moreover have "shouldInclude demo_api ''main'' (demo_app [''a''])"
    by (simp add: shouldInclude_def getTargetRevision_def demo_api_def demo_app_def demo_source_def src_zero_def)
  ultimately have "demo_app [''a''] \<in> set (FindApps demo_api (appsSet [''b''] ?d' [''b/x'']) ?d' ''main'')"
    using r(3) unfolding FindApps_iff by blast
  moreover have "dirs_of demo_api (demo_app [''a'']) = [''a'']"
    by (simp add: dirs_of_def sources_of_def getSources_def demo_api_def demo_app_def demo_source_def)
  ultimately show ?thesis using r(1) c(1) by simp
qed

end
