(* ===== verification/AppSetDir.thy ===== *)
theory AppSetDir
  imports AppDir
begin

text \<open>
  \<open>pkg/appdir/appset_directory.go\<close>: the index of ApplicationSets, with the globs of their Git
  generators, and the search for the ApplicationSets that a change list affects.  The glob
  matcher (\<open>doublestar.Match\<close>, \<open>None\<close> for a malformed pattern), the checkout (a function from
  paths to file contents, \<open>None\<close> when a file cannot be opened) and the YAML parser are
  arguments.
\<close>

section \<open>The index\<close>

record app_set_directory =
  sd_dirs :: "string list strmap"
  sd_files :: "string list strmap"
  sd_sets :: "application_set strmap"
  sd_dirPatterns :: "string list strmap"
  sd_filePatterns :: "string list strmap"

definition NewAppSetDirectory :: app_set_directory where
  "NewAppSetDirectory = \<lparr>sd_dirs = (\<lambda>_. None), sd_files = (\<lambda>_. None), sd_sets = (\<lambda>_. None),
     sd_dirPatterns = (\<lambda>_. None), sd_filePatterns = (\<lambda>_. None)\<rparr>"

definition set_Union :: "app_set_directory \<Rightarrow> app_set_directory \<Rightarrow> app_set_directory" where
  "set_Union d other =
    \<lparr>sd_dirs = mergeMaps (sd_dirs d) (sd_dirs other) mergeLists,
     sd_files = mergeMaps (sd_files d) (sd_files other) mergeLists,
     sd_sets = mergeMaps (sd_sets d) (sd_sets other) takeFirst,
     sd_dirPatterns = mergeMaps (sd_dirPatterns d) (sd_dirPatterns other) mergeLists,
     sd_filePatterns = mergeMaps (sd_filePatterns d) (sd_filePatterns other) mergeLists\<rparr>"

definition appSetGetSourcePath :: "argo_api \<Rightarrow> application_set \<Rightarrow> string" where
  "appSetGetSourcePath api s = src_Path (ap_GetSource api (as_TemplateSpec s))"

definition AddAppSet :: "argo_api \<Rightarrow> application_set \<Rightarrow> app_set_directory \<Rightarrow> app_set_directory" where
  "AddAppSet api s d =
    (case sd_sets d (as_Name s) of
       Some _ \<Rightarrow> d
     | None \<Rightarrow> d\<lparr>sd_sets := (sd_sets d)(as_Name s \<mapsto> s),
                 sd_dirs := addName (as_Name s) (appSetGetSourcePath api s) (sd_dirs d)\<rparr>)"

definition registerGitGen :: "string \<Rightarrow> git_generator option \<Rightarrow> app_set_directory \<Rightarrow> app_set_directory" where
  "registerGitGen name g d =
    (case g of
       None \<Rightarrow> d
     | Some g \<Rightarrow>
         let d = foldl (\<lambda>d i. if gi_Exclude i \<or> gi_Path i = [] then d
                   else d\<lparr>sd_dirPatterns := addName name (gi_Path i) (sd_dirPatterns d)\<rparr>) d (gg_Directories g)
         in foldl (\<lambda>d i. if gi_Exclude i \<or> gi_Path i = [] then d
                   else d\<lparr>sd_filePatterns := addName name (gi_Path i) (sd_filePatterns d)\<rparr>) d (gg_Files g))"

definition unregisterGitGen :: "string \<Rightarrow> git_generator option \<Rightarrow> app_set_directory \<Rightarrow> app_set_directory" where
  "unregisterGitGen name g d =
    (case g of
       None \<Rightarrow> d
     | Some g \<Rightarrow>
         let d = foldl (\<lambda>d i. if gi_Path i = [] then d
                   else d\<lparr>sd_dirPatterns := dropName name (gi_Path i) (sd_dirPatterns d)\<rparr>) d (gg_Directories g)
         in foldl (\<lambda>d i. if gi_Path i = [] then d
                   else d\<lparr>sd_filePatterns := dropName name (gi_Path i) (sd_filePatterns d)\<rparr>) d (gg_Files g))"

text \<open>The Git generators of a set in the order in which both loops visit them.\<close>

definition gitGens :: "application_set \<Rightarrow> git_generator option list" where
  "gitGens s = concat (map (\<lambda>g. gen_Git g #
     (case gen_Matrix g of None \<Rightarrow> [] | Some gs \<Rightarrow> gs) @
     (case gen_Merge g of None \<Rightarrow> [] | Some gs \<Rightarrow> gs)) (as_Generators s))"

definition ProcessAppSet :: "argo_api \<Rightarrow> application_set \<Rightarrow> app_set_directory \<Rightarrow> app_set_directory" where
  "ProcessAppSet api s d =
    (let d = AddAppSet api s d;
         d = foldl (\<lambda>d p. d\<lparr>sd_files := addName (as_Name s) p (sd_files d)\<rparr>) d
               (helm_paths (ap_GetSource api (as_TemplateSpec s)))
     in foldl (\<lambda>d g. registerGitGen (as_Name s) g d) d (gitGens s))"

definition RemoveAppSet :: "argo_api \<Rightarrow> application_set \<Rightarrow> app_set_directory \<Rightarrow> app_set_directory" where
  "RemoveAppSet api s d =
    (let d = d\<lparr>sd_sets := (sd_sets d)(as_Name s := None)\<rparr>;
         d = d\<lparr>sd_dirs := dropName (as_Name s) (appSetGetSourcePath api s) (sd_dirs d)\<rparr>;
         d = foldl (\<lambda>d p. d\<lparr>sd_files := dropName (as_Name s) p (sd_files d)\<rparr>) d
               (helm_paths (ap_GetSource api (as_TemplateSpec s)))
     in foldl (\<lambda>d g. unregisterGitGen (as_Name s) g d) d (gitGens s))"

definition GetAppSets :: "string list \<Rightarrow> (application_set \<Rightarrow> bool) \<Rightarrow> app_set_directory \<Rightarrow> application_set list" where
  "GetAppSets order flt d = filter flt (map (\<lambda>k. the (sd_sets d k)) order)"

section \<open>The search\<close>

text \<open>\<open>bufio.Scanner\<close> over lines: a carriage return before the newline is dropped, there is no
  empty last line, and a line of 64 KiB stops the scan with an error.\<close>

definition scan_lines :: "string \<Rightarrow> string list" where
  "scan_lines s =
    (let ls = split_char nl s;
         ls = (if last ls = [] then butlast ls else ls)
     in map (\<lambda>l. if l \<noteq> [] \<and> last l = CHR 0x0D then butlast l else l)
          (takeWhile (\<lambda>l. length l < 65536) ls))"

definition containsKindApplicationSet :: "(string \<Rightarrow> string option) \<Rightarrow> string \<Rightarrow> bool" where
  "containsKindApplicationSet read p =
    (case read p of
       None \<Rightarrow> False
     | Some content \<Rightarrow> list_ex (\<lambda>line. str_contains line ''kind: ApplicationSet'') (scan_lines content))"

function parentMatches :: "(string \<Rightarrow> string \<Rightarrow> bool option) \<Rightarrow> string \<Rightarrow> string \<Rightarrow> bool" where
  "parentMatches glob pattern dir =
    (if glob pattern dir = Some True then True
     else if dir = ''.'' \<or> dir = ''/'' then False
     else let parent = path_dir dir in
       if parent = dir then False else parentMatches glob pattern parent)"
  by pat_completeness auto

termination
proof (relation "measure (\<lambda>(_, _, dir). if dir \<in> {''.'', ''/''} then 0 else Suc (length dir))")
  fix glob :: "string \<Rightarrow> string \<Rightarrow> bool option" and pattern dir parent :: string
  assume "\<not> (dir = ''.'' \<or> dir = ''/'')" "parent = path_dir dir"
  then show "((glob, pattern, parent), (glob, pattern, dir)) \<in>
      measure (\<lambda>(_, _, dir). if dir \<in> {''.'', ''/''} then 0 else Suc (length dir))"
    using path_dir_length[of dir] by auto
qed simp

declare parentMatches.simps [simp del]

definition anyParentMatches :: "(string \<Rightarrow> string \<Rightarrow> bool option) \<Rightarrow> string \<Rightarrow> string \<Rightarrow> bool" where
  "anyParentMatches glob pattern filePath = parentMatches glob pattern (path_dir filePath)"

text \<open>The result of the search under construction: the names seen and the sets found.\<close>

type_synonym found = "string set \<times> application_set list"

definition addFound :: "application_set \<Rightarrow> found \<Rightarrow> found" where
  "addFound s r = (let (seen, sets) = r in
     if as_Name s \<in> seen then r else (insert (as_Name s) seen, sets @ [s]))"

definition findInFile ::
  "(string \<Rightarrow> string option) \<Rightarrow> (string \<Rightarrow> application_set option) \<Rightarrow> string \<Rightarrow> found \<Rightarrow> string \<Rightarrow> found" where
  "findInFile read parse directory r changePath =
    (let absPath = path_join [directory, changePath] in
     if \<not> containsKindApplicationSet read absPath then r
     else case read absPath of
            None \<Rightarrow> r
          | Some content \<Rightarrow> (case parse content of None \<Rightarrow> r | Some s \<Rightarrow> addFound s r))"

definition findName :: "app_set_directory \<Rightarrow> found \<Rightarrow> string \<Rightarrow> found" where
  "findName d r name = (let (seen, sets) = r in
     if name \<in> seen then r
     else case sd_sets d name of None \<Rightarrow> r | Some s \<Rightarrow> (insert name seen, sets @ [s]))"

definition findByPatterns ::
  "(string \<Rightarrow> string \<Rightarrow> bool option) \<Rightarrow> string list \<Rightarrow> string list \<Rightarrow> app_set_directory \<Rightarrow> found \<Rightarrow> string \<Rightarrow> found" where
  "findByPatterns glob dirPats filePats d r changePath =
    (let cleanPath = path_clean (trim_prefix changePath ''/'');
         r = foldl (\<lambda>r pat. if anyParentMatches glob pat cleanPath
                      then foldl (findName d) r (names_at (sd_dirPatterns d) pat) else r) r dirPats
     in foldl (\<lambda>r pat. if glob pat cleanPath = Some True
                      then foldl (findName d) r (names_at (sd_filePatterns d) pat) else r) r filePats)"

text \<open>\<open>dirPats\<close> and \<open>filePats\<close> give, for each changed path, the order in which the runtime
  enumerates the pattern maps while it looks at that path.\<close>

definition FindAppSets ::
  "(string \<Rightarrow> string \<Rightarrow> bool option) \<Rightarrow> (string \<Rightarrow> string option) \<Rightarrow> (string \<Rightarrow> application_set option) \<Rightarrow>
   string \<Rightarrow> (string \<Rightarrow> string list) \<Rightarrow> (string \<Rightarrow> string list) \<Rightarrow> app_set_directory \<Rightarrow> string list \<Rightarrow>
   application_set list" where
  "FindAppSets glob read parse directory dirPats filePats d changeList =
    (let r = foldl (findInFile read parse directory) ({}, []) changeList
     in snd (foldl (\<lambda>r p. findByPatterns glob (dirPats p) (filePats p) d r p) r changeList))"

section \<open>What the search finds\<close>

text \<open>The set a changed file defines, and whether a stored name is matched by a changed path.\<close>

definition set_in_file ::
  "(string \<Rightarrow> string option) \<Rightarrow> (string \<Rightarrow> application_set option) \<Rightarrow> string \<Rightarrow> string \<Rightarrow> application_set option" where
  "set_in_file read parse directory p =
    (let absPath = path_join [directory, p] in
     if containsKindApplicationSet read absPath
     then (case read absPath of None \<Rightarrow> None | Some c \<Rightarrow> parse c) else None)"

definition pattern_match :: "(string \<Rightarrow> string \<Rightarrow> bool option) \<Rightarrow> app_set_directory \<Rightarrow> string \<Rightarrow> string \<Rightarrow> bool" where
  "pattern_match glob d p n =
    (let c = path_clean (trim_prefix p ''/'') in
     (\<exists>pat. anyParentMatches glob pat c \<and> n \<in> set (names_at (sd_dirPatterns d) pat)) \<or>
     (\<exists>pat. glob pat c = Some True \<and> n \<in> set (names_at (sd_filePatterns d) pat)))"

definition found_ok :: "found \<Rightarrow> bool" where
  "found_ok r = (fst r = as_Name ` set (snd r) \<and> distinct (map as_Name (snd r)))"

definition sets_named :: "app_set_directory \<Rightarrow> bool" where
  "sets_named d = (\<forall>n s. sd_sets d n = Some s \<longrightarrow> as_Name s = n)"

lemma findInFile_eq:
  "findInFile read parse directory r p =
    (case set_in_file read parse directory p of None \<Rightarrow> r | Some s \<Rightarrow> addFound s r)"
  by (simp add: findInFile_def set_in_file_def Let_def split: option.splits)

lemma addFound_ok: "found_ok r \<Longrightarrow> found_ok (addFound s r) \<and> fst (addFound s r) = insert (as_Name s) (fst r)"
  by (cases r) (auto simp: found_ok_def addFound_def)

lemma findName_ok:
  assumes "sets_named d" "found_ok r"
  shows "found_ok (findName d r n) \<and>
    fst (findName d r n) = fst r \<union> (if sd_sets d n \<noteq> None then {n} else {})"
  using assms by (cases r) (auto simp: found_ok_def findName_def sets_named_def split: option.splits)

lemma findName_fold:
  assumes "sets_named d" "found_ok r"
  shows "found_ok (foldl (findName d) r ns) \<and>
    fst (foldl (findName d) r ns) = fst r \<union> {n \<in> set ns. sd_sets d n \<noteq> None}"
  using assms(2)
proof (induction ns arbitrary: r)
  case (Cons n ns)
  then show ?case using Cons.IH[of "findName d r n"] findName_ok[OF assms(1) Cons.prems, of n] by auto
qed simp

lemma findPats_fold:
  assumes "sets_named d" "found_ok r"
  shows "found_ok (foldl (\<lambda>r pat. if M pat then foldl (findName d) r (names_at m pat) else r) r pats) \<and>
    fst (foldl (\<lambda>r pat. if M pat then foldl (findName d) r (names_at m pat) else r) r pats) =
      fst r \<union> {n. \<exists>pat\<in>set pats. M pat \<and> n \<in> set (names_at m pat) \<and> sd_sets d n \<noteq> None}"
  using assms(2)
proof (induction pats arbitrary: r)
  case (Cons pat pats)
  show ?case
  proof (cases "M pat")
    case True
    then show ?thesis
      using Cons.IH[of "foldl (findName d) r (names_at m pat)"] findName_fold[OF assms(1) Cons.prems, of "names_at m pat"]
      by auto
  next
    case False
    then show ?thesis using Cons.IH[OF Cons.prems] by auto
  qed
qed simp

lemma findByPatterns_ok:
  assumes "sets_named d" "found_ok r" "keys_of (sd_dirPatterns d) dps" "keys_of (sd_filePatterns d) fps"
  shows "found_ok (findByPatterns glob dps fps d r p) \<and>
    fst (findByPatterns glob dps fps d r p) =
      fst r \<union> {n. pattern_match glob d p n \<and> sd_sets d n \<noteq> None}"
proof -
  let ?c = "path_clean (trim_prefix p ''/'')"
  let ?r1 = "foldl (\<lambda>r pat. if anyParentMatches glob pat ?c
      then foldl (findName d) r (names_at (sd_dirPatterns d) pat) else r) r dps"
  have r1: "found_ok ?r1" "fst ?r1 = fst r \<union> {n. \<exists>pat\<in>set dps. anyParentMatches glob pat ?c \<and>
      n \<in> set (names_at (sd_dirPatterns d) pat) \<and> sd_sets d n \<noteq> None}"
    using findPats_fold[OF assms(1,2), of "\<lambda>pat. anyParentMatches glob pat ?c" "sd_dirPatterns d" dps] by auto
  have k: "n \<in> set (names_at m pat) \<Longrightarrow> keys_of m ks \<Longrightarrow> pat \<in> set ks" for n m pat ks
    by (cases "m pat") (auto simp: names_at_def keys_of_in)
  have "findByPatterns glob dps fps d r p = foldl (\<lambda>r pat. if glob pat ?c = Some True
      then foldl (findName d) r (names_at (sd_filePatterns d) pat) else r) ?r1 fps"
    by (simp add: findByPatterns_def Let_def)
  moreover have "(\<exists>pat\<in>set dps. P pat \<and> n \<in> set (names_at (sd_dirPatterns d) pat) \<and> Q) \<longleftrightarrow>
      (\<exists>pat. P pat \<and> n \<in> set (names_at (sd_dirPatterns d) pat)) \<and> Q" for P n Q
    using k[OF _ assms(3)] by blast
  moreover have "(\<exists>pat\<in>set fps. P pat \<and> n \<in> set (names_at (sd_filePatterns d) pat) \<and> Q) \<longleftrightarrow>
      (\<exists>pat. P pat \<and> n \<in> set (names_at (sd_filePatterns d) pat)) \<and> Q" for P n Q
    using k[OF _ assms(4)] by blast
  ultimately show ?thesis
    using findPats_fold[OF assms(1) r1(1), of "\<lambda>pat. glob pat ?c = Some True" "sd_filePatterns d" fps] r1(2)
    by (simp only: pattern_match_def Let_def) blast
qed

lemma FindAppSets_names:
  assumes "sets_named d" "\<And>p. keys_of (sd_dirPatterns d) (dirPats p)" "\<And>p. keys_of (sd_filePatterns d) (filePats p)"
  shows "distinct (map as_Name (FindAppSets glob read parse directory dirPats filePats d changes)) \<and>
    as_Name ` set (FindAppSets glob read parse directory dirPats filePats d changes) =
      {as_Name s |s. \<exists>p\<in>set changes. set_in_file read parse directory p = Some s} \<union>
      {n. sd_sets d n \<noteq> None \<and> (\<exists>p\<in>set changes. pattern_match glob d p n)}"
proof -
  have one: "found_ok r \<Longrightarrow> found_ok (foldl (findInFile read parse directory) r ps) \<and>
      fst (foldl (findInFile read parse directory) r ps) =
        fst r \<union> {as_Name s |s. \<exists>p\<in>set ps. set_in_file read parse directory p = Some s}" for r ps
  proof (induction ps arbitrary: r)
    case (Cons p ps)
    then show ?case using Cons.IH[of "findInFile read parse directory r p"] addFound_ok[OF Cons.prems]
      by (auto simp: findInFile_eq split: option.splits)
  qed simp
  have two: "found_ok r \<Longrightarrow> found_ok (foldl (\<lambda>r p. findByPatterns glob (dirPats p) (filePats p) d r p) r ps) \<and>
      fst (foldl (\<lambda>r p. findByPatterns glob (dirPats p) (filePats p) d r p) r ps) =
        fst r \<union> {n. sd_sets d n \<noteq> None \<and> (\<exists>p\<in>set ps. pattern_match glob d p n)}" for r ps
  proof (induction ps arbitrary: r)
    case (Cons p ps)
    have s: "found_ok (findByPatterns glob (dirPats p) (filePats p) d r p)"
      "fst (findByPatterns glob (dirPats p) (filePats p) d r p) =
        fst r \<union> {n. pattern_match glob d p n \<and> sd_sets d n \<noteq> None}"
      using findByPatterns_ok[OF assms(1) Cons.prems assms(2,3)] by auto
    then show ?case using Cons.IH[OF s(1)] by auto
  qed simp
  let ?r1 = "foldl (findInFile read parse directory) ({}, []) changes"
  let ?r2 = "foldl (\<lambda>r p. findByPatterns glob (dirPats p) (filePats p) d r p) ?r1 changes"
  have "found_ok ({}, [])" by (simp add: found_ok_def)
  note r1 = one[OF this, of changes]
  note r2 = two[OF r1[THEN conjunct1], of changes]
  have F: "FindAppSets glob read parse directory dirPats filePats d changes = snd ?r2"
    by (simp add: FindAppSets_def Let_def)
  have "distinct (map as_Name (snd ?r2))" "as_Name ` set (snd ?r2) = fst ?r2"
    using r2[THEN conjunct1] by (simp_all add: found_ok_def)
  then show ?thesis
    unfolding F using r1[THEN conjunct2] r2[THEN conjunct2] by (simp only: fst_conv Un_empty_left)
qed

section \<open>Adding and removing\<close>

definition dir_globs :: "application_set \<Rightarrow> string list" where
  "dir_globs s = concat (map (\<lambda>g. case g of None \<Rightarrow> []
     | Some g \<Rightarrow> map gi_Path (filter (\<lambda>i. \<not> gi_Exclude i \<and> gi_Path i \<noteq> []) (gg_Directories g))) (gitGens s))"

lemma fold_skip:
  "foldl (\<lambda>d i. if P i then d else f d (g i)) d is = foldl f d (map g (filter (\<lambda>i. \<not> P i) is))"
  by (induction "is" arbitrary: d) auto

lemma registerGitGen_dirPatterns:
  "sd_dirPatterns (registerGitGen n g d) = foldl (\<lambda>m p. addName n p m) (sd_dirPatterns d)
     (case g of None \<Rightarrow> [] | Some g \<Rightarrow> map gi_Path (filter (\<lambda>i. \<not> gi_Exclude i \<and> gi_Path i \<noteq> []) (gg_Directories g)))"
proof (cases g)
  case (Some g')
  have 1: "sd_dirPatterns (foldl (\<lambda>d i. if gi_Exclude i \<or> gi_Path i = [] then d
      else d\<lparr>sd_filePatterns := addName n (gi_Path i) (sd_filePatterns d)\<rparr>) d is) = sd_dirPatterns d" for d "is"
    by (induction "is" arbitrary: d) auto
  have 2: "sd_dirPatterns (foldl (\<lambda>d i. if gi_Exclude i \<or> gi_Path i = [] then d
      else d\<lparr>sd_dirPatterns := addName n (gi_Path i) (sd_dirPatterns d)\<rparr>) d is) =
      foldl (\<lambda>m p. addName n p m) (sd_dirPatterns d)
        (map gi_Path (filter (\<lambda>i. \<not> gi_Exclude i \<and> gi_Path i \<noteq> []) is))" for d "is"
    by (induction "is" arbitrary: d) auto
  show ?thesis using Some by (simp add: registerGitGen_def Let_def 1 2)
qed (simp add: registerGitGen_def)

lemma ProcessAppSet_dirPatterns:
  "sd_dirPatterns (ProcessAppSet api s d) = foldl (\<lambda>m p. addName (as_Name s) p m) (sd_dirPatterns d) (dir_globs s)"
proof -
  have 1: "sd_dirPatterns (foldl (\<lambda>d p. d\<lparr>sd_files := addName n p (sd_files d)\<rparr>) d ps) = sd_dirPatterns d"
    for n d and ps :: "string list" by (induction ps arbitrary: d) auto
  have 2: "sd_dirPatterns (foldl (\<lambda>d g. registerGitGen n g d) d gs) = foldl (\<lambda>m p. addName n p m) (sd_dirPatterns d)
      (concat (map (\<lambda>g. case g of None \<Rightarrow> []
        | Some g \<Rightarrow> map gi_Path (filter (\<lambda>i. \<not> gi_Exclude i \<and> gi_Path i \<noteq> []) (gg_Directories g))) gs))" for n d gs
    by (induction gs arbitrary: d) (simp_all add: registerGitGen_dirPatterns)
  have 3: "sd_dirPatterns (AddAppSet api s d) = sd_dirPatterns d"
    by (simp add: AddAppSet_def split: option.split)
  show ?thesis by (simp add: ProcessAppSet_def Let_def 1 2 3 dir_globs_def)
qed

lemma ProcessAppSet_sets:
  "sd_sets (ProcessAppSet api s d) =
    (case sd_sets d (as_Name s) of None \<Rightarrow> (sd_sets d)(as_Name s \<mapsto> s) | Some _ \<Rightarrow> sd_sets d)"
proof -
  have 1: "sd_sets (foldl (\<lambda>d p. d\<lparr>sd_files := addName n p (sd_files d)\<rparr>) d ps) = sd_sets d"
    for n d and ps :: "string list" by (induction ps arbitrary: d) auto
  have 2: "sd_sets (registerGitGen n g d) = sd_sets d" for n g d
  proof (cases g)
    case (Some g')
    have a: "sd_sets (foldl (\<lambda>d i. if gi_Exclude i \<or> gi_Path i = [] then d
        else d\<lparr>sd_filePatterns := addName n (gi_Path i) (sd_filePatterns d)\<rparr>) d is) = sd_sets d" for d "is"
      by (induction "is" arbitrary: d) auto
    have b: "sd_sets (foldl (\<lambda>d i. if gi_Exclude i \<or> gi_Path i = [] then d
        else d\<lparr>sd_dirPatterns := addName n (gi_Path i) (sd_dirPatterns d)\<rparr>) d is) = sd_sets d" for d "is"
      by (induction "is" arbitrary: d) auto
    show ?thesis using Some by (simp add: registerGitGen_def Let_def a b)
  qed (simp add: registerGitGen_def)
  have 3: "sd_sets (foldl (\<lambda>d g. registerGitGen n g d) d gs) = sd_sets d" for n d gs
    by (induction gs arbitrary: d) (simp_all add: 2)
  show ?thesis by (simp add: ProcessAppSet_def Let_def 1 3 AddAppSet_def split: option.split)
qed

lemma sets_named_process: "sets_named d \<Longrightarrow> sets_named (ProcessAppSet api s d)"
  by (auto simp: sets_named_def ProcessAppSet_sets split: option.splits)

text \<open>A name stands at a glob as often as the set was processed with it, also when the set was
  already known.\<close>

lemma ProcessAppSet_count:
  "count_list (names_at (sd_dirPatterns (ProcessAppSet api s d)) p) n =
    count_list (names_at (sd_dirPatterns d) p) n + (if n = as_Name s then count_list (dir_globs s) p else 0)"
  unfolding ProcessAppSet_dirPatterns by (rule names.times_ins_all)

section \<open>Properties\<close>

text \<open>C20 The ApplicationSets found for a change list are, each once: the sets that a changed file
  defines, and the stored sets with a directory glob that matches a parent of a changed path
  or a file glob that matches the path, whatever the order in which the runtime enumerates
  its maps.\<close>

theorem affected_appsets_are_exact:
  assumes "sets_named d" "\<And>p. keys_of (sd_dirPatterns d) (dirPats p)" "\<And>p. keys_of (sd_filePatterns d) (filePats p)"
  shows "distinct (map as_Name (FindAppSets glob read parse directory dirPats filePats d changes)) \<and>
    as_Name ` set (FindAppSets glob read parse directory dirPats filePats d changes) =
      {as_Name s |s. \<exists>p\<in>set changes. set_in_file read parse directory p = Some s} \<union>
      {n. sd_sets d n \<noteq> None \<and> (\<exists>p\<in>set changes. pattern_match glob d p n)}"
  using FindAppSets_names[OF assms] .

definition demo_set :: "string list \<Rightarrow> application_set" where
  "demo_set globs = \<lparr>as_Name = ''apps'', as_Namespace = ''argocd'', as_Annotations = (\<lambda>_. None), as_TemplateSpec =
     \<lparr>sp_Source = None, sp_Sources = [], sp_DestinationName = [], sp_DestinationServer = []\<rparr>,
     as_Generators = [\<lparr>gen_Git = Some \<lparr>gg_RepoURL = [], gg_Revision = [], gg_Directories = map (\<lambda>p. \<lparr>gi_Path = p, gi_Exclude = False\<rparr>) globs,
       gg_Files = []\<rparr>, gen_Matrix = None, gen_Merge = None\<rparr>]\<rparr>"

definition demo_sets :: app_set_directory where
  "demo_sets = ProcessAppSet demo_api (demo_set [''envs'']) NewAppSetDirectory"

definition demo_glob :: "string \<Rightarrow> string \<Rightarrow> bool option" where
  "demo_glob pat p = Some (pat = p)"

lemma demo_sets_eq:
  "sd_sets demo_sets = [''apps'' \<mapsto> demo_set [''envs'']]" "sd_dirPatterns demo_sets = [''envs'' \<mapsto> [''apps'']]"
  "sd_filePatterns demo_sets = (\<lambda>_. None)"
  by (simp_all add: demo_sets_def ProcessAppSet_def AddAppSet_def NewAppSetDirectory_def demo_set_def
      demo_api_def src_zero_def helm_paths_def gitGens_def registerGitGen_def addName_def names_at_def)

theorem affected_appsets_are_exact_witness:
  "as_Name ` set (FindAppSets demo_glob (\<lambda>_. None) (\<lambda>_. None) [] (\<lambda>_. [''envs'']) (\<lambda>_. []) demo_sets [''envs/a'']) = {''apps''}"
proof -
  have n: "sets_named demo_sets" by (simp add: sets_named_def demo_sets_eq) (simp add: demo_set_def)
  have k: "keys_of (sd_dirPatterns demo_sets) [''envs'']" "keys_of (sd_filePatterns demo_sets) []"
    by (auto simp: keys_of_def demo_sets_eq)
  have f: "set_in_file (\<lambda>_. None) (\<lambda>_. None) [] p = None" for p
    by (simp add: set_in_file_def containsKindApplicationSet_def)
  have m: "anyParentMatches demo_glob ''envs'' (path_clean (trim_prefix ''envs/a'' ''/''))"
    by code_simp
  have "pattern_match demo_glob demo_sets ''envs/a'' n = (n = ''apps'')" for n
    using m by (auto simp: pattern_match_def Let_def demo_sets_eq names_at_def split: if_splits)
  then show ?thesis
    using affected_appsets_are_exact[OF n k, where glob = demo_glob and read = "\<lambda>_. None" and parse = "\<lambda>_. None"
        and directory = "[]" and changes = "[''envs/a'']"] f
    by (auto simp: demo_sets_eq)
qed

text \<open>Processing a set that is already known registers its globs again, and removing the set takes
  back one registration only: after an update that drops a glob, a change under the dropped
  glob still finds the set.\<close>

theorem reprocessed_glob_survives_update:
  "let d = ProcessAppSet demo_api (demo_set [''envs'']) demo_sets;
       d' = ProcessAppSet demo_api (demo_set []) (RemoveAppSet demo_api (demo_set [''envs'']) d)
   in dir_globs (demo_set []) = [] \<and> sd_sets d' ''apps'' = Some (demo_set []) \<and>
      pattern_match demo_glob d' ''envs/a'' ''apps''"
proof -
  define d where "d = ProcessAppSet demo_api (demo_set [''envs'']) demo_sets"
  define r where "r = RemoveAppSet demo_api (demo_set [''envs'']) d"
  define d' where "d' = ProcessAppSet demo_api (demo_set []) r"
  have "names_at (sd_dirPatterns d) ''envs'' = [''apps'', ''apps'']" "sd_sets d = [''apps'' \<mapsto> demo_set [''envs'']]"
    unfolding d_def ProcessAppSet_dirPatterns ProcessAppSet_sets
    by (simp_all add: demo_sets_eq) (simp_all add: demo_set_def dir_globs_def gitGens_def addName_def names_at_def demo_sets_eq)
  then have r: "names_at (sd_dirPatterns r) ''envs'' = [''apps'']" "sd_sets r = (\<lambda>_. None)"
    by (simp_all add: r_def RemoveAppSet_def demo_set_def demo_api_def src_zero_def helm_paths_def gitGens_def
        unregisterGitGen_def dropName_def) (simp add: names_at_def)
  have g: "dir_globs (demo_set []) = []" by (simp add: dir_globs_def gitGens_def demo_set_def)
  have "sd_sets d' ''apps'' = Some (demo_set [])"
    unfolding d'_def ProcessAppSet_sets by (simp add: r) (simp add: demo_set_def)
  moreover have "''apps'' \<in> set (names_at (sd_dirPatterns d') ''envs'')"
    unfolding d'_def ProcessAppSet_dirPatterns g by (simp add: r)
  moreover have "anyParentMatches demo_glob ''envs'' (path_clean (trim_prefix ''envs/a'' ''/''))" by code_simp
  ultimately show ?thesis using g unfolding d_def r_def d'_def pattern_match_def Let_def by blast
qed

end
