(* ===== verification/Kustomize.thy ===== *)
theory Kustomize
  imports GoPaths
begin

text \<open>
  \<open>pkg/kustomize/process.go\<close>: the files and directories that a kustomization refers to, found
  by following the directories it names.  The set of visited directories is one map that
  all recursive calls share, so it is threaded through them as state.  The file system is
  a function from paths to what opening them gives; the YAML parser of the kustomize module
  is an argument.  The recursion follows references in files, which may be cyclic, so it
  has fuel; that the number of kustomization files bounds the fuel is a theorem.
\<close>

section \<open>Definitions\<close>

datatype fs_entry = NotExist | Broken | IsDir | IsFile string

record kustomization =
  k_Bases :: "string list"
  k_Resources :: "string list"
  k_Components :: "string list"
  k_Configurations :: "string list"
  k_Crds :: "string list"
  k_Transformers :: "string list"
  k_HelmValuesFiles :: "string list"
  k_Patches :: "string list"
  k_PatchesJson6902 :: "string list"
  k_PatchesStrategicMerge :: "string list"

datatype kust_error = UnexpectedFilename string | OpenFailed string | ReadFailed string
  | ParseFailed string | StatFailed string

definition isRemoteResource :: "string \<Rightarrow> bool" where
  "isRemoteResource r =
    (if str_contains r ''://'' then True
     else if has_prefix r ''git@'' then True
     else if has_prefix r ''github.com/'' \<or> has_prefix r ''bitbucket.org/'' \<or> has_prefix r ''gitlab.com/'' then True
     else if has_prefix r ''//'' then True
     else False)"

fun cleanPaths :: "string \<Rightarrow> string list \<Rightarrow> string list" where
  "cleanPaths base [] = []"
| "cleanPaths base (p # ps) =
    (if isRemoteResource p then cleanPaths base ps
     else (if has_prefix p ''/'' then trim_prefix p ''/'' else path_join [base, p]) # cleanPaths base ps)"

text \<open>What a kustomization lists: paths that may be files or directories, and files.\<close>

definition filesOrDirectories :: "kustomization \<Rightarrow> string list" where
  "filesOrDirectories k = k_Bases k @ k_Resources k"

definition listedFiles :: "kustomization \<Rightarrow> string list" where
  "listedFiles k = [''kustomization.yaml''] @ k_Configurations k @ k_Crds k @ k_Transformers k @
     k_HelmValuesFiles k @ filter (\<lambda>p. p \<noteq> []) (k_Patches k) @ filter (\<lambda>p. p \<noteq> []) (k_PatchesJson6902 k) @
     filter (\<lambda>s. \<not> str_contains s [nl]) (k_PatchesStrategicMerge k)"

text \<open>Sort the paths into files and directories by opening them; \<open>Inl\<close> for the first that fails.\<close>

fun classify :: "(string \<Rightarrow> fs_entry) \<Rightarrow> string list \<Rightarrow> string list \<times> string list \<Rightarrow>
    kust_error + (string list \<times> string list)" where
  "classify fs [] acc = Inr acc"
| "classify fs (p # ps) (files, dirs) =
    (case fs p of
       NotExist \<Rightarrow> Inl (StatFailed p)
     | Broken \<Rightarrow> Inl (StatFailed p)
     | IsDir \<Rightarrow> classify fs ps (files, dirs @ [p])
     | IsFile _ \<Rightarrow> classify fs ps (files @ [p], dirs))"

definition kustPath :: "string \<Rightarrow> string" where
  "kustPath base = path_join [base, ''kustomization.yaml'']"

text \<open>The part of \<open>processDir\<close> before the recursion: the files of the directory itself and the
  directories to descend into.\<close>

datatype dir_plan = PlanError kust_error | PlanLeaf | Plan "string list" "string list"

definition planDir :: "(string \<Rightarrow> fs_entry) \<Rightarrow> (string \<Rightarrow> kustomization option) \<Rightarrow> string \<Rightarrow> dir_plan" where
  "planDir fs parse base =
    (case fs (kustPath base) of
       NotExist \<Rightarrow> PlanLeaf
     | Broken \<Rightarrow> PlanError (OpenFailed (kustPath base))
     | IsDir \<Rightarrow> PlanError (ReadFailed (kustPath base))
     | IsFile content \<Rightarrow>
         (case parse content of
            None \<Rightarrow> PlanError (ParseFailed (kustPath base))
          | Some k \<Rightarrow>
              (case classify fs (cleanPaths base (filesOrDirectories k))
                      (cleanPaths base (listedFiles k), cleanPaths base (k_Components k)) of
                 Inl e \<Rightarrow> PlanError e
               | Inr (files, dirs) \<Rightarrow> Plan files dirs)))"

type_synonym kust_result = "kust_error + (string list \<times> string list)"

function (sequential) processDir ::
    "nat \<Rightarrow> (string \<Rightarrow> fs_entry) \<Rightarrow> (string \<Rightarrow> kustomization option) \<Rightarrow> string set \<Rightarrow> string \<Rightarrow>
     (string set \<times> kust_result) option"
  and processDirs ::
    "nat \<Rightarrow> (string \<Rightarrow> fs_entry) \<Rightarrow> (string \<Rightarrow> kustomization option) \<Rightarrow> string set \<Rightarrow> string list \<Rightarrow>
     (string set \<times> kust_result) option" where
  "processDir 0 fs parse visited base = None"
| "processDir (Suc n) fs parse visited base =
    (if base \<in> visited then Some (visited, Inr ([], []))
     else let visited = insert base visited in
       case planDir fs parse base of
         PlanError e \<Rightarrow> Some (visited, Inl e)
       | PlanLeaf \<Rightarrow> Some (visited, Inr ([], [base]))
       | Plan files dirs \<Rightarrow>
           (case processDirs n fs parse visited dirs of
              None \<Rightarrow> None
            | Some (visited, Inl e) \<Rightarrow> Some (visited, Inl e)
            | Some (visited, Inr (subFiles, subDirs)) \<Rightarrow> Some (visited, Inr (files @ subFiles, subDirs))))"
| "processDirs n fs parse visited [] = Some (visited, Inr ([], []))"
| "processDirs n fs parse visited (d # ds) =
    (case processDir n fs parse visited d of
       None \<Rightarrow> None
     | Some (visited, Inl e) \<Rightarrow> Some (visited, Inl e)
     | Some (visited, Inr (fs1, ds1)) \<Rightarrow>
         (case processDirs n fs parse visited ds of
            None \<Rightarrow> None
          | Some (visited, Inl e) \<Rightarrow> Some (visited, Inl e)
          | Some (visited, Inr (fs2, ds2)) \<Rightarrow> Some (visited, Inr (fs1 @ fs2, ds1 @ ds2))))"
  by pat_completeness auto

termination
  by (relation "measures [\<lambda>x. case x of Inl (n, _) \<Rightarrow> n | Inr (n, _) \<Rightarrow> n,
      \<lambda>x. case x of Inl _ \<Rightarrow> 0 | Inr (_, _, _, _, ds) \<Rightarrow> Suc (length ds)]") auto

definition ProcessKustomizationFile ::
  "nat \<Rightarrow> (string \<Rightarrow> fs_entry) \<Rightarrow> (string \<Rightarrow> kustomization option) \<Rightarrow> string \<Rightarrow> kust_result option" where
  "ProcessKustomizationFile fuel fs parse p =
    (if path_base p \<noteq> ''kustomization.yaml'' then Some (Inl (UnexpectedFilename p))
     else map_option snd (processDir fuel fs parse {} (path_dir p)))"

section \<open>Enough fuel\<close>

text \<open>A set of directories that the references of its members do not leave.\<close>

definition closed_dirs :: "(string \<Rightarrow> fs_entry) \<Rightarrow> (string \<Rightarrow> kustomization option) \<Rightarrow> string set \<Rightarrow> bool" where
  "closed_dirs fs parse D =
    (\<forall>b\<in>D. \<forall>files dirs. planDir fs parse b = Plan files dirs \<longrightarrow> set dirs \<subseteq> D)"

lemma process_grows:
  "processDir n fs parse v b = Some (v', r) \<Longrightarrow> insert b v \<subseteq> v'"
  "processDirs n fs parse v ds = Some (v', r) \<Longrightarrow> v \<subseteq> v'"
proof (induction n fs parse v b and n fs parse v ds arbitrary: v' r and v' r
    rule: processDir_processDirs.induct)
  case (2 n fs parse visited base)
  then show ?case
    by (fastforce simp: Let_def split: if_splits dir_plan.splits option.splits prod.splits sum.splits)
next
  case (4 n fs parse visited d ds)
  then show ?case by (fastforce split: option.splits prod.splits sum.splits)
qed auto

lemma process_enough:
  "finite D \<Longrightarrow> closed_dirs fs parse D \<Longrightarrow> b \<in> D \<Longrightarrow> card (D - v) < n \<Longrightarrow> processDir n fs parse v b \<noteq> None"
  "finite D \<Longrightarrow> closed_dirs fs parse D \<Longrightarrow> set ds \<subseteq> D \<Longrightarrow> card (D - v) < n \<Longrightarrow> processDirs n fs parse v ds \<noteq> None"
proof (induction n fs parse v b and n fs parse v ds rule: processDir_processDirs.induct)
  case (2 n fs parse visited base)
  show ?case
  proof (cases "\<exists>files dirs. base \<notin> visited \<and> planDir fs parse base = Plan files dirs")
    case False
    then show ?thesis by (auto simp: Let_def split: dir_plan.split)
  next
    case True
    then obtain files dirs where pl: "base \<notin> visited" "planDir fs parse base = Plan files dirs" by blast
    have "card (D - insert base visited) < card (D - visited)"
      using 2(2,4) pl(1) by (intro psubset_card_mono) auto
    moreover have "set dirs \<subseteq> D" using 2(3,4) pl(2) by (auto simp: closed_dirs_def)
    ultimately have "processDirs n fs parse (insert base visited) dirs \<noteq> None"
      using 2(1)[OF pl(1) refl pl(2) 2(2,3)] 2(5) by simp
    then show ?thesis using pl by (auto simp: Let_def split: option.split prod.split sum.split)
  qed
next
  case (4 n fs parse visited d ds)
  obtain v1 r1 where d: "processDir n fs parse visited d = Some (v1, r1)" using 4(1,3-6) by auto
  have "card (D - v1) \<le> card (D - visited)"
    using process_grows(1)[OF d] 4(3) by (intro card_mono) auto
  then have "processDirs n fs parse v1 ds \<noteq> None" if "r1 = Inr (f, e)" for f e
    using 4(2)[of "(v1, r1)" v1 r1 "(f, e)" f e] d that 4(3-6) by auto
  then show ?case using d by (auto split: option.split prod.split sum.split)
qed auto

text \<open>With finitely many files there is a finite closed set around any directory: where two
  non-empty spellings of a directory name the same kustomization file, they plan the same.\<close>

lemma cleanPaths_same:
  "b \<noteq> [] \<Longrightarrow> b' \<noteq> [] \<Longrightarrow> kustPath b = kustPath b' \<Longrightarrow> cleanPaths b ps = cleanPaths b' ps"
proof (induction ps)
  case (Cons p ps)
  have "path_join [b, p] = path_join [b', p]"
    using same_dir_same_below[OF Cons.prems(1,2) Cons.prems(3)[unfolded kustPath_def]] by simp
  then show ?case using Cons.IH[OF Cons.prems] by simp
qed simp

lemma planDir_same:
  "b \<noteq> [] \<Longrightarrow> b' \<noteq> [] \<Longrightarrow> kustPath b = kustPath b' \<Longrightarrow> planDir fs parse b = planDir fs parse b'"
proof -
  assume a: "b \<noteq> []" "b' \<noteq> []" "kustPath b = kustPath b'"
  have "cleanPaths b = cleanPaths b'" using cleanPaths_same[OF a] by blast
  then show ?thesis by (simp only: planDir_def a(3))
qed

definition plan_dirs :: "(string \<Rightarrow> fs_entry) \<Rightarrow> (string \<Rightarrow> kustomization option) \<Rightarrow> string \<Rightarrow> string set" where
  "plan_dirs fs parse b = (case planDir fs parse b of Plan _ dirs \<Rightarrow> set dirs | _ \<Rightarrow> {})"

lemma plan_dirs_kust: "plan_dirs fs parse b \<noteq> {} \<Longrightarrow> \<exists>c. fs (kustPath b) = IsFile c"
  by (auto simp: plan_dirs_def planDir_def split: fs_entry.splits)

lemma finite_closed:
  assumes "finite {p. \<exists>c. fs p = IsFile c}"
  shows "\<exists>D. finite D \<and> root \<in> D \<and> closed_dirs fs parse D"
proof -
  let ?Q = "{p. \<exists>c. fs p = IsFile c}"
  define rep where "rep q = (SOME b. b \<noteq> [] \<and> kustPath b = q)" for q
  define D where "D = insert root (plan_dirs fs parse [] \<union> (\<Union>q\<in>?Q. plan_dirs fs parse (rep q)))"
  have fin: "finite (plan_dirs fs parse b)" for b by (simp add: plan_dirs_def split: dir_plan.split)
  have sub: "plan_dirs fs parse b \<subseteq> D" for b
  proof (cases "b = [] \<or> plan_dirs fs parse b = {}")
    case True
    then show ?thesis by (auto simp: D_def)
  next
    case False
    have "rep (kustPath b) \<noteq> [] \<and> kustPath (rep (kustPath b)) = kustPath b"
      unfolding rep_def by (rule someI[of _ b]) (use False in simp)
    then have "plan_dirs fs parse (rep (kustPath b)) = plan_dirs fs parse b"
      using planDir_same[of "rep (kustPath b)" b] False by (simp add: plan_dirs_def)
    moreover have "kustPath b \<in> ?Q" using plan_dirs_kust False by blast
    ultimately show ?thesis by (auto simp: D_def)
  qed
  have "closed_dirs fs parse D"
    unfolding closed_dirs_def
  proof (intro ballI allI impI)
    fix b files dirs assume "planDir fs parse b = Plan files dirs"
    then have "set dirs = plan_dirs fs parse b" by (simp add: plan_dirs_def)
    then show "set dirs \<subseteq> D" using sub by simp
  qed
  then show ?thesis using assms fin by (intro exI[of _ D]) (simp add: D_def)
qed

lemma process_more_fuel:
  "processDir n fs parse v b = Some r \<Longrightarrow> processDir (n + k) fs parse v b = Some r"
  "processDirs n fs parse v ds = Some r \<Longrightarrow> processDirs (n + k) fs parse v ds = Some r"
proof (induction n fs parse v b and n fs parse v ds arbitrary: r and r rule: processDir_processDirs.induct)
  case (2 n fs parse visited base)
  then show ?case
    by (auto simp: Let_def split: if_splits dir_plan.splits option.splits prod.splits sum.splits)
next
  case (4 n fs parse visited d ds)
  then show ?case by (auto split: option.splits prod.splits sum.splits)
qed auto

section \<open>Every directory once\<close>

lemma process_dirs:
  "processDir n fs parse v b = Some (v', Inr (f, ds)) \<Longrightarrow>
    distinct ds \<and> set ds \<subseteq> v' - v \<and> list_all (\<lambda>d. fs (kustPath d) = NotExist) ds"
  "processDirs n fs parse v bs = Some (v', Inr (f, ds)) \<Longrightarrow>
    distinct ds \<and> set ds \<subseteq> v' - v \<and> list_all (\<lambda>d. fs (kustPath d) = NotExist) ds"
proof (induction n fs parse v b and n fs parse v bs arbitrary: v' f ds and v' f ds
    rule: processDir_processDirs.induct)
  case (2 n fs parse visited base)
  show ?case
  proof (cases "base \<in> visited")
    case True
    then show ?thesis using 2(2) by simp
  next
    case new: False
    show ?thesis
    proof (cases "planDir fs parse base")
      case (PlanError e)
      then show ?thesis using 2(2) new by simp
    next
      case PlanLeaf
      then have "fs (kustPath base) = NotExist"
        by (auto simp: planDir_def split: fs_entry.splits option.splits sum.splits)
      then show ?thesis using 2(2) new PlanLeaf by auto
    next
      case (Plan files dirs)
      then obtain f' where "processDirs n fs parse (insert base visited) dirs = Some (v', Inr (f', ds))"
        using 2(2) new by (auto split: option.splits prod.splits sum.splits)
      then show ?thesis using 2(1)[OF new refl Plan] by auto
    qed
  qed
next
  case (4 n fs parse visited d rest)
  obtain v1 f1 d1 f2 d2 where s:
    "processDir n fs parse visited d = Some (v1, Inr (f1, d1))"
    "processDirs n fs parse v1 rest = Some (v', Inr (f2, d2))" "ds = d1 @ d2"
    using 4(3) by (auto split: option.splits prod.splits sum.splits)
  have a: "distinct d1 \<and> set d1 \<subseteq> v1 - visited \<and> list_all (\<lambda>d. fs (kustPath d) = NotExist) d1"
    using 4(1) s(1) by blast
  have b: "distinct d2 \<and> set d2 \<subseteq> v' - v1 \<and> list_all (\<lambda>d. fs (kustPath d) = NotExist) d2"
    using 4(2)[OF s(1) refl refl refl s(2)] .
  have "v1 \<subseteq> v'" "visited \<subseteq> v1" using process_grows(2)[OF s(2)] process_grows(1)[OF s(1)] by auto
  then show ?case using a b s(3) by auto
qed auto

lemma kustomize_terminates_lemma:
  assumes "finite {q. \<exists>c. fs q = IsFile c}"
  shows "\<exists>n r. \<forall>k. ProcessKustomizationFile (n + k) fs parse p = Some r"
proof -
  obtain D where D: "finite D" "path_dir p \<in> D" "closed_dirs fs parse D"
    using finite_closed[OF assms] by blast
  let ?n = "Suc (card D)"
  obtain r where r: "processDir ?n fs parse {} (path_dir p) = Some r"
    using process_enough(1)[OF D(1,3,2), of "{}" ?n] by auto
  have "ProcessKustomizationFile (?n + k) fs parse p =
      Some (if path_base p \<noteq> ''kustomization.yaml'' then Inl (UnexpectedFilename p) else snd r)" for k
    using process_more_fuel(1)[OF r, of k] by (simp add: ProcessKustomizationFile_def)
  then show ?thesis by blast
qed

section \<open>Properties\<close>

text \<open>Following references ends on every file system with finitely many files, also when
  kustomizations refer to each other in a cycle: from some amount of fuel on there is a
  result, and it is always the same.\<close>

theorem kustomize_terminates:
  assumes "finite {q. \<exists>c. fs q = IsFile c}"
  shows "\<exists>n r. \<forall>k. ProcessKustomizationFile (n + k) fs parse p = Some r"
  using kustomize_terminates_lemma[OF assms] .

text \<open>Two directories that refer to each other.\<close>

definition demo_fs :: "string \<Rightarrow> fs_entry" where
  "demo_fs p = (if p = ''a/kustomization.yaml'' then IsFile ''toB''
     else if p = ''b/kustomization.yaml'' then IsFile ''toA''
     else if p = ''a'' \<or> p = ''b'' \<or> p = ''c'' then IsDir else NotExist)"

definition demo_parse :: "string \<Rightarrow> kustomization option" where
  "demo_parse c = Some \<lparr>k_Bases = [], k_Resources = (if c = ''toB'' then [''../b''] else [''../a'', ''../c'']),
     k_Components = [], k_Configurations = [], k_Crds = [], k_Transformers = [], k_HelmValuesFiles = [],
     k_Patches = [], k_PatchesJson6902 = [], k_PatchesStrategicMerge = []\<rparr>"

theorem kustomize_terminates_witness:
  "\<exists>n r. \<forall>k. ProcessKustomizationFile (n + k) demo_fs demo_parse ''a/kustomization.yaml'' = Some r"
proof -
  have "{q. \<exists>c. demo_fs q = IsFile c} \<subseteq> {''a/kustomization.yaml'', ''b/kustomization.yaml''}"
    by (auto simp: demo_fs_def split: if_splits)
  then show ?thesis using kustomize_terminates[of demo_fs demo_parse] finite_subset by blast
qed

text \<open>The directories reported for a kustomization are reported once each, and each is a
  directory without a kustomization of its own.\<close>

theorem kustomize_leaf_dirs_once:
  assumes "ProcessKustomizationFile n fs parse p = Some (Inr (files, dirs))"
  shows "distinct dirs \<and> list_all (\<lambda>d. fs (kustPath d) = NotExist) dirs"
  using assms process_dirs(1)[of n fs parse "{}" "path_dir p"]
  by (auto simp: ProcessKustomizationFile_def split: if_splits)

theorem kustomize_leaf_dirs_once_witness:
  "list_all (\<lambda>d. demo_fs (kustPath d) = NotExist) [''c'']"
proof -
  have "ProcessKustomizationFile 5 demo_fs demo_parse ''a/kustomization.yaml'' =
      Some (Inr ([''a/kustomization.yaml'', ''b/kustomization.yaml''], [''c'']))" by code_simp
  then show ?thesis using kustomize_leaf_dirs_once by blast
qed

end
