(* ===== verification/VcsArgoMap.thy ===== *)
theory VcsArgoMap
  imports RepoUrl AppSetDir Kustomize
begin

text \<open>
  \<open>pkg/appdir/vcstoargomap.go\<close>, with the handlers of \<open>pkg/app_watcher\<close> that feed it and the
  initial fill of \<open>pkg/container\<close>: for every repository, by its canonical URL, the index of
  the applications and of the ApplicationSets with a source in it.  A URL that does not
  parse stands for the repository with an empty host and path.  Adding an application is
  partial because \<open>AddApp\<close> of an index is; that it is total here is a theorem.  The informer
  machinery of the watchers (list, watch, cache sync) is not modelled.
\<close>

section \<open>Definitions\<close>

record vcs_map =
  v_username :: string
  v_apps :: "repo_url \<Rightarrow> app_directory option"
  v_sets :: "repo_url \<Rightarrow> app_set_directory option"

definition NewVcsToArgoMap :: "string \<Rightarrow> vcs_map" where
  "NewVcsToArgoMap user = \<lparr>v_username = user, v_apps = (\<lambda>_. None), v_sets = (\<lambda>_. None)\<rparr>"

definition repoOf :: "url_parsers \<Rightarrow> string \<Rightarrow> repo_url" where
  "repoOf ps url = (case NormalizeRepoUrl ps url of
     Inl _ \<Rightarrow> \<lparr>ru_Host = [], ru_Path = []\<rparr> | Inr (r, _) \<Rightarrow> r)"

definition GetAppsInRepo :: "url_parsers \<Rightarrow> string \<Rightarrow> vcs_map \<Rightarrow> app_directory \<times> vcs_map" where
  "GetAppsInRepo ps url v = (case v_apps v (repoOf ps url) of
     Some d \<Rightarrow> (d, v)
   | None \<Rightarrow> (NewAppDirectory, v\<lparr>v_apps := (v_apps v)(repoOf ps url \<mapsto> NewAppDirectory)\<rparr>))"

definition GetAppSetsInRepo :: "url_parsers \<Rightarrow> string \<Rightarrow> vcs_map \<Rightarrow> app_set_directory \<times> vcs_map" where
  "GetAppSetsInRepo ps url v = (case v_sets v (repoOf ps url) of
     Some d \<Rightarrow> (d, v)
   | None \<Rightarrow> (NewAppSetDirectory, v\<lparr>v_sets := (v_sets v)(repoOf ps url \<mapsto> NewAppSetDirectory)\<rparr>))"

text \<open>A method call on the index that \<open>GetAppsInRepo\<close> returned a pointer to.\<close>

definition onRepo ::
  "url_parsers \<Rightarrow> (app_directory \<Rightarrow> app_directory option) \<Rightarrow> vcs_map \<Rightarrow> app_source \<Rightarrow> vcs_map option" where
  "onRepo ps fn v src =
    (let (d, v) = GetAppsInRepo ps (src_RepoURL src) v in
     map_option (\<lambda>d. v\<lparr>v_apps := (v_apps v)(repoOf ps (src_RepoURL src) \<mapsto> d)\<rparr>) (fn d))"

fun eachRepo ::
  "url_parsers \<Rightarrow> (app_directory \<Rightarrow> app_directory option) \<Rightarrow> app_source list \<Rightarrow> vcs_map \<Rightarrow> vcs_map option" where
  "eachRepo ps fn [] v = Some v"
| "eachRepo ps fn (s # ss) v = Option.bind (onRepo ps fn v s) (eachRepo ps fn ss)"

definition declared_sources :: "application \<Rightarrow> app_source list" where
  "declared_sources app =
    (case sp_Source (app_Spec app) of None \<Rightarrow> [] | Some s \<Rightarrow> [s]) @ sp_Sources (app_Spec app)"

definition processApp ::
  "url_parsers \<Rightarrow> application \<Rightarrow> (app_directory \<Rightarrow> app_directory option) \<Rightarrow> vcs_map \<Rightarrow> vcs_map option" where
  "processApp ps app fn v = eachRepo ps fn (declared_sources app) v"

definition v2a_AddApp :: "argo_api \<Rightarrow> url_parsers \<Rightarrow> application \<Rightarrow> vcs_map \<Rightarrow> vcs_map option" where
  "v2a_AddApp api ps app v = processApp ps app (AddApp api app) v"

definition v2a_DeleteApp :: "argo_api \<Rightarrow> url_parsers \<Rightarrow> application \<Rightarrow> vcs_map \<Rightarrow> vcs_map option" where
  "v2a_DeleteApp api ps app v = processApp ps app (\<lambda>d. Some (dir_RemoveApp api app d)) v"

definition v2a_UpdateApp ::
  "argo_api \<Rightarrow> url_parsers \<Rightarrow> application \<Rightarrow> application \<Rightarrow> vcs_map \<Rightarrow> vcs_map option" where
  "v2a_UpdateApp api ps old new v = Option.bind (v2a_DeleteApp api ps old v) (v2a_AddApp api ps new)"

definition onSetRepo ::
  "url_parsers \<Rightarrow> string \<Rightarrow> (app_set_directory \<Rightarrow> app_set_directory) \<Rightarrow> vcs_map \<Rightarrow> vcs_map" where
  "onSetRepo ps url fn v =
    (let (d, v) = GetAppSetsInRepo ps url v in v\<lparr>v_sets := (v_sets v)(repoOf ps url \<mapsto> fn d)\<rparr>)"

definition templateRepo :: "argo_api \<Rightarrow> application_set \<Rightarrow> string" where
  "templateRepo api s = src_RepoURL (ap_GetSource api (as_TemplateSpec s))"

definition v2a_AddAppSet :: "argo_api \<Rightarrow> url_parsers \<Rightarrow> application_set \<Rightarrow> vcs_map \<Rightarrow> vcs_map" where
  "v2a_AddAppSet api ps s v =
    (if templateRepo api s = [] then v else onSetRepo ps (templateRepo api s) (ProcessAppSet api s) v)"

definition v2a_UpdateAppSet ::
  "argo_api \<Rightarrow> url_parsers \<Rightarrow> application_set \<Rightarrow> application_set \<Rightarrow> vcs_map \<Rightarrow> vcs_map" where
  "v2a_UpdateAppSet api ps old new v =
    (if templateRepo api new = [] then v
     else onSetRepo ps (templateRepo api new) (ProcessAppSet api new)
            (onSetRepo ps (templateRepo api old) (RemoveAppSet api old) v))"

definition v2a_DeleteAppSet :: "argo_api \<Rightarrow> url_parsers \<Rightarrow> application_set \<Rightarrow> vcs_map \<Rightarrow> vcs_map" where
  "v2a_DeleteAppSet api ps s v =
    (if templateRepo api s = [] then v else onSetRepo ps (templateRepo api s) (RemoveAppSet api s) v)"

definition GetVcsRepos :: "repo_url list \<Rightarrow> repo_url list \<Rightarrow> vcs_map \<Rightarrow> string list" where
  "GetVcsRepos appRepos setRepos v = map (\<lambda>r. CloneURL r (v_username v)) (appRepos @ setRepos)"

text \<open>\<open>order\<close> enumerates the applications of the repository.  A kustomization that cannot be
  processed contributes nothing; \<open>None\<close> means that the fuel for following them ran out.\<close>

definition addKustomizeApp :: "application \<Rightarrow> kust_result \<Rightarrow> app_directory \<Rightarrow> app_directory" where
  "addKustomizeApp app r result =
    (let (files, dirs) = (case r of Inl _ \<Rightarrow> ([], []) | Inr fd \<Rightarrow> fd);
         result = foldl (\<lambda>d f. addFile (app_Name app) f d) result files
     in foldl (\<lambda>d p. addDir (app_Name app) p d) result dirs)"

fun walkApps ::
  "argo_api \<Rightarrow> (string \<Rightarrow> kust_result option) \<Rightarrow> application list \<Rightarrow> app_directory \<Rightarrow> app_directory option" where
  "walkApps api kust [] result = Some result"
| "walkApps api kust (app # apps) result =
    (case kust (path_join [getSourcePath api app, ''kustomization.yaml'']) of
       None \<Rightarrow> None
     | Some r \<Rightarrow> walkApps api kust apps (addKustomizeApp app r result))"

definition WalkKustomizeApps ::
  "argo_api \<Rightarrow> nat \<Rightarrow> (string \<Rightarrow> fs_entry) \<Rightarrow> (string \<Rightarrow> kustomization option) \<Rightarrow> url_parsers \<Rightarrow>
   string list \<Rightarrow> string \<Rightarrow> vcs_map \<Rightarrow> app_directory option \<times> vcs_map" where
  "WalkKustomizeApps api fuel rootFS parse ps order cloneURL v =
    (let (appdir, v) = GetAppsInRepo ps cloneURL v;
         apps = GetApps order (\<lambda>_. True) appdir
     in (walkApps api (ProcessKustomizationFile fuel rootFS parse) apps NewAppDirectory, v))"

section \<open>The watchers\<close>

definition isGitRepo :: "string \<Rightarrow> bool" where
  "isGitRepo url = (str_contains url ''gitlab.com'' \<or> str_contains url ''github.com'')"

definition canProcessApp :: "application \<Rightarrow> bool" where
  "canProcessApp app = list_ex (\<lambda>s. isGitRepo (src_RepoURL s)) (declared_sources app)"

definition canProcessAppSet :: "argo_api \<Rightarrow> (app_spec \<Rightarrow> app_source list) \<Rightarrow> application_set \<Rightarrow> bool" where
  "canProcessAppSet api sourcesOf s =
    (list_ex (\<lambda>src. isGitRepo (src_RepoURL src)) (sourcesOf (as_TemplateSpec s)) \<or>
     isGitRepo (src_RepoURL (ap_GetSource api (as_TemplateSpec s))))"

definition onApplicationAdded :: "argo_api \<Rightarrow> url_parsers \<Rightarrow> application \<Rightarrow> vcs_map \<Rightarrow> vcs_map option" where
  "onApplicationAdded api ps app v = (if \<not> canProcessApp app then Some v else v2a_AddApp api ps app v)"

definition onApplicationUpdated ::
  "argo_api \<Rightarrow> url_parsers \<Rightarrow> application \<Rightarrow> application \<Rightarrow> vcs_map \<Rightarrow> vcs_map option" where
  "onApplicationUpdated api ps old new v =
    (if \<not> canProcessApp new \<or> \<not> canProcessApp old then Some v
     else if sp_Source (app_Spec old) \<noteq> sp_Source (app_Spec new) \<or> sp_Sources (app_Spec old) \<noteq> sp_Sources (app_Spec new)
     then v2a_UpdateApp api ps old new v else Some v)"

definition onApplicationDeleted :: "argo_api \<Rightarrow> url_parsers \<Rightarrow> application \<Rightarrow> vcs_map \<Rightarrow> vcs_map option" where
  "onApplicationDeleted api ps app v = (if \<not> canProcessApp app then Some v else v2a_DeleteApp api ps app v)"

definition onApplicationSetAdded ::
  "argo_api \<Rightarrow> (app_spec \<Rightarrow> app_source list) \<Rightarrow> url_parsers \<Rightarrow> application_set \<Rightarrow> vcs_map \<Rightarrow> vcs_map" where
  "onApplicationSetAdded api sourcesOf ps s v =
    (if \<not> canProcessAppSet api sourcesOf s then v else v2a_AddAppSet api ps s v)"

definition onApplicationSetUpdated ::
  "argo_api \<Rightarrow> (app_spec \<Rightarrow> app_source list) \<Rightarrow> url_parsers \<Rightarrow> application_set \<Rightarrow> application_set \<Rightarrow> vcs_map \<Rightarrow> vcs_map" where
  "onApplicationSetUpdated api sourcesOf ps old new v =
    (if \<not> canProcessAppSet api sourcesOf new \<or> \<not> canProcessAppSet api sourcesOf old then v
     else if ap_GetSource api (as_TemplateSpec old) \<noteq> ap_GetSource api (as_TemplateSpec new) \<or>
             sourcesOf (as_TemplateSpec old) \<noteq> sourcesOf (as_TemplateSpec new)
     then v2a_UpdateAppSet api ps old new v else v)"

definition onApplicationSetDeleted ::
  "argo_api \<Rightarrow> (app_spec \<Rightarrow> app_source list) \<Rightarrow> url_parsers \<Rightarrow> application_set \<Rightarrow> vcs_map \<Rightarrow> vcs_map" where
  "onApplicationSetDeleted api sourcesOf ps s v =
    (if \<not> canProcessAppSet api sourcesOf s then v else v2a_DeleteAppSet api ps s v)"

definition isAppNamespaceAllowed :: "(string list \<Rightarrow> string \<Rightarrow> bool) \<Rightarrow> string \<Rightarrow> string list \<Rightarrow> string \<Rightarrow> bool" where
  "isAppNamespaceAllowed matchList argoNamespace additional ns =
    (ns = argoNamespace \<or> matchList additional ns)"

text \<open>The initial fill: every application and set that Argo CD lists.\<close>

fun buildAppsMap :: "argo_api \<Rightarrow> url_parsers \<Rightarrow> application list \<Rightarrow> vcs_map \<Rightarrow> vcs_map option" where
  "buildAppsMap api ps [] v = Some v"
| "buildAppsMap api ps (a # as) v = Option.bind (v2a_AddApp api ps a v) (buildAppsMap api ps as)"

definition buildAppSetsMap :: "argo_api \<Rightarrow> url_parsers \<Rightarrow> application_set list \<Rightarrow> vcs_map \<Rightarrow> vcs_map" where
  "buildAppSetsMap api ps sets v = foldl (\<lambda>v s. v2a_AddAppSet api ps s v) v sets"

text \<open>A change of the generators of an ApplicationSet is not a change of its source: the index keeps
  the globs it had.\<close>

lemma generator_update_ignored:
  "as_TemplateSpec new = as_TemplateSpec old \<Longrightarrow> onApplicationSetUpdated api sourcesOf ps old new v = v"
  by (simp add: onApplicationSetUpdated_def)

section \<open>Every repository keeps a consistent index\<close>

definition map_ok :: "argo_api \<Rightarrow> vcs_map \<Rightarrow> bool" where
  "map_ok api v = (\<forall>r d. v_apps v r = Some d \<longrightarrow> index_ok api d)"

definition repos_of :: "url_parsers \<Rightarrow> application \<Rightarrow> repo_url set" where
  "repos_of ps app = (\<lambda>s. repoOf ps (src_RepoURL s)) ` set (declared_sources app)"

definition indexed :: "vcs_map \<Rightarrow> repo_url \<Rightarrow> string \<Rightarrow> bool" where
  "indexed v r name = (case v_apps v r of None \<Rightarrow> False | Some d \<Rightarrow> ad_apps d name \<noteq> None)"

lemma onRepo_spec:
  "onRepo ps fn v s = (let r = repoOf ps (src_RepoURL s); d = (case v_apps v r of None \<Rightarrow> NewAppDirectory | Some d \<Rightarrow> d) in
     case fn d of None \<Rightarrow> None | Some d' \<Rightarrow> Some (v\<lparr>v_apps := (v_apps v)(r \<mapsto> d')\<rparr>))"
  by (simp add: onRepo_def GetAppsInRepo_def Let_def split: option.split)

lemma AddApp_known:
  assumes "AddApp api app d = Some d'" "argo_api_ok api"
  shows "ad_apps d' (app_Name app) \<noteq> None" "ad_apps d n \<noteq> None \<Longrightarrow> ad_apps d' n \<noteq> None"
proof -
  have "ad_apps d' (app_Name app) \<noteq> None \<and> (ad_apps d n \<noteq> None \<longrightarrow> ad_apps d' n \<noteq> None)"
  proof (cases "ad_apps d (app_Name app)")
    case (Some a)
    then show ?thesis using assms by (simp add: AddApp_def)
  next
    case None
    then obtain ss where ss: "getSources api app = Some ss" "d' = foldl (addSource app) d ss"
      using assms(1) by (auto simp: AddApp_def)
    have "ss \<noteq> []" using ss(1) assms(2) by (auto simp: getSources_def argo_api_ok_def split: if_splits)
    then show ?thesis using ss addSources_fold[of ss app d] by simp
  qed
  then show "ad_apps d' (app_Name app) \<noteq> None" "ad_apps d n \<noteq> None \<Longrightarrow> ad_apps d' n \<noteq> None" by auto
qed

lemma AddApp_total:
  assumes "argo_api_ok api" "declared_sources app \<noteq> []"
  shows "AddApp api app d \<noteq> None"
  using assms by (auto simp: AddApp_def getSources_def argo_api_ok_def declared_sources_def split: option.splits)

lemma onRepo_add:
  assumes "argo_api_ok api" "declared_sources app \<noteq> []" "map_ok api v"
  shows "\<exists>v'. onRepo ps (AddApp api app) v s = Some v' \<and> map_ok api v' \<and>
    indexed v' (repoOf ps (src_RepoURL s)) (app_Name app) \<and>
    (\<forall>r n. indexed v r n \<longrightarrow> indexed v' r n) \<and>
    (\<forall>r. r \<noteq> repoOf ps (src_RepoURL s) \<longrightarrow> v_apps v' r = v_apps v r) \<and> v_sets v' = v_sets v"
proof -
  let ?r = "repoOf ps (src_RepoURL s)"
  let ?d = "case v_apps v ?r of None \<Rightarrow> NewAppDirectory | Some d \<Rightarrow> d"
  obtain d' where d': "AddApp api app ?d = Some d'" using AddApp_total[OF assms(1,2)] by blast
  have ok: "index_ok api ?d" using assms(3) index_ok_new by (auto simp: map_ok_def split: option.split)
  have "onRepo ps (AddApp api app) v s = Some (v\<lparr>v_apps := (v_apps v)(?r \<mapsto> d')\<rparr>)"
    using d' by (simp add: onRepo_spec Let_def)
  moreover have "map_ok api (v\<lparr>v_apps := (v_apps v)(?r \<mapsto> d')\<rparr>)"
    using assms(3) index_ok_add[OF ok d' assms(1)] by (simp add: map_ok_def)
  moreover have "indexed v r n \<longrightarrow> indexed (v\<lparr>v_apps := (v_apps v)(?r \<mapsto> d')\<rparr>) r n" for r n
    using AddApp_known(2)[OF d' assms(1), of n] by (auto simp: indexed_def split: option.splits)
  moreover have "indexed (v\<lparr>v_apps := (v_apps v)(?r \<mapsto> d')\<rparr>) ?r (app_Name app)"
    using AddApp_known(1)[OF d' assms(1)] by (simp add: indexed_def)
  ultimately show ?thesis by auto
qed

lemma eachRepo_add:
  assumes "argo_api_ok api" "declared_sources app \<noteq> []"
  shows "map_ok api v \<Longrightarrow> \<exists>v'. eachRepo ps (AddApp api app) ss v = Some v' \<and> map_ok api v' \<and>
    (\<forall>s\<in>set ss. indexed v' (repoOf ps (src_RepoURL s)) (app_Name app)) \<and>
    (\<forall>r n. indexed v r n \<longrightarrow> indexed v' r n) \<and>
    (\<forall>r. r \<notin> (\<lambda>s. repoOf ps (src_RepoURL s)) ` set ss \<longrightarrow> v_apps v' r = v_apps v r) \<and> v_sets v' = v_sets v"
proof (induction ss arbitrary: v)
  case (Cons s ss)
  obtain v1 where v1: "onRepo ps (AddApp api app) v s = Some v1" "map_ok api v1"
    "indexed v1 (repoOf ps (src_RepoURL s)) (app_Name app)" "\<forall>r n. indexed v r n \<longrightarrow> indexed v1 r n"
    "\<forall>r. r \<noteq> repoOf ps (src_RepoURL s) \<longrightarrow> v_apps v1 r = v_apps v r" "v_sets v1 = v_sets v"
    using onRepo_add[OF assms Cons.prems] by blast
  obtain v2 where v2: "eachRepo ps (AddApp api app) ss v1 = Some v2" "map_ok api v2"
    "\<forall>s\<in>set ss. indexed v2 (repoOf ps (src_RepoURL s)) (app_Name app)" "\<forall>r n. indexed v1 r n \<longrightarrow> indexed v2 r n"
    "\<forall>r. r \<notin> (\<lambda>s. repoOf ps (src_RepoURL s)) ` set ss \<longrightarrow> v_apps v2 r = v_apps v1 r" "v_sets v2 = v_sets v1"
    using Cons.IH[OF v1(2)] by blast
  have "eachRepo ps (AddApp api app) (s # ss) v = Some v2" using v1(1) v2(1) by simp
  then show ?case using v1(3-6) v2(2-6) by (intro exI[of _ v2]) auto
qed simp

lemma v2a_AddApp_spec:
  assumes "argo_api_ok api" "map_ok api v"
  shows "\<exists>v'. v2a_AddApp api ps app v = Some v' \<and> map_ok api v' \<and>
    (\<forall>r\<in>repos_of ps app. indexed v' r (app_Name app)) \<and> (\<forall>r n. indexed v r n \<longrightarrow> indexed v' r n) \<and>
    (\<forall>r. r \<notin> repos_of ps app \<longrightarrow> v_apps v' r = v_apps v r) \<and> v_sets v' = v_sets v"
proof (cases "declared_sources app = []")
  case True
  then show ?thesis using assms by (simp add: v2a_AddApp_def processApp_def repos_of_def)
next
  case False
  then show ?thesis
    using eachRepo_add[OF assms(1) False assms(2), of ps "declared_sources app"]
    by (simp add: v2a_AddApp_def processApp_def repos_of_def)
qed

lemma buildAppsMap_spec:
  assumes "argo_api_ok api"
  shows "map_ok api v \<Longrightarrow> \<exists>v'. buildAppsMap api ps apps v = Some v' \<and> map_ok api v' \<and>
    (\<forall>r n. indexed v r n \<longrightarrow> indexed v' r n) \<and>
    (\<forall>a\<in>set apps. \<forall>r\<in>repos_of ps a. indexed v' r (app_Name a))"
proof (induction apps arbitrary: v)
  case (Cons a apps)
  obtain v1 where v1: "v2a_AddApp api ps a v = Some v1" "map_ok api v1"
    "\<forall>r\<in>repos_of ps a. indexed v1 r (app_Name a)" "\<forall>r n. indexed v r n \<longrightarrow> indexed v1 r n"
    using v2a_AddApp_spec[OF assms Cons.prems] by blast
  then show ?case using Cons.IH[OF v1(2)] by fastforce
qed simp

section \<open>Property\<close>

text \<open>The initial fill of the index never dereferences a missing source, indexes every application
  Argo CD lists in every repository it has a source in, and leaves each repository with a
  consistent index.\<close>

theorem initial_fill_indexes_every_app:
  assumes "argo_api_ok api"
  shows "\<exists>v. buildAppsMap api ps apps (NewVcsToArgoMap user) = Some v \<and> map_ok api v \<and>
    (\<forall>a\<in>set apps. \<forall>r\<in>repos_of ps a. indexed v r (app_Name a))"
proof -
  have "map_ok api (NewVcsToArgoMap user)" by (simp add: map_ok_def NewVcsToArgoMap_def)
  then show ?thesis using buildAppsMap_spec[OF assms] by blast
qed

theorem initial_fill_indexes_every_app_witness:
  "\<exists>v. buildAppsMap demo_api demo_parsers [demo_app [''a'', ''b'']] (NewVcsToArgoMap ''bot'') = Some v \<and>
    map_ok demo_api v"
  using initial_fill_indexes_every_app[OF demo_api_ok] by blast

text \<open>C36 Walking the kustomizations of all applications of a repository ends on every checkout with
  finitely many files: some amount of fuel is enough for all of them.\<close>

theorem kustomize_walk_terminates:
  assumes "finite {q. \<exists>c. rootFS q = IsFile c}"
  shows "\<exists>n d. \<forall>k. fst (WalkKustomizeApps api (n + k) rootFS parse ps order cloneURL v) = Some d"
proof -
  have "\<exists>n d. \<forall>k. walkApps api (ProcessKustomizationFile (n + k) rootFS parse) apps acc = Some d" for apps acc
  proof (induction apps arbitrary: acc)
    case (Cons app apps)
    obtain n r where r: "\<forall>k. ProcessKustomizationFile (n + k) rootFS parse
        (path_join [getSourcePath api app, ''kustomization.yaml'']) = Some r"
      using kustomize_terminates_lemma[OF assms] by blast
    obtain m d where m: "\<forall>k. walkApps api (ProcessKustomizationFile (m + k) rootFS parse) apps
        (addKustomizeApp app r acc) = Some d" using Cons.IH by blast
    have "walkApps api (ProcessKustomizationFile (n + m + k) rootFS parse) (app # apps) acc = Some d" for k
      using r[rule_format, of "m + k"] m[rule_format, of "n + k"] by (simp add: ac_simps)
    then show ?case by blast
  qed simp
  then show ?thesis by (cases "GetAppsInRepo ps cloneURL v") (simp add: WalkKustomizeApps_def)
qed

theorem kustomize_walk_terminates_witness:
  "\<exists>n d. \<forall>k. fst (WalkKustomizeApps demo_api (n + k) demo_fs demo_parse demo_parsers [] [] (NewVcsToArgoMap [])) = Some d"
proof -
  have "{q. \<exists>c. demo_fs q = IsFile c} \<subseteq> {''a/kustomization.yaml'', ''b/kustomization.yaml''}"
    by (auto simp: demo_fs_def split: if_splits)
  then show ?thesis using kustomize_walk_terminates[of demo_fs] finite_subset by blast
qed

end
