(* ===== verification/RepoConfig.thy ===== *)
theory RepoConfig
  imports GoPaths
begin

text \<open>
  \<open>pkg/repo_config\<close>: the configuration file a repository may carry, where it is looked for, and
  what becomes of the errors on the way.  The file system, the YAML decoder (which calls the
  \<open>UnmarshalYAML\<close> methods, so that defaults are set before the fields are read) and the
  validator of struct tags are arguments.
\<close>

section \<open>Definitions\<close>

record argo_app_config =
  ac_Name :: string
  ac_Cluster :: string
  ac_Path :: string
  ac_AdditionalPaths :: "string list"
  ac_EnableConfTest :: bool
  ac_EnableKubeConform :: bool
  ac_EnableKubePug :: bool

record argo_set_config =
  sc_Name :: string
  sc_Paths :: "string list"
  sc_EnableConfTest :: bool
  sc_EnableKubeConform :: bool
  sc_EnableKubePug :: bool

record repo_config =
  rc_Applications :: "argo_app_config list"
  rc_ApplicationSets :: "argo_set_config list"

definition emptyConfig :: repo_config where
  "emptyConfig = \<lparr>rc_Applications = [], rc_ApplicationSets = []\<rparr>"

definition RepoConfigFilenamePrefix :: string where
  "RepoConfigFilenamePrefix = ''.kubechecks''"

definition RepoConfigFileExtensions :: "string list" where
  "RepoConfigFileExtensions = [''.yaml'', ''.yml'']"

definition RepoConfigFilenameVariations :: "string list" where
  "RepoConfigFilenameVariations = map (\<lambda>ext. RepoConfigFilenamePrefix @ ext) RepoConfigFileExtensions"

text \<open>What \<open>os.Stat\<close> says of a path.\<close>

datatype stat = StatError | StatNotExist | StatDir | StatFile

datatype config_error = FileNotFound | ParseError string | InvalidConfig string

fun searchVariants :: "(string \<Rightarrow> stat) \<Rightarrow> string \<Rightarrow> string list \<Rightarrow> config_error + string" where
  "searchVariants stat repoDir [] = Inl FileNotFound"
| "searchVariants stat repoDir (ext # exts) =
    (let fn = path_join [repoDir, RepoConfigFilenamePrefix @ ext] in
     case stat fn of
       StatError \<Rightarrow> searchVariants stat repoDir exts
     | StatFile \<Rightarrow> Inr fn
     | _ \<Rightarrow> searchVariants stat repoDir exts)"

definition searchConfigFile :: "(string \<Rightarrow> stat) \<Rightarrow> string \<Rightarrow> config_error + string" where
  "searchConfigFile stat repoDir = searchVariants stat repoDir RepoConfigFileExtensions"

text \<open>The decoder and the validator, each giving the text of its error.\<close>

record config_codec =
  cc_Unmarshal :: "string \<Rightarrow> string + repo_config"
  cc_Validate :: "repo_config \<Rightarrow> string option"

definition LoadRepoConfigBytes :: "config_codec \<Rightarrow> string \<Rightarrow> config_error + repo_config" where
  "LoadRepoConfigBytes codec b =
    (case cc_Unmarshal codec b of
       Inl err \<Rightarrow> Inl (ParseError err)
     | Inr cfg \<Rightarrow> (case cc_Validate codec cfg of Some err \<Rightarrow> Inl (InvalidConfig err) | None \<Rightarrow> Inr cfg))"

text \<open>A failing \<open>os.ReadFile\<close> is logged, and the bytes it returned, none, are decoded.\<close>

definition loadRepoConfigFile :: "config_codec \<Rightarrow> (string \<Rightarrow> string option) \<Rightarrow> string \<Rightarrow> config_error + repo_config" where
  "loadRepoConfigFile codec read fn =
    LoadRepoConfigBytes codec (case read fn of None \<Rightarrow> [] | Some b \<Rightarrow> b)"

definition LoadRepoConfig ::
  "config_codec \<Rightarrow> (string \<Rightarrow> stat) \<Rightarrow> (string \<Rightarrow> string option) \<Rightarrow> string \<Rightarrow> config_error + repo_config option" where
  "LoadRepoConfig codec stat read repoDir =
    (case searchConfigFile stat repoDir of
       Inl FileNotFound \<Rightarrow> Inr None
     | Inl err \<Rightarrow> Inl err
     | Inr fn \<Rightarrow> (case loadRepoConfigFile codec read fn of Inl err \<Rightarrow> Inl err | Inr cfg \<Rightarrow> Inr (Some cfg)))"

section \<open>Properties\<close>

text \<open>Where the file is found: \<open>.yaml\<close> before \<open>.yml\<close>, directories and unreadable entries skipped.\<close>

lemma searchConfigFile_cases:
  "searchConfigFile stat repoDir =
    (let y = path_join [repoDir, ''.kubechecks.yaml'']; s = path_join [repoDir, ''.kubechecks.yml''] in
     if stat y = StatFile then Inr y else if stat s = StatFile then Inr s else Inl FileNotFound)"
  by (simp add: searchConfigFile_def RepoConfigFileExtensions_def RepoConfigFilenamePrefix_def Let_def
      split: stat.split)

text \<open>Documented behaviour of the decoder and the validator: empty input decodes to the zero
  configuration, whose lists have no element to validate.\<close>

definition codec_ok :: "config_codec \<Rightarrow> bool" where
  "codec_ok codec = (cc_Unmarshal codec [] = Inr emptyConfig \<and> cc_Validate codec emptyConfig = None)"

definition demo_codec :: config_codec where
  "demo_codec = \<lparr>cc_Unmarshal = (\<lambda>b. if b = [] then Inr emptyConfig else Inl ''bad''), cc_Validate = (\<lambda>_. None)\<rparr>"

text \<open>A repository configuration that exists but cannot be read is not an error: the program
  goes on with an empty configuration, exactly as if the file had declared no application.\<close>

theorem unreadable_config_becomes_empty:
  assumes "codec_ok codec" "searchConfigFile stat repoDir = Inr fn" "read fn = None"
  shows "LoadRepoConfig codec stat read repoDir = Inr (Some emptyConfig)"
  using assms by (simp add: LoadRepoConfig_def loadRepoConfigFile_def LoadRepoConfigBytes_def codec_ok_def)

theorem unreadable_config_becomes_empty_witness:
  "LoadRepoConfig demo_codec (\<lambda>p. if p = ''repo/.kubechecks.yml'' then StatFile else StatNotExist) (\<lambda>_. None) ''repo'' =
    Inr (Some emptyConfig)"
proof (rule unreadable_config_becomes_empty)
  show "codec_ok demo_codec" by (simp add: codec_ok_def demo_codec_def emptyConfig_def)
  show "searchConfigFile (\<lambda>p. if p = ''repo/.kubechecks.yml'' then StatFile else StatNotExist) ''repo'' =
      Inr ''repo/.kubechecks.yml''" by code_simp
qed simp

end
