(* ===== verification/Affected.thy ===== *)
theory Affected
  imports VcsArgoMap RepoConfig
begin

text \<open>
  \<open>pkg/affected_apps\<close>: which applications and ApplicationSets a change list affects, by the
  index of the cluster (\<open>ArgocdMatcher\<close>), by the configuration file of the repository
  (\<open>ConfigMatcher\<close>), or by several matchers together (\<open>MultiMatcher\<close>).  A matcher returns the
  items it has so far together with its error; \<open>None\<close> is a panic.  The Argo CD client is an
  argument: the list of all applications and, by name, those of an ApplicationSet.
\<close>

section \<open>Items\<close>

record affected_items =
  ai_Applications :: "application list"
  ai_ApplicationSets :: "application_set list"

definition noItems :: affected_items where
  "noItems = \<lparr>ai_Applications = [], ai_ApplicationSets = []\<rparr>"

text \<open>The two loops of \<open>Union\<close>: the names are those of the first list, not of what is appended.\<close>

definition unionOn :: "('a \<Rightarrow> string) \<Rightarrow> 'a list \<Rightarrow> 'a list \<Rightarrow> 'a list" where
  "unionOn nm xs ys = foldl (\<lambda>acc y. if nm y \<in> nm ` set xs then acc else acc @ [y]) xs ys"

definition items_Union :: "affected_items \<Rightarrow> affected_items \<Rightarrow> affected_items" where
  "items_Union ai other =
    \<lparr>ai_Applications = unionOn app_Name (ai_Applications ai) (ai_Applications other),
     ai_ApplicationSets = unionOn as_Name (ai_ApplicationSets ai) (ai_ApplicationSets other)\<rparr>"

text \<open>\<open>dirs\<close> is the order in which the map of directories is enumerated.\<close>

definition dirMap :: "string list \<Rightarrow> bool strmap" where
  "dirMap changeList = foldl (\<lambda>m file. m(path_dir file \<mapsto> True)) (\<lambda>_. None) changeList"

section \<open>Matchers\<close>

datatype matcher_error = ListAppsFailed string | SetAppsFailed string | InMatcher nat matcher_error

type_synonym match_result = "(affected_items \<times> matcher_error option) option"

type_synonym matcher = "string list \<Rightarrow> string \<Rightarrow> match_result"

fun multiLoop :: "nat \<Rightarrow> affected_items \<Rightarrow> matcher list \<Rightarrow> matcher" where
  "multiLoop index acc [] changeList targetBranch = Some (acc, None)"
| "multiLoop index acc (m # ms) changeList targetBranch =
    (case m changeList targetBranch of
       None \<Rightarrow> None
     | Some (items, Some err) \<Rightarrow> Some (acc, Some (InMatcher index err))
     | Some (items, None) \<Rightarrow> multiLoop (Suc index) (items_Union acc items) ms changeList targetBranch)"

definition MultiAffectedApps :: "matcher list \<Rightarrow> matcher" where
  "MultiAffectedApps ms = multiLoop 0 noItems ms"

subsection \<open>The configuration file\<close>

record config_client =
  cl_GetApplications :: "string + application list"
  cl_GetApplicationsByAppset :: "string \<Rightarrow> string + application list"

definition dirMatchForApp :: "string \<Rightarrow> string \<Rightarrow> bool" where
  "dirMatchForApp changeDir appDir =
    (let appDir = path_clean appDir; changeDir = path_clean changeDir in
     if has_suffix changeDir appDir then True
     else if changeDir = ''.'' \<and> appDir = ''/'' then True else False)"

definition dirMatchForAppSet :: "string \<Rightarrow> string \<Rightarrow> bool" where
  "dirMatchForAppSet changeDir appSetDir =
    (let appSetDir = path_clean appSetDir; changeDir = path_clean changeDir in
     if has_suffix changeDir appSetDir then True
     else if has_prefix changeDir appSetDir then True
     else if changeDir = ''.'' \<and> appSetDir = ''/'' then True else False)"

text \<open>The inner \<open>continue\<close> continues the inner loop, so an application is listed once for each of
  its additional paths that match.\<close>

definition applicationsForDir :: "repo_config \<Rightarrow> string \<Rightarrow> argo_app_config list" where
  "applicationsForDir cfg dir =
    concat (map (\<lambda>app. if dirMatchForApp dir (ac_Path app) then [app]
      else map (\<lambda>_. app) (filter (dirMatchForApp dir) (ac_AdditionalPaths app))) (rc_Applications cfg))"

definition appsetsForDir :: "repo_config \<Rightarrow> string \<Rightarrow> argo_set_config list" where
  "appsetsForDir cfg dir = filter (\<lambda>s. list_ex (dirMatchForAppSet dir) (sc_Paths s)) (rc_ApplicationSets cfg)"

definition configOfApp :: "argo_set_config \<Rightarrow> application \<Rightarrow> argo_app_config option" where
  "configOfApp s app = map_option (\<lambda>src.
     \<lparr>ac_Name = app_Name app, ac_Cluster = sp_DestinationName (app_Spec app), ac_Path = src_Path src,
      ac_AdditionalPaths = [], ac_EnableConfTest = sc_EnableConfTest s,
      ac_EnableKubeConform = sc_EnableKubeConform s, ac_EnableKubePug = sc_EnableKubePug s\<rparr>)
     (sp_Source (app_Spec app))"

text \<open>The applications of each set in turn; an application without a single source is dereferenced.\<close>

fun appsOfSets ::
  "config_client \<Rightarrow> argo_app_config list \<Rightarrow> argo_set_config list \<Rightarrow> (argo_app_config list \<times> string option) option" where
  "appsOfSets cl apps [] = Some (apps, None)"
| "appsOfSets cl apps (s # ss) =
    (case cl_GetApplicationsByAppset cl (sc_Name s) of
       Inl err \<Rightarrow> Some (apps, Some err)
     | Inr items \<Rightarrow>
         (case those (map (configOfApp s) items) of
            None \<Rightarrow> None
          | Some cs \<Rightarrow> appsOfSets cl (apps @ cs) ss))"

definition appsFromApplicationSetForDir ::
  "config_client \<Rightarrow> repo_config \<Rightarrow> string \<Rightarrow> (argo_set_config list \<times> argo_app_config list \<times> string option) option" where
  "appsFromApplicationSetForDir cl cfg dir =
    (let appsets = appsetsForDir cfg dir in
     map_option (\<lambda>(apps, err). (appsets, apps, err)) (appsOfSets cl [] appsets))"

type_synonym triggered = "argo_app_config strmap \<times> argo_set_config strmap"

definition triggerApps :: "argo_app_config list \<Rightarrow> triggered \<Rightarrow> triggered" where
  "triggerApps apps t = (foldl (\<lambda>m a. m(ac_Name a \<mapsto> a)) (fst t) apps, snd t)"

definition triggerSets :: "argo_set_config list \<Rightarrow> triggered \<Rightarrow> triggered" where
  "triggerSets sets t = (fst t, foldl (\<lambda>m s. m(sc_Name s \<mapsto> s)) (snd t) sets)"

fun triggerLoop :: "config_client \<Rightarrow> repo_config \<Rightarrow> triggered \<Rightarrow> string list \<Rightarrow> (matcher_error + triggered) option" where
  "triggerLoop cl cfg t [] = Some (Inr t)"
| "triggerLoop cl cfg t (dir # dirs) =
    (let apps = applicationsForDir cfg dir; t = triggerApps apps t in
     if apps = []
     then (case appsFromApplicationSetForDir cl cfg dir of
             None \<Rightarrow> None
           | Some (_, _, Some err) \<Rightarrow> Some (Inl (SetAppsFailed err))
           | Some (appsets, appsetApps, None) \<Rightarrow>
               triggerLoop cl cfg (triggerApps appsetApps (triggerSets appsets t)) dirs)
     else triggerLoop cl cfg t dirs)"

definition triggeredMaps :: "config_client \<Rightarrow> repo_config \<Rightarrow> string list \<Rightarrow> (matcher_error + triggered) option" where
  "triggeredMaps cl cfg dirs = triggerLoop cl cfg (\<lambda>_. None, \<lambda>_. None) dirs"

text \<open>The values of the two maps, in the orders in which they are enumerated.\<close>

definition triggeredApps ::
  "config_client \<Rightarrow> repo_config \<Rightarrow> string list \<Rightarrow> string list \<Rightarrow> string list \<Rightarrow>
   (matcher_error + argo_app_config list \<times> argo_set_config list) option" where
  "triggeredApps cl cfg appOrd setOrd dirs =
    (case triggeredMaps cl cfg dirs of
       None \<Rightarrow> None
     | Some (Inl err) \<Rightarrow> Some (Inl err)
     | Some (Inr (am, sm)) \<Rightarrow> Some (Inr (map (\<lambda>k. the (am k)) appOrd, map (\<lambda>k. the (sm k)) setOrd)))"

definition namedSet :: "string \<Rightarrow> application_set" where
  "namedSet n = \<lparr>as_Name = n, as_Namespace = [], as_Annotations = (\<lambda>_. None), as_TemplateSpec =
     \<lparr>sp_Source = None, sp_Sources = [], sp_DestinationName = [], sp_DestinationServer = []\<rparr>, as_Generators = []\<rparr>"

definition ConfigAffectedApps ::
  "config_client \<Rightarrow> repo_config \<Rightarrow> string list \<Rightarrow> string list \<Rightarrow> string list \<Rightarrow> match_result" where
  "ConfigAffectedApps cl cfg appOrd setOrd dirs =
    (case triggeredApps cl cfg appOrd setOrd dirs of
       None \<Rightarrow> None
     | Some (Inl err) \<Rightarrow> Some (noItems, Some err)
     | Some (Inr (apps, sets)) \<Rightarrow>
         let m = foldl (\<lambda>m a. m(ac_Name a \<mapsto> ac_Path a)) (\<lambda>_. None) apps in
         (case cl_GetApplications cl of
            Inl err \<Rightarrow> Some (noItems, Some (ListAppsFailed err))
          | Inr allApps \<Rightarrow>
              Some (\<lparr>ai_Applications = filter (\<lambda>a. m (app_Name a) \<noteq> None) allApps,
                     ai_ApplicationSets = map (\<lambda>s. namedSet (sc_Name s)) sets\<rparr>, None)))"

subsection \<open>The index of the cluster\<close>

record argocd_matcher =
  am_apps :: app_directory
  am_sets :: app_set_directory

definition NewArgocdMatcher ::
  "argo_api \<Rightarrow> nat \<Rightarrow> (string \<Rightarrow> fs_entry) \<Rightarrow> (string \<Rightarrow> kustomization option) \<Rightarrow> url_parsers \<Rightarrow>
   string list \<Rightarrow> string \<Rightarrow> vcs_map \<Rightarrow> argocd_matcher option \<times> vcs_map" where
  "NewArgocdMatcher api fuel rootFS parse ps order cloneURL v =
    (let (repoApps, v) = GetAppsInRepo ps cloneURL v;
         (kustomizeApps, v) = WalkKustomizeApps api fuel rootFS parse ps order cloneURL v;
         (repoSets, v) = GetAppSetsInRepo ps cloneURL v
     in (map_option (\<lambda>kustomizeApps.
           \<lparr>am_apps = dir_Union (dir_Union NewAppDirectory repoApps) kustomizeApps,
            am_sets = set_Union NewAppSetDirectory repoSets\<rparr>) kustomizeApps, v))"

text \<open>\<open>enum\<close> is the order in which the set of names is enumerated.\<close>

definition ArgocdAffectedApps ::
  "argo_api \<Rightarrow> (string \<Rightarrow> string \<Rightarrow> bool option) \<Rightarrow> (string \<Rightarrow> string option) \<Rightarrow>
   (string \<Rightarrow> application_set option) \<Rightarrow> string \<Rightarrow> (string \<Rightarrow> string list) \<Rightarrow> (string \<Rightarrow> string list) \<Rightarrow>
   string list \<Rightarrow> (string list \<Rightarrow> string list) \<Rightarrow> argocd_matcher \<Rightarrow> matcher" where
  "ArgocdAffectedApps api glob read parse directory dirPats filePats dirs enum m changeList targetBranch =
    Some (\<lparr>ai_Applications = FindApps api (enum (appsSet dirs (am_apps m) changeList)) (am_apps m) targetBranch,
           ai_ApplicationSets = FindAppSets glob read parse directory dirPats filePats (am_sets m) changeList\<rparr>, None)"

section \<open>Lemmas\<close>

subsection \<open>Unions\<close>

lemma unionOn_eq: "unionOn nm xs ys = xs @ filter (\<lambda>y. nm y \<notin> nm ` set xs) ys"
proof -
  have "foldl (\<lambda>acc y. if nm y \<in> N then acc else acc @ [y]) zs ys = zs @ filter (\<lambda>y. nm y \<notin> N) ys" for N zs
    by (induction ys arbitrary: zs) auto
  then show ?thesis by (simp add: unionOn_def)
qed

lemma unionOn_names: "nm ` set (unionOn nm xs ys) = nm ` set xs \<union> nm ` set ys"
  by (auto simp: unionOn_eq)

lemma unionOn_distinct:
  assumes "distinct (map nm xs)" "distinct (map nm ys)"
  shows "distinct (map nm (unionOn nm xs ys))"
  using assms distinct_map_filter[OF assms(2)] by (auto simp: unionOn_eq) (metis imageI)

definition items_distinct :: "affected_items \<Rightarrow> bool" where
  "items_distinct i = (distinct (map app_Name (ai_Applications i)) \<and> distinct (map as_Name (ai_ApplicationSets i)))"

definition appNames :: "affected_items \<Rightarrow> string set" where
  "appNames i = app_Name ` set (ai_Applications i)"

definition setNames :: "affected_items \<Rightarrow> string set" where
  "setNames i = as_Name ` set (ai_ApplicationSets i)"

lemma items_Union_names [simp]:
  "appNames (items_Union a b) = appNames a \<union> appNames b"
  "setNames (items_Union a b) = setNames a \<union> setNames b"
  by (simp_all add: appNames_def setNames_def items_Union_def unionOn_names)

lemma items_Union_distinct: "items_distinct a \<Longrightarrow> items_distinct b \<Longrightarrow> items_distinct (items_Union a b)"
  by (simp add: items_distinct_def items_Union_def unionOn_distinct)

lemma noItems_facts [simp]: "appNames noItems = {}" "setNames noItems = {}" "items_distinct noItems"
  by (simp_all add: appNames_def setNames_def items_distinct_def noItems_def)

text \<open>What a matcher finds when it neither fails nor panics.\<close>

definition found_by :: "match_result \<Rightarrow> affected_items" where
  "found_by r = (case r of Some (items, None) \<Rightarrow> items | _ \<Rightarrow> noItems)"

definition succeeds :: "match_result \<Rightarrow> bool" where
  "succeeds r = (case r of Some (_, None) \<Rightarrow> True | _ \<Rightarrow> False)"

lemma multiLoop_all:
  "\<forall>m\<in>set ms. succeeds (m cl br) \<and> items_distinct (found_by (m cl br)) \<Longrightarrow> items_distinct acc \<Longrightarrow>
   \<exists>items. multiLoop i acc ms cl br = Some (items, None) \<and> items_distinct items \<and>
     appNames items = appNames acc \<union> (\<Union>m\<in>set ms. appNames (found_by (m cl br))) \<and>
     setNames items = setNames acc \<union> (\<Union>m\<in>set ms. setNames (found_by (m cl br)))"
proof (induction ms arbitrary: i acc)
  case (Cons m ms)
  obtain its where m: "m cl br = Some (its, None)"
    using Cons.prems(1) by (auto simp: succeeds_def split: option.splits prod.splits)
  then have d: "items_distinct (items_Union acc its)"
    using Cons.prems by (simp add: found_by_def items_Union_distinct)
  have all: "\<forall>m\<in>set ms. succeeds (m cl br) \<and> items_distinct (found_by (m cl br))"
    using Cons.prems(1) by simp
  obtain items where "multiLoop (Suc i) (items_Union acc its) ms cl br = Some (items, None)" "items_distinct items"
    "appNames items = appNames (items_Union acc its) \<union> (\<Union>m\<in>set ms. appNames (found_by (m cl br)))"
    "setNames items = setNames (items_Union acc its) \<union> (\<Union>m\<in>set ms. setNames (found_by (m cl br)))"
    using Cons.IH[OF all d, of "Suc i"] by blast
  moreover have "found_by (m cl br) = its" using m by (simp add: found_by_def)
  ultimately show ?case using m by (intro exI[of _ items]) (simp add: Un_assoc)
qed simp

lemma multiLoop_first_error:
  "\<forall>m\<in>set ms. succeeds (m cl br) \<Longrightarrow> m cl br = Some (its, Some e) \<Longrightarrow>
   \<exists>items. multiLoop i acc (ms @ m # ms') cl br = Some (items, Some (InMatcher (i + length ms) e))"
proof (induction ms arbitrary: i acc)
  case (Cons a ms)
  obtain its' where "a cl br = Some (its', None)"
    using Cons.prems(1) by (auto simp: succeeds_def split: option.splits prod.splits)
  then show ?case using Cons.IH[of "Suc i" "items_Union acc its'"] Cons.prems by simp
qed simp

subsection \<open>The configuration matcher\<close>

definition app_touched :: "argo_app_config \<Rightarrow> string \<Rightarrow> bool" where
  "app_touched a dir = list_ex (dirMatchForApp dir) (ac_Path a # ac_AdditionalPaths a)"

definition set_touched :: "argo_set_config \<Rightarrow> string \<Rightarrow> bool" where
  "set_touched s dir = list_ex (dirMatchForAppSet dir) (sc_Paths s)"

definition set_apps :: "config_client \<Rightarrow> argo_set_config \<Rightarrow> application list" where
  "set_apps cl s = (case cl_GetApplicationsByAppset cl (sc_Name s) of Inl _ \<Rightarrow> [] | Inr as \<Rightarrow> as)"

text \<open>Every set can be queried, and its applications have a single source.\<close>

definition sets_answer :: "config_client \<Rightarrow> repo_config \<Rightarrow> bool" where
  "sets_answer cl cfg = list_all (\<lambda>s. (case cl_GetApplicationsByAppset cl (sc_Name s) of
      Inl _ \<Rightarrow> False | Inr as \<Rightarrow> list_all (\<lambda>a. sp_Source (app_Spec a) \<noteq> None) as)) (rc_ApplicationSets cfg)"

text \<open>The names a changed directory triggers.  The sets count only where no application is touched.\<close>

definition app_triggered :: "config_client \<Rightarrow> repo_config \<Rightarrow> string \<Rightarrow> string \<Rightarrow> bool" where
  "app_triggered cl cfg n dir =
    ((\<exists>a\<in>set (rc_Applications cfg). ac_Name a = n \<and> app_touched a dir) \<or>
     (\<not> (\<exists>a\<in>set (rc_Applications cfg). app_touched a dir) \<and>
      (\<exists>s\<in>set (rc_ApplicationSets cfg). set_touched s dir \<and> n \<in> app_Name ` set (set_apps cl s))))"

definition set_triggered :: "repo_config \<Rightarrow> string \<Rightarrow> string \<Rightarrow> bool" where
  "set_triggered cfg n dir =
    (\<not> (\<exists>a\<in>set (rc_Applications cfg). app_touched a dir) \<and>
     (\<exists>s\<in>set (rc_ApplicationSets cfg). sc_Name s = n \<and> set_touched s dir))"

lemma applicationsForDir_set:
  "set (applicationsForDir cfg dir) = {a \<in> set (rc_Applications cfg). app_touched a dir}"
  by (auto simp: applicationsForDir_def app_touched_def list_ex_iff split: if_splits)

lemma appsetsForDir_set:
  "set (appsetsForDir cfg dir) = {s \<in> set (rc_ApplicationSets cfg). set_touched s dir}"
  by (auto simp: appsetsForDir_def set_touched_def)

lemma foldl_key_upd:
  "(foldl (\<lambda>m a. m(k a \<mapsto> v a)) m xs) n \<noteq> None \<longleftrightarrow> m n \<noteq> None \<or> n \<in> k ` set xs"
  by (induction xs arbitrary: m) auto

lemma foldl_key_own:
  "\<forall>n a. m n = Some a \<longrightarrow> k a = n \<Longrightarrow> (foldl (\<lambda>m a. m(k a \<mapsto> a)) m xs) n = Some a \<Longrightarrow> k a = n"
proof (induction xs arbitrary: m)
  case (Cons x xs)
  have "\<forall>n a. (m(k x \<mapsto> x)) n = Some a \<longrightarrow> k a = n" using Cons.prems(1) by simp
  from Cons.IH[OF this] show ?case using Cons.prems(2) by simp
qed simp

lemma configOfApp_all:
  "list_all (\<lambda>a. sp_Source (app_Spec a) \<noteq> None) as \<Longrightarrow>
   \<exists>cs. those (map (configOfApp s) as) = Some cs \<and> ac_Name ` set cs = app_Name ` set as"
proof (induction as)
  case (Cons a as)
  then obtain cs where "those (map (configOfApp s) as) = Some cs" "ac_Name ` set cs = app_Name ` set as"
    by auto
  moreover obtain c where "configOfApp s a = Some c" "ac_Name c = app_Name a"
    using Cons.prems by (auto simp: configOfApp_def)
  ultimately show ?case by simp
qed simp

lemma appsOfSets_all:
  "list_all (\<lambda>s. (case cl_GetApplicationsByAppset cl (sc_Name s) of
      Inl _ \<Rightarrow> False | Inr as \<Rightarrow> list_all (\<lambda>a. sp_Source (app_Spec a) \<noteq> None) as)) ss \<Longrightarrow>
   \<exists>cs. appsOfSets cl acc ss = Some (cs, None) \<and>
     ac_Name ` set cs = ac_Name ` set acc \<union> (\<Union>s\<in>set ss. app_Name ` set (set_apps cl s))"
proof (induction ss arbitrary: acc)
  case (Cons s ss)
  then obtain as where as: "cl_GetApplicationsByAppset cl (sc_Name s) = Inr as"
    "list_all (\<lambda>a. sp_Source (app_Spec a) \<noteq> None) as" by (auto split: sum.splits)
  obtain cs where cs: "those (map (configOfApp s) as) = Some cs" "ac_Name ` set cs = app_Name ` set as"
    using configOfApp_all[OF as(2)] by blast
  have "list_all (\<lambda>s. (case cl_GetApplicationsByAppset cl (sc_Name s) of
      Inl _ \<Rightarrow> False | Inr as \<Rightarrow> list_all (\<lambda>a. sp_Source (app_Spec a) \<noteq> None) as)) ss"
    using Cons.prems by simp
  from Cons.IH[OF this, of "acc @ cs"] show ?case
    using as cs by (auto simp: set_apps_def image_Un)
qed simp

lemma triggerLoop_exact:
  assumes "sets_answer cl cfg"
  shows "\<forall>n a. am n = Some a \<longrightarrow> ac_Name a = n \<Longrightarrow> \<forall>n s. sm n = Some s \<longrightarrow> sc_Name s = n \<Longrightarrow>
   \<exists>am' sm'. triggerLoop cl cfg (am, sm) dirs = Some (Inr (am', sm')) \<and>
     (\<forall>n. am' n \<noteq> None \<longleftrightarrow> am n \<noteq> None \<or> list_ex (app_triggered cl cfg n) dirs) \<and>
     (\<forall>n. sm' n \<noteq> None \<longleftrightarrow> sm n \<noteq> None \<or> list_ex (set_triggered cfg n) dirs) \<and>
     (\<forall>n a. am' n = Some a \<longrightarrow> ac_Name a = n) \<and> (\<forall>n s. sm' n = Some s \<longrightarrow> sc_Name s = n)"
proof (induction dirs arbitrary: am sm)
  case Nil
  then show ?case by simp
next
  case (Cons dir dirs)
  let ?apps = "applicationsForDir cfg dir"
  let ?am = "foldl (\<lambda>m a. m(ac_Name a \<mapsto> a)) am ?apps"
  have own: "\<forall>n a. ?am n = Some a \<longrightarrow> ac_Name a = n" using foldl_key_own[OF Cons.prems(1)] by blast
  have dom: "?am n \<noteq> None \<longleftrightarrow> am n \<noteq> None \<or> n \<in> ac_Name ` set ?apps" for n by (rule foldl_key_upd)
  have none: "?apps = [] \<longleftrightarrow> \<not> (\<exists>a\<in>set (rc_Applications cfg). app_touched a dir)"
    using applicationsForDir_set[of cfg dir] by (metis (no_types, lifting) empty_Collect_eq set_empty)
  show ?case
  proof (cases "?apps = []")
    case False
    then have "app_triggered cl cfg n dir \<longleftrightarrow> n \<in> ac_Name ` set ?apps" "\<not> set_triggered cfg n dir" for n
      using none applicationsForDir_set[of cfg dir] by (auto simp: app_triggered_def set_triggered_def)
    then show ?thesis using Cons.IH[OF own Cons.prems(2)] False dom
      by (simp add: triggerApps_def)
  next
    case True
    let ?sets = "appsetsForDir cfg dir"
    let ?sm = "foldl (\<lambda>m s. m(sc_Name s \<mapsto> s)) sm ?sets"
    have all: "list_all (\<lambda>s. (case cl_GetApplicationsByAppset cl (sc_Name s) of
      Inl _ \<Rightarrow> False | Inr as \<Rightarrow> list_all (\<lambda>a. sp_Source (app_Spec a) \<noteq> None) as)) ?sets"
      using assms appsetsForDir_set[of cfg dir] by (auto simp: sets_answer_def list_all_iff)
    obtain cs where cs: "appsOfSets cl [] ?sets = Some (cs, None)"
      "ac_Name ` set cs = (\<Union>s\<in>set ?sets. app_Name ` set (set_apps cl s))"
      using appsOfSets_all[OF all, of "[]"] by auto
    let ?am2 = "foldl (\<lambda>m a. m(ac_Name a \<mapsto> a)) am cs"
    have o2: "\<forall>n a. ?am2 n = Some a \<longrightarrow> ac_Name a = n" "\<forall>n s. ?sm n = Some s \<longrightarrow> sc_Name s = n"
      using foldl_key_own[OF Cons.prems(1)] foldl_key_own[OF Cons.prems(2)] by blast+
    have d2: "?am2 n \<noteq> None \<longleftrightarrow> am n \<noteq> None \<or> n \<in> ac_Name ` set cs"
      "?sm n \<noteq> None \<longleftrightarrow> sm n \<noteq> None \<or> n \<in> sc_Name ` set ?sets" for n by (rule foldl_key_upd)+
    have t: "app_triggered cl cfg n dir \<longleftrightarrow> n \<in> ac_Name ` set cs"
      "set_triggered cfg n dir \<longleftrightarrow> n \<in> sc_Name ` set ?sets" for n
      using none True appsetsForDir_set[of cfg dir] unfolding cs(2) app_triggered_def set_triggered_def by auto
    have "triggerLoop cl cfg (am, sm) (dir # dirs) = triggerLoop cl cfg (?am2, ?sm) dirs"
      using True cs(1) by (simp add: triggerApps_def triggerSets_def appsFromApplicationSetForDir_def)
    then show ?thesis using Cons.IH[OF o2] d2 t by simp
  qed
qed

lemma dirMap_keys: "dirMap changes d \<noteq> None \<longleftrightarrow> d \<in> path_dir ` set changes"
  using foldl_key_upd[of path_dir "\<lambda>_. True" "\<lambda>_. None" changes d] by (simp add: dirMap_def)

section \<open>Properties\<close>


definition demo_config :: repo_config where
  "demo_config = \<lparr>rc_Applications = [\<lparr>ac_Name = ''web'', ac_Cluster = ''c'', ac_Path = ''apps/web'',
       ac_AdditionalPaths = [], ac_EnableConfTest = True, ac_EnableKubeConform = True, ac_EnableKubePug = True\<rparr>],
     rc_ApplicationSets = [\<lparr>sc_Name = ''all'', sc_Paths = [''envs''],
       sc_EnableConfTest = True, sc_EnableKubeConform = True, sc_EnableKubePug = True\<rparr>]\<rparr>"

definition one_source_app :: application where
  "one_source_app = \<lparr>app_Name = ''db'', app_Namespace = ''argocd'', app_Spec =
     \<lparr>sp_Source = Some src_zero, sp_Sources = [], sp_DestinationName = [], sp_DestinationServer = []\<rparr>\<rparr>"

definition demo_client :: config_client where
  "demo_client = \<lparr>cl_GetApplications = Inr [demo_app [''x''], one_source_app],
     cl_GetApplicationsByAppset = (\<lambda>_. Inr [one_source_app])\<rparr>"


text \<open>Several matchers together find exactly the union, by name, of what each finds, with no name
  twice when no matcher repeats one; and the first matcher that fails is the error reported.\<close>

theorem multi_matcher_unites:
  assumes "list_all (\<lambda>m. succeeds (m changes branch) \<and> items_distinct (found_by (m changes branch))) ms"
  shows "(\<exists>items. MultiAffectedApps ms changes branch = Some (items, None) \<and> items_distinct items \<and>
      appNames items = (\<Union>m\<in>set ms. appNames (found_by (m changes branch))) \<and>
      setNames items = (\<Union>m\<in>set ms. setNames (found_by (m changes branch)))) \<and>
    (\<exists>items. MultiAffectedApps (ms @ (\<lambda>_ _. Some (its, Some e)) # ms') changes branch =
      Some (items, Some (InMatcher (length ms) e)))"
  using multiLoop_all[of ms changes branch noItems 0] multiLoop_first_error[of ms changes branch
      "\<lambda>_ _. Some (its, Some e)" its e 0 noItems ms'] assms
  by (simp add: MultiAffectedApps_def list_all_iff)

definition demo_matcher :: "string \<Rightarrow> matcher" where
  "demo_matcher n = (\<lambda>_ _. Some (\<lparr>ai_Applications = [], ai_ApplicationSets = [namedSet n]\<rparr>, None))"

theorem multi_matcher_unites_witness:
  "\<exists>items. MultiAffectedApps [demo_matcher ''a'', demo_matcher ''b'', demo_matcher ''a''] [] ''main'' = Some (items, None) \<and>
    setNames items = {''a'', ''b''}"
proof -
  have "list_all (\<lambda>m. succeeds (m [] ''main'') \<and> items_distinct (found_by (m [] ''main'')))
    [demo_matcher ''a'', demo_matcher ''b'', demo_matcher ''a'']"
    by (simp add: demo_matcher_def succeeds_def found_by_def items_distinct_def)
  then have "\<exists>items. MultiAffectedApps [demo_matcher ''a'', demo_matcher ''b'', demo_matcher ''a''] [] ''main'' = Some (items, None) \<and>
      items_distinct items \<and> appNames items = {} \<and>
      setNames items = (\<Union>m\<in>{demo_matcher ''a'', demo_matcher ''b''}. setNames (found_by (m [] ''main'')))"
    using multi_matcher_unites[of "[]" "''main''" "[demo_matcher ''a'', demo_matcher ''b'', demo_matcher ''a'']" noItems
        "ListAppsFailed []" "[]"] by (simp add: demo_matcher_def found_by_def appNames_def insert_commute)
  moreover have "setNames (found_by (demo_matcher n [] ''main'')) = {n}" for n
    by (simp add: demo_matcher_def found_by_def setNames_def namedSet_def)
  ultimately show ?thesis by (auto simp: insert_commute)
qed

text \<open>An application with several sources has no single source, and the configuration matcher
  dereferences it: a configured ApplicationSet that a change touches panics as soon as one of its
  applications has several sources.\<close>

theorem multi_source_app_of_set_panics:
  assumes "applicationsForDir cfg dir = []" "appsetsForDir cfg dir = s # ss"
    and "cl_GetApplicationsByAppset cl (sc_Name s) = Inr (as @ a # bs)" "sp_Source (app_Spec a) = None"
  shows "ConfigAffectedApps cl cfg appOrd setOrd (dir # dirs) = None"
proof -
  have "those (map (configOfApp s) (as @ a # bs)) = None"
    using assms(4) by (induction as) (auto simp: configOfApp_def split: option.split)
  then have "appsOfSets cl [] (s # ss) = None" using assms(3) by simp
  then have "triggeredMaps cl cfg (dir # dirs) = None"
    using assms(1,2) by (simp add: triggeredMaps_def appsFromApplicationSetForDir_def)
  then show ?thesis by (simp add: ConfigAffectedApps_def triggeredApps_def)
qed

theorem multi_source_app_of_set_panics_witness:
  "ConfigAffectedApps (demo_client\<lparr>cl_GetApplicationsByAppset := (\<lambda>_. Inr [demo_app [''x'', ''y'']])\<rparr>)
    demo_config [] [] [''envs/prod''] = None"
proof (rule multi_source_app_of_set_panics[where as = "[]" and a = "demo_app [''x'', ''y'']" and bs = "[]"])
  show "applicationsForDir demo_config ''envs/prod'' = []" by code_simp
  show "appsetsForDir demo_config ''envs/prod'' = hd (rc_ApplicationSets demo_config) # []" by code_simp
qed (simp_all add: demo_app_def)

text \<open>The prefix test for the paths of an ApplicationSet does not stop at a path component.\<close>

lemma sibling_directory_matches_set: "dirMatchForAppSet ''apps-other'' ''apps''"
  by code_simp

end
