(* ===== verification/Archive.thy ===== *)
theory Archive
  imports GoPaths VcsTypes
begin

text \<open>
  \<open>pkg/archive/manager.go\<close> with the error values of \<open>download.go\<close>: the key of an archive, which
  failures are retried, what the pull request is told about the others, and the manager that
  fetches an archive and stands it in for a checkout.  An error is the chain of its causes,
  outermost first, which is what \<open>errors.Is\<close> and \<open>errors.As\<close> search.  The version control
  client and the cache are arguments.
\<close>

section \<open>Errors\<close>

datatype ctx_err = Canceled | DeadlineExceeded

datatype err_cause =
    TextCause string
  | HttpCause nat
  | ExtractCause
  | UrlParseCause
  | AuthCause
  | CtxCause ctx_err

type_synonym archive_error = "err_cause list"

definition wrap :: "string \<Rightarrow> archive_error \<Rightarrow> archive_error" where
  "wrap text e = TextCause text # e"

fun asHttp :: "archive_error \<Rightarrow> nat option" where
  "asHttp [] = None"
| "asHttp (HttpCause sc # e) = Some sc"
| "asHttp (c # e) = asHttp e"

definition isRetriableDownloadError :: "ctx_err option \<Rightarrow> archive_error option \<Rightarrow> bool" where
  "isRetriableDownloadError ctxErr err =
    (case err of
       None \<Rightarrow> False
     | Some e \<Rightarrow>
         if ctxErr \<noteq> None then False
         else if ExtractCause \<in> set e then False
         else (case asHttp e of
                 Some sc \<Rightarrow> sc = 404 \<or> sc = 429 \<or> sc \<ge> 500
               | None \<Rightarrow> True))"

section \<open>The key of an archive\<close>

text \<open>\<open>strings.Split\<close> for a separator that is not empty.\<close>

function str_split :: "string \<Rightarrow> string \<Rightarrow> string list" where
  "str_split s sep =
    (if sep = [] then [s]
     else case str_cut s sep of None \<Rightarrow> [s] | Some (a, b) \<Rightarrow> a # str_split b sep)"
  by pat_completeness auto

termination
proof (relation "measure (\<lambda>(s, _). length s)")
  fix s sep :: string and x a b
  assume "sep \<noteq> []" "str_cut s sep = Some x" "(a, b) = x"
  then have "s = a @ sep @ b" using str_cut_Some by metis
  then show "((b, sep), (s, sep)) \<in> measure (\<lambda>(s, _). length s)" using \<open>sep \<noteq> []\<close> by simp
qed simp

declare str_split.simps [simp del]

definition sha_or_empty :: "string \<Rightarrow> string + string" where
  "sha_or_empty sha = (if sha = [] then Inl ''empty SHA extracted from archive URL'' else Inr sha)"

definition extractSHAFromArchiveURL :: "string \<Rightarrow> string + string" where
  "extractSHAFromArchiveURL archiveURL =
    (case find (str_contains archiveURL) [''/zipball/'', ''/tarball/''] of
       Some marker \<Rightarrow>
         let parts = str_split archiveURL marker in sha_or_empty (hd (split_char (CHR ''?'') (last parts)))
     | None \<Rightarrow>
         if str_contains archiveURL ''/archive/'' then
           let parts = str_split archiveURL ''/archive/'' in
           if length parts < 2 then Inl ''invalid GitHub archive URL format''
           else let filename = last parts in sha_or_empty (trim_suffix filename (path_ext filename))
         else if str_contains archiveURL ''?sha='' \<or> str_contains archiveURL ''&sha='' then
           let parts = str_split archiveURL ''sha='' in
           if length parts < 2 then Inl ''invalid GitLab archive URL format''
           else sha_or_empty (hd (split_char (CHR ''&'') (parts ! 1)))
         else Inl ''unrecognized archive URL format'')"

section \<open>What the pull request is told\<close>

definition warn_sign :: string where
  "warn_sign = [CHR 0xE2, CHR 0x9A, CHR 0xA0, CHR 0xEF, CHR 0xB8, CHR 0x8F, CHR '' '']"

definition em_dash :: string where
  "em_dash = [CHR 0xE2, CHR 0x80, CHR 0x94]"

definition gap :: string where
  "gap = [nl, nl]"

definition toRetry :: "string \<Rightarrow> string" where
  "toRetry replan = ''Comment `'' @ replan @ ''` to retry.''"

definition timedOutMsg :: "string \<Rightarrow> string" where
  "timedOutMsg replan = warn_sign @ ''Kubechecks timed out waiting for the repository archive to be ready.'' @
     gap @ ''The VCS may still be computing the merge result. '' @ toRetry replan"

definition interruptedMsg :: "string \<Rightarrow> string" where
  "interruptedMsg replan = warn_sign @ ''The archive download was interrupted before completing.'' @
     gap @ ''This is usually caused by a shutdown or restart. '' @ toRetry replan"

text \<open>The cases of the switch in their order; \<open>statusText\<close> is \<open>http.StatusText\<close>.\<close>

definition archiveErrorMessage :: "(nat \<Rightarrow> string) \<Rightarrow> string \<Rightarrow> ctx_err option \<Rightarrow> archive_error \<Rightarrow> string" where
  "archiveErrorMessage statusText replan ctxErr e =
    (let http = asHttp e; status = (\<lambda>sc. itoa sc @ '' '' @ statusText sc) in
     if CtxCause DeadlineExceeded \<in> set e then timedOutMsg replan
     else if CtxCause Canceled \<in> set e then interruptedMsg replan
     else if http = Some 404 then
       warn_sign @ ''Repository archive not found (HTTP 404).'' @ gap @
       ''The VCS may still be preparing the merged archive. '' @ toRetry replan
     else if http = Some 429 then
       warn_sign @ ''Rate limited while downloading the repository archive (HTTP 429).'' @ gap @ toRetry replan
     else if http \<noteq> None \<and> the http \<ge> 500 then
       warn_sign @ ''VCS server error while downloading the repository archive (HTTP '' @ status (the http) @ '').'' @
       gap @ ''The VCS may be experiencing issues. '' @ toRetry replan
     else if http = Some 401 then
       warn_sign @ ''Authentication failed downloading the repository archive (HTTP 401 Unauthorized).'' @ gap @
       ''Check that kubechecks has a valid VCS token configured.''
     else if http = Some 403 then
       warn_sign @ ''Access denied downloading the repository archive (HTTP 403 Forbidden).'' @ gap @
       ''Check that the kubechecks VCS token has sufficient repository permissions.''
     else if AuthCause \<in> set e then
       warn_sign @ ''Kubechecks could not obtain credentials to download the repository archive.'' @ gap @
       ''This is a configuration problem '' @ em_dash @ '' check that the kubechecks VCS token or '' @
       ''GitHub App credentials are valid. Comment `'' @ replan @ ''` will not help until the configuration is fixed.''
     else if UrlParseCause \<in> set e then
       warn_sign @ ''Kubechecks could not parse the archive URL returned by the VCS.'' @ gap @
       ''This is likely a configuration or VCS compatibility issue '' @ em_dash @ '' check the kubechecks logs.''
     else if http \<noteq> None \<and> the http \<ge> 400 \<and> the http < 500 then
       warn_sign @ ''Failed to download the repository archive (HTTP '' @ status (the http) @ '').'' @ gap @
       ''This is a permanent error. Check the kubechecks logs for details.''
     else if http \<noteq> None then
       warn_sign @ ''Failed to download the repository archive (HTTP '' @ status (the http) @ '').'' @ gap @ toRetry replan
     else if ctxErr = Some DeadlineExceeded then timedOutMsg replan
     else if ctxErr \<noteq> None then interruptedMsg replan
     else warn_sign @ ''Failed to download the repository archive due to a transient error.'' @ gap @ toRetry replan)"

text \<open>\<open>post fresh message\<close> posts under the caller's context or, with \<open>fresh\<close>, under a new one, and
  returns the error, if any.\<close>

definition PostArchiveErrorMessage ::
  "(bool \<Rightarrow> string \<Rightarrow> string option) \<Rightarrow> (nat \<Rightarrow> string) \<Rightarrow> string \<Rightarrow> ctx_err option \<Rightarrow> archive_error \<Rightarrow> string option" where
  "PostArchiveErrorMessage post statusText replan ctxErr e =
    map_option (\<lambda>err. ''failed to post archive error message: '' @ err)
      (post (ctxErr \<noteq> None) (archiveErrorMessage statusText replan ctxErr e))"

definition conflictMessage :: "string \<Rightarrow> string \<Rightarrow> string" where
  "conflictMessage baseRef replan = warn_sign @ ''This request cannot be checked.'' @ gap @
     ''PR/MR may be in draft, or resolve conflicts with the base branch ('' @ baseRef @ '') before running checks.'' @
     gap @ ''To re-trigger checks after resolving conflicts, comment `'' @ replan @ ''`.''"

definition PostConflictMessage :: "(string \<Rightarrow> string option) \<Rightarrow> string \<Rightarrow> pull_request \<Rightarrow> string option" where
  "PostConflictMessage post replan pr =
    map_option (\<lambda>err. ''failed to post conflict message: '' @ err) (post (conflictMessage (pr_BaseRef pr) replan))"

section \<open>The manager\<close>

record git_repo =
  gr_BranchName :: string
  gr_CloneURL :: string
  gr_Directory :: string
  gr_BaseBranchName :: string
  gr_MergeCommitSHA :: string

type_synonym headers = "(string \<times> string) list"

record vcs_archive_api =
  va_DownloadArchive :: "pull_request \<Rightarrow> archive_error + string"
  va_GetAuthHeaders :: "archive_error + headers"
  va_GetPullRequestFiles :: "pull_request \<Rightarrow> archive_error + string list"

text \<open>The URLs that validation leaves for the clone that follows it.\<close>

type_synonym validated = "string strmap"

definition itoa_int :: "int \<Rightarrow> string" where
  "itoa_int n = (if n < 0 then ''-'' @ itoa (nat (- n)) else itoa (nat n))"

definition validatedKey :: "pull_request \<Rightarrow> string" where
  "validatedKey pr = pr_FullName pr @ ''#'' @ itoa_int (pr_CheckID pr) @ ''@'' @ pr_SHA pr"

definition ValidatePullRequest ::
  "vcs_archive_api \<Rightarrow> pull_request \<Rightarrow> validated \<Rightarrow> archive_error option \<times> validated" where
  "ValidatePullRequest api pr urls =
    (case va_DownloadArchive api pr of
       Inl err \<Rightarrow> (Some (wrap ''PR cannot use archive mode (may have conflicts)'' err), urls)
     | Inr url \<Rightarrow> (None, urls(validatedKey pr \<mapsto> url)))"

text \<open>The URL the clone uses, and what is left of the validated ones.\<close>

definition archiveURLFor ::
  "vcs_archive_api \<Rightarrow> pull_request \<Rightarrow> validated \<Rightarrow> (archive_error + string) \<times> validated" where
  "archiveURLFor api pr urls =
    (case urls (validatedKey pr) of
       Some url \<Rightarrow> (Inr url, urls(validatedKey pr := None))
     | None \<Rightarrow>
         (case va_DownloadArchive api pr of
            Inl err \<Rightarrow> (Inl (wrap ''failed to get archive URL from VCS'' err), urls)
          | Inr url \<Rightarrow> (Inr url, urls)))"

definition manager_Clone ::
  "vcs_archive_api \<Rightarrow> (string \<Rightarrow> string \<Rightarrow> headers \<Rightarrow> archive_error + string) \<Rightarrow> string \<Rightarrow> string \<Rightarrow>
   pull_request \<Rightarrow> validated \<Rightarrow> (archive_error + git_repo) \<times> validated" where
  "manager_Clone api getOrDownload cloneURL branchName pr urls =
    (case archiveURLFor api pr urls of
       (Inl err, urls) \<Rightarrow> (Inl err, urls)
     | (Inr archiveURL, urls) \<Rightarrow>
         (case extractSHAFromArchiveURL archiveURL of
            Inl err \<Rightarrow> (Inl [UrlParseCause, TextCause (''failed to extract merge commit SHA from archive URL: '' @ err)], urls)
          | Inr sha \<Rightarrow>
              (case va_GetAuthHeaders api of
                 Inl err \<Rightarrow> (Inl (AuthCause # wrap ''failed to get archive auth headers'' err), urls)
               | Inr auth \<Rightarrow>
                   (case getOrDownload archiveURL sha auth of
                      Inl err \<Rightarrow> (Inl (wrap ''failed to download and extract archive'' err), urls)
                    | Inr path \<Rightarrow>
                        (Inr \<lparr>gr_BranchName = branchName, gr_CloneURL = cloneURL, gr_Directory = path,
                              gr_BaseBranchName = branchName, gr_MergeCommitSHA = sha\<rparr>, urls)))))"

definition GetChangedFiles :: "vcs_archive_api \<Rightarrow> pull_request \<Rightarrow> archive_error + string list" where
  "GetChangedFiles api pr = (case va_GetPullRequestFiles api pr of
     Inl err \<Rightarrow> Inl (wrap ''failed to get PR files from VCS'' err) | Inr files \<Rightarrow> Inr files)"

section \<open>Lemmas\<close>

subsection \<open>Splitting at a marker\<close>

lemma str_index_marker:
  assumes stem: "stem \<noteq> []" "hd stem = c" "c \<notin> set (tl stem)" and a: "\<not> str_contains a stem"
  shows "str_index (a @ stem @ b) stem = Some (length a)"
proof -
  have "\<not> has_prefix (drop j (a @ stem @ b)) stem" if j: "j < length a" for j
  proof
    assume "has_prefix (drop j (a @ stem @ b)) stem"
    then obtain t where t: "drop j (a @ stem @ b) = stem @ t" by (auto simp: has_prefix_iff)
    let ?k = "length a - j"
    have da: "drop j (a @ stem @ b) = drop j a @ stem @ b" using j by simp
    show False
    proof (cases "length stem \<le> ?k")
      case True
      then have "take (length stem) (drop j a) = stem"
        using arg_cong[OF t, of "take (length stem)"] da by simp
      then have "a = take j a @ stem @ drop (length stem) (drop j a)"
        by (metis append_take_drop_id)
      then have "sublist stem a" unfolding sublist_def by blast
      then show False using a by (simp add: str_contains_iff)
    next
      case False
      have "(drop j a @ stem @ b) ! ?k = stem ! 0" using stem(1) by (simp add: nth_append)
      moreover have "(stem @ t) ! ?k = stem ! ?k" using False by (simp add: nth_append)
      ultimately have "stem ! ?k = c" using t da stem(1,2) by (simp add: hd_conv_nth)
      moreover have "stem ! ?k = tl stem ! (?k - 1)" using False j stem(1) by (cases stem) (auto simp: nth_Cons')
      moreover have "?k - 1 < length (tl stem)" using False j stem(1) by auto
      ultimately show False using stem(3) nth_mem by fastforce
    qed
  qed
  then show ?thesis using str_index_eqI[of "length a" "a @ stem @ b" stem] by simp
qed

lemma str_index_extend:
  "str_index (a @ stem @ x # b) stem = Some (length a) \<Longrightarrow> str_index (a @ (stem @ [x]) @ b) (stem @ [x]) = Some (length a)"
proof -
  assume i: "str_index (a @ stem @ x # b) stem = Some (length a)"
  have "\<not> has_prefix (drop j (a @ (stem @ [x]) @ b)) (stem @ [x])" if "j < length a" for j
    using str_index_least[OF i that] by (auto simp: has_prefix_iff)
  moreover have "has_prefix (stem @ x # b) (stem @ [x])" by (simp add: has_prefix_iff)
  ultimately show ?thesis using str_index_eqI[of "length a" "a @ (stem @ [x]) @ b" "stem @ [x]"] by simp
qed

lemma str_split_once:
  assumes "str_index (a @ m @ b) m = Some (length a)" "\<not> str_contains b m" "m \<noteq> []"
  shows "str_split (a @ m @ b) m = [a, b]"
proof -
  have "str_cut (a @ m @ b) m = Some (a, b)" using assms(1) by (simp add: str_cut_def)
  moreover have "str_split b m = [b]" using assms(2,3)
    by (subst str_split.simps) (simp add: str_cut_def str_contains_def)
  ultimately show ?thesis using assms(3) by (subst str_split.simps) simp
qed

lemma hd_split_char_none: "d \<notin> set s \<Longrightarrow> split_char d s = [s]"
  by (induction s) auto

lemma not_contains_sep: "c \<in> set m \<Longrightarrow> c \<notin> set s \<Longrightarrow> \<not> str_contains s m"
  by (auto simp: str_contains_iff sublist_def)

lemma sha_of_zipball:
  assumes "\<not> str_contains base ''/zipball''" "sha \<noteq> []" "slash \<notin> set sha" "CHR ''?'' \<notin> set sha"
  shows "extractSHAFromArchiveURL (base @ ''/zipball/'' @ sha) = Inr sha"
proof -
  have "str_index (base @ ''/zipball'' @ slash # sha) ''/zipball'' = Some (length base)"
    by (rule str_index_marker[where c = slash]) (use assms(1) in auto)
  then have i: "str_index (base @ ''/zipball/'' @ sha) ''/zipball/'' = Some (length base)"
    using str_index_extend by fastforce
  then have "str_split (base @ ''/zipball/'' @ sha) ''/zipball/'' = [base, sha]"
    by (rule str_split_once) (simp_all add: not_contains_sep[OF _ assms(3)])
  moreover have "str_contains (base @ ''/zipball/'' @ sha) ''/zipball/''" using i by (simp add: str_contains_def)
  ultimately show ?thesis
    using assms(2,4) by (simp add: extractSHAFromArchiveURL_def sha_or_empty_def hd_split_char_none)
qed

lemma sha_of_query:
  assumes "\<not> str_contains url ''/zipball/''" "\<not> str_contains url ''/tarball/''" "\<not> str_contains url ''/archive/''"
    and url: "url = base @ ''?sha='' @ sha" and "\<not> str_contains (base @ ''?'') ''sha=''"
    and "sha \<noteq> []" "CHR ''='' \<notin> set sha" "CHR ''&'' \<notin> set sha"
  shows "extractSHAFromArchiveURL url = Inr sha"
proof -
  let ?b = "base @ ''?''"
  have "str_index (?b @ ''sha='' @ sha) ''sha='' = Some (length ?b)"
    by (rule str_index_marker[where c = "CHR ''s''"]) (use assms(5) in auto)
  then have "str_split (?b @ ''sha='' @ sha) ''sha='' = [?b, sha]"
    by (rule str_split_once) (simp_all add: not_contains_sep[OF _ assms(7)])
  moreover have "url = ?b @ ''sha='' @ sha" using url by simp
  ultimately have sp: "str_split url ''sha='' = [?b, sha]" by simp
  have "str_contains url ''?sha=''" unfolding str_contains_iff url sublist_def by blast
  then show ?thesis
    using assms(1-3) sp assms(6,8) by (simp add: extractSHAFromArchiveURL_def sha_or_empty_def hd_split_char_none)
qed

subsection \<open>Keys of pull requests\<close>

lemma itoa_digits: "c \<in> set (itoa n) \<Longrightarrow> \<exists>d<(10::nat). c = char_of (48 + d)"
proof (induction n rule: itoa.induct)
  case (1 n)
  show ?case
  proof (cases "n < 10")
    case True
    then show ?thesis using 1(2) by (subst (asm) itoa.simps) auto
  next
    case False
    then have "c \<in> set (itoa (n div 10)) \<or> c = char_of (48 + n mod 10)"
      using 1(2) by (subst (asm) itoa.simps) auto
    then show ?thesis using 1(1) False by (metis mod_less_divisor zero_less_numeral)
  qed
qed

lemma digit_chars: "d < (10::nat) \<Longrightarrow> char_of (48 + d) \<in> set ''0123456789''"
proof -
  have "list_all (\<lambda>d. char_of (48 + d) \<in> set ''0123456789'') [0..<10]" by code_simp
  then show "d < 10 \<Longrightarrow> char_of (48 + d) \<in> set ''0123456789''" by (simp add: list_all_iff)
qed

lemma itoa_chars: "set (itoa n) \<subseteq> set ''0123456789''"
  using itoa_digits digit_chars by blast

definition atoi :: "string \<Rightarrow> nat" where
  "atoi s = foldl (\<lambda>v c. 10 * v + (of_char c - 48)) 0 s"

lemma digit_value: "d < (10::nat) \<Longrightarrow> of_char (char_of (48 + d) :: char) - 48 = d"
  by simp

lemma atoi_itoa: "atoi (itoa n) = n"
proof (induction n rule: itoa.induct)
  case (1 n)
  show ?case
  proof (cases "n < 10")
    case True
    then show ?thesis using digit_value[OF True] by (subst itoa.simps) (simp add: atoi_def)
  next
    case False
    have "n mod 10 < 10" by simp
    from digit_value[OF this] show ?thesis
      using 1 False by (subst itoa.simps) (simp add: atoi_def del: char_of_mod_256)
  qed
qed

lemma itoa_int_inj: "itoa_int m = itoa_int n \<Longrightarrow> m = n"
proof -
  have dash: "CHR ''-'' \<notin> set (itoa k)" for k using itoa_chars[of k] by auto
  have "itoa a = itoa b \<Longrightarrow> a = b" for a b by (metis atoi_itoa)
  moreover have "itoa a \<noteq> ''-'' @ s" for a s using dash[of a] by auto
  ultimately show "itoa_int m = itoa_int n \<Longrightarrow> m = n"
    unfolding itoa_int_def by (metis int_nat_eq append_eq_append_conv linorder_not_less minus_minus
        neg_0_le_iff_le nat_0_le order_less_imp_le)
qed

lemma itoa_int_chars: "CHR ''@'' \<notin> set (itoa_int n)"
  using itoa_chars[of "nat n"] itoa_chars[of "nat (- n)"] by (auto simp: itoa_int_def)

lemma cut_at_char:
  "a @ c # s = b @ c # t \<Longrightarrow> c \<notin> set a \<Longrightarrow> c \<notin> set b \<Longrightarrow> a = b \<and> s = t"
proof (induction a arbitrary: b)
  case Nil
  then show ?case by (cases b) auto
next
  case (Cons x a)
  then show ?case by (cases b) auto
qed

lemma validatedKey_inj:
  assumes "validatedKey p = validatedKey q" "CHR ''#'' \<notin> set (pr_FullName p)" "CHR ''#'' \<notin> set (pr_FullName q)"
  shows "pr_FullName p = pr_FullName q \<and> pr_CheckID p = pr_CheckID q \<and> pr_SHA p = pr_SHA q"
proof -
  have "pr_FullName p = pr_FullName q \<and>
      itoa_int (pr_CheckID p) @ ''@'' @ pr_SHA p = itoa_int (pr_CheckID q) @ ''@'' @ pr_SHA q"
    by (rule cut_at_char[where c = "CHR ''#''"]) (use assms in \<open>simp_all add: validatedKey_def\<close>)
  moreover from this have "itoa_int (pr_CheckID p) = itoa_int (pr_CheckID q) \<and> pr_SHA p = pr_SHA q"
    by (intro cut_at_char[where c = "CHR ''@''"]) (simp_all add: itoa_int_chars)
  ultimately show ?thesis using itoa_int_inj by blast
qed

section \<open>Properties\<close>

text \<open>The key of an archive is the commit that its URL names, for the zipball URLs of GitHub and the
  query URLs of GitLab, so that archives of different commits never share a key.\<close>

theorem archive_key_is_commit:
  assumes "sha \<noteq> []" "list_all (\<lambda>c. c \<notin> set sha) ''/?=&''"
  shows "(\<not> str_contains base ''/zipball'' \<longrightarrow>
      extractSHAFromArchiveURL (base @ ''/zipball/'' @ sha) = Inr sha) \<and>
    (list_all (\<lambda>m. \<not> str_contains (base @ ''?sha='' @ sha) m) [''/zipball/'', ''/tarball/'', ''/archive/''] \<longrightarrow>
      \<not> str_contains (base @ ''?'') ''sha='' \<longrightarrow>
      extractSHAFromArchiveURL (base @ ''?sha='' @ sha) = Inr sha)"
  using sha_of_zipball[of base sha] sha_of_query[of "base @ ''?sha='' @ sha" base sha] assms by simp

theorem archive_key_is_commit_witness:
  "extractSHAFromArchiveURL ''https://api.github.com/repos/o/r/zipball/ab12'' = Inr ''ab12'' \<and>
   extractSHAFromArchiveURL ''https://gitlab.com/api/v4/projects/o%2Fr/repository/archive.zip?sha=ab12'' = Inr ''ab12''"
proof -
  have s: "''ab12'' \<noteq> []" "list_all (\<lambda>c. c \<notin> set ''ab12'') ''/?=&''" by simp_all
  have g: "\<not> str_contains ''https://api.github.com/repos/o/r'' ''/zipball''" by code_simp
  have l: "list_all (\<lambda>m. \<not> str_contains (''https://gitlab.com/api/v4/projects/o%2Fr/repository/archive.zip'' @ ''?sha='' @ ''ab12'') m)
      [''/zipball/'', ''/tarball/'', ''/archive/'']"
    "\<not> str_contains (''https://gitlab.com/api/v4/projects/o%2Fr/repository/archive.zip'' @ ''?'') ''sha=''" by code_simp+
  show ?thesis
    using archive_key_is_commit[OF s, of "''https://api.github.com/repos/o/r''"] g
      archive_key_is_commit[OF s, of "''https://gitlab.com/api/v4/projects/o%2Fr/repository/archive.zip''"] l by simp
qed

definition offers_retry :: "string \<Rightarrow> bool" where
  "offers_retry m = has_suffix m ''` to retry.''"

lemma offers_toRetry [simp]: "offers_retry (s @ toRetry replan)"
  using has_suffix_append[of "s @ ''Comment `'' @ replan" "''` to retry.''"]
  by (simp add: offers_retry_def toRetry_def)

lemma offers_retry_append: "length t \<ge> 11 \<Longrightarrow> offers_retry (s @ t) = offers_retry t"
  by (simp add: offers_retry_def has_suffix_def has_prefix_def)

lemma retry_of_causes:
  "offers_retry (archiveErrorMessage statusText replan ctxErr e) =
    (CtxCause DeadlineExceeded \<in> set e \<or> CtxCause Canceled \<in> set e \<or>
     (case asHttp e of
        None \<Rightarrow> AuthCause \<notin> set e \<and> UrlParseCause \<notin> set e
      | Some sc \<Rightarrow> sc = 404 \<or> sc = 429 \<or> sc \<ge> 500 \<or> (sc < 400 \<and> AuthCause \<notin> set e \<and> UrlParseCause \<notin> set e)))"
proof -
  have yes: "offers_retry (timedOutMsg replan)" "offers_retry (interruptedMsg replan)"
    "offers_retry (a @ b @ toRetry replan)" "offers_retry (a @ b @ c @ toRetry replan)"
    "offers_retry (a @ b @ c @ d @ toRetry replan)" "offers_retry (a @ b @ c @ d @ f @ toRetry replan)"
    "offers_retry (a @ b @ c @ d @ f @ g @ toRetry replan)" for a b c d f g
    unfolding timedOutMsg_def interruptedMsg_def by (simp_all only: append_assoc[symmetric] offers_toRetry)
  have no: "\<not> offers_retry (a @ b @ c @ ''Check that kubechecks has a valid VCS token configured.'')"
    "\<not> offers_retry (a @ b @ c @ ''Check that the kubechecks VCS token has sufficient repository permissions.'')"
    "\<not> offers_retry (a @ b @ c @ d @ f @ g @ h @ k @ ''` will not help until the configuration is fixed.'')"
    "\<not> offers_retry (a @ b @ c @ d @ f @ '' check the kubechecks logs.'')"
    "\<not> offers_retry (a @ b @ c @ d @ f @ ''This is a permanent error. Check the kubechecks logs for details.'')"
    for a b c d f g h k
    by (subst offers_retry_append, simp)+ (simp_all add: offers_retry_def has_suffix_def)
  show ?thesis
    unfolding archiveErrorMessage_def Let_def if_distrib[of offers_retry]
    by (simp only: yes no) (auto split: option.split)
qed

text \<open>The pull request is told to retry exactly when the failure is a timeout, an interruption, a
  retriable or unexpected response of the server, or an unknown failure that comes neither from
  the credentials nor from the archive URL.\<close>

theorem retry_is_offered_for_transient_failures:
  "offers_retry (archiveErrorMessage statusText replan ctxErr e) =
    (CtxCause DeadlineExceeded \<in> set e \<or> CtxCause Canceled \<in> set e \<or>
     (case asHttp e of
        None \<Rightarrow> AuthCause \<notin> set e \<and> UrlParseCause \<notin> set e
      | Some sc \<Rightarrow> sc = 404 \<or> sc = 429 \<or> sc \<ge> 500 \<or> (sc < 400 \<and> AuthCause \<notin> set e \<and> UrlParseCause \<notin> set e)))"
  by (rule retry_of_causes)

text \<open>A failure to extract an archive is never retried by the download, being permanent, yet the
  pull request is told that it was transient and to retry.\<close>

theorem permanent_failure_called_transient:
  "\<not> isRetriableDownloadError ctxErr (Some [TextCause t, ExtractCause, TextCause u]) \<and>
   offers_retry (archiveErrorMessage statusText replan None [TextCause t, ExtractCause, TextCause u])"
  by (simp add: retry_of_causes isRetriableDownloadError_def)

text \<open>The URL found by validating a pull request is used by the next clone of the same pull request,
  whatever the client would answer then, and once only; it is not used for another commit, pull
  request or repository.\<close>

theorem validated_archive_is_cloned:
  assumes "ValidatePullRequest api pr urls = (None, urls')" "CHR ''#'' \<notin> set (pr_FullName pr)"
  shows "\<exists>url. va_DownloadArchive api pr = Inr url \<and>
    archiveURLFor later pr urls' = (Inr url, urls'(validatedKey pr := None)) \<and>
    fst (archiveURLFor later pr (urls'(validatedKey pr := None))) =
      (case va_DownloadArchive later pr of Inl e \<Rightarrow> Inl (wrap ''failed to get archive URL from VCS'' e) | Inr u \<Rightarrow> Inr u) \<and>
    (CHR ''#'' \<notin> set (pr_FullName q) \<longrightarrow>
      (pr_FullName q, pr_CheckID q, pr_SHA q) \<noteq> (pr_FullName pr, pr_CheckID pr, pr_SHA pr) \<longrightarrow>
      fst (archiveURLFor later q urls') = fst (archiveURLFor later q urls))"
proof -
  obtain url where url: "va_DownloadArchive api pr = Inr url" "urls' = urls(validatedKey pr \<mapsto> url)"
    using assms(1) by (auto simp: ValidatePullRequest_def split: sum.splits)
  moreover have "validatedKey q \<noteq> validatedKey pr" if "CHR ''#'' \<notin> set (pr_FullName q)"
      "(pr_FullName q, pr_CheckID q, pr_SHA q) \<noteq> (pr_FullName pr, pr_CheckID pr, pr_SHA pr)"
    using validatedKey_inj[OF _ that(1) assms(2)] that(2) by auto
  ultimately show ?thesis by (auto simp: archiveURLFor_def split: option.split sum.split)
qed

definition demo_archive_api :: vcs_archive_api where
  "demo_archive_api = \<lparr>va_DownloadArchive = (\<lambda>_. Inr ''https://api.github.com/repos/o/r/zipball/ab12''),
     va_GetAuthHeaders = Inr [], va_GetPullRequestFiles = (\<lambda>_. Inr [])\<rparr>"

theorem validated_archive_is_cloned_witness:
  "fst (archiveURLFor (demo_archive_api\<lparr>va_DownloadArchive := (\<lambda>_. Inl [])\<rparr>) (pr_zero\<lparr>pr_FullName := ''o/r''\<rparr>)
     (snd (ValidatePullRequest demo_archive_api (pr_zero\<lparr>pr_FullName := ''o/r''\<rparr>) (\<lambda>_. None)))) =
   Inr ''https://api.github.com/repos/o/r/zipball/ab12''"
proof -
  let ?pr = "pr_zero\<lparr>pr_FullName := ''o/r''\<rparr>"
  let ?urls = "snd (ValidatePullRequest demo_archive_api ?pr (\<lambda>_. None))"
  have v: "ValidatePullRequest demo_archive_api ?pr (\<lambda>_. None) = (None, ?urls)"
    by (simp add: ValidatePullRequest_def demo_archive_api_def)
  have h: "CHR ''#'' \<notin> set (pr_FullName ?pr)" by (simp add: pr_zero_def)
  have d: "va_DownloadArchive demo_archive_api ?pr = Inr ''https://api.github.com/repos/o/r/zipball/ab12''"
    by (simp add: demo_archive_api_def)
  show ?thesis
    using validated_archive_is_cloned[OF v h, where later = "demo_archive_api\<lparr>va_DownloadArchive := (\<lambda>_. Inl [])\<rparr>"] d
    by auto
qed

end
