(* ===== verification/ArchiveCache.thy ===== *)
theory ArchiveCache
  imports Archive
begin

text \<open>
  \<open>pkg/archive/cache.go\<close>: the reference-counted cache of extracted archives, shared by all
  checks.  The methods that hold the lock are functions on the cache; \<open>GetOrDownload\<close>, which
  runs in many goroutines, is the step relation \<open>cstep\<close>: a caller tries the cache, joins or leads
  the one download in flight for its key (\<open>singleflight\<close>), takes a reference on the result, and
  after three failed attempts, or a failure that is not retriable, removes the directory and
  gives up.  \<open>singleflight\<close> is documented to run one call per key at a time and to hand its result
  to every caller that joined.  The disk is the set of keys whose directory holds a complete
  archive.  The metrics and their routine are left out; waiting is not timed.
\<close>

section \<open>State and operations\<close>

record cache_entry =
  ce_extractedPath :: string
  ce_lastUsed :: int
  ce_refCount :: int

record archive_cache =
  ca_entries :: "cache_entry strmap"
  ca_disk :: "string set"
  ca_ttl :: int

definition NewCache :: "int \<Rightarrow> archive_cache" where
  "NewCache ttl = \<lparr>ca_entries = (\<lambda>_. None), ca_disk = {}, ca_ttl = (if ttl = 0 then 3600 else ttl)\<rparr>"

definition cache_acquire :: "int \<Rightarrow> string \<Rightarrow> archive_cache \<Rightarrow> string option \<times> archive_cache" where
  "cache_acquire now sha c =
    (case ca_entries c sha of
       None \<Rightarrow> (None, c)
     | Some e \<Rightarrow> (Some (ce_extractedPath e), c\<lparr>ca_entries := (ca_entries c)
         (sha \<mapsto> e\<lparr>ce_refCount := ce_refCount e + 1, ce_lastUsed := now\<rparr>)\<rparr>))"

definition cache_Release :: "int \<Rightarrow> string \<Rightarrow> archive_cache \<Rightarrow> archive_cache" where
  "cache_Release now sha c =
    (case ca_entries c sha of
       None \<Rightarrow> c
     | Some e \<Rightarrow>
         let e = (if ce_refCount e > 0 then e\<lparr>ce_refCount := ce_refCount e - 1\<rparr> else e)
         in c\<lparr>ca_entries := (ca_entries c)(sha \<mapsto> e\<lparr>ce_lastUsed := now\<rparr>)\<rparr>)"

definition stale :: "int \<Rightarrow> archive_cache \<Rightarrow> string \<Rightarrow> bool" where
  "stale now c sha = (case ca_entries c sha of
     None \<Rightarrow> False
   | Some e \<Rightarrow> \<not> ce_refCount e > 0 \<and> now - ce_lastUsed e > ca_ttl c)"

definition cleanupStaleArchives :: "int \<Rightarrow> archive_cache \<Rightarrow> archive_cache" where
  "cleanupStaleArchives now c =
    c\<lparr>ca_entries := (\<lambda>sha. if stale now c sha then None else ca_entries c sha),
      ca_disk := {sha \<in> ca_disk c. \<not> stale now c sha}\<rparr>"

definition removeDir :: "string \<Rightarrow> archive_cache \<Rightarrow> archive_cache" where
  "removeDir sha c = c\<lparr>ca_disk := ca_disk c - {sha}\<rparr>"

definition storeEntry :: "int \<Rightarrow> string \<Rightarrow> string \<Rightarrow> archive_cache \<Rightarrow> archive_cache" where
  "storeEntry now sha path c = c\<lparr>ca_entries := (ca_entries c)
     (sha \<mapsto> \<lparr>ce_extractedPath = path, ce_lastUsed = now, ce_refCount = 0\<rparr>)\<rparr>"

definition maxDownloadAttempts :: nat where
  "maxDownloadAttempts = 3"

section \<open>Interleavings\<close>

text \<open>Where a goroutine is in \<open>GetOrDownload\<close> and in its use of the archive; the number is the
  attempt.\<close>

datatype phase =
    Idle
  | Attempt string nat
  | Joined string nat
  | Downloaded string nat
  | AttemptFailed string nat archive_error
  | GivingUp string archive_error
  | Holding string string

datatype flight = Started | Cleared | Extracted string

record world =
  w_cache :: archive_cache
  w_flight :: "string \<Rightarrow> flight option"
  w_phase :: "nat \<Rightarrow> phase"
  w_now :: int
  w_removed :: "string set"

text \<open>The end of a flight hands its result to everyone who joined it.\<close>

definition land :: "string \<Rightarrow> (nat \<Rightarrow> phase) \<Rightarrow> world \<Rightarrow> world" where
  "land sha result w = w\<lparr>w_flight := (w_flight w)(sha := None),
     w_phase := (\<lambda>i. case w_phase w i of
        Joined s n \<Rightarrow> if s = sha then result n else Joined s n | p \<Rightarrow> p)\<rparr>"

definition goto :: "nat \<Rightarrow> phase \<Rightarrow> world \<Rightarrow> world" where
  "goto i p w = w\<lparr>w_phase := (w_phase w)(i := p)\<rparr>"

definition withCache :: "(archive_cache \<Rightarrow> archive_cache) \<Rightarrow> world \<Rightarrow> world" where
  "withCache f w = w\<lparr>w_cache := f (w_cache w)\<rparr>"

definition new_world :: "int \<Rightarrow> world" where
  "new_world ttl = \<lparr>w_cache = NewCache ttl, w_flight = (\<lambda>_. None), w_phase = (\<lambda>_. Idle), w_now = 0, w_removed = {}\<rparr>"

text \<open>\<open>w_removed\<close> only records which keys were removed by callers that gave up.\<close>

inductive cstep :: "world \<Rightarrow> world \<Rightarrow> bool" where
  tick: "d \<ge> 0 \<Longrightarrow> cstep w (w\<lparr>w_now := w_now w + d\<rparr>)"
| hit: "w_phase w i = Idle \<Longrightarrow> cache_acquire (w_now w) sha (w_cache w) = (Some path, c) \<Longrightarrow>
    cstep w (goto i (Holding sha path) (withCache (\<lambda>_. c) w))"
| miss: "w_phase w i = Idle \<Longrightarrow> cache_acquire (w_now w) sha (w_cache w) = (None, c) \<Longrightarrow>
    cstep w (goto i (Attempt sha 0) w)"
| lead: "w_phase w i = Attempt sha n \<Longrightarrow> w_flight w sha = None \<Longrightarrow>
    cstep w (goto i (Joined sha n) (w\<lparr>w_flight := (w_flight w)(sha \<mapsto> Started)\<rparr>))"
| join: "w_phase w i = Attempt sha n \<Longrightarrow> w_flight w sha \<noteq> None \<Longrightarrow> cstep w (goto i (Joined sha n) w)"
| recheck_hit: "w_flight w sha = Some Started \<Longrightarrow> ca_entries (w_cache w) sha \<noteq> None \<Longrightarrow>
    cstep w (land sha (Downloaded sha) w)"
| recheck_miss: "w_flight w sha = Some Started \<Longrightarrow> ca_entries (w_cache w) sha = None \<Longrightarrow>
    cstep w (withCache (removeDir sha) (w\<lparr>w_flight := (w_flight w)(sha \<mapsto> Cleared)\<rparr>))"
| download: "w_flight w sha = Some Cleared \<Longrightarrow>
    cstep w (withCache (\<lambda>c. c\<lparr>ca_disk := insert sha (ca_disk c)\<rparr>) (w\<lparr>w_flight := (w_flight w)(sha \<mapsto> Extracted path)\<rparr>))"
| download_fails: "w_flight w sha = Some Cleared \<Longrightarrow>
    cstep w (land sha (\<lambda>n. AttemptFailed sha n (wrap ''failed to download and extract archive'' err)) w)"
| store: "w_flight w sha = Some (Extracted path) \<Longrightarrow>
    cstep w (land sha (Downloaded sha) (withCache (storeEntry (w_now w) sha path) w))"
| take: "w_phase w i = Downloaded sha n \<Longrightarrow> cache_acquire (w_now w) sha (w_cache w) = (Some path, c) \<Longrightarrow>
    cstep w (goto i (Holding sha path) (withCache (\<lambda>_. c) w))"
| evicted: "w_phase w i = Downloaded sha n \<Longrightarrow> cache_acquire (w_now w) sha (w_cache w) = (None, c) \<Longrightarrow>
    cstep w (goto i (AttemptFailed sha n [TextCause ''archive was evicted before it could be used'']) w)"
| retry: "w_phase w i = AttemptFailed sha n err \<Longrightarrow> isRetriableDownloadError ctxErr (Some err) \<Longrightarrow>
    Suc n < maxDownloadAttempts \<Longrightarrow> cstep w (goto i (Attempt sha (Suc n)) w)"
| interrupted: "w_phase w i = AttemptFailed sha n err \<Longrightarrow> isRetriableDownloadError ctxErr (Some err) \<Longrightarrow>
    Suc n < maxDownloadAttempts \<Longrightarrow> cstep w (goto i Idle w)"
| give_up: "w_phase w i = AttemptFailed sha n err \<Longrightarrow>
    \<not> isRetriableDownloadError ctxErr (Some err) \<or> \<not> Suc n < maxDownloadAttempts \<Longrightarrow>
    cstep w (goto i (GivingUp sha err) w)"
| remove: "w_phase w i = GivingUp sha err \<Longrightarrow>
    cstep w (goto i Idle (withCache (removeDir sha) (w\<lparr>w_removed := insert sha (w_removed w)\<rparr>)))"
| release: "w_phase w i = Holding sha path \<Longrightarrow>
    cstep w (goto i Idle (withCache (cache_Release (w_now w) sha) w))"
| cleanup: "cstep w (withCache (cleanupStaleArchives (w_now w)) w)"

inductive creachable :: "int \<Rightarrow> world \<Rightarrow> bool" for ttl where
  start: "creachable ttl (new_world ttl)"
| step: "creachable ttl w \<Longrightarrow> cstep w w' \<Longrightarrow> creachable ttl w'"

section \<open>The invariant\<close>

definition holders :: "world \<Rightarrow> string \<Rightarrow> nat set" where
  "holders w sha = {i. \<exists>path. w_phase w i = Holding sha path}"

definition held_at :: "world \<Rightarrow> string \<Rightarrow> bool" where
  "held_at w sha = (case ca_entries (w_cache w) sha of
     None \<Rightarrow> holders w sha = {}
   | Some e \<Rightarrow> finite (holders w sha) \<and> ce_refCount e = int (card (holders w sha)) \<and>
       (\<forall>i path. w_phase w i = Holding sha path \<longrightarrow> path = ce_extractedPath e))"

definition held_ok :: "world \<Rightarrow> bool" where
  "held_ok w = (\<forall>sha. held_at w sha)"

lemma held_at_simps:
  "ca_entries (w_cache w) sha = None \<Longrightarrow> held_at w sha = (holders w sha = {})"
  "ca_entries (w_cache w) sha = Some e \<Longrightarrow> held_at w sha =
    (finite (holders w sha) \<and> ce_refCount e = int (card (holders w sha)) \<and>
     (\<forall>i path. w_phase w i = Holding sha path \<longrightarrow> path = ce_extractedPath e))"
  by (simp_all add: held_at_def)

definition flight_at :: "world \<Rightarrow> string \<Rightarrow> bool" where
  "flight_at w sha = (case w_flight w sha of
     Some Cleared \<Rightarrow> ca_entries (w_cache w) sha = None
   | Some (Extracted _) \<Rightarrow> ca_entries (w_cache w) sha = None \<and> (sha \<in> ca_disk (w_cache w) \<or> sha \<in> w_removed w)
   | _ \<Rightarrow> True)"

definition flight_ok :: "world \<Rightarrow> bool" where
  "flight_ok w = (\<forall>sha. flight_at w sha)"

definition disk_ok :: "world \<Rightarrow> bool" where
  "disk_ok w = (\<forall>sha. ca_entries (w_cache w) sha \<noteq> None \<longrightarrow> sha \<in> ca_disk (w_cache w) \<or> sha \<in> w_removed w)"

lemma acquire_cases:
  "cache_acquire now sha c = (Some path, c') \<longleftrightarrow>
    (\<exists>e. ca_entries c sha = Some e \<and> path = ce_extractedPath e \<and>
      c' = c\<lparr>ca_entries := (ca_entries c)(sha \<mapsto> e\<lparr>ce_refCount := ce_refCount e + 1, ce_lastUsed := now\<rparr>)\<rparr>)"
  "cache_acquire now sha c = (None, c') \<longleftrightarrow> ca_entries c sha = None \<and> c' = c"
  by (auto simp: cache_acquire_def split: option.splits)

lemma holders_goto:
  "holders (goto i p w) sha = (case p of
     Holding s _ \<Rightarrow> if s = sha then insert i (holders w sha) else holders w sha - {i}
   | _ \<Rightarrow> holders w sha - {i})"
  by (auto simp: holders_def goto_def split: phase.splits)

lemma holders_same [simp]:
  "holders (withCache f w) = holders w" "holders (w\<lparr>w_flight := fl\<rparr>) = holders w"
  "holders (w\<lparr>w_now := t\<rparr>) = holders w" "holders (w\<lparr>w_removed := r\<rparr>) = holders w"
  by (auto simp: holders_def withCache_def fun_eq_iff)

lemma land_fields [simp]:
  "w_cache (land sha r w) = w_cache w" "w_removed (land sha r w) = w_removed w"
  "w_flight (land sha r w) = (w_flight w)(sha := None)" "w_now (land sha r w) = w_now w"
  by (simp_all add: land_def)

lemma goto_fields [simp]:
  "w_cache (goto i p w) = w_cache w" "w_removed (goto i p w) = w_removed w"
  "w_flight (goto i p w) = w_flight w" "w_phase (goto i p w) = (w_phase w)(i := p)"
  by (simp_all add: goto_def)

lemma withCache_fields [simp]:
  "w_cache (withCache f w) = f (w_cache w)" "w_removed (withCache f w) = w_removed w"
  "w_flight (withCache f w) = w_flight w" "w_phase (withCache f w) = w_phase w"
  by (simp_all add: withCache_def)

lemma removeDir_entries [simp]: "ca_entries (removeDir sha c) = ca_entries c"
  by (simp add: removeDir_def)

lemma land_holding:
  "(\<And>n s p. result n \<noteq> Holding s p) \<Longrightarrow>
    w_phase (land sha result w) i = Holding s path \<longleftrightarrow> w_phase w i = Holding s path"
  by (cases "w_phase w i") (auto simp: land_def)

lemma held_at_cong:
  assumes "\<And>i p. w_phase w' i = Holding s p \<longleftrightarrow> w_phase w i = Holding s p"
    and "ca_entries (w_cache w') s = ca_entries (w_cache w) s"
  shows "held_at w' s = held_at w s"
proof -
  have "holders w' s = holders w s" using assms(1) by (simp add: holders_def)
  then show ?thesis unfolding held_at_def assms(2) using assms(1) by (simp split: option.split)
qed

lemma held_cong:
  assumes "\<And>i s p. w_phase w' i = Holding s p \<longleftrightarrow> w_phase w i = Holding s p"
    and "ca_entries (w_cache w') = ca_entries (w_cache w)"
  shows "held_ok w' = held_ok w"
proof -
  have "held_at w' s = held_at w s" for s by (rule held_at_cong) (simp_all add: assms)
  then show ?thesis by (simp add: held_ok_def)
qed

lemma held_free: "held_ok w \<Longrightarrow> ca_entries (w_cache w) sha = None \<Longrightarrow> w_phase w i \<noteq> Holding sha p"
  using held_at_simps(1)[of w sha] by (auto simp: held_ok_def holders_def)

lemma held_acquire:
  assumes "held_ok w" "\<And>s p. w_phase w i \<noteq> Holding s p" "ca_entries (w_cache w) sha = Some e"
  shows "held_ok (goto i (Holding sha (ce_extractedPath e)) (withCache (\<lambda>c. c\<lparr>ca_entries := (ca_entries c)
    (sha \<mapsto> e\<lparr>ce_refCount := ce_refCount e + 1, ce_lastUsed := now\<rparr>)\<rparr>) w))" (is "held_ok ?w")
  unfolding held_ok_def
proof
  fix s
  have i: "i \<notin> holders w sha" using assms(2) by (simp add: holders_def)
  have w: "held_at w s" "held_at w sha" using assms(1) by (simp_all add: held_ok_def)
  show "held_at ?w s"
  proof (cases "s = sha")
    case True
    then show ?thesis using w(2) i assms(3)
      by (subst held_at_simps(2)) (auto simp: held_at_simps(2) holders_goto)
  next
    case False
    then have "held_at ?w s = held_at w s" using assms(2) by (intro held_at_cong) auto
    then show ?thesis using w(1) by simp
  qed
qed

lemma held_release:
  assumes "held_ok w" "w_phase w i = Holding sha path"
  shows "held_ok (goto i Idle (withCache (cache_Release now sha) w))" (is "held_ok ?w")
  unfolding held_ok_def
proof
  fix s
  have i: "i \<in> holders w sha" using assms(2) by (simp add: holders_def)
  have w: "held_at w s" "held_at w sha" using assms(1) by (simp_all add: held_ok_def)
  obtain e where e: "ca_entries (w_cache w) sha = Some e"
    using held_free[OF assms(1)] assms(2) by (cases "ca_entries (w_cache w) sha") auto
  show "held_at ?w s"
  proof (cases "s = sha")
    case True
    have h: "finite (holders w sha)" "ce_refCount e = int (card (holders w sha))" using w(2) e by (simp_all add: held_at_simps(2))
    then have c: "card (holders w sha) > 0" using i by (auto simp: card_gt_0_iff)
    then have "ca_entries (w_cache ?w) s = Some (e\<lparr>ce_refCount := ce_refCount e - 1, ce_lastUsed := now\<rparr>)"
      using True e h by (simp add: cache_Release_def)
    then show ?thesis using True w(2) i e h
      by (subst held_at_simps(2)) (use c in \<open>auto simp: held_at_simps(2) holders_goto of_nat_diff\<close>)
  next
    case False
    then have "held_at ?w s = held_at w s"
      using assms(2) e by (intro held_at_cong) (auto simp: cache_Release_def)
    then show ?thesis using w(1) by simp
  qed
qed

lemma held_store:
  assumes "held_ok w" "ca_entries (w_cache w) sha = None"
  shows "held_ok (withCache (storeEntry now sha path) w)" (is "held_ok ?w")
  unfolding held_ok_def
proof
  fix s
  have w: "held_at w s" using assms(1) by (simp add: held_ok_def)
  have "holders w sha = {}" using held_free[OF assms] by (simp add: holders_def)
  moreover have "held_at ?w s = held_at w s" if "s \<noteq> sha"
    using that by (intro held_at_cong) (auto simp: storeEntry_def)
  ultimately show "held_at ?w s" using w held_free[OF assms]
    by (cases "s = sha") (auto simp: held_at_def storeEntry_def)
qed

lemma held_cleanup:
  assumes "held_ok w"
  shows "held_ok (withCache (cleanupStaleArchives now) w)" (is "held_ok ?w")
  unfolding held_ok_def
proof
  fix s
  have w: "held_at w s" using assms(1) by (simp add: held_ok_def)
  show "held_at ?w s"
  proof (cases "stale now (w_cache w) s")
    case True
    then have "holders w s = {}" using w by (auto simp: stale_def held_at_def split: option.splits)
    then show ?thesis using True by (subst held_at_simps(1)) (simp_all add: cleanupStaleArchives_def)
  next
    case False
    then have "held_at ?w s = held_at w s" by (intro held_at_cong) (auto simp: cleanupStaleArchives_def)
    then show ?thesis using w by simp
  qed
qed

lemma held_cstep: "cstep w w' \<Longrightarrow> held_ok w \<Longrightarrow> flight_ok w \<Longrightarrow> held_ok w'"
proof (induction rule: cstep.induct)
  case (hit w i sha path c)
  then show ?case using held_acquire[of w i sha] by (auto simp: acquire_cases withCache_def)
next
  case (take w i sha n path c)
  then show ?case using held_acquire[of w i sha] by (auto simp: acquire_cases withCache_def)
next
  case (store w sha path)
  then have "ca_entries (w_cache w) sha = None" by (auto simp: flight_ok_def flight_at_def dest!: spec[of _ sha])
  from held_store[OF store.prems(1) this, of "w_now w" path] show ?case
    by (subst held_cong[where w = "withCache (storeEntry (w_now w) sha path) w"]) (simp_all add: land_holding)
next
  case (release w i sha path)
  then show ?case by (intro held_release)
next
  case (cleanup w)
  then show ?case by (intro held_cleanup)
qed (subst held_cong, auto simp: land_holding)+

lemma flight_cstep_at:
  "cstep w w' \<Longrightarrow> flight_at w s \<and> (ca_entries (w_cache w) s \<noteq> None \<longrightarrow> s \<in> ca_disk (w_cache w) \<or> s \<in> w_removed w) \<Longrightarrow>
   flight_at w' s \<and> (ca_entries (w_cache w') s \<noteq> None \<longrightarrow> s \<in> ca_disk (w_cache w') \<or> s \<in> w_removed w')"
proof (induction rule: cstep.induct)
  case (release w i sha path)
  have "ca_entries (cache_Release (w_now w) sha (w_cache w)) s = None \<longleftrightarrow> ca_entries (w_cache w) s = None"
    "ca_disk (cache_Release (w_now w) sha (w_cache w)) = ca_disk (w_cache w)"
    by (auto simp: cache_Release_def Let_def split: option.split)
  then show ?case using release(2)
    by (cases "w_flight w s"; cases "the (w_flight w s)") (auto simp: flight_at_def)
next
  case (cleanup w)
  then show ?case
    by (cases "w_flight w s"; cases "the (w_flight w s)")
       (auto simp: flight_at_def cleanupStaleArchives_def stale_def split: option.splits)
qed (auto simp: flight_at_def acquire_cases storeEntry_def removeDir_def split: option.splits flight.splits)

lemma flight_cstep: "cstep w w' \<Longrightarrow> flight_ok w \<Longrightarrow> disk_ok w \<Longrightarrow> flight_ok w' \<and> disk_ok w'"
  using flight_cstep_at[of w w'] unfolding flight_ok_def disk_ok_def by blast

lemma creachable_ok: "creachable ttl w \<Longrightarrow> held_ok w \<and> flight_ok w \<and> disk_ok w"
proof (induction rule: creachable.induct)
  case start
  show ?case by (simp add: held_ok_def held_at_def flight_ok_def flight_at_def disk_ok_def new_world_def NewCache_def holders_def)
next
  case (step w w')
  then show ?case using held_cstep flight_cstep by blast
qed

inductive_cases cstepE: "cstep w w'"

section \<open>Properties\<close>

text \<open>C17 In every interleaving of callers, downloads and clean-ups, the reference count of an archive is
  the number of callers that hold it, an archive somebody holds stays in the cache under the
  path they were given, the clean-up never removes it, and a cached archive is complete on disk
  unless a caller that gave up on the same key removed it.\<close>

theorem held_archives_stay_cached:
  assumes "creachable ttl w"
  shows "(case ca_entries (w_cache w) sha of
      None \<Rightarrow> holders w sha = {}
    | Some e \<Rightarrow> finite (holders w sha) \<and> ce_refCount e = int (card (holders w sha)) \<and>
        (sha \<in> ca_disk (w_cache w) \<or> sha \<in> w_removed w)) \<and>
    (w_phase w i = Holding sha path \<longrightarrow>
      (\<exists>e. ca_entries (w_cache w) sha = Some e \<and> ce_extractedPath e = path \<and> ce_refCount e > 0 \<and>
        ca_entries (cleanupStaleArchives now (w_cache w)) sha = Some e))"
proof -
  have ok: "held_at w sha" "disk_ok w" using creachable_ok[OF assms] by (simp_all add: held_ok_def)
  have "\<exists>e. ca_entries (w_cache w) sha = Some e \<and> ce_extractedPath e = path \<and> ce_refCount e > 0 \<and>
        ca_entries (cleanupStaleArchives now (w_cache w)) sha = Some e" if h: "w_phase w i = Holding sha path"
  proof -
    have i: "i \<in> holders w sha" using h by (auto simp: holders_def)
    then obtain e where e: "ca_entries (w_cache w) sha = Some e" using ok(1)
      by (cases "ca_entries (w_cache w) sha") (auto simp: held_at_simps(1))
    then have f: "finite (holders w sha)" "ce_refCount e = int (card (holders w sha))" "path = ce_extractedPath e"
      using ok(1) h by (auto simp: held_at_simps(2))
    then have "ce_refCount e > 0" using i by (auto simp: card_gt_0_iff)
    then show ?thesis using e f(3) by (simp add: cleanupStaleArchives_def stale_def)
  qed
  moreover have "case ca_entries (w_cache w) sha of
      None \<Rightarrow> holders w sha = {}
    | Some e \<Rightarrow> finite (holders w sha) \<and> ce_refCount e = int (card (holders w sha)) \<and>
        (sha \<in> ca_disk (w_cache w) \<or> sha \<in> w_removed w)"
    using ok by (auto simp: held_at_def disk_ok_def split: option.split)
  ultimately show ?thesis by blast
qed

text \<open>A run in which one caller downloads and holds the archive that another one gave up on.\<close>

lemmas cstep_moves = goto_def withCache_def land_def removeDir_def storeEntry_def cache_acquire_def

definition run_world :: "phase \<Rightarrow> phase \<Rightarrow> flight option \<Rightarrow> cache_entry option \<Rightarrow> string set \<Rightarrow> string set \<Rightarrow> world" where
  "run_world p q f e d r = \<lparr>w_cache = \<lparr>ca_entries = (\<lambda>s. if s = ''k'' then e else None), ca_disk = d, ca_ttl = 3600\<rparr>,
     w_flight = (\<lambda>s. if s = ''k'' then f else None),
     w_phase = (\<lambda>i. if i = 0 then p else if i = 1 then q else Idle), w_now = 0, w_removed = r\<rparr>"

definition failed_err :: archive_error where
  "failed_err = wrap ''failed to download and extract archive'' [ExtractCause]"

abbreviation entry0 :: "int \<Rightarrow> cache_entry" where
  "entry0 n \<equiv> \<lparr>ce_extractedPath = ''p'', ce_lastUsed = 0, ce_refCount = n\<rparr>"

lemma run_moves:
  "cstep (run_world Idle q f None d r) (run_world (Attempt ''k'' 0) q f None d r)"
  "cstep (run_world (Attempt ''k'' 0) q None e d r) (run_world (Joined ''k'' 0) q (Some Started) e d r)"
  "cstep (run_world p q (Some Started) None d r) (run_world p q (Some Cleared) None (d - {''k''}) r)"
  "cstep (run_world (Joined ''k'' 0) Idle (Some Cleared) e d r) (run_world (AttemptFailed ''k'' 0 failed_err) Idle None e d r)"
  "cstep (run_world (AttemptFailed ''k'' 0 failed_err) q f e d r) (run_world (GivingUp ''k'' failed_err) q f e d r)"
  "cstep (run_world (GivingUp ''k'' x) Idle f None d r) (run_world (GivingUp ''k'' x) (Attempt ''k'' 0) f None d r)"
  "cstep (run_world (GivingUp ''k'' x) (Attempt ''k'' 0) None e d r) (run_world (GivingUp ''k'' x) (Joined ''k'' 0) (Some Started) e d r)"
  "cstep (run_world p q (Some Cleared) e d r) (run_world p q (Some (Extracted ''p'')) e (insert ''k'' d) r)"
  "cstep (run_world (GivingUp ''k'' x) (Joined ''k'' 0) (Some (Extracted ''p'')) None d r) (run_world (GivingUp ''k'' x) (Downloaded ''k'' 0) None (Some (entry0 0)) d r)"
  "cstep (run_world p (Downloaded ''k'' 0) f (Some (entry0 0)) d r) (run_world p (Holding ''k'' ''p'') f (Some (entry0 1)) d r)"
  "cstep (run_world (GivingUp ''k'' x) q f e d r) (run_world Idle q f e (d - {''k''}) (insert ''k'' r))"
proof -
  show "cstep (run_world Idle q f None d r) (run_world (Attempt ''k'' 0) q f None d r)"
    using cstep.miss[of "run_world Idle q f None d r" 0 "''k''"]
    by (auto simp: run_world_def cstep_moves failed_err_def isRetriableDownloadError_def wrap_def fun_eq_iff cong: if_cong
        elim!: back_subst[where P = "cstep _"])
  show "cstep (run_world (Attempt ''k'' 0) q None e d r) (run_world (Joined ''k'' 0) q (Some Started) e d r)"
    using cstep.lead[of "run_world (Attempt ''k'' 0) q None e d r" 0 "''k''" 0]
    by (auto simp: run_world_def cstep_moves failed_err_def isRetriableDownloadError_def wrap_def fun_eq_iff cong: if_cong
        elim!: back_subst[where P = "cstep _"])
  show "cstep (run_world p q (Some Started) None d r) (run_world p q (Some Cleared) None (d - {''k''}) r)"
    using cstep.recheck_miss[of "run_world p q (Some Started) None d r" "''k''"]
    by (auto simp: run_world_def cstep_moves failed_err_def isRetriableDownloadError_def wrap_def fun_eq_iff cong: if_cong
        elim!: back_subst[where P = "cstep _"])
  show "cstep (run_world (Joined ''k'' 0) Idle (Some Cleared) e d r) (run_world (AttemptFailed ''k'' 0 failed_err) Idle None e d r)"
    using cstep.download_fails[of "run_world (Joined ''k'' 0) Idle (Some Cleared) e d r" "''k''" "[ExtractCause]"]
    by (auto simp: run_world_def cstep_moves failed_err_def isRetriableDownloadError_def wrap_def fun_eq_iff cong: if_cong
        elim!: back_subst[where P = "cstep _"])
  show "cstep (run_world (AttemptFailed ''k'' 0 failed_err) q f e d r) (run_world (GivingUp ''k'' failed_err) q f e d r)"
    using cstep.give_up[of "run_world (AttemptFailed ''k'' 0 failed_err) q f e d r" 0 "''k''" 0 failed_err None]
    by (auto simp: run_world_def cstep_moves failed_err_def isRetriableDownloadError_def wrap_def fun_eq_iff cong: if_cong
        elim!: back_subst[where P = "cstep _"])
  show "cstep (run_world (GivingUp ''k'' x) Idle f None d r) (run_world (GivingUp ''k'' x) (Attempt ''k'' 0) f None d r)"
    using cstep.miss[of "run_world (GivingUp ''k'' x) Idle f None d r" 1 "''k''"]
    by (auto simp: run_world_def cstep_moves failed_err_def isRetriableDownloadError_def wrap_def fun_eq_iff cong: if_cong
        elim!: back_subst[where P = "cstep _"])
  show "cstep (run_world (GivingUp ''k'' x) (Attempt ''k'' 0) None e d r) (run_world (GivingUp ''k'' x) (Joined ''k'' 0) (Some Started) e d r)"
    using cstep.lead[of "run_world (GivingUp ''k'' x) (Attempt ''k'' 0) None e d r" 1 "''k''" 0]
    by (auto simp: run_world_def cstep_moves failed_err_def isRetriableDownloadError_def wrap_def fun_eq_iff cong: if_cong
        elim!: back_subst[where P = "cstep _"])
  show "cstep (run_world p q (Some Cleared) e d r) (run_world p q (Some (Extracted ''p'')) e (insert ''k'' d) r)"
    using cstep.download[of "run_world p q (Some Cleared) e d r" "''k''" "''p''"]
    by (auto simp: run_world_def cstep_moves failed_err_def isRetriableDownloadError_def wrap_def fun_eq_iff cong: if_cong
        elim!: back_subst[where P = "cstep _"])
  show "cstep (run_world (GivingUp ''k'' x) (Joined ''k'' 0) (Some (Extracted ''p'')) None d r) (run_world (GivingUp ''k'' x) (Downloaded ''k'' 0) None (Some (entry0 0)) d r)"
    using cstep.store[of "run_world (GivingUp ''k'' x) (Joined ''k'' 0) (Some (Extracted ''p'')) None d r" "''k''" "''p''"]
    by (auto simp: run_world_def cstep_moves failed_err_def isRetriableDownloadError_def wrap_def fun_eq_iff cong: if_cong
        elim!: back_subst[where P = "cstep _"])
  show "cstep (run_world p (Downloaded ''k'' 0) f (Some (entry0 0)) d r) (run_world p (Holding ''k'' ''p'') f (Some (entry0 1)) d r)"
    using cstep.take[of "run_world p (Downloaded ''k'' 0) f (Some (entry0 0)) d r" 1 "''k''" 0]
    by (auto simp: run_world_def cstep_moves failed_err_def isRetriableDownloadError_def wrap_def fun_eq_iff cong: if_cong
        elim!: back_subst[where P = "cstep _"])
  show "cstep (run_world (GivingUp ''k'' x) q f e d r) (run_world Idle q f e (d - {''k''}) (insert ''k'' r))"
    using cstep.remove[of "run_world (GivingUp ''k'' x) q f e d r" 0 "''k''" x]
    by (auto simp: run_world_def cstep_moves failed_err_def isRetriableDownloadError_def wrap_def fun_eq_iff cong: if_cong
        elim!: back_subst[where P = "cstep _"])
qed

lemma run_start: "run_world Idle Idle None None {} {} = new_world 3600"
  by (simp add: run_world_def new_world_def NewCache_def fun_eq_iff)

text \<open>One caller fails to extract the archive; a second one downloads it and holds it.\<close>

lemma run_holding:
  "creachable 3600 (run_world (GivingUp ''k'' failed_err) (Holding ''k'' ''p'') None (Some (entry0 1)) {''k''} {})"
proof -
  let ?r = "creachable 3600" and ?g = "\<lambda>q f e d. run_world (GivingUp ''k'' failed_err) q f e d {}"
  have "?r (run_world Idle Idle None None {} {})" using creachable.start[of 3600] by (simp add: run_start)
  from creachable.step[OF this run_moves(1)] have "?r (run_world (Attempt ''k'' 0) Idle None None {} {})" by simp
  from creachable.step[OF this run_moves(2)] have "?r (run_world (Joined ''k'' 0) Idle (Some Started) None {} {})" by simp
  from creachable.step[OF this run_moves(3)] have "?r (run_world (Joined ''k'' 0) Idle (Some Cleared) None {} {})" by simp
  from creachable.step[OF this run_moves(4)] have "?r (run_world (AttemptFailed ''k'' 0 failed_err) Idle None None {} {})" by simp
  from creachable.step[OF this run_moves(5)] have "?r (?g Idle None None {})" by simp
  from creachable.step[OF this run_moves(6)] have "?r (?g (Attempt ''k'' 0) None None {})" by simp
  from creachable.step[OF this run_moves(7)] have "?r (?g (Joined ''k'' 0) (Some Started) None {})" by simp
  from creachable.step[OF this run_moves(3)] have "?r (?g (Joined ''k'' 0) (Some Cleared) None {})" by simp
  from creachable.step[OF this run_moves(8)] have "?r (?g (Joined ''k'' 0) (Some (Extracted ''p'')) None {''k''})" by simp
  from creachable.step[OF this run_moves(9)] have "?r (?g (Downloaded ''k'' 0) None (Some (entry0 0)) {''k''})" by simp
  from creachable.step[OF this run_moves(10)] have "?r (?g (Holding ''k'' ''p'') None (Some (entry0 1)) {''k''})" by simp
  then show ?thesis .
qed

theorem held_archives_stay_cached_witness:
  "\<exists>e. ca_entries (w_cache (run_world (GivingUp ''k'' failed_err) (Holding ''k'' ''p'') None (Some (entry0 1)) {''k''} {})) ''k'' = Some e \<and>
    ce_refCount e > 0 \<and> ce_extractedPath e = ''p''"
  using held_archives_stay_cached[OF run_holding, of "''k''" 1 "''p''" 5000] by (auto simp: run_world_def)

text \<open>A caller that gives up removes the directory of the key without looking who uses it: another
  caller that has just downloaded the archive and holds it is left with a cached archive whose
  directory is gone.\<close>

theorem giving_up_removes_held_archive:
  "\<exists>w. creachable 3600 w \<and> w_phase w 1 = Holding ''k'' ''p'' \<and>
    (case ca_entries (w_cache w) ''k'' of None \<Rightarrow> False | Some e \<Rightarrow> ce_refCount e = 1) \<and> ''k'' \<notin> ca_disk (w_cache w)"
proof -
  have "creachable 3600 (run_world Idle (Holding ''k'' ''p'') None (Some (entry0 1)) {} {''k''})"
    using creachable.step[OF run_holding run_moves(11)] by simp
  then show ?thesis by (intro exI conjI) (assumption, simp_all add: run_world_def)
qed

end
