(* ===== verification/MsgMarkdown.thy ===== *)
theory MsgMarkdown
  imports Prelude GoStrings
begin

text \<open>
  The markdown state machine of \<open>pkg/msg/message.go\<close> and the two routines built on it:
  \<open>splitDetailsAtLines\<close>, which cuts the details of a check between lines into parts that
  render on their own, and \<open>cutShort\<close> of \<open>pkg/msg/split.go\<close>, which cuts a whole comment.
  \<open>mdState\<close> is a record, \<open>next\<close>, \<open>closer\<close>, \<open>opener\<close> are functions on it; the loop over the
  lines is a \<open>foldl\<close> over a record of the loop's variables, the inner loop that shrinks a
  long line is a recursive function whose termination proof is that every round leaves
  a shorter line.
\<close>

section \<open>The state: what is open at a line\<close>

record open_details =
  od_summary :: string
  od_hasSummary :: bool

record mdState =
  md_fence :: string
  md_fenceInfo :: string
  md_details :: "open_details list"

definition od_zero :: open_details where
  "od_zero = \<lparr>od_summary = [], od_hasSummary = False\<rparr>"

definition md_zero :: mdState where
  "md_zero = \<lparr>md_fence = [], md_fenceInfo = [], md_details = []\<rparr>"

definition maxCarriedSummary :: int where "maxCarriedSummary = 80"

definition detailsClose :: string where
  "detailsClose = nl # ''</details>'' @ [nl]"

definition lineTruncated :: string where
  "lineTruncated = ''... (line truncated)'' @ [nl]"

lemma lineTruncated_len [simp]: "length lineTruncated = 21"
  by (simp add: lineTruncated_def)

lemma detailsClose_len [simp]: "length detailsClose = 12"
  by (simp add: detailsClose_def)

fun back_to_rune :: "string \<Rightarrow> nat \<Rightarrow> nat" where
  "back_to_rune s 0 = 0"
| "back_to_rune s (Suc n) = (if rune_start (s ! Suc n) then Suc n else back_to_rune s n)"

definition cutAtRune :: "string \<Rightarrow> int \<Rightarrow> string" where
  "cutAtRune s n = (if n \<ge> slen s then s else take (back_to_rune s (nat (max n 0))) s)"

definition fenceOf :: "string \<Rightarrow> string \<times> string" where
  "fenceOf line =
    (let trimmed = trim_left line '' '' in
     if length line - length trimmed > 3 then ([], [])
     else let rest = trim_left trimmed ''`'' in
       if length trimmed - length rest < 3 then ([], [])
       else (take (length trimmed - length rest) trimmed, trim_space rest))"

fun scanDetails :: "string \<Rightarrow> open_details list \<Rightarrow> open_details list" where
  "scanDetails [] ds = ds"
| "scanDetails (c # cs) ds = scanDetails cs
    (if has_prefix (c # cs) ''<details>'' \<or> has_prefix (c # cs) ''<details '' then ds @ [od_zero]
     else if has_prefix (c # cs) ''</details>'' \<and> ds \<noteq> [] then butlast ds
     else ds)"

definition carriedSummary :: "string \<Rightarrow> string option" where
  "carriedSummary line =
    (case str_cut line ''<summary>'' of
       None \<Rightarrow> None
     | Some (_, rest) \<Rightarrow> (case str_cut rest ''</summary>'' of
         None \<Rightarrow> None
       | Some (txt, _) \<Rightarrow> Some (cutAtRune txt maxCarriedSummary)))"

definition readSummary :: "string \<Rightarrow> open_details list \<Rightarrow> open_details list" where
  "readSummary line ds =
    (if ds \<noteq> [] \<and> \<not> od_hasSummary (last ds) then
       (case carriedSummary line of
          None \<Rightarrow> ds
        | Some txt \<Rightarrow> butlast ds @ [\<lparr>od_summary = txt, od_hasSummary = True\<rparr>])
     else ds)"

definition md_next :: "mdState \<Rightarrow> string \<Rightarrow> mdState" where
  "md_next s line =
    (let (marker, info) = fenceOf line in
     if md_fence s \<noteq> [] then
       (if info = [] \<and> length marker \<ge> length (md_fence s)
        then s\<lparr>md_fence := [], md_fenceInfo := []\<rparr> else s)
     else if marker \<noteq> [] then s\<lparr>md_fence := marker, md_fenceInfo := info\<rparr>
     else s\<lparr>md_details := readSummary line (scanDetails line (md_details s))\<rparr>)"

definition closerLen :: "mdState \<Rightarrow> int" where
  "closerLen s = slen (md_details s) * slen detailsClose +
     (if md_fence s \<noteq> [] then slen (md_fence s) + 1 else 0)"

definition closer :: "mdState \<Rightarrow> string" where
  "closer s = (if md_fence s \<noteq> [] then md_fence s @ [nl] else []) @
     concat (map (\<lambda>_. detailsClose) (md_details s))"

definition openerOf :: "open_details \<Rightarrow> string" where
  "openerOf d = ''<details>'' @ [nl] @
     (if od_hasSummary d then ''<summary>'' @ od_summary d @ '' (continued)</summary>'' @ [nl, nl] else [])"

definition opener :: "mdState \<Rightarrow> string" where
  "opener s = concat (map openerOf (md_details s)) @
     (if md_fence s \<noteq> [] then md_fence s @ md_fenceInfo s @ [nl] else [])"

definition md_run :: "mdState \<Rightarrow> string list \<Rightarrow> mdState" where
  "md_run = foldl md_next"

lemma md_run_simps [simp]:
  "md_run s [] = s"
  "md_run s (l # ls) = md_run (md_next s l) ls"
  "md_run s (ls @ ls') = md_run (md_run s ls) ls'"
  by (simp_all add: md_run_def)

lemma opener_zero [simp]: "opener md_zero = []"
  by (simp add: opener_def md_zero_def)

section \<open>Cutting a line at a rune boundary\<close>

lemma back_to_rune_le: "back_to_rune s n \<le> n"
  by (induction s n rule: back_to_rune.induct) auto

lemma cutAtRune_len_le: "0 \<le> n \<Longrightarrow> slen (cutAtRune s n) \<le> n"
proof (cases "n \<ge> slen s")
  case False
  assume "0 \<le> n"
  have "length (cutAtRune s n) \<le> back_to_rune s (nat n)"
    using False \<open>0 \<le> n\<close> by (simp add: cutAtRune_def max_def)
  also have "\<dots> \<le> nat n" by (rule back_to_rune_le)
  finally show ?thesis using \<open>0 \<le> n\<close> by linarith
qed (simp add: cutAtRune_def)

lemma cutAtRune_le_length: "length (cutAtRune s n) \<le> length s"
  by (simp add: cutAtRune_def)

lemma cutAtRune_take: "\<exists>k. cutAtRune s n = take k s"
  unfolding cutAtRune_def by (metis order_refl take_all)

lemma cutAtRune_prefix: "prefix (cutAtRune s n) s"
  using cutAtRune_take[of s n] take_is_prefix by metis

lemma cutAtRune_nonpos: "n \<le> 0 \<Longrightarrow> cutAtRune s n = []"
  by (cases s) (auto simp: cutAtRune_def)

section \<open>Cutting the details of a check between lines\<close>

lemma shrink_decreases:
  assumes "slen line > room" "\<not> room < slen lineTruncated"
  shows "length (cutAtRune line (room - slen lineTruncated) @ lineTruncated) < length line"
  using cutAtRune_len_le[of "room - slen lineTruncated" line] assms by simp

function shrinkLine :: "int \<Rightarrow> int \<Rightarrow> mdState \<Rightarrow> string \<Rightarrow> mdState \<Rightarrow> string \<times> mdState" where
  "shrinkLine maxLen bufLen state line after =
    (let room = maxLen - bufLen - closerLen after in
     if slen line > room then
       if room < slen lineTruncated then (lineTruncated, state)
       else let line' = cutAtRune line (room - slen lineTruncated) @ lineTruncated
            in shrinkLine maxLen bufLen state line' (md_next state line')
     else (line, after))"
  by pat_completeness auto

termination
  by (relation "measure (\<lambda>(_, _, _, line, _). length line)") (use shrink_decreases in auto)

declare shrinkLine.simps [simp del]

record split_state =
  sp_parts :: "string list"
  sp_buf :: string
  sp_md :: mdState
  sp_has :: bool

definition split_init :: split_state where
  "split_init = \<lparr>sp_parts = [], sp_buf = [], sp_md = md_zero, sp_has = False\<rparr>"

definition splitFlush :: "int \<Rightarrow> mdState \<Rightarrow> string \<Rightarrow> split_state \<Rightarrow> split_state" where
  "splitFlush maxLen after line st =
    (if sp_has st \<and> slen (sp_buf st) + slen line + closerLen after > maxLen
     then st\<lparr>sp_parts := sp_parts st @ [sp_buf st @ closer (sp_md st)], sp_buf := opener (sp_md st)\<rparr>
     else st)"

definition splitLine :: "int \<Rightarrow> split_state \<Rightarrow> string \<Rightarrow> split_state" where
  "splitLine maxLen st line =
    (if line = [] then st
     else let after = md_next (sp_md st) line;
              st1 = splitFlush maxLen after line st;
              (line', after') = shrinkLine maxLen (slen (sp_buf st1)) (sp_md st1) line after
          in st1\<lparr>sp_buf := sp_buf st1 @ line', sp_md := after', sp_has := True\<rparr>)"

lemma splitLine_Nil [simp]: "splitLine maxLen st [] = st"
  by (simp add: splitLine_def)

definition splitDetailsAtLines :: "string \<Rightarrow> int \<Rightarrow> string list" where
  "splitDetailsAtLines content maxLen =
    (if maxLen \<le> 0 \<or> slen content \<le> maxLen then [content]
     else let st = foldl (splitLine maxLen) split_init (split_after_nl content)
          in if sp_has st then sp_parts st @ [sp_buf st @ closer (sp_md st)] else sp_parts st)"

section \<open>Cutting a comment short\<close>

definition cutShortNote :: string where
  "cutShortNote = [nl, nl] @ ''**Warning**: This comment was too long and was cut short.''"

function cutShortLoop :: "string \<Rightarrow> int \<Rightarrow> int \<Rightarrow> int \<Rightarrow> string" where
  "cutShortLoop markdown maxLen budget room =
    (if room > 0 then
       let cut = cutAtRune markdown room;
           state = md_run md_zero (split_after_nl cut);
           closr = nl # closer state;
           over = slen cut + slen closr - budget
       in if over > 0 then cutShortLoop markdown maxLen budget (room - over)
          else cut @ closr @ cutShortNote
     else cutAtRune markdown maxLen)"
  by pat_completeness auto

termination
  by (relation "measure (\<lambda>(_, _, _, room). nat room)") auto

declare cutShortLoop.simps [simp del]

definition cutShort :: "string \<Rightarrow> int \<Rightarrow> string" where
  "cutShort markdown maxLen =
    (let budget = maxLen - slen cutShortNote in cutShortLoop markdown maxLen budget budget)"

section \<open>What a part is made of\<close>

lemma closer_length: "slen (closer s) = closerLen s"
  by (simp add: closer_def closerLen_def length_concat comp_def sum_list_triv)

lemma closerLen_nonneg [simp]: "0 \<le> closerLen s"
  by (simp add: closerLen_def)

lemma shrinkLine_fits:
  assumes "slen line \<le> maxLen - bufLen - closerLen after"
  shows "shrinkLine maxLen bufLen s line after = (line, after)"
  using assms by (subst shrinkLine.simps) simp

text \<open>The line that is written is the line itself or a cut of it that says so, and the state
  that goes with it is the state after what is written; the one exception is the line that
  has no room at all, which is replaced whole and does not move the state.\<close>

definition cutOf :: "string \<Rightarrow> string \<Rightarrow> bool" where
  "cutOf line line' = (line' = line \<or>
     has_suffix line' lineTruncated \<and> strict_prefix (take (length line' - length lineTruncated) line') line)"

lemma cutOf_refl [simp]: "cutOf line line"
  by (simp add: cutOf_def)

lemma cutOf_cut [simp]: "strict_prefix p line \<Longrightarrow> cutOf line (p @ lineTruncated)"
  by (simp add: cutOf_def)

lemma cutOf_cases:
  assumes "cutOf line line'"
  obtains "line' = line" | p where "strict_prefix p line" "line' = p @ lineTruncated"
  using assms unfolding cutOf_def has_suffix_iff by force

lemma cutAtRune_shorter:
  assumes "n < slen p"
  shows "prefix (cutAtRune (p @ t) n) p"
proof -
  have "back_to_rune (p @ t) (nat (max n 0)) \<le> nat (max n 0)" by (rule back_to_rune_le)
  also have "\<dots> \<le> length p" using assms by simp
  finally show ?thesis using assms by (auto simp: cutAtRune_def take_is_prefix)
qed

lemma cutAtRune_strict:
  assumes "n < slen s" "s \<noteq> []"
  shows "strict_prefix (cutAtRune s n) s"
proof -
  have "back_to_rune s (nat (max n 0)) \<le> nat (max n 0)" by (rule back_to_rune_le)
  also have "\<dots> < length s" using assms by (simp add: nat_less_iff)
  finally have "length (cutAtRune s n) < length s" using assms by (simp add: cutAtRune_def)
  then show ?thesis using cutAtRune_prefix[of s n] by (auto simp: strict_prefix_def)
qed

lemma cutOf_again:
  assumes "cutOf line0 line" and "n < slen line - slen lineTruncated" "0 \<le> n"
  shows "cutOf line0 (cutAtRune line n @ lineTruncated)"
  using assms(1)
proof (cases rule: cutOf_cases)
  case 1
  have "strict_prefix (cutAtRune line n) line" using assms(2,3) by (intro cutAtRune_strict) auto
  then show ?thesis using 1 by simp
next
  case (2 p)
  then have "prefix (cutAtRune line n) p" using assms(2) cutAtRune_shorter by simp
  then show ?thesis using 2 prefix_order.le_less_trans by (intro cutOf_cut) blast
qed

lemma fenceOf_lineTruncated [simp]: "fenceOf lineTruncated = ([], [])"
  by (simp add: fenceOf_def lineTruncated_def trim_left_def)

lemma scanDetails_plain: "CHR ''<'' \<notin> set line \<Longrightarrow> scanDetails line ds = ds"
  by (induction line ds rule: scanDetails.induct) (auto simp: has_prefix_def take_Cons')

lemma str_index_no_head:
  "p \<noteq> [] \<Longrightarrow> hd p \<notin> set s \<Longrightarrow> str_index s p = None"
proof (induction s p rule: str_index.induct)
  case (2 c s p)
  then show ?case by (cases p) auto
qed auto

lemma carriedSummary_plain: "CHR ''<'' \<notin> set line \<Longrightarrow> carriedSummary line = None"
  by (simp add: carriedSummary_def str_cut_def str_index_no_head)

lemma md_next_plain:
  assumes "fst (fenceOf line) = []" "CHR ''<'' \<notin> set line"
  shows "md_next s line = s \<or> md_fence s \<noteq> [] \<and> md_next s line = s"
  using assms
  by (auto simp: md_next_def readSummary_def carriedSummary_plain scanDetails_plain split: prod.splits)

lemma md_next_lineTruncated [simp]: "md_next s lineTruncated = s"
  using md_next_plain[of lineTruncated s] by (auto simp: lineTruncated_def[symmetric]) (auto simp: lineTruncated_def)

lemma shrinkLine_cutOf:
  assumes "shrinkLine maxLen bufLen s line (md_next s line) = (line', after')"
    and "cutOf line0 line" "line0 \<noteq> []"
  shows "after' = md_next s line' \<and> cutOf line0 line'"
  using assms
proof (induction maxLen bufLen s line "md_next s line" rule: shrinkLine.induct)
  case (1 maxLen bufLen state line)
  let ?room = "maxLen - bufLen - closerLen (md_next state line)"
  show ?case
  proof (cases "slen line > ?room \<and> \<not> ?room < slen lineTruncated")
    case True
    let ?l = "cutAtRune line (?room - slen lineTruncated) @ lineTruncated"
    have "cutOf line0 ?l" using True 1(3) by (intro cutOf_again) auto
    moreover have "shrinkLine maxLen bufLen state ?l (md_next state ?l) = (line', after')"
      using 1(2) True by (subst (asm) shrinkLine.simps) (simp add: Let_def)
    ultimately show ?thesis using 1(1)[OF refl] 1(4) True by simp
  next
    case False
    have "cutOf line0 lineTruncated"
      using cutOf_cut[of "[]" line0] 1(4) by (cases line0) auto
    then show ?thesis
      using False 1(2-4)
      by (subst (asm) shrinkLine.simps) (auto simp: Let_def split: if_splits)
  qed
qed

lemma shrinkLine_nonempty:
  assumes "shrinkLine maxLen bufLen s line after = (line', after')" and "line \<noteq> []"
  shows "line' \<noteq> []"
  using assms
proof (induction maxLen bufLen s line after rule: shrinkLine.induct)
  case (1 maxLen bufLen state line after)
  have "lineTruncated \<noteq> []" by (metis length_0_conv lineTruncated_len numeral_eq_iff zero_neq_numeral)
  then show ?case
    using 1 by (subst (asm) (2) shrinkLine.simps) (auto simp: Let_def split: if_splits)
qed

text \<open>The reference of the splitter: groups of lines, each framed by what is open where the
  group starts and what is open where it ends.\<close>

definition frame :: "mdState \<Rightarrow> string list \<Rightarrow> string" where
  "frame s ls = opener s @ concat ls @ closer (md_run s ls)"

fun frames :: "mdState \<Rightarrow> string list list \<Rightarrow> string list" where
  "frames s [] = []"
| "frames s (g # gs) = frame s g # frames (md_run s g) gs"

lemma frames_append:
  "frames s (gs @ gs') = frames s gs @ frames (md_run s (concat gs)) gs'"
  by (induction gs arbitrary: s) auto


definition split_inv :: "split_state \<Rightarrow> string list \<Rightarrow> bool" where
  "split_inv st ls = (\<exists>gs g. sp_parts st = frames md_zero gs \<and> [] \<notin> set gs \<and>
     list_all2 cutOf ls (concat gs @ g) \<and> [] \<notin> set (concat gs @ g) \<and>
     sp_buf st = opener (md_run md_zero (concat gs)) @ concat g \<and>
     sp_md st = md_run md_zero (concat gs @ g) \<and>
     sp_has st = (g \<noteq> []) \<and> (g = [] \<longrightarrow> gs = []))"

lemma split_inv_init: "split_inv split_init []"
  unfolding split_inv_def split_init_def by (intro exI[of _ "[]"]) auto

lemma split_inv_flush:
  assumes "split_inv st ls" "st1 = splitFlush maxLen after line st"
  shows "\<exists>gs g. sp_parts st1 = frames md_zero gs \<and> [] \<notin> set gs \<and>
     list_all2 cutOf ls (concat gs @ g) \<and> [] \<notin> set (concat gs @ g) \<and>
     sp_buf st1 = opener (md_run md_zero (concat gs)) @ concat g \<and>
     sp_md st1 = md_run md_zero (concat gs @ g)"
proof -
  from assms(1) obtain gs g where i: "sp_parts st = frames md_zero gs" "[] \<notin> set gs"
    "list_all2 cutOf ls (concat gs @ g)" "[] \<notin> set (concat gs @ g)"
    "sp_buf st = opener (md_run md_zero (concat gs)) @ concat g"
    "sp_md st = md_run md_zero (concat gs @ g)" "sp_has st = (g \<noteq> [])"
    unfolding split_inv_def by blast
  show ?thesis
  proof (cases "st1 = st")
    case True
    then show ?thesis using i by blast
  next
    case False
    then have "g \<noteq> []" and st1: "st1 = st\<lparr>sp_parts := sp_parts st @ [sp_buf st @ closer (sp_md st)],
        sp_buf := opener (sp_md st)\<rparr>"
      using assms(2) i(7) by (auto simp: splitFlush_def split: if_splits)
    then show ?thesis using i
      by (intro exI[of _ "gs @ [g]"] exI[of _ "[]"]) (auto simp: frames_append frame_def)
  qed
qed

lemma split_inv_step:
  assumes "split_inv st ls" "line \<noteq> []"
  shows "split_inv (splitLine maxLen st line) (ls @ [line])"
proof -
  let ?after = "md_next (sp_md st) line"
  define st1 where "st1 = splitFlush maxLen ?after line st"
  obtain line' after' where sh:
    "shrinkLine maxLen (slen (sp_buf st1)) (sp_md st1) line ?after = (line', after')"
    by fastforce
  have md1: "sp_md st1 = sp_md st" by (auto simp: st1_def splitFlush_def)
  have l': "after' = md_next (sp_md st1) line'" "cutOf line line'"
    using shrinkLine_cutOf[of maxLen "slen (sp_buf st1)" "sp_md st1" line line' after' line] sh md1
      assms(2) by auto
  have ne: "line' \<noteq> []" using shrinkLine_nonempty[OF sh] assms(2) .
  obtain gs g where i: "sp_parts st1 = frames md_zero gs" "[] \<notin> set gs"
    "list_all2 cutOf ls (concat gs @ g)" "[] \<notin> set (concat gs @ g)"
    "sp_buf st1 = opener (md_run md_zero (concat gs)) @ concat g"
    "sp_md st1 = md_run md_zero (concat gs @ g)"
    using split_inv_flush[OF assms(1) st1_def] by blast
  have st': "splitLine maxLen st line = st1\<lparr>sp_buf := sp_buf st1 @ line', sp_md := after', sp_has := True\<rparr>"
    using assms(2) sh by (simp add: splitLine_def st1_def[symmetric] Let_def)
  have "list_all2 cutOf (ls @ [line]) (concat gs @ (g @ [line']))"
    using list_all2_appendI[OF i(3), of "[line]" "[line']"] l'(2) by simp
  then show ?thesis
    unfolding split_inv_def st' using i l' ne by (intro exI[of _ gs] exI[of _ "g @ [line']"]) auto
qed

lemma split_inv_foldl:
  "split_inv st ls \<Longrightarrow>
   split_inv (foldl (splitLine maxLen) st lines) (ls @ filter (\<lambda>l. l \<noteq> []) lines)"
proof (induction lines arbitrary: st ls)
  case (Cons l lines)
  show ?case
  proof (cases "l = []")
    case True
    then show ?thesis using Cons by (simp add: splitLine_def)
  next
    case False
    then show ?thesis using Cons.IH[OF split_inv_step[OF Cons.prems]] by simp
  qed
qed simp

definition contentLines :: "string \<Rightarrow> string list" where
  "contentLines content = filter (\<lambda>l. l \<noteq> []) (split_after_nl content)"

lemma concat_contentLines [simp]: "concat (contentLines content) = content"
proof -
  have "concat (filter (\<lambda>l. l \<noteq> []) ls) = concat ls" for ls :: "string list"
    by (induction ls) auto
  then show ?thesis by (simp add: contentLines_def)
qed

lemma splitDetails_frames:
  assumes "0 < maxLen" "maxLen < slen content"
  shows "\<exists>gs. splitDetailsAtLines content maxLen = frames md_zero gs \<and> [] \<notin> set gs \<and>
    list_all2 cutOf (contentLines content) (concat gs)"
proof -
  let ?st = "foldl (splitLine maxLen) split_init (split_after_nl content)"
  have "split_inv ?st (contentLines content)"
    using split_inv_foldl[OF split_inv_init] by (simp add: contentLines_def)
  then obtain gs g where i: "sp_parts ?st = frames md_zero gs" "[] \<notin> set gs"
    "list_all2 cutOf (contentLines content) (concat gs @ g)"
    "sp_buf ?st = opener (md_run md_zero (concat gs)) @ concat g"
    "sp_md ?st = md_run md_zero (concat gs @ g)" "sp_has ?st = (g \<noteq> [])"
    "g = [] \<longrightarrow> gs = []"
    unfolding split_inv_def by blast
  have r: "splitDetailsAtLines content maxLen =
      (if sp_has ?st then sp_parts ?st @ [sp_buf ?st @ closer (sp_md ?st)] else sp_parts ?st)"
    using assms by (simp add: splitDetailsAtLines_def Let_def)
  show ?thesis
  proof (cases "g = []")
    case True
    then show ?thesis using i r by (intro exI[of _ gs]) auto
  next
    case False
    then show ?thesis using i r
      by (intro exI[of _ "gs @ [g]"]) (auto simp: frames_append frame_def)
  qed
qed


section \<open>Every part renders on its own\<close>

text \<open>Where a part is rendered, the renderer starts with nothing open.  A part renders on its
  own when nothing is open at its end either.\<close>

definition md_closed :: "mdState \<Rightarrow> bool" where
  "md_closed s = (md_fence s = [] \<and> md_details s = [])"

definition rendersAlone :: "string \<Rightarrow> bool" where
  "rendersAlone p = md_closed (md_run md_zero (split_after_nl p))"

text \<open>A line the checks produce: the info of a fence line holds no backtick (as CommonMark
  requires of it) and a summary that may be carried over holds no tag.\<close>

definition line_fine :: "string \<Rightarrow> bool" where
  "line_fine l = (proper_line l \<and> CHR ''`'' \<notin> set (snd (fenceOf l)) \<and>
     (case carriedSummary l of None \<Rightarrow> True | Some t \<Rightarrow> CHR ''<'' \<notin> set t))"

definition md_shape :: "mdState \<Rightarrow> string \<times> bool list" where
  "md_shape s = (md_fence s, map od_hasSummary (md_details s))"

definition md_good :: "mdState \<Rightarrow> bool" where
  "md_good s = ((\<forall>d\<in>set (md_details s). CHR ''<'' \<notin> set (od_summary d) \<and> nl \<notin> set (od_summary d)) \<and>
     (md_fence s \<noteq> [] \<longrightarrow> 3 \<le> length (md_fence s) \<and> set (md_fence s) = {CHR ''`''} \<and>
        CHR ''`'' \<notin> set (md_fenceInfo s) \<and> nl \<notin> set (md_fenceInfo s)))"

subsection \<open>The shape of the state determines the shape after a line\<close>

lemma scanDetails_shape:
  "map od_hasSummary ds = map od_hasSummary es \<Longrightarrow>
   map od_hasSummary (scanDetails line ds) = map od_hasSummary (scanDetails line es)"
proof (induction line arbitrary: ds es)
  case (Cons c cs)
  have "ds = [] \<longleftrightarrow> es = []" using Cons.prems by auto
  then show ?case
    using Cons.prems by (auto intro!: Cons.IH simp: map_butlast)
qed simp

lemma readSummary_shape:
  assumes "map od_hasSummary ds = map od_hasSummary es"
  shows "map od_hasSummary (readSummary line ds) = map od_hasSummary (readSummary line es)"
proof (cases "ds = []")
  case False
  then have es: "es \<noteq> []" using assms by auto
  then have "od_hasSummary (last ds) = od_hasSummary (last es)"
    using False assms by (metis last_map)
  then show ?thesis
    using False es assms by (auto simp: readSummary_def map_butlast split: option.splits)
qed (use assms in \<open>auto simp: readSummary_def\<close>)

lemma md_next_shape: "md_shape s = md_shape t \<Longrightarrow> md_shape (md_next s l) = md_shape (md_next t l)"
  using readSummary_shape[OF scanDetails_shape, of "md_details s" "md_details t" l l]
  by (auto simp: md_shape_def md_next_def Let_def split: prod.splits)

lemma md_run_shape: "md_shape s = md_shape t \<Longrightarrow> md_shape (md_run s ls) = md_shape (md_run t ls)"
proof (induction ls arbitrary: s t)
  case (Cons l ls)
  show ?case using Cons.IH[OF md_next_shape[OF Cons.prems]] by simp
qed simp

lemma md_closed_shape: "md_closed s \<longleftrightarrow> md_shape s = ([], [])"
  by (auto simp: md_closed_def md_shape_def)


subsection \<open>Lines keep the state good\<close>

lemma fenceOf_marker:
  assumes "fenceOf line = (m, i)" "m \<noteq> []"
  shows "3 \<le> length m \<and> set m = {CHR ''`''}"
proof -
  let ?t = "trim_left line '' ''"
  let ?r = "trim_left ?t ''`''"
  have m: "m = take (length ?t - length ?r) ?t" "3 \<le> length ?t - length ?r"
    using assms by (auto simp: fenceOf_def Let_def split: if_splits)
  have tw: "?t = takeWhile (\<lambda>c. c \<in> set ''`'') ?t @ ?r" by (simp add: trim_left_def)
  then have "m = takeWhile (\<lambda>c. c \<in> set ''`'') ?t"
    using m(1) by (metis append_eq_conv_conj diff_add_inverse2 length_append)
  then have "set m \<subseteq> {CHR ''`''}" using set_takeWhileD by fastforce
  then have "set m = {CHR ''`''}" using assms(2) by (metis set_empty subset_singletonD)
  moreover have "3 \<le> length m" using m by simp
  ultimately show ?thesis by blast
qed

lemma fenceOf_info_suffix:
  assumes "fenceOf line = (m, i)" "m \<noteq> []"
  shows "\<exists>k. i = trim_space (drop k line)"
proof -
  have d: "\<exists>k. trim_left s cs = drop k s" for s cs
    unfolding trim_left_def using dropWhile_eq_drop by blast
  obtain k where k: "trim_left line '' '' = drop k line" using d by blast
  obtain j where "trim_left (trim_left line '' '') ''`'' = drop j (drop k line)" using d k by metis
  then have "i = trim_space (drop (j + k) line)"
    using assms by (auto simp: fenceOf_def Let_def split: if_splits)
  then show ?thesis by blast
qed

lemma fenceOf_info_no_nl:
  assumes "fenceOf line = (m, i)" "m \<noteq> []" "proper_line line"
  shows "nl \<notin> set i"
proof -
  obtain k where "i = trim_space (drop k line)" using fenceOf_info_suffix[OF assms(1,2)] by blast
  moreover have "nl \<notin> set (butlast (drop k line))"
    using assms(3) in_set_dropD[of nl k "butlast line"] by (auto simp: proper_line_def butlast_drop)
  ultimately show ?thesis using trim_space_no_nl by blast
qed

lemma scanDetails_set: "set (scanDetails line ds) \<subseteq> insert od_zero (set ds)"
proof (induction line ds rule: scanDetails.induct)
  case (2 c cs ds)
  then show ?case using in_set_butlastD[of _ ds] by (fastforce split: if_splits)
qed auto

lemma carriedSummary_no_nl:
  assumes "carriedSummary line = Some t" "proper_line line"
  shows "nl \<notin> set t"
proof -
  obtain a r x b where c: "str_cut line ''<summary>'' = Some (a, r)" "str_cut r ''</summary>'' = Some (x, b)"
    "t = cutAtRune x maxCarriedSummary"
    using assms(1) by (auto simp: carriedSummary_def split: option.splits prod.splits)
  have "line = (a @ ''<summary>'' @ x) @ ''</summary>'' @ b"
    using str_cut_Some[OF c(1)] str_cut_Some[OF c(2)] by simp
  then have "set x \<subseteq> set (butlast line)" by (simp only: butlast_append) auto
  then show ?thesis
    using assms(2) c(3) cutAtRune_prefix[of x maxCarriedSummary] set_mono_prefix
    by (fastforce simp: proper_line_def)
qed

lemma md_good_next:
  assumes "md_good s" "line_fine l"
  shows "md_good (md_next s l)"
proof -
  obtain m i where f: "fenceOf l = (m, i)" by fastforce
  have pl: "proper_line l" and i: "CHR ''`'' \<notin> set i"
    using assms(2) f by (auto simp: line_fine_def)
  have ds: "\<forall>d\<in>set (scanDetails l (md_details s)). CHR ''<'' \<notin> set (od_summary d) \<and> nl \<notin> set (od_summary d)"
  proof
    fix d assume "d \<in> set (scanDetails l (md_details s))"
    then have "d = od_zero \<or> d \<in> set (md_details s)" using scanDetails_set by blast
    then show "CHR ''<'' \<notin> set (od_summary d) \<and> nl \<notin> set (od_summary d)"
      using assms(1)[unfolded md_good_def, THEN conjunct1] by (elim disjE) (simp add: od_zero_def, blast)
  qed
  have "\<forall>d\<in>set (readSummary l es). CHR ''<'' \<notin> set (od_summary d) \<and> nl \<notin> set (od_summary d)"
    if es: "\<forall>d\<in>set es. CHR ''<'' \<notin> set (od_summary d) \<and> nl \<notin> set (od_summary d)" for es
  proof (cases "carriedSummary l")
    case None
    then show ?thesis using es by (simp add: readSummary_def)
  next
    case (Some t)
    then have "CHR ''<'' \<notin> set t" "nl \<notin> set t"
      using assms(2) carriedSummary_no_nl[OF Some pl] by (auto simp: line_fine_def)
    moreover have "set (readSummary l es) \<subseteq> insert \<lparr>od_summary = t, od_hasSummary = True\<rparr> (set es)"
      using Some in_set_butlastD[of _ es] by (simp add: readSummary_def subset_iff)
    ultimately show ?thesis using es by (metis insertE open_details.select_convs(1) subsetD)
  qed
  from this[OF ds] have "\<forall>d\<in>set (readSummary l (scanDetails l (md_details s))).
      CHR ''<'' \<notin> set (od_summary d) \<and> nl \<notin> set (od_summary d)" .
  note rs = this
  have m: "m \<noteq> [] \<longrightarrow> 3 \<le> length m \<and> set m = {CHR ''`''} \<and> nl \<notin> set i"
    using fenceOf_marker[OF f] fenceOf_info_no_nl[OF f _ pl] by blast
  consider "md_fence s \<noteq> []" | "md_fence s = []" "m \<noteq> []" | "md_fence s = []" "m = []" by blast
  then show ?thesis
  proof cases
    case 1
    then have "md_next s l = s \<or> md_next s l = s\<lparr>md_fence := [], md_fenceInfo := []\<rparr>"
      by (simp add: md_next_def f)
    then show ?thesis using assms(1) by (elim disjE) (simp_all add: md_good_def)
  next
    case 2
    then have "md_next s l = s\<lparr>md_fence := m, md_fenceInfo := i\<rparr>" by (simp add: md_next_def f)
    then show ?thesis using assms(1) m i by (simp add: md_good_def)
  next
    case 3
    then have "md_next s l = s\<lparr>md_details := readSummary l (scanDetails l (md_details s))\<rparr>"
      by (simp add: md_next_def f)
    then show ?thesis using rs 3 by (simp add: md_good_def)
  qed
qed

lemma md_good_zero [simp]: "md_good md_zero"
  by (simp add: md_good_def md_zero_def)

lemma md_good_run: "md_good s \<Longrightarrow> \<forall>l\<in>set ls. line_fine l \<Longrightarrow> md_good (md_run s ls)"
  by (induction ls arbitrary: s) (auto simp: md_good_next)


subsection \<open>Opening again and closing\<close>

definition details_line :: string where "details_line = ''<details>'' @ [nl]"
definition close_line :: string where "close_line = ''</details>'' @ [nl]"
definition summary_line :: "string \<Rightarrow> string" where
  "summary_line x = ''<summary>'' @ x @ '' (continued)</summary>'' @ [nl]"

lemmas line_defs = details_line_def close_line_def summary_line_def

definition openerLines :: "open_details \<Rightarrow> string list" where
  "openerLines d = [details_line] @
     (if od_hasSummary d
      then [summary_line (od_summary d), [nl]] else [])"

lemma openerLines_concat: "concat (openerLines d) = openerOf d"
  by (simp add: openerLines_def openerOf_def line_defs)

lemma openerLines_proper: "nl \<notin> set (od_summary d) \<Longrightarrow> l \<in> set (openerLines d) \<Longrightarrow> proper_line l"
  by (auto simp: line_defs openerLines_def proper_line_def butlast_append split: if_splits)

lemma scanDetails_skip: "CHR ''<'' \<notin> set a \<Longrightarrow> scanDetails (a @ t) ds = scanDetails t ds"
  by (induction a) auto

lemma md_next_details_line:
  "md_fence m = [] \<Longrightarrow> md_next m (details_line) = m\<lparr>md_details := md_details m @ [od_zero]\<rparr>"
  by (simp add: line_defs md_next_def fenceOf_def trim_left_def readSummary_def carriedSummary_def str_cut_def)

lemma md_next_blank: "md_next m [nl] = m"
  by (auto simp: line_defs md_next_def fenceOf_def trim_left_def readSummary_def carriedSummary_def str_cut_def)

lemma md_next_empty [simp]: "md_next m [] = m"
  by (auto simp: line_defs md_next_def fenceOf_def trim_left_def readSummary_def carriedSummary_def str_cut_def)

lemma md_next_close_line:
  "md_fence m = [] \<Longrightarrow> md_next m (close_line) = m\<lparr>md_details := butlast (md_details m)\<rparr>"
  by (auto simp: line_defs md_next_def fenceOf_def trim_left_def readSummary_def carriedSummary_def str_cut_def)

lemma summary_line_carried:
  assumes "CHR ''<'' \<notin> set x"
  shows "carriedSummary (summary_line x) =
    Some (cutAtRune (x @ '' (continued)'') maxCarriedSummary)"
proof -
  let ?r = "(x @ '' (continued)'') @ ''</summary>'' @ [nl]"
  have "str_cut (''<summary>'' @ ?r) ''<summary>'' = Some ([], ?r)"
    by (simp add: str_cut_def)
  moreover have "str_index ?r ''</summary>'' = Some (length (x @ '' (continued)''))"
    using assms by (subst str_index_skip) auto
  then have "str_cut ?r ''</summary>'' = Some (x @ '' (continued)'', [nl])"
    by (simp add: str_cut_def)
  ultimately show ?thesis unfolding carriedSummary_def summary_line_def by simp
qed

lemma md_next_summary_line:
  assumes "md_fence m = []" "md_details m = ds @ [od_zero]" "CHR ''<'' \<notin> set x"
  shows "\<exists>t. md_next m (summary_line x) =
    m\<lparr>md_details := ds @ [\<lparr>od_summary = t, od_hasSummary = True\<rparr>]\<rparr>"
proof -
  let ?l = "summary_line x"
  have f: "fenceOf ?l = ([], [])" by (simp add: summary_line_def fenceOf_def trim_left_def)
  have "scanDetails ?l es = scanDetails (x @ '' (continued)</summary>'' @ [nl]) es" for es
    by (simp add: summary_line_def)
  also have "\<dots> es = es" for es using assms(3) by (simp add: scanDetails_skip)
  finally have "scanDetails ?l es = es" for es .
  then show ?thesis
    using assms(1,2) f summary_line_carried[OF assms(3)]
    by (intro exI[of _ "cutAtRune (x @ '' (continued)'') maxCarriedSummary"])
      (simp add: md_next_def readSummary_def od_zero_def)
qed


lemma opener_run_details:
  assumes "md_fence m = []" "\<forall>d\<in>set ds. CHR ''<'' \<notin> set (od_summary d)"
  shows "\<exists>es. md_run m (concat (map openerLines ds)) = m\<lparr>md_details := md_details m @ es\<rparr> \<and>
    map od_hasSummary es = map od_hasSummary ds"
  using assms
proof (induction ds arbitrary: m)
  case Nil
  then show ?case by (intro exI[of _ "[]"]) simp
next
  case (Cons d ds)
  have "\<exists>e. md_run m (openerLines d) = m\<lparr>md_details := md_details m @ [e]\<rparr> \<and>
      od_hasSummary e = od_hasSummary d"
  proof (cases "od_hasSummary d")
    case False
    then show ?thesis
      using md_next_details_line[OF Cons.prems(1)]
      by (intro exI[of _ od_zero]) (simp add: openerLines_def od_zero_def)
  next
    case True
    let ?m1 = "m\<lparr>md_details := md_details m @ [od_zero]\<rparr>"
    obtain t where t: "md_next ?m1 (summary_line (od_summary d)) =
        ?m1\<lparr>md_details := md_details m @ [\<lparr>od_summary = t, od_hasSummary = True\<rparr>]\<rparr>"
      using md_next_summary_line[of ?m1 "md_details m" "od_summary d"] Cons.prems by auto
    have "md_run m (openerLines d) =
        ?m1\<lparr>md_details := md_details m @ [\<lparr>od_summary = t, od_hasSummary = True\<rparr>]\<rparr>"
      using True md_next_details_line[OF Cons.prems(1)]
      by (simp add: openerLines_def t md_next_blank)
    then show ?thesis using True by (intro exI[of _ "\<lparr>od_summary = t, od_hasSummary = True\<rparr>"]) simp
  qed
  then obtain e where e: "md_run m (openerLines d) = m\<lparr>md_details := md_details m @ [e]\<rparr>"
    "od_hasSummary e = od_hasSummary d" by blast
  obtain es where "md_run (m\<lparr>md_details := md_details m @ [e]\<rparr>) (concat (map openerLines ds)) =
      m\<lparr>md_details := (md_details m @ [e]) @ es\<rparr>" "map od_hasSummary es = map od_hasSummary ds"
    using Cons.IH[of "m\<lparr>md_details := md_details m @ [e]\<rparr>"] Cons.prems by auto
  then show ?case using e by (intro exI[of _ "e # es"]) simp
qed

lemma fenceOf_fence_line:
  assumes "3 \<le> length f" "set f = {CHR ''`''}" "CHR ''`'' \<notin> set i"
  shows "fenceOf (f @ i @ [nl]) = (f, trim_space (i @ [nl]))"
proof -
  obtain f' where f': "f = CHR ''`'' # f'" using assms(1,2) by (cases f) auto
  have t1: "trim_left (f @ i @ [nl]) '' '' = f @ i @ [nl]" by (simp add: trim_left_def f')
  have "dropWhile (\<lambda>c. c \<in> {CHR ''`''}) (f @ i @ [nl]) = dropWhile (\<lambda>c. c \<in> {CHR ''`''}) (i @ [nl])"
    using assms(2) by (intro dropWhile_append2) auto
  also have "\<dots> = i @ [nl]" using assms(3) by (cases i) auto
  finally have t2: "trim_left (f @ i @ [nl]) ''`'' = i @ [nl]" by (simp add: trim_left_def)
  show ?thesis using assms(1) by (simp add: fenceOf_def t1 t2 Let_def)
qed

lemma trim_space_nl: "trim_space [nl] = []"
  by (simp add: trim_space_def trim_space_left.simps trim_space_left_rev.simps ascii_space_def)

definition openerAll :: "mdState \<Rightarrow> string list" where
  "openerAll s = concat (map openerLines (md_details s)) @
     (if md_fence s \<noteq> [] then [md_fence s @ md_fenceInfo s @ [nl]] else [])"

definition closerAll :: "mdState \<Rightarrow> string list" where
  "closerAll s = (if md_fence s \<noteq> [] then [md_fence s @ [nl]] else []) @
     concat (map (\<lambda>_. [[nl], close_line]) (md_details s))"

lemma openerAll_concat: "concat (openerAll s) = opener s"
proof -
  have "concat (concat (map openerLines ds)) = concat (map openerOf ds)" for ds
    by (induction ds) (auto simp: openerLines_concat)
  then show ?thesis by (simp add: openerAll_def opener_def)
qed

lemma closerAll_concat: "concat (closerAll s) = closer s"
proof -
  have "concat (concat (map (\<lambda>_. [[nl], close_line]) ds)) = concat (map (\<lambda>_. detailsClose) ds)"
    for ds :: "open_details list" by (induction ds) (auto simp: detailsClose_def close_line_def)
  then show ?thesis by (simp add: closerAll_def closer_def)
qed

lemma openerAll_shape:
  assumes "md_good s"
  shows "md_shape (md_run md_zero (openerAll s)) = md_shape s"
proof -
  have "\<forall>d\<in>set (md_details s). CHR ''<'' \<notin> set (od_summary d)"
    using assms unfolding md_good_def by blast
  then obtain es where es:
    "md_run md_zero (concat (map openerLines (md_details s))) = md_zero\<lparr>md_details := es\<rparr>"
    "map od_hasSummary es = map od_hasSummary (md_details s)"
    using opener_run_details[of md_zero "md_details s"] by (auto simp: md_zero_def)
  show ?thesis
  proof (cases "md_fence s = []")
    case True
    then show ?thesis using es by (simp add: openerAll_def md_shape_def md_zero_def)
  next
    case False
    then have "fenceOf (md_fence s @ md_fenceInfo s @ [nl]) =
        (md_fence s, trim_space (md_fenceInfo s @ [nl]))"
      using assms by (intro fenceOf_fence_line) (simp_all add: md_good_def)
    then show ?thesis using es False
      by (simp add: openerAll_def md_shape_def md_zero_def md_next_def)
  qed
qed

lemma close_details_run:
  "md_fence t = [] \<Longrightarrow>
   md_run t (concat (map (\<lambda>_. [[nl], close_line]) ds)) =
     t\<lparr>md_details := take (length (md_details t) - length ds) (md_details t)\<rparr>"
proof (induction ds arbitrary: t)
  case (Cons d ds)
  let ?t = "t\<lparr>md_details := butlast (md_details t)\<rparr>"
  have "md_run t (concat (map (\<lambda>_. [[nl], close_line]) (d # ds))) =
      md_run ?t (concat (map (\<lambda>_. [[nl], close_line]) ds))"
    using md_next_close_line[OF Cons.prems] by (simp add: md_next_blank)
  also have "\<dots> = ?t\<lparr>md_details := take (length (md_details ?t) - length ds) (md_details ?t)\<rparr>"
    using Cons.IH[of ?t] Cons.prems by simp
  finally show ?case by (simp add: take_butlast butlast_conv_take min_def)
qed simp

definition fence_ok :: "mdState \<Rightarrow> bool" where
  "fence_ok s = (md_fence s \<noteq> [] \<longrightarrow> 3 \<le> length (md_fence s) \<and> set (md_fence s) = {CHR ''`''})"

lemma md_good_fence_ok: "md_good s \<Longrightarrow> fence_ok s"
  by (simp add: md_good_def fence_ok_def)

lemma closerAll_closes:
  assumes "fence_ok s" "md_shape t = md_shape s"
  shows "md_closed (md_run t (closerAll s))"
proof -
  have len: "length (md_details t) = length (md_details s)" and fe: "md_fence t = md_fence s"
    using assms(2) unfolding md_shape_def by (metis length_map prod.inject)+
  have after: "md_closed (md_run t' (concat (map (\<lambda>_. [[nl], close_line]) (md_details s))))"
    if "md_fence t' = []" "md_details t' = md_details t" for t'
    using close_details_run[OF that(1), of "md_details s"] that len by (simp add: md_closed_def)
  show ?thesis
  proof (cases "md_fence s = []")
    case True
    then show ?thesis using after[of t] fe by (simp add: closerAll_def)
  next
    case False
    then have "fenceOf (md_fence s @ [nl]) = (md_fence s, [])"
      using assms(1) fenceOf_fence_line[of "md_fence s" "[]"] by (simp add: fence_ok_def trim_space_nl)
    then show ?thesis using False fe after[of "t\<lparr>md_fence := [], md_fenceInfo := []\<rparr>"]
      by (simp add: closerAll_def md_next_def)
  qed
qed


lemma openerAll_proper: "md_good s \<Longrightarrow> \<forall>l\<in>set (openerAll s). proper_line l"
  using openerLines_proper
  by (fastforce simp: openerAll_def md_good_def proper_line_def butlast_append split: if_splits)

lemma closerAll_proper: "fence_ok s \<Longrightarrow> \<forall>l\<in>set (closerAll s). proper_line l"
  by (auto simp: closerAll_def fence_ok_def proper_line_def close_line_def split: if_splits)

lemma frame_rendersAlone:
  assumes "md_good s" "\<forall>l\<in>set ls. line_fine l"
  shows "rendersAlone (frame s ls)"
proof -
  let ?L = "openerAll s @ ls @ closerAll (md_run s ls)"
  have g: "md_good (md_run s ls)" using md_good_run[OF assms] .
  have "\<forall>l\<in>set ?L. proper_line l"
    using openerAll_proper[OF assms(1)] closerAll_proper[OF md_good_fence_ok[OF g]] assms(2) by (auto simp: line_fine_def)
  then have "split_after_nl (concat ?L @ []) = ?L @ [[]]"
    using split_after_nl_concat[of ?L "[]"] by simp
  moreover have "frame s ls = concat ?L"
    by (simp add: frame_def openerAll_concat closerAll_concat)
  ultimately have "md_run md_zero (split_after_nl (frame s ls)) = md_run md_zero ?L" by simp
  moreover have "md_shape (md_run (md_run md_zero (openerAll s)) ls) = md_shape (md_run s ls)"
    using md_run_shape openerAll_shape[OF assms(1)] by blast
  ultimately show ?thesis
    using closerAll_closes[OF md_good_fence_ok[OF g]] by (simp add: rendersAlone_def)
qed

subsection \<open>A cut line is as fine as the line it was cut from\<close>

lemma fenceOf_cut:
  assumes "strict_prefix p l" "fenceOf (p @ lineTruncated) = (m, i)" "m \<noteq> []"
  shows "\<exists>m' i'. fenceOf l = (m', i') \<and> m' \<noteq> [] \<and> (CHR ''`'' \<in> set i \<longrightarrow> CHR ''`'' \<in> set i')"
proof -
  obtain r where l: "l = p @ r" using assms(1) by (auto simp: strict_prefix_def prefix_def)
  define a where "a = takeWhile (\<lambda>c. c \<in> set '' '') p"
  define q where "q = dropWhile (\<lambda>c. c \<in> set '' '') p"
  have p: "p = a @ q" by (simp add: a_def q_def)
  have "q \<noteq> []"
  proof
    assume "q = []"
    then have "\<forall>c\<in>set p. c \<in> set '' ''" by (simp add: q_def dropWhile_eq_Nil_conv)
    then have "trim_left (p @ lineTruncated) '' '' = lineTruncated"
      by (simp add: trim_left_def dropWhile_append lineTruncated_def)
    moreover have "trim_left lineTruncated ''`'' = lineTruncated"
      by (simp add: trim_left_def lineTruncated_def)
    ultimately show False using assms(2,3) by (auto simp: fenceOf_def Let_def split: if_splits)
  qed
  have sp: "trim_left (p @ t) '' '' = q @ t" for t
  proof -
    have "\<not> (\<forall>c\<in>set p. c \<in> set '' '')" using \<open>q \<noteq> []\<close> by (auto simp: q_def dropWhile_eq_Nil_conv)
    then show ?thesis by (auto simp: trim_left_def q_def dropWhile_append1)
  qed
  define b where "b = takeWhile (\<lambda>c. c \<in> set ''`'') q"
  define c where "c = dropWhile (\<lambda>c. c \<in> set ''`'') q"
  have q: "q = b @ c" by (simp add: b_def c_def)
  have bset: "\<forall>x\<in>set b. x \<in> set ''`''" unfolding b_def by (meson set_takeWhileD)
  have bt: "trim_left (q @ t) ''`'' = (if c = [] then trim_left t ''`'' else c @ t)" for t
  proof (cases "c = []")
    case True
    then show ?thesis using q bset by (simp add: trim_left_def dropWhile_append)
  next
    case False
    then have "\<not> (\<forall>x\<in>set q. x \<in> set ''`'')" by (auto simp: c_def dropWhile_eq_Nil_conv)
    then show ?thesis using False by (auto simp: trim_left_def c_def dropWhile_append1)
  qed
  have lt: "trim_left lineTruncated ''`'' = lineTruncated"
    by (simp add: trim_left_def lineTruncated_def)
  have mi: "length a \<le> 3" "3 \<le> length b" "i = trim_space (c @ lineTruncated)"
    using assms(2,3) p q unfolding fenceOf_def sp Let_def bt lt
    by (auto split: if_splits)
  have "fst (fenceOf l) \<noteq> []" "snd (fenceOf l) = trim_space (trim_left (q @ r) ''`'')"
    using mi p q trim_left_length[of r "''`''"] \<open>q \<noteq> []\<close>
    unfolding l fenceOf_def sp Let_def bt by (auto split: if_splits)
  moreover have "CHR ''`'' \<in> set (trim_space (trim_left (q @ r) ''`''))" if "CHR ''`'' \<in> set i"
  proof -
    have "CHR ''`'' \<in> set c"
      using that by (simp add: mi(3) trim_space_backtick lineTruncated_def)
    then have "CHR ''`'' \<in> set (trim_left (q @ r) ''`'')" by (auto simp: bt)
    then show ?thesis by (simp add: trim_space_backtick)
  qed
  ultimately show ?thesis by (metis prod.collapse)
qed

lemma carriedSummary_Some:
  "carriedSummary line = Some t \<longleftrightarrow>
    (\<exists>i j. str_index line ''<summary>'' = Some i \<and>
       str_index (drop (i + 9) line) ''</summary>'' = Some j \<and>
       t = cutAtRune (take j (drop (i + 9) line)) maxCarriedSummary)"
  by (auto simp: carriedSummary_def str_cut_def eval_nat_numeral split: option.splits)

lemma carriedSummary_cut:
  assumes "prefix p l" "carriedSummary (p @ lineTruncated) = Some t"
  shows "carriedSummary l = Some t"
proof -
  obtain r where l: "l = p @ r" using assms(1) by (auto simp: prefix_def)
  have gt: "CHR ''>'' \<notin> set lineTruncated" by (simp add: lineTruncated_def)
  obtain i j where i: "str_index (p @ lineTruncated) ''<summary>'' = Some i"
    and j: "str_index (drop (i + 9) (p @ lineTruncated)) ''</summary>'' = Some j"
    and t: "t = cutAtRune (take j (drop (i + 9) (p @ lineTruncated))) maxCarriedSummary"
    using assms(2) unfolding carriedSummary_Some by blast
  have i': "i + 9 \<le> length p" "str_index (p @ r) ''<summary>'' = Some i"
    using str_index_stable[OF i, of r] gt by auto
  let ?p = "drop (i + 9) p"
  have "drop (i + 9) (p @ x) = ?p @ x" for x using i' by simp
  note d = this
  have j': "j + 10 \<le> length ?p" "str_index (?p @ r) ''</summary>'' = Some j"
    using str_index_stable[of ?p lineTruncated "''</summary>''" j r] j gt unfolding d by auto
  have "take j (?p @ x) = take j ?p" for x using j'(1) by simp
  then show ?thesis
    using i' j' t unfolding l carriedSummary_Some by (auto simp: d)
qed

lemma line_fine_cut:
  assumes "line_fine l" "strict_prefix p l"
  shows "line_fine (p @ lineTruncated)"
proof -
  have "nl \<notin> set p"
  proof
    assume "nl \<in> set p"
    moreover have "prefix p (butlast l)"
      using assms(2) by (metis append_butlast_last_id prefix_snoc strict_prefix_def prefix_bot.extremum_strict)
    ultimately have "nl \<in> set (butlast l)" using set_mono_prefix by blast
    then show False using assms(1) by (simp add: line_fine_def proper_line_def)
  qed
  then have "proper_line (p @ lineTruncated)"
    by (auto simp: proper_line_def lineTruncated_def butlast_append)
  moreover have "CHR ''`'' \<notin> set (snd (fenceOf (p @ lineTruncated)))"
  proof (cases "fst (fenceOf (p @ lineTruncated)) = []")
    case True
    then show ?thesis by (auto simp: fenceOf_def Let_def split: if_splits)
  next
    case False
    then show ?thesis
      using fenceOf_cut[OF assms(2) prod.collapse[symmetric] False] assms(1)
      by (auto simp: line_fine_def)
  qed
  moreover have "case carriedSummary (p @ lineTruncated) of None \<Rightarrow> True | Some t \<Rightarrow> CHR ''<'' \<notin> set t"
    using carriedSummary_cut[of p l] assms
    by (auto simp: line_fine_def strict_prefix_def split: option.splits)
  ultimately show ?thesis by (simp add: line_fine_def)
qed

lemma line_fine_cutOf: "line_fine l \<Longrightarrow> cutOf l l' \<Longrightarrow> line_fine l'"
  by (erule cutOf_cases) (auto simp: line_fine_cut)

lemma frames_rendersAlone:
  "md_good s \<Longrightarrow> \<forall>l\<in>set (concat gs). line_fine l \<Longrightarrow> p \<in> set (frames s gs) \<Longrightarrow> rendersAlone p"
proof (induction gs arbitrary: s)
  case (Cons g gs)
  then show ?case using frame_rendersAlone[of s g] md_good_run[of s g] by auto
qed simp

lemma list_all2_cutOf_fine:
  "list_all2 cutOf ls ls' \<Longrightarrow> \<forall>l\<in>set ls. line_fine l \<Longrightarrow> \<forall>l\<in>set ls'. line_fine l"
  by (induction ls ls' rule: list_all2_induct) (auto simp: line_fine_cutOf)


section \<open>Every part fits\<close>

text \<open>Whether a part fits depends on what its lines can leave open.  The contract: a class of
  lines and a class of states, closed under reading such a line and under cutting a line that
  is too long, with a bound on what opening one state and closing another can cost.\<close>

locale bounded_markdown =
  fixes good_line :: "string \<Rightarrow> bool" and good_state :: "mdState \<Rightarrow> bool" and need :: int
  assumes state_zero: "good_state md_zero"
    and state_next: "good_state s \<Longrightarrow> good_line l \<Longrightarrow> good_state (md_next s l)"
    and overhead: "good_state s \<Longrightarrow> good_state s' \<Longrightarrow>
      slen (opener s) + closerLen s' + slen lineTruncated \<le> need"
    and line_cut: "good_line l \<Longrightarrow> good_state s \<Longrightarrow> good_state s' \<Longrightarrow> need \<le> m \<Longrightarrow>
      m - slen (opener s) - closerLen s' < slen l \<Longrightarrow>
      good_line (cutAtRune l (m - slen (opener s) - closerLen s' - slen lineTruncated) @ lineTruncated)"
begin

lemma shrink_fits:
  assumes "need \<le> m" "good_state s0" "good_state s" "good_line line" "b = slen (opener s0)"
    and "shrinkLine m b s line (md_next s line) = (line', after')"
  shows "b + slen line' + closerLen after' \<le> m \<and> good_state after'"
  using assms
proof (induction m b s line "md_next s line" rule: shrinkLine.induct)
  case (1 m b st l)
  let ?after = "md_next st l"
  let ?room = "m - b - closerLen ?after"
  have g: "good_state ?after" using 1 state_next by blast
  have room: "\<not> ?room < slen lineTruncated" using overhead[OF 1(3) g] 1(2,6) by simp
  show ?case
  proof (cases "slen l > ?room")
    case True
    let ?l = "cutAtRune l (?room - slen lineTruncated) @ lineTruncated"
    have "good_line ?l" using line_cut[OF 1(5) 1(3) g 1(2)] True 1(6) by simp
    moreover have "shrinkLine m b st ?l (md_next st ?l) = (line', after')"
      using 1(7) True room by (subst (asm) shrinkLine.simps) (simp add: Let_def)
    ultimately show ?thesis using 1(1)[OF refl] 1(2-6) True room by simp
  next
    case False
    then have "line' = l" "after' = ?after"
      using 1(7) by (subst (asm) shrinkLine.simps, simp)+
    then show ?thesis using False g by simp
  qed
qed

definition fit_inv :: "int \<Rightarrow> split_state \<Rightarrow> bool" where
  "fit_inv m st = ((\<forall>p\<in>set (sp_parts st). slen p \<le> m) \<and> good_state (sp_md st) \<and>
     slen (sp_buf st) + closerLen (sp_md st) \<le> m \<and>
     (\<not> sp_has st \<longrightarrow> sp_buf st = [] \<and> sp_md st = md_zero))"

lemma fit_inv_step:
  assumes "need \<le> m" "fit_inv m st" "good_line line"
  shows "fit_inv m (splitLine m st line)"
proof (cases "line = []")
  case False
  let ?after = "md_next (sp_md st) line"
  define st1 where "st1 = splitFlush m ?after line st"
  obtain line' after' where sh:
    "shrinkLine m (slen (sp_buf st1)) (sp_md st1) line ?after = (line', after')" by fastforce
  have md1: "sp_md st1 = sp_md st" by (auto simp: st1_def splitFlush_def)
  have good: "good_state (sp_md st)" using assms(2) by (simp add: fit_inv_def)
  have parts: "\<forall>p\<in>set (sp_parts st1). slen p \<le> m"
    using assms(2) by (auto simp: st1_def splitFlush_def fit_inv_def closer_length)
  have "slen (sp_buf st1) + slen line' + closerLen after' \<le> m \<and> good_state after'"
  proof (cases "\<exists>s0. good_state s0 \<and> sp_buf st1 = opener s0")
    case True
    then show ?thesis
      using shrink_fits[OF assms(1) _ good assms(3)] sh md1 by auto
  next
    case nf: False
    have "sp_buf st1 = sp_buf st" "slen (sp_buf st) + slen line + closerLen ?after \<le> m"
      using nf good assms(2) state_zero
      by (auto simp: st1_def splitFlush_def fit_inv_def split: if_splits)
    then have "line' = line" "after' = ?after"
      using sh shrinkLine_fits[of line m "slen (sp_buf st1)" ?after "sp_md st1"] by auto
    then show ?thesis
      using \<open>sp_buf st1 = sp_buf st\<close> \<open>slen (sp_buf st) + slen line + closerLen ?after \<le> m\<close>
        state_next[OF good assms(3)] by simp
  qed
  then show ?thesis
    using False sh parts by (simp add: splitLine_def st1_def[symmetric] fit_inv_def)
qed (use assms in \<open>simp add: splitLine_def\<close>)

lemma splitDetails_fits:
  assumes "need \<le> m" "\<And>l. l \<in> set (contentLines content) \<Longrightarrow> good_line l"
    and "p \<in> set (splitDetailsAtLines content m)"
  shows "slen p \<le> m"
proof (cases "m \<le> 0 \<or> slen content \<le> m")
  case True
  have "slen (opener md_zero) + closerLen md_zero + 21 \<le> need"
    using overhead[OF state_zero state_zero] by simp
  then have "\<not> m \<le> 0" using assms(1) closerLen_nonneg[of md_zero] by linarith
  then show ?thesis using True assms(3) by (simp add: splitDetailsAtLines_def)
next
  case False
  let ?st = "foldl (splitLine m) split_init (split_after_nl content)"
  have init: "fit_inv m split_init"
    using overhead[OF state_zero state_zero] assms(1) state_zero
    by (simp add: fit_inv_def split_init_def)
  have "fit_inv m st \<Longrightarrow> \<forall>l\<in>set ls. l = [] \<or> good_line l \<Longrightarrow> fit_inv m (foldl (splitLine m) st ls)" for st ls
  proof (induction ls arbitrary: st)
    case (Cons l ls)
    then show ?case using fit_inv_step[OF assms(1)] by (cases "l = []") auto
  qed simp
  then have "fit_inv m ?st" using init assms(2) by (auto simp: contentLines_def)
  then show ?thesis
    using assms(3) False by (auto simp: splitDetailsAtLines_def Let_def fit_inv_def closer_length split: if_splits)
qed

end

text \<open>What most checks produce: fenced blocks without HTML.  A fence line is at most \<open>b\<close> bytes long.\<close>

definition fenced_line :: "nat \<Rightarrow> string \<Rightarrow> bool" where
  "fenced_line b l = (CHR ''<'' \<notin> set l \<and> (fst (fenceOf l) \<noteq> [] \<longrightarrow> length l \<le> b))"

definition fenced_state :: "nat \<Rightarrow> mdState \<Rightarrow> bool" where
  "fenced_state b s = (md_details s = [] \<and>
     (md_fence s \<noteq> [] \<longrightarrow> length (md_fence s) + length (md_fenceInfo s) \<le> b))"

lemma fenceOf_length:
  assumes "fenceOf l = (f, i)" "f \<noteq> []"
  shows "length f + length i \<le> length l"
proof -
  let ?t = "trim_left l '' ''"
  let ?r = "trim_left ?t ''`''"
  have "length f = length ?t - length ?r" "i = trim_space ?r"
    using assms by (auto simp: fenceOf_def Let_def split: if_splits)
  moreover have "length i \<le> length ?r" using calculation(2) trim_space_length by simp
  ultimately show ?thesis
    using trim_left_length[of l "'' ''"] trim_left_length[of ?t "''`''"] by linarith
qed

lemma fenced_next:
  assumes "fenced_state b s" "fenced_line b l"
  shows "fenced_state b (md_next s l)"
proof -
  obtain f i where fi: "fenceOf l = (f, i)" by fastforce
  have "f \<noteq> [] \<Longrightarrow> length f + length i \<le> b"
    using assms(2) fi fenceOf_length[OF fi] by (simp add: fenced_line_def)
  then show ?thesis
    using assms fi
    by (auto simp: fenced_state_def fenced_line_def md_next_def scanDetails_plain readSummary_def)
qed

interpretation fenced: bounded_markdown "fenced_line b" "fenced_state b" "3 * int b + 23" for b
proof unfold_locales
  show "fenced_state b md_zero" by (simp add: fenced_state_def md_zero_def)
  show "fenced_state b (md_next s l)" if "fenced_state b s" "fenced_line b l" for s l
    using fenced_next that by blast
  have o: "slen (opener s) \<le> int b + 1" "closerLen s \<le> int b + 1" if "fenced_state b s" for s
    using that by (auto simp: fenced_state_def opener_def closerLen_def)
  then show "slen (opener s) + closerLen s' + slen lineTruncated \<le> 3 * int b + 23"
    if "fenced_state b s" "fenced_state b s'" for s s'
    using o(1)[OF that(1)] o(2)[OF that(2)] by simp
  show "fenced_line b (cutAtRune l (m - slen (opener s) - closerLen s' - slen lineTruncated) @ lineTruncated)"
    if l: "fenced_line b l" and s: "fenced_state b s" "fenced_state b s'" and m: "3 * int b + 23 \<le> m"
      and long: "m - slen (opener s) - closerLen s' < slen l" for l s s' m
  proof -
    let ?n = "m - slen (opener s) - closerLen s' - slen lineTruncated"
    have n: "int b \<le> ?n" "?n < slen l" using o(1)[OF s(1)] o(2)[OF s(2)] m long by simp_all
    then have sp: "strict_prefix (cutAtRune l ?n) l" by (intro cutAtRune_strict) auto
    have "fst (fenceOf l) = []" using l n by (auto simp: fenced_line_def)
    then have "fst (fenceOf (cutAtRune l ?n @ lineTruncated)) = []"
      using fenceOf_cut[OF sp prod.collapse[symmetric]] by force
    moreover have "CHR ''<'' \<notin> set (cutAtRune l ?n @ lineTruncated)"
      using l set_mono_prefix[OF cutAtRune_prefix[of l ?n]]
      by (auto simp: fenced_line_def lineTruncated_def)
    ultimately show ?thesis by (simp add: fenced_line_def)
  qed
qed


section \<open>Cutting a comment short\<close>

lemma cutShortNote_len [simp]: "length cutShortNote = 59"
  by (simp add: cutShortNote_def)

lemma cutShortLoop_len:
  assumes "0 \<le> maxLen" "budget = maxLen - slen cutShortNote"
  shows "slen (cutShortLoop markdown maxLen budget room) \<le> maxLen"
  using assms
proof (induction markdown maxLen budget room rule: cutShortLoop.induct)
  case (1 markdown maxLen budget room)
  let ?cut = "cutAtRune markdown room"
  let ?closr = "nl # closer (md_run md_zero (split_after_nl ?cut))"
  let ?over = "slen ?cut + slen ?closr - budget"
  consider "room \<le> 0" | "0 < room" "0 < ?over" | "0 < room" "?over \<le> 0" by linarith
  then show ?case
  proof cases
    case 1
    then show ?thesis using \<open>0 \<le> maxLen\<close> by (subst cutShortLoop.simps) (simp add: cutAtRune_len_le)
  next
    case 2
    then have "cutShortLoop markdown maxLen budget room = cutShortLoop markdown maxLen budget (room - ?over)"
      by (subst cutShortLoop.simps) (simp add: Let_def)
    then show ?thesis using 1 2 by simp
  next
    case 3
    then have "cutShortLoop markdown maxLen budget room = ?cut @ ?closr @ cutShortNote"
      by (subst cutShortLoop.simps) (simp add: Let_def)
    then show ?thesis using 3 1 by simp
  qed
qed

lemma cutShort_len: "0 \<le> maxLen \<Longrightarrow> slen (cutShort markdown maxLen) \<le> maxLen"
  using cutShortLoop_len by (simp add: cutShort_def Let_def del: cutShortNote_len)

subsection \<open>A newline after a cut line changes nothing\<close>

lemma space_len_snoc_nl: "s \<noteq> [] \<Longrightarrow> space_len (s @ [nl]) = space_len s"
  by (cases s rule: space_len.cases; cases "tl s"; cases "tl (tl s)")
    (auto simp: space2_def space3_def split: list.splits)

lemma trim_space_left_snoc_nl:
  "trim_space_left (s @ [nl]) = (if trim_space_left s = [] then [] else trim_space_left s @ [nl])"
proof (induction s rule: trim_space_left.induct)
  case (1 s)
  have nil: "trim_space_left [nl] = []" "trim_space_left [] = []"
    by (simp_all add: trim_space_left.simps ascii_space_def)
  show ?case
  proof (cases "s = []")
    case True
    then show ?thesis using nil by simp
  next
    case ne: False
    then have sl: "space_len (s @ [nl]) = space_len s" by (rule space_len_snoc_nl)
    show ?thesis
    proof (cases "space_len s = 0")
      case True
      have "trim_space_left s = s" "trim_space_left (s @ [nl]) = s @ [nl]"
        by (subst trim_space_left.simps, simp add: True sl)+
      then show ?thesis using ne by simp
    next
      case False
      have "space_len s \<le> length s"
        using space_len_cases[OF False] by auto
      then have "trim_space_left (s @ [nl]) = trim_space_left (drop (space_len s) s @ [nl])"
        using False by (subst trim_space_left.simps) (simp add: sl)
      moreover have "trim_space_left s = trim_space_left (drop (space_len s) s)"
        using False by (subst trim_space_left.simps) simp
      ultimately show ?thesis using 1[OF False] by simp
    qed
  qed
qed

lemma trim_space_snoc_nl: "trim_space (s @ [nl]) = trim_space s"
proof -
  have "trim_space_left_rev (nl # y) = trim_space_left_rev y" for y
    by (subst trim_space_left_rev.simps) (simp add: ascii_space_def)
  moreover have "trim_space_left_rev [] = []" by (subst trim_space_left_rev.simps) simp
  ultimately show ?thesis by (simp add: trim_space_def trim_space_left_snoc_nl)
qed

lemma trim_left_snoc: "c \<notin> set cs \<Longrightarrow> trim_left (s @ [c]) cs = trim_left s cs @ [c]"
  by (induction s) (auto simp: trim_left_def)

lemma fenceOf_snoc_nl: "fenceOf (l @ [nl]) = fenceOf l"
proof -
  have "length (trim_left t ''`'') \<le> length t" for t by (rule trim_left_length)
  then show ?thesis
    by (simp add: fenceOf_def Let_def trim_left_snoc trim_space_snoc_nl Suc_diff_le)
qed

lemma has_prefix_snoc: "c \<notin> set p \<Longrightarrow> has_prefix (s @ [c]) p = has_prefix s p"
  by (induction s arbitrary: p; case_tac p) auto

lemma str_index_snoc: "c \<notin> set p \<Longrightarrow> p \<noteq> [] \<Longrightarrow> str_index (s @ [c]) p = str_index s p"
proof (induction s)
  case (Cons a s)
  then show ?case using has_prefix_snoc[of c p "a # s"] by simp
next
  case Nil
  then show ?case by (cases p) auto
qed

lemma scanDetails_snoc_nl: "scanDetails (l @ [nl]) ds = scanDetails l ds"
proof (induction l arbitrary: ds)
  case (Cons c l)
  have "has_prefix (c # l @ [nl]) p = has_prefix (c # l) p" if "nl \<notin> set p" for p
    using has_prefix_snoc[OF that, of "c # l"] by simp
  then show ?case using Cons by (simp del: has_prefix_Cons)
qed simp

lemma carriedSummary_snoc_nl: "carriedSummary (l @ [nl]) = carriedSummary l"
proof -
  have "drop (i + 9) (l @ [nl]) = drop (i + 9) l @ [nl]" if "str_index l ''<summary>'' = Some i" for i
  proof -
    have "i + 9 \<le> length l" using str_index_stable[of l "[]" "''<summary>''" i "[]"] that by auto
    then show ?thesis by simp
  qed
  moreover have "take j (m @ [nl]) = take j m" if "str_index m ''</summary>'' = Some j" for j and m :: string
    using str_index_Some[OF that] by simp
  ultimately have "carriedSummary (l @ [nl]) = Some t \<longleftrightarrow> carriedSummary l = Some t" for t
    unfolding carriedSummary_Some by (auto simp: str_index_snoc simp del: drop_append take_append)
  then show ?thesis by (metis option.exhaust)
qed

lemma md_next_snoc_nl: "md_next s (l @ [nl]) = md_next s l"
proof -
  have "readSummary (l @ [nl]) ds = readSummary l ds" for ds
    by (simp add: readSummary_def carriedSummary_snoc_nl)
  then show ?thesis by (simp add: md_next_def fenceOf_snoc_nl scanDetails_snoc_nl split: prod.split)
qed

lemma split_after_nl_snoc:
  "split_after_nl (c @ nl # t) =
    butlast (split_after_nl c) @ (last (split_after_nl c) @ [nl]) # split_after_nl t"
  by (induction c) (auto split: list.splits)

lemma md_run_snoc_nl:
  "md_run s (split_after_nl (c @ nl # t)) = md_run (md_run s (split_after_nl c)) (split_after_nl t)"
proof -
  have "split_after_nl c = butlast (split_after_nl c) @ [last (split_after_nl c)]" by simp
  then have "md_run s (split_after_nl c) =
      md_next (md_run s (butlast (split_after_nl c))) (last (split_after_nl c))"
    by (metis md_run_simps)
  then show ?thesis by (simp add: split_after_nl_snoc md_next_snoc_nl)
qed

lemma fence_ok_run: "fence_ok s \<Longrightarrow> fence_ok (md_run s ls)"
proof (induction ls arbitrary: s)
  case (Cons l ls)
  obtain m i where f: "fenceOf l = (m, i)" by fastforce
  have "md_fence (md_next s l) \<in> {[], md_fence s, m}" by (simp add: md_next_def f)
  then have "fence_ok (md_next s l)"
    using Cons.prems fenceOf_marker[OF f] unfolding fence_ok_def
    by (elim insertE emptyE) (simp_all only: simp_thms, blast)
  then show ?case using Cons.IH by simp
qed simp

lemma cutShortNote_run: "md_run s (split_after_nl cutShortNote) = s"
proof -
  have "md_next s' ''**Warning**: This comment was too long and was cut short.'' = s'" for s'
    by (auto simp: md_next_def fenceOf_def trim_left_def readSummary_def carriedSummary_def str_cut_def)
  then show ?thesis by (simp add: cutShortNote_def md_next_blank)
qed

lemma cutShort_closed:
  "rendersAlone (c @ (nl # closer (md_run md_zero (split_after_nl c))) @ cutShortNote)"
proof -
  let ?s = "md_run md_zero (split_after_nl c)"
  have ok: "fence_ok ?s" by (rule fence_ok_run) (simp add: fence_ok_def md_zero_def)
  have "split_after_nl (closer ?s @ cutShortNote) = closerAll ?s @ split_after_nl cutShortNote"
    using split_after_nl_concat[OF closerAll_proper[OF ok], of cutShortNote]
    by (simp add: closerAll_concat)
  then have "md_run md_zero (split_after_nl (c @ (nl # closer ?s) @ cutShortNote)) =
      md_run ?s (closerAll ?s)"
    using md_run_snoc_nl[of md_zero c "closer ?s @ cutShortNote"] by (simp add: cutShortNote_run)
  then show ?thesis using closerAll_closes[OF ok refl] by (simp add: rendersAlone_def)
qed

lemma cutShortLoop_closed:
  "rendersAlone (cutShortLoop markdown maxLen budget room) \<or>
   cutShortLoop markdown maxLen budget room = cutAtRune markdown maxLen"
proof (induction markdown maxLen budget room rule: cutShortLoop.induct)
  case (1 markdown maxLen budget room)
  then show ?case using cutShort_closed[of "cutAtRune markdown room"]
    by (subst (1 2) cutShortLoop.simps) (auto simp: Let_def)
qed


section \<open>Properties\<close>

text \<open>A diff in a fenced block, long enough to be cut in two.\<close>

definition demo_diff :: string where
  "demo_diff = ''```diff'' @ [nl] @ ''+ image: web:2'' @ [nl] @ ''- image: web:1'' @ [nl] @
     ''  replicas: 3'' @ [nl] @ ''```'' @ [nl]"



text \<open>No part is longer than the limit, when the details hold no HTML and no fence line is
  longer than b bytes: 3 * b + 23 bytes are then enough for what a part has to close and open
  again and for the note that replaces the rest of a line that had to be cut.\<close>

theorem split_parts_fit:
  assumes "3 * int b + 23 \<le> maxLen" "list_all (fenced_line b) (contentLines content)"
  shows "list_all (\<lambda>p. slen p \<le> maxLen) (splitDetailsAtLines content maxLen)"
  using fenced.splitDetails_fits[OF assms(1)] assms(2) by (auto simp: list_all_iff)

theorem split_parts_fit_witness:
  "list_all (\<lambda>p. slen p \<le> 50) (splitDetailsAtLines demo_diff 50)"
proof -
  have "list_all (fenced_line 8) (contentLines demo_diff)" by code_simp
  then show ?thesis using split_parts_fit[of 8 50 demo_diff] by simp
qed

text \<open>C22 Cutting loses no line and reorders none: the parts are consecutive, non-empty groups of
  the lines of the details, each line whole or cut with a note that says so, and each group
  framed by exactly what is open at its two ends.\<close>

theorem split_refines_frames:
  assumes "0 < maxLen" "maxLen < slen content"
  shows "\<exists>gs. splitDetailsAtLines content maxLen = frames md_zero gs \<and> [] \<notin> set gs \<and>
    list_all2 cutOf (contentLines content) (concat gs)"
  using splitDetails_frames[OF assms] .

theorem split_refines_frames_witness:
  "\<exists>gs. splitDetailsAtLines demo_diff 50 = frames md_zero gs \<and> [] \<notin> set gs \<and>
    list_all2 cutOf (contentLines demo_diff) (concat gs)"
proof -
  have "50 < slen demo_diff" by code_simp
  then show ?thesis using split_refines_frames[of 50 demo_diff] by simp
qed

text \<open>A comment that has to be cut short fits the limit, and what the cut left open is closed,
  unless the limit leaves no room for the closing and the note, in which case the comment is
  cut bare.\<close>

theorem cutShort_fits_and_closes:
  "slen (cutShort markdown (int n)) \<le> int n \<and>
   (rendersAlone (cutShort markdown (int n)) \<or> cutShort markdown (int n) = cutAtRune markdown (int n))"
  using cutShort_len[of "int n" markdown] cutShortLoop_closed[of markdown "int n"]
  by (auto simp: cutShort_def Let_def)

end
