(* ===== verification/MsgComment.thy ===== *)
theory MsgComment
  imports MsgMarkdown
begin

text \<open>
  \<open>pkg/msg/split.go\<close>: how rendered sections become comments.  \<open>packSections\<close> fills chunks
  greedily and in order, \<open>frameChunks\<close> gives every chunk a header and a tail, and
  \<open>splitIntoChunks\<close> composes them under the cap on the number of comments.  Lengths are
  bytes; the budgets are differences of lengths and may be negative, so they are integers.
\<close>

section \<open>Definitions\<close>

record chunkConfig =
  cc_MaxLength :: int
  cc_MaxChunks :: int
  cc_Identifier :: string
  cc_Footer :: string

definition MaxCommentsPerCheck :: nat where "MaxCommentsPerCheck = 999"

definition footerSeparator :: string where
  "footerSeparator = [nl, nl]"

definition continuedFrom :: string where
  "continuedFrom = nl # ''*Continued from previous comment.*'' @ [nl, nl]"

definition continuedIn :: string where
  "continuedIn = [nl, nl] @ ''**Continued in next comment.**''"

definition truncatedNote :: string where
  "truncatedNote = [nl, nl] @
     ''**Warning**: Report exceeded the maximum number of comments. Some output was truncated.''"

definition chunkHeader :: "string \<Rightarrow> nat \<Rightarrow> nat \<Rightarrow> string" where
  "chunkHeader identifier part tot =
    (if tot = 1 then ''# Kubechecks '' @ identifier @ '' Report'' @ [nl]
     else ''# Kubechecks '' @ identifier @ '' Report (Part '' @ itoa part @ '' of '' @ itoa tot @ '')'' @ [nl])"

definition sectionBudget :: "chunkConfig \<Rightarrow> int" where
  "sectionBudget cfg =
    (let head = slen (chunkHeader (cc_Identifier cfg) MaxCommentsPerCheck MaxCommentsPerCheck)
                + slen continuedFrom;
         tail = max (slen continuedIn) (slen footerSeparator + slen (cc_Footer cfg) + slen truncatedNote)
     in cc_MaxLength cfg - head - tail)"

definition oneCommentBudget :: "chunkConfig \<Rightarrow> int" where
  "oneCommentBudget cfg = cc_MaxLength cfg - slen (chunkHeader (cc_Identifier cfg) 1 1)
     - slen footerSeparator - slen (cc_Footer cfg)"

definition fitsOneComment :: "chunkConfig \<Rightarrow> string list \<Rightarrow> bool" where
  "fitsOneComment cfg sections = (foldl (\<lambda>tot s. tot + slen s) 0 sections \<le> oneCommentBudget cfg)"

text \<open>The loop of \<open>packSections\<close>: the chunks so far, the current chunk, its length.\<close>

definition packStep ::
  "int \<Rightarrow> string list list \<times> string list \<times> int \<Rightarrow> string \<Rightarrow> string list list \<times> string list \<times> int" where
  "packStep budget st section =
    (let (chunks, current, currentLen) = st;
         (chunks, current, currentLen) =
           (if current \<noteq> [] \<and> currentLen + slen section > budget
            then (chunks @ [current], [], 0) else (chunks, current, currentLen))
     in (chunks, current @ [section], currentLen + slen section))"

definition packSections :: "string list \<Rightarrow> int \<Rightarrow> string list list" where
  "packSections sections budget =
    (let (chunks, current, _) = foldl (packStep budget) ([], [], 0) sections
     in if current \<noteq> [] then chunks @ [current] else chunks)"

definition frameBody :: "chunkConfig \<Rightarrow> nat \<Rightarrow> nat \<Rightarrow> string list \<Rightarrow> string" where
  "frameBody cfg tot i sections =
    chunkHeader (cc_Identifier cfg) (i + 1) tot @ (if i > 0 then continuedFrom else []) @
    str_join [] sections"

definition frameTail :: "chunkConfig \<Rightarrow> nat \<Rightarrow> bool \<Rightarrow> nat \<Rightarrow> string" where
  "frameTail cfg tot truncated i =
    (if i = tot - 1 then footerSeparator @ cc_Footer cfg @ (if truncated then truncatedNote else [])
     else continuedIn)"

definition frameChunk :: "chunkConfig \<Rightarrow> nat \<Rightarrow> bool \<Rightarrow> nat \<Rightarrow> string list \<Rightarrow> string" where
  "frameChunk cfg tot truncated i sections =
    (let body = frameBody cfg tot i sections;
         tail = frameTail cfg tot truncated i;
         body = (if slen body + slen tail > cc_MaxLength cfg
                 then cutShort body (cc_MaxLength cfg - slen tail) else body)
     in body @ tail)"

definition frameChunks :: "string list list \<Rightarrow> bool \<Rightarrow> chunkConfig \<Rightarrow> string list" where
  "frameChunks chunks truncated cfg =
    (let chunks = (if chunks = [] \<or> length chunks = 1 \<and> hd chunks = [] then [[''No changes'']] else chunks);
         tot = length chunks
     in map (\<lambda>i. frameChunk cfg tot truncated i (chunks ! i)) [0..<tot])"

definition splitIntoChunks :: "string list \<Rightarrow> chunkConfig \<Rightarrow> string list" where
  "splitIntoChunks appSections cfg =
    (let rawChunks = packSections appSections (sectionBudget cfg);
         truncated = slen rawChunks > cc_MaxChunks cfg;
         rawChunks = (if truncated then take (nat (cc_MaxChunks cfg)) rawChunks else rawChunks)
     in frameChunks rawChunks truncated cfg)"

section \<open>Packing\<close>

definition chunkLen :: "string list \<Rightarrow> int" where
  "chunkLen c = sum_list (map slen c)"

lemma chunkLen_simps [simp]:
  "chunkLen [] = 0" "chunkLen (s # c) = slen s + chunkLen c" "chunkLen (c @ d) = chunkLen c + chunkLen d"
  by (simp_all add: chunkLen_def)

lemma chunkLen_nonneg [simp]: "0 \<le> chunkLen c"
  by (induction c) auto

lemma chunkLen_concat: "chunkLen c = slen (concat c)"
  by (induction c) auto

text \<open>A chunk is within the budget unless it holds a single section, and it was closed only
  because the section that opens the next one did not fit.\<close>

fun packed :: "int \<Rightarrow> string list list \<Rightarrow> bool" where
  "packed b [] = True"
| "packed b [c] = (c \<noteq> [] \<and> (chunkLen c \<le> b \<or> length c = 1))"
| "packed b (c # d # cs) = (c \<noteq> [] \<and> (chunkLen c \<le> b \<or> length c = 1) \<and> d \<noteq> [] \<and>
     chunkLen c + slen (hd d) > b \<and> packed b (d # cs))"

lemma packed_snoc_extend:
  "packed b (cs @ [c]) \<Longrightarrow> c \<noteq> [] \<Longrightarrow> chunkLen c + slen s \<le> b \<Longrightarrow> packed b (cs @ [c @ [s]])"
proof (induction cs)
  case (Cons a cs)
  then show ?case by (cases cs) auto
qed simp

lemma packed_snoc_new:
  "packed b (cs @ [c]) \<Longrightarrow> chunkLen c + slen s > b \<Longrightarrow> packed b (cs @ [c, [s]])"
proof (induction cs)
  case (Cons a cs)
  then show ?case by (cases cs) auto
qed auto

definition pack_inv :: "int \<Rightarrow> string list \<Rightarrow> string list list \<times> string list \<times> int \<Rightarrow> bool" where
  "pack_inv b secs st = (let (chunks, current, len) = st in
     len = chunkLen current \<and> concat chunks @ current = secs \<and>
     (current = [] \<longrightarrow> chunks = []) \<and> (current \<noteq> [] \<longrightarrow> packed b (chunks @ [current])))"

lemma pack_inv_step: "pack_inv b secs st \<Longrightarrow> pack_inv b (secs @ [s]) (packStep b st s)"
  using packed_snoc_extend[of b "fst st" "fst (snd st)" s] packed_snoc_new[of b "fst st" "fst (snd st)" s]
  by (cases st) (auto simp: pack_inv_def packStep_def)

lemma pack_inv_foldl: "pack_inv b secs st \<Longrightarrow> pack_inv b (secs @ ss) (foldl (packStep b) st ss)"
proof (induction ss arbitrary: secs st)
  case (Cons s ss)
  then show ?case using Cons.IH[OF pack_inv_step[OF Cons.prems]] by simp
qed simp

lemma packSections_spec:
  "concat (packSections ss b) = ss \<and> packed b (packSections ss b)"
proof -
  have "pack_inv b ss (foldl (packStep b) ([], [], 0) ss)"
    using pack_inv_foldl[of b "[]" "([], [], 0)" ss] by (simp add: pack_inv_def)
  then show ?thesis
    by (auto simp: packSections_def pack_inv_def split: prod.splits)
qed

lemma packed_nonempty: "packed b cs \<Longrightarrow> c \<in> set cs \<Longrightarrow> c \<noteq> []"
  by (induction b cs rule: packed.induct) auto

lemma packed_fit: "packed b cs \<Longrightarrow> c \<in> set cs \<Longrightarrow> chunkLen c \<le> b \<or> length c = 1"
  by (induction b cs rule: packed.induct) auto

subsection \<open>Greedy packing is optimal\<close>

text \<open>While the sections of a chunk that fits are read, at most one chunk is closed, and none
  when what is current already leaves room for all of them.\<close>

lemma pack_no_break:
  "chunkLen cur + chunkLen c \<le> b \<Longrightarrow>
   foldl (packStep b) (chs, cur, chunkLen cur) c = (chs, cur @ c, chunkLen (cur @ c))"
proof (induction c arbitrary: cur)
  case (Cons s c)
  have "\<not> chunkLen cur + slen s > b" using Cons.prems chunkLen_nonneg[of c] unfolding chunkLen_simps by linarith
  then have "packStep b (chs, cur, chunkLen cur) s = (chs, cur @ [s], chunkLen (cur @ [s]))"
    by (simp add: packStep_def)
  then show ?case using Cons.IH[of "cur @ [s]"] Cons.prems by simp
qed simp

lemma pack_one_break:
  assumes "chunkLen c \<le> b"
  shows "\<exists>chs' cur'. foldl (packStep b) (chs, cur, chunkLen cur) c = (chs', cur', chunkLen cur') \<and>
    length chs' \<le> Suc (length chs)"
  using assms
proof (induction c arbitrary: cur)
  case (Cons s c)
  show ?case
  proof (cases "cur \<noteq> [] \<and> chunkLen cur + slen s > b")
    case True
    then have "packStep b (chs, cur, chunkLen cur) s = (chs @ [cur], [s], chunkLen [s])"
      by (simp add: packStep_def)
    then show ?thesis using pack_no_break[of "[s]" c b "chs @ [cur]"] Cons.prems by simp
  next
    case False
    then have "packStep b (chs, cur, chunkLen cur) s = (chs, cur @ [s], chunkLen (cur @ [s]))"
      by (auto simp: packStep_def)
    then show ?thesis using Cons.IH[of "cur @ [s]"] Cons.prems by simp
  qed
qed simp

lemma pack_chunks_bound:
  assumes "\<forall>c\<in>set css. chunkLen c \<le> b"
  shows "\<exists>chs' cur'. foldl (packStep b) (chs, cur, chunkLen cur) (concat css) = (chs', cur', chunkLen cur') \<and>
    length chs' \<le> length chs + length css"
  using assms
proof (induction css arbitrary: chs cur)
  case (Cons c css)
  obtain chs1 cur1 where 1: "foldl (packStep b) (chs, cur, chunkLen cur) c = (chs1, cur1, chunkLen cur1)"
    "length chs1 \<le> Suc (length chs)" using pack_one_break[of c b chs cur] Cons.prems by auto
  obtain chs2 cur2 where "foldl (packStep b) (chs1, cur1, chunkLen cur1) (concat css) = (chs2, cur2, chunkLen cur2)"
    "length chs2 \<le> length chs1 + length css" using Cons.IH[of chs1 cur1] Cons.prems by auto
  then show ?case using 1 by simp
qed simp

lemma packSections_optimal:
  assumes "\<forall>c\<in>set css. chunkLen c \<le> b" "concat css = ss"
  shows "length (packSections ss b) \<le> length css"
proof (cases css)
  case Nil
  then show ?thesis using assms by (simp add: packSections_def)
next
  case (Cons c css')
  have "foldl (packStep b) ([], [], chunkLen []) c = ([], c, chunkLen c)"
    using pack_no_break[of "[]" c b "[]"] assms(1) Cons by simp
  moreover obtain chs cur where
    "foldl (packStep b) ([], c, chunkLen c) (concat css') = (chs, cur, chunkLen cur)" "length chs \<le> length css'"
    using pack_chunks_bound[of css' b "[]" c] assms(1) Cons by auto
  ultimately show ?thesis using assms(2) Cons by (auto simp: packSections_def)
qed

section \<open>Framing\<close>

lemma frameChunk_len:
  assumes "slen (frameTail cfg tot truncated i) \<le> cc_MaxLength cfg"
  shows "slen (frameChunk cfg tot truncated i sections) \<le> cc_MaxLength cfg"
proof -
  let ?m = "cc_MaxLength cfg - slen (frameTail cfg tot truncated i)"
  have "slen (cutShort body ?m) \<le> ?m" for body
    using cutShort_len[of ?m body] assms by simp
  from this[of "frameBody cfg tot i sections"] show ?thesis by (auto simp: frameChunk_def Let_def)
qed

definition tailsFit :: "chunkConfig \<Rightarrow> bool" where
  "tailsFit cfg = (max (slen continuedIn)
     (slen footerSeparator + slen (cc_Footer cfg) + slen truncatedNote) \<le> cc_MaxLength cfg)"

lemma frameTail_fits: "tailsFit cfg \<Longrightarrow> slen (frameTail cfg tot truncated i) \<le> cc_MaxLength cfg"
  by (auto simp: tailsFit_def frameTail_def)

lemma frameChunks_len: "tailsFit cfg \<Longrightarrow> c \<in> set (frameChunks chunks truncated cfg) \<Longrightarrow> slen c \<le> cc_MaxLength cfg"
  using frameChunk_len[OF frameTail_fits] by (auto simp: frameChunks_def Let_def)

lemma frameChunks_count: "length (frameChunks chunks truncated cfg) = max 1 (length chunks)"
  by (cases chunks) (auto simp: frameChunks_def Let_def)

lemma chunkHeader_len:
  assumes "part \<le> tot" "tot \<le> MaxCommentsPerCheck"
  shows "length (chunkHeader ident part tot) \<le> length (chunkHeader ident MaxCommentsPerCheck MaxCommentsPerCheck)"
proof -
  have "length (itoa part) \<le> length (itoa MaxCommentsPerCheck)" "length (itoa tot) \<le> length (itoa MaxCommentsPerCheck)"
    using assms by (auto intro: itoa_length_mono)
  moreover have "MaxCommentsPerCheck \<noteq> 1" by (simp add: MaxCommentsPerCheck_def)
  ultimately show ?thesis by (simp add: chunkHeader_def)
qed

lemma frameChunk_uncut:
  assumes "i < tot" "tot \<le> MaxCommentsPerCheck" "chunkLen sections \<le> sectionBudget cfg"
  shows "frameChunk cfg tot truncated i sections =
    frameBody cfg tot i sections @ frameTail cfg tot truncated i"
proof -
  have "length (chunkHeader (cc_Identifier cfg) (i + 1) tot)
      \<le> length (chunkHeader (cc_Identifier cfg) MaxCommentsPerCheck MaxCommentsPerCheck)"
    using assms by (intro chunkHeader_len) auto
  moreover have "slen (frameTail cfg tot truncated i)
      \<le> max (slen continuedIn) (slen footerSeparator + slen (cc_Footer cfg) + slen truncatedNote)"
    by (auto simp: frameTail_def)
  moreover have "slen (if i > 0 then continuedFrom else []) \<le> slen continuedFrom" by simp
  ultimately have "slen (frameBody cfg tot i sections) + slen (frameTail cfg tot truncated i) \<le> cc_MaxLength cfg"
    using assms(3) by (simp add: frameBody_def str_join_empty chunkLen_concat sectionBudget_def Let_def)
  then show ?thesis by (simp add: frameChunk_def Let_def)
qed

lemma splitIntoChunks_count:
  assumes "0 < cc_MaxChunks cfg"
  shows "1 \<le> length (splitIntoChunks ss cfg) \<and> slen (splitIntoChunks ss cfg) \<le> cc_MaxChunks cfg"
  using assms by (auto simp: splitIntoChunks_def Let_def frameChunks_count)

lemma splitIntoChunks_len:
  "tailsFit cfg \<Longrightarrow> c \<in> set (splitIntoChunks ss cfg) \<Longrightarrow> slen c \<le> cc_MaxLength cfg"
  by (auto simp: splitIntoChunks_def Let_def intro: frameChunks_len)

text \<open>When every section fits the budget nothing is cut: the comments carry the sections of
  the packed chunks as they are.\<close>

lemma splitIntoChunks_verbatim:
  assumes fit: "\<forall>s\<in>set ss. slen s \<le> sectionBudget cfg" and "ss \<noteq> []"
    and few: "slen (packSections ss (sectionBudget cfg)) \<le> cc_MaxChunks cfg"
    and cap: "cc_MaxChunks cfg \<le> int MaxCommentsPerCheck"
  shows "splitIntoChunks ss cfg =
    (let cs = packSections ss (sectionBudget cfg) in
     map (\<lambda>i. frameBody cfg (length cs) i (cs ! i) @ frameTail cfg (length cs) False i) [0..<length cs])"
proof -
  let ?cs = "packSections ss (sectionBudget cfg)"
  have spec: "concat ?cs = ss" "packed (sectionBudget cfg) ?cs" using packSections_spec by auto
  have ne: "?cs \<noteq> []" using spec(1) assms(2) by auto
  have hd: "hd ?cs \<noteq> []" using packed_nonempty[OF spec(2)] ne by simp
  have "chunkLen c \<le> sectionBudget cfg" if "c \<in> set ?cs" for c
  proof (cases "length c = 1")
    case True
    then obtain s where "c = [s]" by (metis One_nat_def length_0_conv length_Suc_conv)
    moreover have "s \<in> set (concat ?cs)"
      unfolding set_concat using that \<open>c = [s]\<close> by (metis UN_I list.set_intros(1))
    ultimately show ?thesis using fit spec(1) by simp
  next
    case False
    then show ?thesis using packed_fit[OF spec(2) that] by blast
  qed
  then have "frameChunk cfg (length ?cs) False i (?cs ! i) =
      frameBody cfg (length ?cs) i (?cs ! i) @ frameTail cfg (length ?cs) False i" if "i < length ?cs" for i
    using that few cap by (intro frameChunk_uncut) auto
  then show ?thesis
    using few ne hd by (simp add: splitIntoChunks_def frameChunks_def Let_def)
qed

section \<open>Properties\<close>

text \<open>Packing keeps every section and their order, fills a chunk only up to the budget (a single
  section may exceed it), starts a new chunk only when the next section does not fit, and
  needs no more chunks than any other way of packing the sections in order.\<close>

theorem packSections_greedy_optimal:
  assumes "list_all (\<lambda>c. chunkLen c \<le> b) css" "concat css = ss"
  shows "concat (packSections ss b) = ss \<and> packed b (packSections ss b) \<and>
    length (packSections ss b) \<le> length css"
  using packSections_spec[of ss b] packSections_optimal[of css b ss] assms by (simp add: list_all_iff)

theorem packSections_greedy_optimal_witness:
  "length (packSections [''aa'', ''bb'', ''c''] 3) \<le> length [[''aa''], [''bb'', ''c'']]"
  using packSections_greedy_optimal[of 3 "[[''aa''], [''bb'', ''c'']]" "[''aa'', ''bb'', ''c'']"] by simp

text \<open>When every section fits the budget of a chunk and the chunks fit the allowed number of
  comments, nothing is cut or dropped: each comment is its header, the sections of its
  chunk as they are, and its tail.\<close>

theorem comments_carry_sections_verbatim:
  assumes "list_all (\<lambda>s. slen s \<le> sectionBudget cfg) ss" "ss \<noteq> []"
    and "slen (packSections ss (sectionBudget cfg)) \<le> cc_MaxChunks cfg"
    and "cc_MaxChunks cfg \<le> int MaxCommentsPerCheck"
  shows "splitIntoChunks ss cfg =
    (let cs = packSections ss (sectionBudget cfg) in
     map (\<lambda>i. frameBody cfg (length cs) i (cs ! i) @ frameTail cfg (length cs) False i) [0..<length cs])"
  using splitIntoChunks_verbatim[of ss cfg] assms by (simp add: list_all_iff)

definition demo_cfg :: chunkConfig where
  "demo_cfg = \<lparr>cc_MaxLength = 300, cc_MaxChunks = 3, cc_Identifier = ''prod'', cc_Footer = ''done''\<rparr>"

theorem comments_carry_sections_verbatim_witness:
  "splitIntoChunks [''one'', ''two''] demo_cfg =
    (let cs = packSections [''one'', ''two''] (sectionBudget demo_cfg) in
     map (\<lambda>i. frameBody demo_cfg (length cs) i (cs ! i) @ frameTail demo_cfg (length cs) False i) [0..<length cs])"
proof -
  have "list_all (\<lambda>s. slen s \<le> sectionBudget demo_cfg) [''one'', ''two'']"
    "slen (packSections [''one'', ''two''] (sectionBudget demo_cfg)) \<le> cc_MaxChunks demo_cfg"
    "cc_MaxChunks demo_cfg \<le> int MaxCommentsPerCheck" by code_simp+
  then show ?thesis by (intro comments_carry_sections_verbatim) auto
qed

end
