(* ===== verification/MsgReport.thy ===== *)
theory MsgReport
  imports CommitState MsgComment
begin

text \<open>
  \<open>pkg/msg/message.go\<close>: the \<open>Message\<close> that concurrent checks add results to, and the
  rendering of its applications as comments.  Every exported method runs under the lock, so
  an operation is a function on the record and a concurrent run is a list of operations.
  The emoji of a state comes from the VCS client and is an argument, as are the parts of the
  footer that the environment supplies (host name, duration, build commit).
\<close>

section \<open>Messages\<close>

record result =
  res_State :: commit_state
  res_Summary :: string
  res_Details :: string
  res_NoChangesDetected :: bool
  res_Sticky :: bool

fun hasSticky :: "result list \<Rightarrow> bool" where
  "hasSticky [] = False"
| "hasSticky (r # rs) = (if res_Sticky r then True else hasSticky rs)"

record message =
  m_Name :: string
  m_Owner :: string
  m_CheckID :: int
  m_NoteID :: int
  m_apps :: "result list strmap"
  m_deleted :: "string set"

definition NewMessage :: "string \<Rightarrow> int \<Rightarrow> int \<Rightarrow> message" where
  "NewMessage name prId commentId =
    \<lparr>m_Name = name, m_Owner = [], m_CheckID = prId, m_NoteID = commentId,
     m_apps = (\<lambda>_. None), m_deleted = {}\<rparr>"

definition isDeleted :: "message \<Rightarrow> string \<Rightarrow> bool" where
  "isDeleted m app = (app \<in> m_deleted m)"

text \<open>\<open>Message.WorstState\<close>; \<open>apps\<close> is the order in which the map is enumerated.\<close>

definition msgWorstState :: "string list \<Rightarrow> message \<Rightarrow> commit_state" where
  "msgWorstState apps m = foldl (\<lambda>state app.
     if isDeleted m app then state
     else foldl (\<lambda>state r. if res_NoChangesDetected r then state else WorstState state (res_State r))
            state (case m_apps m app of None \<Rightarrow> [] | Some rs \<Rightarrow> rs))
     StateNone apps"

definition RemoveApp :: "string \<Rightarrow> message \<Rightarrow> message" where
  "RemoveApp app m =
    (case m_apps m app of
       Some results \<Rightarrow> if hasSticky results then m else m\<lparr>m_deleted := insert app (m_deleted m)\<rparr>
     | None \<Rightarrow> m\<lparr>m_deleted := insert app (m_deleted m)\<rparr>)"

definition AddNewApp :: "string \<Rightarrow> message \<Rightarrow> message" where
  "AddNewApp app m =
    (let m = m\<lparr>m_deleted := m_deleted m - {app}\<rparr> in
     case m_apps m app of
       None \<Rightarrow> m\<lparr>m_apps := (m_apps m)(app \<mapsto> [])\<rparr>
     | Some _ \<Rightarrow> m)"

definition AddToAppMessage :: "string \<Rightarrow> result \<Rightarrow> message \<Rightarrow> message" where
  "AddToAppMessage app r m =
    (let m = m\<lparr>m_deleted := m_deleted m - {app}\<rparr>;
         rs = (case m_apps m app of None \<Rightarrow> [] | Some rs \<Rightarrow> rs)
     in m\<lparr>m_apps := (m_apps m)(app \<mapsto> rs @ [r])\<rparr>)"

section \<open>Rendering\<close>

definition buildFooter ::
  "string \<Rightarrow> string \<Rightarrow> string \<Rightarrow> string \<Rightarrow> string \<Rightarrow> bool \<Rightarrow> nat \<Rightarrow> nat \<Rightarrow> string" where
  "buildFooter hostname duration gitCommit commitSHA labelFilter showDebugInfo appsChecked totalChecked =
    (if \<not> showDebugInfo then ''<small> _Done. CommitSHA: '' @ commitSHA @ ''_ <small>'' @ [nl]
     else let envStr = (if labelFilter \<noteq> [] then '', Env: '' @ labelFilter else []) in
       ''<small> _Done: Pod: '' @ hostname @ '', Dur: '' @ duration @ '', SHA: '' @ gitCommit @ envStr @
       ''_ <small>, Apps Checked: '' @ itoa appsChecked @ '', Total Checks: '' @ itoa totalChecked @ [nl])"

definition appWrapOpen :: string where
  "appWrapOpen = ''<details>'' @ [nl] @ ''<summary>'' @ [nl, nl]"

definition appWrapClose :: string where
  "appWrapClose = nl # ''</summary>'' @ [nl, nl]"

definition appWrapEnd :: string where
  "appWrapEnd = ''</details>''"

definition checkSeparator :: string where
  "checkSeparator = [nl, nl] @ ''---'' @ [nl, nl]"

definition partSuffix :: "nat \<Rightarrow> nat \<Rightarrow> string" where
  "partSuffix part tot = '' (Part '' @ itoa part @ '' of '' @ itoa tot @ '')''"

record checkBlock =
  cb_summary :: string
  cb_details :: string

definition renderCheck :: "checkBlock \<Rightarrow> string" where
  "renderCheck c = ''<details>'' @ [nl] @ ''<summary>'' @ cb_summary c @ ''</summary>'' @ [nl, nl] @
     cb_details c @ [nl] @ ''</details>''"

definition wrapAppSection :: "string \<Rightarrow> string list \<Rightarrow> string" where
  "wrapAppSection appHeader checks =
    appWrapOpen @ appHeader @ appWrapClose @ str_join checkSeparator checks @ appWrapEnd"

text \<open>A part needs at least one line, so there are no more parts than bytes; this bounds the
  room that the part suffix can take, and with it the retries of \<open>splitCheck\<close>.\<close>

lemma contentLines_le: "length (contentLines c) \<le> length c"
proof -
  have "[] \<notin> set ls \<Longrightarrow> length ls \<le> length (concat ls)" for ls :: "string list"
  proof (induction ls)
    case (Cons l ls)
    then show ?case by (cases l) auto
  qed simp
  from this[of "contentLines c"] show ?thesis by (simp add: contentLines_def[of c, symmetric]) (simp add: contentLines_def)
qed

lemma frames_length [simp]: "length (frames s gs) = length gs"
  by (induction gs arbitrary: s) auto

lemma splitDetails_count: "length (splitDetailsAtLines c m) \<le> Suc (length c)"
proof (cases "m \<le> 0 \<or> slen c \<le> m")
  case True
  then show ?thesis by (simp add: splitDetailsAtLines_def)
next
  case False
  then obtain gs where gs: "splitDetailsAtLines c m = frames md_zero gs" "[] \<notin> set gs"
    "list_all2 cutOf (contentLines c) (concat gs)"
    using splitDetails_frames[of m c] by auto
  have "length gs \<le> length (concat gs)" using gs(2)
  proof (induction gs)
    case (Cons g gs)
    then show ?case by (cases g) auto
  qed simp
  also have "\<dots> = length (contentLines c)" using gs(3) list_all2_lengthD by metis
  finally show ?thesis using gs(1) contentLines_le[of c] by simp
qed

lemma partSuffix_mono: "m \<le> n \<Longrightarrow> slen (partSuffix m m) \<le> slen (partSuffix n n)"
  using itoa_length_mono[of m n] by (simp add: partSuffix_def)

function splitCheckLoop :: "string \<Rightarrow> int \<Rightarrow> int \<Rightarrow> string list" where
  "splitCheckLoop details room reserve =
    (let parts = splitDetailsAtLines details (room - reserve);
         needed = slen (partSuffix (length parts) (length parts))
     in if needed \<le> reserve then parts else splitCheckLoop details room needed)"
  by pat_completeness auto

termination
proof (relation "measure (\<lambda>(details, _, reserve).
    nat (slen (partSuffix (Suc (length details)) (Suc (length details))) - reserve))")
  fix details :: string and room reserve :: int and parts :: "string list" and needed :: int
  assume "parts = splitDetailsAtLines details (room - reserve)"
    "needed = slen (partSuffix (length parts) (length parts))" "\<not> needed \<le> reserve"
  then show "((details, room, needed), (details, room, reserve)) \<in> measure (\<lambda>(details, _, reserve).
      nat (slen (partSuffix (Suc (length details)) (Suc (length details))) - reserve))"
    using partSuffix_mono[OF splitDetails_count[of details "room - reserve"]] by simp
qed simp

declare splitCheckLoop.simps [simp del]

definition splitCheck :: "checkBlock \<Rightarrow> int \<Rightarrow> string list" where
  "splitCheck c maxLen =
    (let wrapLen = slen (renderCheck \<lparr>cb_summary = cb_summary c, cb_details = []\<rparr>);
         parts = splitCheckLoop (cb_details c) (maxLen - wrapLen) (slen (partSuffix 99 99))
     in map (\<lambda>i. renderCheck
          \<lparr>cb_summary = cb_summary c @ (if length parts > 1 then partSuffix (i + 1) (length parts) else []),
           cb_details = parts ! i\<rparr>) [0..<length parts])"

text \<open>The first loop of \<open>buildAppSections\<close>: the checks to render, the state of the
  application, and whether some check reported that there are no changes.\<close>

definition collectCheck ::
  "(commit_state \<Rightarrow> string) \<Rightarrow> checkBlock list \<times> commit_state \<times> bool \<Rightarrow> result
   \<Rightarrow> checkBlock list \<times> commit_state \<times> bool" where
  "collectCheck emoji st check =
    (let (checks, appState, noChanges) = st in
     if res_NoChangesDetected check then (checks, appState, True)
     else if res_State check = StateSkip then st
     else let summary =
            (if res_State check = StateNone then res_Summary check
             else res_Summary check @ '' '' @ BareString (res_State check) @ '' '' @ emoji (res_State check))
          in (checks @ [\<lparr>cb_summary = summary, cb_details = res_Details check\<rparr>],
              WorstState appState (res_State check), noChanges))"

text \<open>The second loop: the sections so far, the group being filled, its wrapped length.\<close>

type_synonym group_state = "string list \<times> string list \<times> int"

definition flushGroup :: "string \<Rightarrow> group_state \<Rightarrow> group_state" where
  "flushGroup appHeader st = (let (sections, grp, _) = st in
     (sections @ [wrapAppSection appHeader grp], [], slen (wrapAppSection appHeader [])))"

definition groupCheck :: "string \<Rightarrow> int \<Rightarrow> group_state \<Rightarrow> checkBlock \<Rightarrow> group_state" where
  "groupCheck appHeader maxSectionLen st c =
    (let (sections, grp, groupLen) = st;
         wrapLen = slen (wrapAppSection appHeader []);
         rendered = renderCheck c;
         added = slen rendered + (if grp \<noteq> [] then slen checkSeparator else 0)
     in if groupLen + added \<le> maxSectionLen then (sections, grp @ [rendered], groupLen + added)
        else let (sections, grp, groupLen) = (if grp \<noteq> [] then flushGroup appHeader st else st)
             in if wrapLen + slen rendered \<le> maxSectionLen
                then (sections, [rendered], wrapLen + slen rendered)
                else (sections @ map (\<lambda>part. wrapAppSection appHeader [part])
                        (splitCheck c (maxSectionLen - wrapLen)), grp, groupLen))"

definition buildAppSections ::
  "(commit_state \<Rightarrow> string) \<Rightarrow> string \<Rightarrow> result list \<Rightarrow> int \<Rightarrow> string list" where
  "buildAppSections emoji appName results maxSectionLen =
    (let (checks, appState, noChanges) = foldl (collectCheck emoji) ([], StateSuccess, False) results in
     if noChanges \<and> \<not> hasSticky results then []
     else let appHeader = ''## ArgoCD Application Checks: `'' @ appName @ ''` '' @ emoji appState;
              st = foldl (groupCheck appHeader maxSectionLen)
                     ([], [], slen (wrapAppSection appHeader [])) checks;
              (sections, grp, _) = st
          in if grp \<noteq> [] \<or> sections = [] then fst (flushGroup appHeader st) else sections)"

section \<open>Comments\<close>

fun buildSectionsFrom ::
  "(commit_state \<Rightarrow> string) \<Rightarrow> message \<Rightarrow> int \<Rightarrow> int \<Rightarrow> string list \<Rightarrow> string list \<Rightarrow> string list" where
  "buildSectionsFrom emoji m budget maxChunks sections [] = sections"
| "buildSectionsFrom emoji m budget maxChunks sections (appName # names) =
    (if slen (packSections sections budget) > maxChunks then sections
     else if isDeleted m appName then buildSectionsFrom emoji m budget maxChunks sections names
     else buildSectionsFrom emoji m budget maxChunks
            (sections @ buildAppSections emoji appName (the (m_apps m appName)) budget) names)"

definition buildSections ::
  "(commit_state \<Rightarrow> string) \<Rightarrow> message \<Rightarrow> string list \<Rightarrow> int \<Rightarrow> int \<Rightarrow> string list" where
  "buildSections emoji m names budget maxChunks = buildSectionsFrom emoji m budget maxChunks [] names"

record commentOptions =
  co_CommitSHA :: string
  co_LabelFilter :: string
  co_ShowDebugInfo :: bool
  co_Identifier :: string
  co_AppsChecked :: nat
  co_TotalChecked :: nat
  co_MaxLength :: int
  co_MaxComments :: int

definition clampComments :: "int \<Rightarrow> int" where
  "clampComments n = (if n \<le> 0 \<or> n > int MaxCommentsPerCheck then int MaxCommentsPerCheck else n)"

definition commentConfig :: "(commentOptions \<Rightarrow> string) \<Rightarrow> commentOptions \<Rightarrow> chunkConfig" where
  "commentConfig footer opts =
    \<lparr>cc_MaxLength = co_MaxLength opts, cc_MaxChunks = clampComments (co_MaxComments opts),
     cc_Identifier = co_Identifier opts, cc_Footer = footer opts\<rparr>"

definition footerFor :: "string \<Rightarrow> string \<Rightarrow> string \<Rightarrow> commentOptions \<Rightarrow> string" where
  "footerFor hostname duration gitCommit opts =
    buildFooter hostname duration gitCommit (co_CommitSHA opts) (co_LabelFilter opts)
      (co_ShowDebugInfo opts) (co_AppsChecked opts) (co_TotalChecked opts)"

text \<open>\<open>BuildComment\<close>; \<open>keys\<close> is the order in which \<open>getSortedKeys\<close> enumerates the map.\<close>

definition BuildComment ::
  "(commit_state \<Rightarrow> string) \<Rightarrow> (commentOptions \<Rightarrow> string) \<Rightarrow> string list \<Rightarrow> message
   \<Rightarrow> commentOptions \<Rightarrow> string list" where
  "BuildComment emoji footer keys m opts =
    (let names = sort keys;
         cfg = commentConfig footer opts;
         sections = buildSections emoji m names (oneCommentBudget cfg) 1
     in if fitsOneComment cfg sections then frameChunks [sections] False cfg
        else splitIntoChunks (buildSections emoji m names (sectionBudget cfg) (cc_MaxChunks cfg)) cfg)"


section \<open>Runs of a message\<close>

text \<open>What the checks of one report do to their message, in the order in which they get the lock.\<close>

datatype msg_op = OpRemove string | OpNew string | OpAdd string result

fun msg_step :: "message \<Rightarrow> msg_op \<Rightarrow> message" where
  "msg_step m (OpRemove app) = RemoveApp app m"
| "msg_step m (OpNew app) = AddNewApp app m"
| "msg_step m (OpAdd app r) = AddToAppMessage app r m"

definition msg_run :: "message \<Rightarrow> msg_op list \<Rightarrow> message" where
  "msg_run = foldl msg_step"

fun added :: "string \<Rightarrow> msg_op \<Rightarrow> result list" where
  "added app (OpAdd a r) = (if a = app then [r] else [])"
| "added app _ = []"

fun touches :: "string \<Rightarrow> msg_op \<Rightarrow> bool" where
  "touches app (OpAdd a r) = (a = app)"
| "touches app (OpNew a) = (a = app)"
| "touches app (OpRemove a) = False"

definition results_of :: "message \<Rightarrow> string \<Rightarrow> result list" where
  "results_of m app = (case m_apps m app of None \<Rightarrow> [] | Some rs \<Rightarrow> rs)"

lemma hasSticky_iff: "hasSticky rs \<longleftrightarrow> (\<exists>r\<in>set rs. res_Sticky r)"
  by (induction rs) auto

lemma msg_step_results: "results_of (msg_step m op) app = results_of m app @ added app op"
  by (cases op) (auto simp: results_of_def RemoveApp_def AddNewApp_def AddToAppMessage_def Let_def
      split: option.splits)

lemma msg_step_known: "m_apps (msg_step m op) app \<noteq> None \<longleftrightarrow> m_apps m app \<noteq> None \<or> touches app op"
  by (cases op) (auto simp: RemoveApp_def AddNewApp_def AddToAppMessage_def Let_def split: option.splits)

lemma msg_run_results: "results_of (msg_run m ops) app = results_of m app @ concat (map (added app) ops)"
  by (induction ops arbitrary: m) (simp_all add: msg_run_def msg_step_results)

lemma msg_run_known:
  "m_apps (msg_run m ops) app \<noteq> None \<longleftrightarrow> m_apps m app \<noteq> None \<or> (\<exists>op\<in>set ops. touches app op)"
proof (induction ops arbitrary: m)
  case (Cons op ops)
  show ?case
    using Cons.IH[of "msg_step m op"] msg_step_known[of m op app]
    by (simp add: msg_run_def del: not_None_eq)
qed (simp add: msg_run_def)

lemma NewMessage_empty [simp]:
  "results_of (NewMessage name pr note) app = []" "m_apps (NewMessage name pr note) app = None"
  by (simp_all add: results_of_def NewMessage_def)

definition sticky_kept :: "message \<Rightarrow> bool" where
  "sticky_kept m = (\<forall>app\<in>m_deleted m. \<not> hasSticky (results_of m app))"

lemma sticky_kept_step [inv_intros]: "sticky_kept m \<Longrightarrow> sticky_kept (msg_step m op)"
  by (cases op) (auto simp: sticky_kept_def results_of_def RemoveApp_def AddNewApp_def
      AddToAppMessage_def Let_def split: option.splits if_splits)

lemma sticky_kept_run: "sticky_kept m \<Longrightarrow> sticky_kept (msg_run m ops)"
  unfolding msg_run_def by (rule foldl_invariant) (auto intro: inv_intros)

lemma sticky_kept_new: "sticky_kept (NewMessage name pr note)"
  by (simp add: sticky_kept_def NewMessage_def)

section \<open>The worst state\<close>

definition counted :: "message \<Rightarrow> string \<Rightarrow> commit_state list" where
  "counted m app = (if isDeleted m app then []
     else map res_State (filter (\<lambda>r. \<not> res_NoChangesDetected r) (results_of m app)))"

lemma msgWorstState_fold: "msgWorstState apps m = foldl WorstState StateNone (concat (map (counted m) apps))"
proof -
  have inner: "foldl (\<lambda>state r. if res_NoChangesDetected r then state else WorstState state (res_State r)) s rs =
      foldl WorstState s (map res_State (filter (\<lambda>r. \<not> res_NoChangesDetected r) rs))" for s rs
    by (induction rs arbitrary: s) auto
  have "foldl (\<lambda>state app. if isDeleted m app then state
      else foldl (\<lambda>state r. if res_NoChangesDetected r then state else WorstState state (res_State r))
             state (results_of m app)) s apps =
      foldl WorstState s (concat (map (counted m) apps))" for s
    by (induction apps arbitrary: s) (simp_all add: counted_def inner)
  then show ?thesis unfolding msgWorstState_def results_of_def[symmetric] .
qed

lemma msgWorstState_Max:
  "msgWorstState apps m = Max (insert StateNone (\<Union>app\<in>set apps. set (counted m app)))"
  by (simp add: msgWorstState_fold foldl_WorstState_Max)

section \<open>Sections of an application\<close>

lemma join_length:
  "slen (str_join sep xs) = (if xs = [] then 0 else chunkLen xs + slen sep * (slen xs - 1))"
  by (induction sep xs rule: str_join.induct) (auto simp: algebra_simps)

lemma join_snoc: "str_join sep (xs @ [x]) = (if xs = [] then x else str_join sep xs @ sep @ x)"
  by (induction sep xs rule: str_join.induct) auto

lemma wrap_snoc_length:
  "slen (wrapAppSection h (g @ [r])) =
    slen (wrapAppSection h g) + slen r + (if g \<noteq> [] then slen checkSeparator else 0)"
  by (simp add: wrapAppSection_def join_snoc)

text \<open>The state of the grouping loop once the checks \<open>done\<close> are read: sections made of groups
  of rendered checks, or of a single part of a check that had to be split.\<close>

datatype block = Group "checkBlock list" | Split checkBlock

fun block_checks :: "block \<Rightarrow> checkBlock list" where
  "block_checks (Group cs) = cs"
| "block_checks (Split c) = [c]"

fun block_sections :: "string \<Rightarrow> int \<Rightarrow> block \<Rightarrow> string list" where
  "block_sections h m (Group cs) = [wrapAppSection h (map renderCheck cs)]"
| "block_sections h m (Split c) =
    map (\<lambda>part. wrapAppSection h [part]) (splitCheck c (m - slen (wrapAppSection h [])))"

definition block_ok :: "string \<Rightarrow> int \<Rightarrow> block \<Rightarrow> bool" where
  "block_ok h m b = (case b of
     Group cs \<Rightarrow> cs \<noteq> [] \<and> slen (wrapAppSection h (map renderCheck cs)) \<le> m
   | Split c \<Rightarrow> slen (wrapAppSection h [renderCheck c]) > m)"

definition group_inv :: "string \<Rightarrow> int \<Rightarrow> checkBlock list \<Rightarrow> group_state \<Rightarrow> bool" where
  "group_inv h m cs st = (let (sections, grp, len) = st in
     \<exists>bs g. cs = concat (map block_checks bs) @ g \<and> (\<forall>b\<in>set bs. block_ok h m b) \<and>
       sections = concat (map (block_sections h m) bs) \<and> grp = map renderCheck g \<and>
       len = slen (wrapAppSection h grp) \<and> (g \<noteq> [] \<longrightarrow> len \<le> m))"

lemma group_inv_flush:
  assumes "group_inv h m cs (sections, grp, len)" "grp \<noteq> []"
  shows "group_inv h m cs (flushGroup h (sections, grp, len))"
proof -
  obtain bs g where i: "cs = concat (map block_checks bs) @ g" "\<forall>b\<in>set bs. block_ok h m b"
    "sections = concat (map (block_sections h m) bs)" "grp = map renderCheck g"
    "len = slen (wrapAppSection h grp)" "g \<noteq> [] \<longrightarrow> len \<le> m"
    using assms(1) unfolding group_inv_def by auto
  show ?thesis
    unfolding group_inv_def flushGroup_def Let_def prod.case
    using i assms(2) by (intro exI[of _ "bs @ [Group g]"] exI[of _ "[]"]) (auto simp: block_ok_def)
qed

lemma wrap_single: "slen (wrapAppSection h [r]) = slen (wrapAppSection h []) + slen r"
  using wrap_snoc_length[of h "[]" r] by simp

lemma group_inv_fresh:
  assumes "group_inv h m cs (sections, [], len)"
  shows "group_inv h m (cs @ [c])
    (if len + slen (renderCheck c) \<le> m
     then (sections, [renderCheck c], len + slen (renderCheck c))
     else (sections @ map (\<lambda>part. wrapAppSection h [part])
              (splitCheck c (m - slen (wrapAppSection h []))), [], len))"
proof -
  obtain bs where i: "cs = concat (map block_checks bs)" "\<forall>b\<in>set bs. block_ok h m b"
    "sections = concat (map (block_sections h m) bs)" "len = slen (wrapAppSection h [])"
    using assms unfolding group_inv_def by auto
  have "group_inv h m (cs @ [c]) (sections, [renderCheck c], len + slen (renderCheck c))"
    if "len + slen (renderCheck c) \<le> m"
    unfolding group_inv_def Let_def prod.case
    using i that by (intro exI[of _ bs] exI[of _ "[c]"]) (simp add: wrap_single)
  moreover have "group_inv h m (cs @ [c]) (sections @ map (\<lambda>part. wrapAppSection h [part])
      (splitCheck c (m - slen (wrapAppSection h []))), [], len)"
    if "\<not> len + slen (renderCheck c) \<le> m"
    unfolding group_inv_def Let_def prod.case
    using i that by (intro exI[of _ "bs @ [Split c]"] exI[of _ "[]"]) (auto simp: block_ok_def wrap_single)
  ultimately show ?thesis by simp
qed

lemma group_inv_step:
  assumes "group_inv h m cs st"
  shows "group_inv h m (cs @ [c]) (groupCheck h m st c)"
proof -
  obtain sections grp len where st: "st = (sections, grp, len)" by (cases st)
  obtain bs g where i: "cs = concat (map block_checks bs) @ g" "\<forall>b\<in>set bs. block_ok h m b"
    "sections = concat (map (block_sections h m) bs)" "grp = map renderCheck g"
    "len = slen (wrapAppSection h grp)" "g \<noteq> [] \<longrightarrow> len \<le> m"
    using assms unfolding st group_inv_def by auto
  let ?added = "slen (renderCheck c) + (if grp \<noteq> [] then slen checkSeparator else 0)"
  show ?thesis
  proof (cases "len + ?added \<le> m")
    case True
    then have eq: "groupCheck h m st c = (sections, grp @ [renderCheck c], len + ?added)"
      by (simp add: groupCheck_def st Let_def)
    show ?thesis
      unfolding eq group_inv_def Let_def prod.case
      using i True by (intro exI[of _ bs] exI[of _ "g @ [c]"]) (simp add: wrap_snoc_length)
  next
    case False
    show ?thesis
    proof (cases "grp = []")
      case True
      then have "len = slen (wrapAppSection h [])" using i by simp
      then show ?thesis
        using False True group_inv_fresh[of h m cs sections len c] assms
        by (simp add: groupCheck_def st Let_def split: if_splits)
    next
      case ne: False
      have "group_inv h m cs (sections @ [wrapAppSection h grp], [], slen (wrapAppSection h []))"
        using group_inv_flush[OF assms[unfolded st] ne] by (simp add: flushGroup_def)
      then show ?thesis
        using False ne group_inv_fresh[of h m cs _ _ c]
        by (simp add: groupCheck_def st flushGroup_def Let_def split: if_splits)
    qed
  qed
qed

lemma group_inv_foldl:
  "group_inv h m cs st \<Longrightarrow> group_inv h m (cs @ ds) (foldl (groupCheck h m) st ds)"
proof (induction ds arbitrary: cs st)
  case (Cons d ds)
  then show ?case using Cons.IH[OF group_inv_step[OF Cons.prems]] by simp
qed simp


subsection \<open>What is collected and what is rendered\<close>

definition shown :: "result \<Rightarrow> bool" where
  "shown r = (\<not> res_NoChangesDetected r \<and> res_State r \<noteq> StateSkip)"

definition checkOf :: "(commit_state \<Rightarrow> string) \<Rightarrow> result \<Rightarrow> checkBlock" where
  "checkOf emoji r = \<lparr>cb_summary = (if res_State r = StateNone then res_Summary r
      else res_Summary r @ '' '' @ BareString (res_State r) @ '' '' @ emoji (res_State r)),
    cb_details = res_Details r\<rparr>"

lemma collect_spec:
  "foldl (collectCheck emoji) (cs, st, nc) rs =
    (cs @ map (checkOf emoji) (filter shown rs),
     foldl WorstState st (map res_State (filter shown rs)),
     nc \<or> (\<exists>r\<in>set rs. res_NoChangesDetected r))"
proof (induction rs arbitrary: cs st nc)
  case (Cons r rs)
  have "collectCheck emoji (cs, st, nc) r =
      (if shown r then (cs @ [checkOf emoji r], WorstState st (res_State r), nc)
       else (cs, st, nc \<or> res_NoChangesDetected r))"
    by (auto simp: collectCheck_def shown_def checkOf_def)
  then show ?case using Cons.IH by (auto simp: shown_def)
qed simp

definition appHeader :: "(commit_state \<Rightarrow> string) \<Rightarrow> string \<Rightarrow> result list \<Rightarrow> string" where
  "appHeader emoji name rs = ''## ArgoCD Application Checks: `'' @ name @ ''` '' @
     emoji (foldl WorstState StateSuccess (map res_State (filter shown rs)))"

definition suppressed :: "result list \<Rightarrow> bool" where
  "suppressed rs = ((\<exists>r\<in>set rs. res_NoChangesDetected r) \<and> \<not> (\<exists>r\<in>set rs. res_Sticky r))"

lemma splitDetails_nonempty: "splitDetailsAtLines c m \<noteq> []"
proof (cases "m \<le> 0 \<or> slen c \<le> m")
  case True
  then show ?thesis by (simp add: splitDetailsAtLines_def)
next
  case False
  then obtain gs where gs: "splitDetailsAtLines c m = frames md_zero gs"
    "list_all2 cutOf (contentLines c) (concat gs)"
    using splitDetails_frames[of m c] by auto
  have "c \<noteq> []" using False by auto
  then have "contentLines c \<noteq> []" using concat_contentLines by (metis concat.simps(1))
  then have "gs \<noteq> []" using gs(2) by auto
  then show ?thesis using gs(1) by (cases gs) auto
qed

lemma splitCheckLoop_spec:
  "\<exists>r\<ge>reserve. splitCheckLoop d room reserve = splitDetailsAtLines d (room - r) \<and>
     slen (partSuffix (length (splitDetailsAtLines d (room - r))) (length (splitDetailsAtLines d (room - r)))) \<le> r \<and>
     r \<le> max reserve (slen (partSuffix (Suc (length d)) (Suc (length d))))"
proof (induction d room reserve rule: splitCheckLoop.induct)
  case (1 d room reserve)
  let ?parts = "splitDetailsAtLines d (room - reserve)"
  let ?needed = "slen (partSuffix (length ?parts) (length ?parts))"
  show ?case
  proof (cases "?needed \<le> reserve")
    case True
    then have "splitCheckLoop d room reserve = ?parts"
      by (subst splitCheckLoop.simps) (simp add: Let_def)
    then show ?thesis using True by (intro exI[of _ reserve]) simp
  next
    case False
    then have e: "splitCheckLoop d room reserve = splitCheckLoop d room ?needed"
      by (subst splitCheckLoop.simps) (simp add: Let_def)
    have "?needed \<le> slen (partSuffix (Suc (length d)) (Suc (length d)))"
      using partSuffix_mono[OF splitDetails_count] .
    then obtain r where "?needed \<le> r" "splitCheckLoop d room ?needed = splitDetailsAtLines d (room - r)"
      "slen (partSuffix (length (splitDetailsAtLines d (room - r))) (length (splitDetailsAtLines d (room - r)))) \<le> r"
      "r \<le> max ?needed (slen (partSuffix (Suc (length d)) (Suc (length d))))"
      using 1[OF refl refl False] by blast
    then show ?thesis
      using False \<open>?needed \<le> slen (partSuffix (Suc (length d)) (Suc (length d)))\<close>
      unfolding e by (intro exI[of _ r]) (simp add: max_def)
  qed
qed

lemma splitCheck_nonempty: "splitCheck c m \<noteq> []"
proof -
  have "splitCheckLoop d room s \<noteq> []" for d room s
    using splitCheckLoop_spec[of s d room] splitDetails_nonempty by metis
  then show ?thesis by (simp add: splitCheck_def Let_def)
qed

lemma buildAppSections_suppressed: "suppressed rs \<Longrightarrow> buildAppSections emoji name rs m = []"
  by (simp add: buildAppSections_def collect_spec suppressed_def hasSticky_iff)

lemma buildAppSections_blocks:
  assumes "\<not> suppressed rs"
  shows "\<exists>bs. map (checkOf emoji) (filter shown rs) = concat (map block_checks bs) \<and>
    buildAppSections emoji name rs m = concat (map (block_sections (appHeader emoji name rs) m) bs) \<and>
    (\<forall>b\<in>set bs. block_ok (appHeader emoji name rs) m b \<or> b = Group [] \<and> bs = [b])"
proof -
  let ?h = "appHeader emoji name rs" and ?cs = "map (checkOf emoji) (filter shown rs)"
  let ?st = "foldl (groupCheck ?h m) ([], [], slen (wrapAppSection ?h [])) ?cs"
  obtain sections grp len where st: "?st = (sections, grp, len)" by (cases ?st)
  have "group_inv ?h m [] ([], [], slen (wrapAppSection ?h []))"
    unfolding group_inv_def by (auto intro: exI[of _ "[]"])
  then have "group_inv ?h m ?cs ?st" using group_inv_foldl by fastforce
  then obtain bs g where i: "?cs = concat (map block_checks bs) @ g" "\<forall>b\<in>set bs. block_ok ?h m b"
    "sections = concat (map (block_sections ?h m) bs)" "grp = map renderCheck g"
    "len = slen (wrapAppSection ?h grp)" "g \<noteq> [] \<longrightarrow> len \<le> m"
    unfolding st group_inv_def by auto
  have r: "buildAppSections emoji name rs m =
      (if grp \<noteq> [] \<or> sections = [] then sections @ [wrapAppSection ?h grp] else sections)"
  proof -
    have "\<not> ((\<exists>r\<in>set rs. res_NoChangesDetected r) \<and> \<not> hasSticky rs)"
      using assms by (auto simp: suppressed_def hasSticky_iff)
    then show ?thesis
      unfolding buildAppSections_def collect_spec Let_def prod.case append_Nil
      using st unfolding appHeader_def by (auto simp: flushGroup_def)
  qed
  consider "g \<noteq> []" | "g = []" "sections \<noteq> []" | "g = []" "sections = []" by blast
  then show ?thesis
  proof cases
    case 1
    then show ?thesis using i r by (intro exI[of _ "bs @ [Group g]"]) (auto simp: block_ok_def)
  next
    case 2
    then show ?thesis using i r by (intro exI[of _ bs]) auto
  next
    case 3
    have "block_sections ?h m b \<noteq> []" for b by (cases b) (simp_all add: splitCheck_nonempty)
    then have "bs = []" using 3 i by (cases bs) auto
    then show ?thesis using i r 3 by (intro exI[of _ "[Group []]"]) auto
  qed
qed

lemma splitCheck_fits:
  assumes "\<And>l. l \<in> set (contentLines (cb_details c)) \<Longrightarrow> fenced_line b l"
    and room: "slen (renderCheck \<lparr>cb_summary = cb_summary c, cb_details = []\<rparr>) +
      max (slen (partSuffix 99 99))
        (slen (partSuffix (Suc (length (cb_details c))) (Suc (length (cb_details c))))) +
      3 * int b + 23 \<le> maxLen"
    and "p \<in> set (splitCheck c maxLen)"
  shows "slen p \<le> maxLen"
proof -
  let ?w = "slen (renderCheck \<lparr>cb_summary = cb_summary c, cb_details = []\<rparr>)"
  obtain r where r: "splitCheckLoop (cb_details c) (maxLen - ?w) (slen (partSuffix 99 99)) =
      splitDetailsAtLines (cb_details c) (maxLen - ?w - r)"
    and suffix: "slen (partSuffix (length (splitDetailsAtLines (cb_details c) (maxLen - ?w - r)))
        (length (splitDetailsAtLines (cb_details c) (maxLen - ?w - r)))) \<le> r"
    and le: "r \<le> max (slen (partSuffix 99 99))
        (slen (partSuffix (Suc (length (cb_details c))) (Suc (length (cb_details c)))))"
    using splitCheckLoop_spec by blast
  let ?parts = "splitDetailsAtLines (cb_details c) (maxLen - ?w - r)"
  have fit: "slen q \<le> maxLen - ?w - r" if "q \<in> set ?parts" for q
    using fenced.splitDetails_fits[OF _ assms(1) that] le room by simp
  obtain i where i: "i < length ?parts" "p = renderCheck
      \<lparr>cb_summary = cb_summary c @ (if length ?parts > 1 then partSuffix (i + 1) (length ?parts) else []),
       cb_details = ?parts ! i\<rparr>"
    using assms(3) r by (auto simp: splitCheck_def Let_def)
  have "slen (partSuffix (i + 1) (length ?parts)) \<le> r"
    using itoa_length_mono[of "i + 1" "length ?parts"] i(1) suffix by (simp add: partSuffix_def)
  then have "slen p \<le> ?w + r + slen (?parts ! i)" using i(2) suffix by (auto simp: renderCheck_def)
  then show ?thesis using fit[of "?parts ! i"] i(1) by simp
qed

text \<open>A result that can always be rendered within a budget: its details are fenced blocks with
  short fence lines, and its summary and the header of the section leave room for a part.\<close>

definition splittable :: "nat \<Rightarrow> string \<Rightarrow> int \<Rightarrow> checkBlock \<Rightarrow> bool" where
  "splittable b h m c = ((\<forall>l\<in>set (contentLines (cb_details c)). fenced_line b l) \<and>
     slen (wrapAppSection h []) + slen (renderCheck \<lparr>cb_summary = cb_summary c, cb_details = []\<rparr>) +
     max (slen (partSuffix 99 99))
       (slen (partSuffix (Suc (length (cb_details c))) (Suc (length (cb_details c))))) +
     3 * int b + 23 \<le> m)"

lemma buildAppSections_fit:
  assumes "slen (wrapAppSection (appHeader emoji name rs) []) \<le> m"
    and "\<forall>r\<in>set (filter shown rs). splittable b (appHeader emoji name rs) m (checkOf emoji r)"
    and "s \<in> set (buildAppSections emoji name rs m)"
  shows "slen s \<le> m"
proof (cases "suppressed rs")
  case True
  then show ?thesis using assms(3) by (simp add: buildAppSections_suppressed)
next
  case False
  let ?h = "appHeader emoji name rs"
  obtain bs where bs: "map (checkOf emoji) (filter shown rs) = concat (map block_checks bs)"
    "buildAppSections emoji name rs m = concat (map (block_sections ?h m) bs)"
    "\<forall>b\<in>set bs. block_ok ?h m b \<or> b = Group [] \<and> bs = [b]"
    using buildAppSections_blocks[OF False] by blast
  obtain bl where bl: "bl \<in> set bs" "s \<in> set (block_sections ?h m bl)"
    using assms(3) bs(2) by auto
  show ?thesis
  proof (cases bl)
    case (Group cs)
    then show ?thesis using bl bs(3) assms(1) by (auto simp: block_ok_def)
  next
    case (Split c)
    have "c \<in> set (concat (map block_checks bs))" using bl(1) Split by force
    then have "c \<in> set (map (checkOf emoji) (filter shown rs))" using bs(1) by simp
    then have c: "splittable b ?h m c" using assms(2) by auto
    obtain p where p: "p \<in> set (splitCheck c (m - slen (wrapAppSection ?h [])))" "s = wrapAppSection ?h [p]"
      using bl(2) Split by auto
    have "slen p \<le> m - slen (wrapAppSection ?h [])"
      using c by (intro splitCheck_fits[OF _ _ p(1), of b]) (auto simp: splittable_def)
    then show ?thesis using p(2) by (simp add: wrap_single)
  qed
qed

section \<open>Comments\<close>

lemma fitsOneComment_iff: "fitsOneComment cfg ss \<longleftrightarrow> chunkLen ss \<le> oneCommentBudget cfg"
proof -
  have "foldl (\<lambda>tot s. tot + slen s) n ss = n + chunkLen ss" for n
    by (induction ss arbitrary: n) auto
  then show ?thesis by (simp add: fitsOneComment_def)
qed

lemma clampComments_range: "1 \<le> clampComments n \<and> clampComments n \<le> int MaxCommentsPerCheck"
  by (simp add: clampComments_def MaxCommentsPerCheck_def)

lemma BuildComment_keys:
  assumes "keys_of (m_apps m) ks" "keys_of (m_apps m) ks'"
  shows "BuildComment emoji footer ks m opts = BuildComment emoji footer ks' m opts"
  using keys_of_sort[OF assms] by (simp add: BuildComment_def)

lemma BuildComment_lens:
  assumes "tailsFit (commentConfig footer opts)" "c \<in> set (BuildComment emoji footer ks m opts)"
  shows "slen c \<le> co_MaxLength opts"
proof -
  have "slen c \<le> cc_MaxLength (commentConfig footer opts)"
    using assms frameChunks_len splitIntoChunks_len
    by (auto simp: BuildComment_def Let_def split: if_splits)
  then show ?thesis by (simp add: commentConfig_def)
qed

lemma BuildComment_counts:
  "1 \<le> slen (BuildComment emoji footer ks m opts) \<and>
   slen (BuildComment emoji footer ks m opts) \<le> clampComments (co_MaxComments opts)"
proof -
  let ?cfg = "commentConfig footer opts"
  have "cc_MaxChunks ?cfg = clampComments (co_MaxComments opts)" by (simp add: commentConfig_def)
  then show ?thesis
    using splitIntoChunks_count[of ?cfg] clampComments_range[of "co_MaxComments opts"]
    by (auto simp: BuildComment_def Let_def frameChunks_count)
qed

text \<open>A report that fits one comment carries every section, uncut, between its header and footer.\<close>

lemma frame_one:
  assumes "fitsOneComment cfg ss"
  shows "frameChunks [ss] False cfg =
    (if ss = [] then [frameChunk cfg 1 False 0 [''No changes'']]
     else [chunkHeader (cc_Identifier cfg) 1 1 @ concat ss @ footerSeparator @ cc_Footer cfg])"
proof -
  have "slen (frameBody cfg 1 0 ss) + slen (frameTail cfg 1 False 0) \<le> cc_MaxLength cfg"
    using assms by (simp add: fitsOneComment_iff oneCommentBudget_def frameBody_def frameTail_def
        str_join_empty chunkLen_concat)
  then show ?thesis
    by (simp add: frameChunks_def frameChunk_def Let_def frameBody_def frameTail_def str_join_empty)
qed

section \<open>Properties\<close>

text \<open>Whatever the order in which checks add, re-add and remove applications, the results of an
  application are exactly the results added to it, in order, and an application is known
  exactly when a check has added it or added to it: no operation erases earlier findings.\<close>

theorem message_keeps_every_result:
  "results_of (msg_run (NewMessage name pr note) ops) app = concat (map (added app) ops) \<and>
   (m_apps (msg_run (NewMessage name pr note) ops) app \<noteq> None) = list_ex (touches app) ops"
  using msg_run_results[of "NewMessage name pr note" ops app] msg_run_known[of "NewMessage name pr note" ops app]
  by (simp add: list_ex_iff del: not_None_eq)

text \<open>An application that carries a sticky finding is never marked as deleted, whatever other
  checks do before or after the finding is added, so it is always rendered.\<close>

theorem sticky_application_never_deleted:
  assumes "res_Sticky r" "OpAdd app r \<in> set ops"
  shows "\<not> isDeleted (msg_run (NewMessage name pr note) ops) app \<and>
    \<not> suppressed (results_of (msg_run (NewMessage name pr note) ops) app)"
proof -
  let ?m = "msg_run (NewMessage name pr note) ops"
  have "r \<in> set (concat (map (added app) ops))" using assms(2) by (induction ops) auto
  then have "r \<in> set (results_of ?m app)"
    using msg_run_results[of "NewMessage name pr note" ops app] by simp
  then have st: "\<exists>r\<in>set (results_of ?m app). res_Sticky r" using assms(1) by blast
  moreover have "sticky_kept ?m" by (rule sticky_kept_run[OF sticky_kept_new])
  ultimately show ?thesis by (auto simp: sticky_kept_def isDeleted_def hasSticky_iff suppressed_def)
qed

definition demo_sticky :: result where
  "demo_sticky = \<lparr>res_State = StateWarning, res_Summary = ''added'', res_Details = '''',
     res_NoChangesDetected = False, res_Sticky = True\<rparr>"

theorem sticky_application_never_deleted_witness:
  "\<not> isDeleted (msg_run (NewMessage ''r'' 1 2) [OpRemove ''web'', OpAdd ''web'' demo_sticky, OpRemove ''web'']) ''web''"
  using sticky_application_never_deleted[of demo_sticky "''web''"
    "[OpRemove ''web'', OpAdd ''web'' demo_sticky, OpRemove ''web'']" "''r''" 1 2]
  by (simp add: demo_sticky_def)

text \<open>The state that is posted for the commit is the worst state among the results that count
  (not those of deleted applications, not those without changes), or none, whatever the order
  in which the runtime enumerates the applications.\<close>

theorem worst_state_is_maximum:
  assumes "keys_of (m_apps m) ks"
  shows "msgWorstState ks m = Max (insert StateNone (\<Union>app\<in>dom (m_apps m). set (counted m app)))"
  using msgWorstState_Max[of ks m] assms by (simp add: keys_of_def)

definition demo_message :: message where
  "demo_message = msg_run (NewMessage ''r'' 1 2) [OpAdd ''web'' demo_sticky]"

theorem worst_state_is_maximum_witness:
  "msgWorstState [''web''] demo_message =
    Max (insert StateNone (\<Union>app\<in>dom (m_apps demo_message). set (counted demo_message app)))"
  by (rule worst_state_is_maximum)
    (simp add: keys_of_def demo_message_def msg_run_def AddToAppMessage_def NewMessage_def Let_def)

text \<open>C2 A report takes at least one comment and at most the allowed number (999 when none is
  configured), none of them longer than the limit of the VCS, and the same comments whatever
  the order in which the runtime enumerates the applications.\<close>

theorem report_is_bounded:
  assumes "keys_of (m_apps m) ks" "keys_of (m_apps m) ks'" "tailsFit (commentConfig footer opts)"
  shows "BuildComment emoji footer ks m opts = BuildComment emoji footer ks' m opts \<and>
    1 \<le> slen (BuildComment emoji footer ks m opts) \<and>
    slen (BuildComment emoji footer ks m opts) \<le> clampComments (co_MaxComments opts) \<and>
    list_all (\<lambda>c. slen c \<le> co_MaxLength opts) (BuildComment emoji footer ks m opts)"
  using BuildComment_keys[OF assms(1,2)] BuildComment_counts BuildComment_lens[OF assms(3)]
  by (auto simp: list_all_iff)

definition demo_opts :: commentOptions where
  "demo_opts = \<lparr>co_CommitSHA = ''abc'', co_LabelFilter = '''', co_ShowDebugInfo = False,
     co_Identifier = ''prod'', co_AppsChecked = 1, co_TotalChecked = 1,
     co_MaxLength = 300, co_MaxComments = 0\<rparr>"

theorem report_is_bounded_witness:
  "slen (BuildComment (\<lambda>_. ''!'') (footerFor ''h'' ''1s'' ''c'') [''web''] demo_message demo_opts)
     \<le> clampComments (co_MaxComments demo_opts)"
proof -
  have "tailsFit (commentConfig (footerFor ''h'' ''1s'' ''c'') demo_opts)" by code_simp
  moreover have "keys_of (m_apps demo_message) [''web'']"
    by (simp add: keys_of_def demo_message_def msg_run_def AddToAppMessage_def NewMessage_def Let_def)
  ultimately show ?thesis
    using report_is_bounded[of demo_message "[''web'']" "[''web'']" "footerFor ''h'' ''1s'' ''c''" demo_opts
        "\<lambda>_. ''!''"] by blast
qed

text \<open>The sections of an application fit the budget when its checks can be split (fenced details
  with short fence lines, room for the summary): a check that does not fit is split, its
  retries for the width of the part suffix end, and no section comes out too long.\<close>

theorem app_sections_fit:
  assumes "slen (wrapAppSection (appHeader emoji name rs) []) \<le> m"
    and "list_all (\<lambda>r. splittable b (appHeader emoji name rs) m (checkOf emoji r)) (filter shown rs)"
  shows "list_all (\<lambda>s. slen s \<le> m) (buildAppSections emoji name rs m)"
  using buildAppSections_fit[of emoji name rs m b] assms by (simp add: list_all_iff)

theorem app_sections_fit_witness:
  "list_all (\<lambda>s. slen s \<le> 260) (buildAppSections (\<lambda>_. ''!'') ''web'' [demo_sticky] 260)"
proof -
  have "list_all (\<lambda>r. splittable 10 (appHeader (\<lambda>_. ''!'') ''web'' [demo_sticky]) 260 (checkOf (\<lambda>_. ''!'') r))
      (filter shown [demo_sticky])" by code_simp
  moreover have "slen (wrapAppSection (appHeader (\<lambda>_. ''!'') ''web'' [demo_sticky]) []) \<le> 260" by code_simp
  ultimately show ?thesis using app_sections_fit by blast
qed

end
