(* ===== verification/AppSetSpec.thy ===== *)
theory AppSetSpec
  imports MsgReport Affected
begin

text \<open>
  \<open>pkg/generator/applicationsets.go\<close> and \<open>pkg/events/appset_spec_diff.go\<close>, with the loop of
  \<open>GenerateListOfAffectedApps\<close> (\<open>check.go\<close>): what an ApplicationSet generates at the head of a pull
  request and at its base, the findings that compare the two, and which generated applications
  replace those the matcher found.  The generators and the renderer of argo-cd, and the rendering
  of a diff, are arguments.  \<open>None\<close> is a panic.
\<close>

section \<open>Generating the applications of a set\<close>

definition pointGitToPR :: "url_parsers \<Rightarrow> string \<Rightarrow> string \<Rightarrow> git_generator option \<Rightarrow> git_generator option \<times> bool" where
  "pointGitToPR ps prRepoURL prHeadSHA g =
    (case g of
       None \<Rightarrow> (None, False)
     | Some gg \<Rightarrow>
         if gg_RepoURL gg = [] then (g, False)
         else if \<not> AreSameRepos ps (gg_RepoURL gg) prRepoURL then (g, False)
         else (Some (gg\<lparr>gg_Revision := prHeadSHA\<rparr>), True))"

text \<open>The nested generators of a matrix or a merge.\<close>

definition pointNested ::
  "url_parsers \<Rightarrow> string \<Rightarrow> string \<Rightarrow> git_generator option list option \<Rightarrow> git_generator option list option \<times> bool" where
  "pointNested ps url sha gs =
    (case gs of
       None \<Rightarrow> (None, False)
     | Some xs \<Rightarrow> (Some (map (\<lambda>g. fst (pointGitToPR ps url sha g)) xs), list_ex (\<lambda>g. snd (pointGitToPR ps url sha g)) xs))"

definition pointGenerator :: "url_parsers \<Rightarrow> string \<Rightarrow> string \<Rightarrow> generator \<Rightarrow> generator \<times> bool" where
  "pointGenerator ps url sha g =
    (let (git, m1) = pointGitToPR ps url sha (gen_Git g);
         (matrix, m2) = pointNested ps url sha (gen_Matrix g);
         (merge, m3) = pointNested ps url sha (gen_Merge g)
     in (g\<lparr>gen_Git := git, gen_Matrix := matrix, gen_Merge := merge\<rparr>, m1 \<or> m2 \<or> m3))"

text \<open>\<open>refreshKey\<close> is argo-cd's name of the refresh annotation.\<close>

definition overrideGitRevisionForPR ::
  "url_parsers \<Rightarrow> string \<Rightarrow> application_set \<Rightarrow> string \<Rightarrow> string \<Rightarrow> application_set" where
  "overrideGitRevisionForPR ps refreshKey appset url sha =
    (let pointed = map (pointGenerator ps url sha) (as_Generators appset);
         appset = appset\<lparr>as_Generators := map fst pointed\<rparr>
     in if list_ex snd pointed
        then appset\<lparr>as_Annotations := (as_Annotations appset)(refreshKey \<mapsto> ''true'')\<rparr>
        else appset)"

text \<open>\<open>Transform\<close> gives templates with their parameters, \<open>Render\<close> an application, \<open>Patch\<close> applies the
  template patch of the set, if it has one.\<close>

record ('t, 'p) set_engine =
  se_Transform :: "application_set \<Rightarrow> generator \<Rightarrow> string + ('t \<times> 'p list) list"
  se_Render :: "application_set \<Rightarrow> 't \<Rightarrow> 'p \<Rightarrow> string + application"
  se_Patch :: "application_set \<Rightarrow> (application \<Rightarrow> 'p \<Rightarrow> string + application) option"

type_synonym generated = "application list \<times> string option"

definition keepFirst :: "string option \<Rightarrow> string \<Rightarrow> string option" where
  "keepFirst firstError err = (if firstError = None then Some err else firstError)"

definition generateOne ::
  "('t, 'p) set_engine \<Rightarrow> application_set \<Rightarrow> 't \<Rightarrow> generated \<Rightarrow> 'p \<Rightarrow> generated" where
  "generateOne eng appset t = (\<lambda>(res, firstError) p.
    case se_Render eng appset t p of
      Inl err \<Rightarrow> (res, keepFirst firstError err)
    | Inr app \<Rightarrow>
        (case (case se_Patch eng appset of None \<Rightarrow> Inr app | Some patch \<Rightarrow> patch app p) of
           Inl err \<Rightarrow> (res, keepFirst firstError err)
         | Inr app \<Rightarrow> (res @ [app\<lparr>app_Namespace := as_Namespace appset\<rparr>], firstError)))"

definition generateFrom ::
  "('t, 'p) set_engine \<Rightarrow> application_set \<Rightarrow> generated \<Rightarrow> generator \<Rightarrow> generated" where
  "generateFrom eng appset acc g =
    (case se_Transform eng appset g of
       Inl err \<Rightarrow> (fst acc, keepFirst (snd acc) err)
     | Inr ts \<Rightarrow> foldl (\<lambda>acc (t, ps). foldl (generateOne eng appset t) acc ps) acc ts)"

definition generateApplications :: "('t, 'p) set_engine \<Rightarrow> application_set \<Rightarrow> generated" where
  "generateApplications eng appset = foldl (generateFrom eng appset) ([], None) (as_Generators appset)"

record pr_context =
  pc_RepoURL :: string
  pc_HeadSHA :: string

definition GenerateApplicationSetApps ::
  "url_parsers \<Rightarrow> string \<Rightarrow> ('t, 'p) set_engine \<Rightarrow> application_set \<Rightarrow> pr_context \<Rightarrow> string + application list" where
  "GenerateApplicationSetApps ps refreshKey eng appset pr =
    (let appset = (if pc_HeadSHA pr \<noteq> [] \<and> pc_RepoURL pr \<noteq> []
                   then overrideGitRevisionForPR ps refreshKey appset (pc_RepoURL pr) (pc_HeadSHA pr) else appset)
     in case generateApplications eng appset of
          (apps, Some err) \<Rightarrow> Inl (''error generating applications: '' @ err)
        | (apps, None) \<Rightarrow> Inr apps)"

section \<open>Comparing head and base\<close>

record spec_finding =
  sf_AppName :: string
  sf_AppSetName :: string
  sf_Action :: string
  sf_Body :: string
  sf_State :: commit_state

text \<open>The orders in which the runtime enumerates the maps: the directories of an index, a set of
  names, and applications by name.\<close>

record map_orders =
  mo_dirs :: "app_directory \<Rightarrow> string list"
  mo_names :: "string list \<Rightarrow> string list"
  mo_apps :: "application strmap \<Rightarrow> string list"

definition orders_ok :: "map_orders \<Rightarrow> bool" where
  "orders_ok ords =
    ((\<forall>d. finite (dom (ad_dirs d)) \<longrightarrow> keys_of (ad_dirs d) (mo_dirs ords d)) \<and>
     (\<forall>ns. distinct (mo_names ords ns) \<and> set (mo_names ords ns) = set ns) \<and>
     (\<forall>m. finite (dom m) \<longrightarrow> keys_of m (mo_apps ords m)))"

definition generatedDirectory :: "argo_api \<Rightarrow> application list \<Rightarrow> app_directory option" where
  "generatedDirectory api apps = foldl (\<lambda>d app. Option.bind d (AddApp api app)) (Some NewAppDirectory) apps"

definition filterAppsByChangeList ::
  "map_orders \<Rightarrow> argo_api \<Rightarrow> application list \<Rightarrow> string list \<Rightarrow> string \<Rightarrow> application list option" where
  "filterAppsByChangeList ords api apps changeList targetBranch =
    map_option (\<lambda>d. FindApps api (mo_names ords (appsSet (mo_dirs ords d) d changeList)) d targetBranch)
      (generatedDirectory api apps)"

definition indexApps :: "application list \<Rightarrow> application strmap" where
  "indexApps apps = foldl (\<lambda>m a. m(app_Name a \<mapsto> a)) (\<lambda>_. None) apps"

text \<open>\<open>conv\<close> cleans and converts an application, \<open>printDiff\<close> renders a comparison.\<close>

definition toUnstructured :: "(application \<Rightarrow> string + 'u) \<Rightarrow> application option \<Rightarrow> string + 'u option" where
  "toUnstructured conv app = (case app of None \<Rightarrow> Inr None
     | Some a \<Rightarrow> (case conv a of Inl err \<Rightarrow> Inl err | Inr u \<Rightarrow> Inr (Some u)))"

definition unifiedAppDiff ::
  "(application \<Rightarrow> string + 'u) \<Rightarrow> ('u option \<Rightarrow> 'u option \<Rightarrow> string + string) \<Rightarrow>
   application option \<Rightarrow> application option \<Rightarrow> string + string" where
  "unifiedAppDiff conv printDiff base happ =
    (case toUnstructured conv base of Inl err \<Rightarrow> Inl err | Inr live \<Rightarrow>
     (case toUnstructured conv happ of Inl err \<Rightarrow> Inl err | Inr target \<Rightarrow>
      (case printDiff live target of Inl err \<Rightarrow> Inl err | Inr buf \<Rightarrow>
         if buf = [] then Inr [] else Inr (''```diff'' @ [nl] @ buf @ ''```''))))"

type_synonym app_diff = "application option \<Rightarrow> application option \<Rightarrow> string + string"

definition headFinding :: "app_diff \<Rightarrow> string \<Rightarrow> application strmap \<Rightarrow> application strmap \<Rightarrow> string \<Rightarrow> spec_finding option" where
  "headFinding diff appSetName headByName baseByName name =
    (case baseByName name of
       None \<Rightarrow>
         (case diff None (headByName name) of
            Inl err \<Rightarrow> None
          | Inr body \<Rightarrow> Some \<lparr>sf_AppName = name, sf_AppSetName = appSetName, sf_Action = ''added by AppSet'',
              sf_Body = body, sf_State = StateSuccess\<rparr>)
     | Some base \<Rightarrow>
         (case diff (Some base) (headByName name) of
            Inl err \<Rightarrow> None
          | Inr body \<Rightarrow> if body = [] then None
              else Some \<lparr>sf_AppName = name, sf_AppSetName = appSetName, sf_Action = ''modified by AppSet'',
                sf_Body = body, sf_State = StateSuccess\<rparr>))"

definition baseFinding :: "app_diff \<Rightarrow> string \<Rightarrow> application strmap \<Rightarrow> application strmap \<Rightarrow> string \<Rightarrow> spec_finding option" where
  "baseFinding diff appSetName headByName baseByName name =
    (if headByName name \<noteq> None then None
     else (case diff (baseByName name) None of
             Inl err \<Rightarrow> None
           | Inr body \<Rightarrow> Some \<lparr>sf_AppName = name, sf_AppSetName = appSetName, sf_Action = ''removed by AppSet'',
               sf_Body = body, sf_State = StateSuccess\<rparr>))"

definition computeAppSetSpecDiff ::
  "map_orders \<Rightarrow> app_diff \<Rightarrow> string \<Rightarrow> application list \<Rightarrow> application list \<Rightarrow> spec_finding list" where
  "computeAppSetSpecDiff ords diff appSetName headApps baseApps =
    (let headByName = indexApps headApps; baseByName = indexApps baseApps
     in List.map_filter (headFinding diff appSetName headByName baseByName) (mo_apps ords headByName) @
        List.map_filter (baseFinding diff appSetName headByName baseByName) (mo_apps ords baseByName))"

definition appSetSpecDiffForChange ::
  "map_orders \<Rightarrow> argo_api \<Rightarrow> app_diff \<Rightarrow> string \<Rightarrow> application list \<Rightarrow> application list \<Rightarrow>
   string list \<Rightarrow> string \<Rightarrow> spec_finding list option" where
  "appSetSpecDiffForChange ords api diff appSetName headApps baseApps changeList targetBranch =
    (case filterAppsByChangeList ords api headApps changeList targetBranch of None \<Rightarrow> None | Some headForDiff \<Rightarrow>
     (case filterAppsByChangeList ords api baseApps changeList targetBranch of None \<Rightarrow> None | Some baseForDiff \<Rightarrow>
        Some (computeAppSetSpecDiff ords diff appSetName headForDiff baseForDiff)))"

definition attachAppSetResult :: "message \<Rightarrow> spec_finding \<Rightarrow> message" where
  "attachAppSetResult m f =
    AddToAppMessage (sf_AppName f)
      \<lparr>res_State = sf_State f, res_Summary = sf_Action f @ '' `'' @ sf_AppSetName f @ ''`'',
       res_Details = sf_Body f, res_NoChangesDetected = False, res_Sticky = True\<rparr>
      (AddNewApp (sf_AppName f) m)"

definition flushAppSetSpecFindings :: "message \<Rightarrow> spec_finding list \<Rightarrow> message" where
  "flushAppSetSpecFindings m findings = foldl attachAppSetResult m findings"

section \<open>The affected applications of a pull request\<close>

text \<open>What the loop over the affected sets reads: the change list, the base branch, and what each set
  generates at the head and at the base.\<close>

record set_inputs =
  si_orders :: map_orders
  si_api :: argo_api
  si_diff :: app_diff
  si_changes :: "string list"
  si_BaseRef :: string
  si_head :: "application_set \<Rightarrow> string + application list"
  si_base :: "application_set \<Rightarrow> string + application list"

definition removedNames :: "application list \<Rightarrow> application list \<Rightarrow> string set" where
  "removedNames apps baseApps = app_Name ` set baseApps - app_Name ` set apps"

definition appSetStep ::
  "set_inputs \<Rightarrow> application list \<times> spec_finding list \<Rightarrow> application_set \<Rightarrow>
   (application list \<times> spec_finding list) option" where
  "appSetStep si acc appSet =
    (case si_head si appSet of
       Inl err \<Rightarrow> Some acc
     | Inr apps \<Rightarrow>
         let generatedNames = app_Name ` set apps in
         (case (case si_base si appSet of
                  Inl err \<Rightarrow> Some ({}, [])
                | Inr baseApps \<Rightarrow> map_option (\<lambda>fs. (removedNames apps baseApps, fs))
                    (appSetSpecDiffForChange (si_orders si) (si_api si) (si_diff si) (as_Name appSet)
                       apps baseApps (si_changes si) (si_BaseRef si))) of
            None \<Rightarrow> None
          | Some (gone, fs) \<Rightarrow>
              map_option (\<lambda>queued.
                 (filter (\<lambda>e. app_Name e \<notin> generatedNames \<and> app_Name e \<notin> gone) (fst acc) @ queued, snd acc @ fs))
                (filterAppsByChangeList (si_orders si) (si_api si) apps (si_changes si) (si_BaseRef si))))"

fun appSetLoop ::
  "set_inputs \<Rightarrow> application list \<times> spec_finding list \<Rightarrow> application_set list \<Rightarrow>
   (application list \<times> spec_finding list) option" where
  "appSetLoop si acc [] = Some acc"
| "appSetLoop si acc (s # ss) = (case appSetStep si acc s of None \<Rightarrow> None | Some acc \<Rightarrow> appSetLoop si acc ss)"

text \<open>The matcher is the one \<open>initMatcherFn\<close> sets, or its error; a matcher's own error is returned at
  the end, after its partial items have gone through the loop.\<close>

datatype affected_error = NoMatcher string | MatcherFailed matcher_error

definition GenerateListOfAffectedApps ::
  "set_inputs \<Rightarrow> string + matcher \<Rightarrow> (affected_items \<times> spec_finding list \<times> affected_error option) option" where
  "GenerateListOfAffectedApps si init =
    (case init of
       Inl err \<Rightarrow> Some (noItems, [], Some (NoMatcher err))
     | Inr m \<Rightarrow>
         (case m (si_changes si) (si_BaseRef si) of
            None \<Rightarrow> None
          | Some (items, err) \<Rightarrow>
              map_option (\<lambda>(apps, fs). (items\<lparr>ai_Applications := apps\<rparr>, fs, map_option MatcherFailed err))
                (appSetLoop si (ai_Applications items, []) (ai_ApplicationSets items))))"

section \<open>Lemmas\<close>

subsection \<open>Generation\<close>

text \<open>What each pair of a template and its parameters gives, in order.\<close>

definition renderedApp :: "('t, 'p) set_engine \<Rightarrow> application_set \<Rightarrow> 't \<Rightarrow> 'p \<Rightarrow> string + application" where
  "renderedApp eng appset t p =
    (case se_Render eng appset t p of Inl err \<Rightarrow> Inl err | Inr app \<Rightarrow>
      (case (case se_Patch eng appset of None \<Rightarrow> Inr app | Some patch \<Rightarrow> patch app p) of
         Inl err \<Rightarrow> Inl err | Inr app \<Rightarrow> Inr (app\<lparr>app_Namespace := as_Namespace appset\<rparr>)))"

definition outcomes :: "('t, 'p) set_engine \<Rightarrow> application_set \<Rightarrow> (string + application) list" where
  "outcomes eng appset = concat (map (\<lambda>g. case se_Transform eng appset g of
      Inl err \<Rightarrow> [Inl err]
    | Inr ts \<Rightarrow> concat (map (\<lambda>(t, ps). map (renderedApp eng appset t) ps) ts)) (as_Generators appset))"

definition successes :: "('e + 'a) list \<Rightarrow> 'a list" where
  "successes os = List.map_filter (\<lambda>oc. case oc of Inl _ \<Rightarrow> None | Inr a \<Rightarrow> Some a) os"

definition failures :: "('e + 'a) list \<Rightarrow> 'e list" where
  "failures os = List.map_filter (\<lambda>oc. case oc of Inl e \<Rightarrow> Some e | Inr _ \<Rightarrow> None) os"

definition firstOf :: "'e option \<Rightarrow> 'e list \<Rightarrow> 'e option" where
  "firstOf e es = (case e of Some x \<Rightarrow> Some x | None \<Rightarrow> (case es of [] \<Rightarrow> None | x # _ \<Rightarrow> Some x))"

lemma outcome_parts [simp]:
  "successes [] = []" "successes (Inl e # os) = successes os" "successes (Inr a # os) = a # successes os"
  "failures [] = []" "failures (Inl e # os) = e # failures os" "failures (Inr a # os) = failures os"
  by (simp_all add: successes_def failures_def List.map_filter_def)

lemma outcome_append [simp]: "successes (xs @ ys) = successes xs @ successes ys" "failures (xs @ ys) = failures xs @ failures ys"
  by (simp_all add: successes_def failures_def List.map_filter_def)

lemma in_successes: "a \<in> set (successes os) \<longleftrightarrow> Inr a \<in> set os"
proof (induction os)
  case (Cons oc os)
  then show ?case by (cases oc) auto
qed simp

lemma firstOf_Nil [simp]: "firstOf e [] = e"
  by (simp add: firstOf_def split: option.split)

lemma firstOf_append [simp]: "firstOf (firstOf e xs) ys = firstOf e (xs @ ys)"
  by (auto simp: firstOf_def split: option.splits list.splits)

lemma keepFirst_eq [simp]: "keepFirst e x = firstOf e [x]"
  by (auto simp: firstOf_def keepFirst_def split: option.splits)

lemma generateOne_eq:
  "generateOne eng s t acc p = (fst acc @ successes [renderedApp eng s t p], firstOf (snd acc) (failures [renderedApp eng s t p]))"
  by (auto simp: generateOne_def renderedApp_def split: sum.splits option.splits prod.splits)

lemma foldl_generated:
  assumes "\<And>acc x. x \<in> set xs \<Longrightarrow> f acc x = (fst acc @ successes (os x), firstOf (snd acc) (failures (os x)))"
  shows "foldl f acc xs = (fst acc @ successes (concat (map os xs)), firstOf (snd acc) (failures (concat (map os xs))))"
  using assms by (induction xs arbitrary: acc) simp_all

lemma generateFrom_eq:
  "generateFrom eng s acc g = (fst acc @ successes (case se_Transform eng s g of
      Inl err \<Rightarrow> [Inl err] | Inr ts \<Rightarrow> concat (map (\<lambda>(t, ps). map (renderedApp eng s t) ps) ts)),
    firstOf (snd acc) (failures (case se_Transform eng s g of
      Inl err \<Rightarrow> [Inl err] | Inr ts \<Rightarrow> concat (map (\<lambda>(t, ps). map (renderedApp eng s t) ps) ts))))"
proof (cases "se_Transform eng s g")
  case (Inl err)
  then show ?thesis by (simp add: generateFrom_def)
next
  case (Inr ts)
  have ps: "foldl (generateOne eng s t) acc ps = (fst acc @ successes (map (renderedApp eng s t) ps),
      firstOf (snd acc) (failures (map (renderedApp eng s t) ps)))" for t acc ps
    using foldl_generated[of ps "generateOne eng s t" "\<lambda>p. [renderedApp eng s t p]" acc]
    by (simp add: generateOne_eq)
  show ?thesis
    unfolding generateFrom_def Inr sum.case
    by (rule foldl_generated) (simp add: ps split: prod.splits)
qed

lemma generateApplications_outcomes:
  "generateApplications eng s = (successes (outcomes eng s), firstOf None (failures (outcomes eng s)))"
  unfolding generateApplications_def outcomes_def
  using foldl_generated[of "as_Generators s" "generateFrom eng s", OF generateFrom_eq, of "([], None)"] by simp

subsection \<open>Filtering by the change list\<close>

lemma generatedDirectory_snoc:
  "generatedDirectory api (apps @ [a]) = Option.bind (generatedDirectory api apps) (AddApp api a)"
  by (simp add: generatedDirectory_def)

lemma AddApp_apps:
  assumes "AddApp api a d = Some d'" "argo_api_ok api"
  shows "ad_apps d' = (if ad_apps d (app_Name a) = None then (ad_apps d)(app_Name a \<mapsto> a) else ad_apps d)"
proof (cases "ad_apps d (app_Name a)")
  case None
  then obtain ss where ss: "getSources api a = Some ss" "d' = foldl (addSource a) d ss"
    using assms(1) by (auto simp: AddApp_def)
  have "ss \<noteq> []" using ss(1) assms(2) by (auto simp: getSources_def argo_api_ok_def split: if_splits)
  then show ?thesis using None ss addSources_fold[of ss a d] by simp
qed (use assms in \<open>simp add: AddApp_def\<close>)

lemma addName_dom_finite: "finite (dom m) \<Longrightarrow> finite (dom (addName n p m))"
  by (simp add: addName_def)

lemma AddApp_finite:
  assumes "AddApp api a d = Some d'" "argo_api_ok api" "finite (dom (ad_dirs d))"
  shows "finite (dom (ad_dirs d'))"
proof (cases "ad_apps d (app_Name a)")
  case None
  then obtain ss where ss: "getSources api a = Some ss" "d' = foldl (addSource a) d ss"
    using assms(1) by (auto simp: AddApp_def)
  have "ss \<noteq> []" using ss(1) assms(2) by (auto simp: getSources_def argo_api_ok_def split: if_splits)
  then show ?thesis
    using ss addSources_fold[of ss a d] assms(3)
    by (auto intro!: foldl_invariant[where P = "\<lambda>m. finite (dom m)"] addName_dom_finite)
qed (use assms in \<open>simp add: AddApp_def\<close>)

lemma find_snoc: "find P (xs @ [x]) = (case find P xs of Some y \<Rightarrow> Some y | None \<Rightarrow> if P x then Some x else None)"
  by (induction xs) auto

lemma generatedDirectory_ok:
  assumes "generatedDirectory api apps = Some d" "argo_api_ok api"
  shows "built api d \<and> finite (dom (ad_dirs d)) \<and> (\<forall>n. ad_apps d n = find (\<lambda>a. app_Name a = n) apps)"
  using assms(1)
proof (induction apps arbitrary: d rule: rev_induct)
  case Nil
  then show ?case by (auto simp: generatedDirectory_def built_new) (simp_all add: NewAppDirectory_def)
next
  case (snoc a apps)
  then obtain d0 where d0: "generatedDirectory api apps = Some d0" "AddApp api a d0 = Some d"
    by (auto simp: generatedDirectory_snoc bind_eq_Some_conv)
  have "ad_apps d n = find (\<lambda>a. app_Name a = n) (apps @ [a])" for n
    using snoc.IH[OF d0(1)] AddApp_apps[OF d0(2) assms(2)] by (auto simp: find_snoc split: option.splits)
  then show ?case
    using snoc.IH[OF d0(1)] d0(2) AddApp_finite[OF d0(2) assms(2)] by (auto intro: built_add)
qed

text \<open>An application is touched when one of its source directories holds a changed path, or a changed
  path is one of its helm files.\<close>

definition touched :: "argo_api \<Rightarrow> string list \<Rightarrow> string \<Rightarrow> application \<Rightarrow> bool" where
  "touched api changes branch app = (shouldInclude api branch app \<and>
    list_ex (\<lambda>p. list_ex (\<lambda>dir. dirContainsPath dir p) (dirs_of api app) \<or> p \<in> set (files_of api app)) changes)"

definition firstNamed :: "application list \<Rightarrow> application \<Rightarrow> bool" where
  "firstNamed apps a = (find (\<lambda>b. app_Name b = app_Name a) apps = Some a)"

lemma filterApps_exact:
  assumes "filterAppsByChangeList ords api apps changes branch = Some res" "argo_api_ok api" "orders_ok ords"
  shows "a \<in> set res \<longleftrightarrow> firstNamed apps a \<and> touched api changes branch a"
proof -
  obtain d where d: "generatedDirectory api apps = Some d"
    "res = FindApps api (mo_names ords (appsSet (mo_dirs ords d) d changes)) d branch"
    using assms(1) by (auto simp: filterAppsByChangeList_def)
  note ok = generatedDirectory_ok[OF d(1) assms(2)]
  have k: "keys_of (ad_dirs d) (mo_dirs ords d)"
    "set (mo_names ords (appsSet (mo_dirs ords d) d changes)) = set (appsSet (mo_dirs ords d) d changes)"
    using assms(3) ok by (auto simp: orders_ok_def)
  show ?thesis
    unfolding d(2) touched_def firstNamed_def
    using FindApps_exact[OF built_index_ok[OF conjunct1[OF ok] assms(2)] k, of a branch] ok
    by (auto simp: list_ex_iff)
qed

lemma firstNamed_in: "firstNamed apps a \<Longrightarrow> a \<in> set apps"
  unfolding firstNamed_def using find_Some_iff by (metis nth_mem)

lemma filterApps_distinct:
  assumes "filterAppsByChangeList ords api apps changes branch = Some res" "argo_api_ok api" "orders_ok ords"
  shows "distinct (map app_Name res)"
proof -
  obtain d where d: "generatedDirectory api apps = Some d"
    "res = FindApps api (mo_names ords (appsSet (mo_dirs ords d) d changes)) d branch"
    using assms(1) by (auto simp: filterAppsByChangeList_def)
  have nm: "ad_apps d n = Some a \<Longrightarrow> app_Name a = n" for n a
    using built_index_ok[OF conjunct1[OF generatedDirectory_ok[OF d(1) assms(2)]] assms(2)] by (simp add: index_ok_def)
  have "distinct (map app_Name (FindApps api order d branch)) \<and>
      app_Name ` set (FindApps api order d branch) \<subseteq> set order" if "distinct order" for order
    using that by (induction order) (auto simp: FindApps_def split: option.splits dest: nm)
  then show ?thesis using d(2) assms(3) by (simp add: orders_ok_def)
qed

subsection \<open>Findings\<close>

lemma indexApps_snoc: "indexApps [] = Map.empty" "indexApps (xs @ [a]) = (indexApps xs)(app_Name a \<mapsto> a)"
  by (simp_all add: indexApps_def)

lemma indexApps_find: "indexApps apps n = find (\<lambda>a. app_Name a = n) (rev apps)"
  by (induction apps rule: rev_induct) (simp_all add: indexApps_snoc)

lemma indexApps_dom: "dom (indexApps apps) = app_Name ` set apps"
proof (induction apps rule: rev_induct)
  case (snoc a apps)
  have "dom (indexApps (apps @ [a])) = insert (app_Name a) (dom (indexApps apps))"
    unfolding indexApps_snoc by (subst dom_fun_upd) simp
  then show ?case using snoc.IH by simp
qed (simp add: indexApps_snoc)

lemma map_filter_on: "(\<And>x. x \<in> set xs \<Longrightarrow> f x = g x) \<Longrightarrow> List.map_filter f xs = List.map_filter g xs"
  by (induction xs) (simp_all add: List.map_filter_simps split: option.split)

lemma in_map_filter: "y \<in> set (List.map_filter f xs) \<longleftrightarrow> (\<exists>x\<in>set xs. f x = Some y)"
  by (induction xs) (auto simp: List.map_filter_simps split: option.splits)

lemma indexApps_name: "indexApps apps n = Some a \<Longrightarrow> app_Name a = n \<and> a \<in> set apps"
  unfolding indexApps_find using find_Some_iff by (metis (mono_tags, lifting) nth_mem set_rev)

text \<open>The finding for one name, by what generates it at the head and at the base.\<close>

definition named_finding :: "string \<Rightarrow> string \<Rightarrow> string \<Rightarrow> string \<Rightarrow> spec_finding" where
  "named_finding name appSetName action body = \<lparr>sf_AppName = name, sf_AppSetName = appSetName,
     sf_Action = action, sf_Body = body, sf_State = StateSuccess\<rparr>"

definition specFinding :: "app_diff \<Rightarrow> string \<Rightarrow> application list \<Rightarrow> application list \<Rightarrow> string \<Rightarrow> spec_finding option" where
  "specFinding diff appSetName headApps baseApps name =
    (let h = indexApps headApps name; b = indexApps baseApps name in
     if h = None \<and> b = None then None
     else case diff b h of
       Inl err \<Rightarrow> None
     | Inr body \<Rightarrow>
         if b = None then Some (named_finding name appSetName ''added by AppSet'' body)
         else if h = None then Some (named_finding name appSetName ''removed by AppSet'' body)
         else if body = [] then None
         else Some (named_finding name appSetName ''modified by AppSet'' body))"

lemma headFinding_spec:
  "indexApps hs n \<noteq> None \<Longrightarrow> headFinding diff s (indexApps hs) (indexApps bs) n = specFinding diff s hs bs n"
  by (auto simp: headFinding_def specFinding_def named_finding_def split: option.splits sum.splits)

lemma baseFinding_spec:
  "indexApps bs n \<noteq> None \<Longrightarrow> baseFinding diff s (indexApps hs) (indexApps bs) n =
    (if indexApps hs n = None then specFinding diff s hs bs n else None)"
  by (auto simp: baseFinding_def specFinding_def named_finding_def split: option.splits sum.splits)

lemma specFinding_name: "specFinding diff s hs bs n = Some f \<Longrightarrow> sf_AppName f = n"
  by (auto simp: specFinding_def named_finding_def Let_def split: if_splits sum.splits)

lemma map_filter_names:
  assumes "\<And>n f. n \<in> set ns \<Longrightarrow> g n = Some f \<Longrightarrow> sf_AppName f = n"
  shows "map sf_AppName (List.map_filter g ns) = filter (\<lambda>n. g n \<noteq> None) ns"
  using assms by (induction ns) (auto simp: List.map_filter_def)

lemma computeAppSetSpecDiff_names:
  fixes hs bs :: "application list"
  assumes "orders_ok ords"
  defines "H \<equiv> mo_apps ords (indexApps hs)" and "B \<equiv> mo_apps ords (indexApps bs)"
  shows "map sf_AppName (computeAppSetSpecDiff ords diff s hs bs) =
      filter (\<lambda>n. specFinding diff s hs bs n \<noteq> None) (H @ filter (\<lambda>n. indexApps hs n = None) B)"
    and "f \<in> set (computeAppSetSpecDiff ords diff s hs bs) \<Longrightarrow> specFinding diff s hs bs (sf_AppName f) = Some f"
proof -
  have fin: "finite (dom (indexApps xs))" for xs by (simp add: indexApps_dom)
  have H: "set H = dom (indexApps hs)" and B: "set B = dom (indexApps bs)"
    using assms(1) fin by (simp_all add: H_def B_def orders_ok_def keys_of_def)
  have eq: "computeAppSetSpecDiff ords diff s hs bs =
      List.map_filter (specFinding diff s hs bs) H @
      List.map_filter (\<lambda>n. if indexApps hs n = None then specFinding diff s hs bs n else None) B"
    unfolding computeAppSetSpecDiff_def Let_def H_def[symmetric] B_def[symmetric]
    by (intro arg_cong2[where f = append] map_filter_on) (simp_all add: H B headFinding_spec baseFinding_spec domIff)
  have "map sf_AppName (List.map_filter (specFinding diff s hs bs) H) = filter (\<lambda>n. specFinding diff s hs bs n \<noteq> None) H"
    by (rule map_filter_names) (rule specFinding_name)
  moreover have "map sf_AppName (List.map_filter (\<lambda>n. if indexApps hs n = None then specFinding diff s hs bs n else None) B) =
      filter (\<lambda>n. (if indexApps hs n = None then specFinding diff s hs bs n else None) \<noteq> None) B"
    by (rule map_filter_names) (auto split: if_splits dest: specFinding_name)
  moreover have "filter (\<lambda>n. (if indexApps hs n = None then specFinding diff s hs bs n else None) \<noteq> None) B =
      filter (\<lambda>n. specFinding diff s hs bs n \<noteq> None) (filter (\<lambda>n. indexApps hs n = None) B)"
    by (auto simp: filter_filter intro!: filter_cong)
  ultimately show "map sf_AppName (computeAppSetSpecDiff ords diff s hs bs) =
      filter (\<lambda>n. specFinding diff s hs bs n \<noteq> None) (H @ filter (\<lambda>n. indexApps hs n = None) B)"
    by (simp add: eq)
  show "specFinding diff s hs bs (sf_AppName f) = Some f" if "f \<in> set (computeAppSetSpecDiff ords diff s hs bs)"
  proof -
    note mem = that
    obtain n where "specFinding diff s hs bs n = Some f"
      using mem unfolding eq set_append Un_iff in_map_filter by (metis option.distinct(1))
    then show ?thesis using specFinding_name by metis
  qed
qed

lemma computeAppSetSpecDiff_keys:
  assumes "orders_ok ords"
  shows "keys_of (specFinding diff s hs bs) (map sf_AppName (computeAppSetSpecDiff ords diff s hs bs))"
proof -
  have fin: "finite (dom (indexApps xs))" for xs by (simp add: indexApps_dom)
  have k: "keys_of (indexApps hs) (mo_apps ords (indexApps hs))" "keys_of (indexApps bs) (mo_apps ords (indexApps bs))"
    using assms fin by (simp_all add: orders_ok_def)
  have "specFinding diff s hs bs n = Some f \<Longrightarrow> indexApps hs n \<noteq> None \<or> indexApps bs n \<noteq> None" for n f
    by (auto simp: specFinding_def Let_def split: if_splits)
  then show ?thesis
    using k unfolding keys_of_def computeAppSetSpecDiff_names(1)[OF assms] by (auto simp: dom_def)
qed

subsection \<open>The loop over the sets\<close>

definition allTouched :: "set_inputs \<Rightarrow> application \<Rightarrow> bool" where
  "allTouched si = touched (si_api si) (si_changes si) (si_BaseRef si)"

definition replacedBy :: "set_inputs \<Rightarrow> application_set \<Rightarrow> string set" where
  "replacedBy si s = (case si_head si s of Inl _ \<Rightarrow> {} | Inr apps \<Rightarrow> app_Name ` set apps \<union>
     (case si_base si s of Inl _ \<Rightarrow> {} | Inr baseApps \<Rightarrow> removedNames apps baseApps))"

definition generatedBy :: "set_inputs \<Rightarrow> application_set \<Rightarrow> application \<Rightarrow> bool" where
  "generatedBy si s a = (case si_head si s of Inl _ \<Rightarrow> False | Inr apps \<Rightarrow> firstNamed apps a \<and> allTouched si a)"

lemma appSetStep_apps:
  assumes "appSetStep si acc s = Some acc'" "argo_api_ok (si_api si)" "orders_ok (si_orders si)"
  shows "a \<in> set (fst acc') \<longleftrightarrow> a \<in> set (fst acc) \<and> app_Name a \<notin> replacedBy si s \<or> generatedBy si s a"
proof (cases "si_head si s")
  case (Inl err)
  then show ?thesis using assms(1) by (simp add: appSetStep_def replacedBy_def generatedBy_def)
next
  case (Inr apps)
  then obtain gone fs queued where g:
    "gone = (case si_base si s of Inl _ \<Rightarrow> {} | Inr baseApps \<Rightarrow> removedNames apps baseApps)"
    "filterAppsByChangeList (si_orders si) (si_api si) apps (si_changes si) (si_BaseRef si) = Some queued"
    "fst acc' = filter (\<lambda>e. app_Name e \<notin> app_Name ` set apps \<and> app_Name e \<notin> gone) (fst acc) @ queued"
    using assms(1) by (fastforce simp: appSetStep_def Let_def split: sum.splits option.splits)
  show ?thesis
    unfolding g(3) using filterApps_exact[OF g(2) assms(2,3), of a] g(1) Inr
    by (auto simp: replacedBy_def generatedBy_def allTouched_def)
qed

lemma appSetLoop_apps:
  assumes "appSetLoop si acc ss = Some acc'" "argo_api_ok (si_api si)" "orders_ok (si_orders si)"
  shows "a \<in> set (fst acc') \<longleftrightarrow>
    a \<in> set (fst acc) \<and> list_all (\<lambda>s. app_Name a \<notin> replacedBy si s) ss \<or>
    (\<exists>pre s post. ss = pre @ s # post \<and> generatedBy si s a \<and> list_all (\<lambda>s. app_Name a \<notin> replacedBy si s) post)"
  using assms(1)
proof (induction ss arbitrary: acc)
  case (Cons s ss)
  then obtain acc1 where 1: "appSetStep si acc s = Some acc1" "appSetLoop si acc1 ss = Some acc'"
    by (auto split: option.splits)
  have "(\<exists>pre t post. s # ss = pre @ t # post \<and> P t post) \<longleftrightarrow> P s ss \<or> (\<exists>pre t post. ss = pre @ t # post \<and> P t post)" for P
    by (auto simp: Cons_eq_append_conv)
  then show ?case
    unfolding Cons.IH[OF 1(2)] appSetStep_apps[OF 1(1) assms(2,3)] by auto
qed auto

section \<open>Properties\<close>

text \<open>An ApplicationSet's applications are those that its generators, the rendering and the patch
  give, in order, each in the namespace of the set; when anything fails there is no application
  at all, and the first failure is reported.\<close>

theorem generation_is_all_or_nothing:
  "GenerateApplicationSetApps ps key eng appset \<lparr>pc_RepoURL = [], pc_HeadSHA = []\<rparr> =
     (case failures (outcomes eng appset) of
        [] \<Rightarrow> Inr (successes (outcomes eng appset))
      | err # _ \<Rightarrow> Inl (''error generating applications: '' @ err)) \<and>
   list_all (\<lambda>a. app_Namespace a = as_Namespace appset) (successes (outcomes eng appset))"
proof
  show "GenerateApplicationSetApps ps key eng appset \<lparr>pc_RepoURL = [], pc_HeadSHA = []\<rparr> =
     (case failures (outcomes eng appset) of
        [] \<Rightarrow> Inr (successes (outcomes eng appset))
      | err # _ \<Rightarrow> Inl (''error generating applications: '' @ err))"
    by (simp add: GenerateApplicationSetApps_def generateApplications_outcomes firstOf_def split: list.split)
  have "app_Namespace a = as_Namespace appset" if mem: "Inr a \<in> set (outcomes eng appset)" for a
  proof -
    obtain g where "Inr a \<in> set (case se_Transform eng appset g of Inl err \<Rightarrow> [Inl err]
        | Inr ts \<Rightarrow> concat (map (\<lambda>(t, ps). map (renderedApp eng appset t) ps) ts))"
      using mem by (auto simp only: outcomes_def set_concat set_map UN_iff image_iff)
    then obtain t p where "renderedApp eng appset t p = Inr a"
      by (cases "se_Transform eng appset g") (auto simp: image_iff)
    then show ?thesis by (auto simp: renderedApp_def split: sum.splits option.splits)
  qed
  then show "list_all (\<lambda>a. app_Namespace a = as_Namespace appset) (successes (outcomes eng appset))"
    by (auto simp: list_all_iff in_successes)
qed

definition redirected :: "url_parsers \<Rightarrow> string \<Rightarrow> string \<Rightarrow> git_generator \<Rightarrow> git_generator" where
  "redirected ps url sha g = (if gg_RepoURL g \<noteq> [] \<and> AreSameRepos ps (gg_RepoURL g) url then g\<lparr>gg_Revision := sha\<rparr> else g)"

definition gitsOf :: "generator \<Rightarrow> git_generator list" where
  "gitsOf g = List.map_filter id (gen_Git g # concat (map (\<lambda>x. case x of None \<Rightarrow> [] | Some gs \<Rightarrow> gs) [gen_Matrix g, gen_Merge g]))"

lemma pointGitToPR_eq:
  "fst (pointGitToPR ps url sha g) = map_option (redirected ps url sha) g"
  "snd (pointGitToPR ps url sha g) = (case g of None \<Rightarrow> False | Some gg \<Rightarrow> gg_RepoURL gg \<noteq> [] \<and> AreSameRepos ps (gg_RepoURL gg) url)"
  by (auto simp: pointGitToPR_def redirected_def split: option.splits)

lemma list_ex_somes: "list_ex (\<lambda>g. case g of None \<Rightarrow> False | Some x \<Rightarrow> P x) gs = list_ex P (List.map_filter id gs)"
  by (induction gs) (simp_all add: List.map_filter_simps split: option.splits)

lemma pointNested_eq:
  "fst (pointNested ps url sha gs) = map_option (map (map_option (redirected ps url sha))) gs"
  by (cases gs) (simp_all add: pointNested_def pointGitToPR_eq)

text \<open>For the pull request, exactly the Git generators of its own repository, at the top or nested in
  a matrix or a merge, read the head commit; every other generator and everything else in the
  set stays as it is, and the refresh annotation is set exactly when a generator was redirected.\<close>

theorem pull_request_redirects_own_generators:
  "as_Generators (overrideGitRevisionForPR ps key appset url sha) =
     map (\<lambda>g. g\<lparr>gen_Git := map_option (redirected ps url sha) (gen_Git g),
       gen_Matrix := map_option (map (map_option (redirected ps url sha))) (gen_Matrix g),
       gen_Merge := map_option (map (map_option (redirected ps url sha))) (gen_Merge g)\<rparr>) (as_Generators appset) \<and>
   overrideGitRevisionForPR ps key appset url sha =
     appset\<lparr>as_Generators := as_Generators (overrideGitRevisionForPR ps key appset url sha),
       as_Annotations := (if list_ex (\<lambda>g. list_ex (\<lambda>gg. gg_RepoURL gg \<noteq> [] \<and> AreSameRepos ps (gg_RepoURL gg) url) (gitsOf g))
           (as_Generators appset)
         then (as_Annotations appset)(key \<mapsto> ''true'') else as_Annotations appset)\<rparr>"
proof -
  have g: "fst (pointGenerator ps url sha g) = g\<lparr>gen_Git := map_option (redirected ps url sha) (gen_Git g),
       gen_Matrix := map_option (map (map_option (redirected ps url sha))) (gen_Matrix g),
       gen_Merge := map_option (map (map_option (redirected ps url sha))) (gen_Merge g)\<rparr>" for g
    by (simp add: pointGenerator_def pointGitToPR_eq[symmetric] pointNested_eq[symmetric] split: prod.splits)
  have n: "snd (pointNested ps url sha gs) = list_ex (\<lambda>gg. gg_RepoURL gg \<noteq> [] \<and> AreSameRepos ps (gg_RepoURL gg) url)
      (List.map_filter id (case gs of None \<Rightarrow> [] | Some xs \<Rightarrow> xs))" for gs
    by (cases gs) (simp_all add: pointNested_def pointGitToPR_eq list_ex_somes)
  have mf: "List.map_filter id (xs @ ys) = List.map_filter id xs @ List.map_filter id ys" for xs ys :: "git_generator option list"
    by (simp add: List.map_filter_def)
  have s: "snd (pointGenerator ps url sha g) =
      list_ex (\<lambda>gg. gg_RepoURL gg \<noteq> [] \<and> AreSameRepos ps (gg_RepoURL gg) url) (gitsOf g)" for g
  proof -
    have "snd (pointGenerator ps url sha g) = (snd (pointGitToPR ps url sha (gen_Git g)) \<or>
        snd (pointNested ps url sha (gen_Matrix g)) \<or> snd (pointNested ps url sha (gen_Merge g)))"
      by (simp add: pointGenerator_def split: prod.splits)
    then show ?thesis
      unfolding gitsOf_def by (simp add: n pointGitToPR_eq mf List.map_filter_simps split: option.splits)
  qed
  have sx: "list_ex snd (map (pointGenerator ps url sha) gs) =
      list_ex (\<lambda>g. list_ex (\<lambda>gg. gg_RepoURL gg \<noteq> [] \<and> AreSameRepos ps (gg_RepoURL gg) url) (gitsOf g)) gs" for gs
    by (induction gs) (simp_all add: s)
  show ?thesis
    by (simp add: overrideGitRevisionForPR_def Let_def g comp_def sx)
qed

text \<open>C37 The findings for an ApplicationSet enumerate, each name once, the comparison of what is
  generated under that name at the head and at the base: added when only the head generates it,
  removed when only the base does, modified when both do and the rendered difference is not
  empty, and nothing when the rendering fails; the order of the maps does not matter.\<close>

theorem spec_findings_enumerate_the_comparison:
  assumes "orders_ok ords"
  shows "keys_of (specFinding diff s hs bs) (map sf_AppName (computeAppSetSpecDiff ords diff s hs bs)) \<and>
    list_all (\<lambda>f. specFinding diff s hs bs (sf_AppName f) = Some f) (computeAppSetSpecDiff ords diff s hs bs)"
  using computeAppSetSpecDiff_keys[OF assms] computeAppSetSpecDiff_names(2)[OF assms] by (simp add: list_all_iff)

definition demo_orders :: map_orders where
  "demo_orders = \<lparr>mo_dirs = (\<lambda>d. sorted_list_of_set (dom (ad_dirs d))), mo_names = remdups,
     mo_apps = (\<lambda>m. sorted_list_of_set (dom m))\<rparr>"

lemma demo_orders_ok: "orders_ok demo_orders"
  by (simp add: orders_ok_def demo_orders_def keys_of_def)

definition demo_app_diff :: app_diff where
  "demo_app_diff base happ = Inr (if base = happ then [] else ''changed'')"

definition single_app :: "string \<Rightarrow> string \<Rightarrow> application" where
  "single_app n p = \<lparr>app_Name = n, app_Namespace = ''argocd'', app_Spec =
     \<lparr>sp_Source = Some (demo_source p), sp_Sources = [], sp_DestinationName = [], sp_DestinationServer = []\<rparr>\<rparr>"

theorem spec_findings_enumerate_the_comparison_witness:
  "named_finding ''new'' ''set'' ''added by AppSet'' ''changed'' \<in>
    set (computeAppSetSpecDiff demo_orders demo_app_diff ''set'' [single_app ''new'' ''a''] [single_app ''old'' ''b''])"
proof -
  let ?fs = "computeAppSetSpecDiff demo_orders demo_app_diff ''set'' [single_app ''new'' ''a''] [single_app ''old'' ''b'']"
  let ?sf = "specFinding demo_app_diff ''set'' [single_app ''new'' ''a''] [single_app ''old'' ''b'']"
  have n: "?sf ''new'' = Some (named_finding ''new'' ''set'' ''added by AppSet'' ''changed'')"
    by (simp add: specFinding_def indexApps_def single_app_def demo_app_diff_def)
  note enum = spec_findings_enumerate_the_comparison[OF demo_orders_ok,
      of demo_app_diff "''set''" "[single_app ''new'' ''a'']" "[single_app ''old'' ''b'']"]
  have "''new'' \<in> set (map sf_AppName ?fs)"
    unfolding keys_of_in[OF conjunct1[OF enum]] n by (rule option.distinct(2))
  then obtain f where f: "f \<in> set ?fs" "''new'' = sf_AppName f" unfolding set_map by (rule imageE)
  have "?sf (sf_AppName f) = Some f" using conjunct2[OF enum] f(1) unfolding list_all_iff by (rule bspec)
  then have "Some f = Some (named_finding ''new'' ''set'' ''added by AppSet'' ''changed'')" unfolding f(2)[symmetric] n by (rule sym)
  then show ?thesis using f(1) by (simp only: option.inject)
qed

text \<open>The applications that are checked are those the matcher found whose name no affected set
  generates or stops generating, and the generated versions of those the change list touches;
  where several sets claim a name the last one decides.  A set that cannot be generated at the
  head changes nothing.\<close>

theorem generated_version_wins:
  assumes "argo_api_ok (si_api si)" "orders_ok (si_orders si)" "m (si_changes si) (si_BaseRef si) = Some (items, err)"
    and "GenerateListOfAffectedApps si (Inr m) = Some (items', fs, err')"
  shows "a \<in> set (ai_Applications items') \<longleftrightarrow>
      a \<in> set (ai_Applications items) \<and> list_all (\<lambda>s. app_Name a \<notin> replacedBy si s) (ai_ApplicationSets items) \<or>
      (\<exists>pre s post. ai_ApplicationSets items = pre @ s # post \<and> generatedBy si s a \<and>
        list_all (\<lambda>s. app_Name a \<notin> replacedBy si s) post)"
proof -
  obtain apps where l: "appSetLoop si (ai_Applications items, []) (ai_ApplicationSets items) = Some (apps, fs)"
    and i: "items' = items\<lparr>ai_Applications := apps\<rparr>"
    using assms(3,4) by (auto simp: GenerateListOfAffectedApps_def)
  show ?thesis using appSetLoop_apps[OF l assms(1,2), of a] by (simp add: i)
qed

definition demo_inputs :: set_inputs where
  "demo_inputs = \<lparr>si_orders = demo_orders, si_api = demo_api, si_diff = demo_app_diff, si_changes = [''apps/web/v.yaml''],
     si_BaseRef = ''main'', si_head = (\<lambda>_. Inr [single_app ''web'' ''apps/web'']),
     si_base = (\<lambda>_. Inr [single_app ''web'' ''old/web'', single_app ''gone'' ''apps/gone''])\<rparr>"

definition demo_items :: affected_items where
  "demo_items = \<lparr>ai_Applications = [single_app ''web'' ''old/web'', single_app ''gone'' ''apps/gone'', single_app ''db'' ''apps/db''],
     ai_ApplicationSets = [namedSet ''set'']\<rparr>"

lemma demo_dirs_of: "dirs_of demo_api (single_app n p) = [p]" "files_of demo_api (single_app n p) = []"
  "shouldInclude demo_api b (single_app n p)"
  by (simp_all add: dirs_of_def files_of_def sources_of_def getSources_def demo_api_def single_app_def demo_source_def
      src_zero_def shouldInclude_def getTargetRevision_def helm_paths_def)

lemma single_app_sources: "getSources demo_api (single_app n p) = Some [demo_source p]"
  by (simp add: getSources_def demo_api_def single_app_def)

lemma demo_generated: "\<exists>r. GenerateListOfAffectedApps demo_inputs (Inr (\<lambda>_ _. Some (demo_items, None))) = Some r"
proof -
  have g: "generatedDirectory demo_api [single_app n p] \<noteq> None"
    "generatedDirectory demo_api [single_app n p, single_app n' p'] \<noteq> None" for n p n' p'
    by (simp_all add: generatedDirectory_def AddApp_def single_app_sources NewAppDirectory_def split: option.split)
  have "filterAppsByChangeList ords demo_api [single_app n p] c b \<noteq> None"
    "filterAppsByChangeList ords demo_api [single_app n p, single_app n' p'] c b \<noteq> None" for ords n p n' p' c b
    using g by (simp_all add: filterAppsByChangeList_def)
  then show ?thesis
    by (simp add: GenerateListOfAffectedApps_def demo_items_def appSetStep_def Let_def demo_inputs_def
        appSetSpecDiffForChange_def option.case_eq_if prod.case_eq_if)
qed

theorem generated_version_wins_witness:
  "\<exists>items'::affected_items. single_app ''web'' ''apps/web'' \<in> set (ai_Applications items') \<and>
    single_app ''web'' ''old/web'' \<notin> set (ai_Applications items') \<and>
    single_app ''gone'' ''apps/gone'' \<notin> set (ai_Applications items') \<and>
    single_app ''db'' ''apps/db'' \<in> set (ai_Applications items')"
proof -
  let ?m = "\<lambda>(_::string list) (_::string). Some (demo_items, None :: matcher_error option)"
  obtain items' fs err' where r: "GenerateListOfAffectedApps demo_inputs (Inr ?m) = Some (items', fs, err')"
    using demo_generated by auto
  have ok: "argo_api_ok (si_api demo_inputs)" "orders_ok (si_orders demo_inputs)"
    by (simp_all add: demo_inputs_def demo_api_ok demo_orders_ok)
  note iff = generated_version_wins[OF ok refl r]
  have c: "dirContainsPath ''apps/web'' ''apps/web/v.yaml''" by code_simp
  have one: "[namedSet ''set''] = pre @ s # post \<longleftrightarrow> pre = [] \<and> s = namedSet ''set'' \<and> post = []" for pre s post
    by (auto simp: Cons_eq_append_conv)
  have rep: "replacedBy demo_inputs s = {''web'', ''gone''}" for s
    by (auto simp: replacedBy_def demo_inputs_def removedNames_def single_app_def)
  have gen: "generatedBy demo_inputs s a \<longleftrightarrow> a = single_app ''web'' ''apps/web''" for s a
    using c by (auto simp: generatedBy_def demo_inputs_def firstNamed_def allTouched_def touched_def demo_dirs_of)
  have mem: "a \<in> set (ai_Applications items') \<longleftrightarrow>
      a = single_app ''web'' ''apps/web'' \<or> a \<in> set (ai_Applications demo_items) \<and> app_Name a \<notin> {''web'', ''gone''}" for a
    using iff[of a] by (auto simp: demo_items_def one rep gen)
  show ?thesis
    by (rule exI[of _ items']) (simp add: mem demo_items_def single_app_def demo_source_def src_zero_def)
qed

subsection \<open>Findings in the report\<close>

definition findingResult :: "spec_finding \<Rightarrow> result" where
  "findingResult f = \<lparr>res_State = sf_State f, res_Summary = sf_Action f @ '' `'' @ sf_AppSetName f @ ''`'',
     res_Details = sf_Body f, res_NoChangesDetected = False, res_Sticky = True\<rparr>"

definition findingOps :: "spec_finding list \<Rightarrow> msg_op list" where
  "findingOps fs = concat (map (\<lambda>f. [OpNew (sf_AppName f), OpAdd (sf_AppName f) (findingResult f)]) fs)"

lemma flush_is_run: "flushAppSetSpecFindings m fs = msg_run m (findingOps fs)"
  unfolding flushAppSetSpecFindings_def msg_run_def findingOps_def
  by (induction fs arbitrary: m) (simp_all add: attachAppSetResult_def findingResult_def)

lemma msg_run_append: "msg_run (msg_run m xs) ys = msg_run m (xs @ ys)"
  by (simp add: msg_run_def)

lemma findingOps_added: "f \<in> set fs \<Longrightarrow> OpAdd (sf_AppName f) (findingResult f) \<in> set (findingOps fs)"
  by (auto simp: findingOps_def)

text \<open>A finding about an ApplicationSet stays in the report whatever the checks of the applications
  do afterwards: its application is not removed, its result is among the results of the
  application, and the section of the application is not suppressed.\<close>

theorem appset_findings_stay_visible:
  assumes "f \<in> set fs"
  shows "findingResult f \<in> set (results_of (msg_run (flushAppSetSpecFindings (NewMessage name pr note) fs) ops) (sf_AppName f)) \<and>
    \<not> isDeleted (msg_run (flushAppSetSpecFindings (NewMessage name pr note) fs) ops) (sf_AppName f) \<and>
    \<not> suppressed (results_of (msg_run (flushAppSetSpecFindings (NewMessage name pr note) fs) ops) (sf_AppName f))"
proof -
  let ?m = "msg_run (NewMessage name pr note) (findingOps fs @ ops)"
  have "findingResult f \<in> set (concat (map (added (sf_AppName f)) (findingOps fs @ ops)))"
    using findingOps_added[OF assms] by force
  then have r: "findingResult f \<in> set (results_of ?m (sf_AppName f))" by (simp add: msg_run_results)
  have st: "res_Sticky (findingResult f)" by (simp add: findingResult_def)
  have "sticky_kept ?m" by (rule sticky_kept_run[OF sticky_kept_new])
  then show ?thesis
    using r st unfolding flush_is_run msg_run_append
    by (auto simp: sticky_kept_def isDeleted_def hasSticky_iff suppressed_def)
qed

theorem appset_findings_stay_visible_witness:
  "\<not> isDeleted (msg_run (flushAppSetSpecFindings (NewMessage ''r'' 1 2)
      [named_finding ''web'' ''set'' ''added by AppSet'' ''x'']) [OpRemove ''web'']) ''web''"
  using appset_findings_stay_visible[of "named_finding ''web'' ''set'' ''added by AppSet'' ''x''"
      "[named_finding ''web'' ''set'' ''added by AppSet'' ''x'']" "''r''" 1 2 "[OpRemove ''web'']"]
  by (simp add: named_finding_def)

end
