(* ===== verification/RepoCache.thy ===== *)
theory RepoCache
  imports Archive RepoUrl
begin

text \<open>
  The checkouts of one check event (\<open>getRepo\<close> and the archive branch of \<open>process\<close> in
  \<open>pkg/events/check.go\<close>): a map from repository and branch to a pointer, so that every branch is
  cloned once.  The same pointer is stored under several keys and the branch name behind it is
  written after it is stored, so repositories live in a heap and the map holds addresses.  The
  clone, the name of the remote head and the URL parsers are the fields of a client that may
  answer differently at every call.
\<close>

section \<open>The store\<close>

record repo_store =
  rs_heap :: "git_repo list"
  rs_keys :: "string \<Rightarrow> nat option"
  rs_fetched :: "string list"

definition emptyRepos :: repo_store where
  "emptyRepos = \<lparr>rs_heap = [], rs_keys = (\<lambda>_. None), rs_fetched = []\<rparr>"

record repo_client =
  gc_parsers :: url_parsers
  gc_CloneUsername :: string
  gc_Clone :: "string \<Rightarrow> string \<Rightarrow> string + git_repo"
  gc_RemoteHead :: "git_repo \<Rightarrow> string + string"

definition generateRepoKey :: "repo_url \<Rightarrow> string \<Rightarrow> string" where
  "generateRepoKey cloneURL branchName = CloneURL cloneURL [] @ ''|||'' @ branchName"

definition branchOrHead :: "string \<Rightarrow> string" where
  "branchOrHead branchName = (let b = trim_space branchName in if b = [] then ''HEAD'' else b)"

definition remember :: "repo_url \<Rightarrow> string \<Rightarrow> nat \<Rightarrow> repo_store \<Rightarrow> repo_store" where
  "remember parsed branch a s = s\<lparr>rs_keys := (rs_keys s)(generateRepoKey parsed branch \<mapsto> a)\<rparr>"

definition allocRepo :: "git_repo \<Rightarrow> repo_store \<Rightarrow> nat \<times> repo_store" where
  "allocRepo r s = (length (rs_heap s), s\<lparr>rs_heap := rs_heap s @ [r]\<rparr>)"

text \<open>A clone of \<open>HEAD\<close> learns the branch it stands for.\<close>

definition nameHead :: "repo_client \<Rightarrow> repo_url \<Rightarrow> nat \<Rightarrow> repo_store \<Rightarrow> string option \<times> repo_store" where
  "nameHead c parsed a s =
    (case gc_RemoteHead c (rs_heap s ! a) of
       Inl err \<Rightarrow> (Some (''failed to determine remote head: '' @ err), s)
     | Inr b \<Rightarrow> (None, remember parsed b a (s\<lparr>rs_heap := (rs_heap s)[a := (rs_heap s ! a)\<lparr>gr_BranchName := b\<rparr>]\<rparr>)))"

text \<open>A clone of the branch that \<open>HEAD\<close> points to is stored as \<open>HEAD\<close>, too.\<close>

definition shareHead :: "repo_client \<Rightarrow> repo_url \<Rightarrow> nat \<Rightarrow> repo_store \<Rightarrow> string option \<times> repo_store" where
  "shareHead c parsed a s =
    (if rs_keys s (generateRepoKey parsed ''HEAD'') \<noteq> None then (None, s)
     else (case gc_RemoteHead c (rs_heap s ! a) of
             Inl err \<Rightarrow> (Some (''failed to determine remote head: '' @ err), s)
           | Inr b \<Rightarrow> if b = gr_BranchName (rs_heap s ! a) then (None, remember parsed ''HEAD'' a s) else (None, s)))"

definition keepClone :: "repo_url \<Rightarrow> string \<Rightarrow> git_repo \<Rightarrow> repo_store \<Rightarrow> nat \<times> repo_store" where
  "keepClone parsed branch r s =
    (let (a, s) = allocRepo r s
     in (a, remember parsed branch a (s\<lparr>rs_fetched := rs_fetched s @ [generateRepoKey parsed branch]\<rparr>)))"

text \<open>The repository, the error (Go returns both when the remote head is unknown) and the store.\<close>

definition getRepo ::
  "repo_client \<Rightarrow> string \<Rightarrow> string \<Rightarrow> repo_store \<Rightarrow> (nat option \<times> string option) \<times> repo_store" where
  "getRepo c cloneURL branchName s =
    (case Canonicalize (gc_parsers c) cloneURL of
       Inl err \<Rightarrow> ((None, Some (''failed to parse clone url: '' @ err)), s)
     | Inr parsed \<Rightarrow>
         let url = CloneURL parsed (gc_CloneUsername c);
             branch = branchOrHead branchName;
             key = generateRepoKey parsed branch
         in case rs_keys s key of
              Some a \<Rightarrow> ((Some a, None), s)
            | None \<Rightarrow>
                (case gc_Clone c url branch of
                   Inl err \<Rightarrow> ((None, Some (''failed to clone repo: '' @ err)), s)
                 | Inr r \<Rightarrow>
                     let (a, s) = keepClone parsed branch r s;
                         (err, s) = (if branch = ''HEAD'' then nameHead c parsed a s else (None, s))
                     in if err \<noteq> None then ((Some a, err), s)
                        else let (err, s) = shareHead c parsed a s in ((Some a, err), s)))"

text \<open>The archive of a pull request stands for its head, its base and \<open>HEAD\<close>.\<close>

definition storeArchive :: "repo_url \<Rightarrow> pull_request \<Rightarrow> git_repo \<Rightarrow> repo_store \<Rightarrow> repo_store" where
  "storeArchive parsed pr r s =
    (let (a, s) = allocRepo r s;
         s = remember parsed (pr_HeadRef pr) a s;
         s = (if pr_HeadRef pr \<noteq> pr_BaseRef pr then remember parsed (pr_BaseRef pr) a s else s)
     in remember parsed ''HEAD'' a s)"

section \<open>Lemmas\<close>

lemma key_inj: "generateRepoKey p b = generateRepoKey p b' \<longleftrightarrow> b = b'"
  by (simp add: generateRepoKey_def)

lemma remember_simps [simp]:
  "rs_heap (remember p b a s) = rs_heap s" "rs_fetched (remember p b a s) = rs_fetched s"
  "rs_keys (remember p b a s) k = (if k = generateRepoKey p b then Some a else rs_keys s k)"
  by (simp_all add: remember_def)

lemma nameHead_keeps:
  assumes "nameHead c p a s = (err, s')"
  shows "rs_fetched s' = rs_fetched s \<and> length (rs_heap s') = length (rs_heap s) \<and>
    (\<forall>k. rs_keys s' k = rs_keys s k \<or> rs_keys s' k = Some a)"
  using assms by (auto simp: nameHead_def split: sum.splits)

lemma shareHead_keeps:
  assumes "shareHead c p a s = (err, s')"
  shows "rs_fetched s' = rs_fetched s \<and> rs_heap s' = rs_heap s \<and>
    (\<forall>k. rs_keys s' k = rs_keys s k \<or> rs_keys s' k = Some a)"
  using assms by (auto simp: shareHead_def split: sum.splits if_splits)

lemma getRepo_hit:
  assumes "Canonicalize (gc_parsers c) u = Inr p" "rs_keys s (generateRepoKey p (branchOrHead b)) = Some a"
  shows "getRepo c u b s = ((Some a, None), s)"
  using assms by (simp add: getRepo_def Let_def)

text \<open>What a call does to the store: nothing, or one fetch under a key that was free, and the address it
  returns is then the only one that appears.\<close>

lemma getRepo_cases:
  assumes "getRepo c u b s = ((ra, err), s')"
  obtains (failed) "ra = None" "err \<noteq> None" "s' = s"
  | (hit) p a where "Canonicalize (gc_parsers c) u = Inr p" "rs_keys s (generateRepoKey p (branchOrHead b)) = Some a"
      "ra = Some a" "err = None" "s' = s"
  | (fetched) p where "Canonicalize (gc_parsers c) u = Inr p" "rs_keys s (generateRepoKey p (branchOrHead b)) = None"
      "ra = Some (length (rs_heap s))" "rs_fetched s' = rs_fetched s @ [generateRepoKey p (branchOrHead b)]"
      "length (rs_heap s') = Suc (length (rs_heap s))"
      "rs_keys s' (generateRepoKey p (branchOrHead b)) = Some (length (rs_heap s))"
      "\<forall>k. rs_keys s' k = rs_keys s k \<or> rs_keys s' k = Some (length (rs_heap s))"
proof (cases "Canonicalize (gc_parsers c) u")
  case (Inl e)
  then show thesis using assms failed by (auto simp: getRepo_def)
next
  case p: (Inr p)
  let ?b = "branchOrHead b"
  let ?k = "generateRepoKey p ?b"
  show thesis
  proof (cases "rs_keys s ?k")
    case (Some a)
    then show thesis using assms hit[OF p Some] getRepo_hit[OF p Some] by simp
  next
    case None
    show thesis
    proof (cases "gc_Clone c (CloneURL p (gc_CloneUsername c)) ?b")
      case (Inl e)
      then show thesis using assms failed None p by (auto simp: getRepo_def Let_def)
    next
      case (Inr r)
      let ?a = "length (rs_heap s)"
      obtain s1 where 1: "keepClone p ?b r s = (?a, s1)" by (simp add: keepClone_def allocRepo_def Let_def)
      have k1: "rs_fetched s1 = rs_fetched s @ [?k]" "length (rs_heap s1) = Suc ?a"
        "rs_keys s1 k = (if k = ?k then Some ?a else rs_keys s k)" for k
        using 1 by (auto simp: keepClone_def allocRepo_def Let_def)
      obtain e2 s2 where 2: "(if ?b = ''HEAD'' then nameHead c p ?a s1 else (None, s1)) = (e2, s2)" by fastforce
      have k2: "rs_fetched s2 = rs_fetched s @ [?k] \<and> length (rs_heap s2) = Suc ?a \<and>
          (\<forall>k. rs_keys s2 k = rs_keys s1 k \<or> rs_keys s2 k = Some ?a)"
        using 2 nameHead_keeps[of c p ?a s1 e2 s2] k1 by (auto split: if_splits)
      obtain e3 s3 where 3: "shareHead c p ?a s2 = (e3, s3)" by fastforce
      note k3 = shareHead_keeps[OF 3]
      have g: "getRepo c u b s = (if e2 \<noteq> None then ((Some ?a, e2), s2) else ((Some ?a, e3), s3))"
        by (simp only: getRepo_def p None Inr Let_def sum.case option.case 1 2 3 prod.case)
      have "ra = Some ?a" "s' = s2 \<or> s' = s3" using g assms by (auto split: if_splits)
      then show thesis
        using fetched[OF p None] k2 k3 k1(3) by metis
    qed
  qed
qed

definition store_ok :: "repo_store \<Rightarrow> bool" where
  "store_ok s = ((\<forall>k a. rs_keys s k = Some a \<longrightarrow> a < length (rs_heap s)) \<and>
     distinct (rs_fetched s) \<and> (\<forall>k\<in>set (rs_fetched s). rs_keys s k \<noteq> None))"

lemma store_ok_empty: "store_ok emptyRepos"
  by (simp add: store_ok_def emptyRepos_def)

lemma store_ok_getRepo:
  assumes "store_ok s" "getRepo c u b s = (r, s')"
  shows "store_ok s'"
proof -
  obtain ra err where r: "r = (ra, err)" by (cases r)
  from assms(2)[unfolded r] show ?thesis
  proof (cases rule: getRepo_cases)
    case (fetched p)
    have "generateRepoKey p (branchOrHead b) \<notin> set (rs_fetched s)"
      using assms(1) fetched(2) by (auto simp: store_ok_def)
    moreover have "rs_keys s' k \<noteq> None" if "k \<in> set (rs_fetched s)" for k
      using assms(1) that fetched(7) unfolding store_ok_def by (metis option.distinct(1))
    moreover have "a < length (rs_heap s')" if "rs_keys s' k = Some a" for k a
      using assms(1) that fetched(5,7) unfolding store_ok_def by (metis less_Suc_eq option.inject)
    ultimately show ?thesis using assms(1) fetched(4,6) by (auto simp: store_ok_def)
  qed (use assms(1) in simp_all)
qed

lemma store_ok_archive: "store_ok s \<Longrightarrow> store_ok (storeArchive p pr r s)"
  unfolding store_ok_def storeArchive_def allocRepo_def by (auto simp: Let_def less_Suc_eq)

text \<open>A sequence of calls, each with the client as it answers at that time.\<close>

fun getRepos :: "(repo_client \<times> string \<times> string) list \<Rightarrow> repo_store \<Rightarrow> repo_store" where
  "getRepos [] s = s"
| "getRepos ((c, u, b) # calls) s = getRepos calls (snd (getRepo c u b s))"

lemma store_ok_getRepos: "store_ok s \<Longrightarrow> store_ok (getRepos calls s)"
proof (induction calls arbitrary: s)
  case (Cons x calls)
  obtain c u b where x: "x = (c, u, b)" by (cases x)
  obtain r s' where "getRepo c u b s = (r, s')" by fastforce
  then show ?case using Cons store_ok_getRepo by (simp add: x)
qed simp

section \<open>Properties\<close>

text \<open>In any sequence of requests for checkouts, whatever the clones and the remote answer, no branch
  of a repository is fetched twice.\<close>

theorem each_branch_is_fetched_once:
  "distinct (rs_fetched (getRepos calls emptyRepos)) \<and>
   distinct (rs_fetched (getRepos calls (storeArchive p pr r emptyRepos)))"
  using store_ok_getRepos[OF store_ok_empty] store_ok_getRepos[OF store_ok_archive[OF store_ok_empty]]
  by (simp add: store_ok_def)

text \<open>Once a checkout was returned, every request for the same repository and branch, however its
  URL and branch are spelled, returns the same pointer from the store, without an error even if
  the first request had one.\<close>

theorem fetched_repo_is_reused:
  assumes "getRepo c u b s = ((Some a, err), s')"
    and "Canonicalize (gc_parsers c') u' = Canonicalize (gc_parsers c) u" "branchOrHead b' = branchOrHead b"
  shows "getRepo c' u' b' s' = ((Some a, None), s')"
  using assms(1)
proof (cases rule: getRepo_cases)
  case (hit p a')
  then show ?thesis using getRepo_hit[of c' u' p s' b' a'] assms(2,3) by simp
next
  case (fetched p)
  then show ?thesis using getRepo_hit[of c' u' p s' b' a] assms(2,3) by simp
qed simp

definition demo_git :: repo_client where
  "demo_git = \<lparr>gc_parsers = demo_parsers, gc_CloneUsername = ''git'',
     gc_Clone = (\<lambda>u b. Inr \<lparr>gr_BranchName = b, gr_CloneURL = u, gr_Directory = ''/tmp/r'', gr_BaseBranchName = [],
        gr_MergeCommitSHA = []\<rparr>),
     gc_RemoteHead = (\<lambda>_. Inl ''offline'')\<rparr>"

theorem fetched_repo_is_reused_witness:
  "fst (getRepo demo_git ''https://git.io/a/b'' '' '' emptyRepos) = (Some 0, Some ''failed to determine remote head: offline'') \<and>
   fst (getRepo demo_git ''https://bot@git.io/a/b'' ''HEAD'' (snd (getRepo demo_git ''https://git.io/a/b'' '' '' emptyRepos))) =
     (Some 0, None)"
proof -
  have f: "fst (getRepo demo_git ''https://git.io/a/b'' '' '' emptyRepos) =
      (Some 0, Some ''failed to determine remote head: offline'')"
    by code_simp
  then have g: "getRepo demo_git ''https://git.io/a/b'' '' '' emptyRepos = ((Some 0, Some ''failed to determine remote head: offline''),
      snd (getRepo demo_git ''https://git.io/a/b'' '' '' emptyRepos))"
    by (metis prod.collapse)
  have e: "Canonicalize (gc_parsers demo_git) ''https://bot@git.io/a/b'' = Canonicalize (gc_parsers demo_git) ''https://git.io/a/b''"
    "branchOrHead ''HEAD'' = branchOrHead '' ''"
    by code_simp+
  show ?thesis using f fetched_repo_is_reused[OF g e] by simp
qed

text \<open>The archive of a pull request is never cloned again: requests for its head branch, its base
  branch or \<open>HEAD\<close> of its repository, under any spelling of the URL, get the archive.\<close>

theorem archive_is_never_recloned:
  assumes "Canonicalize (gc_parsers c) u = Inr p" "branchOrHead b \<in> {pr_HeadRef pr, pr_BaseRef pr, ''HEAD''}"
  shows "getRepo c u b (storeArchive p pr r s) = ((Some (length (rs_heap s)), None), storeArchive p pr r s) \<and>
    rs_heap (storeArchive p pr r s) ! length (rs_heap s) = r"
proof -
  have "rs_keys (storeArchive p pr r s) (generateRepoKey p (branchOrHead b)) = Some (length (rs_heap s))"
    using assms(2) by (auto simp: storeArchive_def allocRepo_def Let_def key_inj)
  then show ?thesis
    using getRepo_hit[OF assms(1)] by (simp add: storeArchive_def allocRepo_def Let_def)
qed

theorem archive_is_never_recloned_witness:
  "fst (getRepo demo_git ''https://git.io/a/b'' '' '' (storeArchive \<lparr>ru_Host = ''git.io'', ru_Path = ''a/b''\<rparr> pr_zero r emptyRepos)) =
    (Some 0, None)"
proof -
  have c: "Canonicalize (gc_parsers demo_git) ''https://git.io/a/b'' = Inr \<lparr>ru_Host = ''git.io'', ru_Path = ''a/b''\<rparr>" by code_simp
  have "branchOrHead '' '' = ''HEAD''" by code_simp
  then have b: "branchOrHead '' '' \<in> {pr_HeadRef pr_zero, pr_BaseRef pr_zero, ''HEAD''}" by simp
  show ?thesis using archive_is_never_recloned[OF c b, of r emptyRepos] by (simp add: emptyRepos_def)
qed

end
