(* ===== verification/CheckRunner.thy ===== *)
theory CheckRunner
  imports MsgReport ArgoTypes
begin

text \<open>
  \<open>pkg/events/runner.go\<close>, \<open>worker.go\<close> and the queueing half of \<open>check.go\<close>, with the list of
  processors of \<open>cmd/processors.go\<close>: how one application is checked (its manifests, with
  retries, then every processor in a goroutine of its own) and how applications go through the
  channel that the workers share.  The goroutines are step relations: \<open>rstep\<close> for the processors
  of one application, \<open>pstep\<close> for the producers and workers around the channel.  What a processor
  does is its outcome: a result, an error or a panic.
\<close>

section \<open>One check\<close>

datatype outcome = Returned result | Failed string | Panicked string

record processor_entry =
  pe_Name :: string
  pe_WorstState :: commit_state

definition errorCommentFormat :: "string \<Rightarrow> string \<Rightarrow> string" where
  "errorCommentFormat desc err = [nl] @ '':warning:  **Error while '' @ desc @ ''** :warning:'' @ [nl] @
     ''```'' @ [nl] @ err @ [nl] @ ''```'' @ [nl, nl] @
     ''Check kubechecks application logs for more information.'' @ [nl]"

definition plain_result :: "commit_state \<Rightarrow> string \<Rightarrow> string \<Rightarrow> result" where
  "plain_result st summary details = \<lparr>res_State = st, res_Summary = summary, res_Details = details,
     res_NoChangesDetected = False, res_Sticky = False\<rparr>"

definition outcomeResult :: "string \<Rightarrow> outcome \<Rightarrow> result" where
  "outcomeResult desc oc = (case oc of
     Returned r \<Rightarrow> r
   | Failed err \<Rightarrow> plain_result StateError desc (errorCommentFormat desc err)
   | Panicked err \<Rightarrow> plain_result StatePanic desc (errorCommentFormat desc err))"

text \<open>\<open>addToAppMessage\<close> of the runner caps the state of the result.\<close>

definition capResult :: "commit_state \<Rightarrow> result \<Rightarrow> result" where
  "capResult worst r = r\<lparr>res_State := BestState (res_State r) worst\<rparr>"

definition posted :: "processor_entry \<Rightarrow> outcome \<Rightarrow> result" where
  "posted p oc = capResult (pe_WorstState p) (outcomeResult (pe_Name p) oc)"

record processors_config =
  pc_EnableHooksRenderer :: bool
  pc_EnableKubeConform :: bool
  pc_EnablePreupgrade :: bool
  pc_EnableConfTest :: bool
  pc_WorstHooksState :: commit_state
  pc_WorstKubeConformState :: commit_state
  pc_WorstPreupgradeState :: commit_state
  pc_WorstConfTestState :: commit_state

text \<open>\<open>regoError\<close> is the error of creating the policy checker, if any.\<close>

definition getProcessors :: "processors_config \<Rightarrow> string option \<Rightarrow> string + processor_entry list" where
  "getProcessors cfg regoError =
    (let procs = [\<lparr>pe_Name = ''generating diff for app'', pe_WorstState = StateNone\<rparr>];
         procs = (if pc_EnableHooksRenderer cfg
           then procs @ [\<lparr>pe_Name = ''render hooks'', pe_WorstState = pc_WorstHooksState cfg\<rparr>] else procs);
         procs = (if pc_EnableKubeConform cfg
           then procs @ [\<lparr>pe_Name = ''validating app against schema'', pe_WorstState = pc_WorstKubeConformState cfg\<rparr>] else procs);
         procs = (if pc_EnablePreupgrade cfg
           then procs @ [\<lparr>pe_Name = ''running pre-upgrade check'', pe_WorstState = pc_WorstPreupgradeState cfg\<rparr>] else procs)
     in if pc_EnableConfTest cfg
        then (case regoError of
                Some err \<Rightarrow> Inl (''failed to create rego checker: '' @ err)
              | None \<Rightarrow> Inr (procs @ [\<lparr>pe_Name = ''validation policy'', pe_WorstState = pc_WorstConfTestState cfg\<rparr>]))
        else Inr procs)"

section \<open>The goroutines of one application\<close>

text \<open>The deferred function of a goroutine first counts the wait group down and only then adds the
  result of a panic; every other result is added before.\<close>

datatype goroutine = Working | Added | Finished | PanicUncounted | PanicAdded

record run_state =
  rn_routines :: "goroutine list"
  rn_wg :: nat
  rn_note :: message
  rn_waited :: bool

definition startRun :: "processor_entry list \<Rightarrow> message \<Rightarrow> run_state" where
  "startRun procs note = \<lparr>rn_routines = map (\<lambda>_. Working) procs, rn_wg = length procs, rn_note = note, rn_waited = False\<rparr>"

definition setRoutine :: "nat \<Rightarrow> goroutine \<Rightarrow> run_state \<Rightarrow> run_state" where
  "setRoutine i g s = s\<lparr>rn_routines := (rn_routines s)[i := g]\<rparr>"

definition addResult :: "string \<Rightarrow> result \<Rightarrow> run_state \<Rightarrow> run_state" where
  "addResult app r s = s\<lparr>rn_note := AddToAppMessage app r (rn_note s)\<rparr>"

definition wgDone :: "run_state \<Rightarrow> run_state" where
  "wgDone s = s\<lparr>rn_wg := rn_wg s - 1\<rparr>"

definition panics :: "outcome \<Rightarrow> bool" where
  "panics oc = (case oc of Panicked _ \<Rightarrow> True | _ \<Rightarrow> False)"

inductive rstep :: "string \<Rightarrow> processor_entry list \<Rightarrow> outcome list \<Rightarrow> run_state \<Rightarrow> run_state \<Rightarrow> bool"
  for app procs outs where
  add: "i < length procs \<Longrightarrow> rn_routines s ! i = Working \<Longrightarrow> \<not> panics (outs ! i) \<Longrightarrow>
    rstep app procs outs s (setRoutine i Added (addResult app (posted (procs ! i) (outs ! i)) s))"
| finish: "i < length procs \<Longrightarrow> rn_routines s ! i = Added \<Longrightarrow>
    rstep app procs outs s (setRoutine i Finished (wgDone s))"
| panic: "i < length procs \<Longrightarrow> rn_routines s ! i = Working \<Longrightarrow> panics (outs ! i) \<Longrightarrow>
    rstep app procs outs s (setRoutine i PanicUncounted (wgDone s))"
| add_panic: "i < length procs \<Longrightarrow> rn_routines s ! i = PanicUncounted \<Longrightarrow>
    rstep app procs outs s (setRoutine i PanicAdded (addResult app (posted (procs ! i) (outs ! i)) s))"
| waited: "rn_wg s = 0 \<Longrightarrow> rstep app procs outs s (s\<lparr>rn_waited := True\<rparr>)"

inductive rreach :: "string \<Rightarrow> processor_entry list \<Rightarrow> outcome list \<Rightarrow> message \<Rightarrow> run_state \<Rightarrow> bool"
  for app procs outs m where
  start: "rreach app procs outs m (startRun procs m)"
| step: "rreach app procs outs m s \<Longrightarrow> rstep app procs outs s s' \<Longrightarrow> rreach app procs outs m s'"

section \<open>Manifests\<close>

datatype grpc_code = Unavailable | GrpcDeadlineExceeded | ResourceExhausted | GrpcUnknown | OtherCode

text \<open>An error is a gRPC status with its message, or any other error.\<close>

datatype manifest_error = Grpc grpc_code string | Plain string

definition networkErrorPatterns :: "string list" where
  "networkErrorPatterns = [''connection reset by peer'', ''connection refused'', ''no such host'',
     ''TLS handshake timeout'', ''i/o timeout'', ''dial tcp'', ''server misbehaving'',
     ''temporary failure in name resolution'']"

definition isNetworkErrorMessage :: "string \<Rightarrow> bool" where
  "isNetworkErrorMessage msg = list_ex (str_contains msg) networkErrorPatterns"

definition isRetryableError :: "manifest_error \<Rightarrow> bool" where
  "isRetryableError err = (case err of
     Grpc Unavailable _ \<Rightarrow> True
   | Grpc GrpcDeadlineExceeded _ \<Rightarrow> True
   | Grpc ResourceExhausted _ \<Rightarrow> True
   | Grpc GrpcUnknown msg \<Rightarrow> isNetworkErrorMessage msg
   | Grpc OtherCode _ \<Rightarrow> False
   | Plain msg \<Rightarrow> isNetworkErrorMessage msg)"

definition maxManifestRetries :: nat where
  "maxManifestRetries = 3"

text \<open>\<open>get n\<close> is what the n-th call gives, \<open>cancelled n\<close> the error of a context that ends while the
  loop waits after it; \<open>left\<close> counts the attempts that remain.  The second component is the number
  of calls made.\<close>

fun manifestLoop ::
  "(nat \<Rightarrow> manifest_error + string list) \<Rightarrow> (nat \<Rightarrow> manifest_error option) \<Rightarrow> nat \<Rightarrow> nat \<Rightarrow>
   (manifest_error + string list) \<times> nat" where
  "manifestLoop get cancelled attempt 0 = (get attempt, attempt)"
| "manifestLoop get cancelled attempt (Suc left) =
    (case get attempt of
       Inr manifests \<Rightarrow> (Inr manifests, attempt)
     | Inl err \<Rightarrow>
         if \<not> isRetryableError err then (Inl err, attempt)
         else (case cancelled attempt of
                 Some e \<Rightarrow> (Inl e, attempt)
               | None \<Rightarrow> manifestLoop get cancelled (Suc attempt) left))"

definition getManifestsWithRetry ::
  "(nat \<Rightarrow> manifest_error + string list) \<Rightarrow> (nat \<Rightarrow> manifest_error option) \<Rightarrow> (manifest_error + string list) \<times> nat" where
  "getManifestsWithRetry get cancelled = manifestLoop get cancelled 1 (maxManifestRetries - 1)"

text \<open>The parser of versions is an argument.\<close>

definition normalizeK8sVersion :: "(string \<Rightarrow> (nat \<times> nat) option) \<Rightarrow> string \<Rightarrow> string \<Rightarrow> string" where
  "normalizeK8sVersion parseVersion version fallback =
    (case parseVersion version of
       None \<Rightarrow> fallback
     | Some (major, minor) \<Rightarrow> itoa major @ ''.'' @ itoa minor @ ''.0'')"

definition convertJsonToYamlManifests :: "(string \<Rightarrow> string option) \<Rightarrow> string list \<Rightarrow> string list" where
  "convertJsonToYamlManifests toYaml ms = concat (map (\<lambda>m. case toYaml m of None \<Rightarrow> [] | Some y \<Rightarrow> [''---'' @ [nl] @ y]) ms)"

text \<open>\<open>processApp\<close> up to the runner: the note with the application, or with the error that ends it;
  \<open>errText\<close> renders an error.\<close>

definition beginApp ::
  "(manifest_error \<Rightarrow> string) \<Rightarrow> application \<Rightarrow> (nat \<Rightarrow> manifest_error + string list) \<Rightarrow>
   (nat \<Rightarrow> manifest_error option) \<Rightarrow> message \<Rightarrow> string list option \<times> message" where
  "beginApp errText app get cancelled note =
    (let note = AddNewApp (app_Name app) note in
     case fst (getManifestsWithRetry get cancelled) of
       Inl err \<Rightarrow> (None, AddToAppMessage (app_Name app) (plain_result StateError ''Unable to get manifests''
         (''```'' @ [nl] @ errText err @ [nl] @ ''```'')) note)
     | Inr manifests \<Rightarrow> (Some manifests, note))"

text \<open>What the deferred recovery of \<open>processApp\<close> adds when anything in it panics.\<close>

definition recoverApp :: "application \<Rightarrow> string \<Rightarrow> message \<Rightarrow> message" where
  "recoverApp app err note =
    (let desc = ''panic while checking '' @ app_Name app
     in AddToAppMessage (app_Name app) (plain_result StatePanic desc (errorCommentFormat desc err)) note)"

section \<open>The shared channel\<close>

text \<open>Every producer (the check itself, number 0, and the checks that queue further applications
  from a worker) sends while it holds the lock of \<open>queueApp\<close>.  \<open>w_kids app\<close> are the applications
  that checking \<open>app\<close> queues.\<close>

datatype worker_state = Waiting | Checking application

record pool =
  pl_added :: "application strmap"
  pl_chan :: "application list"
  pl_wg :: nat
  pl_sent :: nat
  pl_lock :: "(nat \<times> application) option"
  pl_todo :: "nat \<Rightarrow> application list"
  pl_workers :: "nat \<Rightarrow> worker_state"
  pl_checked :: "application list"

definition startPool :: "application list \<Rightarrow> pool" where
  "startPool apps = \<lparr>pl_added = (\<lambda>_. None), pl_chan = [], pl_wg = 0, pl_sent = 0, pl_lock = None,
     pl_todo = (\<lambda>g. if g = 0 then apps else []), pl_workers = (\<lambda>_. Waiting), pl_checked = []\<rparr>"

definition alreadyAdded :: "application \<Rightarrow> pool \<Rightarrow> bool" where
  "alreadyAdded app p = (pl_added p (app_Name app) = Some app)"

text \<open>\<open>queueApp\<close> up to the send: record the application, count it, keep the lock.\<close>

definition queueApp :: "nat \<Rightarrow> application \<Rightarrow> pool \<Rightarrow> pool" where
  "queueApp g app p = p\<lparr>pl_added := (pl_added p)(app_Name app \<mapsto> app), pl_wg := Suc (pl_wg p),
     pl_sent := Suc (pl_sent p), pl_lock := Some (g, app)\<rparr>"

definition nextTodo :: "nat \<Rightarrow> pool \<Rightarrow> pool" where
  "nextTodo g p = p\<lparr>pl_todo := (pl_todo p)(g := tl (pl_todo p g))\<rparr>"

inductive pstep :: "nat \<Rightarrow> nat \<Rightarrow> (application \<Rightarrow> application list) \<Rightarrow> pool \<Rightarrow> pool \<Rightarrow> bool"
  for cap workers kids where
  skip: "pl_lock p = None \<Longrightarrow> pl_todo p g = app # rest \<Longrightarrow> alreadyAdded app p \<Longrightarrow>
    pstep cap workers kids p (nextTodo g p)"
| queue: "pl_lock p = None \<Longrightarrow> pl_todo p g = app # rest \<Longrightarrow> \<not> alreadyAdded app p \<Longrightarrow>
    pstep cap workers kids p (nextTodo g (queueApp g app p))"
| send: "pl_lock p = Some (g, app) \<Longrightarrow> length (pl_chan p) < cap \<Longrightarrow>
    pstep cap workers kids p (p\<lparr>pl_chan := pl_chan p @ [app], pl_lock := None\<rparr>)"
| receive: "1 \<le> w \<Longrightarrow> w \<le> workers \<Longrightarrow> pl_workers p w = Waiting \<Longrightarrow> pl_chan p = app # rest \<Longrightarrow>
    pstep cap workers kids p (p\<lparr>pl_chan := rest, pl_workers := (pl_workers p)(w := Checking app),
      pl_todo := (pl_todo p)(w := kids app)\<rparr>)"
| checked: "1 \<le> w \<Longrightarrow> w \<le> workers \<Longrightarrow> pl_workers p w = Checking app \<Longrightarrow> pl_todo p w = [] \<Longrightarrow>
    (\<And>a. pl_lock p \<noteq> Some (w, a)) \<Longrightarrow>
    pstep cap workers kids p (p\<lparr>pl_workers := (pl_workers p)(w := Waiting), pl_wg := pl_wg p - 1,
      pl_checked := pl_checked p @ [app]\<rparr>)"

inductive preach :: "nat \<Rightarrow> nat \<Rightarrow> (application \<Rightarrow> application list) \<Rightarrow> application list \<Rightarrow> pool \<Rightarrow> bool"
  for cap workers kids apps where
  start: "preach cap workers kids apps (startPool apps)"
| step: "preach cap workers kids apps p \<Longrightarrow> pstep cap workers kids p p' \<Longrightarrow> preach cap workers kids apps p'"

section \<open>AI review slots\<close>

definition AIReviewHardMaxApps :: int where
  "AIReviewHardMaxApps = 50"

definition effectiveAIReviewMax :: "int \<Rightarrow> int" where
  "effectiveAIReviewMax configured =
    (let m = (if configured \<le> 0 then AIReviewHardMaxApps else configured)
     in if m > AIReviewHardMaxApps then AIReviewHardMaxApps else m)"

record ai_slots =
  sl_count :: int
  sl_skipped :: int

definition claimAIReviewSlot :: "int \<Rightarrow> ai_slots \<Rightarrow> bool \<times> ai_slots" where
  "claimAIReviewSlot configured s =
    (let s = s\<lparr>sl_count := sl_count s + 1\<rparr> in
     if sl_count s > effectiveAIReviewMax configured
     then (False, s\<lparr>sl_skipped := sl_skipped s + 1\<rparr>) else (True, s))"

fun claimSlots :: "int \<Rightarrow> nat \<Rightarrow> ai_slots \<Rightarrow> bool list \<times> ai_slots" where
  "claimSlots configured 0 s = ([], s)"
| "claimSlots configured (Suc n) s =
    (let (ok, s) = claimAIReviewSlot configured s; (oks, s) = claimSlots configured n s in (ok # oks, s))"

section \<open>Lemmas\<close>

subsection \<open>Results of the goroutines\<close>

text \<open>Which goroutines still count in the wait group, and which results are in the note.\<close>

definition counts :: "goroutine \<Rightarrow> bool" where
  "counts g = (g = Working \<or> g = Added)"

definition delivered :: "goroutine \<Rightarrow> bool" where
  "delivered g = (g = Added \<or> g = Finished \<or> g = PanicAdded)"

definition counting :: "nat \<Rightarrow> goroutine list \<Rightarrow> nat set" where
  "counting n gs = {i. i < n \<and> counts (gs ! i)}"

definition arrived :: "nat \<Rightarrow> goroutine list \<Rightarrow> nat set" where
  "arrived n gs = {i. i < n \<and> delivered (gs ! i)}"

definition run_ok :: "string \<Rightarrow> processor_entry list \<Rightarrow> outcome list \<Rightarrow> message \<Rightarrow> run_state \<Rightarrow> bool" where
  "run_ok app procs outs m s =
    (length (rn_routines s) = length procs \<and>
     rn_wg s = card (counting (length procs) (rn_routines s)) \<and>
     mset (results_of (rn_note s) app) = mset (results_of m app) +
       image_mset (\<lambda>i. posted (procs ! i) (outs ! i)) (mset_set (arrived (length procs) (rn_routines s))) \<and>
     (\<forall>i<length procs. rn_routines s ! i = PanicUncounted \<longrightarrow> panics (outs ! i)) \<and>
     (rn_waited s \<longrightarrow> rn_wg s = 0))"

lemma results_of_add: "results_of (AddToAppMessage app r m) app = results_of m app @ [r]"
  by (auto simp: results_of_def AddToAppMessage_def Let_def split: option.split)

lemma finite_sets [simp]: "finite (counting n gs)" "finite (arrived n gs)"
  by (simp_all add: counting_def arrived_def)

lemma switch_sets:
  assumes "i < n" "length gs = n"
  shows "counting n (gs[i := g]) = (if counts g then insert i (counting n gs) else counting n gs - {i})"
    "arrived n (gs[i := g]) = (if delivered g then insert i (arrived n gs) else arrived n gs - {i})"
  using assms by (auto simp: counting_def arrived_def nth_list_update)

lemma switch_panics:
  assumes "\<forall>j<n. gs ! j = PanicUncounted \<longrightarrow> P j" "length gs = n" "g = PanicUncounted \<longrightarrow> P i"
  shows "\<forall>j<n. gs[i := g] ! j = PanicUncounted \<longrightarrow> P j"
proof (intro allI impI)
  fix j assume "j < n" "gs[i := g] ! j = PanicUncounted"
  then show "P j" using assms by (cases "i = j") auto
qed

lemma run_ok_step:
  assumes "rstep app procs outs s s'" "run_ok app procs outs m s"
  shows "run_ok app procs outs m s'"
  using assms
proof (induction rule: rstep.induct)
  case (add i s)
  let ?n = "length procs" and ?gs = "rn_routines s"
  have ok: "length ?gs = ?n" "\<forall>i<?n. ?gs ! i = PanicUncounted \<longrightarrow> panics (outs ! i)"
    using add.prems by (simp_all add: run_ok_def)
  have i: "i \<notin> arrived ?n ?gs" "i \<in> counting ?n ?gs" using add(1,2) by (simp_all add: arrived_def counting_def delivered_def counts_def)
  then have c: "counting ?n (?gs[i := Added]) = counting ?n ?gs" "arrived ?n (?gs[i := Added]) = insert i (arrived ?n ?gs)"
    using switch_sets[OF add(1) ok(1)] by (auto simp: counts_def delivered_def)
  show ?case
    using add.prems c i switch_panics[OF ok(2,1), of Added i]
    by (auto simp: run_ok_def setRoutine_def addResult_def results_of_add)
next
  case (finish i s)
  let ?n = "length procs" and ?gs = "rn_routines s"
  have ok: "length ?gs = ?n" "\<forall>i<?n. ?gs ! i = PanicUncounted \<longrightarrow> panics (outs ! i)"
    using finish.prems by (simp_all add: run_ok_def)
  have i: "i \<in> arrived ?n ?gs" "i \<in> counting ?n ?gs" using finish(1,2) by (simp_all add: arrived_def counting_def delivered_def counts_def)
  then have c: "counting ?n (?gs[i := Finished]) = counting ?n ?gs - {i}" "arrived ?n (?gs[i := Finished]) = arrived ?n ?gs"
    using switch_sets[OF finish(1) ok(1)] by (auto simp: counts_def delivered_def)
  show ?case
    using finish.prems c i switch_panics[OF ok(2,1), of Finished i]
    by (auto simp: run_ok_def setRoutine_def wgDone_def card_Diff_singleton)
next
  case (panic i s)
  let ?n = "length procs" and ?gs = "rn_routines s"
  have ok: "length ?gs = ?n" "\<forall>i<?n. ?gs ! i = PanicUncounted \<longrightarrow> panics (outs ! i)"
    using panic.prems by (simp_all add: run_ok_def)
  have i: "i \<notin> arrived ?n ?gs" "i \<in> counting ?n ?gs" using panic(1,2) by (simp_all add: arrived_def counting_def delivered_def counts_def)
  then have c: "counting ?n (?gs[i := PanicUncounted]) = counting ?n ?gs - {i}"
    "arrived ?n (?gs[i := PanicUncounted]) = arrived ?n ?gs"
    using switch_sets[OF panic(1) ok(1)] by (auto simp: counts_def delivered_def)
  show ?case
    using panic.prems panic(3) c i switch_panics[OF ok(2,1), of PanicUncounted i]
    by (auto simp: run_ok_def setRoutine_def wgDone_def card_Diff_singleton)
next
  case (add_panic i s)
  let ?n = "length procs" and ?gs = "rn_routines s"
  have ok: "length ?gs = ?n" "\<forall>i<?n. ?gs ! i = PanicUncounted \<longrightarrow> panics (outs ! i)"
    using add_panic.prems by (simp_all add: run_ok_def)
  have i: "i \<notin> arrived ?n ?gs" "i \<notin> counting ?n ?gs" using add_panic(1,2) by (simp_all add: arrived_def counting_def delivered_def counts_def)
  then have c: "counting ?n (?gs[i := PanicAdded]) = counting ?n ?gs"
    "arrived ?n (?gs[i := PanicAdded]) = insert i (arrived ?n ?gs)"
    using switch_sets[OF add_panic(1) ok(1)] by (auto simp: counts_def delivered_def)
  show ?case
    using add_panic.prems c i switch_panics[OF ok(2,1), of PanicAdded i]
    by (auto simp: run_ok_def setRoutine_def addResult_def results_of_add)
next
  case (waited s)
  then show ?case by (simp add: run_ok_def)
qed

lemma run_ok_reach: "rreach app procs outs m s \<Longrightarrow> run_ok app procs outs m s"
proof (induction rule: rreach.induct)
  case start
  have "counting (length procs) (map (\<lambda>_. Working) procs) = {..<length procs}"
    "arrived (length procs) (map (\<lambda>_. Working) procs) = {}"
    by (auto simp: counting_def arrived_def counts_def delivered_def)
  then show ?case by (simp add: run_ok_def startRun_def)
next
  case (step s s')
  then show ?case using run_ok_step by blast
qed

subsection \<open>The channel\<close>

definition busy :: "pool \<Rightarrow> nat set" where
  "busy p = {w. pl_workers p w \<noteq> Waiting}"

definition locked :: "pool \<Rightarrow> application list" where
  "locked p = (case pl_lock p of None \<Rightarrow> [] | Some (_, app) \<Rightarrow> [app])"

text \<open>The applications that were sent or are being sent.\<close>

definition seen :: "pool \<Rightarrow> application set" where
  "seen p = set (pl_checked p) \<union> {a. \<exists>w. pl_workers p w = Checking a} \<union> set (pl_chan p) \<union> set (locked p)"

definition pool_counts :: "nat \<Rightarrow> pool \<Rightarrow> bool" where
  "pool_counts workers p = (busy p \<subseteq> {1..workers} \<and>
     pl_wg p = length (locked p) + length (pl_chan p) + card (busy p) \<and>
     pl_sent p = length (pl_checked p) + pl_wg p)"

definition pool_covers :: "(application \<Rightarrow> application list) \<Rightarrow> application list \<Rightarrow> pool \<Rightarrow> bool" where
  "pool_covers kids apps p = (
     (\<forall>n a. pl_added p n = Some a \<longrightarrow> a \<in> seen p) \<and>
     set apps \<subseteq> set (pl_todo p 0) \<union> seen p \<and>
     (\<forall>a\<in>set (pl_checked p). set (kids a) \<subseteq> seen p) \<and>
     (\<forall>w a. pl_workers p w = Checking a \<longrightarrow> set (kids a) \<subseteq> set (pl_todo p w) \<union> seen p) \<and>
     pl_workers p 0 = Waiting)"

lemma busy_upd:
  "busy (p\<lparr>pl_workers := (pl_workers p)(w := Waiting)\<rparr>) = busy p - {w}"
  "busy (p\<lparr>pl_workers := (pl_workers p)(w := Checking a)\<rparr>) = insert w (busy p)"
  by (auto simp: busy_def)

lemma pool_counts_step: "pstep cap workers kids p p' \<Longrightarrow> pool_counts workers p \<Longrightarrow> pool_counts workers p'"
proof (induction rule: pstep.induct)
  case (receive w p app rest)
  have "w \<notin> busy p" "finite (busy p)" using receive by (auto simp: busy_def pool_counts_def finite_subset)
  moreover have "busy (p\<lparr>pl_chan := rest, pl_workers := (pl_workers p)(w := Checking app),
      pl_todo := (pl_todo p)(w := kids app)\<rparr>) = insert w (busy p)" by (auto simp: busy_def)
  ultimately show ?case using receive by (simp add: pool_counts_def locked_def)
next
  case (checked w p app)
  have w: "w \<in> busy p" "finite (busy p)" using checked by (auto simp: busy_def pool_counts_def finite_subset)
  then have "card (busy p) > 0" by (auto simp: card_gt_0_iff)
  moreover have "busy (p\<lparr>pl_workers := (pl_workers p)(w := Waiting), pl_wg := pl_wg p - 1,
      pl_checked := pl_checked p @ [app]\<rparr>) = busy p - {w}" by (auto simp: busy_def)
  ultimately show ?case using checked w by (auto simp: pool_counts_def locked_def card_Diff_singleton)
qed (auto simp: pool_counts_def locked_def nextTodo_def queueApp_def busy_def)

lemma seen_mono: "pstep cap workers kids p p' \<Longrightarrow> seen p \<subseteq> seen p'"
proof (induction rule: pstep.induct)
  case (receive w p app rest)
  then show ?case by (auto simp: seen_def locked_def split: if_splits) (metis worker_state.distinct(1))+
next
  case (checked w p app)
  then show ?case by (auto simp: seen_def locked_def split: if_splits) (metis worker_state.inject)+
qed (auto simp: seen_def locked_def nextTodo_def queueApp_def)

text \<open>One goroutine's list shrinks by an application that has been seen.\<close>

lemma covers_next:
  assumes "pool_covers kids apps p" "pl_todo p g = app # rest"
    and "\<And>a. a \<in> seen p \<Longrightarrow> a \<in> seen p'" "app \<in> seen p'"
    and "pl_todo p' = (pl_todo p)(g := rest)" "pl_workers p' = pl_workers p" "pl_checked p' = pl_checked p"
    and "\<And>n a. pl_added p' n = Some a \<Longrightarrow> a \<in> seen p'"
  shows "pool_covers kids apps p'"
proof -
  have t: "set (pl_todo p w) \<union> seen p \<subseteq> set (pl_todo p' w) \<union> seen p'" for w
    using assms(2-5) by (cases "w = g") auto
  have s: "seen p \<subseteq> seen p'" using assms(3) by blast
  have "set apps \<subseteq> set (pl_todo p' 0) \<union> seen p'"
    using t[of 0] assms(1) unfolding pool_covers_def by blast
  moreover have "\<forall>w a. pl_workers p' w = Checking a \<longrightarrow> set (kids a) \<subseteq> set (pl_todo p' w) \<union> seen p'"
    using t assms(1,6) unfolding pool_covers_def by (metis subset_trans)
  moreover have "\<forall>a\<in>set (pl_checked p'). set (kids a) \<subseteq> seen p'"
    using s assms(1,7) unfolding pool_covers_def by (metis subset_trans)
  ultimately show ?thesis using assms(1,6,8) unfolding pool_covers_def by metis
qed

lemma pool_covers_step: "pstep cap workers kids p p' \<Longrightarrow> pool_covers kids apps p \<Longrightarrow> pool_covers kids apps p'"
proof (induction rule: pstep.induct)
  case (skip p g app rest)
  have a: "app \<in> seen p" "\<And>n a. pl_added p n = Some a \<Longrightarrow> a \<in> seen p"
    using skip(3,4) by (auto simp: pool_covers_def alreadyAdded_def)
  have s: "seen (nextTodo g p) = seen p" by (simp add: seen_def locked_def nextTodo_def)
  show ?case
    by (rule covers_next[OF skip(4,2)]) (use a s skip(2) in \<open>simp_all add: nextTodo_def\<close>)
next
  case (queue p g app rest)
  let ?q = "nextTodo g (queueApp g app p)"
  have s: "seen ?q = insert app (seen p)" using queue(1) by (auto simp: seen_def locked_def nextTodo_def queueApp_def)
  have "a \<in> seen ?q" if "pl_added ?q n = Some a" for n a
    using that queue(4) unfolding s by (auto simp: nextTodo_def queueApp_def pool_covers_def split: if_splits)
  note added = this
  show ?case
    by (rule covers_next[OF queue(4,2)]) (use s queue(2) added in \<open>simp_all add: nextTodo_def queueApp_def\<close>)
next
  case (send p g app)
  let ?q = "p\<lparr>pl_chan := pl_chan p @ [app], pl_lock := None\<rparr>"
  have s: "seen ?q = seen p" using send(1) by (auto simp: seen_def locked_def)
  show ?case using send(3) unfolding pool_covers_def s by simp
next
  case (receive w p app rest)
  let ?q = "p\<lparr>pl_chan := rest, pl_workers := (pl_workers p)(w := Checking app), pl_todo := (pl_todo p)(w := kids app)\<rparr>"
  have s: "seen p \<subseteq> seen ?q" using seen_mono[OF pstep.receive[OF receive(1-4)]] .
  have "set apps \<subseteq> set (pl_todo ?q 0) \<union> seen ?q"
    using receive(1,5) s unfolding pool_covers_def by auto
  moreover have "\<forall>v a. pl_workers ?q v = Checking a \<longrightarrow> set (kids a) \<subseteq> set (pl_todo ?q v) \<union> seen ?q"
  proof (intro allI impI)
    fix v a assume v: "pl_workers ?q v = Checking a"
    show "set (kids a) \<subseteq> set (pl_todo ?q v) \<union> seen ?q"
    proof (cases "v = w")
      case False
      then have "set (kids a) \<subseteq> set (pl_todo p v) \<union> seen p" using v receive(5) by (simp add: pool_covers_def)
      then show ?thesis using False s by auto
    qed (use v in auto)
  qed
  moreover have "\<forall>a\<in>set (pl_checked ?q). set (kids a) \<subseteq> seen ?q"
    using receive(5) subset_trans[OF _ s] by (simp add: pool_covers_def)
  moreover have "\<forall>n a. pl_added ?q n = Some a \<longrightarrow> a \<in> seen ?q"
    using receive(5) subsetD[OF s] by (simp add: pool_covers_def)
  ultimately show ?case using receive(1,5) unfolding pool_covers_def by simp
next
  case (checked w p app)
  let ?q = "p\<lparr>pl_workers := (pl_workers p)(w := Waiting), pl_wg := pl_wg p - 1, pl_checked := pl_checked p @ [app]\<rparr>"
  have s: "seen p \<subseteq> seen ?q" using seen_mono[OF pstep.checked[OF checked(1-5)]] .
  have "set apps \<subseteq> set (pl_todo ?q 0) \<union> seen ?q" using checked(6) s unfolding pool_covers_def by auto
  moreover have "\<forall>v a. pl_workers ?q v = Checking a \<longrightarrow> set (kids a) \<subseteq> set (pl_todo ?q v) \<union> seen ?q"
  proof (intro allI impI)
    fix v a assume v: "pl_workers ?q v = Checking a"
    show "set (kids a) \<subseteq> set (pl_todo ?q v) \<union> seen ?q"
    proof (cases "v = w")
      case False
      then have "set (kids a) \<subseteq> set (pl_todo p v) \<union> seen p" using v checked(6) by (simp add: pool_covers_def)
      then show ?thesis using False s by auto
    qed (use v in auto)
  qed
  moreover have "\<forall>a\<in>set (pl_checked ?q). set (kids a) \<subseteq> seen ?q"
  proof -
    have "set (kids app) \<subseteq> set (pl_todo p w) \<union> seen p" using checked(3,6) by (simp add: pool_covers_def)
    then have "set (kids app) \<subseteq> seen p" using checked(4) by simp
    then show ?thesis using checked(6) subset_trans[OF _ s] by (simp add: pool_covers_def)
  qed
  moreover have "\<forall>n a. pl_added ?q n = Some a \<longrightarrow> a \<in> seen ?q"
    using checked(6) subsetD[OF s] by (simp add: pool_covers_def)
  ultimately show ?case using checked(6) unfolding pool_covers_def by simp
qed

lemma pool_ok_reach:
  "preach cap workers kids apps p \<Longrightarrow> pool_counts workers p \<and> pool_covers kids apps p"
proof (induction rule: preach.induct)
  case start
  show ?case by (simp add: pool_counts_def pool_covers_def startPool_def busy_def seen_def locked_def)
next
  case (step p p')
  then show ?case using pool_counts_step pool_covers_step by blast
qed

subsection \<open>Manifests\<close>

subsection \<open>Progress of the pool\<close>

text \<open>When checks queue nothing, only the check itself produces.\<close>

definition lone_producer :: "pool \<Rightarrow> bool" where
  "lone_producer p = ((\<forall>g. g \<noteq> 0 \<longrightarrow> pl_todo p g = []) \<and> (\<forall>g a. pl_lock p = Some (g, a) \<longrightarrow> g = 0))"

lemma lone_producer_step: "pstep cap workers (\<lambda>_. []) p p' \<Longrightarrow> lone_producer p \<Longrightarrow> lone_producer p'"
proof (induction rule: pstep.induct)
  case (queue p g app rest)
  then have "g = 0" unfolding lone_producer_def by (metis list.distinct(1))
  then show ?case using queue by (auto simp: lone_producer_def nextTodo_def queueApp_def)
qed (auto simp: lone_producer_def nextTodo_def)

lemma lone_producer_reach: "preach cap workers (\<lambda>_. []) apps p \<Longrightarrow> lone_producer p"
proof (induction rule: preach.induct)
  case start
  then show ?case by (simp add: lone_producer_def startPool_def)
qed (rule lone_producer_step)

lemma pool_progress:
  assumes "pool_counts workers p" "lone_producer p" "1 \<le> cap" "1 \<le> workers" "\<not> (pl_wg p = 0 \<and> pl_todo p 0 = [])"
  shows "\<exists>p'. pstep cap workers (\<lambda>_. []) p p'"
proof -
  have busy: "\<exists>p'. pstep cap workers (\<lambda>_. []) p p'" if "w \<in> busy p" for w
  proof -
    have w: "1 \<le> w" "w \<le> workers" and nw: "pl_workers p w \<noteq> Waiting"
      using assms(1) that by (auto simp: pool_counts_def busy_def)
    moreover obtain app where "pl_workers p w = Checking app" using nw by (cases "pl_workers p w") simp_all
    moreover have "pl_todo p w = []" "\<And>a. pl_lock p \<noteq> Some (w, a)" using assms(2) w by (auto simp: lone_producer_def)
    ultimately show ?thesis using pstep.checked by blast
  qed
  have full: "\<exists>p'. pstep cap workers (\<lambda>_. []) p p'" if "pl_chan p \<noteq> []"
  proof -
    from that obtain app rest where c: "pl_chan p = app # rest" by (cases "pl_chan p") auto
    show ?thesis
    proof (cases "pl_workers p 1")
      case Waiting
      then show ?thesis using pstep.receive[of 1 workers p app rest cap] assms(4) c by blast
    next
      case (Checking a)
      then show ?thesis by (intro busy[of 1]) (simp add: busy_def)
    qed
  qed
  show ?thesis
  proof (cases "pl_lock p")
    case (Some l)
    then show ?thesis
      using full pstep.send[of p "fst l" "snd l" cap workers] assms(3) by (cases "pl_chan p = []") auto
  next
    case None
    show ?thesis
    proof (cases "pl_todo p 0")
      case (Cons app rest)
      then show ?thesis using None pstep.skip[of p 0 app rest] pstep.queue[of p 0 app rest] by blast
    next
      case Nil
      then have "pl_wg p \<noteq> 0" using assms(5) by simp
      then have "pl_chan p \<noteq> [] \<or> busy p \<noteq> {}" using assms(1) None by (auto simp: pool_counts_def locked_def)
      then show ?thesis using full busy by blast
    qed
  qed
qed

definition work_left :: "pool \<Rightarrow> nat" where
  "work_left p = 4 * length (pl_todo p 0) + 3 * length (locked p) + 2 * length (pl_chan p) + card (busy p)"

lemma work_left_step:
  assumes "pstep cap workers (\<lambda>_. []) p p'" "lone_producer p" "finite (busy p)"
  shows "Suc (work_left p') \<le> work_left p"
  using assms
proof (induction rule: pstep.induct)
  case (skip p g app rest)
  then have "g = 0" unfolding lone_producer_def by (metis list.distinct(1))
  then show ?case using skip by (simp add: work_left_def nextTodo_def locked_def busy_def)
next
  case (queue p g app rest)
  then have "g = 0" unfolding lone_producer_def by (metis list.distinct(1))
  then show ?case using queue by (simp add: work_left_def nextTodo_def queueApp_def locked_def busy_def)
next
  case (send p g app)
  then show ?case by (simp add: work_left_def locked_def busy_def)
next
  case (receive w p app rest)
  let ?p' = "p\<lparr>pl_chan := rest, pl_workers := (pl_workers p)(w := Checking app), pl_todo := (pl_todo p)(w := [])\<rparr>"
  have "busy ?p' = insert w (busy p)" by (auto simp: busy_def)
  then have "card (busy ?p') \<le> Suc (card (busy p))" using card_insert_le_m1 by (metis card_insert_if le_SucI order_refl receive.prems(2))
  then show ?case using receive by (simp add: work_left_def locked_def)
next
  case (checked w p app)
  let ?p' = "p\<lparr>pl_workers := (pl_workers p)(w := Waiting), pl_wg := pl_wg p - 1, pl_checked := pl_checked p @ [app]\<rparr>"
  have "busy ?p' = busy p - {w}" "w \<in> busy p" using checked.hyps(3) by (auto simp: busy_def)
  then have "Suc (card (busy ?p')) = card (busy p)" using checked.prems(2) by (metis card_Suc_Diff1)
  then show ?case by (simp add: work_left_def locked_def)
qed

lemma steps_of_pool:
  "(pstep cap workers (\<lambda>_. []) ^^ n) (startPool apps) p \<Longrightarrow>
    preach cap workers (\<lambda>_. []) apps p \<and> n + work_left p \<le> 4 * length apps"
proof (induction n arbitrary: p)
  case 0
  then have "p = startPool apps" by simp
  then show ?case using preach.start by (simp add: work_left_def) (simp add: startPool_def locked_def busy_def)
next
  case (Suc n)
  then obtain q where q: "(pstep cap workers (\<lambda>_. []) ^^ n) (startPool apps) q" "pstep cap workers (\<lambda>_. []) q p" by auto
  note r = Suc.IH[OF q(1)]
  have "finite (busy q)" using pool_ok_reach[of cap workers "\<lambda>_. []" apps q] r finite_subset[of "busy q" "{1..workers}"]
    by (simp add: pool_counts_def)
  then show ?case
    using r q(2) work_left_step[OF q(2)] lone_producer_reach[of cap workers apps q] preach.step by fastforce
qed

text \<open>When the wait group is down nothing is in flight.\<close>

lemma everything_checked:
  assumes "preach cap workers kids apps p" "pl_wg p = 0" "pl_todo p 0 = []"
  shows "set apps \<subseteq> set (pl_checked p) \<and> length (pl_checked p) = pl_sent p \<and>
    list_all (\<lambda>a. set (kids a) \<subseteq> set (pl_checked p)) (pl_checked p)"
proof -
  have c: "pool_counts workers p" and v: "pool_covers kids apps p" using pool_ok_reach[OF assms(1)] by auto
  have "finite (busy p)" using c finite_subset[of "busy p" "{1..workers}"] by (simp add: pool_counts_def)
  then have "busy p = {}" "pl_chan p = []" "locked p = []"
    using c assms(2) by (auto simp: pool_counts_def)
  then have "seen p = set (pl_checked p)" by (auto simp: seen_def busy_def)
  then show ?thesis using v c assms(2,3) by (simp add: pool_covers_def pool_counts_def list_all_iff)
qed

lemma manifestLoop_spec:
  "manifestLoop get cancelled a left = (res, n) \<Longrightarrow>
    a \<le> n \<and> n \<le> a + left \<and>
    (\<forall>k. a \<le> k \<longrightarrow> k < n \<longrightarrow> (\<exists>err. get k = Inl err \<and> isRetryableError err)) \<and>
    (res = get n \<or> (\<exists>e. cancelled n = Some e \<and> res = Inl e)) \<and>
    (case get n of Inr ms \<Rightarrow> res = Inr ms
     | Inl err \<Rightarrow> (n = a + left \<or> \<not> isRetryableError err \<or> cancelled n \<noteq> None))"
proof (induction left arbitrary: a)
  case 0
  then show ?case by (auto split: sum.split)
next
  case (Suc left)
  show ?case
  proof (cases "\<exists>err. get a = Inl err \<and> isRetryableError err \<and> cancelled a = None")
    case True
    then have "manifestLoop get cancelled (Suc a) left = (res, n)" using Suc.prems by auto
    note ih = Suc.IH[OF this]
    have "\<exists>err. get k = Inl err \<and> isRetryableError err" if "a \<le> k" "k < n" for k
      using ih True that by (cases "k = a") auto
    then show ?thesis using ih by (cases "get n") (simp_all add: add.commute)
  next
    case False
    then have "n = a" "res = get a \<or> (\<exists>e. cancelled a = Some e \<and> res = Inl e)"
      using Suc.prems by (auto split: sum.splits if_splits option.splits)
    then show ?thesis using False Suc.prems by (auto split: sum.splits if_splits option.splits)
  qed
qed

subsection \<open>AI review slots\<close>

lemma effective_range: "1 \<le> effectiveAIReviewMax c \<and> effectiveAIReviewMax c \<le> AIReviewHardMaxApps"
  by (auto simp: effectiveAIReviewMax_def AIReviewHardMaxApps_def Let_def)

lemma claimSlots_spec:
  "claimSlots c n s = (oks, s') \<Longrightarrow>
    length oks = n \<and> sl_count s' = sl_count s + int n \<and>
    int (length (filter id oks)) = max 0 (min (int n) (effectiveAIReviewMax c - sl_count s)) \<and>
    sl_skipped s' = sl_skipped s + int n - int (length (filter id oks))"
proof (induction n arbitrary: s oks)
  case (Suc n)
  let ?s1 = "snd (claimAIReviewSlot c s)"
  obtain r where r: "claimSlots c n ?s1 = (r, s')" "oks = fst (claimAIReviewSlot c s) # r"
    using Suc.prems by (auto simp: Let_def split: prod.splits)
  from Suc.IH[OF r(1)] r(2) show ?case
    by (auto simp: claimAIReviewSlot_def Let_def split: if_splits)
qed simp

section \<open>Properties\<close>

text \<open>C6 When the wait for the processors of an application returns, the note holds exactly one result
  for every processor that did not panic, its state capped as configured, in addition to what it
  held before; a processor that panicked may still be missing, and only those.\<close>

theorem wait_sees_every_returned_result:
  assumes "rreach app procs outs m s" "rn_waited s"
  shows "\<exists>missing. (\<forall>i\<in>missing. i < length procs \<and> panics (outs ! i)) \<and>
    mset (results_of (rn_note s) app) = mset (results_of m app) +
      image_mset (\<lambda>i. posted (procs ! i) (outs ! i)) (mset_set ({..<length procs} - missing))"
proof -
  let ?n = "length procs" and ?gs = "rn_routines s"
  have ok: "run_ok app procs outs m s" using run_ok_reach[OF assms(1)] .
  then have "card (counting ?n ?gs) = 0" using assms(2) by (auto simp: run_ok_def)
  then have none: "counting ?n ?gs = {}" by simp
  have "arrived ?n ?gs = {..<?n} - {i. i < ?n \<and> ?gs ! i = PanicUncounted}"
  proof -
    have "i < ?n \<Longrightarrow> ?gs ! i \<noteq> PanicUncounted \<Longrightarrow> delivered (?gs ! i)" for i
      using none by (cases "?gs ! i") (auto simp: counting_def counts_def delivered_def)
    then show ?thesis by (auto simp: arrived_def delivered_def)
  qed
  then show ?thesis
    using ok by (intro exI[of _ "{i. i < ?n \<and> ?gs ! i = PanicUncounted}"]) (simp add: run_ok_def)
qed

definition demo_proc :: processor_entry where
  "demo_proc = \<lparr>pe_Name = ''check'', pe_WorstState = StatePanic\<rparr>"

lemma one_routine_moves:
  "rstep ''web'' [demo_proc] [Returned r] (startRun [demo_proc] m)
    (setRoutine 0 Added (addResult ''web'' (posted demo_proc (Returned r)) (startRun [demo_proc] m)))"
  "rstep ''web'' [demo_proc] [Panicked e] (startRun [demo_proc] m)
    (setRoutine 0 PanicUncounted (wgDone (startRun [demo_proc] m)))"
  using rstep.add[of 0 "[demo_proc]" "startRun [demo_proc] m" "[Returned r]" "''web''"]
    rstep.panic[of 0 "[demo_proc]" "startRun [demo_proc] m" "[Panicked e]" "''web''"]
  by (simp_all add: startRun_def panics_def)

theorem wait_sees_every_returned_result_witness:
  "\<exists>s::run_state. rn_waited s \<and> results_of (rn_note s) ''web'' = [posted demo_proc (Failed ''no'')]"
proof -
  let ?m = "NewMessage ''r'' 1 2" and ?o = "[Failed ''no'']"
  let ?s1 = "setRoutine 0 Added (addResult ''web'' (posted demo_proc (Failed ''no'')) (startRun [demo_proc] ?m))"
  let ?s2 = "setRoutine 0 Finished (wgDone ?s1)"
  let ?s3 = "?s2\<lparr>rn_waited := True\<rparr>"
  have "rstep ''web'' [demo_proc] ?o (startRun [demo_proc] ?m) ?s1"
    using rstep.add[of 0 "[demo_proc]" "startRun [demo_proc] ?m" ?o "''web''"] by (simp add: startRun_def panics_def)
  then have r1: "rreach ''web'' [demo_proc] ?o ?m ?s1" by (rule rreach.step[OF rreach.start])
  have "rstep ''web'' [demo_proc] ?o ?s1 ?s2"
    by (rule rstep.finish) (simp_all add: setRoutine_def addResult_def startRun_def)
  then have r2: "rreach ''web'' [demo_proc] ?o ?m ?s2" by (rule rreach.step[OF r1])
  have "rstep ''web'' [demo_proc] ?o ?s2 ?s3"
    by (rule rstep.waited) (simp add: setRoutine_def addResult_def startRun_def wgDone_def)
  then have r3: "rreach ''web'' [demo_proc] ?o ?m ?s3" by (rule rreach.step[OF r2])
  obtain missing where ms: "\<forall>i\<in>missing. i < length [demo_proc] \<and> panics (?o ! i)"
    "mset (results_of (rn_note ?s3) ''web'') = mset (results_of ?m ''web'') +
      image_mset (\<lambda>i. posted ([demo_proc] ! i) (?o ! i)) (mset_set ({..<length [demo_proc]} - missing))"
    using wait_sees_every_returned_result[OF r3] by auto
  have "missing = {}" using ms(1) by (auto simp: panics_def)
  then have "mset (results_of (rn_note ?s3) ''web'') = {#posted demo_proc (Failed ''no'')#}"
    using ms(2) by (simp add: results_of_def NewMessage_def lessThan_Suc)
  then have "results_of (rn_note ?s3) ''web'' = [posted demo_proc (Failed ''no'')]" by simp
  moreover have "rn_waited ?s3" by simp
  ultimately show ?thesis by blast
qed

text \<open>A panic counts the goroutine as done before its result is added: the wait can return, and the
  report be built, while the note holds no trace of the processor that panicked.\<close>

theorem panic_can_miss_the_report:
  "\<exists>s. rreach ''web'' [demo_proc] [Panicked e] m s \<and> rn_waited s \<and> rn_note s = m"
proof -
  let ?s1 = "setRoutine 0 PanicUncounted (wgDone (startRun [demo_proc] m))"
  have r1: "rreach ''web'' [demo_proc] [Panicked e] m ?s1"
    by (rule rreach.step[OF rreach.start one_routine_moves(2)])
  have "rstep ''web'' [demo_proc] [Panicked e] ?s1 (?s1\<lparr>rn_waited := True\<rparr>)"
    by (rule rstep.waited) (simp add: setRoutine_def startRun_def wgDone_def)
  from rreach.step[OF r1 this] show ?thesis
    by (intro exI[of _ "?s1\<lparr>rn_waited := True\<rparr>"]) (simp add: setRoutine_def startRun_def wgDone_def)
qed

text \<open>C7 When everything that was counted is done and the producer has nothing left, every affected
  application has been checked, and so has every application that checking one of them queued;
  the number of checks is the number of applications sent.\<close>

theorem every_queued_app_is_checked:
  assumes "preach cap workers kids apps p" "pl_wg p = 0" "pl_todo p 0 = []"
  shows "set apps \<subseteq> set (pl_checked p) \<and> length (pl_checked p) = pl_sent p \<and>
    list_all (\<lambda>a. set (kids a) \<subseteq> set (pl_checked p)) (pl_checked p)"
  using everything_checked[OF assms] .

definition named_app :: "string \<Rightarrow> application" where
  "named_app n = \<lparr>app_Name = n, app_Namespace = ''argocd'', app_Spec =
     \<lparr>sp_Source = None, sp_Sources = [], sp_DestinationName = [], sp_DestinationServer = []\<rparr>\<rparr>"

text \<open>A pool with one worker, by what it has added, queued, counted and locked.\<close>

definition small_pool :: "application strmap \<Rightarrow> application list \<Rightarrow> nat \<Rightarrow> nat \<Rightarrow> (nat \<times> application) option \<Rightarrow>
    application list \<Rightarrow> application list \<Rightarrow> worker_state \<Rightarrow> application list \<Rightarrow> pool" where
  "small_pool known chan wg sent lock t0 t1 w done =
    \<lparr>pl_added = known, pl_chan = chan, pl_wg = wg, pl_sent = sent, pl_lock = lock,
     pl_todo = (\<lambda>g. if g = 0 then t0 else if g = 1 then t1 else []),
     pl_workers = (\<lambda>i. if i = 1 then w else Waiting), pl_checked = done\<rparr>"

lemma small_moves:
  "known (app_Name a) \<noteq> Some a \<Longrightarrow>
    pstep cap 1 kids (small_pool known chan wg sent None (a # t0) t1 w done)
      (small_pool (known(app_Name a \<mapsto> a)) chan (Suc wg) (Suc sent) (Some (0, a)) t0 t1 w done)"
  "length chan < cap \<Longrightarrow>
    pstep cap 1 kids (small_pool known chan wg sent (Some (0, a)) t0 t1 w done)
      (small_pool known (chan @ [a]) wg sent None t0 t1 w done)"
  "pstep cap 1 kids (small_pool known (a # chan) wg sent lock t0 [] Waiting done)
      (small_pool known chan wg sent lock t0 (kids a) (Checking a) done)"
  "pstep cap 1 kids (small_pool known chan wg sent None t0 [] (Checking a) done)
      (small_pool known chan (wg - 1) sent None t0 [] Waiting (done @ [a]))"
proof -
  show "pstep cap 1 kids (small_pool known chan wg sent None (a # t0) t1 w done)
      (small_pool (known(app_Name a \<mapsto> a)) chan (Suc wg) (Suc sent) (Some (0, a)) t0 t1 w done)"
    if "known (app_Name a) \<noteq> Some a"
    using pstep.queue[of "small_pool known chan wg sent None (a # t0) t1 w done" 0 a t0 cap 1 kids] that
    by (auto simp: small_pool_def alreadyAdded_def nextTodo_def queueApp_def fun_eq_iff cong: if_cong
        elim!: back_subst[where P = "pstep cap (Suc 0) kids _"])
  show "pstep cap 1 kids (small_pool known chan wg sent (Some (0, a)) t0 t1 w done)
      (small_pool known (chan @ [a]) wg sent None t0 t1 w done)" if "length chan < cap"
    using pstep.send[of "small_pool known chan wg sent (Some (0, a)) t0 t1 w done" 0 a cap 1 kids] that
    by (auto simp: small_pool_def elim!: back_subst[where P = "pstep cap (Suc 0) kids _"])
  show "pstep cap 1 kids (small_pool known (a # chan) wg sent lock t0 [] Waiting done)
      (small_pool known chan wg sent lock t0 (kids a) (Checking a) done)"
    using pstep.receive[of 1 1 "small_pool known (a # chan) wg sent lock t0 [] Waiting done" a chan cap kids]
    by (auto simp: small_pool_def fun_eq_iff cong: if_cong elim!: back_subst[where P = "pstep cap (Suc 0) kids _"])
  show "pstep cap 1 kids (small_pool known chan wg sent None t0 [] (Checking a) done)
      (small_pool known chan (wg - 1) sent None t0 [] Waiting (done @ [a]))"
    using pstep.checked[of 1 1 "small_pool known chan wg sent None t0 [] (Checking a) done" a cap kids]
    by (auto simp: small_pool_def fun_eq_iff cong: if_cong elim!: back_subst[where P = "pstep cap (Suc 0) kids _"])
qed

lemma small_start: "small_pool (\<lambda>_. None) [] 0 0 None apps [] Waiting [] = startPool apps"
  by (simp add: small_pool_def startPool_def fun_eq_iff)

theorem every_queued_app_is_checked_witness:
  "\<exists>p::pool. pl_wg p = 0 \<and> set [named_app ''a''] \<subseteq> set (pl_checked p) \<and> length (pl_checked p) = pl_sent p"
proof -
  let ?a = "named_app ''a''" and ?k = "\<lambda>_::application. [] :: application list" and ?m = "[''a'' \<mapsto> named_app ''a'']"
  have n: "app_Name ?a = ''a''" by (simp add: named_app_def)
  have "preach 1 1 ?k [?a] (small_pool (\<lambda>_. None) [] 0 0 None [?a] [] Waiting [])"
    using preach.start[of 1 1 ?k "[?a]"] by (simp add: small_start)
  from preach.step[OF this small_moves(1)] have "preach 1 1 ?k [?a] (small_pool ?m [] 1 1 (Some (0, ?a)) [] [] Waiting [])"
    by (simp add: n)
  from preach.step[OF this small_moves(2)] have "preach 1 1 ?k [?a] (small_pool ?m [?a] 1 1 None [] [] Waiting [])" by simp
  from preach.step[OF this small_moves(3)] have "preach 1 1 ?k [?a] (small_pool ?m [] 1 1 None [] [] (Checking ?a) [])" by simp
  from preach.step[OF this small_moves(4)] have r: "preach 1 1 ?k [?a] (small_pool ?m [] 0 1 None [] [] Waiting [?a])" by simp
  have "pl_wg (small_pool ?m [] 0 1 None [] [] Waiting [?a]) = 0" "pl_todo (small_pool ?m [] 0 1 None [] [] Waiting [?a]) 0 = []"
    by (simp_all add: small_pool_def)
  from every_queued_app_is_checked[OF r this] this(1) show ?thesis by blast
qed

text \<open>C40 The lock that \<open>queueApp\<close> holds while it sends can block the whole check: with a channel of one
  and one worker, a check that queues an application while the producer waits for room leaves
  nobody who could make a step, although work is left.\<close>

theorem queueing_can_deadlock:
  "\<exists>p. preach 1 1 (\<lambda>a. if app_Name a = ''a'' then [named_app ''c''] else [])
      [named_app ''a'', named_app ''b'', named_app ''d''] p \<and> pl_wg p \<noteq> 0 \<and>
    \<not> (\<exists>p'. pstep 1 1 (\<lambda>a. if app_Name a = ''a'' then [named_app ''c''] else []) p p')"
proof -
  let ?a = "named_app ''a''" and ?b = "named_app ''b''" and ?c = "named_app ''c''" and ?d = "named_app ''d''"
  let ?k = "\<lambda>a. if app_Name a = ''a'' then [named_app ''c''] else []"
  let ?r = "preach 1 1 ?k [?a, ?b, ?d]"
  have n: "app_Name (named_app x) = x" for x by (simp add: named_app_def)
  let ?m1 = "[''a'' \<mapsto> ?a]" and ?m2 = "[''a'' \<mapsto> ?a, ''b'' \<mapsto> ?b]" and ?m3 = "[''a'' \<mapsto> ?a, ''b'' \<mapsto> ?b, ''d'' \<mapsto> ?d]"
  have "?r (small_pool (\<lambda>_. None) [] 0 0 None [?a, ?b, ?d] [] Waiting [])"
    using preach.start[of 1 1 ?k "[?a, ?b, ?d]"] by (simp add: small_start)
  from preach.step[OF this small_moves(1)] have "?r (small_pool ?m1 [] 1 1 (Some (0, ?a)) [?b, ?d] [] Waiting [])"
    by (simp add: n)
  from preach.step[OF this small_moves(2)] have "?r (small_pool ?m1 [?a] 1 1 None [?b, ?d] [] Waiting [])" by simp
  from preach.step[OF this small_moves(3)] have "?r (small_pool ?m1 [] 1 1 None [?b, ?d] [?c] (Checking ?a) [])" by (simp add: n)
  from preach.step[OF this small_moves(1)] have "?r (small_pool ?m2 [] 2 2 (Some (0, ?b)) [?d] [?c] (Checking ?a) [])"
    by (simp add: n numeral_2_eq_2)
  from preach.step[OF this small_moves(2)] have "?r (small_pool ?m2 [?b] 2 2 None [?d] [?c] (Checking ?a) [])" by simp
  from preach.step[OF this small_moves(1)] have r: "?r (small_pool ?m3 [?b] 3 3 (Some (0, ?d)) [] [?c] (Checking ?a) [])"
    by (simp add: n numeral_3_eq_3)
  have "\<not> pstep 1 1 ?k (small_pool ?m3 [?b] 3 3 (Some (0, ?d)) [] [?c] (Checking ?a) []) p'" for p'
    by (auto simp: small_pool_def elim!: pstep.cases)
  moreover have "pl_wg (small_pool ?m3 [?b] 3 3 (Some (0, ?d)) [] [?c] (Checking ?a) []) \<noteq> 0" by (simp add: small_pool_def)
  ultimately show ?thesis using r by blast
qed



text \<open>Manifests are requested at most three times, again only after a transient failure, and the
  first success is what is returned.\<close>

theorem manifests_retried_at_most_thrice:
  "\<exists>n res. getManifestsWithRetry get cancelled = (res, n) \<and> 1 \<le> n \<and> n \<le> maxManifestRetries \<and>
    list_all (\<lambda>k. case get k of Inl err \<Rightarrow> isRetryableError err | Inr _ \<Rightarrow> False) [1..<n] \<and>
    (case get n of Inr ms \<Rightarrow> res = Inr ms | Inl err \<Rightarrow> res = Inl err \<or> cancelled n \<noteq> None \<and> res = Inl (the (cancelled n)))"
proof -
  obtain res n where r: "getManifestsWithRetry get cancelled = (res, n)" by (cases "getManifestsWithRetry get cancelled")
  from manifestLoop_spec[OF this[unfolded getManifestsWithRetry_def]] show ?thesis
    by (intro exI[of _ n] exI[of _ res]) (auto simp: r list_all_iff maxManifestRetries_def split: sum.splits)
qed

text \<open>However many applications ask for an AI review, in whatever order, the first ones up to the
  configured number, never more than 50, get it, and the others are counted as skipped.\<close>

theorem ai_reviews_are_capped:
  "\<exists>oks s. claimSlots configured n \<lparr>sl_count = 0, sl_skipped = 0\<rparr> = (oks, s) \<and> length oks = n \<and>
    int (length (filter id oks)) = min (int n) (effectiveAIReviewMax configured) \<and>
    int (length (filter id oks)) \<le> AIReviewHardMaxApps \<and>
    sl_skipped s = int n - int (length (filter id oks))"
proof -
  obtain oks s where r: "claimSlots configured n \<lparr>sl_count = 0, sl_skipped = 0\<rparr> = (oks, s)" by fastforce
  from claimSlots_spec[OF this] effective_range[of configured] show ?thesis
    by (intro exI[of _ oks] exI[of _ s]) (auto simp: r)
qed

end
