(* ===== verification/CheckEvent.thy ===== *)
theory CheckEvent
  imports AppSetSpec RepoCache CheckRunner
begin

text \<open>
  \<open>pkg/events/check.go\<close>: one check of a pull request from validation to the commit status.  What
  the version control system, the archive cache, the matcher and the workers answer is the
  environment; what the check asks of them is recorded as a list of calls, so that the theorems
  can speak of what is posted and in which order.  The workers act on the report only through
  its three operations, so their effect is a list of those.  \<open>None\<close> is a panic.
\<close>

section \<open>The AI review comment\<close>

record ai_review =
  ar_AppName :: string
  ar_Result :: result
  ar_Suggestions :: "review_suggestion list"

definition suggestionKey :: "review_suggestion \<Rightarrow> string" where
  "suggestionKey s = sg_Path s @ '':'' @ itoa_int (sg_StartLine s) @ '':'' @ itoa_int (sg_EndLine s) @ '':'' @ sg_Suggestion s"

text \<open>The loop over the suggestions of one review, with the keys seen so far.\<close>

definition addSuggestion :: "string set \<times> review_suggestion list \<Rightarrow> review_suggestion \<Rightarrow> string set \<times> review_suggestion list" where
  "addSuggestion acc s = (if suggestionKey s \<in> fst acc then acc
     else (insert (suggestionKey s) (fst acc), snd acc @ [s]))"

record review_sum =
  rv_reviews :: "string strmap"
  rv_worst :: commit_state
  rv_seen :: "string set \<times> review_suggestion list"

definition collectReview :: "review_sum \<Rightarrow> ai_review \<Rightarrow> review_sum" where
  "collectReview acc r =
    \<lparr>rv_reviews = (rv_reviews acc)(ar_AppName r \<mapsto> res_Details (ar_Result r)),
     rv_worst = WorstState (rv_worst acc) (res_State (ar_Result r)),
     rv_seen = foldl addSuggestion (rv_seen acc) (ar_Suggestions r)\<rparr>"

definition collectReviews :: "ai_review list \<Rightarrow> review_sum" where
  "collectReviews rs = foldl collectReview \<lparr>rv_reviews = (\<lambda>_. None), rv_worst = StateNone, rv_seen = ({}, [])\<rparr> rs"

text \<open>\<open>keys\<close> is the order in which the map of reviews is enumerated before the names are sorted.\<close>

definition buildRawReviewBody :: "string list \<Rightarrow> string strmap \<Rightarrow> string" where
  "buildRawReviewBody keys appReviews = concat (map (\<lambda>appName.
     ''<details>'' @ [nl] @ ''<summary><code>'' @ appName @ ''</code></summary>'' @ [nl, nl] @ the (appReviews appName) @
     [nl, nl] @ ''</details>'' @ [nl, nl]) (sort keys))"

record check_config =
  cf_Identifier :: string
  cf_ReplanCommentMessage :: string
  cf_LabelFilter :: string
  cf_ShowDebugInfo :: bool
  cf_MaxCommentsPerCheck :: int
  cf_MaxCommentLength :: int
  cf_EnableAIReview :: bool
  cf_AIReviewMaxApps :: int
  cf_AIReviewPostSuggestions :: bool
  cf_WorstAIReviewState :: commit_state

definition aiTitle :: "check_config \<Rightarrow> string" where
  "aiTitle cfg = ''## Kubechecks '' @ cf_Identifier cfg @ '' Report '' @ em_dash @ '' AI Review''"

definition capNotice :: "check_config \<Rightarrow> nat \<Rightarrow> nat \<Rightarrow> int \<Rightarrow> string" where
  "capNotice cfg reviewed totalApps skipped =
    (let effectiveMax = effectiveAIReviewMax (cf_AIReviewMaxApps cfg);
         capType = (if effectiveMax = AIReviewHardMaxApps \<and> cf_AIReviewMaxApps cfg > AIReviewHardMaxApps
                    then ''hard limit'' else ''configured limit'')
     in [nl] @ ''---'' @ [nl] @ '':warning: **AI review cap reached** '' @ em_dash @ '' reviewed '' @ itoa reviewed @
        '' of '' @ itoa totalApps @ '' affected apps ('' @ capType @ '': '' @ itoa_int effectiveMax @ ''). '' @
        itoa_int skipped @ '' apps were skipped.'' @ [nl])"

text \<open>\<open>aggregate\<close> consolidates several reviews, if there is a checker that can.\<close>

definition buildAIReviewComment ::
  "check_config \<Rightarrow> (string strmap \<Rightarrow> string + string) option \<Rightarrow> (string strmap \<Rightarrow> string list) \<Rightarrow> nat \<Rightarrow> ai_slots \<Rightarrow>
   ai_review list \<Rightarrow> string \<times> commit_state \<times> review_suggestion list" where
  "buildAIReviewComment cfg aggregate keys totalApps slots results =
    (if results = [] then (aiTitle cfg @ [nl] @ ''No review results.'', StateNone, [])
     else
       let acc = collectReviews results;
           appReviews = rv_reviews acc;
           raw = buildRawReviewBody (keys appReviews) appReviews;
           body = (if length (keys appReviews) > 1 \<and> cf_EnableAIReview cfg
                   then (case aggregate of
                           None \<Rightarrow> raw
                         | Some agg \<Rightarrow> (case agg appReviews of Inl err \<Rightarrow> raw | Inr consolidated \<Rightarrow> consolidated))
                   else raw);
           body = (if sl_skipped slots > 0 then body @ capNotice cfg (length results) totalApps (sl_skipped slots) else body)
       in (aiTitle cfg @ [nl, nl] @ body, rv_worst acc, snd (rv_seen acc)))"

section \<open>The event\<close>

datatype vcs_call =
    SetStatus commit_state
  | PostMessage string
  | UpdateMessage int "string list"
  | TidyOutdatedComments
  | PostReviewSuggestions string "review_suggestion list"
  | ReleaseArchive string string

datatype check_error =
    ValidateFailed archive_error
  | DownloadFailed archive_error
  | CanonicalizeFailed string
  | ChangedFilesFailed archive_error
  | AffectedFailed affected_error
  | PostFailed string
  | NoteFailed string
  | PushFailed string

record check_state =
  cs_calls :: "vcs_call list"
  cs_urls :: validated
  cs_repos :: repo_store
  cs_superseded :: bool
  cs_finalStatusSet :: bool

text \<open>What the workers have done when the wait group is down: the operations on the report, the
  applications added and sent, and the AI reviews.\<close>

record work_done =
  wd_ops :: "msg_op list"
  wd_added :: nat
  wd_sent :: nat
  wd_reviews :: "ai_review list"
  wd_slots :: ai_slots

record check_env =
  ev_archive :: vcs_archive_api
  ev_getOrDownload :: "string \<Rightarrow> string \<Rightarrow> headers \<Rightarrow> archive_error + string"
  ev_statusText :: "nat \<Rightarrow> string"
  ev_ctxErr :: "ctx_err option"
  ev_supersededCause :: bool
  ev_parsers :: url_parsers
  ev_matcher :: "git_repo \<Rightarrow> string + matcher"
  ev_inputs :: set_inputs
  ev_headSHA :: "string + string"
  ev_post :: "string \<Rightarrow> string + message"
  ev_update :: "int \<Rightarrow> string list \<Rightarrow> string option"
  ev_work :: "bool \<Rightarrow> message \<Rightarrow> application list \<Rightarrow> work_done"
  ev_aggregate :: "(string strmap \<Rightarrow> string + string) option"
  ev_appKeys :: "message \<Rightarrow> string list"
  ev_reviewKeys :: "string strmap \<Rightarrow> string list"
  ev_emoji :: "commit_state \<Rightarrow> string"
  ev_footer :: "commentOptions \<Rightarrow> string"

definition call :: "vcs_call \<Rightarrow> check_state \<Rightarrow> check_state" where
  "call c s = s\<lparr>cs_calls := cs_calls s @ [c]\<rparr>"

definition CommitStatus :: "commit_state \<Rightarrow> check_state \<Rightarrow> check_state" where
  "CommitStatus status s =
    call (SetStatus status) (if status \<noteq> StateRunning then s\<lparr>cs_finalStatusSet := True\<rparr> else s)"

definition isSuperseded :: "check_env \<Rightarrow> pull_request \<Rightarrow> check_state \<Rightarrow> bool \<times> check_state" where
  "isSuperseded ev pr s =
    (case ev_headSHA ev of
       Inl err \<Rightarrow> (False, s)
     | Inr headSHA \<Rightarrow> if headSHA = [] \<or> headSHA = pr_SHA pr then (False, s) else (True, s\<lparr>cs_superseded := True\<rparr>))"

definition runningNote :: "check_config \<Rightarrow> string" where
  "runningNote cfg = ''## Kubechecks '' @ cf_Identifier cfg @ '' Report'' @ [nl] @ '':hourglass: kubechecks running...''"

definition runningAINote :: "check_config \<Rightarrow> string" where
  "runningAINote cfg = aiTitle cfg @ [nl] @ '':hourglass: AI review running...''"

definition noChangesNote :: "check_config \<Rightarrow> string" where
  "noChangesNote cfg = ''## Kubechecks '' @ cf_Identifier cfg @ '' Report'' @ [nl] @ ''No changes''"

text \<open>The placeholder of the AI review, if it is enabled and can be posted.\<close>

definition createAIReviewNote :: "check_env \<Rightarrow> check_config \<Rightarrow> check_state \<Rightarrow> message option \<times> check_state" where
  "createAIReviewNote ev cfg s =
    (if cf_EnableAIReview cfg
     then (case ev_post ev (runningAINote cfg) of Inl err \<Rightarrow> None | Inr n \<Rightarrow> Some n, call (PostMessage (runningAINote cfg)) s)
     else (None, s))"

text \<open>The update of the AI review: its errors are only logged.\<close>

definition postAIReview ::
  "check_env \<Rightarrow> check_config \<Rightarrow> nat \<Rightarrow> work_done \<Rightarrow> message option \<Rightarrow> commit_state \<Rightarrow> check_state \<Rightarrow> commit_state \<times> check_state" where
  "postAIReview ev cfg totalApps w aiNote worst s =
    (case aiNote of
       None \<Rightarrow> (worst, s)
     | Some n \<Rightarrow>
         let (comment, aiWorst, suggestions) =
               buildAIReviewComment cfg (ev_aggregate ev) (ev_reviewKeys ev) totalApps (wd_slots w) (wd_reviews w);
             maxLen = cf_MaxCommentLength cfg;
             comment = (if slen comment > maxLen then take (nat maxLen) comment else comment);
             s = call (UpdateMessage (m_NoteID n) [comment]) s;
             s = (if suggestions \<noteq> [] \<and> cf_AIReviewPostSuggestions cfg
                  then call (PostReviewSuggestions
                         (''## Kubechecks '' @ cf_Identifier cfg @ '' AI Suggestion Report ##'') suggestions) s
                  else s)
         in (WorstState worst (BestState aiWorst (cf_WorstAIReviewState cfg)), s))"

definition reportOptions :: "check_config \<Rightarrow> pull_request \<Rightarrow> work_done \<Rightarrow> commentOptions" where
  "reportOptions cfg pr w = \<lparr>co_CommitSHA = pr_SHA pr, co_LabelFilter = cf_LabelFilter cfg,
     co_ShowDebugInfo = cf_ShowDebugInfo cfg, co_Identifier = cf_Identifier cfg, co_AppsChecked = wd_added w,
     co_TotalChecked = wd_sent w, co_MaxLength = cf_MaxCommentLength cfg, co_MaxComments = cf_MaxCommentsPerCheck cfg\<rparr>"

text \<open>From the note to the final status.  Without an AI note there is no AI checker either.\<close>

definition runChecks ::
  "check_env \<Rightarrow> check_config \<Rightarrow> pull_request \<Rightarrow> affected_items \<Rightarrow> spec_finding list \<Rightarrow> check_state \<Rightarrow>
   check_error option \<times> check_state" where
  "runChecks ev cfg pr items findings s =
    (let s = call (PostMessage (runningNote cfg)) s in
     case ev_post ev (runningNote cfg) of
       Inl err \<Rightarrow> (Some (NoteFailed err), s)
     | Inr note \<Rightarrow>
         let note = flushAppSetSpecFindings note findings;
             (aiNote, s) = createAIReviewNote ev cfg s;
             w = ev_work ev (aiNote \<noteq> None) note (ai_Applications items);
             note = msg_run note (wd_ops w);
             chunks = BuildComment (ev_emoji ev) (ev_footer ev) (ev_appKeys ev note) note (reportOptions cfg pr w);
             s = call (UpdateMessage (m_NoteID note) chunks) s;
             postErr = ev_update ev (m_NoteID note) chunks;
             worst = msgWorstState (ev_appKeys ev note) note;
             (worst, s) = postAIReview ev cfg (length (ai_Applications items)) w aiNote worst s;
             s = CommitStatus worst s
         in (map_option PushFailed postErr, s))"

definition affectedInputs :: "check_env \<Rightarrow> pull_request \<Rightarrow> string list \<Rightarrow> set_inputs" where
  "affectedInputs ev pr files = (ev_inputs ev)\<lparr>si_changes := files, si_BaseRef := pr_BaseRef pr\<rparr>"

text \<open>From the archive to the end.\<close>

definition checkRepo ::
  "check_env \<Rightarrow> check_config \<Rightarrow> pull_request \<Rightarrow> git_repo \<Rightarrow> check_state \<Rightarrow> (check_error option \<times> check_state) option" where
  "checkRepo ev cfg pr repo s =
    (case Canonicalize (ev_parsers ev) (pr_CloneURL pr) of
       Inl err \<Rightarrow> Some (Some (CanonicalizeFailed err), s)
     | Inr parsed \<Rightarrow>
         let s = s\<lparr>cs_repos := storeArchive parsed pr repo (cs_repos s)\<rparr> in
         (case GetChangedFiles (ev_archive ev) pr of
            Inl err \<Rightarrow> Some (Some (ChangedFilesFailed err), s)
          | Inr files \<Rightarrow>
              (case GenerateListOfAffectedApps (affectedInputs ev pr files) (ev_matcher ev repo) of
                 None \<Rightarrow> None
               | Some (items, findings, Some err) \<Rightarrow> Some (Some (AffectedFailed err), s)
               | Some (items, findings, None) \<Rightarrow>
                   let (moved, s) = isSuperseded ev pr s in
                   if moved then Some (None, s)
                   else
                     let s = call TidyOutdatedComments s in
                     if ai_Applications items = [] \<and> ai_ApplicationSets items = []
                     then Some (case ev_post ev (noChangesNote cfg) of Inl err \<Rightarrow> Some (PostFailed err) | Inr _ \<Rightarrow> None,
                                call (PostMessage (noChangesNote cfg)) s)
                     else Some (runChecks ev cfg pr items findings s))))"

definition process :: "check_env \<Rightarrow> check_config \<Rightarrow> pull_request \<Rightarrow> check_state \<Rightarrow> (check_error option \<times> check_state) option" where
  "process ev cfg pr s =
    (case ValidatePullRequest (ev_archive ev) pr (cs_urls s) of
       (Some err, urls) \<Rightarrow>
         Some (Some (ValidateFailed err),
               call (PostMessage (conflictMessage (pr_BaseRef pr) (cf_ReplanCommentMessage cfg))) (s\<lparr>cs_urls := urls\<rparr>))
     | (None, urls) \<Rightarrow>
         let s = CommitStatus StateRunning (s\<lparr>cs_urls := urls\<rparr>) in
         (case manager_Clone (ev_archive ev) (ev_getOrDownload ev) (pr_CloneURL pr) (pr_BaseRef pr) pr (cs_urls s) of
            (Inl err, urls) \<Rightarrow>
              Some (Some (DownloadFailed err),
                    call (PostMessage (archiveErrorMessage (ev_statusText ev) (cf_ReplanCommentMessage cfg) (ev_ctxErr ev) err))
                      (s\<lparr>cs_urls := urls\<rparr>))
          | (Inr repo, urls) \<Rightarrow>
              map_option (\<lambda>(err, s). (err, call (ReleaseArchive (gr_CloneURL repo) (gr_MergeCommitSHA repo)) s))
                (checkRepo ev cfg pr repo (s\<lparr>cs_urls := urls\<rparr>))))"

definition settle :: "check_env \<Rightarrow> check_error option \<Rightarrow> check_state \<Rightarrow> check_error option \<times> check_state" where
  "settle ev err s =
    (if cs_superseded s then (None, s)
     else if ev_supersededCause ev then (None, s)
     else if cs_finalStatusSet s then (err, s)
     else if err \<noteq> None then (err, CommitStatus StateError s)
     else (err, CommitStatus StateSkip s))"

definition Process :: "check_env \<Rightarrow> check_config \<Rightarrow> pull_request \<Rightarrow> check_state \<Rightarrow> (check_error option \<times> check_state) option" where
  "Process ev cfg pr s = map_option (\<lambda>(err, s). settle ev err s) (process ev cfg pr s)"

definition NewCheckEvent :: "validated \<Rightarrow> check_state" where
  "NewCheckEvent urls = \<lparr>cs_calls = [], cs_urls = urls, cs_repos = emptyRepos, cs_superseded = False, cs_finalStatusSet = False\<rparr>"

text \<open>The matcher of the program: the index of the cluster, and the configuration file if there is one.\<close>

definition generateMatcher ::
  "(argocd_matcher \<Rightarrow> matcher) \<Rightarrow> (repo_config \<Rightarrow> matcher) \<Rightarrow> argocd_matcher option \<Rightarrow> config_error + repo_config option \<Rightarrow>
   (config_error + matcher) option" where
  "generateMatcher byIndex byConfig m cfg =
    (case m of
       None \<Rightarrow> None
     | Some m \<Rightarrow>
         Some (case cfg of
                 Inl err \<Rightarrow> Inl err
               | Inr None \<Rightarrow> Inr (byIndex m)
               | Inr (Some c) \<Rightarrow> Inr (MultiAffectedApps [byIndex m, byConfig c])))"

section \<open>Lemmas\<close>

definition statuses :: "vcs_call list \<Rightarrow> commit_state list" where
  "statuses cs = List.map_filter (\<lambda>c. case c of SetStatus st \<Rightarrow> Some st | _ \<Rightarrow> None) cs"

definition finals :: "vcs_call list \<Rightarrow> commit_state list" where
  "finals cs = filter (\<lambda>st. st \<noteq> StateRunning) (statuses cs)"

definition released :: "vcs_call list \<Rightarrow> (string \<times> string) list" where
  "released cs = List.map_filter (\<lambda>c. case c of ReleaseArchive u sha \<Rightarrow> Some (u, sha) | _ \<Rightarrow> None) cs"

lemma call_lists [simp]:
  "statuses [] = []" "statuses (xs @ ys) = statuses xs @ statuses ys" "statuses (SetStatus st # cs) = st # statuses cs"
  "statuses (PostMessage t # cs) = statuses cs" "statuses (UpdateMessage i ts # cs) = statuses cs"
  "statuses (TidyOutdatedComments # cs) = statuses cs" "statuses (PostReviewSuggestions t gs # cs) = statuses cs"
  "statuses (ReleaseArchive u sha # cs) = statuses cs"
  "released [] = []" "released (xs @ ys) = released xs @ released ys" "released (SetStatus st # cs) = released cs"
  "released (PostMessage t # cs) = released cs" "released (UpdateMessage i ts # cs) = released cs"
  "released (TidyOutdatedComments # cs) = released cs" "released (PostReviewSuggestions t gs # cs) = released cs"
  "released (ReleaseArchive u sha # cs) = (u, sha) # released cs"
  by (simp_all add: statuses_def released_def List.map_filter_def)

text \<open>The state after the calls \<open>cs\<close>: what they imply for the flag of the final status.\<close>

definition after :: "check_state \<Rightarrow> vcs_call list \<Rightarrow> check_state \<Rightarrow> bool" where
  "after s cs s' = (cs_calls s' = cs_calls s @ cs \<and> cs_superseded s' = cs_superseded s \<and>
     cs_finalStatusSet s' = (cs_finalStatusSet s \<or> list_ex (\<lambda>st. st \<noteq> StateRunning) (statuses cs)))"

lemma after_trans: "after s cs s' \<Longrightarrow> after s' ds s'' \<Longrightarrow> after s (cs @ ds) s''"
  by (simp add: after_def disj_assoc)

lemma after_call:
  "after s [] s" "after s [PostMessage t] (call (PostMessage t) s)" "after s [UpdateMessage i ts] (call (UpdateMessage i ts) s)"
  "after s [TidyOutdatedComments] (call TidyOutdatedComments s)"
  "after s [PostReviewSuggestions t gs] (call (PostReviewSuggestions t gs) s)"
  "after s [ReleaseArchive u sha] (call (ReleaseArchive u sha) s)" "after s [SetStatus st] (CommitStatus st s)"
  by (simp_all add: after_def call_def CommitStatus_def)

lemma after_urls: "after s cs s' \<Longrightarrow> after (s\<lparr>cs_urls := u\<rparr>) cs s'" "after s cs s' \<Longrightarrow> after (s\<lparr>cs_repos := r\<rparr>) cs s'"
  by (simp_all add: after_def)

text \<open>The calls of a stage that sets no status and releases nothing.\<close>

definition quiet :: "vcs_call list \<Rightarrow> bool" where
  "quiet cs = (statuses cs = [] \<and> released cs = [])"

lemma quiet_simps [simp]:
  "quiet []" "quiet (xs @ ys) = (quiet xs \<and> quiet ys)" "quiet (PostMessage t # cs) = quiet cs"
  "quiet (UpdateMessage i ts # cs) = quiet cs" "quiet (TidyOutdatedComments # cs) = quiet cs"
  "quiet (PostReviewSuggestions t gs # cs) = quiet cs"
  by (auto simp: quiet_def)

lemma createAIReviewNote_quiet: "createAIReviewNote ev cfg s = (n, s') \<Longrightarrow> \<exists>cs. after s cs s' \<and> quiet cs"
  using after_call(1)[of s] after_call(2)[of s] by (fastforce simp: createAIReviewNote_def split: if_splits)

lemma postAIReview_quiet:
  assumes "postAIReview ev cfg n w aiNote worst s = (st, s')"
  shows "\<exists>cs. after s cs s' \<and> quiet cs"
proof (cases aiNote)
  case None
  then show ?thesis using assms after_call(1)[of s] by (intro exI[of _ "[]"]) (simp add: postAIReview_def)
next
  case (Some nt)
  obtain c aw gs where b: "buildAIReviewComment cfg (ev_aggregate ev) (ev_reviewKeys ev) n (wd_slots w) (wd_reviews w) = (c, aw, gs)"
    by (metis prod.exhaust)
  define t where "t = (if slen c > cf_MaxCommentLength cfg then take (nat (cf_MaxCommentLength cfg)) c else c)"
  define u where "u = ''## Kubechecks '' @ cf_Identifier cfg @ '' AI Suggestion Report ##''"
  have "s' = (if gs \<noteq> [] \<and> cf_AIReviewPostSuggestions cfg
      then call (PostReviewSuggestions u gs) (call (UpdateMessage (m_NoteID nt) [t]) s)
      else call (UpdateMessage (m_NoteID nt) [t]) s)"
    using assms unfolding Some postAIReview_def option.case Let_def b prod.case t_def u_def by (simp only: prod.inject)
  then have 1: "s' = call (UpdateMessage (m_NoteID nt) [t]) s \<or>
      s' = call (PostReviewSuggestions u gs) (call (UpdateMessage (m_NoteID nt) [t]) s)" by argo
  have a: "after s [UpdateMessage (m_NoteID nt) [t]] (call (UpdateMessage (m_NoteID nt) [t]) s)" by (rule after_call)
  from 1 show ?thesis
  proof
    assume "s' = call (UpdateMessage (m_NoteID nt) [t]) s"
    then show ?thesis using a by (intro exI[of _ "[UpdateMessage (m_NoteID nt) [t]]"]) simp
  next
    assume "s' = call (PostReviewSuggestions u gs) (call (UpdateMessage (m_NoteID nt) [t]) s)"
    then show ?thesis using after_trans[OF a after_call(5)[of _ u gs]]
      by (intro exI[of _ "[UpdateMessage (m_NoteID nt) [t]] @ [PostReviewSuggestions u gs]"]) simp
  qed
qed

lemma runChecks_calls:
  assumes "runChecks ev cfg pr items fs s = (err, s')"
  shows "\<exists>cs. released cs = [] \<and> after s cs s' \<and>
    (statuses cs = [] \<and> (\<exists>e. err = Some (NoteFailed e)) \<or>
     (\<exists>st. statuses cs = [st]) \<and> (err = None \<or> (\<exists>e. err = Some (PushFailed e))))"
proof (cases "ev_post ev (runningNote cfg)")
  case (Inl e)
  then have "err = Some (NoteFailed e)" "s' = call (PostMessage (runningNote cfg)) s"
    using assms by (simp_all add: runChecks_def Let_def)
  then show ?thesis using after_call(2) by (intro exI[of _ "[PostMessage (runningNote cfg)]"]) simp
next
  case (Inr nt)
  let ?s1 = "call (PostMessage (runningNote cfg)) s"
  obtain aiNote s2 where 2: "createAIReviewNote ev cfg ?s1 = (aiNote, s2)" by fastforce
  then obtain c2 where c2: "after ?s1 c2 s2" "quiet c2" using createAIReviewNote_quiet by blast
  let ?w = "ev_work ev (aiNote \<noteq> None) (flushAppSetSpecFindings nt fs) (ai_Applications items)"
  let ?n = "msg_run (flushAppSetSpecFindings nt fs) (wd_ops ?w)"
  let ?chunks = "BuildComment (ev_emoji ev) (ev_footer ev) (ev_appKeys ev ?n) ?n (reportOptions cfg pr ?w)"
  let ?s3 = "call (UpdateMessage (m_NoteID ?n) ?chunks) s2"
  obtain worst s4 where 4: "postAIReview ev cfg (length (ai_Applications items)) ?w aiNote
      (msgWorstState (ev_appKeys ev ?n) ?n) ?s3 = (worst, s4)" by fastforce
  then obtain c4 where c4: "after ?s3 c4 s4" "quiet c4" using postAIReview_quiet by blast
  have r: "err = map_option PushFailed (ev_update ev (m_NoteID ?n) ?chunks)" "s' = CommitStatus worst s4"
    using assms 2 4 by (simp_all add: runChecks_def Let_def Inr)
  let ?cs = "((([PostMessage (runningNote cfg)] @ c2) @ [UpdateMessage (m_NoteID ?n) ?chunks]) @ c4) @ [SetStatus worst]"
  have "after s ?cs s'"
    unfolding r(2)
    by (rule after_trans[OF after_trans[OF after_trans[OF after_trans[OF after_call(2) c2(1)] after_call(3)] c4(1)] after_call(7)])
  moreover have "statuses ?cs = [worst] \<and> released ?cs = []" using c2(2) c4(2) by (simp add: quiet_def)
  ultimately show ?thesis using r(1) by (intro exI[of _ ?cs]) auto
qed

text \<open>The calls between the archive and the end: none after the pull request has moved on.\<close>

lemma isSuperseded_cases:
  assumes "isSuperseded ev pr s = (moved, s')"
  shows "s' = (if moved then s\<lparr>cs_superseded := True\<rparr> else s)"
  using assms by (auto simp: isSuperseded_def split: sum.splits if_splits)

lemma checkRepo_calls:
  assumes "checkRepo ev cfg pr repo s = Some (err, s')" "\<not> cs_superseded s"
  shows "cs_superseded s' \<and> err = None \<and> cs_calls s' = cs_calls s \<and> cs_finalStatusSet s' = cs_finalStatusSet s \<or>
    (\<exists>cs. released cs = [] \<and> after s cs s' \<and>
      (statuses cs = [] \<or> (\<exists>st. statuses cs = [st]) \<and> (err = None \<or> (\<exists>e. err = Some (PushFailed e)))))"
proof -
  have quietly: "?thesis" if "s' = s\<lparr>cs_repos := r\<rparr>" for r
    using that after_call(1)[of s] by (intro disjI2 exI[of _ "[]"]) (simp add: after_def)
  show ?thesis
  proof (cases "Canonicalize (ev_parsers ev) (pr_CloneURL pr)")
    case (Inl e)
    then show ?thesis using assms quietly[of "cs_repos s"] by (simp add: checkRepo_def)
  next
    case p: (Inr parsed)
    let ?s1 = "s\<lparr>cs_repos := storeArchive parsed pr repo (cs_repos s)\<rparr>"
    show ?thesis
    proof (cases "GetChangedFiles (ev_archive ev) pr")
      case (Inl e)
      then have "s' = ?s1" using assms p by (simp add: checkRepo_def)
      then show ?thesis by (rule quietly)
    next
      case f: (Inr files)
      then obtain items fs e where g:
        "GenerateListOfAffectedApps (affectedInputs ev pr files) (ev_matcher ev repo) = Some (items, fs, e)"
        using assms(1)[unfolded checkRepo_def p f sum.case Let_def]
        by (cases "GenerateListOfAffectedApps (affectedInputs ev pr files) (ev_matcher ev repo)") (simp, metis prod.exhaust)
      show ?thesis
      proof (cases e)
        case (Some e')
        then have "s' = ?s1" using assms p f g by (simp add: checkRepo_def)
        then show ?thesis by (rule quietly)
      next
        case None
        obtain moved s2 where m: "isSuperseded ev pr ?s1 = (moved, s2)" by fastforce
        note s2 = isSuperseded_cases[OF m]
        note eq = assms(1)[unfolded checkRepo_def p f g None sum.case option.case prod.case Let_def m]
        show ?thesis
        proof (cases moved)
          case True
          then have "err = None" "s' = ?s1\<lparr>cs_superseded := True\<rparr>" using eq s2 by simp_all
          then show ?thesis by simp
        next
          case False
          let ?s3 = "call TidyOutdatedComments ?s1"
          have s3: "after s [TidyOutdatedComments] ?s3" by (simp add: after_def call_def)
          show ?thesis
          proof (cases "ai_Applications items = [] \<and> ai_ApplicationSets items = []")
            case True
            then have "s' = call (PostMessage (noChangesNote cfg)) ?s3" using eq False s2 by simp
            then show ?thesis using after_trans[OF s3 after_call(2)]
              by (intro disjI2 exI[of _ "[TidyOutdatedComments] @ [PostMessage (noChangesNote cfg)]"]) simp
          next
            case some: False
            then have "runChecks ev cfg pr items fs ?s3 = (err, s')" using eq False s2 by (simp split: if_splits)
            from runChecks_calls[OF this] obtain cs where cs: "released cs = []" "after ?s3 cs s'"
              "statuses cs = [] \<or> (\<exists>st. statuses cs = [st]) \<and> (err = None \<or> (\<exists>e. err = Some (PushFailed e)))"
              by blast
            then show ?thesis using after_trans[OF s3 cs(2)]
              by (intro disjI2 exI[of _ "[TidyOutdatedComments] @ cs"]) simp
          qed
        qed
      qed
    qed
  qed
qed

text \<open>What a whole check does: the statuses it sets before it settles, and the release of the archive.\<close>

definition archiveOf :: "check_env \<Rightarrow> check_config \<Rightarrow> pull_request \<Rightarrow> validated \<Rightarrow> git_repo option" where
  "archiveOf ev cfg pr urls =
    (case ValidatePullRequest (ev_archive ev) pr urls of
       (Some err, urls) \<Rightarrow> None
     | (None, urls) \<Rightarrow>
         (case fst (manager_Clone (ev_archive ev) (ev_getOrDownload ev) (pr_CloneURL pr) (pr_BaseRef pr) pr urls) of
            Inl err \<Rightarrow> None | Inr repo \<Rightarrow> Some repo))"

lemma process_calls:
  assumes "process ev cfg pr (NewCheckEvent urls) = Some (err, s)"
  shows "released (cs_calls s) = (case archiveOf ev cfg pr urls of None \<Rightarrow> [] | Some r \<Rightarrow> [(gr_CloneURL r, gr_MergeCommitSHA r)]) \<and>
    (cs_superseded s \<and> err = None \<and> \<not> cs_finalStatusSet s \<and>
       (\<exists>u sha. cs_calls s = [SetStatus StateRunning, ReleaseArchive u sha]) \<or>
     \<not> cs_superseded s \<and> (\<exists>pre. (pre = [] \<or> pre = [StateRunning]) \<and>
       (statuses (cs_calls s) = pre \<and> \<not> cs_finalStatusSet s \<or>
        (\<exists>st. statuses (cs_calls s) = pre @ [st] \<and> cs_finalStatusSet s = (st \<noteq> StateRunning)) \<and>
        (err = None \<or> (\<exists>e. err = Some (PushFailed e))))))"
proof -
  obtain verr urls1 where v: "ValidatePullRequest (ev_archive ev) pr urls = (verr, urls1)" by fastforce
  show ?thesis
  proof (cases verr)
    case (Some e)
    then show ?thesis using assms v
      by (auto simp: process_def NewCheckEvent_def archiveOf_def call_def)
  next
    case None
    obtain c urls2 where c: "manager_Clone (ev_archive ev) (ev_getOrDownload ev) (pr_CloneURL pr) (pr_BaseRef pr) pr urls1 = (c, urls2)"
      by fastforce
    let ?s1 = "CommitStatus StateRunning (NewCheckEvent urls\<lparr>cs_urls := urls1\<rparr>)"
    have s1: "cs_calls ?s1 = [SetStatus StateRunning]" "\<not> cs_superseded ?s1" "\<not> cs_finalStatusSet ?s1" "cs_urls ?s1 = urls1"
      by (simp_all add: CommitStatus_def call_def NewCheckEvent_def)
    have u: "cs_urls (NewCheckEvent urls) = urls" by (simp add: NewCheckEvent_def)
    note eq = assms[unfolded process_def u v None option.case prod.case Let_def s1(4) c]
    show ?thesis
    proof (cases c)
      case (Inl e)
      then show ?thesis using eq v None c s1
        by (auto simp: archiveOf_def call_def intro!: exI[of _ "[StateRunning]"])
    next
      case (Inr repo)
      let ?s2 = "?s1\<lparr>cs_urls := urls2\<rparr>"
      let ?rel = "ReleaseArchive (gr_CloneURL repo) (gr_MergeCommitSHA repo)"
      obtain s3 where s3: "checkRepo ev cfg pr repo ?s2 = Some (err, s3)" "s = call ?rel s3"
        using eq by (auto simp: Inr)
      have a: "archiveOf ev cfg pr urls = Some repo" using v None c Inr by (simp add: archiveOf_def)
      from checkRepo_calls[OF s3(1)] s1(2) consider
        (moved) "cs_superseded s3" "err = None" "cs_calls s3 = cs_calls ?s2" "cs_finalStatusSet s3 = cs_finalStatusSet ?s2"
        | (ran) cs where "released cs = []" "after ?s2 cs s3"
          "statuses cs = [] \<or> (\<exists>st. statuses cs = [st]) \<and> (err = None \<or> (\<exists>e. err = Some (PushFailed e)))"
        by auto
      then show ?thesis
      proof cases
        case moved
        then show ?thesis using a s1 s3(2) by (simp add: call_def)
      next
        case (ran cs)
        have s: "cs_calls s = [SetStatus StateRunning] @ cs @ [?rel]" "\<not> cs_superseded s"
          "cs_finalStatusSet s = list_ex (\<lambda>st. st \<noteq> StateRunning) (statuses cs)"
          using ran(2) s1 s3(2) by (simp_all add: after_def call_def)
        have "released (cs_calls s) = [(gr_CloneURL repo, gr_MergeCommitSHA repo)]" using ran(1) s(1) by simp
        moreover have "statuses (cs_calls s) = [StateRunning] @ statuses cs" using s(1) by simp
        ultimately show ?thesis using ran(3) s(2,3) a by (auto intro!: exI[of _ "[StateRunning]"])
      qed
    qed
  qed
qed

section \<open>Properties\<close>

text \<open>C1 A check that is neither superseded nor cancelled for a newer commit sets exactly one final
  status, after the running one, whatever fails on the way: the error state unless the report
  could be built.  A check whose pull request has moved on sets none, reports no error, and
  posts nothing at all.\<close>

theorem every_check_settles_once:
  assumes "Process ev cfg pr (NewCheckEvent urls) = Some (err, s)"
  shows "length (finals (cs_calls s)) \<le> 1 \<and>
    (cs_superseded s \<longrightarrow> err = None \<and> (\<exists>u sha. cs_calls s = [SetStatus StateRunning, ReleaseArchive u sha])) \<and>
    (\<not> cs_superseded s \<longrightarrow> \<not> ev_supersededCause ev \<longrightarrow>
      (\<exists>st. finals (cs_calls s) = [st] \<and> last (statuses (cs_calls s)) = st \<and>
         (err \<noteq> None \<longrightarrow> st = StateError \<or> (\<exists>e. err = Some (PushFailed e)))))"
proof -
  obtain err0 s0 where p: "process ev cfg pr (NewCheckEvent urls) = Some (err0, s0)" and st: "settle ev err0 s0 = (err, s)"
    using assms by (auto simp: Process_def)
  from process_calls[OF p] show ?thesis
  proof (elim conjE disjE)
    assume "cs_superseded s0" "err0 = None" "\<not> cs_finalStatusSet s0"
      "\<exists>u sha. cs_calls s0 = [SetStatus StateRunning, ReleaseArchive u sha]"
    then show ?thesis using st by (auto simp: settle_def finals_def)
  next
    assume n: "\<not> cs_superseded s0" and "\<exists>pre. (pre = [] \<or> pre = [StateRunning]) \<and>
       (statuses (cs_calls s0) = pre \<and> \<not> cs_finalStatusSet s0 \<or>
        (\<exists>st. statuses (cs_calls s0) = pre @ [st] \<and> cs_finalStatusSet s0 = (st \<noteq> StateRunning)) \<and>
        (err0 = None \<or> (\<exists>e. err0 = Some (PushFailed e))))"
    then obtain pre where pre: "pre = [] \<or> pre = [StateRunning]" and
      k: "statuses (cs_calls s0) = pre \<and> \<not> cs_finalStatusSet s0 \<or>
        (\<exists>st. statuses (cs_calls s0) = pre @ [st] \<and> cs_finalStatusSet s0 = (st \<noteq> StateRunning)) \<and>
        (err0 = None \<or> (\<exists>e. err0 = Some (PushFailed e)))" by blast
    have ne: "StateSkip \<noteq> StateRunning" "StateError \<noteq> StateRunning"
      by (simp_all add: StateSkip_def StateError_def StateRunning_def)
    show ?thesis
      using k pre n st ne by (auto simp: settle_def finals_def CommitStatus_def call_def split: if_splits)
  qed
qed

text \<open>The archive of a check is released exactly once when it was obtained, with the URL and commit
  it was stored under, on every path, and never otherwise.\<close>

theorem archive_is_released_once:
  assumes "Process ev cfg pr (NewCheckEvent urls) = Some (err, s)"
  shows "released (cs_calls s) =
    (case archiveOf ev cfg pr urls of None \<Rightarrow> [] | Some r \<Rightarrow> [(gr_CloneURL r, gr_MergeCommitSHA r)])"
proof -
  obtain err0 s0 where p: "process ev cfg pr (NewCheckEvent urls) = Some (err0, s0)" and st: "settle ev err0 s0 = (err, s)"
    using assms by (auto simp: Process_def)
  have "released (cs_calls s) = released (cs_calls s0)"
    using st by (auto simp: settle_def CommitStatus_def call_def split: if_splits)
  then show ?thesis using process_calls[OF p] by simp
qed

subsection \<open>A check of nothing\<close>

definition demo_check_cfg :: check_config where
  "demo_check_cfg = \<lparr>cf_Identifier = ''dev'', cf_ReplanCommentMessage = ''kubechecks again'', cf_LabelFilter = [],
     cf_ShowDebugInfo = False, cf_MaxCommentsPerCheck = 3, cf_MaxCommentLength = 1000, cf_EnableAIReview = False,
     cf_AIReviewMaxApps = 5, cf_AIReviewPostSuggestions = False, cf_WorstAIReviewState = StateNone\<rparr>"

definition demo_work :: work_done where
  "demo_work = \<lparr>wd_ops = [], wd_added = 0, wd_sent = 0, wd_reviews = [], wd_slots = \<lparr>sl_count = 0, sl_skipped = 0\<rparr>\<rparr>"

definition demo_env :: check_env where
  "demo_env = \<lparr>ev_archive = demo_archive_api, ev_getOrDownload = (\<lambda>_ _ _. Inr ''/tmp/a''), ev_statusText = (\<lambda>_. []),
     ev_ctxErr = None, ev_supersededCause = False, ev_parsers = demo_parsers,
     ev_matcher = (\<lambda>_. Inr (\<lambda>_ _. Some (noItems, None))),
     ev_inputs = \<lparr>si_orders = \<lparr>mo_dirs = (\<lambda>_. []), mo_names = id, mo_apps = (\<lambda>_. [])\<rparr>, si_api = demo_api, si_diff = demo_app_diff,
       si_changes = [], si_BaseRef = [], si_head = (\<lambda>_. Inl []), si_base = (\<lambda>_. Inl [])\<rparr>,
     ev_headSHA = Inr [], ev_post = (\<lambda>_. Inl ''down''), ev_update = (\<lambda>_ _. None), ev_work = (\<lambda>_ _ _. demo_work),
     ev_aggregate = None, ev_appKeys = (\<lambda>_. []), ev_reviewKeys = (\<lambda>_. []), ev_emoji = (\<lambda>_. []), ev_footer = (\<lambda>_. [])\<rparr>"

definition demo_pr :: pull_request where
  "demo_pr = pr_zero\<lparr>pr_CloneURL := ''https://git.io/a/b'', pr_FullName := ''a/b'', pr_SHA := ''ab12''\<rparr>"

lemma demo_sha: "extractSHAFromArchiveURL ''https://api.github.com/repos/o/r/zipball/ab12'' = Inr ''ab12''"
  by code_simp

lemma demo_canonical: "Canonicalize demo_parsers ''https://git.io/a/b'' = Inr \<lparr>ru_Host = ''git.io'', ru_Path = ''a/b''\<rparr>"
  by code_simp

lemma demo_env_simps:
  "ev_archive demo_env = demo_archive_api" "ev_getOrDownload demo_env = (\<lambda>_ _ _. Inr ''/tmp/a'')"
  "ev_supersededCause demo_env = False" "ev_parsers demo_env = demo_parsers"
  "ev_matcher demo_env r = Inr (\<lambda>_ _. Some (noItems, None))" "ev_headSHA demo_env = Inr []" "ev_post demo_env t = Inl ''down''"
  by (simp_all add: demo_env_def)

lemma demo_process: "\<exists>s. Process demo_env demo_check_cfg demo_pr (NewCheckEvent (\<lambda>_. None)) =
    Some (Some (PostFailed ''down''), s) \<and> \<not> cs_superseded s \<and> cs_calls s \<noteq> []"
proof -
  have v: "ValidatePullRequest demo_archive_api demo_pr (\<lambda>_. None) =
      (None, [validatedKey demo_pr \<mapsto> ''https://api.github.com/repos/o/r/zipball/ab12''])"
    by (simp add: ValidatePullRequest_def demo_archive_api_def)
  have c: "\<exists>r u. manager_Clone demo_archive_api (\<lambda>_ _ _. Inr ''/tmp/a'') cu br demo_pr
      [validatedKey demo_pr \<mapsto> ''https://api.github.com/repos/o/r/zipball/ab12''] = (Inr r, u)" for cu br
    by (simp add: manager_Clone_def archiveURLFor_def demo_sha) (simp add: demo_archive_api_def)
  obtain r u where c: "manager_Clone demo_archive_api (\<lambda>_ _ _. Inr ''/tmp/a'') (pr_CloneURL demo_pr) (pr_BaseRef demo_pr) demo_pr
      [validatedKey demo_pr \<mapsto> ''https://api.github.com/repos/o/r/zipball/ab12''] = (Inr r, u)"
    using c by blast
  have f: "GetChangedFiles demo_archive_api demo_pr = Inr []" by (simp add: GetChangedFiles_def demo_archive_api_def)
  have g: "GenerateListOfAffectedApps si (Inr (\<lambda>_ _. Some (noItems, None))) = Some (noItems, [], None)" for si
    by (simp add: GenerateListOfAffectedApps_def noItems_def)
  have p: "pr_CloneURL demo_pr = ''https://git.io/a/b''" by (simp add: demo_pr_def)
  have m: "isSuperseded demo_env demo_pr s = (False, s)" for s by (simp add: isSuperseded_def demo_env_simps)
  have n: "ai_Applications noItems = []" "ai_ApplicationSets noItems = []" by (simp_all add: noItems_def)
  have k: "\<exists>s'. checkRepo demo_env demo_check_cfg demo_pr repo s = Some (Some (PostFailed ''down''), s') \<and>
      cs_superseded s' = cs_superseded s \<and> cs_finalStatusSet s' = cs_finalStatusSet s" for repo s
    by (simp add: checkRepo_def demo_env_simps p demo_canonical f g m n call_def)
  obtain s' where s': "checkRepo demo_env demo_check_cfg demo_pr r
      (CommitStatus StateRunning (NewCheckEvent (\<lambda>_. None)\<lparr>cs_urls := [validatedKey demo_pr \<mapsto> ''https://api.github.com/repos/o/r/zipball/ab12'']\<rparr>)
        \<lparr>cs_urls := u\<rparr>) = Some (Some (PostFailed ''down''), s')" "\<not> cs_superseded s'" "\<not> cs_finalStatusSet s'"
    using k[of r "CommitStatus StateRunning (NewCheckEvent (\<lambda>_. None)\<lparr>cs_urls := [validatedKey demo_pr \<mapsto> ''https://api.github.com/repos/o/r/zipball/ab12'']\<rparr>)\<lparr>cs_urls := u\<rparr>"]
    by (auto simp: CommitStatus_def call_def NewCheckEvent_def)
  have u: "cs_urls (NewCheckEvent (\<lambda>_. None)) = (\<lambda>_. None)" by (simp add: NewCheckEvent_def)
  have w: "cs_urls (CommitStatus st s) = cs_urls s" for st s by (simp add: CommitStatus_def call_def)
  have "process demo_env demo_check_cfg demo_pr (NewCheckEvent (\<lambda>_. None)) =
      Some (Some (PostFailed ''down''), call (ReleaseArchive (gr_CloneURL r) (gr_MergeCommitSHA r)) s')"
    by (simp only: process_def demo_env_simps u v prod.case option.case Let_def w c sum.case s'(1) option.map
        check_state.select_convs check_state.update_convs) (simp add: s'(1) w c)
  then show ?thesis using s'(2,3)
    by (simp add: Process_def settle_def call_def CommitStatus_def demo_env_simps)
qed

theorem every_check_settles_once_witness:
  "\<exists>s::check_state. finals (cs_calls s) = [StateError]"
proof -
  obtain s where p: "Process demo_env demo_check_cfg demo_pr (NewCheckEvent (\<lambda>_. None)) = Some (Some (PostFailed ''down''), s)"
    "\<not> cs_superseded s" using demo_process by blast
  have "\<not> ev_supersededCause demo_env" by (simp add: demo_env_def)
  then show ?thesis using every_check_settles_once[OF p(1)] p(2) by auto
qed

theorem archive_is_released_once_witness:
  "\<exists>s::check_state. released (cs_calls s) = [(''https://git.io/a/b'', ''ab12'')]"
proof -
  obtain s where p: "Process demo_env demo_check_cfg demo_pr (NewCheckEvent (\<lambda>_. None)) = Some (Some (PostFailed ''down''), s)"
    using demo_process by blast
  have "archiveOf demo_env demo_check_cfg demo_pr (\<lambda>_. None) =
      Some \<lparr>gr_BranchName = [], gr_CloneURL = ''https://git.io/a/b'', gr_Directory = ''/tmp/a'', gr_BaseBranchName = [],
        gr_MergeCommitSHA = ''ab12''\<rparr>"
    by (simp add: archiveOf_def demo_env_def ValidatePullRequest_def manager_Clone_def archiveURLFor_def
        demo_archive_api_def demo_sha demo_pr_def pr_zero_def)
  then show ?thesis using archive_is_released_once[OF p] by auto
qed

subsection \<open>What is posted fits\<close>

definition fits :: "check_config \<Rightarrow> vcs_call \<Rightarrow> bool" where
  "fits cfg c = (case c of
     UpdateMessage _ ts \<Rightarrow> 1 \<le> slen ts \<and> slen ts \<le> clampComments (cf_MaxCommentsPerCheck cfg) \<and>
       list_all (\<lambda>t. slen t \<le> cf_MaxCommentLength cfg) ts
   | _ \<Rightarrow> True)"

definition allFit :: "check_config \<Rightarrow> check_state \<Rightarrow> bool" where
  "allFit cfg s = list_all (fits cfg) (cs_calls s)"

lemma allFit_call [simp]: "allFit cfg (call c s) = (allFit cfg s \<and> fits cfg c)"
  by (simp add: allFit_def call_def conj_commute)

lemma allFit_upd [simp]: "allFit cfg (s\<lparr>cs_urls := u\<rparr>) = allFit cfg s" "allFit cfg (s\<lparr>cs_repos := r\<rparr>) = allFit cfg s"
  "allFit cfg (s\<lparr>cs_superseded := b\<rparr>) = allFit cfg s" "allFit cfg (CommitStatus st s) = allFit cfg s"
  by (simp_all add: allFit_def CommitStatus_def call_def fits_def)

lemma fits_simps [simp]: "fits cfg (SetStatus st)" "fits cfg (PostMessage t)" "fits cfg TidyOutdatedComments"
  "fits cfg (PostReviewSuggestions t gs)" "fits cfg (ReleaseArchive u sha)"
  by (simp_all add: fits_def)

lemma postAIReview_fits:
  assumes "0 \<le> cf_MaxCommentLength cfg" "allFit cfg s"
  shows "allFit cfg (snd (postAIReview ev cfg n w aiNote worst s))"
proof -
  have "fits cfg (UpdateMessage i [take (nat (cf_MaxCommentLength cfg)) c])"
    "\<not> slen c > cf_MaxCommentLength cfg \<Longrightarrow> fits cfg (UpdateMessage i [c])" for i c
    using assms(1) clampComments_range[of "cf_MaxCommentsPerCheck cfg"] by (simp_all add: fits_def)
  then show ?thesis
    using assms(2) by (auto simp: postAIReview_def Let_def split: option.split prod.split)
qed

lemma runChecks_fits:
  assumes "\<And>w. tailsFit (commentConfig (ev_footer ev) (reportOptions cfg pr w))" "allFit cfg s"
  shows "allFit cfg (snd (runChecks ev cfg pr items fs s))"
proof (cases "ev_post ev (runningNote cfg)")
  case (Inl e)
  then show ?thesis using assms(2) by (simp add: runChecks_def Let_def)
next
  case (Inr nt)
  have "0 \<le> cf_MaxCommentLength cfg"
    using assms(1)[of undefined] by (auto simp: tailsFit_def commentConfig_def reportOptions_def)
  note ai = postAIReview_fits[OF this]
  have u: "fits cfg (UpdateMessage i (BuildComment (ev_emoji ev) (ev_footer ev) ks m (reportOptions cfg pr w)))" for i ks m w
    using BuildComment_lens[OF assms(1)[of w]] BuildComment_counts[of "ev_emoji ev" "ev_footer ev" ks m "reportOptions cfg pr w"]
    by (auto simp: fits_def list_all_iff reportOptions_def)
  obtain aiNote s2 where 2: "createAIReviewNote ev cfg (call (PostMessage (runningNote cfg)) s) = (aiNote, s2)" by fastforce
  then have f2: "allFit cfg s2" using assms(2) by (auto simp: createAIReviewNote_def split: if_splits)
  show ?thesis
    unfolding runChecks_def Let_def Inr sum.case 2 prod.case case_prod_unfold snd_conv allFit_upd
    by (rule ai) (simp only: allFit_call f2 u)
qed

lemma checkRepo_fits:
  assumes "\<And>w. tailsFit (commentConfig (ev_footer ev) (reportOptions cfg pr w))" "allFit cfg s"
    and "checkRepo ev cfg pr repo s = Some (err, s')"
  shows "allFit cfg s'"
proof -
  have runs: "(e, t') = runChecks ev cfg pr items fs t \<Longrightarrow> allFit cfg t \<longrightarrow> allFit cfg t'" for items fs t e t'
    using runChecks_fits[OF assms(1), of t items fs] by (metis snd_conv)
  have moved: "isSuperseded ev pr t = (b, t') \<Longrightarrow> allFit cfg t' = allFit cfg t" for t b t'
    using isSuperseded_cases[of ev pr t b t'] by simp
  show ?thesis
    using assms(2,3)
    by (auto simp: checkRepo_def Let_def moved split: sum.splits option.splits prod.splits if_splits
        dest!: runs runs[OF sym])
qed

text \<open>Everything a check writes over its notes fits: the report takes between one and the allowed
  number of comments, the AI review one, and none is longer than the limit of the version
  control system, whatever the checks found.\<close>

theorem every_update_fits:
  assumes "Process ev cfg pr (NewCheckEvent urls) = Some (err, s)"
    and "\<And>w. tailsFit (commentConfig (ev_footer ev) (reportOptions cfg pr w))"
  shows "list_all (fits cfg) (cs_calls s)"
proof -
  have n: "allFit cfg (NewCheckEvent urls)" by (simp add: allFit_def NewCheckEvent_def)
  obtain err0 s0 where p: "process ev cfg pr (NewCheckEvent urls) = Some (err0, s0)" and st: "settle ev err0 s0 = (err, s)"
    using assms(1) by (auto simp: Process_def)
  have "checkRepo ev cfg pr repo t = Some (e, t') \<Longrightarrow> allFit cfg t \<longrightarrow> allFit cfg t'" for repo t e t'
    using checkRepo_fits[OF assms(2)] by blast
  then have "allFit cfg s0"
    using p n by (auto simp: process_def Let_def split: prod.splits option.splits sum.splits)
  then have "allFit cfg s" using st by (auto simp: settle_def split: if_splits)
  then show ?thesis by (simp add: allFit_def)
qed

theorem every_update_fits_witness:
  "\<exists>s::check_state. cs_calls s \<noteq> [] \<and> list_all (fits demo_check_cfg) (cs_calls s)"
proof -
  obtain s where p: "Process demo_env demo_check_cfg demo_pr (NewCheckEvent (\<lambda>_. None)) = Some (Some (PostFailed ''down''), s)"
    "cs_calls s \<noteq> []" using demo_process by blast
  have "tailsFit (commentConfig (ev_footer demo_env) (reportOptions demo_check_cfg demo_pr w))" for w
    unfolding tailsFit_def commentConfig_def reportOptions_def demo_env_def demo_check_cfg_def
    by (simp add: continuedIn_def footerSeparator_def truncatedNote_def)
  from every_update_fits[OF p(1) this] show ?thesis using p(2) by blast
qed

subsection \<open>Suggestions of the AI review\<close>

definition suggestionOf :: "review_suggestion \<Rightarrow> string \<times> int \<times> int \<times> string" where
  "suggestionOf s = (sg_Path s, sg_StartLine s, sg_EndLine s, sg_Suggestion s)"

lemma suggestionKey_inj:
  assumes "suggestionKey s = suggestionKey t" "CHR '':'' \<notin> set (sg_Path s)" "CHR '':'' \<notin> set (sg_Path t)"
  shows "suggestionOf s = suggestionOf t"
proof -
  have c: "CHR '':'' \<notin> set (itoa_int n)" for n
    using itoa_chars[of "nat n"] itoa_chars[of "nat (- n)"] by (auto simp: itoa_int_def)
  have 1: "sg_Path s = sg_Path t \<and> itoa_int (sg_StartLine s) @ '':'' @ itoa_int (sg_EndLine s) @ '':'' @ sg_Suggestion s =
      itoa_int (sg_StartLine t) @ '':'' @ itoa_int (sg_EndLine t) @ '':'' @ sg_Suggestion t"
    using assms cut_at_char[of "sg_Path s" "CHR '':''" _ "sg_Path t"] by (simp add: suggestionKey_def)
  then have e: "itoa_int (sg_StartLine s) @ CHR '':'' # (itoa_int (sg_EndLine s) @ CHR '':'' # sg_Suggestion s) =
      itoa_int (sg_StartLine t) @ CHR '':'' # (itoa_int (sg_EndLine t) @ CHR '':'' # sg_Suggestion t)" by simp
  from cut_at_char[OF this c c] have 2: "itoa_int (sg_StartLine s) = itoa_int (sg_StartLine t)" and
    r: "itoa_int (sg_EndLine s) @ CHR '':'' # sg_Suggestion s = itoa_int (sg_EndLine t) @ CHR '':'' # sg_Suggestion t" by blast+
  from cut_at_char[OF r c c] have "itoa_int (sg_EndLine s) = itoa_int (sg_EndLine t) \<and> sg_Suggestion s = sg_Suggestion t" .
  then show ?thesis using 1 2 itoa_int_inj by (simp add: suggestionOf_def)
qed

lemma addSuggestions_keys:
  assumes "fst acc = suggestionKey ` set (snd acc)" "distinct (map suggestionKey (snd acc))"
  shows "fst (foldl addSuggestion acc ss) = suggestionKey ` set (snd (foldl addSuggestion acc ss)) \<and>
    distinct (map suggestionKey (snd (foldl addSuggestion acc ss))) \<and>
    set (snd (foldl addSuggestion acc ss)) \<subseteq> set (snd acc) \<union> set ss \<and>
    fst (foldl addSuggestion acc ss) = fst acc \<union> suggestionKey ` set ss"
  using assms
proof (induction ss arbitrary: acc)
  case (Cons s ss)
  have "fst (addSuggestion acc s) = suggestionKey ` set (snd (addSuggestion acc s))"
    "distinct (map suggestionKey (snd (addSuggestion acc s)))"
    using Cons.prems by (auto simp: addSuggestion_def)
  from Cons.IH[OF this] show ?case by (auto simp: addSuggestion_def split: if_splits)
qed auto

lemma collectReviews_seen:
  "rv_seen (collectReviews rs) = foldl addSuggestion ({}, []) (concat (map ar_Suggestions rs)) \<and>
   rv_worst (collectReviews rs) = foldl WorstState StateNone (map (\<lambda>r. res_State (ar_Result r)) rs)"
  unfolding collectReviews_def by (induction rs rule: rev_induct) (simp_all add: collectReview_def)

text \<open>The suggestions posted for several AI reviews are those of the reviews with every repetition
  (same file, lines and replacement) removed, provided no file name holds a colon; the state
  that counts is the worst of the reviews.\<close>

theorem suggestions_are_posted_once:
  assumes "list_all (\<lambda>s. CHR '':'' \<notin> set (sg_Path s)) (concat (map ar_Suggestions rs))"
    and "buildAIReviewComment cfg agg keys n slots rs = (comment, worst, suggestions)"
  shows "distinct (map suggestionOf suggestions) \<and> set suggestions \<subseteq> set (concat (map ar_Suggestions rs)) \<and>
    suggestionOf ` set suggestions = suggestionOf ` set (concat (map ar_Suggestions rs)) \<and>
    worst = Max (insert StateNone ((\<lambda>r. res_State (ar_Result r)) ` set rs))"
proof (cases "rs = []")
  case True
  then show ?thesis using assms(2) by (auto simp: buildAIReviewComment_def)
next
  case False
  let ?ss = "concat (map ar_Suggestions rs)"
  have s: "suggestions = snd (foldl addSuggestion ({}, []) ?ss)" and w: "worst = foldl WorstState StateNone (map (\<lambda>r. res_State (ar_Result r)) rs)"
    using assms(2) False collectReviews_seen[of rs] by (auto simp: buildAIReviewComment_def Let_def)
  have d: "distinct (map suggestionKey suggestions)" and sub: "set suggestions \<subseteq> set ?ss"
    and keys: "suggestionKey ` set suggestions = suggestionKey ` set ?ss"
  proof -
    have p: "fst ({}, []) = suggestionKey ` set (snd ({}, []))" "distinct (map suggestionKey (snd ({}, [])))" by simp_all
    note k = addSuggestions_keys[OF p, of ?ss, folded s, unfolded fst_conv snd_conv]
    show "distinct (map suggestionKey suggestions)" using k by (elim conjE)
    show "set suggestions \<subseteq> set ?ss" using k by (elim conjE) simp
    show "suggestionKey ` set suggestions = suggestionKey ` set ?ss" using k by (elim conjE) (metis Un_empty_left)
  qed
  have colon: "suggestionKey x = suggestionKey y \<Longrightarrow> suggestionOf x = suggestionOf y" if "x \<in> set ?ss" "y \<in> set ?ss" for x y
    using suggestionKey_inj that assms(1) by (auto simp: list_all_iff)
  have rev: "suggestionOf x = suggestionOf y \<Longrightarrow> suggestionKey x = suggestionKey y" for x y
    by (simp add: suggestionOf_def suggestionKey_def)
  have "distinct (map suggestionOf suggestions)"
    using d rev unfolding distinct_map inj_on_def by blast
  moreover
  have "suggestionOf x \<in> suggestionOf ` set suggestions" if "x \<in> set ?ss" for x
  proof -
    have "suggestionKey x \<in> suggestionKey ` set suggestions" using keys that by blast
    then obtain y where y: "y \<in> set suggestions" "suggestionKey x = suggestionKey y" by blast
    then have "suggestionOf x = suggestionOf y" using colon[OF that] sub by blast
    then show ?thesis using y(1) by blast
  qed
  then have "suggestionOf ` set suggestions = suggestionOf ` set ?ss" using sub by blast
  moreover note sub
  ultimately show ?thesis using w sub by (simp add: foldl_WorstState_Max)
qed

text \<open>With a colon in a file name, the suggestions for two different files can have the same key, and
  the second one is dropped.\<close>

lemma colon_drops_suggestion:
  "suggestionKey \<lparr>sg_Path = ''a'', sg_StartLine = 1, sg_EndLine = 2, sg_Body = b, sg_Suggestion = ''3:x''\<rparr> =
   suggestionKey \<lparr>sg_Path = ''a:1'', sg_StartLine = 2, sg_EndLine = 3, sg_Body = b, sg_Suggestion = ''x''\<rparr>"
proof -
  have "itoa_int 1 = ''1''" "itoa_int 2 = ''2''" "itoa_int 3 = ''3''" by code_simp+
  then show ?thesis by (simp add: suggestionKey_def)
qed

definition demo_suggestion :: "string \<Rightarrow> review_suggestion" where
  "demo_suggestion b = \<lparr>sg_Path = ''a.yaml'', sg_StartLine = 1, sg_EndLine = 2, sg_Body = b, sg_Suggestion = ''x''\<rparr>"

definition demo_review :: "string \<Rightarrow> ai_review" where
  "demo_review n = \<lparr>ar_AppName = n, ar_Result = plain_result StateWarning ''review'' ''text'',
     ar_Suggestions = [demo_suggestion n]\<rparr>"

theorem suggestions_are_posted_once_witness:
  "card (suggestionOf ` set (snd (snd (buildAIReviewComment demo_check_cfg None (\<lambda>_. []) 2
     \<lparr>sl_count = 0, sl_skipped = 0\<rparr> [demo_review ''web'', demo_review ''db''])))) = 1"
proof -
  obtain c w ss where b: "buildAIReviewComment demo_check_cfg None (\<lambda>_. []) 2 \<lparr>sl_count = 0, sl_skipped = 0\<rparr>
      [demo_review ''web'', demo_review ''db''] = (c, w, ss)" by (metis prod.exhaust)
  have "list_all (\<lambda>s. CHR '':'' \<notin> set (sg_Path s)) (concat (map ar_Suggestions [demo_review ''web'', demo_review ''db'']))"
    by (simp add: demo_review_def demo_suggestion_def)
  from suggestions_are_posted_once[OF this b] have "suggestionOf ` set ss = {(''a.yaml'', 1, 2, ''x'')}"
    by (simp add: demo_review_def demo_suggestion_def suggestionOf_def)
  then show ?thesis unfolding b snd_conv by simp
qed

end
