(* ===== verification/VcsReview.thy ===== *)
theory VcsReview
  imports Archive
begin

text \<open>
  \<open>review.go\<close> of both clients: posting the code suggestions of a review as comments on the lines of
  the diff, once each.  What GitHub and GitLab answer is an argument: the comments they list (an
  error ends the listing) and the references of the diff.  The result says what is posted.
\<close>

section \<open>GitHub\<close>

record review_comment =
  rvc_Login :: string
  rvc_Body :: string
  rvc_Path :: string
  rvc_Line :: int

record draft_comment =
  dc_Path :: string
  dc_Body :: string
  dc_Side :: string
  dc_Line :: int
  dc_StartLine :: "int option"
  dc_StartSide :: "string option"

record review_request =
  rr_CommitID :: string
  rr_Event :: string
  rr_Body :: string
  rr_Comments :: "draft_comment list"

record existing_comment =
  xc_Path :: string
  xc_Line :: int
  xc_Suggestion :: string

definition fence3 :: string where
  "fence3 = ''```''"

definition endMarker :: string where
  "endMarker = [nl] @ fence3"

definition extractSuggestionBlock :: "string \<Rightarrow> string" where
  "extractSuggestionBlock body =
    (let startMarker = fence3 @ ''suggestion'' @ [nl] in
     case str_index body startMarker of
       None \<Rightarrow> []
     | Some startIdx \<Rightarrow>
         let content = drop (startIdx + length startMarker) body in
         case str_index content endMarker of None \<Rightarrow> [] | Some endIdx \<Rightarrow> take endIdx content)"

definition isDuplicateSuggestion :: "existing_comment list \<Rightarrow> string \<Rightarrow> int \<Rightarrow> string \<Rightarrow> bool" where
  "isDuplicateSuggestion existing path line suggestion =
    list_ex (\<lambda>e. xc_Path e = path \<and> xc_Line e = line \<and> xc_Suggestion e = suggestion) existing"

fun listExistingReviewComments :: "string \<Rightarrow> (string + review_comment) list \<Rightarrow> string + existing_comment list" where
  "listExistingReviewComments username [] = Inr []"
| "listExistingReviewComments username (Inl err # rest) = Inl (''failed to list review comments: '' @ err)"
| "listExistingReviewComments username (Inr c # rest) =
    (case listExistingReviewComments username rest of
       Inl err \<Rightarrow> Inl err
     | Inr later \<Rightarrow>
         if \<not> EqualFold (rvc_Login c) username then Inr later
         else let suggestion = extractSuggestionBlock (rvc_Body c) in
              if suggestion = [] then Inr later
              else Inr (\<lparr>xc_Path = rvc_Path c, xc_Line = rvc_Line c, xc_Suggestion = suggestion\<rparr> # later))"

definition githubSuggestionBody :: "review_suggestion \<Rightarrow> string" where
  "githubSuggestionBody s = sg_Body s @ [nl, nl] @ fence3 @ ''suggestion'' @ [nl] @ sg_Suggestion s @ [nl] @ fence3"

definition draftComment :: "review_suggestion \<Rightarrow> draft_comment" where
  "draftComment s =
    (let multi = (sg_StartLine s > 0 \<and> sg_StartLine s < sg_EndLine s) in
     \<lparr>dc_Path = sg_Path s, dc_Body = githubSuggestionBody s, dc_Side = ''RIGHT'', dc_Line = sg_EndLine s,
      dc_StartLine = (if multi then Some (sg_StartLine s) else None),
      dc_StartSide = (if multi then Some ''RIGHT'' else None)\<rparr>)"

text \<open>The review that is posted, \<open>None\<close> when none is.\<close>

definition githubPostReviewSuggestions ::
  "string \<Rightarrow> (string + review_comment) list \<Rightarrow> pull_request \<Rightarrow> string \<Rightarrow> review_suggestion list \<Rightarrow> review_request option" where
  "githubPostReviewSuggestions username listing pr summary suggestions =
    (if suggestions = [] then None
     else let existing = (case listExistingReviewComments username listing of Inl _ \<Rightarrow> [] | Inr ex \<Rightarrow> ex);
              comments = map draftComment (filter (\<lambda>s. \<not> isDuplicateSuggestion existing (sg_Path s) (sg_EndLine s) (sg_Suggestion s)) suggestions)
          in if comments = [] then None
             else Some \<lparr>rr_CommitID = pr_SHA pr, rr_Event = ''COMMENT'', rr_Body = summary, rr_Comments = comments\<rparr>)"

section \<open>GitLab\<close>

record note_position =
  np_NewPath :: string
  np_NewLine :: int

record discussion_note =
  dn_Username :: string
  dn_Body :: string
  dn_Position :: "note_position option"

record diff_refs =
  df_BaseSha :: string
  df_HeadSha :: string
  df_StartSha :: string

record discussion_options =
  do_Body :: string
  do_Refs :: diff_refs
  do_Path :: string
  do_NewLine :: int

definition extractGitLabSuggestionBlock :: "string \<Rightarrow> string" where
  "extractGitLabSuggestionBlock body =
    (case str_index body (fence3 @ ''suggestion'') of
       None \<Rightarrow> []
     | Some startIdx \<Rightarrow>
         (case str_index (drop startIdx body) [nl] of
            None \<Rightarrow> []
          | Some nlIdx \<Rightarrow>
              let content = drop (startIdx + nlIdx + 1) body in
              case str_index content endMarker of None \<Rightarrow> [] | Some endIdx \<Rightarrow> take endIdx content))"

definition isDuplicateGitLabSuggestion :: "existing_comment list \<Rightarrow> string \<Rightarrow> int \<Rightarrow> string \<Rightarrow> bool" where
  "isDuplicateGitLabSuggestion existing path line suggestion =
    list_ex (\<lambda>e. xc_Path e = path \<and> xc_Line e = line \<and> xc_Suggestion e = suggestion) existing"

definition existingOfNote :: "string \<Rightarrow> discussion_note \<Rightarrow> existing_comment list" where
  "existingOfNote username d =
    (if dn_Username d \<noteq> username then []
     else let suggestion = extractGitLabSuggestionBlock (dn_Body d) in
          if suggestion = [] then []
          else [\<lparr>xc_Path = (case dn_Position d of None \<Rightarrow> [] | Some p \<Rightarrow> np_NewPath p),
                 xc_Line = (case dn_Position d of None \<Rightarrow> 0 | Some p \<Rightarrow> np_NewLine p),
                 xc_Suggestion = suggestion\<rparr>])"

text \<open>The answers are the pages up to the last one; a page holds discussions, which hold notes.\<close>

fun listExistingDiscussionSuggestions ::
  "string \<Rightarrow> (string + discussion_note list list) list \<Rightarrow> string + existing_comment list" where
  "listExistingDiscussionSuggestions username [] = Inr []"
| "listExistingDiscussionSuggestions username (Inl err # pages) = Inl (''failed to list discussions: '' @ err)"
| "listExistingDiscussionSuggestions username (Inr discussions # pages) =
    (case listExistingDiscussionSuggestions username pages of
       Inl err \<Rightarrow> Inl err
     | Inr later \<Rightarrow> Inr (concat (map (existingOfNote username) (concat discussions)) @ later))"

definition gitlabSuggestionBody :: "review_suggestion \<Rightarrow> string" where
  "gitlabSuggestionBody s =
    (let linesAbove = (if sg_StartLine s > 0 \<and> sg_StartLine s < sg_EndLine s then sg_EndLine s - sg_StartLine s else 0)
     in sg_Body s @ [nl, nl] @ fence3 @ ''suggestion:-'' @ itoa_int linesAbove @ ''+0'' @ [nl] @ sg_Suggestion s @ [nl] @ fence3)"

definition discussionOptions :: "diff_refs \<Rightarrow> review_suggestion \<Rightarrow> discussion_options" where
  "discussionOptions refs s =
    \<lparr>do_Body = gitlabSuggestionBody s, do_Refs = refs, do_Path = sg_Path s, do_NewLine = sg_EndLine s\<rparr>"

text \<open>The discussions the client tries to create; one that fails is skipped with a warning.\<close>

definition gitlabPostReviewSuggestions ::
  "string \<Rightarrow> string + diff_refs \<Rightarrow> (string + discussion_note list list) list \<Rightarrow> review_suggestion list \<Rightarrow>
   string + discussion_options list" where
  "gitlabPostReviewSuggestions username mr pages suggestions =
    (if suggestions = [] then Inr []
     else case mr of
       Inl err \<Rightarrow> Inl (''failed to get merge request for diff refs: '' @ err)
     | Inr refs \<Rightarrow>
         if df_BaseSha refs = [] \<or> df_HeadSha refs = [] \<or> df_StartSha refs = []
         then Inl (''merge request diff refs incomplete (base='' @ df_BaseSha refs @ '', head='' @ df_HeadSha refs @
                '', start='' @ df_StartSha refs @ '')'')
         else let existing = (case listExistingDiscussionSuggestions username pages of Inl _ \<Rightarrow> [] | Inr ex \<Rightarrow> ex)
              in Inr (map (discussionOptions refs)
                   (filter (\<lambda>s. \<not> isDuplicateGitLabSuggestion existing (sg_Path s) (sg_EndLine s) (sg_Suggestion s)) suggestions)))"

section \<open>Reading a posted suggestion back\<close>

text \<open>A suggestion that a client recovers from the body it renders: it replaces its lines by
  something, without a closing fence of its own, and its explanation opens no suggestion block.\<close>

definition plain_suggestion :: "review_suggestion \<Rightarrow> bool" where
  "plain_suggestion s = (sg_Suggestion s \<noteq> [] \<and> \<not> str_contains (sg_Suggestion s) endMarker \<and>
     \<not> str_contains (sg_Body s) (fence3 @ ''suggestion''))"

text \<open>What the two clients share: a way to render a suggestion and one to read it back.  A comment is
  its body, path and line; \<open>recorded\<close> are those that a client reads back.\<close>

locale suggestion_format =
  fixes render :: "review_suggestion \<Rightarrow> string"
    and read_back :: "string \<Rightarrow> string"
  assumes read_render: "plain_suggestion s \<Longrightarrow> read_back (render s) = sg_Suggestion s"
begin

definition recorded :: "(string \<times> string \<times> int) list \<Rightarrow> existing_comment list" where
  "recorded posted = concat (map (\<lambda>(body, path, line). if read_back body = [] then []
     else [\<lparr>xc_Path = path, xc_Line = line, xc_Suggestion = read_back body\<rparr>]) posted)"

lemma recorded_again:
  assumes "plain_suggestion s" "(render s, sg_Path s, sg_EndLine s) \<in> set posted"
  shows "list_ex (\<lambda>e. xc_Path e = sg_Path s \<and> xc_Line e = sg_EndLine s \<and> xc_Suggestion e = sg_Suggestion s) (recorded posted)"
  using assms(2) read_render[OF assms(1)] assms(1)
  by (induction posted) (auto simp: recorded_def plain_suggestion_def)

lemma unreadable_not_recorded:
  "read_back (render s) = [] \<Longrightarrow> recorded [(render s, sg_Path s, sg_EndLine s)] = []"
  by (simp add: recorded_def)

end

lemma index_endMarker:
  "\<not> str_contains a endMarker \<Longrightarrow> str_index (a @ [nl] @ fence3) endMarker = Some (length a)"
  using str_index_unbordered[of a nl fence3 "[]"] by (simp add: endMarker_def fence3_def)

lemma str_index_prefix_extend:
  assumes "str_index s p = Some i" "has_prefix (drop i s) (p @ q)"
  shows "str_index s (p @ q) = Some i"
proof -
  have "\<not> has_prefix (drop j s) (p @ q)" if "j < i" for j
    using str_index_least[OF assms(1) that] by (auto simp: has_prefix_iff)
  moreover have "i \<le> length s" using str_index_Some[OF assms(1)] by simp
  ultimately show ?thesis using str_index_eqI[OF assms(2)] by simp
qed

lemma index_marker:
  "\<not> str_contains a (fence3 @ ''suggestion'') \<Longrightarrow>
    str_index (a @ [nl, nl] @ (fence3 @ ''suggestion'') @ t) (fence3 @ ''suggestion'') = Some (length a + 2)"
  using str_index_after_sep[of a "fence3 @ ''suggestion''" "[nl, nl]" t] by (simp add: fence3_def)

lemma github_reads_back:
  assumes "plain_suggestion s"
  shows "extractSuggestionBlock (githubSuggestionBody s) = sg_Suggestion s"
proof -
  let ?m = "fence3 @ ''suggestion''" and ?c = "sg_Suggestion s @ [nl] @ fence3"
  let ?b = "sg_Body s @ [nl, nl] @ ?m @ [nl] @ ?c"
  have b: "githubSuggestionBody s = ?b" by (simp add: githubSuggestionBody_def)
  have i: "str_index ?b ?m = Some (length (sg_Body s) + 2)"
    by (rule index_marker) (use assms in \<open>simp add: plain_suggestion_def\<close>)
  then have "str_index ?b (?m @ [nl]) = Some (length (sg_Body s) + 2)"
    by (rule str_index_prefix_extend) (simp add: has_prefix_iff)
  moreover have "drop (length (sg_Body s) + 2 + length (?m @ [nl])) ?b = ?c"
    by (simp add: drop_Cons')
  moreover have "str_index ?c endMarker = Some (length (sg_Suggestion s))"
    using assms index_endMarker by (simp add: plain_suggestion_def)
  ultimately show ?thesis by (simp add: extractSuggestionBlock_def Let_def b)
qed

lemma itoa_int_no_nl: "nl \<notin> set (itoa_int n)"
  using itoa_chars[of "nat n"] itoa_chars[of "nat (- n)"] by (auto simp: itoa_int_def)

lemma gitlab_reads_back:
  assumes "plain_suggestion s"
  shows "extractGitLabSuggestionBlock (gitlabSuggestionBody s) = sg_Suggestion s"
proof -
  define r where "r = '':-'' @ itoa_int (if sg_StartLine s > 0 \<and> sg_StartLine s < sg_EndLine s then sg_EndLine s - sg_StartLine s else 0) @ ''+0''"
  let ?m = "fence3 @ ''suggestion''" and ?c = "sg_Suggestion s @ [nl] @ fence3"
  let ?b = "sg_Body s @ [nl, nl] @ ?m @ r @ [nl] @ ?c"
  have b: "gitlabSuggestionBody s = ?b" by (simp add: gitlabSuggestionBody_def r_def)
  have i: "str_index ?b ?m = Some (length (sg_Body s) + 2)"
    by (rule index_marker) (use assms in \<open>simp add: plain_suggestion_def\<close>)
  have nr: "nl \<notin> set r" using itoa_int_no_nl by (auto simp: r_def)
  have d: "drop (length (sg_Body s) + 2) ?b = (?m @ r) @ [nl] @ ?c" by simp
  have n: "str_index ((?m @ r) @ [nl] @ ?c) [nl] = Some (length (?m @ r))"
    using nr str_index_skip[of "[nl]" "?m @ r" "[nl] @ ?c"] by (simp add: fence3_def)
  have c: "drop (length (sg_Body s) + 2 + length (?m @ r) + 1) ?b = ?c"
    by (simp add: drop_Cons')
  have "str_index ?c endMarker = Some (length (sg_Suggestion s))"
    using assms index_endMarker by (simp add: plain_suggestion_def)
  then show ?thesis using i d n c by (simp only: extractGitLabSuggestionBlock_def Let_def b option.simps) simp
qed

interpretation gh_format: suggestion_format githubSuggestionBody extractSuggestionBlock
  by unfold_locales (rule github_reads_back)

interpretation gl_format: suggestion_format gitlabSuggestionBody extractGitLabSuggestionBlock
  by unfold_locales (rule gitlab_reads_back)

lemma github_listing_records:
  "list_all (\<lambda>x. \<not> isl x) listing \<Longrightarrow> listExistingReviewComments u listing =
    Inr (gh_format.recorded (map (\<lambda>c. (rvc_Body c, rvc_Path c, rvc_Line c)) (filter (\<lambda>c. EqualFold (rvc_Login c) u) (map projr listing))))"
  by (induction u listing rule: listExistingReviewComments.induct) (auto simp: gh_format.recorded_def Let_def)

definition note_triple :: "discussion_note \<Rightarrow> string \<times> string \<times> int" where
  "note_triple d = (dn_Body d, case dn_Position d of None \<Rightarrow> [] | Some p \<Rightarrow> np_NewPath p,
     case dn_Position d of None \<Rightarrow> 0 | Some p \<Rightarrow> np_NewLine p)"

lemma existingOfNote_records:
  "concat (map (existingOfNote u) ds) = gl_format.recorded (map note_triple (filter (\<lambda>d. dn_Username d = u) ds))"
  by (induction ds) (auto simp: existingOfNote_def gl_format.recorded_def note_triple_def Let_def)

lemma gitlab_listing_records:
  "list_all (\<lambda>x. \<not> isl x) pages \<Longrightarrow> listExistingDiscussionSuggestions u pages =
    Inr (gl_format.recorded (map note_triple (filter (\<lambda>d. dn_Username d = u) (concat (concat (map projr pages))))))"
  by (induction u pages rule: listExistingDiscussionSuggestions.induct)
    (auto simp: existingOfNote_records gl_format.recorded_def)

section \<open>Properties\<close>

definition posted_comment :: "string \<Rightarrow> review_suggestion \<Rightarrow> review_comment" where
  "posted_comment u s = \<lparr>rvc_Login = u, rvc_Body = githubSuggestionBody s, rvc_Path = sg_Path s, rvc_Line = sg_EndLine s\<rparr>"

definition posted_note :: "string \<Rightarrow> review_suggestion \<Rightarrow> discussion_note" where
  "posted_note u s = \<lparr>dn_Username = u, dn_Body = gitlabSuggestionBody s,
     dn_Position = Some \<lparr>np_NewPath = sg_Path s, np_NewLine = sg_EndLine s\<rparr>\<rparr>"

lemma github_recognises:
  assumes "list_all (\<lambda>x. \<not> isl x) listing" "plain_suggestion s" "Inr (posted_comment u s) \<in> set listing"
  shows "\<exists>ex. listExistingReviewComments u listing = Inr ex \<and> isDuplicateSuggestion ex (sg_Path s) (sg_EndLine s) (sg_Suggestion s)"
proof -
  have "posted_comment u s \<in> set (filter (\<lambda>c. EqualFold (rvc_Login c) u) (map projr listing))"
    using assms(3) by (force simp: posted_comment_def)
  then have "(githubSuggestionBody s, sg_Path s, sg_EndLine s) \<in>
      set (map (\<lambda>c. (rvc_Body c, rvc_Path c, rvc_Line c)) (filter (\<lambda>c. EqualFold (rvc_Login c) u) (map projr listing)))"
    unfolding set_map by (rule rev_image_eqI) (simp add: posted_comment_def)
  from gh_format.recorded_again[OF assms(2) this] show ?thesis
    by (simp add: github_listing_records[OF assms(1)] isDuplicateSuggestion_def)
qed

lemma gitlab_recognises:
  assumes "list_all (\<lambda>x. \<not> isl x) pages" "plain_suggestion s"
    "posted_note u s \<in> set (concat (concat (map projr pages)))"
  shows "\<exists>ex. listExistingDiscussionSuggestions u pages = Inr ex \<and> isDuplicateGitLabSuggestion ex (sg_Path s) (sg_EndLine s) (sg_Suggestion s)"
proof -
  have "posted_note u s \<in> set (filter (\<lambda>d. dn_Username d = u) (concat (concat (map projr pages))))"
    using assms(3) by (simp add: posted_note_def)
  then have "(gitlabSuggestionBody s, sg_Path s, sg_EndLine s) \<in>
      set (map note_triple (filter (\<lambda>d. dn_Username d = u) (concat (concat (map projr pages)))))"
    unfolding set_map by (rule rev_image_eqI) (simp add: posted_note_def note_triple_def)
  from gl_format.recorded_again[OF assms(2) this] show ?thesis
    by (simp add: gitlab_listing_records[OF assms(1)] isDuplicateGitLabSuggestion_def)
qed


definition demo_fix :: review_suggestion where
  "demo_fix = \<lparr>sg_Path = ''a.yaml'', sg_StartLine = 2, sg_EndLine = 4, sg_Body = ''pin it'', sg_Suggestion = ''tag: v1''\<rparr>"

definition demo_refs :: diff_refs where
  "demo_refs = \<lparr>df_BaseSha = ''b'', df_HeadSha = ''h'', df_StartSha = ''s''\<rparr>"


text \<open>A suggestion that deletes its lines has an empty replacement: neither client reads it back, so
  every later run posts it again.\<close>

lemma extract_deletion:
  assumes "sg_Suggestion s = []" "\<not> str_contains (sg_Body s) (fence3 @ ''suggestion'')"
  shows "extractSuggestionBlock (githubSuggestionBody s) = []"
proof -
  let ?m = "fence3 @ ''suggestion''" and ?c = "[nl] @ fence3"
  let ?b = "sg_Body s @ [nl, nl] @ ?m @ [nl] @ ?c"
  have b: "githubSuggestionBody s = ?b" using assms(1) by (simp add: githubSuggestionBody_def)
  have "str_index ?b ?m = Some (length (sg_Body s) + 2)"
    by (rule index_marker) (use assms in \<open>simp\<close>)
  then have "str_index ?b (?m @ [nl]) = Some (length (sg_Body s) + 2)"
    by (rule str_index_prefix_extend) (simp add: has_prefix_iff)
  moreover have "drop (length (sg_Body s) + 2 + length (?m @ [nl])) ?b = ?c" by (simp add: drop_Cons')
  moreover have "str_index ?c endMarker = Some 0" by code_simp
  ultimately show ?thesis by (simp add: extractSuggestionBlock_def Let_def b)
qed

lemma deletion_is_posted_again:
  assumes "sg_Suggestion s = []" "\<not> str_contains (sg_Body s) (fence3 @ ''suggestion'')"
  shows "map_option rr_Comments (githubPostReviewSuggestions u [Inr (posted_comment u s)] pr summary [s]) = Some [draftComment s]"
  using extract_deletion[OF assms]
  by (simp add: githubPostReviewSuggestions_def posted_comment_def isDuplicateSuggestion_def)

end
