(* ===== verification/GithubRetry.thy ===== *)
theory GithubRetry
  imports Archive
begin

text \<open>
  \<open>pkg/vcs/github_client/retry.go\<close> and \<open>archive.go\<close>: the two loops that wait for GitHub.  One
  repeats a call that failed, the other waits until GitHub has computed the merge commit of the
  current head, whose archive is then downloaded.  Durations are numbers of nanoseconds; what the
  n-th call answers, and whether the context ends at it, are arguments.
\<close>

section \<open>Retries\<close>

definition millisecond :: int where "millisecond = 1000000"

definition second :: int where "second = 1000 * millisecond"

definition minute :: int where "minute = 60 * second"

record retryConfig =
  rt_maxRetries :: int
  rt_initialBackoff :: int
  rt_maxBackoff :: int

definition withDefaults :: "retryConfig \<Rightarrow> int \<Rightarrow> int \<Rightarrow> int \<Rightarrow> retryConfig" where
  "withDefaults r maxRetries initialBackoff maxBackoff =
    (let r = (if rt_maxRetries r = 0 then r\<lparr>rt_maxRetries := maxRetries\<rparr> else r);
         r = (if rt_initialBackoff r = 0 then r\<lparr>rt_initialBackoff := initialBackoff\<rparr> else r);
         r = (if rt_maxBackoff r = 0 then r\<lparr>rt_maxBackoff := maxBackoff\<rparr> else r);
         r = (if rt_maxRetries r < 0 then r\<lparr>rt_maxRetries := 0\<rparr> else r);
         r = (if rt_initialBackoff r \<le> 0 then r\<lparr>rt_initialBackoff := initialBackoff\<rparr> else r);
         r = (if rt_maxBackoff r \<le> 0 then r\<lparr>rt_maxBackoff := maxBackoff\<rparr> else r)
     in if rt_maxBackoff r < rt_initialBackoff r then r\<lparr>rt_maxBackoff := rt_initialBackoff r\<rparr> else r)"

definition maxRateLimitWait :: int where
  "maxRateLimitWait = 2 * minute"

text \<open>A failed call: the wait an abuse limit or a rate limit asks for, and the status of the response,
  if there is one.\<close>

record api_failure =
  af_Abuse :: "int option"
  af_RateLimit :: "int option"
  af_StatusCode :: "nat option"

definition rateLimitWait :: "api_failure \<Rightarrow> int option" where
  "rateLimitWait err =
    (case af_Abuse err of Some w \<Rightarrow> Some w
     | None \<Rightarrow> (case af_RateLimit err of Some w \<Rightarrow> Some w | None \<Rightarrow> None))"

definition retryable :: "api_failure \<Rightarrow> bool \<Rightarrow> bool" where
  "retryable err idempotent =
    (if rateLimitWait err \<noteq> None then True
     else case af_StatusCode err of
       None \<Rightarrow> idempotent
     | Some sc \<Rightarrow> if sc = 429 then True else idempotent \<and> sc \<ge> 500)"

datatype do_result = CallOk | CallFailed api_failure | CallCancelled api_failure

text \<open>The calls of one run of the loop: what the n-th call answers, and whether the context has ended
  right after it or ends while the loop waits.\<close>

record call_trace =
  ct_call :: "nat \<Rightarrow> api_failure option"
  ct_ended :: "nat \<Rightarrow> bool"
  ct_endsWaiting :: "nat \<Rightarrow> bool"

text \<open>How long to wait before the next call, or \<open>None\<close> to give up.\<close>

definition nextWait :: "api_failure \<Rightarrow> int \<Rightarrow> int option" where
  "nextWait err backoff =
    (case rateLimitWait err of
       Some asked \<Rightarrow> if asked > maxRateLimitWait then None else Some (max backoff asked)
     | None \<Rightarrow> Some backoff)"

text \<open>The last argument are the retries that remain.  The result is what the loop returns, the number
  of calls made and the waits between them.\<close>

fun retryLoop ::
  "retryConfig \<Rightarrow> bool \<Rightarrow> call_trace \<Rightarrow> nat \<Rightarrow> int \<Rightarrow> nat \<Rightarrow> do_result \<times> nat \<times> int list" where
  "retryLoop r idempotent t attempt backoff 0 =
    (case ct_call t attempt of
       None \<Rightarrow> (CallOk, Suc attempt, [])
     | Some err \<Rightarrow> (if ct_ended t attempt then CallCancelled err else CallFailed err, Suc attempt, []))"
| "retryLoop r idempotent t attempt backoff (Suc n) =
    (case ct_call t attempt of
       None \<Rightarrow> (CallOk, Suc attempt, [])
     | Some err \<Rightarrow>
         if ct_ended t attempt then (CallCancelled err, Suc attempt, [])
         else if \<not> retryable err idempotent then (CallFailed err, Suc attempt, [])
         else (case nextWait err backoff of
                 None \<Rightarrow> (CallFailed err, Suc attempt, [])
               | Some wait \<Rightarrow>
                   if ct_endsWaiting t attempt then (CallCancelled err, Suc attempt, [wait])
                   else (case retryLoop r idempotent t (Suc attempt) (min (backoff * 2) (rt_maxBackoff r)) n of
                           (res, calls, waits) \<Rightarrow> (res, calls, wait # waits))))"

definition retryDo :: "retryConfig \<Rightarrow> bool \<Rightarrow> call_trace \<Rightarrow> do_result \<times> nat \<times> int list" where
  "retryDo r idempotent t = retryLoop r idempotent t 0 (rt_initialBackoff r) (nat (rt_maxRetries r))"

section \<open>The merge commit\<close>

record gh_pull =
  gh_HeadSHA :: "string option"
  gh_MergeCommitSHA :: "string option"
  gh_Mergeable :: "bool option"

record github_urls =
  gu_VcsBaseUrl :: string
  gu_VcsUploadUrl :: string

definition headSHAMatches :: "gh_pull \<Rightarrow> pull_request \<Rightarrow> bool" where
  "headSHAMatches g pr = (gh_HeadSHA g = Some (pr_SHA pr))"

definition mergeCommitAvailable :: "gh_pull \<Rightarrow> bool" where
  "mergeCommitAvailable g = (case gh_MergeCommitSHA g of None \<Rightarrow> False | Some sha \<Rightarrow> sha \<noteq> [])"

definition mergeReady :: "gh_pull \<Rightarrow> pull_request \<Rightarrow> bool" where
  "mergeReady g pr = (headSHAMatches g pr \<and> mergeCommitAvailable g \<and> gh_Mergeable g \<noteq> None)"

definition notReadyReason :: "gh_pull \<Rightarrow> pull_request \<Rightarrow> string" where
  "notReadyReason g pr =
    (if \<not> headSHAMatches g pr then
       ''HEAD SHA mismatch (expected: '' @ pr_SHA pr @ '', got: '' @ (case gh_HeadSHA g of None \<Rightarrow> ''nil'' | Some s \<Rightarrow> s) @ '')''
     else if gh_Mergeable g = None then ''GitHub still computing merge status (mergeable is nil)''
     else if \<not> mergeCommitAvailable g then ''merge commit SHA not available''
     else [])"

text \<open>\<open>get n\<close> is the n-th answer for the pull request, \<open>cancelled n\<close> whether the context ends in the
  wait after it.\<close>

datatype merge_error = GetFailed string | NotMergeable | NotReady string | WaitCancelled

fun mergeLoop ::
  "(nat \<Rightarrow> string + gh_pull) \<Rightarrow> (nat \<Rightarrow> bool) \<Rightarrow> pull_request \<Rightarrow> retryConfig \<Rightarrow> nat \<Rightarrow> int \<Rightarrow> nat \<Rightarrow>
   (merge_error + gh_pull) \<times> nat \<times> int list" where
  "mergeLoop get cancelled pr rc attempt backoff 0 =
    (case get attempt of
       Inl err \<Rightarrow> (Inl (GetFailed err), Suc attempt, [])
     | Inr g \<Rightarrow>
         (if mergeReady g pr then Inr g
          else if headSHAMatches g pr \<and> gh_Mergeable g = Some False then Inl NotMergeable
          else Inl (NotReady (notReadyReason g pr)), Suc attempt, []))"
| "mergeLoop get cancelled pr rc attempt backoff (Suc n) =
    (case get attempt of
       Inl err \<Rightarrow> (Inl (GetFailed err), Suc attempt, [])
     | Inr g \<Rightarrow>
         if mergeReady g pr then (Inr g, Suc attempt, [])
         else if headSHAMatches g pr \<and> gh_Mergeable g = Some False then (Inl NotMergeable, Suc attempt, [])
         else if cancelled attempt then (Inl WaitCancelled, Suc attempt, [backoff])
         else (case mergeLoop get cancelled pr rc (Suc attempt) (min (backoff * 2) (rt_maxBackoff rc)) n of
                 (res, calls, waits) \<Rightarrow> (res, calls, backoff # waits)))"

definition githubArchiveURL :: "github_urls \<Rightarrow> pull_request \<Rightarrow> string \<Rightarrow> string" where
  "githubArchiveURL cfg pr mergeCommitSHA =
    (if gu_VcsUploadUrl cfg \<noteq> [] \<and> gu_VcsBaseUrl cfg \<noteq> []
     then trim_suffix (gu_VcsBaseUrl cfg) ''/'' @ ''/repos/'' @ pr_Owner pr @ ''/'' @ pr_Name pr @ ''/zipball/'' @ mergeCommitSHA
     else ''https://api.github.com/repos/'' @ pr_Owner pr @ ''/'' @ pr_Name pr @ ''/zipball/'' @ mergeCommitSHA)"

definition githubDownloadArchive ::
  "github_urls \<Rightarrow> retryConfig \<Rightarrow> (nat \<Rightarrow> string + gh_pull) \<Rightarrow> (nat \<Rightarrow> bool) \<Rightarrow> pull_request \<Rightarrow>
   (merge_error + string) \<times> nat \<times> int list" where
  "githubDownloadArchive cfg archiveRetry get cancelled pr =
    (let rc = withDefaults archiveRetry 10 (1 * second) (16 * second) in
     case mergeLoop get cancelled pr rc 0 (rt_initialBackoff rc) (nat (rt_maxRetries rc)) of
       (Inl err, calls, waits) \<Rightarrow> (Inl err, calls, waits)
     | (Inr g, calls, waits) \<Rightarrow> (Inr (githubArchiveURL cfg pr (the (gh_MergeCommitSHA g))), calls, waits))"

section \<open>Lemmas\<close>

lemma withDefaults_ok:
  assumes "0 \<le> n" "0 < i" "0 < m"
  shows "0 \<le> rt_maxRetries (withDefaults r n i m) \<and> 0 < rt_initialBackoff (withDefaults r n i m) \<and>
    rt_initialBackoff (withDefaults r n i m) \<le> rt_maxBackoff (withDefaults r n i m)"
  using assms by (auto simp: withDefaults_def Let_def)

text \<open>What the retry loop does, by its calls: all but the last failed in a way that may be repeated.\<close>

lemma retryLoop_spec:
  assumes "retryLoop r idem t attempt backoff n = (res, calls, waits)" "0 \<le> backoff" "backoff \<le> rt_maxBackoff r"
  shows "attempt < calls \<and> calls \<le> attempt + Suc n \<and>
    (\<forall>k. attempt \<le> k \<longrightarrow> Suc k < calls \<longrightarrow> (\<exists>err. ct_call t k = Some err \<and> retryable err idem)) \<and>
    (res = CallOk \<longleftrightarrow> ct_call t (calls - 1) = None) \<and>
    (\<forall>w\<in>set waits. 0 \<le> w \<and> w \<le> max (rt_maxBackoff r) maxRateLimitWait)"
  using assms
proof (induction n arbitrary: attempt backoff res calls waits)
  case 0
  then show ?case by (auto split: option.splits if_splits)
next
  case (Suc n)
  show ?case
  proof (cases "ct_call t attempt")
    case None
    then show ?thesis using Suc.prems by auto
  next
    case (Some err)
    show ?thesis
    proof (cases "ct_ended t attempt \<or> \<not> retryable err idem \<or> nextWait err backoff = None")
      case True
      then show ?thesis using Suc.prems Some by (auto split: if_splits)
    next
      case False
      then obtain w where w: "nextWait err backoff = Some w" by auto
      have wb: "0 \<le> w \<and> w \<le> max (rt_maxBackoff r) maxRateLimitWait"
        using w Suc.prems(2,3) by (auto simp: nextWait_def split: option.splits if_splits)
      show ?thesis
      proof (cases "ct_endsWaiting t attempt")
        case True
        then show ?thesis using Suc.prems Some False w wb by auto
      next
        case again: False
        obtain res' calls' waits' where l: "retryLoop r idem t (Suc attempt) (min (backoff * 2) (rt_maxBackoff r)) n = (res', calls', waits')"
          by (metis prod.exhaust)
        have r: "res = res'" "calls = calls'" "waits = w # waits'"
          using Suc.prems Some False w again l by auto
        have "0 \<le> min (backoff * 2) (rt_maxBackoff r)" "min (backoff * 2) (rt_maxBackoff r) \<le> rt_maxBackoff r"
          using Suc.prems(2,3) by auto
        note ih = Suc.IH[OF l this]
        have "\<exists>err. ct_call t k = Some err \<and> retryable err idem" if "attempt \<le> k" "Suc k < calls'" for k
          using that ih False Some by (cases "k = attempt") auto
        then show ?thesis using ih wb unfolding r by auto
      qed
    qed
  qed
qed

lemma mergeLoop_spec:
  assumes "mergeLoop get cancelled pr rc attempt backoff n = (res, calls, waits)"
  shows "attempt < calls \<and> calls \<le> attempt + Suc n \<and> (\<forall>g. res = Inr g \<longrightarrow> get (calls - 1) = Inr g \<and> mergeReady g pr) \<and>
    (backoff \<le> rt_maxBackoff rc \<longrightarrow> (\<forall>w\<in>set waits. w \<le> rt_maxBackoff rc))"
  using assms
proof (induction n arbitrary: attempt backoff res calls waits)
  case 0
  then show ?case by (auto split: sum.splits if_splits)
next
  case (Suc n)
  obtain res' calls' waits' where l: "mergeLoop get cancelled pr rc (Suc attempt) (min (backoff * 2) (rt_maxBackoff rc)) n = (res', calls', waits')"
    by (metis prod.exhaust)
  from Suc.IH[OF l] Suc.prems l show ?case by (auto split: sum.splits if_splits)
qed

lemma retryDo_spec:
  assumes "retryDo (withDefaults r0 n i m) idem t = (res, calls, waits)" "0 \<le> n" "0 < i" "0 < m"
  shows "1 \<le> calls \<and> int calls \<le> rt_maxRetries (withDefaults r0 n i m) + 1 \<and>
    (\<forall>k. Suc k < calls \<longrightarrow> (\<exists>err. ct_call t k = Some err \<and> retryable err idem)) \<and>
    (res = CallOk \<longleftrightarrow> ct_call t (calls - 1) = None) \<and>
    (\<forall>w\<in>set waits. 0 \<le> w \<and> w \<le> max (rt_maxBackoff (withDefaults r0 n i m)) maxRateLimitWait)"
proof -
  let ?r = "withDefaults r0 n i m"
  note d = withDefaults_ok[OF assms(2-4), of r0]
  then have b: "0 \<le> rt_initialBackoff ?r" "rt_initialBackoff ?r \<le> rt_maxBackoff ?r" by auto
  show ?thesis
    using retryLoop_spec[OF assms(1)[unfolded retryDo_def] b] d by auto
qed

section \<open>Properties\<close>

text \<open>C29 A call that is not idempotent, such as the creation of a comment, is repeated only after an
  answer that says it was rate limited: never after an error of the server or a lost response,
  when it may have been carried out.  Any call is made at most once more than the configured
  number of retries, and no wait is longer than the larger of the backoff cap and two minutes.\<close>

theorem no_repetition_after_ambiguous_failure:
  assumes "retryDo (withDefaults r0 3 (2 * second) (30 * second)) False t = (res, calls, waits)"
  shows "(\<forall>k. Suc k < calls \<longrightarrow> (\<exists>err. ct_call t k = Some err \<and> (rateLimitWait err \<noteq> None \<or> af_StatusCode err = Some 429))) \<and>
    int calls \<le> rt_maxRetries (withDefaults r0 3 (2 * second) (30 * second)) + 1 \<and>
    list_all (\<lambda>w. 0 \<le> w \<and> w \<le> max (rt_maxBackoff (withDefaults r0 3 (2 * second) (30 * second))) (2 * minute)) waits"
proof -
  have p: "0 \<le> (3::int)" "0 < 2 * second" "0 < 30 * second" by (simp_all add: second_def millisecond_def)
  have "retryable err False \<Longrightarrow> rateLimitWait err \<noteq> None \<or> af_StatusCode err = Some 429" for err
    by (auto simp: retryable_def split: if_splits option.splits)
  then show ?thesis
    using retryDo_spec[OF assms p] by (auto simp: list_all_iff maxRateLimitWait_def)
qed

definition limited_once :: call_trace where
  "limited_once = \<lparr>ct_call = (\<lambda>n. if n = 0 then Some \<lparr>af_Abuse = None, af_RateLimit = None, af_StatusCode = Some 429\<rparr> else None),
     ct_ended = (\<lambda>_. False), ct_endsWaiting = (\<lambda>_. False)\<rparr>"

definition no_config :: retryConfig where
  "no_config = \<lparr>rt_maxRetries = 0, rt_initialBackoff = 0, rt_maxBackoff = 0\<rparr>"

theorem no_repetition_after_ambiguous_failure_witness:
  "retryDo (withDefaults no_config 3 (2 * second) (30 * second)) False limited_once = (CallOk, 2, [2 * second]) \<and>
   list_all (\<lambda>w. 0 \<le> w \<and> w \<le> 2 * minute) [2 * second]"
proof -
  have r: "retryDo (withDefaults no_config 3 (2 * second) (30 * second)) False limited_once = (CallOk, 2, [2 * second])"
    by code_simp
  have "max (rt_maxBackoff (withDefaults no_config 3 (2 * second) (30 * second))) (2 * minute) = 2 * minute"
    by code_simp
  then show ?thesis using r no_repetition_after_ambiguous_failure[OF r] by simp
qed

text \<open>C30 When GitHub's answers yield an archive, it is the merge of the very commit the check is for:
  the last answer named that head, had computed the merge, and the archive cache will key the
  URL by its merge commit.  GitHub is asked at most eleven times.\<close>

theorem archive_is_the_checked_merge:
  assumes "githubDownloadArchive cfg no_config get cancelled pr = (Inr url, calls, waits)"
    and "\<not> str_contains (trim_suffix (gu_VcsBaseUrl cfg) ''/'' @ ''/repos/'' @ pr_Owner pr @ ''/'' @ pr_Name pr) ''/zipball''"
    and "\<not> str_contains (''https://api.github.com/repos/'' @ pr_Owner pr @ ''/'' @ pr_Name pr) ''/zipball''"
    and "\<And>n g sha. get n = Inr g \<Longrightarrow> gh_MergeCommitSHA g = Some sha \<Longrightarrow> slash \<notin> set sha \<and> CHR ''?'' \<notin> set sha"
  shows "\<exists>g sha. get (calls - 1) = Inr g \<and> gh_HeadSHA g = Some (pr_SHA pr) \<and> gh_Mergeable g \<noteq> None \<and>
    gh_MergeCommitSHA g = Some sha \<and> extractSHAFromArchiveURL url = Inr sha \<and> calls \<le> 11"
proof -
  let ?rc = "withDefaults no_config 10 (1 * second) (16 * second)"
  have n: "nat (rt_maxRetries ?rc) = 10" by code_simp
  obtain g where g: "mergeLoop get cancelled pr ?rc 0 (rt_initialBackoff ?rc) (nat (rt_maxRetries ?rc)) = (Inr g, calls, waits)"
    "url = githubArchiveURL cfg pr (the (gh_MergeCommitSHA g))"
    using assms(1) by (auto simp: githubDownloadArchive_def Let_def split: prod.splits sum.splits)
  note l = mergeLoop_spec[OF g(1)]
  then have m: "get (calls - 1) = Inr g" "mergeReady g pr" and c: "calls \<le> 11" using n by auto
  then obtain sha where sha: "gh_MergeCommitSHA g = Some sha" "sha \<noteq> []"
    by (auto simp: mergeReady_def mergeCommitAvailable_def split: option.splits)
  note ok = assms(4)[OF m(1) sha(1)]
  have "extractSHAFromArchiveURL url = Inr sha"
  proof (cases "gu_VcsUploadUrl cfg \<noteq> [] \<and> gu_VcsBaseUrl cfg \<noteq> []")
    case True
    then show ?thesis
      using sha_of_zipball[OF assms(2) sha(2)] ok by (simp add: g(2) githubArchiveURL_def sha(1))
  next
    case False
    then have "url = (''https://api.github.com/repos/'' @ pr_Owner pr @ ''/'' @ pr_Name pr) @ ''/zipball/'' @ sha"
      by (auto simp: g(2) githubArchiveURL_def sha(1))
    then show ?thesis using sha_of_zipball[OF assms(3) sha(2)] ok by simp
  qed
  then show ?thesis using m c sha(1) by (auto simp: mergeReady_def headSHAMatches_def)
qed

definition slow_merge :: "nat \<Rightarrow> string + gh_pull" where
  "slow_merge n = Inr \<lparr>gh_HeadSHA = Some ''cafe'', gh_MergeCommitSHA = Some (if n = 0 then ''old1'' else ''ab12''),
     gh_Mergeable = (if n = 0 then None else Some True)\<rparr>"

definition cloud_urls :: github_urls where
  "cloud_urls = \<lparr>gu_VcsBaseUrl = ''https://github.com'', gu_VcsUploadUrl = []\<rparr>"

definition merge_pr :: pull_request where
  "merge_pr = pr_zero\<lparr>pr_Owner := ''o'', pr_Name := ''r'', pr_SHA := ''cafe''\<rparr>"

theorem archive_is_the_checked_merge_witness:
  "\<exists>url. githubDownloadArchive cloud_urls no_config slow_merge (\<lambda>_. False) merge_pr = (Inr url, 2, [1 * second]) \<and>
    extractSHAFromArchiveURL url = Inr ''ab12''"
proof -
  have r: "githubDownloadArchive cloud_urls no_config slow_merge (\<lambda>_. False) merge_pr =
      (Inr ''https://api.github.com/repos/o/r/zipball/ab12'', 2, [1 * second])" by code_simp
  have a: "\<not> str_contains (trim_suffix (gu_VcsBaseUrl cloud_urls) ''/'' @ ''/repos/'' @ pr_Owner merge_pr @ ''/'' @ pr_Name merge_pr) ''/zipball''"
    "\<not> str_contains (''https://api.github.com/repos/'' @ pr_Owner merge_pr @ ''/'' @ pr_Name merge_pr) ''/zipball''"
    by code_simp+
  have b: "\<And>n g sha. slow_merge n = Inr g \<Longrightarrow> gh_MergeCommitSHA g = Some sha \<Longrightarrow> slash \<notin> set sha \<and> CHR ''?'' \<notin> set sha"
    by (auto simp: slow_merge_def split: if_splits)
  have "\<exists>g sha. slow_merge (2 - 1) = Inr g \<and> gh_HeadSHA g = Some (pr_SHA merge_pr) \<and> gh_Mergeable g \<noteq> None \<and>
      gh_MergeCommitSHA g = Some sha \<and> extractSHAFromArchiveURL ''https://api.github.com/repos/o/r/zipball/ab12'' = Inr sha \<and> 2 \<le> (11::nat)"
    by (rule archive_is_the_checked_merge[OF r a]) (rule b)
  then show ?thesis using r by (auto simp: slow_merge_def)
qed

text \<open>The comment above the second test says that a pull request with conflicts stops the wait; but
  readiness is tested first, so one that still carries a merge commit is downloaded.\<close>

lemma conflicted_merge_is_downloaded:
  "gh_HeadSHA g = Some (pr_SHA pr) \<Longrightarrow> gh_MergeCommitSHA g = Some (c # sha) \<Longrightarrow> gh_Mergeable g = Some False \<Longrightarrow>
    mergeLoop (\<lambda>_. Inr g) cancelled pr rc attempt backoff n = (Inr g, Suc attempt, [])"
  by (cases n) (simp_all add: mergeReady_def headSHAMatches_def mergeCommitAvailable_def)

end
