(* ===== verification/VcsCommon.thy ===== *)
theory VcsCommon
  imports Archive RepoUrl
begin

text \<open>
  What the two clients share: \<open>pkg/vcs/client.go\<close> and \<open>types.go\<close>, and the library calls both use
  (the listing of an iterator or of pages, the numbers in a regular expression).
\<close>

section \<open>Errors and webhooks\<close>

definition DefaultVcsUsername :: string where "DefaultVcsUsername = ''kubechecks''"

definition DefaultVcsEmail :: string where "DefaultVcsEmail = ''kubechecks@zapier.com''"

datatype hook_error = ErrInvalidType | HookFailed string

record webhook_config =
  wh_Url :: string
  wh_Events :: "string list"

datatype find_hook = HookFound webhook_config | ErrHookNotFound | ListHooksFailed string

section \<open>Listings\<close>

text \<open>Everything a listing yields, or the first error with what failed.\<close>

fun collectListing :: "string \<Rightarrow> (string + 'a) list \<Rightarrow> string + 'a list" where
  "collectListing what [] = Inr []"
| "collectListing what (Inl err # rest) = Inl (what @ err)"
| "collectListing what (Inr x # rest) = (case collectListing what rest of Inl err \<Rightarrow> Inl err | Inr xs \<Rightarrow> Inr (x # xs))"

section \<open>Numbers in names\<close>

definition is_digit :: "char \<Rightarrow> bool" where
  "is_digit c = (c \<in> set ''0123456789'')"

definition last_index :: "(nat \<Rightarrow> bool) \<Rightarrow> nat \<Rightarrow> nat option" where
  "last_index P n = find P (rev [0..<n])"

definition last_mark :: "char \<Rightarrow> string \<Rightarrow> nat option" where
  "last_mark c s = last_index (\<lambda>i. s ! i = c \<and> is_digit (s ! Suc i)) (length s - 1)"

text \<open>\<open>strconv.ParseInt\<close> on digits, for 32 bits.\<close>

definition parseInt32 :: "string \<Rightarrow> int option" where
  "parseInt32 s = (if atoi s < 2 ^ 31 then Some (int (atoi s)) else None)"

section \<open>Reports\<close>

definition reportTitle :: "string \<Rightarrow> string" where
  "reportTitle identifier = ''Kubechecks '' @ identifier @ '' Report''"

end
