(* ===== verification/GithubClient.thy ===== *)
theory GithubClient
  imports GithubRetry VcsCommon
begin

text \<open>
  \<open>pkg/vcs/github_client\<close>: \<open>client.go\<close>, \<open>hooks.go\<close>, \<open>message.go\<close>, \<open>status.go\<close> and \<open>emoji.go\<close>.  A field
  that go-github holds behind a pointer is an option; its accessors read a missing one as the
  empty value.  What GitHub answers is an argument, a listing is the list of what the iterator
  yields (an error ends it), and a panic is \<open>None\<close>.
\<close>

section \<open>Configuration and credentials\<close>

record github_config =
  gc_AllowForkPullRequests :: bool
  gc_ReplanCommentMessage :: string
  gc_Identifier :: string
  gc_TidyOutdatedCommentsMode :: string
  gc_VcsToken :: string
  gc_VcsUsername :: string
  gc_VcsEmail :: string
  gc_GithubAppID :: int
  gc_GithubInstallationID :: int
  gc_GithubPrivateKey :: string

definition IsGithubApp :: "github_config \<Rightarrow> bool" where
  "IsGithubApp cfg = (gc_GithubAppID cfg \<noteq> 0 \<and> gc_GithubInstallationID cfg \<noteq> 0 \<and> gc_GithubPrivateKey cfg \<noteq> [])"

datatype transport = AppTransport | TokenTransport string

text \<open>\<open>app\<close> is the error of building the transport of a GitHub App.\<close>

definition createHttpClient :: "github_config \<Rightarrow> string option \<Rightarrow> string + transport" where
  "createHttpClient cfg app =
    (if IsGithubApp cfg then
       (case app of Some err \<Rightarrow> Inl (''failed to create github app transport: '' @ err) | None \<Rightarrow> Inr AppTransport)
     else if gc_VcsToken cfg \<noteq> [] then Inr (TokenTransport (gc_VcsToken cfg))
     else Inl ''Either GitHub token or GitHub App credentials (App ID, Installation ID, Private Key) must be set'')"

definition unPtr :: "string option \<Rightarrow> string" where
  "unPtr ps = (case ps of None \<Rightarrow> [] | Some s \<Rightarrow> s)"

text \<open>The slug of the App, or an error.\<close>

definition appBotLogin :: "string + string \<Rightarrow> string + string" where
  "appBotLogin slug =
    (case slug of
       Inl err \<Rightarrow> Inl (''failed to get github app: '' @ err)
     | Inr s \<Rightarrow> if s = [] then Inl ''github app has no slug'' else Inr (s @ ''[bot]''))"

record gh_user =
  us_Login :: "string option"
  us_Name :: "string option"
  us_Email :: "string option"

text \<open>The name and address the client acts under: configured, asked for, or the defaults.\<close>

definition clientIdentity :: "github_config \<Rightarrow> string + string \<Rightarrow> string + gh_user \<Rightarrow> string \<times> string" where
  "clientIdentity cfg slug current =
    (let (username, email) =
       (if IsGithubApp cfg then
          (if gc_VcsUsername cfg = [] then
             (case appBotLogin slug of Inl _ \<Rightarrow> gc_VcsUsername cfg | Inr login \<Rightarrow> login)
           else gc_VcsUsername cfg, gc_VcsEmail cfg)
        else if gc_VcsUsername cfg = [] \<or> gc_VcsEmail cfg = [] then
          (case current of
             Inl _ \<Rightarrow> (gc_VcsUsername cfg, gc_VcsEmail cfg)
           | Inr user \<Rightarrow> (case us_Login user of None \<Rightarrow> gc_VcsUsername cfg | Some l \<Rightarrow> l,
                          case us_Email user of None \<Rightarrow> gc_VcsEmail cfg | Some e \<Rightarrow> e))
        else (gc_VcsUsername cfg, gc_VcsEmail cfg))
     in (if username = [] then DefaultVcsUsername else username,
         if email = [] then DefaultVcsEmail else email))"

record github_client =
  gcl_cfg :: github_config
  gcl_username :: string
  gcl_email :: string
  gcl_appToken :: "(string + string) option"

definition githubCloneUsername :: "github_client \<Rightarrow> string" where
  "githubCloneUsername c = (if IsGithubApp (gcl_cfg c) then ''x-access-token'' else gcl_username c)"

definition gitToken :: "github_client \<Rightarrow> string + string" where
  "gitToken c =
    (case gcl_appToken c of
       Some (Inl err) \<Rightarrow> Inl (''failed to fetch GitHub App installation token: '' @ err)
     | Some (Inr t) \<Rightarrow> Inr t
     | None \<Rightarrow> Inr (gc_VcsToken (gcl_cfg c)))"

definition githubAuthHeaders :: "github_client \<Rightarrow> string + string strmap" where
  "githubAuthHeaders c =
    (case gitToken c of
       Inl err \<Rightarrow> Inl err
     | Inr token \<Rightarrow>
         if token = [] then Inl ''no GitHub credentials configured for archive download''
         else Inr [''Authorization'' \<mapsto> ''Bearer '' @ token])"

definition githubGitCredentials :: "github_client \<Rightarrow> string + (string \<times> string)" where
  "githubGitCredentials c =
    (case gitToken c of Inl err \<Rightarrow> Inl err | Inr token \<Rightarrow> Inr (githubCloneUsername c, token))"

section \<open>Webhooks\<close>

record gh_repo =
  rp_Name :: "string option"
  rp_FullName :: "string option"
  rp_DefaultBranch :: "string option"
  rp_CloneURL :: "string option"
  rp_Owner :: "gh_user option"

record gh_branch =
  br_Ref :: "string option"
  br_SHA :: "string option"
  br_Repo :: "gh_repo option"

record gh_pr =
  gp_Number :: "int option"
  gp_Title :: "string option"
  gp_Body :: "string option"
  gp_Labels :: "string option list"
  gp_Head :: "gh_branch option"
  gp_Base :: "gh_branch option"
  gp_User :: "gh_user option"
  gp_ChangedFiles :: "int option"

definition unPtrInt :: "int option \<Rightarrow> int" where
  "unPtrInt ps = (case ps of None \<Rightarrow> 0 | Some n \<Rightarrow> n)"

text \<open>A chain of accessors \<open>GetA().GetB()\<close> over a pointer that may be missing.\<close>

definition getStr :: "'a option \<Rightarrow> ('a \<Rightarrow> string option) \<Rightarrow> string" where
  "getStr x f = unPtr (Option.bind x f)"

definition isFork :: "gh_pr option \<Rightarrow> bool" where
  "isFork pr = (\<not> EqualFold
     (getStr (Option.bind (Option.bind pr gp_Head) br_Repo) rp_FullName)
     (getStr (Option.bind (Option.bind pr gp_Base) br_Repo) rp_FullName))"

definition headRevision :: "gh_pr \<Rightarrow> string" where
  "headRevision pr = (if isFork (Some pr) then getStr (gp_Head pr) br_SHA else getStr (gp_Head pr) br_Ref)"

definition rejectFork :: "github_client \<Rightarrow> gh_pr option \<Rightarrow> bool" where
  "rejectFork c pr = (if gc_AllowForkPullRequests (gcl_cfg c) \<or> \<not> isFork pr then False else True)"

definition buildRepo :: "github_client \<Rightarrow> gh_pr \<Rightarrow> pull_request" where
  "buildRepo c pr =
    (let repo = Option.bind (gp_Base pr) br_Repo in
     \<lparr>pr_BaseRef = getStr (gp_Base pr) br_Ref, pr_HeadRef = headRevision pr,
      pr_DefaultBranch = getStr repo rp_DefaultBranch, pr_Remote = [],
      pr_CloneURL = getStr repo rp_CloneURL, pr_Name = getStr repo rp_Name,
      pr_Owner = getStr (Option.bind repo rp_Owner) us_Login,
      pr_CheckID = unPtrInt (gp_Number pr), pr_SHA = getStr (gp_Head pr) br_SHA,
      pr_FullName = getStr repo rp_FullName, pr_Username = gcl_username c, pr_Email = gcl_email c,
      pr_Labels = map unPtr (gp_Labels pr), pr_Title = unPtr (gp_Title pr), pr_Description = unPtr (gp_Body pr)\<rparr>)"

text \<open>The payloads, as far as they are read: \<open>changes\<close> says whether an edit changed the base branch.\<close>

record gh_comment_event =
  ce_IsPullRequest :: bool
  ce_Body :: string
  ce_Owner :: string
  ce_Name :: string
  ce_Number :: int

datatype gh_event =
    PullRequestEvent (pe_Action: string) (pe_BaseChange: bool) (pe_PullRequest: "gh_pr option")
  | IssueCommentEvent (ie_Action: string) (ie_Comment: gh_comment_event)
  | OtherEvent

definition buildRepoFromEvent :: "github_client \<Rightarrow> gh_pr option \<Rightarrow> pull_request option" where
  "buildRepoFromEvent c event = map_option (buildRepo c) event"

definition buildRepoFromComment ::
  "github_client \<Rightarrow> (string \<Rightarrow> string \<Rightarrow> int \<Rightarrow> string + gh_pr) \<Rightarrow> gh_comment_event \<Rightarrow> hook_error + pull_request" where
  "buildRepoFromComment c get comment =
    (case get (ce_Owner comment) (ce_Name comment) (ce_Number comment) of
       Inl err \<Rightarrow> Inl (HookFailed (''failed to get pull request: '' @ err))
     | Inr pr \<Rightarrow> if rejectFork c (Some pr) then Inl ErrInvalidType else Inr (buildRepo c pr))"

definition githubParseHook ::
  "github_client \<Rightarrow> (string \<Rightarrow> string \<Rightarrow> int \<Rightarrow> string + gh_pr) \<Rightarrow> string + gh_event \<Rightarrow> (hook_error + pull_request) option" where
  "githubParseHook c get payload =
    (case payload of
       Inl err \<Rightarrow> Some (Inl (HookFailed err))
     | Inr (PullRequestEvent action baseChange pr) \<Rightarrow>
         if rejectFork c pr then Some (Inl ErrInvalidType)
         else if action \<in> {''opened'', ''synchronize'', ''reopened''} then map_option Inr (buildRepoFromEvent c pr)
         else if action = ''edited'' then
           (if \<not> baseChange then Some (Inl ErrInvalidType) else map_option Inr (buildRepoFromEvent c pr))
         else Some (Inl ErrInvalidType)
     | Inr (IssueCommentEvent action comment) \<Rightarrow>
         if action = ''created'' then
           (if \<not> ce_IsPullRequest comment then Some (Inl ErrInvalidType)
            else if EqualFold (trim_space (ce_Body comment)) (trim_space (gc_ReplanCommentMessage (gcl_cfg c)))
            then Some (buildRepoFromComment c get comment)
            else Some (Inl ErrInvalidType))
         else Some (Inl ErrInvalidType)
     | Inr OtherEvent \<Rightarrow> Some (Inl ErrInvalidType))"

text \<open>\<open>parse\<close> is the parser of git URLs; a URL that is not of the form owner/repository panics.\<close>

definition parseRepo :: "(string \<Rightarrow> string + url_parts) \<Rightarrow> string \<Rightarrow> (string \<times> string) option" where
  "parseRepo parse cloneUrl =
    (case parse cloneUrl of
       Inl err \<Rightarrow> None
     | Inr r \<Rightarrow>
         let path = trim_suffix (trim_prefix (u_Path r) ''/'') ''.git'' in
         (case split_char slash path of
            [owner, name] \<Rightarrow> Some (owner, trim_suffix name ''.git'')
          | _ \<Rightarrow> None))"

fun findGithubHook :: "string \<Rightarrow> (string + webhook_config) list \<Rightarrow> find_hook" where
  "findGithubHook webhookUrl [] = ErrHookNotFound"
| "findGithubHook webhookUrl (Inl err # rest) = ListHooksFailed (''failed to list hooks: '' @ err)"
| "findGithubHook webhookUrl (Inr item # rest) =
    (if wh_Url item = webhookUrl then HookFound item else findGithubHook webhookUrl rest)"

definition githubGetHookByUrl ::
  "(string \<Rightarrow> string + url_parts) \<Rightarrow> (string \<Rightarrow> string \<Rightarrow> (string + webhook_config) list) \<Rightarrow> string \<Rightarrow> string \<Rightarrow> find_hook option" where
  "githubGetHookByUrl parse hooks ownerAndRepoName webhookUrl =
    map_option (\<lambda>(owner, repoName). findGithubHook webhookUrl (hooks owner repoName)) (parseRepo parse ownerAndRepoName)"

text \<open>\<open>create\<close> answers with the error and the status code of the response, if there is one; wrapping no
  error is no error.\<close>

definition githubCreateHook ::
  "(string \<Rightarrow> string + url_parts) \<Rightarrow> (string \<Rightarrow> string \<Rightarrow> string option \<times> int option) \<Rightarrow> string \<Rightarrow> string option option" where
  "githubCreateHook parse create ownerAndRepoName =
    (case parseRepo parse ownerAndRepoName of
       None \<Rightarrow> None
     | Some (owner, repoName) \<Rightarrow>
         (case create owner repoName of
            (Some err, code) \<Rightarrow> Some (Some (''failed to create hook, statuscode: '' @ itoa_int (case code of None \<Rightarrow> 0 | Some s \<Rightarrow> s) @ '': '' @ err))
          | (None, None) \<Rightarrow> None
          | (None, Some code) \<Rightarrow> Some None))"

section \<open>Loading a pull request by its name\<close>

text \<open>\<open>regexp\<close> on \<open>(.*)/(.*)#(\d+)\<close>: a match lies within one line, the leftmost match starts at the
  first line that has one, and the greedy groups leave the last number sign before a digit and
  the last slash in front of it.\<close>

definition last_slash :: "string \<Rightarrow> nat option" where
  "last_slash s = last_index (\<lambda>i. s ! i = slash) (length s)"

definition pullRequestInLine :: "string \<Rightarrow> (string \<times> string \<times> string) option" where
  "pullRequestInLine l =
    (case last_mark CHR ''#'' l of
       None \<Rightarrow> None
     | Some q \<Rightarrow>
         (case last_slash (take q l) of
            None \<Rightarrow> None
          | Some p \<Rightarrow> Some (take p l, drop (Suc p) (take q l), takeWhile is_digit (drop (Suc q) l))))"

definition rePullRequest :: "string \<Rightarrow> (string \<times> string \<times> string) option" where
  "rePullRequest s =
    (case filter (\<lambda>m. m \<noteq> None) (map pullRequestInLine (split_char nl s)) of [] \<Rightarrow> None | m # _ \<Rightarrow> m)"

definition githubLoadHook ::
  "(string \<Rightarrow> string \<Rightarrow> string + gh_repo) \<Rightarrow> (string \<Rightarrow> string \<Rightarrow> int \<Rightarrow> string + gh_pr) \<Rightarrow> string \<Rightarrow> string + pull_request" where
  "githubLoadHook getRepo get name =
    (case rePullRequest name of
       None \<Rightarrow> Inl ''must be in format OWNER/REPO#PR''
     | Some (ownerName, repoName, num) \<Rightarrow>
         (case parseInt32 num of
            None \<Rightarrow> Inl ''failed to parse int''
          | Some prNumber \<Rightarrow>
              (case getRepo ownerName repoName of
                 Inl err \<Rightarrow> Inl (''failed to get repo: '' @ err)
               | Inr repoInfo \<Rightarrow>
                   (case get ownerName repoName prNumber of
                      Inl err \<Rightarrow> Inl (''failed to get pull request: '' @ err)
                    | Inr pr \<Rightarrow>
                        let userName = getStr (gp_User pr) us_Name;
                            userEmail = getStr (gp_User pr) us_Email
                        in Inr \<lparr>pr_BaseRef = getStr (gp_Base pr) br_Ref,
                             pr_HeadRef = (case gp_Base pr of None \<Rightarrow> [] | Some _ \<Rightarrow> headRevision pr),
                             pr_DefaultBranch = unPtr (rp_DefaultBranch repoInfo), pr_Remote = [],
                             pr_CloneURL = unPtr (rp_CloneURL repoInfo), pr_Name = unPtr (rp_Name repoInfo),
                             pr_Owner = (case rp_Owner repoInfo of Some usr \<Rightarrow> unPtr (us_Login usr) | None \<Rightarrow> ''kubechecks''),
                             pr_CheckID = prNumber, pr_SHA = getStr (gp_Head pr) br_SHA,
                             pr_FullName = unPtr (rp_FullName repoInfo),
                             pr_Username = (if userName = [] then ''kubechecks'' else userName),
                             pr_Email = (if userEmail = [] then ''kubechecks@github.com'' else userEmail),
                             pr_Labels = map unPtr (gp_Labels pr), pr_Title = unPtr (gp_Title pr),
                             pr_Description = unPtr (gp_Body pr)\<rparr>))))"

section \<open>Changed files\<close>

definition maxListedPullRequestFiles :: nat where "maxListedPullRequestFiles = 3000"

fun listFiles :: "(string + string option) list \<Rightarrow> string + string list" where
  "listFiles [] = Inr []"
| "listFiles (Inl err # rest) = Inl (''failed to list PR files: '' @ err)"
| "listFiles (Inr name # rest) =
    (case listFiles rest of
       Inl err \<Rightarrow> Inl err
     | Inr later \<Rightarrow> Inr (if unPtr name \<noteq> [] then unPtr name # later else later))"

definition githubGetPullRequestFiles ::
  "(string + string option) list \<Rightarrow> string + gh_pr \<Rightarrow> string + string list" where
  "githubGetPullRequestFiles listing again =
    (case listFiles listing of
       Inl err \<Rightarrow> Inl err
     | Inr allFiles \<Rightarrow>
         if length allFiles \<ge> maxListedPullRequestFiles then
           (case again of
              Inl err \<Rightarrow> Inl (''failed to get PR changed file count: '' @ err)
            | Inr pr \<Rightarrow>
                if unPtrInt (gp_ChangedFiles pr) > slen allFiles
                then Inl (''PR changes '' @ itoa_int (unPtrInt (gp_ChangedFiles pr)) @ '' files but GitHub only lists the first '' @ itoa (length allFiles))
                else Inr allFiles)
         else Inr allFiles)"

section \<open>Messages\<close>

definition githubMaxCommentLength :: nat where "githubMaxCommentLength = 64 * 1024"

definition updateMessageTimeout :: int where "updateMessageTimeout = 10 * minute"

definition githubPostMessage :: "(string \<Rightarrow> string + int) \<Rightarrow> string \<Rightarrow> string + int" where
  "githubPostMessage create msgText =
    (let body = (if length msgText > githubMaxCommentLength then take githubMaxCommentLength msgText else msgText) in
     case create body of Inl err \<Rightarrow> Inl (''could not post message to PR: '' @ err) | Inr n \<Rightarrow> Inr n)"

datatype comment_call = EditComment int string | CreateComment string

text \<open>One comment: the call that is repeated, and whether it may be repeated freely.\<close>

definition githubCommentCall :: "int \<Rightarrow> nat \<Rightarrow> string \<Rightarrow> comment_call \<times> bool" where
  "githubCommentCall noteID i chunk =
    (let chunk = (if length chunk > githubMaxCommentLength then take githubMaxCommentLength chunk else chunk);
         edit = (i = 0)
     in (if edit then EditComment noteID chunk else CreateComment chunk, edit))"

datatype update_error = UpdateTimedOut nat nat do_result | UpdateFailed nat nat do_result

text \<open>\<open>t i\<close> is what happens to the calls for the i-th chunk, \<open>late i\<close> whether the ten minutes are over
  after it.  The result has the calls made, each with the number of times it was made.\<close>

fun githubUpdateFrom ::
  "retryConfig \<Rightarrow> int \<Rightarrow> (nat \<Rightarrow> call_trace) \<Rightarrow> (nat \<Rightarrow> bool) \<Rightarrow> nat \<Rightarrow> nat \<Rightarrow> string list \<Rightarrow>
   update_error option \<times> (comment_call \<times> nat) list" where
  "githubUpdateFrom rc noteID t late n i [] = (None, [])"
| "githubUpdateFrom rc noteID t late n i (chunk # chunks) =
    (case githubCommentCall noteID i chunk of
       (c, edit) \<Rightarrow>
         (case retryDo rc edit (t i) of
            (res, made, _) \<Rightarrow>
              if res \<noteq> CallOk then
                (Some (if late i then UpdateTimedOut (Suc i) n res else UpdateFailed (Suc i) n res), [(c, made)])
              else (case githubUpdateFrom rc noteID t late n (Suc i) chunks of
                      (err, calls) \<Rightarrow> (err, (c, made) # calls))))"

definition githubUpdateMessage ::
  "retryConfig \<Rightarrow> int \<Rightarrow> (nat \<Rightarrow> call_trace) \<Rightarrow> (nat \<Rightarrow> bool) \<Rightarrow> string list \<Rightarrow>
   update_error option \<times> (comment_call \<times> nat) list" where
  "githubUpdateMessage commentRetry noteID t late chunks =
    githubUpdateFrom (withDefaults commentRetry 3 (2 * second) (30 * second)) noteID t late (length chunks) 0 chunks"

record issue_comment =
  ic_ID :: int
  ic_NodeID :: string
  ic_Login :: string
  ic_Body :: string

definition isOwnComment :: "github_client \<Rightarrow> issue_comment \<Rightarrow> bool" where
  "isOwnComment c comment =
    (EqualFold (ic_Login comment) (gcl_username c) \<or> str_contains (ic_Body comment) (reportTitle (gc_Identifier (gcl_cfg c))))"

text \<open>\<open>delete\<close> answers with an error; the result has the comments it was asked to delete.\<close>

fun githubPruneOldComments :: "github_client \<Rightarrow> (int \<Rightarrow> string option) \<Rightarrow> issue_comment list \<Rightarrow> string option \<times> int list" where
  "githubPruneOldComments c delete [] = (None, [])"
| "githubPruneOldComments c delete (comment # comments) =
    (if isOwnComment c comment then
       (case delete (ic_ID comment) of
          Some err \<Rightarrow> (Some (''failed to delete comment: '' @ err), [ic_ID comment])
        | None \<Rightarrow> (case githubPruneOldComments c delete comments of (res, ids) \<Rightarrow> (res, ic_ID comment # ids)))
     else githubPruneOldComments c delete comments)"

definition minimizedLookupBatch :: nat where "minimizedLookupBatch = 100"

text \<open>\<open>query\<close> answers for one batch of identifiers with those it found and whether they are minimized.\<close>

function minimizedComments :: "(string list \<Rightarrow> string + (string \<times> bool) list) \<Rightarrow> string list \<Rightarrow> string + string set" where
  "minimizedComments query nodeIDs =
    (if nodeIDs = [] then Inr {}
     else case query (take minimizedLookupBatch nodeIDs) of
       Inl err \<Rightarrow> Inl (''query comment minimized state: '' @ err)
     | Inr nodes \<Rightarrow>
         (case minimizedComments query (drop minimizedLookupBatch nodeIDs) of
            Inl err \<Rightarrow> Inl err
          | Inr later \<Rightarrow> Inr (set (map fst (filter snd nodes)) \<union> later)))"
  by auto

termination
  by (relation "measure (\<lambda>(_, ids). length ids)") (auto simp: minimizedLookupBatch_def)

declare minimizedComments.simps [simp del]

fun minimizeEach :: "string set \<Rightarrow> (string \<Rightarrow> string option) \<Rightarrow> string list \<Rightarrow> string option \<times> string list" where
  "minimizeEach minimized mutate [] = (None, [])"
| "minimizeEach minimized mutate (nodeID # rest) =
    (if nodeID \<in> minimized then minimizeEach minimized mutate rest
     else case mutate nodeID of
       Some err \<Rightarrow> (Some (''minimize comment '' @ nodeID @ '': '' @ err), [nodeID])
     | None \<Rightarrow> (case minimizeEach minimized mutate rest of (res, ids) \<Rightarrow> (res, nodeID # ids)))"

definition githubHideOutdatedMessages ::
  "github_client \<Rightarrow> (string list \<Rightarrow> string + (string \<times> bool) list) \<Rightarrow> (string \<Rightarrow> string option) \<Rightarrow> issue_comment list \<Rightarrow>
   string option \<times> string list" where
  "githubHideOutdatedMessages c query mutate comments =
    (let candidates = map ic_NodeID (filter (\<lambda>m. isOwnComment c m \<and> ic_NodeID m \<noteq> []) comments) in
     if candidates = [] then (None, [])
     else case minimizedComments query candidates of
       Inl err \<Rightarrow> (Some err, [])
     | Inr minimized \<Rightarrow> minimizeEach minimized mutate candidates)"

datatype tidy_result = Pruned "string option \<times> int list" | Hidden "string option \<times> string list" | TidyFailed string

definition githubTidyOutdatedComments ::
  "github_client \<Rightarrow> (int \<Rightarrow> string option) \<Rightarrow> (string list \<Rightarrow> string + (string \<times> bool) list) \<Rightarrow> (string \<Rightarrow> string option) \<Rightarrow>
   (string + issue_comment) list \<Rightarrow> tidy_result" where
  "githubTidyOutdatedComments c delete query mutate listing =
    (case collectListing ''failed listing comments: '' listing of
       Inl err \<Rightarrow> TidyFailed err
     | Inr allComments \<Rightarrow>
         if to_lower (gc_TidyOutdatedCommentsMode (gcl_cfg c)) = ''delete''
         then Pruned (githubPruneOldComments c delete allComments)
         else Hidden (githubHideOutdatedMessages c query mutate allComments))"

section \<open>Commit statuses\<close>

definition toGithubCommitStatus :: "commit_state \<Rightarrow> string" where
  "toGithubCommitStatus state =
    (if state = StateError \<or> state = StatePanic then ''error''
     else if state = StateFailure then ''failure''
     else if state = StateRunning then ''pending''
     else if state = StateSuccess \<or> state = StateWarning \<or> state = StateNone \<or> state = StateSkip then ''success''
     else ''failure'')"

record repo_status =
  rs_ID :: int
  rs_State :: string
  rs_Description :: string
  rs_Context :: string

definition githubCommitStatus :: "pull_request \<Rightarrow> commit_state \<Rightarrow> repo_status" where
  "githubCommitStatus pr status =
    \<lparr>rs_ID = pr_CheckID pr, rs_State = toGithubCommitStatus status, rs_Description = BareString status, rs_Context = ''kubechecks''\<rparr>"

definition githubStateEmoji :: "commit_state \<Rightarrow> string option" where
  "githubStateEmoji = [StateNone \<mapsto> [], StateSuccess \<mapsto> '':white_check_mark:'', StateRunning \<mapsto> '':runner:'',
     StateWarning \<mapsto> '':warning:'', StateFailure \<mapsto> '':red_circle:'', StateError \<mapsto> '':exclamation:'', StatePanic \<mapsto> '':skull:'']"

definition githubDefaultEmoji :: string where "githubDefaultEmoji = '':interrobang:''"

definition githubToEmoji :: "commit_state \<Rightarrow> string" where
  "githubToEmoji s = (case githubStateEmoji s of Some emoji \<Rightarrow> emoji | None \<Rightarrow> githubDefaultEmoji)"

end
