(* ===== verification/GitlabClient.thy ===== *)
theory GitlabClient
  imports VcsCommon GithubRetry RepoConfig
begin

text \<open>
  \<open>pkg/vcs/gitlab_client\<close>: webhooks, archives, messages, statuses and pipelines of the GitLab client.
  As in \<open>GithubClient\<close>, what GitLab answers is an argument; a listing by pages is the list of the
  pages up to the last.  Durations are in nanoseconds.
\<close>

section \<open>Configuration and credentials\<close>

record gitlab_config =
  glc_AllowForkPullRequests :: bool
  glc_ReplanCommentMessage :: string
  glc_Identifier :: string
  glc_TidyOutdatedCommentsMode :: string
  glc_VcsToken :: string
  glc_VcsBaseUrl :: string

record gitlab_client =
  gll_cfg :: gitlab_config
  gll_username :: string
  gll_email :: string

text \<open>\<open>connect\<close> is the error of building the client, \<open>user\<close> the name and address of the current user.\<close>

definition CreateGitlabClient :: "gitlab_config \<Rightarrow> string option \<Rightarrow> string + (string \<times> string) \<Rightarrow> string + gitlab_client" where
  "CreateGitlabClient cfg connect user =
    (if glc_VcsToken cfg = [] then Inl ''gitlab token needs to be set''
     else case connect of
       Some err \<Rightarrow> Inl (''could not create Gitlab client: '' @ err)
     | None \<Rightarrow>
         (case user of
            Inl err \<Rightarrow> Inl (''failed to get current user: '' @ err)
          | Inr (username, email) \<Rightarrow>
              Inr \<lparr>gll_cfg = cfg, gll_username = (if username = [] then DefaultVcsUsername else username),
                   gll_email = (if email = [] then DefaultVcsEmail else email)\<rparr>))"

definition gitlabAuthHeaders :: "gitlab_client \<Rightarrow> string strmap" where
  "gitlabAuthHeaders c = [''PRIVATE-TOKEN'' \<mapsto> glc_VcsToken (gll_cfg c)]"

definition gitlabGitCredentials :: "gitlab_client \<Rightarrow> string \<times> string" where
  "gitlabGitCredentials c = (gll_username c, glc_VcsToken (gll_cfg c))"

section \<open>Webhooks\<close>

definition gitlabVerifyHook :: "string \<Rightarrow> string \<Rightarrow> string + string \<Rightarrow> string + string" where
  "gitlabVerifyHook secret token body = (if secret \<noteq> [] \<and> secret \<noteq> token then Inl ''invalid secret'' else body)"

record gl_merge_request =
  mr_IID :: int
  mr_SourceProjectID :: int
  mr_TargetProjectID :: int
  mr_SourceBranch :: string
  mr_TargetBranch :: string
  mr_LastCommitID :: string
  mr_Title :: string
  mr_Description :: string
  mr_Labels :: "string list"

record gl_project =
  pj_Name :: string
  pj_DefaultBranch :: string
  pj_PathWithNamespace :: string
  pj_GitHTTPURL :: string

datatype gl_event =
    MergeEvent (me_Action: string) (me_OldRev: string) (me_Request: gl_merge_request) (me_Project: gl_project)
  | MergeCommentEvent (mc_Action: string) (mc_Note: string) (mc_Request: gl_merge_request) (mc_Project: gl_project)
  | OtherGitlabEvent

definition gitlabIsFork :: "int \<Rightarrow> int \<Rightarrow> bool" where
  "gitlabIsFork sourceProjectID targetProjectID = (sourceProjectID \<noteq> targetProjectID)"

definition gitlabHeadRevision :: "int \<Rightarrow> int \<Rightarrow> string \<Rightarrow> string \<Rightarrow> string" where
  "gitlabHeadRevision sourceProjectID targetProjectID sourceBranch sha =
    (if gitlabIsFork sourceProjectID targetProjectID then sha else sourceBranch)"

definition gitlabRejectFork :: "gitlab_client \<Rightarrow> int \<Rightarrow> int \<Rightarrow> bool" where
  "gitlabRejectFork c sourceProjectID targetProjectID =
    (if glc_AllowForkPullRequests (gll_cfg c) \<or> \<not> gitlabIsFork sourceProjectID targetProjectID then False else True)"

text \<open>Both events fill the same fields, one from its attributes, one from its merge request.\<close>

definition gitlabBuildRepo :: "gitlab_client \<Rightarrow> gl_merge_request \<Rightarrow> gl_project \<Rightarrow> pull_request" where
  "gitlabBuildRepo c mr pj =
    \<lparr>pr_BaseRef = mr_TargetBranch mr,
     pr_HeadRef = gitlabHeadRevision (mr_SourceProjectID mr) (mr_TargetProjectID mr) (mr_SourceBranch mr) (mr_LastCommitID mr),
     pr_DefaultBranch = pj_DefaultBranch pj, pr_Remote = [], pr_CloneURL = pj_GitHTTPURL pj, pr_Name = pj_Name pj,
     pr_Owner = [], pr_CheckID = mr_IID mr, pr_SHA = mr_LastCommitID mr, pr_FullName = pj_PathWithNamespace pj,
     pr_Username = gll_username c, pr_Email = gll_email c, pr_Labels = mr_Labels mr, pr_Title = mr_Title mr,
     pr_Description = mr_Description mr\<rparr>"

definition gitlabParseHook :: "gitlab_client \<Rightarrow> string + gl_event \<Rightarrow> hook_error + pull_request" where
  "gitlabParseHook c payload =
    (case payload of
       Inl err \<Rightarrow> Inl (HookFailed err)
     | Inr (MergeEvent action oldRev mr pj) \<Rightarrow>
         if gitlabRejectFork c (mr_SourceProjectID mr) (mr_TargetProjectID mr) then Inl ErrInvalidType
         else if action = ''update'' then
           (if oldRev \<noteq> [] \<and> oldRev \<noteq> mr_LastCommitID mr then Inr (gitlabBuildRepo c mr pj) else Inl ErrInvalidType)
         else if action = ''open'' \<or> action = ''reopen'' then Inr (gitlabBuildRepo c mr pj)
         else Inl ErrInvalidType
     | Inr (MergeCommentEvent action comment mr pj) \<Rightarrow>
         if gitlabRejectFork c (mr_SourceProjectID mr) (mr_TargetProjectID mr) then Inl ErrInvalidType
         else if action = ''create'' then
           (if to_lower comment = glc_ReplanCommentMessage (gll_cfg c) then Inr (gitlabBuildRepo c mr pj) else Inl ErrInvalidType)
         else Inl ErrInvalidType
     | Inr OtherGitlabEvent \<Rightarrow> Inl ErrInvalidType)"

definition parseRepoName :: "(string \<Rightarrow> string + url_parts) \<Rightarrow> string \<Rightarrow> string + string" where
  "parseRepoName parse url =
    (case parse url of Inl err \<Rightarrow> Inl err | Inr r \<Rightarrow> Inr (trim_prefix (trim_suffix (u_Path r) ''.git'') ''/''))"

record gl_hook =
  gh_URL :: string
  gh_MergeRequestsEvents :: bool
  gh_NoteEvents :: bool

definition gitlabGetHookByUrl ::
  "(string \<Rightarrow> string + url_parts) \<Rightarrow> (string \<Rightarrow> string + gl_hook list) \<Rightarrow> string \<Rightarrow> string \<Rightarrow> find_hook" where
  "gitlabGetHookByUrl parse hooks repoName webhookUrl =
    (case parseRepoName parse repoName of
       Inl err \<Rightarrow> ListHooksFailed (''failed to parse repo url: '' @ err)
     | Inr pid \<Rightarrow>
         (case hooks pid of
            Inl err \<Rightarrow> ListHooksFailed (''failed to list project webhooks: '' @ err)
          | Inr webhooks \<Rightarrow>
              (case find (\<lambda>h. gh_URL h = webhookUrl) webhooks of
                 None \<Rightarrow> ErrHookNotFound
               | Some h \<Rightarrow> HookFound \<lparr>wh_Url = gh_URL h,
                   wh_Events = (if gh_MergeRequestsEvents h then [''merge_request''] else []) @
                     (if gh_NoteEvents h then [''note''] else [])\<rparr>)))"

text \<open>\<open>create\<close> answers with the error and the status code of the response, if there is one.  The
  condition reads the status of a response that may be missing: a panic.\<close>

definition gitlabCreateHook ::
  "(string \<Rightarrow> string + url_parts) \<Rightarrow> (string \<Rightarrow> string option \<times> int option) \<Rightarrow> string \<Rightarrow> string option option" where
  "gitlabCreateHook parse create repoName =
    (case parseRepoName parse repoName of
       Inl err \<Rightarrow> Some (Some (''failed to parse repo name: '' @ err))
     | Inr pid \<Rightarrow>
         (case create pid of
            (err, None) \<Rightarrow> None
          | (err, Some code) \<Rightarrow>
              if err \<noteq> None \<and> code < 200 \<or> code \<ge> 300
              then Some (map_option (\<lambda>e. ''failed to create project webhook: '' @ e) err)
              else Some None))"

text \<open>\<open>regexp\<close> on \<open>(.*)!(\d+)\<close>, as for GitHub.\<close>

definition mergeRequestInLine :: "string \<Rightarrow> (string \<times> string) option" where
  "mergeRequestInLine l =
    (case last_mark CHR ''!'' l of
       None \<Rightarrow> None
     | Some q \<Rightarrow> Some (take q l, takeWhile is_digit (drop (Suc q) l)))"

definition reMergeRequest :: "string \<Rightarrow> (string \<times> string) option" where
  "reMergeRequest s =
    (case filter (\<lambda>m. m \<noteq> None) (map mergeRequestInLine (split_char nl s)) of [] \<Rightarrow> None | m # _ \<Rightarrow> m)"

definition gitlabLoadHook ::
  "gitlab_client \<Rightarrow> (string \<Rightarrow> string + gl_project) \<Rightarrow> (string \<Rightarrow> int \<Rightarrow> string + gl_merge_request) \<Rightarrow> string \<Rightarrow> string + pull_request" where
  "gitlabLoadHook c getProject get name =
    (case reMergeRequest name of
       None \<Rightarrow> Inl ''must be in format REPOPATH!MR''
     | Some (repoPath, num) \<Rightarrow>
         (case parseInt32 num of
            None \<Rightarrow> Inl ''failed to parse merge request number''
          | Some mrNumber \<Rightarrow>
              (case getProject repoPath of
                 Inl err \<Rightarrow> Inl (''failed to get project '' @ repoPath @ '': '' @ err)
               | Inr pj \<Rightarrow>
                   (case get repoPath mrNumber of
                      Inl err \<Rightarrow> Inl (''failed to get merge request: '' @ err)
                    | Inr mr \<Rightarrow> Inr (gitlabBuildRepo c mr pj)))))"

section \<open>Archives\<close>

datatype readiness_status = mrReady | mrTransient | mrFailed

record mr_readiness =
  rd_Status :: readiness_status
  rd_DetailedStatus :: string
  rd_Reason :: string

text \<open>What asking for the merge ref may come to: the request cannot be built, there is no response, or
  there is one, with an error or without.\<close>

datatype ref_answer = NewRequestFailed string | NoResponse string | HttpError nat string | HttpOk nat

definition checkMRReadiness :: "ref_answer \<Rightarrow> mr_readiness" where
  "checkMRReadiness a =
    (case a of
       NewRequestFailed err \<Rightarrow> \<lparr>rd_Status = mrFailed, rd_DetailedStatus = ''api_error'',
         rd_Reason = ''Failed to create merge_ref request: '' @ err\<rparr>
     | HttpError code err \<Rightarrow>
         if code = 400 then \<lparr>rd_Status = mrFailed, rd_DetailedStatus = ''not_mergeable'',
           rd_Reason = ''MR has conflicts or cannot be merged (HTTP 400)''\<rparr>
         else if code = 404 then \<lparr>rd_Status = mrTransient, rd_DetailedStatus = ''merge_ref_not_ready'',
           rd_Reason = ''merge_ref not available yet, GitLab still processing (HTTP 404)''\<rparr>
         else if code = 429 then \<lparr>rd_Status = mrTransient, rd_DetailedStatus = ''rate_limited'',
           rd_Reason = ''GitLab API rate limit reached (HTTP 429)''\<rparr>
         else \<lparr>rd_Status = mrFailed, rd_DetailedStatus = ''http_'' @ itoa code,
           rd_Reason = ''merge_ref endpoint returned HTTP '' @ itoa code @ '': '' @ err\<rparr>
     | NoResponse err \<Rightarrow> \<lparr>rd_Status = mrFailed, rd_DetailedStatus = ''api_error'',
         rd_Reason = ''Failed to query merge_ref endpoint: '' @ err\<rparr>
     | HttpOk code \<Rightarrow>
         if code = 200 then \<lparr>rd_Status = mrReady, rd_DetailedStatus = ''mergeable'',
           rd_Reason = ''merge_ref endpoint returned success (HTTP 200)''\<rparr>
         else \<lparr>rd_Status = mrFailed, rd_DetailedStatus = ''http_'' @ itoa code,
           rd_Reason = ''Unexpected HTTP status '' @ itoa code @ '' from merge_ref endpoint''\<rparr>)"

definition encodePath :: "string \<Rightarrow> string" where
  "encodePath path = concat (map (\<lambda>c. if c = slash then ''%2F'' else [c]) path)"

datatype wait_error = NotReadyAfterRetries string int | CannotBeMerged string string | WaitEnded

definition readinessRetries :: nat where "readinessRetries = 5"

definition readinessBackoff :: int where "readinessBackoff = 5 * second"

definition readinessMaxBackoff :: int where "readinessMaxBackoff = 60 * second"

text \<open>The retry loop of \<open>DownloadArchive\<close>: the last argument are the retries that remain; the result has
  the answers used and the waits between them.\<close>

fun awaitReady ::
  "(nat \<Rightarrow> ref_answer) \<Rightarrow> (nat \<Rightarrow> bool) \<Rightarrow> nat \<Rightarrow> int \<Rightarrow> nat \<Rightarrow> wait_error option \<times> nat \<times> int list" where
  "awaitReady ask cancelled attempt backoff n =
    (let r = checkMRReadiness (ask attempt) in
     case rd_Status r of
       mrReady \<Rightarrow> (None, Suc attempt, [])
     | mrFailed \<Rightarrow> (Some (CannotBeMerged (rd_Reason r) (rd_DetailedStatus r)), Suc attempt, [])
     | mrTransient \<Rightarrow>
         (case n of
            0 \<Rightarrow> (Some (NotReadyAfterRetries (rd_DetailedStatus r) (int (Suc attempt) * readinessBackoff)), Suc attempt, [])
          | Suc k \<Rightarrow>
              if cancelled attempt then (Some WaitEnded, Suc attempt, [backoff])
              else (case awaitReady ask cancelled (Suc attempt) (min (backoff * 2) readinessMaxBackoff) k of
                      (res, calls, waits) \<Rightarrow> (res, calls, backoff # waits))))"

declare awaitReady.simps [simp del]

text \<open>A resolved commit, without one (\<open>None\<close>), or an error.\<close>

definition resolveRetries :: nat where "resolveRetries = 3"

definition mergeRefName :: "pull_request \<Rightarrow> string" where
  "mergeRefName pr = ''refs/merge-requests/'' @ itoa_int (pr_CheckID pr) @ ''/merge''"

fun resolveLoop ::
  "string \<Rightarrow> (nat \<Rightarrow> string + string option) \<Rightarrow> (nat \<Rightarrow> bool) \<Rightarrow> nat \<Rightarrow> int \<Rightarrow> nat \<Rightarrow> (string + string) \<times> nat \<times> int list" where
  "resolveLoop mergeRef get cancelled attempt backoff n =
    (case get attempt of
       Inr (Some (c # sha)) \<Rightarrow> (Inr (c # sha), Suc attempt, [])
     | answer \<Rightarrow>
         (case n of
            0 \<Rightarrow> (Inl (case answer of
                     Inl err \<Rightarrow> ''failed to resolve merge ref '' @ mergeRef @ '' to commit SHA after '' @
                       itoa (Suc resolveRetries) @ '' attempts: '' @ err
                   | Inr _ \<Rightarrow> ''resolved commit has empty ID for merge ref '' @ mergeRef @ '' after '' @
                       itoa (Suc resolveRetries) @ '' attempts''), Suc attempt, [])
          | Suc k \<Rightarrow>
              if cancelled attempt then (Inl ''context ended'', Suc attempt, [backoff])
              else (case resolveLoop mergeRef get cancelled (Suc attempt) (backoff * 2) k of
                      (res, calls, waits) \<Rightarrow> (res, calls, backoff # waits))))"

declare resolveLoop.simps [simp del]

definition resolveMergeRefToSHA ::
  "string \<Rightarrow> (nat \<Rightarrow> string + string option) \<Rightarrow> (nat \<Rightarrow> bool) \<Rightarrow> (string + string) \<times> nat \<times> int list" where
  "resolveMergeRefToSHA mergeRef get cancelled = resolveLoop mergeRef get cancelled 0 (2 * second) resolveRetries"

definition gitlabArchiveURL :: "gitlab_config \<Rightarrow> pull_request \<Rightarrow> string \<Rightarrow> string" where
  "gitlabArchiveURL cfg pr mergeRefSHA =
    (if glc_VcsBaseUrl cfg \<noteq> []
     then trim_suffix (glc_VcsBaseUrl cfg) ''/'' @ ''/api/v4/projects/'' @ encodePath (pr_FullName pr) @
          ''/repository/archive.zip?sha='' @ mergeRefSHA
     else ''https://gitlab.com/api/v4/projects/'' @ encodePath (pr_FullName pr) @ ''/repository/archive.zip?sha='' @ mergeRefSHA)"

datatype gl_archive_error = NotReadyError wait_error | ResolveError string

text \<open>\<open>ask\<close> and \<open>get\<close> are asked for the merge ref of the merge request, \<open>get\<close> by its full name.\<close>

definition gitlabDownloadArchive ::
  "gitlab_config \<Rightarrow> (nat \<Rightarrow> ref_answer) \<Rightarrow> (string \<Rightarrow> string \<Rightarrow> nat \<Rightarrow> string + string option) \<Rightarrow> (nat \<Rightarrow> bool) \<Rightarrow> (nat \<Rightarrow> bool) \<Rightarrow>
   pull_request \<Rightarrow> (gl_archive_error + string) \<times> nat \<times> nat \<times> int list" where
  "gitlabDownloadArchive cfg ask get cancelled1 cancelled2 pr =
    (case awaitReady ask cancelled1 0 readinessBackoff readinessRetries of
       (Some err, calls, waits) \<Rightarrow> (Inl (NotReadyError err), calls, 0, waits)
     | (None, calls, waits) \<Rightarrow>
         (case resolveMergeRefToSHA (mergeRefName pr) (get (pr_FullName pr) (mergeRefName pr)) cancelled2 of
            (Inl err, calls2, waits2) \<Rightarrow> (Inl (ResolveError (''failed to resolve merge ref to SHA: '' @ err)), calls, calls2, waits @ waits2)
          | (Inr sha, calls2, waits2) \<Rightarrow> (Inr (gitlabArchiveURL cfg pr sha), calls, calls2, waits @ waits2)))"

section \<open>Changed files\<close>

record mr_diff =
  md_OldPath :: string
  md_NewPath :: string

definition devNull :: string where "devNull = ''/dev/null''"

definition diffPath :: "mr_diff \<Rightarrow> string" where
  "diffPath d = (if md_NewPath d = [] \<or> md_NewPath d = devNull then md_OldPath d else md_NewPath d)"

definition addDiffPath :: "string list \<Rightarrow> mr_diff \<Rightarrow> string list" where
  "addDiffPath files d =
    (let filePath = diffPath d in
     if filePath \<noteq> [] \<and> filePath \<noteq> devNull \<and> filePath \<notin> set files then files @ [filePath] else files)"

text \<open>The map of the files seen has the same keys as the list of files.\<close>

fun gitlabFilesFrom :: "string list \<Rightarrow> (string + mr_diff list) list \<Rightarrow> string + string list" where
  "gitlabFilesFrom files [] = Inr files"
| "gitlabFilesFrom files (Inl err # pages) = Inl (''failed to list MR diffs from GitLab: '' @ err)"
| "gitlabFilesFrom files (Inr diffs # pages) = gitlabFilesFrom (foldl addDiffPath files diffs) pages"

definition gitlabGetPullRequestFiles :: "(string + mr_diff list) list \<Rightarrow> string + string list" where
  "gitlabGetPullRequestFiles pages = gitlabFilesFrom [] pages"

section \<open>Messages\<close>

definition gitlabMaxCommentLength :: nat where "gitlabMaxCommentLength = 1000000"

definition trimNote :: "string \<Rightarrow> string" where
  "trimNote body = (if length body > gitlabMaxCommentLength then take gitlabMaxCommentLength body else body)"

definition gitlabPostMessage :: "(string \<Rightarrow> string + int) \<Rightarrow> string \<Rightarrow> string + int" where
  "gitlabPostMessage create msgText =
    (case create (trimNote msgText) of Inl err \<Rightarrow> Inl (''could not post message to MR: '' @ err) | Inr n \<Rightarrow> Inr n)"

datatype note_call = EditNote int string | AddNote string

text \<open>\<open>fails i\<close> is the error of the call for the i-th chunk.\<close>

fun gitlabUpdateFrom ::
  "int \<Rightarrow> (nat \<Rightarrow> string option) \<Rightarrow> nat \<Rightarrow> nat \<Rightarrow> string list \<Rightarrow> string option \<times> note_call list" where
  "gitlabUpdateFrom noteID fails n i [] = (None, [])"
| "gitlabUpdateFrom noteID fails n i (chunk # chunks) =
    (let c = (if i = 0 then EditNote noteID (trimNote chunk) else AddNote (trimNote chunk)) in
     case fails i of
       Some err \<Rightarrow> (Some (''posting note '' @ itoa (Suc i) @ '' of '' @ itoa n @ '': '' @ err), [c])
     | None \<Rightarrow> (case gitlabUpdateFrom noteID fails n (Suc i) chunks of (err, calls) \<Rightarrow> (err, c # calls)))"

definition gitlabUpdateMessage :: "int \<Rightarrow> (nat \<Rightarrow> string option) \<Rightarrow> string list \<Rightarrow> string option \<times> note_call list" where
  "gitlabUpdateMessage noteID fails chunks = gitlabUpdateFrom noteID fails (length chunks) 0 chunks"

record gl_note =
  gn_ID :: int
  gn_Username :: string
  gn_System :: bool
  gn_Body :: string

definition outdatedMark :: "string \<Rightarrow> string" where
  "outdatedMark identifier = ''<summary><i>OUTDATED: '' @ reportTitle identifier @ ''</i></summary>''"

definition skipsHiding :: "gitlab_client \<Rightarrow> gl_note \<Rightarrow> bool" where
  "skipsHiding c n =
    (gn_Username n \<noteq> gll_username c \<or> gn_System n \<or>
     str_contains (gn_Body n) (outdatedMark (glc_Identifier (gll_cfg c))) \<or>
     \<not> str_contains (gn_Body n) (reportTitle (glc_Identifier (gll_cfg c))))"

definition outdatedBody :: "string \<Rightarrow> string \<Rightarrow> string" where
  "outdatedBody identifier body =
    [nl] @ ''<details>'' @ [nl, CHR 0x09] @ outdatedMark identifier @ [nl, CHR 0x09, nl] @ body @ [nl] @ ''</details>'' @
    [nl, CHR 0x09, CHR 0x09, CHR 0x09]"

definition hiddenNote :: "gitlab_client \<Rightarrow> gl_note \<Rightarrow> gl_note" where
  "hiddenNote c n = n\<lparr>gn_Body := trimNote (outdatedBody (glc_Identifier (gll_cfg c)) (gn_Body n))\<rparr>"

text \<open>The result has the notes as they are written.\<close>

fun gitlabHideOutdatedMessages :: "gitlab_client \<Rightarrow> (int \<Rightarrow> string option) \<Rightarrow> gl_note list \<Rightarrow> string option \<times> gl_note list" where
  "gitlabHideOutdatedMessages c write [] = (None, [])"
| "gitlabHideOutdatedMessages c write (n # ns) =
    (if skipsHiding c n then gitlabHideOutdatedMessages c write ns
     else case write (gn_ID n) of
       Some err \<Rightarrow> (Some (''could not hide note '' @ itoa_int (gn_ID n) @ '' for merge request: '' @ err), [hiddenNote c n])
     | None \<Rightarrow> (case gitlabHideOutdatedMessages c write ns of (res, written) \<Rightarrow> (res, hiddenNote c n # written)))"

fun gitlabPruneOldComments :: "gitlab_client \<Rightarrow> (int \<Rightarrow> string option) \<Rightarrow> gl_note list \<Rightarrow> string option \<times> int list" where
  "gitlabPruneOldComments c delete [] = (None, [])"
| "gitlabPruneOldComments c delete (n # ns) =
    (if gn_Username n = gll_username c \<and> str_contains (gn_Body n) (reportTitle (glc_Identifier (gll_cfg c))) then
       (case delete (gn_ID n) of
          Some err \<Rightarrow> (Some (''could not delete old comment: '' @ err), [gn_ID n])
        | None \<Rightarrow> (case gitlabPruneOldComments c delete ns of (res, ids) \<Rightarrow> (res, gn_ID n # ids)))
     else gitlabPruneOldComments c delete ns)"

datatype gl_tidy_result = NotesPruned "string option \<times> int list" | NotesHidden "string option \<times> gl_note list" | NotesFailed string

definition gitlabTidyOutdatedComments ::
  "gitlab_client \<Rightarrow> (int \<Rightarrow> string option) \<Rightarrow> (int \<Rightarrow> string option) \<Rightarrow> (string + gl_note list) list \<Rightarrow> gl_tidy_result" where
  "gitlabTidyOutdatedComments c delete write pages =
    (case collectListing ''could not fetch notes for merge request: '' pages of
       Inl err \<Rightarrow> NotesFailed err
     | Inr notePages \<Rightarrow>
         if to_lower (glc_TidyOutdatedCommentsMode (gll_cfg c)) = ''delete''
         then NotesPruned (gitlabPruneOldComments c delete (concat notePages))
         else NotesHidden (gitlabHideOutdatedMessages c write (concat notePages)))"

section \<open>Pipelines and commit statuses\<close>

record pipeline =
  pl_ID :: int
  pl_Source :: string

definition firstOfSource :: "string \<Rightarrow> pipeline list \<Rightarrow> pipeline option" where
  "firstOfSource src ps = find (\<lambda>p. pl_Source p = src) ps"

definition GetLastPipelinesForCommit :: "string + pipeline list \<Rightarrow> pipeline option" where
  "GetLastPipelinesForCommit answer =
    (case answer of
       Inl err \<Rightarrow> None
     | Inr pipelines \<Rightarrow>
         (case firstOfSource ''merge_request_event'' pipelines of Some p \<Rightarrow> Some p
          | None \<Rightarrow> (case firstOfSource ''pipeline'' pipelines of Some p \<Rightarrow> Some p
          | None \<Rightarrow> (case firstOfSource ''external_pull_request_event'' pipelines of Some p \<Rightarrow> Some p
          | None \<Rightarrow> firstOfSource ''external'' pipelines))))"

datatype build_state = BuildRunning | BuildFailed | BuildSuccess

definition convertState :: "commit_state \<Rightarrow> build_state" where
  "convertState state =
    (if state = StateRunning then BuildRunning
     else if state = StateFailure \<or> state = StateError \<or> state = StatePanic then BuildFailed
     else if state = StateSuccess \<or> state = StateWarning \<or> state = StateNone \<or> state = StateSkip then BuildSuccess
     else BuildFailed)"

definition gitlabStateEmoji :: "commit_state \<Rightarrow> string option" where
  "gitlabStateEmoji = [StateNone \<mapsto> [], StateSuccess \<mapsto> '':white_check_mark:'', StateRunning \<mapsto> '':runner:'',
     StateWarning \<mapsto> '':warning:'', StateFailure \<mapsto> '':red_circle:'', StateError \<mapsto> '':exclamation:'', StatePanic \<mapsto> '':skull:'']"

definition gitlabDefaultEmoji :: string where "gitlabDefaultEmoji = '':interrobang:''"

definition gitlabToEmoji :: "commit_state \<Rightarrow> string" where
  "gitlabToEmoji s = (case gitlabStateEmoji s of Some emoji \<Rightarrow> emoji | None \<Rightarrow> gitlabDefaultEmoji)"

record status_options =
  so_Name :: string
  so_Context :: string
  so_Description :: string
  so_State :: build_state
  so_PipelineID :: "int option"

text \<open>The pipelines are asked for once; when none matches and there are some, asking is repeated by
  \<open>retried\<close>, the answer of the last repetition.\<close>

definition gitlabCommitStatus ::
  "string + pipeline list \<Rightarrow> string + pipeline list \<Rightarrow> (string + pipeline list) \<Rightarrow> commit_state \<Rightarrow> status_options" where
  "gitlabCommitStatus first again retried state =
    (let found = (case GetLastPipelinesForCommit first of
           Some p \<Rightarrow> Some p
         | None \<Rightarrow> (case again of
             Inl err \<Rightarrow> None
           | Inr pipelines \<Rightarrow> if pipelines \<noteq> [] then GetLastPipelinesForCommit retried else None))
     in \<lparr>so_Name = ''kubechecks'', so_Context = ''kubechecks'',
         so_Description = BareString state @ '' '' @ gitlabToEmoji state, so_State = convertState state,
         so_PipelineID = map_option pl_ID found\<rparr>)"

section \<open>Waiting for the merge ref\<close>

text \<open>The waits of a loop whose backoff doubles up to a cap.\<close>

fun schedule :: "(int \<Rightarrow> int) \<Rightarrow> int \<Rightarrow> nat \<Rightarrow> int list" where
  "schedule nxt b 0 = []"
| "schedule nxt b (Suc n) = b # schedule nxt (nxt b) n"

lemma awaitReady_spec:
  assumes "awaitReady ask cancelled attempt backoff n = (res, calls, waits)"
  shows "attempt < calls \<and> calls \<le> attempt + Suc n \<and> prefix waits (schedule (\<lambda>b. min (b * 2) readinessMaxBackoff) backoff n) \<and>
    (res = None \<longrightarrow> ask (calls - 1) = HttpOk 200)"
  using assms
proof (induction n arbitrary: attempt backoff res calls waits)
  case 0
  then show ?case
    by (subst (asm) awaitReady.simps)
      (auto simp: Let_def checkMRReadiness_def split: readiness_status.splits ref_answer.splits if_splits)
next
  case (Suc n)
  obtain res' calls' waits' where l:
    "awaitReady ask cancelled (Suc attempt) (min (backoff * 2) readinessMaxBackoff) n = (res', calls', waits')"
    by (metis prod.exhaust)
  from Suc.IH[OF l] Suc.prems[unfolded awaitReady.simps[of ask cancelled attempt backoff "Suc n"]] l show ?case
    by (auto simp: Let_def checkMRReadiness_def split: readiness_status.splits ref_answer.splits if_splits)
qed

lemma resolveLoop_spec:
  assumes "resolveLoop mergeRef get cancelled attempt backoff n = (res, calls, waits)"
  shows "attempt < calls \<and> calls \<le> attempt + Suc n \<and> prefix waits (schedule (\<lambda>b. b * 2) backoff n) \<and>
    (\<forall>sha. res = Inr sha \<longrightarrow> sha \<noteq> [] \<and> get (calls - 1) = Inr (Some sha))"
  using assms
proof (induction n arbitrary: attempt backoff res calls waits)
  case 0
  then show ?case
    by (subst (asm) resolveLoop.simps) (auto split: sum.splits option.splits list.splits)
next
  case (Suc n)
  obtain res' calls' waits' where l: "resolveLoop mergeRef get cancelled (Suc attempt) (backoff * 2) n = (res', calls', waits')"
    by (metis prod.exhaust)
  from Suc.IH[OF l] Suc.prems[unfolded resolveLoop.simps[of mergeRef get cancelled attempt backoff "Suc n"]] l show ?case
    by (auto split: sum.splits option.splits list.splits if_splits)
qed

lemma prefix_sum_le: "prefix xs ys \<Longrightarrow> list_all (\<lambda>y. (0::int) \<le> y) ys \<Longrightarrow> sum_list xs \<le> sum_list ys"
  by (auto simp: prefix_def list_all_iff intro!: sum_list_nonneg)

lemma encodePath_no_slash: "slash \<notin> set (encodePath path)"
  by (auto simp: encodePath_def split: if_splits)

lemma encodePath_id: "slash \<notin> set path \<Longrightarrow> encodePath path = path"
  by (induction path) (auto simp: encodePath_def)

lemma encodePath_idem: "encodePath (encodePath path) = encodePath path"
  by (rule encodePath_id) (rule encodePath_no_slash)

lemma gitlabArchiveURL_parts:
  "\<exists>base. gitlabArchiveURL cfg pr sha = base @ ''?sha='' @ sha \<and> gitlabArchiveURL cfg pr [] = (base @ ''?'') @ ''sha=''"
proof (cases "glc_VcsBaseUrl cfg = []")
  case True
  then show ?thesis
    by (intro exI[of _ "''https://gitlab.com/api/v4/projects/'' @ encodePath (pr_FullName pr) @ ''/repository/archive.zip''"])
      (simp add: gitlabArchiveURL_def)
next
  case False
  then show ?thesis
    by (intro exI[of _ "trim_suffix (glc_VcsBaseUrl cfg) ''/'' @ ''/api/v4/projects/'' @ encodePath (pr_FullName pr) @ ''/repository/archive.zip''"])
      (simp add: gitlabArchiveURL_def)
qed

lemma key_of_gitlab_archive:
  assumes "list_all (\<lambda>m. \<not> str_contains (gitlabArchiveURL cfg pr []) m) [''/zipball/'', ''/tarball/'', ''/archive/'']"
    and "\<not> str_contains (trim_suffix (gitlabArchiveURL cfg pr []) ''sha='') ''sha=''"
    and "sha \<noteq> []" "list_all (\<lambda>c. c \<notin> set sha) ''/=&''"
  shows "extractSHAFromArchiveURL (gitlabArchiveURL cfg pr sha) = Inr sha"
proof -
  obtain base where b: "gitlabArchiveURL cfg pr sha = base @ ''?sha='' @ sha" "gitlabArchiveURL cfg pr [] = (base @ ''?'') @ ''sha=''"
    using gitlabArchiveURL_parts[of cfg pr sha] by blast
  have c: "slash \<notin> set sha" "CHR ''='' \<notin> set sha" "CHR ''&'' \<notin> set sha" using assms(4) by simp_all
  have "\<not> str_contains (gitlabArchiveURL cfg pr sha) m" if m: "m \<noteq> []" "last m = slash" "\<not> str_contains (gitlabArchiveURL cfg pr []) m" for m
  proof
    assume "str_contains (gitlabArchiveURL cfg pr sha) m"
    then obtain i where "str_index (((base @ ''?'') @ ''sha='') @ sha) m = Some i" by (auto simp: str_contains_def b)
    from str_index_stable[OF this m(1), of "[]"] m(2) c(1) have "str_index ((base @ ''?'') @ ''sha='') m = Some i" by simp
    then show False using m(3) by (simp add: str_contains_def b(2))
  qed
  then have "\<not> str_contains (gitlabArchiveURL cfg pr sha) ''/zipball/''" "\<not> str_contains (gitlabArchiveURL cfg pr sha) ''/tarball/''"
    "\<not> str_contains (gitlabArchiveURL cfg pr sha) ''/archive/''" using assms(1) by simp_all
  moreover have "\<not> str_contains (base @ ''?'') ''sha=''" using assms(2) unfolding b(2) trim_suffix_append .
  ultimately show ?thesis using sha_of_query[OF _ _ _ b(1)] assms(3) c by blast
qed

text \<open>C31 When the client has an archive, GitLab had the merge ref of the merge request ready, the ref was
  resolved after that, and the cache will key the URL by the commit it resolved to.  GitLab is
  asked at most six and four times, and the waits add up to at most 149 seconds.\<close>

theorem gitlab_archive_is_merge_ref:
  assumes "gitlabDownloadArchive cfg ask get cancelled1 cancelled2 pr = (Inr url, calls, calls2, waits)"
    and "list_all (\<lambda>m. \<not> str_contains (gitlabArchiveURL cfg pr []) m) [''/zipball/'', ''/tarball/'', ''/archive/'']"
    and "\<not> str_contains (trim_suffix (gitlabArchiveURL cfg pr []) ''sha='') ''sha=''"
    and "\<And>n sha. get (pr_FullName pr) (mergeRefName pr) n = Inr (Some sha) \<Longrightarrow> list_all (\<lambda>c. c \<notin> set sha) ''/=&''"
  shows "ask (calls - 1) = HttpOk 200 \<and> calls \<le> 6 \<and> calls2 \<le> 4 \<and> sum_list waits \<le> 149 * second \<and>
    (\<exists>sha. get (pr_FullName pr) (mergeRefName pr) (calls2 - 1) = Inr (Some sha) \<and> extractSHAFromArchiveURL url = Inr sha)"
proof -
  obtain waits1 waits2 sha where
    a: "awaitReady ask cancelled1 0 readinessBackoff readinessRetries = (None, calls, waits1)"
    and l: "resolveLoop (mergeRefName pr) (get (pr_FullName pr) (mergeRefName pr)) cancelled2 0 (2 * second) resolveRetries = (Inr sha, calls2, waits2)"
    and u: "url = gitlabArchiveURL cfg pr sha" "waits = waits1 @ waits2"
    using assms(1)
    by (auto simp: gitlabDownloadArchive_def resolveMergeRefToSHA_def split: prod.splits option.splits sum.splits)
  note A = awaitReady_spec[OF a] and R = resolveLoop_spec[OF l]
  have "sum_list (schedule (\<lambda>b. min (b * 2) readinessMaxBackoff) readinessBackoff readinessRetries) = 135 * second"
    "sum_list (schedule (\<lambda>b. b * 2) (2 * second) resolveRetries) = 14 * second"
    "list_all (\<lambda>y. 0 \<le> y) (schedule (\<lambda>b. min (b * 2) readinessMaxBackoff) readinessBackoff readinessRetries)"
    "list_all (\<lambda>y. 0 \<le> y) (schedule (\<lambda>b. b * 2) (2 * second) resolveRetries)"
    by code_simp+
  then have "sum_list waits1 \<le> 135 * second" "sum_list waits2 \<le> 14 * second"
    using A R prefix_sum_le by metis+
  then have "sum_list waits \<le> 149 * second" by (simp add: u(2))
  moreover have "extractSHAFromArchiveURL url = Inr sha"
    using key_of_gitlab_archive[OF assms(2,3)] R assms(4) u(1) by blast
  ultimately show ?thesis using A R by (auto simp: readinessRetries_def resolveRetries_def)
qed

definition gl_demo_config :: gitlab_config where
  "gl_demo_config = \<lparr>glc_AllowForkPullRequests = False, glc_ReplanCommentMessage = ''kubechecks again'', glc_Identifier = [],
     glc_TidyOutdatedCommentsMode = ''hide'', glc_VcsToken = ''t'', glc_VcsBaseUrl = ''https://gitlab.com''\<rparr>"

definition gl_demo_ask :: "nat \<Rightarrow> ref_answer" where
  "gl_demo_ask n = (if n = 0 then HttpError 404 ''x'' else HttpOk 200)"

definition gl_demo_get :: "string \<Rightarrow> string \<Rightarrow> nat \<Rightarrow> string + string option" where
  "gl_demo_get project ref n = (if n = 0 then Inr None else Inr (Some ''ab12''))"

definition gl_demo_pr :: pull_request where
  "gl_demo_pr = pr_zero\<lparr>pr_FullName := ''g/r'', pr_CheckID := 7\<rparr>"

theorem gitlab_archive_is_merge_ref_witness:
  "\<exists>url. gitlabDownloadArchive gl_demo_config gl_demo_ask gl_demo_get (\<lambda>_. False) (\<lambda>_. False) gl_demo_pr =
      (Inr url, 2, 2, [5 * second, 2 * second]) \<and> extractSHAFromArchiveURL url = Inr ''ab12''"
proof -
  let ?url = "''https://gitlab.com/api/v4/projects/g%2Fr/repository/archive.zip?sha=ab12''"
  have r: "gitlabDownloadArchive gl_demo_config gl_demo_ask gl_demo_get (\<lambda>_. False) (\<lambda>_. False) gl_demo_pr =
      (Inr ?url, 2, 2, [5 * second, 2 * second])" by code_simp
  have m: "list_all (\<lambda>m. \<not> str_contains (gitlabArchiveURL gl_demo_config gl_demo_pr []) m) [''/zipball/'', ''/tarball/'', ''/archive/'']"
    "\<not> str_contains (trim_suffix (gitlabArchiveURL gl_demo_config gl_demo_pr []) ''sha='') ''sha=''" by code_simp+
  have "gl_demo_ask (2 - 1) = HttpOk 200 \<and> 2 \<le> (6::nat) \<and> 2 \<le> (4::nat) \<and> sum_list [5 * second, 2 * second] \<le> 149 * second \<and>
    (\<exists>sha. gl_demo_get (pr_FullName gl_demo_pr) (mergeRefName gl_demo_pr) (2 - 1) = Inr (Some sha) \<and> extractSHAFromArchiveURL ?url = Inr sha)"
    by (rule gitlab_archive_is_merge_ref[OF r m]) (auto simp: gl_demo_get_def split: if_splits)
  then show ?thesis using r by (auto simp: gl_demo_get_def)
qed

end
