(* ===== verification/VcsClients.thy ===== *)
theory VcsClients
  imports GithubClient GitlabClient MsgReport
begin

text \<open>
  What the GitHub and the GitLab client promise alike, as implementations of the interface in
  \<open>pkg/vcs/client.go\<close>: which events they accept, how they name, read, write and hide things.
\<close>

section \<open>Commit states\<close>

lemma word_le_4:
  fixes w :: "8 word"
  shows "w \<le> 4 \<longleftrightarrow> w = 0 \<or> w = 1 \<or> w = 2 \<or> w = 3 \<or> w = 4"
proof
  assume "w \<le> 4"
  then have "unat w \<le> 4" by (simp add: word_le_nat_alt)
  then have "unat w \<in> {0, 1, 2, 3, 4}" by auto
  then have "(word_of_nat (unat w) :: 8 word) \<in> word_of_nat ` {0, 1, 2, 3, 4 :: nat}" by (rule imageI)
  then show "w = 0 \<or> w = 1 \<or> w = 2 \<or> w = 3 \<or> w = 4" by simp
qed (auto simp: word_le_nat_alt)

text \<open>The two clients report every state alike: a check passes on one exactly when it passes on the
  other, which is up to a warning unless it is still running, it runs on one exactly when it runs
  on the other, and every state has the same emoji.\<close>

theorem clients_agree_on_states:
  "(toGithubCommitStatus s = ''success'') = (convertState s = BuildSuccess) \<and>
   (toGithubCommitStatus s = ''pending'') = (convertState s = BuildRunning) \<and>
   (convertState s = BuildSuccess) = (s \<le> StateWarning \<and> s \<noteq> StateRunning) \<and>
   githubToEmoji s = gitlabToEmoji s"
proof -
  have "s \<le> StateWarning \<longleftrightarrow> s \<in> {StateNone, StateSkip, StateSuccess, StateRunning, StateWarning}"
    by (cases s) (auto simp: word_le_4 less_eq_commit_state_def state_defs)
  moreover have "githubToEmoji s = gitlabToEmoji s"
    by (simp add: githubToEmoji_def gitlabToEmoji_def githubStateEmoji_def gitlabStateEmoji_def
        githubDefaultEmoji_def gitlabDefaultEmoji_def)
  ultimately show ?thesis
    by (auto simp: toGithubCommitStatus_def convertState_def state_defs)
qed

section \<open>Names of pull requests\<close>

lemma last_index_eqI:
  "i < n \<Longrightarrow> P i \<Longrightarrow> (\<And>j. i < j \<Longrightarrow> j < n \<Longrightarrow> \<not> P j) \<Longrightarrow> last_index P n = Some i"
proof (induction n)
  case (Suc n)
  then show ?case by (cases "i = n") (auto simp: last_index_def)
qed simp

lemma split_char_single: "d \<notin> set s \<Longrightarrow> split_char d s = [s]"
  by (induction s) auto

lemma itoa_is_digits: "list_all is_digit (itoa n)"
  using itoa_chars[of n] unfolding list_all_iff is_digit_def by blast

lemma takeWhile_itoa: "takeWhile is_digit (itoa n) = itoa n"
  using itoa_is_digits[of n] unfolding takeWhile_eq_all_conv list_all_iff by blast

lemma last_mark_itoa:
  assumes "\<not> is_digit c"
  shows "last_mark c (p @ c # itoa n) = Some (length p)"
  unfolding last_mark_def
proof (rule last_index_eqI)
  have d: "is_digit (itoa n ! k)" if "k < length (itoa n)" for k
    using itoa_is_digits[of n] that by (simp add: list_all_length)
  show "length p < length (p @ c # itoa n) - 1" by simp
  have "0 < length (itoa n)" by simp
  from d[OF this] show "(p @ c # itoa n) ! length p = c \<and> is_digit ((p @ c # itoa n) ! Suc (length p))"
    by (simp add: nth_append)
  show "\<not> ((p @ c # itoa n) ! j = c \<and> is_digit ((p @ c # itoa n) ! Suc j))"
    if "length p < j" "j < length (p @ c # itoa n) - 1" for j
  proof -
    define k where "k = j - length p - 1"
    then have "j = length p + Suc k" "k < length (itoa n)" using that by auto
    then show ?thesis using d[of k] assms by (auto simp: nth_append)
  qed
qed

lemma last_slash_eq: "slash \<notin> set b \<Longrightarrow> last_slash (a @ slash # b) = Some (length a)"
  unfolding last_slash_def
  by (rule last_index_eqI) (auto simp: nth_append nth_Cons' in_set_conv_nth)

text \<open>The names under which a pull request is loaded by hand are read as they are meant: owner,
  repository and number, or project path and number.\<close>

theorem pull_request_names_load:
  assumes "nl \<notin> set owner" "nl \<notin> set repo" "slash \<notin> set repo" "n < 2 ^ 31"
  shows "rePullRequest (owner @ ''/'' @ repo @ ''#'' @ itoa n) = Some (owner, repo, itoa n) \<and>
    reMergeRequest (owner @ ''/'' @ repo @ ''!'' @ itoa n) = Some (owner @ ''/'' @ repo, itoa n) \<and>
    parseInt32 (itoa n) = Some (int n)"
proof -
  have nn: "nl \<notin> set (itoa n)" using itoa_chars[of n] by auto
  let ?l = "owner @ slash # repo"
  have "last_mark CHR ''#'' (?l @ CHR ''#'' # itoa n) = Some (length ?l)"
    "last_mark CHR ''!'' (?l @ CHR ''!'' # itoa n) = Some (length ?l)"
    by (rule last_mark_itoa, simp add: is_digit_def)+
  moreover have "last_slash ?l = Some (length owner)" using last_slash_eq assms(3) by blast
  moreover have "split_char nl (?l @ c # itoa n) = [?l @ c # itoa n]" if "c \<noteq> nl" for c
    using assms(1,2) nn that by (intro split_char_single) auto
  ultimately show ?thesis using assms(4)
    by (simp add: rePullRequest_def reMergeRequest_def pullRequestInLine_def mergeRequestInLine_def
        takeWhile_itoa parseInt32_def atoi_itoa)
qed

theorem pull_request_names_load_witness:
  "rePullRequest ''zapier/kubechecks#42'' = Some (''zapier'', ''kubechecks'', ''42'') \<and>
   reMergeRequest ''zapier/kubechecks!42'' = Some (''zapier/kubechecks'', ''42'')"
proof -
  have "itoa 42 = ''42''" by code_simp
  then show ?thesis using pull_request_names_load[of "''zapier''" "''kubechecks''" 42] by simp
qed

section \<open>Changed files\<close>

lemma listFiles_ok:
  "list_all (\<lambda>s. s \<noteq> []) names \<Longrightarrow> listFiles (map (\<lambda>s. Inr (Some s)) names) = Inr names"
  by (induction names) (auto simp: unPtr_def)

lemma addDiffPath_spec:
  "distinct files \<Longrightarrow> distinct (addDiffPath files d) \<and> set (addDiffPath files d) = set files \<union> ({diffPath d} - {[], devNull})"
  by (auto simp: addDiffPath_def Let_def)

lemma foldl_addDiffPath:
  "distinct files \<Longrightarrow> distinct (foldl addDiffPath files ds) \<and>
    set (foldl addDiffPath files ds) = set files \<union> (diffPath ` set ds - {[], devNull})"
proof (induction ds arbitrary: files)
  case (Cons d ds)
  from addDiffPath_spec[OF Cons.prems, of d] Cons.IH[of "addDiffPath files d"] show ?case by auto
qed simp

lemma gitlabFilesFrom_spec:
  "gitlabFilesFrom files pages = Inr fs \<Longrightarrow> distinct files \<Longrightarrow>
    distinct fs \<and> set fs = set files \<union> (diffPath ` set (concat (map projr pages)) - {[], devNull})"
proof (induction files pages rule: gitlabFilesFrom.induct)
  case (3 files diffs pages)
  from foldl_addDiffPath[OF 3(3), of diffs] 3(1,2) show ?case by (auto simp: image_Un)
qed auto

text \<open>A check never sees part of the changed files.  GitHub lists at most 3000 files of a pull
  request: when it changes more, asking for them fails instead of returning the first ones.  The
  files of a GitLab merge request are the paths of all its diffs, each once.\<close>

theorem changed_files_are_complete:
  assumes "list_all (\<lambda>s. s \<noteq> []) names" "gp_ChangedFiles p = Some (slen names)"
    and "gitlabGetPullRequestFiles pages = Inr fs"
  shows "githubGetPullRequestFiles (map (\<lambda>s. Inr (Some s)) (take maxListedPullRequestFiles names)) (Inr p) =
      (if length names \<le> maxListedPullRequestFiles then Inr names
       else Inl (''PR changes '' @ itoa (length names) @ '' files but GitHub only lists the first '' @ itoa maxListedPullRequestFiles)) \<and>
    distinct fs \<and> set fs = diffPath ` set (concat (map projr pages)) - {[], devNull}"
proof
  have "list_all (\<lambda>s. s \<noteq> []) (take maxListedPullRequestFiles names)"
    using assms(1) by (auto simp: list_all_iff dest: in_set_takeD)
  from listFiles_ok[OF this] show "githubGetPullRequestFiles (map (\<lambda>s. Inr (Some s)) (take maxListedPullRequestFiles names)) (Inr p) =
      (if length names \<le> maxListedPullRequestFiles then Inr names
       else Inl (''PR changes '' @ itoa (length names) @ '' files but GitHub only lists the first '' @ itoa maxListedPullRequestFiles))"
    using assms(2) by (auto simp: githubGetPullRequestFiles_def unPtrInt_def itoa_int_def)
  show "distinct fs \<and> set fs = diffPath ` set (concat (map projr pages)) - {[], devNull}"
    using gitlabFilesFrom_spec[OF assms(3)[unfolded gitlabGetPullRequestFiles_def]] by simp
qed

definition demo_files_pr :: gh_pr where
  "demo_files_pr = \<lparr>gp_Number = Some 1, gp_Title = None, gp_Body = None, gp_Labels = [], gp_Head = None, gp_Base = None,
     gp_User = None, gp_ChangedFiles = Some 2\<rparr>"

definition demo_diffs :: "(string + mr_diff list) list" where
  "demo_diffs = [Inr [\<lparr>md_OldPath = ''a'', md_NewPath = ''a''\<rparr>, \<lparr>md_OldPath = ''b'', md_NewPath = ''/dev/null''\<rparr>],
     Inr [\<lparr>md_OldPath = ''a'', md_NewPath = ''a''\<rparr>]]"

theorem changed_files_are_complete_witness:
  "githubGetPullRequestFiles [Inr (Some ''x''), Inr (Some ''y'')] (Inr demo_files_pr) = Inr [''x'', ''y''] \<and>
   gitlabGetPullRequestFiles demo_diffs = Inr [''a'', ''b''] \<and> distinct [''a'', ''b'']"
proof -
  have r: "gitlabGetPullRequestFiles demo_diffs = Inr [''a'', ''b'']" by code_simp
  have "githubGetPullRequestFiles (map (\<lambda>s. Inr (Some s)) (take maxListedPullRequestFiles [''x'', ''y''])) (Inr demo_files_pr) =
      (if length [''x'', ''y''] \<le> maxListedPullRequestFiles then Inr [''x'', ''y'']
       else Inl (''PR changes '' @ itoa (length [''x'', ''y'']) @ '' files but GitHub only lists the first '' @ itoa maxListedPullRequestFiles)) \<and>
    distinct [''a'', ''b''] \<and> set [''a'', ''b''] = diffPath ` set (concat (map projr demo_diffs)) - {[], devNull}"
    by (rule changed_files_are_complete[OF _ _ r]) (simp_all add: demo_files_pr_def)
  then show ?thesis using r by (simp add: maxListedPullRequestFiles_def)
qed

section \<open>Writing a report\<close>

lemma githubUpdateFrom_calls:
  "githubUpdateFrom rc noteID t late n i chunks = (err, calls) \<Longrightarrow>
    prefix (map fst calls) (map (\<lambda>(k, chunk). fst (githubCommentCall noteID k chunk)) (enumerate i chunks)) \<and>
    (err = None \<longrightarrow> length calls = length chunks)"
proof (induction chunks arbitrary: i err calls)
  case (Cons chunk chunks)
  obtain c edit where c: "githubCommentCall noteID i chunk = (c, edit)" by (metis prod.exhaust)
  obtain res made ws where r: "retryDo rc edit (t i) = (res, made, ws)" by (metis prod.exhaust)
  obtain err' calls' where l: "githubUpdateFrom rc noteID t late n (Suc i) chunks = (err', calls')" by (metis prod.exhaust)
  from Cons.IH[OF l] Cons.prems c r l show ?case by (auto split: if_splits)
qed simp

lemma gitlabUpdateFrom_calls:
  "gitlabUpdateFrom noteID fails n i chunks = (err, calls) \<Longrightarrow>
    prefix calls (map (\<lambda>(k, chunk). if k = 0 then EditNote noteID (trimNote chunk) else AddNote (trimNote chunk)) (enumerate i chunks)) \<and>
    (err = None \<longrightarrow> length calls = length chunks)"
proof (induction chunks arbitrary: i err calls)
  case (Cons chunk chunks)
  obtain err' calls' where l: "gitlabUpdateFrom noteID fails n (Suc i) chunks = (err', calls')" by (metis prod.exhaust)
  from Cons.IH[OF l] Cons.prems l show ?case by (auto simp: Let_def split: option.splits)
qed simp

lemma enumerate_after_first: "0 < i \<Longrightarrow> list_all (\<lambda>c. P c) cs \<Longrightarrow> (\<And>k c. 0 < k \<Longrightarrow> P c \<Longrightarrow> f (k, c) = g c) \<Longrightarrow>
    map f (enumerate i cs) = map g cs"
  by (induction cs arbitrary: i) auto

lemma github_writes:
  assumes "list_all (\<lambda>c. length c \<le> githubMaxCommentLength) (c # cs)"
  shows "map (\<lambda>(k, chunk). fst (githubCommentCall noteID k chunk)) (enumerate 0 (c # cs)) = EditComment noteID c # map CreateComment cs"
proof -
  have "map (\<lambda>(k, chunk). fst (githubCommentCall noteID k chunk)) (enumerate 1 cs) = map CreateComment cs"
    by (rule enumerate_after_first[where P = "\<lambda>c. length c \<le> githubMaxCommentLength"])
      (use assms in \<open>auto simp: githubCommentCall_def\<close>)
  then show ?thesis using assms by (simp add: githubCommentCall_def)
qed

lemma gitlab_writes:
  assumes "list_all (\<lambda>c. length c \<le> gitlabMaxCommentLength) (c # cs)"
  shows "map (\<lambda>(k, chunk). if k = 0 then EditNote noteID (trimNote chunk) else AddNote (trimNote chunk)) (enumerate 0 (c # cs)) =
    EditNote noteID c # map AddNote cs"
proof -
  have "map (\<lambda>(k, chunk). if k = 0 then EditNote noteID (trimNote chunk) else AddNote (trimNote chunk)) (enumerate 1 cs) = map AddNote cs"
    by (rule enumerate_after_first[where P = "\<lambda>c. length c \<le> gitlabMaxCommentLength"])
      (use assms in \<open>auto simp: trimNote_def\<close>)
  then show ?thesis using assms by (simp add: trimNote_def)
qed

lemma prefix_whole: "prefix xs ys \<Longrightarrow> length xs = length ys \<Longrightarrow> xs = ys"
  by (auto simp: prefix_def)

text \<open>C23 A report is written as it is built: with the limit of its client as the length of a comment, the
  first comment replaces the placeholder, the others follow it in order, none is trimmed, a later
  one is only written after the earlier ones have succeeded, and all are when no error is
  returned.\<close>

theorem built_report_is_written:
  assumes "co_MaxLength opts = int githubMaxCommentLength" "tailsFit (commentConfig footer opts)"
    and "BuildComment emoji footer ks m opts = c # cs"
    and "githubUpdateMessage retry noteID t late (c # cs) = (err, calls)"
    and "co_MaxLength opts' = int gitlabMaxCommentLength" "tailsFit (commentConfig footer' opts')"
    and "BuildComment emoji' footer' ks' m' opts' = c' # cs'"
    and "gitlabUpdateMessage noteID' fails (c' # cs') = (err', calls')"
  shows "prefix (map fst calls) (EditComment noteID c # map CreateComment cs) \<and>
    (err = None \<longrightarrow> map fst calls = EditComment noteID c # map CreateComment cs) \<and>
    prefix calls' (EditNote noteID' c' # map AddNote cs') \<and>
    (err' = None \<longrightarrow> calls' = EditNote noteID' c' # map AddNote cs')"
proof -
  have g: "list_all (\<lambda>c. length c \<le> githubMaxCommentLength) (c # cs)"
    using BuildComment_lens[OF assms(2), of _ emoji ks m] assms(1,3) by (simp only: list_all_iff) auto
  have l: "list_all (\<lambda>c. length c \<le> gitlabMaxCommentLength) (c' # cs')"
    using BuildComment_lens[OF assms(6), of _ emoji' ks' m'] assms(5,7) by (simp only: list_all_iff) auto
  note G = githubUpdateFrom_calls[OF assms(4)[unfolded githubUpdateMessage_def], unfolded github_writes[OF g]]
  note L = gitlabUpdateFrom_calls[OF assms(8)[unfolded gitlabUpdateMessage_def], unfolded gitlab_writes[OF l]]
  show ?thesis using G L prefix_whole[of "map fst calls" "EditComment noteID c # map CreateComment cs"]
      prefix_whole[of calls' "EditNote noteID' c' # map AddNote cs'"] by simp
qed

definition all_succeed :: "nat \<Rightarrow> call_trace" where
  "all_succeed i = \<lparr>ct_call = (\<lambda>_. None), ct_ended = (\<lambda>_. False), ct_endsWaiting = (\<lambda>_. False)\<rparr>"

abbreviation demo_footer :: "commentOptions \<Rightarrow> string" where
  "demo_footer \<equiv> footerFor ''h'' ''1s'' ''c''"

definition demo_opts_gh :: commentOptions where
  "demo_opts_gh = demo_opts\<lparr>co_MaxLength := 65536\<rparr>"

definition demo_opts_gl :: commentOptions where
  "demo_opts_gl = demo_opts\<lparr>co_MaxLength := 1000000\<rparr>"

theorem built_report_is_written_witness:
  "\<exists>c c'. githubUpdateMessage no_config 9 all_succeed (\<lambda>_. False) (BuildComment (\<lambda>_. ''!'') demo_footer [''web''] demo_message demo_opts_gh) =
      (None, [(EditComment 9 c, 1)]) \<and>
    gitlabUpdateMessage 9 (\<lambda>_. None) (BuildComment (\<lambda>_. ''!'') demo_footer [''web''] demo_message demo_opts_gl) = (None, [EditNote 9 c'])"
proof -
  let ?gh = "BuildComment (\<lambda>_. ''!'') demo_footer [''web''] demo_message demo_opts_gh"
  let ?gl = "BuildComment (\<lambda>_. ''!'') demo_footer [''web''] demo_message demo_opts_gl"
  have t: "tailsFit (commentConfig demo_footer demo_opts_gh)" "tailsFit (commentConfig demo_footer demo_opts_gl)" by code_simp+
  have m: "co_MaxLength demo_opts_gh = int githubMaxCommentLength" "co_MaxLength demo_opts_gl = int gitlabMaxCommentLength"
    by (simp_all add: demo_opts_gh_def demo_opts_gl_def githubMaxCommentLength_def gitlabMaxCommentLength_def)
  have "length ?gh = 1" "length ?gl = 1" by code_simp+
  then obtain c c' where b: "?gh = c # []" "?gl = c' # []" by (auto simp: length_Suc_conv)
  obtain err calls where u: "githubUpdateMessage no_config 9 all_succeed (\<lambda>_. False) (c # []) = (err, calls)"
    by (metis prod.exhaust)
  obtain err' calls' where v: "gitlabUpdateMessage 9 (\<lambda>_. None) (c' # []) = (err', calls')"
    by (metis prod.exhaust)
  have e: "err' = None" using v by (simp add: gitlabUpdateMessage_def Let_def)
  have r: "retryDo (withDefaults no_config 3 (2 * second) (30 * second)) True (all_succeed 0) = (CallOk, 1, [])" by code_simp
  obtain x where x: "err = None" "calls = [(x, 1)]"
    using u r by (auto simp: githubUpdateMessage_def githubCommentCall_def Let_def)
  show ?thesis
    using built_report_is_written[OF m(1) t(1) b(1) u m(2) t(2) b(2) v] u v e x by (simp add: b)
qed

section \<open>Hiding outdated reports\<close>

lemma gitlabHide_writes:
  "gitlabHideOutdatedMessages c (\<lambda>_. None) ns = (None, map (hiddenNote c) (filter (\<lambda>n. \<not> skipsHiding c n) ns))"
  by (induction ns) auto

lemma gitlabHide_skips:
  "list_all (skipsHiding c) ns \<Longrightarrow> gitlabHideOutdatedMessages c write ns = (None, [])"
  by (induction ns) auto

lemma outdated_length: "length (outdatedMark identifier) = 54 + length identifier"
  by (simp add: outdatedMark_def reportTitle_def)

lemma hidden_note_is_skipped:
  assumes "length (glc_Identifier (gll_cfg c)) \<le> 900000"
  shows "skipsHiding c (hiddenNote c n)"
proof -
  let ?i = "glc_Identifier (gll_cfg c)"
  let ?pre = "[nl] @ ''<details>'' @ [nl, CHR 0x09]"
  obtain rest where b: "outdatedBody ?i (gn_Body n) = (?pre @ outdatedMark ?i) @ rest"
    by (simp add: outdatedBody_def)
  have "length (?pre @ outdatedMark ?i) \<le> gitlabMaxCommentLength"
    using assms by (simp add: outdated_length gitlabMaxCommentLength_def)
  then have "\<exists>r. trimNote (outdatedBody ?i (gn_Body n)) = (?pre @ outdatedMark ?i) @ r"
    unfolding b trimNote_def using take_append[of gitlabMaxCommentLength "?pre @ outdatedMark ?i" rest]
    by (metis take_all)
  then obtain r where "trimNote (outdatedBody ?i (gn_Body n)) = ?pre @ outdatedMark ?i @ r" by auto
  then have "str_contains (trimNote (outdatedBody ?i (gn_Body n))) (outdatedMark ?i)"
    unfolding str_contains_iff sublist_def by blast
  then show ?thesis by (simp add: skipsHiding_def hiddenNote_def)
qed

text \<open>How GitHub answers the lookup of comments when those in \<open>M\<close> are minimized.\<close>

definition lookup_answer :: "string set \<Rightarrow> string list \<Rightarrow> string + (string \<times> bool) list" where
  "lookup_answer M ids = Inr (map (\<lambda>i. (i, i \<in> M)) ids)"

lemma minimizedComments_lookup: "minimizedComments (lookup_answer M) ids = Inr (set ids \<inter> M)"
proof (induction "lookup_answer M" ids rule: minimizedComments.induct)
  case (1 ids)
  have s: "set (take minimizedLookupBatch ids) \<union> set (drop minimizedLookupBatch ids) = set ids"
    by (metis append_take_drop_id set_append)
  have h: "set (map fst (filter snd (map (\<lambda>i. (i, i \<in> M)) xs))) = set xs \<inter> M" for xs :: "string list"
    by (auto simp: image_iff)
  show ?case
  proof (cases "ids = []")
    case False
    have q: "lookup_answer M (take minimizedLookupBatch ids) = Inr (map (\<lambda>i. (i, i \<in> M)) (take minimizedLookupBatch ids))"
      by (simp add: lookup_answer_def)
    from 1[OF False q] have "minimizedComments (lookup_answer M) (drop minimizedLookupBatch ids) =
        Inr (set (drop minimizedLookupBatch ids) \<inter> M)" .
    then show ?thesis
      using False q s unfolding minimizedComments.simps[of "lookup_answer M" ids] by (simp only: sum.case if_False h) blast
  qed (simp add: minimizedComments.simps)
qed

lemma minimizeEach_ok: "minimizeEach M (\<lambda>_. None) ids = (None, filter (\<lambda>i. i \<notin> M) ids)"
  by (induction ids) auto

lemma minimizeEach_all: "set ids \<subseteq> M \<Longrightarrow> minimizeEach M mutate ids = (None, [])"
  by (induction ids) auto

text \<open>Outdated reports are hidden once.  A run hides every report of this instance that is not hidden
  yet; after it, another run finds nothing to hide, whatever writing would answer.  On GitHub the
  state is looked up in batches, on GitLab it is read off the note, whose marker survives trimming
  unless the identifier is absurdly long.\<close>

theorem outdated_reports_hidden_once:
  assumes "length (glc_Identifier (gll_cfg gl)) \<le> 900000"
    and "reports = map ic_NodeID (filter (\<lambda>m. isOwnComment gh m \<and> ic_NodeID m \<noteq> []) comments)"
  shows "githubHideOutdatedMessages gh (lookup_answer M) (\<lambda>_. None) comments = (None, filter (\<lambda>i. i \<notin> M) reports) \<and>
    githubHideOutdatedMessages gh (lookup_answer (M \<union> set reports)) mutate comments = (None, []) \<and>
    gitlabHideOutdatedMessages gl (\<lambda>_. None) notes = (None, map (hiddenNote gl) (filter (\<lambda>n. \<not> skipsHiding gl n) notes)) \<and>
    gitlabHideOutdatedMessages gl write (map (\<lambda>n. if skipsHiding gl n then n else hiddenNote gl n) notes) = (None, [])"
proof (intro conjI)
  have f: "filter (\<lambda>i. i \<notin> set reports \<inter> M) reports = filter (\<lambda>i. i \<notin> M) reports"
    by (rule filter_cong) auto
  show "githubHideOutdatedMessages gh (lookup_answer M) (\<lambda>_. None) comments = (None, filter (\<lambda>i. i \<notin> M) reports)"
    unfolding githubHideOutdatedMessages_def Let_def assms(2)[symmetric] minimizedComments_lookup sum.case minimizeEach_ok f by simp
  have "minimizeEach (set reports \<inter> (M \<union> set reports)) mutate reports = (None, [])" by (rule minimizeEach_all) blast
  then show "githubHideOutdatedMessages gh (lookup_answer (M \<union> set reports)) mutate comments = (None, [])"
    unfolding githubHideOutdatedMessages_def Let_def assms(2)[symmetric] minimizedComments_lookup sum.case by simp
  show "gitlabHideOutdatedMessages gl (\<lambda>_. None) notes = (None, map (hiddenNote gl) (filter (\<lambda>n. \<not> skipsHiding gl n) notes))"
    by (rule gitlabHide_writes)
  show "gitlabHideOutdatedMessages gl write (map (\<lambda>n. if skipsHiding gl n then n else hiddenNote gl n) notes) = (None, [])"
    by (rule gitlabHide_skips) (use hidden_note_is_skipped[OF assms(1)] in \<open>auto simp: list_all_iff\<close>)
qed

definition demo_gl_client :: gitlab_client where
  "demo_gl_client = \<lparr>gll_cfg = gl_demo_config\<lparr>glc_Identifier := ''prod''\<rparr>, gll_username = ''bot'', gll_email = ''b@x''\<rparr>"

definition demo_gh_client :: github_client where
  "demo_gh_client = \<lparr>gcl_cfg = \<lparr>gc_AllowForkPullRequests = False, gc_ReplanCommentMessage = ''kubechecks again'',
       gc_Identifier = ''prod'', gc_TidyOutdatedCommentsMode = ''hide'', gc_VcsToken = ''t'', gc_VcsUsername = ''bot'',
       gc_VcsEmail = ''b@x'', gc_GithubAppID = 0, gc_GithubInstallationID = 0, gc_GithubPrivateKey = []\<rparr>,
     gcl_username = ''bot'', gcl_email = ''b@x'', gcl_appToken = None\<rparr>"

definition demo_comment :: "string \<Rightarrow> issue_comment" where
  "demo_comment node = \<lparr>ic_ID = 1, ic_NodeID = node, ic_Login = ''Bot'', ic_Body = ''old''\<rparr>"

definition demo_report_note :: gl_note where
  "demo_report_note = \<lparr>gn_ID = 5, gn_Username = ''bot'', gn_System = False, gn_Body = ''## Kubechecks prod Report''\<rparr>"

theorem outdated_reports_hidden_once_witness:
  "githubHideOutdatedMessages demo_gh_client (lookup_answer {''n1''}) (\<lambda>_. None) [demo_comment ''n1'', demo_comment ''n2''] = (None, [''n2'']) \<and>
   gitlabHideOutdatedMessages demo_gl_client (\<lambda>_. None) [demo_report_note] = (None, [hiddenNote demo_gl_client demo_report_note]) \<and>
   gitlabHideOutdatedMessages demo_gl_client (\<lambda>_. None) [hiddenNote demo_gl_client demo_report_note] = (None, [])"
proof -
  have i: "length (glc_Identifier (gll_cfg demo_gl_client)) \<le> 900000" by (simp add: demo_gl_client_def)
  have r: "[''n1'', ''n2''] = map ic_NodeID (filter (\<lambda>m. isOwnComment demo_gh_client m \<and> ic_NodeID m \<noteq> []) [demo_comment ''n1'', demo_comment ''n2''])"
    by code_simp
  have s: "\<not> skipsHiding demo_gl_client demo_report_note" by code_simp
  show ?thesis
    using outdated_reports_hidden_once[OF i r, of "{''n1''}" "\<lambda>_. None" "[demo_report_note]" "\<lambda>_. None"] s by simp
qed

section \<open>Where the configured comment does not work\<close>

lemma lower_char_idem: "lower_char (lower_char c) = lower_char c"
proof -
  have "lower_char (lower_char c) = lower_char c" if "65 \<le> (of_char c :: nat)" "(of_char c :: nat) \<le> 90"
    using that by (simp add: lower_char_def Let_def of_char_of)
  then show ?thesis by (auto simp: lower_char_def Let_def)
qed

lemma to_lower_has_no_capital: "list_all (\<lambda>c. lower_char c = c) (to_lower s)"
proof (induction s rule: to_lower.induct)
  case (1 a b c s)
  then show ?case by (auto simp: lower_char_idem) (simp_all add: lower_char_def)
qed (auto simp: lower_char_idem, simp_all add: lower_char_def)

text \<open>GitLab compares the lowered comment with the configured message as it is: a message with a capital
  letter never matches, while GitHub ignores case.\<close>

lemma capital_message_is_dead:
  assumes "\<not> list_all (\<lambda>c. lower_char c = c) (glc_ReplanCommentMessage (gll_cfg c))"
  shows "gitlabParseHook c (Inr (MergeCommentEvent action comment mr pj)) = Inl ErrInvalidType"
  using assms to_lower_has_no_capital[of comment] by (auto simp: gitlabParseHook_def)

text \<open>A request that got no response at all makes the creation of a webhook on GitLab panic.\<close>

lemma lost_response_panics:
  "parseRepoName parse repo = Inr pid \<Longrightarrow> create pid = (Some err, None) \<Longrightarrow> gitlabCreateHook parse create repo = None"
  by (simp add: gitlabCreateHook_def)

text \<open>The error after the last retry says that 30 seconds were waited; it was 135.\<close>

lemma waited_longer_than_reported:
  "awaitReady (\<lambda>_. HttpError 404 []) (\<lambda>_. False) 0 readinessBackoff readinessRetries =
    (Some (NotReadyAfterRetries ''merge_ref_not_ready'' (30 * second)), 6, map ((*) second) [5, 10, 20, 40, 60])"
  by code_simp

end
