(* ===== verification/ServerHooks.thy ===== *)
theory ServerHooks
  imports VcsClients RepoQueue
begin

text \<open>
  \<open>pkg/server/hook_handler.go\<close> and \<open>server.go\<close>: what becomes of a webhook request, from its verification
  to the queue, and the creation of webhooks at start-up.  The verification and the decoding of
  the body are arguments, as are the answers of the client; \<open>None\<close> is a panic.
\<close>

section \<open>Admission\<close>

definition labelPrefix :: string where "labelPrefix = ''kubechecks:''"

text \<open>The loop over the labels, with what it has found.\<close>

fun labelLoop :: "string \<Rightarrow> bool \<Rightarrow> string list \<Rightarrow> bool" where
  "labelLoop labelFilter foundKubechecksLabel [] =
    (if foundKubechecksLabel then False else if labelFilter \<noteq> [] then False else True)"
| "labelLoop labelFilter foundKubechecksLabel (label # labels) =
    (if has_prefix label labelPrefix then
       (if trim_prefix label labelPrefix = labelFilter then True else labelLoop labelFilter True labels)
     else labelLoop labelFilter foundKubechecksLabel labels)"

definition passesLabelFilter :: "string \<Rightarrow> pull_request \<Rightarrow> bool" where
  "passesLabelFilter labelFilter repo = labelLoop labelFilter False (pr_Labels repo)"

datatype response = Unauthorized | Skipped | BadRequest | SkippedLabelFilter | QueueFullNotified | Accepted

definition queueFullMessage :: "string \<Rightarrow> string" where
  "queueFullMessage replan =
    [CHR 0xE2, CHR 0x9A, CHR 0xA0, CHR 0xEF, CHR 0xB8, CHR 0x8F] @ '' Kubechecks worker is currently busy processing other requests.'' @
    [nl, nl] @ ''The queue for this repository is full. Please try again later by commenting `'' @ replan @ ''`.''"

text \<open>The response, the queues, and the message posted on the pull request.\<close>

definition groupHandler ::
  "string + string \<Rightarrow> (string \<Rightarrow> (hook_error + pull_request) option) \<Rightarrow> string \<Rightarrow> string \<Rightarrow> url_parsers \<Rightarrow> queue_manager \<Rightarrow>
   (response \<times> queue_manager \<times> (pull_request \<times> string) option) option" where
  "groupHandler verified parse labelFilter replan ps qm =
    (case verified of
       Inl err \<Rightarrow> Some (Unauthorized, qm, None)
     | Inr payload \<Rightarrow>
         (case parse payload of
            None \<Rightarrow> None
          | Some (Inl ErrInvalidType) \<Rightarrow> Some (Skipped, qm, None)
          | Some (Inl (HookFailed err)) \<Rightarrow> Some (BadRequest, qm, None)
          | Some (Inr pr) \<Rightarrow>
              if \<not> passesLabelFilter labelFilter pr then Some (SkippedLabelFilter, qm, None)
              else (case Enqueue ps pr qm of
                      (Enqueued, qm') \<Rightarrow> Some (Accepted, qm', None)
                    | (_, qm') \<Rightarrow> Some (QueueFullNotified, qm', Some (pr, queueFullMessage replan)))))"

section \<open>The server\<close>

definition serverQueueSize :: "int \<Rightarrow> int" where
  "serverQueueSize configured = (if configured \<le> 0 then 100 else configured)"

definition NewServer :: "int \<Rightarrow> queue_manager" where
  "NewServer maxRepoWorkerQueueSize = NewQueueManager (serverQueueSize maxRepoWorkerQueueSize)"

text \<open>\<open>http\<close> is \<open>None\<close> while the server has not been started; the results are the errors.\<close>

definition serverShutdown :: "string option option \<Rightarrow> string option \<Rightarrow> string option" where
  "serverShutdown http queue_err =
    (case http of
       Some (Some httpErr) \<Rightarrow> Some httpErr
     | _ \<Rightarrow> queue_err)"

record server_config =
  sv_EnsureWebhooks :: bool
  sv_MonitorAllApplications :: bool
  sv_WebhookUrlBase :: string

text \<open>The loop over the repositories: those for which a webhook is created.\<close>

fun ensureEach :: "(string \<Rightarrow> find_hook option) \<Rightarrow> (string \<Rightarrow> string option option) \<Rightarrow> string list \<Rightarrow> string list option" where
  "ensureEach getHook createHook [] = Some []"
| "ensureEach getHook createHook (repo # repos) =
    (case getHook repo of
       None \<Rightarrow> None
     | Some (ListHooksFailed err) \<Rightarrow> ensureEach getHook createHook repos
     | Some (HookFound wh) \<Rightarrow> ensureEach getHook createHook repos
     | Some ErrHookNotFound \<Rightarrow>
         (case createHook repo of
            None \<Rightarrow> None
          | Some _ \<Rightarrow> map_option ((#) repo) (ensureEach getHook createHook repos)))"

datatype ensure_result = WebhooksSkipped | WebhooksMisconfigured string | WebhooksEnsured "string list option"

text \<open>\<open>fullUrl\<close> is the joined URL, or the error of joining it.\<close>

definition ensureWebhooks ::
  "server_config \<Rightarrow> string + string \<Rightarrow> (string \<Rightarrow> string \<Rightarrow> find_hook option) \<Rightarrow> (string \<Rightarrow> string \<Rightarrow> string option option) \<Rightarrow>
   string list \<Rightarrow> ensure_result" where
  "ensureWebhooks cfg fullUrl getHook createHook repos =
    (if \<not> sv_EnsureWebhooks cfg then WebhooksSkipped
     else if \<not> sv_MonitorAllApplications cfg then WebhooksMisconfigured ''must enable 'monitor-all-applications' to create webhooks''
     else if sv_WebhookUrlBase cfg = [] then WebhooksMisconfigured ''must define 'webhook-url-base' to create webhooks''
     else case fullUrl of
       Inl err \<Rightarrow> WebhooksMisconfigured (''failed to create a webhook url: '' @ err)
     | Inr url \<Rightarrow> WebhooksEnsured (ensureEach (\<lambda>repo. getHook repo url) (\<lambda>repo. createHook repo url) repos))"

section \<open>The interface to the clients\<close>

text \<open>What the server relies on of \<open>ParseHook\<close>: a request it returns may be checked.\<close>

locale webhook_client =
  fixes parse :: "string \<Rightarrow> (hook_error + pull_request) option"
    and may_check :: "pull_request \<Rightarrow> bool"
  assumes accepted: "parse payload = Some (Inr pr) \<Longrightarrow> may_check pr"
begin

lemma queued_may_check:
  assumes "groupHandler verified parse labelFilter replan ps qm = Some (resp, qm', posted)" "qm' \<noteq> qm \<or> posted \<noteq> None \<or> resp = Accepted"
  shows "\<exists>payload pr. verified = Inr payload \<and> parse payload = Some (Inr pr) \<and> may_check pr \<and> passesLabelFilter labelFilter pr \<and>
    qm' = snd (Enqueue ps pr qm)"
proof -
  from assms obtain payload pr where p: "verified = Inr payload" "parse payload = Some (Inr pr)"
    by (auto simp: groupHandler_def split: sum.splits option.splits hook_error.splits)
  then have "passesLabelFilter labelFilter pr \<and> qm' = snd (Enqueue ps pr qm)"
    using assms by (auto simp: groupHandler_def split: if_splits prod.splits enqueue_result.splits)
  then show ?thesis using p accepted by blast
qed

end

text \<open>A pull request that is not from a fork, or from one that the configuration admits.\<close>

definition github_admits :: "github_client \<Rightarrow> pull_request \<Rightarrow> bool" where
  "github_admits c pr \<longleftrightarrow> (\<exists>p. pr = buildRepo c p \<and> (gc_AllowForkPullRequests (gcl_cfg c) \<or> \<not> isFork (Some p)))"

definition gitlab_admits :: "gitlab_client \<Rightarrow> pull_request \<Rightarrow> bool" where
  "gitlab_admits c pr \<longleftrightarrow> (\<exists>mr pj. pr = gitlabBuildRepo c mr pj \<and>
     (glc_AllowForkPullRequests (gll_cfg c) \<or> \<not> gitlabIsFork (mr_SourceProjectID mr) (mr_TargetProjectID mr)))"

lemma accepted_branch:
  "(if a then Some (Inl z) else if b then X else if d then (if e then Some (Inl z) else X) else Some (Inl z)) = Some (Inr pr) \<Longrightarrow>
    \<not> a \<and> X = Some (Inr pr)"
  by (cases a; cases b; cases d; cases e) simp_all

lemma githubParseHook_admits:
  assumes "githubParseHook c get payload = Some (Inr pr)"
  shows "github_admits c pr"
proof -
  have r: "\<not> rejectFork c (Some p) \<Longrightarrow> github_admits c (buildRepo c p)" for p
    by (auto simp: github_admits_def rejectFork_def split: if_splits)
  obtain e where e: "payload = Inr e" using assms by (cases payload) (auto simp: githubParseHook_def)
  show ?thesis
  proof (cases e)
    case (PullRequestEvent action baseChange q)
    have "\<not> rejectFork c q \<and> map_option Inr (map_option (buildRepo c) q) = Some (Inr pr :: hook_error + pull_request)"
      by (rule accepted_branch[OF assms[unfolded e githubParseHook_def buildRepoFromEvent_def sum.case PullRequestEvent gh_event.case]])
    then show ?thesis using r by (cases q) auto
  next
    case (IssueCommentEvent action comment)
    then have "buildRepoFromComment c get comment = Inr pr"
      using assms unfolding e githubParseHook_def sum.case gh_event.case IssueCommentEvent
      by (cases "action = ''created''"; cases "ce_IsPullRequest comment";
          cases "EqualFold (trim_space (ce_Body comment)) (trim_space (gc_ReplanCommentMessage (gcl_cfg c)))")
        (simp_all only: if_True if_False option.inject sum.distinct simp_thms)
    then show ?thesis using r by (auto simp: buildRepoFromComment_def split: sum.splits if_splits)
  next
    case OtherEvent
    then show ?thesis using assms unfolding e githubParseHook_def by simp
  qed
qed

lemma gitlabParseHook_admits:
  assumes "gitlabParseHook c payload = Inr pr"
  shows "gitlab_admits c pr"
  using assms
  by (auto simp: gitlabParseHook_def gitlab_admits_def gitlabRejectFork_def split: sum.splits gl_event.splits if_splits)

interpretation gh_hooks: webhook_client "\<lambda>body. githubParseHook c get (decode body)" "github_admits c"
  for c get decode
  by unfold_locales (rule githubParseHook_admits)

interpretation gl_hooks: webhook_client "\<lambda>body. Some (gitlabParseHook c (decode body))" "gitlab_admits c"
  for c decode
  by unfold_locales (auto intro: gitlabParseHook_admits)

section \<open>Properties\<close>

lemma labelLoop_iff:
  "labelLoop f found labels \<longleftrightarrow> labelPrefix @ f \<in> set labels \<or> \<not> found \<and> f = [] \<and> list_all (\<lambda>l. \<not> has_prefix l labelPrefix) labels"
proof (induction labels arbitrary: found)
  case (Cons l labels)
  have "l = labelPrefix @ f \<longleftrightarrow> has_prefix l labelPrefix \<and> trim_prefix l labelPrefix = f"
    by (auto simp: has_prefix_iff)
  then show ?case
    by (cases "has_prefix l labelPrefix"; cases "trim_prefix l labelPrefix = f") (simp_all add: Cons.IH eq_commute[of l])
qed auto

text \<open>C5 Only what may be checked reaches a queue: when a webhook changes the queues, posts a message or is
  accepted, its signature was verified, its pull request has the label for this instance (or no
  label is configured and it has none for another), and, unless forks are allowed, its head is a
  branch of the repository itself, by whose name it is checked.\<close>

theorem only_admitted_requests_are_queued:
  assumes "\<not> gc_AllowForkPullRequests (gcl_cfg c)"
    and "groupHandler verified (\<lambda>body. githubParseHook c get (decode body)) labelFilter replan ps qm = Some (resp, qm', posted)"
    and "qm' \<noteq> qm \<or> posted \<noteq> None \<or> resp = Accepted"
    and "\<not> glc_AllowForkPullRequests (gll_cfg c')"
    and "groupHandler verified' (\<lambda>body. Some (gitlabParseHook c' (decode' body))) labelFilter replan ps qm = Some (resp', qm'', posted')"
    and "qm'' \<noteq> qm \<or> posted' \<noteq> None \<or> resp' = Accepted"
  shows "(\<exists>body p pr. verified = Inr body \<and> pr = buildRepo c p \<and> \<not> isFork (Some p) \<and> pr_HeadRef pr = getStr (gp_Head p) br_Ref \<and>
      (labelPrefix @ labelFilter \<in> set (pr_Labels pr) \<or> labelFilter = [] \<and> list_all (\<lambda>l. \<not> has_prefix l labelPrefix) (pr_Labels pr)) \<and>
      qm' = snd (Enqueue ps pr qm)) \<and>
    (\<exists>body mr pj pr. verified' = Inr body \<and> pr = gitlabBuildRepo c' mr pj \<and> mr_SourceProjectID mr = mr_TargetProjectID mr \<and>
      pr_HeadRef pr = mr_SourceBranch mr \<and>
      (labelPrefix @ labelFilter \<in> set (pr_Labels pr) \<or> labelFilter = [] \<and> list_all (\<lambda>l. \<not> has_prefix l labelPrefix) (pr_Labels pr)) \<and>
      qm'' = snd (Enqueue ps pr qm))"
proof
  obtain body pr where g: "verified = Inr body" "github_admits c pr" "passesLabelFilter labelFilter pr" "qm' = snd (Enqueue ps pr qm)"
    using gh_hooks.queued_may_check[OF assms(2,3)] by blast
  then obtain p where p: "pr = buildRepo c p" "\<not> isFork (Some p)" using assms(1) by (auto simp: github_admits_def)
  then have "pr_HeadRef pr = getStr (gp_Head p) br_Ref" by (simp add: buildRepo_def Let_def headRevision_def)
  then show "\<exists>body p pr. verified = Inr body \<and> pr = buildRepo c p \<and> \<not> isFork (Some p) \<and> pr_HeadRef pr = getStr (gp_Head p) br_Ref \<and>
      (labelPrefix @ labelFilter \<in> set (pr_Labels pr) \<or> labelFilter = [] \<and> list_all (\<lambda>l. \<not> has_prefix l labelPrefix) (pr_Labels pr)) \<and>
      qm' = snd (Enqueue ps pr qm)"
    using g p by (auto simp: passesLabelFilter_def labelLoop_iff)
next
  obtain body pr where l: "verified' = Inr body" "gitlab_admits c' pr" "passesLabelFilter labelFilter pr" "qm'' = snd (Enqueue ps pr qm)"
    using gl_hooks.queued_may_check[OF assms(5,6)] by blast
  then obtain mr pj where p: "pr = gitlabBuildRepo c' mr pj" "mr_SourceProjectID mr = mr_TargetProjectID mr"
    using assms(4) by (auto simp: gitlab_admits_def gitlabIsFork_def)
  then have "pr_HeadRef pr = mr_SourceBranch mr" by (simp add: gitlabBuildRepo_def gitlabHeadRevision_def gitlabIsFork_def)
  then show "\<exists>body mr pj pr. verified' = Inr body \<and> pr = gitlabBuildRepo c' mr pj \<and> mr_SourceProjectID mr = mr_TargetProjectID mr \<and>
      pr_HeadRef pr = mr_SourceBranch mr \<and>
      (labelPrefix @ labelFilter \<in> set (pr_Labels pr) \<or> labelFilter = [] \<and> list_all (\<lambda>l. \<not> has_prefix l labelPrefix) (pr_Labels pr)) \<and>
      qm'' = snd (Enqueue ps pr qm)"
    using l p by (auto simp: passesLabelFilter_def labelLoop_iff)
qed

definition demo_branch :: "string \<Rightarrow> gh_branch" where
  "demo_branch ref = \<lparr>br_Ref = Some ref, br_SHA = Some ''cafe'', br_Repo = Some \<lparr>rp_Name = Some ''r'', rp_FullName = Some ''o/r'',
     rp_DefaultBranch = Some ''main'', rp_CloneURL = Some ''https://github.com/o/r'', rp_Owner = None\<rparr>\<rparr>"

definition demo_gh_pr :: gh_pr where
  "demo_gh_pr = demo_files_pr\<lparr>gp_Head := Some (demo_branch ''feature''), gp_Base := Some (demo_branch ''main'')\<rparr>"

definition demo_gl_mr :: gl_merge_request where
  "demo_gl_mr = \<lparr>mr_IID = 3, mr_SourceProjectID = 8, mr_TargetProjectID = 8, mr_SourceBranch = ''feature'', mr_TargetBranch = ''main'',
     mr_LastCommitID = ''cafe'', mr_Title = [], mr_Description = [], mr_Labels = [''kubechecks:prod'']\<rparr>"

definition demo_gl_pj :: gl_project where
  "demo_gl_pj = \<lparr>pj_Name = ''r'', pj_DefaultBranch = ''main'', pj_PathWithNamespace = ''o/r'', pj_GitHTTPURL = ''https://gitlab.com/o/r''\<rparr>"

definition demo_labelled_pr :: gh_pr where
  "demo_labelled_pr = demo_gh_pr\<lparr>gp_Labels := [Some ''kubechecks:prod'']\<rparr>"

definition demo_hook_parsers :: url_parsers where
  "demo_hook_parsers = \<lparr>up_http = (\<lambda>s. Inr \<lparr>u_Host = ''h'', u_Path = ''/o/r'', u_Query = []\<rparr>), up_git = (\<lambda>_. Inl ''no'')\<rparr>"

theorem only_admitted_requests_are_queued_witness:
  "\<exists>qm' qm''.
    groupHandler (Inr ''x'') (\<lambda>body. githubParseHook demo_gh_client (\<lambda>_ _ _. Inl ''no'') ((\<lambda>_. Inr (PullRequestEvent ''opened'' False (Some demo_labelled_pr))) body))
      ''prod'' ''again'' demo_hook_parsers (NewServer 5) = Some (Accepted, qm', None) \<and>
    groupHandler (Inr ''x'') (\<lambda>body. Some (gitlabParseHook demo_gl_client ((\<lambda>_. Inr (MergeEvent ''open'' [] demo_gl_mr demo_gl_pj)) body)))
      ''prod'' ''again'' demo_hook_parsers (NewServer 5) = Some (Accepted, qm'', None) \<and>
    (\<exists>p pr. \<not> isFork (Some p) \<and> qm' = snd (Enqueue demo_hook_parsers pr (NewServer 5)))"
proof -
  let ?gh = "groupHandler (Inr ''x'') (\<lambda>body. githubParseHook demo_gh_client (\<lambda>_ _ _. Inl ''no'') ((\<lambda>_. Inr (PullRequestEvent ''opened'' False (Some demo_labelled_pr))) body))
      ''prod'' ''again'' demo_hook_parsers (NewServer 5)"
  let ?gl = "groupHandler (Inr ''x'') (\<lambda>body. Some (gitlabParseHook demo_gl_client ((\<lambda>_. Inr (MergeEvent ''open'' [] demo_gl_mr demo_gl_pj)) body)))
      ''prod'' ''again'' demo_hook_parsers (NewServer 5)"
  have f: "\<not> gc_AllowForkPullRequests (gcl_cfg demo_gh_client)" "\<not> glc_AllowForkPullRequests (gll_cfg demo_gl_client)"
    by (simp_all add: demo_gh_client_def demo_gl_client_def gl_demo_config_def)
  have "map_option (\<lambda>(r, _, p). (r, p)) ?gh = Some (Accepted, None)" "map_option (\<lambda>(r, _, p). (r, p)) ?gl = Some (Accepted, None)"
    by code_simp+
  then obtain qm' qm'' where h: "?gh = Some (Accepted, qm', None)" "?gl = Some (Accepted, qm'', None)"
    by (auto simp del: One_nat_def)
  show ?thesis
    using only_admitted_requests_are_queued[OF f(1) h(1) _ f(2) h(2)] h by blast
qed

section \<open>Labels and webhooks\<close>

text \<open>A label of its own is found wherever it stands; the comment on the function says that a pull request
  without any label of the kind passes, which it does only when no filter is configured.\<close>

lemma passesLabelFilter_iff:
  "passesLabelFilter f pr \<longleftrightarrow> labelPrefix @ f \<in> set (pr_Labels pr) \<or> f = [] \<and> list_all (\<lambda>l. \<not> has_prefix l labelPrefix) (pr_Labels pr)"
  by (auto simp: passesLabelFilter_def labelLoop_iff)

lemma unlabelled_is_filtered: "pr_Labels pr = [] \<Longrightarrow> f \<noteq> [] \<Longrightarrow> \<not> passesLabelFilter f pr"
  by (simp add: passesLabelFilter_iff)

lemma ensureEach_creates_missing:
  assumes "list_all (\<lambda>r. getHook r \<noteq> None \<and> createHook r \<noteq> None) repos"
  shows "ensureEach getHook createHook repos = Some (filter (\<lambda>r. getHook r = Some ErrHookNotFound) repos)"
  using assms by (induction repos) (auto split: find_hook.splits)

text \<open>A repository URL that is not of the form owner/repository, such as one of a nested GitLab group that
  an application of the cluster uses, stops the start of a GitHub instance that ensures webhooks.\<close>

lemma nested_path_panics:
  assumes "parse url = Inr u" "u_Path u = ''/a/b/c''"
  shows "ensureEach (\<lambda>r. githubGetHookByUrl parse hooks r hookUrl) createHook (url # repos) = None"
proof -
  have "split_char slash (trim_suffix (trim_prefix ''/a/b/c'' ''/'') ''.git'') = [''a'', ''b'', ''c'']" by code_simp
  then show ?thesis by (simp add: githubGetHookByUrl_def parseRepo_def assms)
qed

text \<open>A clone URL that cannot be parsed is reported on the pull request as a full queue.\<close>

lemma bad_url_reported_as_full:
  assumes "parse body = Some (Inr pr)" "passesLabelFilter f pr" "Canonicalize ps (pr_CloneURL pr) = Inl err"
  shows "groupHandler (Inr body) parse f replan ps qm = Some (QueueFullNotified, qm, Some (pr, queueFullMessage replan))"
  using assms by (simp add: groupHandler_def Enqueue_def)

end
