(* ===== verification/FieldRemovals.thy ===== *)
theory FieldRemovals
  imports GoStrings
begin

text \<open>
  \<open>pkg/checks/diff/removals.go\<close>: what a server-side apply sync will remove, predicted from the owners
  of the fields.  Decoded JSON is a datatype in which an object is an association list; what the
  field path library does is reduced to what the code relies on: a set of paths is the list in
  which it is iterated, \<open>Has\<close> is membership, two elements of a path are equal as values, and the
  comparison of JSON values and the printing of a path are arguments.
\<close>

section \<open>Values and paths\<close>

datatype json =
    JNull
  | JBool bool
  | JNum string
  | JStr string
  | JList "json list"
  | JObj "(string \<times> json) list"

datatype path_element =
    FieldName string
  | KeyFields "(string \<times> json) list"
  | ItemValue json
  | ItemIndex nat

type_synonym field_path = "path_element list"

record ownedSet =
  os_owner :: string
  os_set :: "field_path list"

record retainedField =
  rf_path :: field_path
  rf_owners :: "string list"

record value_lib =
  vl_Equals :: "json \<Rightarrow> json \<Rightarrow> bool"
  vl_String :: "field_path \<Rightarrow> string"

section \<open>Navigation\<close>

text \<open>The loop over the fields of a key: those that the item has are compared; one that differs ends
  the match, and at least one must have been compared.\<close>

fun keyMatches :: "value_lib \<Rightarrow> (string \<times> json) list \<Rightarrow> (string \<times> json) list \<Rightarrow> bool \<Rightarrow> bool" where
  "keyMatches vl m [] matched = matched"
| "keyMatches vl m ((name, v) # rest) matched =
    (case map_of m name of
       None \<Rightarrow> keyMatches vl m rest matched
     | Some w \<Rightarrow> if \<not> vl_Equals vl w v then False else keyMatches vl m rest True)"

definition itemMatches :: "value_lib \<Rightarrow> path_element \<Rightarrow> nat \<Rightarrow> json \<Rightarrow> bool" where
  "itemMatches vl pe i item =
    (case pe of
       KeyFields key \<Rightarrow> (case item of JObj m \<Rightarrow> keyMatches vl m key False | _ \<Rightarrow> False)
     | ItemValue v \<Rightarrow> vl_Equals vl item v
     | ItemIndex k \<Rightarrow> k = i
     | FieldName _ \<Rightarrow> False)"

definition listIndex :: "value_lib \<Rightarrow> json list \<Rightarrow> path_element \<Rightarrow> nat option" where
  "listIndex vl l pe = find (\<lambda>i. itemMatches vl pe i (l ! i)) [0..<length l]"

definition json_step :: "value_lib \<Rightarrow> json \<Rightarrow> path_element \<Rightarrow> json option" where
  "json_step vl cur pe =
    (case pe of
       FieldName n \<Rightarrow> (case cur of JObj m \<Rightarrow> map_of m n | _ \<Rightarrow> None)
     | _ \<Rightarrow> (case cur of
               JList l \<Rightarrow> (case listIndex vl l pe of None \<Rightarrow> None | Some i \<Rightarrow> Some (l ! i))
             | _ \<Rightarrow> None))"

fun hasPath :: "value_lib \<Rightarrow> json \<Rightarrow> field_path \<Rightarrow> bool" where
  "hasPath vl cur [] = True"
| "hasPath vl cur (pe # p) = (case json_step vl cur pe of None \<Rightarrow> False | Some nxt \<Rightarrow> hasPath vl nxt p)"

fun hasPrefix :: "field_path \<Rightarrow> field_path \<Rightarrow> bool" where
  "hasPrefix p [] = True"
| "hasPrefix [] (e # es) = False"
| "hasPrefix (d # p) (e # es) = (if e = d then hasPrefix p es else False)"

text \<open>The shortest prefix that the target lacks; the loop starts at the first element.\<close>

fun removalLoop :: "value_lib \<Rightarrow> json \<Rightarrow> field_path \<Rightarrow> nat \<Rightarrow> nat \<Rightarrow> field_path" where
  "removalLoop vl target p i 0 = p"
| "removalLoop vl target p i (Suc n) =
    (if \<not> hasPath vl target (take i p) then take i p else removalLoop vl target p (Suc i) n)"

definition removalPoint :: "value_lib \<Rightarrow> json \<Rightarrow> field_path \<Rightarrow> field_path" where
  "removalPoint vl target p = removalLoop vl target p 1 (length p)"

section \<open>Removal\<close>

text \<open>\<open>removePath\<close> walks to the parent and deletes there; a shortened list is put back in its own
  parent (\<open>setInParent\<close>).  Here the walk rebuilds what it passes.  \<open>None\<close> is false: nothing
  is there to remove.\<close>

definition json_replace :: "value_lib \<Rightarrow> json \<Rightarrow> path_element \<Rightarrow> json \<Rightarrow> json" where
  "json_replace vl cur pe v =
    (case pe of
       FieldName n \<Rightarrow> (case cur of JObj m \<Rightarrow> JObj (map (\<lambda>(k, w). if k = n then (k, v) else (k, w)) m) | _ \<Rightarrow> cur)
     | _ \<Rightarrow> (case cur of
               JList l \<Rightarrow> (case listIndex vl l pe of None \<Rightarrow> cur | Some i \<Rightarrow> JList (l[i := v]))
             | _ \<Rightarrow> cur))"

definition removeLast :: "value_lib \<Rightarrow> json \<Rightarrow> path_element \<Rightarrow> json option" where
  "removeLast vl parent last_pe =
    (case last_pe of
       FieldName n \<Rightarrow>
         (case parent of
            JObj m \<Rightarrow> if map_of m n = None then None else Some (JObj (filter (\<lambda>(k, _). k \<noteq> n) m))
          | _ \<Rightarrow> None)
     | _ \<Rightarrow>
         (case parent of
            JList l \<Rightarrow> (case listIndex vl l last_pe of None \<Rightarrow> None | Some i \<Rightarrow> Some (JList (take i l @ drop (Suc i) l)))
          | _ \<Rightarrow> None))"

fun removePath :: "value_lib \<Rightarrow> json \<Rightarrow> field_path \<Rightarrow> json option" where
  "removePath vl obj [] = None"
| "removePath vl obj [pe] = removeLast vl obj pe"
| "removePath vl obj (pe # q # p) =
    (case json_step vl obj pe of
       None \<Rightarrow> None
     | Some nxt \<Rightarrow> map_option (json_replace vl obj pe) (removePath vl nxt (q # p)))"

section \<open>Owners\<close>

definition argoCDSSAManager :: string where "argoCDSSAManager = ''argocd-controller''"

text \<open>An entry of the managed fields; its fields are decoded by the library.\<close>

record managed_entry =
  mf_Manager :: string
  mf_Operation :: string
  mf_Subresource :: string
  mf_Fields :: "(string + field_path list) option"

fun splitManagedFields ::
  "managed_entry list \<Rightarrow> field_path list option \<Rightarrow> ownedSet list \<Rightarrow> string + (field_path list option \<times> ownedSet list)" where
  "splitManagedFields [] applied others = Inr (applied, others)"
| "splitManagedFields (e # es) applied others =
    (case mf_Fields e of
       None \<Rightarrow> splitManagedFields es applied others
     | Some decoded \<Rightarrow>
         if mf_Subresource e \<noteq> [] then splitManagedFields es applied others
         else (case decoded of
                 Inl err \<Rightarrow> Inl (''failed to decode managed fields of '' @ mf_Manager e @ '': '' @ err)
               | Inr s \<Rightarrow>
                   if mf_Manager e = argoCDSSAManager \<and> mf_Operation e = ''Apply'' then splitManagedFields es (Some s) others
                   else splitManagedFields es applied
                          (others @ [\<lparr>os_owner = mf_Manager e @ ''/'' @ mf_Operation e, os_set = s\<rparr>])))"

definition isArgoCDResidue :: "string \<Rightarrow> bool" where
  "isArgoCDResidue owner = (owner = argoCDSSAManager @ ''/Update'' \<or> owner = ''argocd-server/Update'')"

definition ownersOf :: "ownedSet list \<Rightarrow> field_path \<Rightarrow> string list" where
  "ownersOf others p = map os_owner (filter (\<lambda>s. p \<in> set (os_set s)) others)"

definition ownedUnder :: "ownedSet list \<Rightarrow> field_path \<Rightarrow> bool" where
  "ownedUnder others pre = list_ex (\<lambda>s. list_ex (\<lambda>p. hasPrefix p pre) (os_set s)) others"

section \<open>The prediction\<close>

text \<open>What one path of the applied set adds to the removals, with the paths seen so far, and to the
  retained fields.\<close>

definition appliedStep ::
  "value_lib \<Rightarrow> json \<Rightarrow> ownedSet list \<Rightarrow> field_path list \<times> retainedField list \<Rightarrow> field_path \<Rightarrow>
   field_path list \<times> retainedField list" where
  "appliedStep vl target others acc p =
    (case acc of
       (removals, retained) \<Rightarrow>
         if hasPath vl target p then (removals, retained)
         else let owners = ownersOf others p in
           if owners \<noteq> [] then (removals, retained @ [\<lparr>rf_path = p, rf_owners = owners\<rparr>])
           else let r = removalPoint vl target p;
                    r = (if ownedUnder others r then p else r)
                in if vl_String vl r \<in> set (map (vl_String vl) removals) then (removals, retained)
                   else (removals @ [r], retained))"

definition residueOf :: "value_lib \<Rightarrow> json \<Rightarrow> field_path list option \<Rightarrow> ownedSet list \<Rightarrow> retainedField list" where
  "residueOf vl target applied others =
    concat (map (\<lambda>s. if \<not> isArgoCDResidue (os_owner s) then []
      else map (\<lambda>p. \<lparr>rf_path = p, rf_owners = ownersOf others p\<rparr>)
             (filter (\<lambda>p. \<not> (hasPath vl target p \<or> (case applied of None \<Rightarrow> False | Some a \<Rightarrow> p \<in> set a))) (os_set s))) others)"

definition removeEach :: "value_lib \<Rightarrow> json \<Rightarrow> field_path list \<Rightarrow> json \<times> bool" where
  "removeEach vl predicted removals =
    foldl (\<lambda>(obj, modified) r. case removePath vl obj r of None \<Rightarrow> (obj, modified) | Some obj' \<Rightarrow> (obj', True))
      (predicted, False) removals"

fun uniqueFrom :: "string list \<Rightarrow> string list" where
  "uniqueFrom [] = []"
| "uniqueFrom [s] = [s]"
| "uniqueFrom (s # t # ss) = (if s = t then uniqueFrom (t # ss) else s # uniqueFrom (t # ss))"

definition uniqueSorted :: "string list \<Rightarrow> string list" where
  "uniqueSorted xs = uniqueFrom (sort xs)"

text \<open>The fields grouped by the text of their path: the keys in the order of their first occurrence, and
  for each the first path and all owners.\<close>

definition dedupeStep ::
  "value_lib \<Rightarrow> string list \<times> (string \<Rightarrow> retainedField option) \<Rightarrow> retainedField \<Rightarrow>
   string list \<times> (string \<Rightarrow> retainedField option)" where
  "dedupeStep vl acc r =
    (case acc of
       (order, byPath) \<Rightarrow>
         let k = vl_String vl (rf_path r) in
         case byPath k of
           Some existing \<Rightarrow> (order, byPath(k \<mapsto> existing\<lparr>rf_owners := rf_owners existing @ rf_owners r\<rparr>))
         | None \<Rightarrow> (order @ [k], byPath(k \<mapsto> r)))"

definition dedupeRetained :: "value_lib \<Rightarrow> retainedField list \<Rightarrow> retainedField list" where
  "dedupeRetained vl xs =
    (case foldl (dedupeStep vl) ([], \<lambda>_. None) xs of
       (order, byPath) \<Rightarrow> map (\<lambda>k. let r = the (byPath k) in r\<lparr>rf_owners := uniqueSorted (rf_owners r)\<rparr>) (sort order))"

text \<open>The result has the predicted live state and whether it differs, and the fields kept.\<close>

definition applyFieldRemovals ::
  "value_lib \<Rightarrow> (string + json) option \<Rightarrow> bool \<Rightarrow> managed_entry list \<Rightarrow> json option \<Rightarrow>
   string + ((json option \<times> bool) \<times> retainedField list)" where
  "applyFieldRemovals vl predictedLive diffModified managedFields target =
    (case (target, predictedLive) of
       (Some obj, Some decoded) \<Rightarrow>
         (case splitManagedFields managedFields None [] of
            Inl err \<Rightarrow> Inl err
          | Inr (applied, others) \<Rightarrow>
              if applied = None \<and> others = [] then Inr ((None, diffModified), [])
              else (case decoded of
                      Inl err \<Rightarrow> Inl (''failed to unmarshal predicted live: '' @ err)
                    | Inr predicted \<Rightarrow>
                        let (removals, retained) =
                              foldl (appliedStep vl obj others) ([], []) (case applied of None \<Rightarrow> [] | Some a \<Rightarrow> a);
                            (result, modified) = removeEach vl predicted removals
                        in Inr ((if modified then Some result else None, diffModified \<or> modified),
                                dedupeRetained vl (retained @ residueOf vl obj applied others))))
     | _ \<Rightarrow> Inr ((None, diffModified), []))"

definition retainedLine :: "value_lib \<Rightarrow> retainedField \<Rightarrow> string" where
  "retainedLine vl r = ''! removed from git but kept on sync, still owned by '' @ str_join '', '' (rf_owners r) @ '': '' @
     vl_String vl (rf_path r) @ [nl]"

definition writeRetained :: "value_lib \<Rightarrow> retainedField list \<Rightarrow> string" where
  "writeRetained vl retained = concat (map (retainedLine vl) retained)"

section \<open>Removing a path\<close>

definition is_field :: "path_element \<Rightarrow> bool" where
  "is_field pe = (case pe of FieldName _ \<Rightarrow> True | _ \<Rightarrow> False)"

lemma is_fieldE: "is_field pe \<Longrightarrow> (\<And>n. pe = FieldName n \<Longrightarrow> P) \<Longrightarrow> P"
  by (cases pe) (auto simp: is_field_def)

lemma hasPrefix_iff: "hasPrefix p q \<longleftrightarrow> prefix q p"
  by (induction p q rule: hasPrefix.induct) auto

lemma hasPath_prefix: "hasPath vl obj p \<Longrightarrow> hasPrefix p q \<Longrightarrow> hasPath vl obj q"
proof (induction q arbitrary: obj p)
  case (Cons e q)
  then obtain p' where p: "p = e # p'" "hasPrefix p' q" by (cases p) (auto split: if_splits)
  then show ?case using Cons by (auto split: option.splits)
qed simp

lemma map_of_replace:
  "map_of (map (\<lambda>(k, w). if k = n then (k, v) else (k, w)) m) k = (if k = n then map_option (\<lambda>_. v) (map_of m n) else map_of m k)"
  by (induction m) auto

lemma map_of_drop: "map_of (filter (\<lambda>(k, _). k \<noteq> n) m) k = (if k = n then None else map_of m k)"
  by (induction m) auto

lemma json_step_replace:
  assumes "json_step vl obj (FieldName n) = Some nxt"
  shows "json_step vl (json_replace vl obj (FieldName n) v) e = (if e = FieldName n then Some v else json_step vl obj e)"
  using assms
  by (cases obj; cases e) (auto simp: json_step_def json_replace_def map_of_replace split: if_splits)

lemma json_step_removeLast:
  assumes "removeLast vl obj (FieldName n) = Some obj'"
  shows "json_step vl obj' e = (if e = FieldName n then None else json_step vl obj e)"
  using assms
  by (cases obj; cases e) (auto simp: json_step_def removeLast_def map_of_drop split: if_splits)

lemma removePath_None:
  "list_all is_field r \<Longrightarrow> r \<noteq> [] \<Longrightarrow> removePath vl obj r = None \<longleftrightarrow> \<not> hasPath vl obj r"
proof (induction vl obj r rule: removePath.induct)
  case (2 vl obj pe)
  then show ?case
    by (auto elim!: is_fieldE simp: removeLast_def json_step_def split: json.splits option.splits)
next
  case (3 vl obj pe q p)
  then show ?case by (auto split: option.splits)
qed simp

lemma removePath_hasPath:
  "removePath vl obj r = Some obj' \<Longrightarrow> list_all is_field r \<Longrightarrow>
    hasPath vl obj' q \<longleftrightarrow> hasPath vl obj q \<and> \<not> hasPrefix q r"
proof (induction vl obj r arbitrary: obj' q rule: removePath.induct)
  case (2 vl obj pe)
  then obtain n where n: "pe = FieldName n" by (auto elim: is_fieldE)
  note s = json_step_removeLast[of vl obj n obj']
  show ?case using 2 n s by (cases q) (auto split: option.splits)
next
  case (3 vl obj pe q' p)
  then obtain n where n: "pe = FieldName n" by (auto elim: is_fieldE)
  from 3(2) obtain nxt nxt' where x: "json_step vl obj pe = Some nxt" "removePath vl nxt (q' # p) = Some nxt'"
    "obj' = json_replace vl obj pe nxt'" by (auto split: option.splits)
  have f: "list_all is_field (q' # p)" using 3(3) by simp
  show ?case
  proof (cases q)
    case (Cons e es)
    show ?thesis
    proof (cases "e = pe")
      case True
      then show ?thesis
        using json_step_replace[of vl obj n nxt nxt' pe] 3(1)[OF x(1,2) f, of es] x n Cons by (simp split: option.splits)
    next
      case False
      then show ?thesis
        using json_step_replace[of vl obj n nxt nxt' e] x n Cons by (auto split: option.splits)
    qed
  qed simp
qed simp

lemma removeEach_Cons:
  "removeEach vl obj (r # rs) = (case removePath vl obj r of
     None \<Rightarrow> removeEach vl obj rs | Some obj' \<Rightarrow> (fst (removeEach vl obj' rs), True))"
proof -
  have "foldl (\<lambda>(obj, modified) r. case removePath vl obj r of None \<Rightarrow> (obj, modified) | Some obj' \<Rightarrow> (obj', True)) (o', True) rs =
      (fst (foldl (\<lambda>(obj, modified) r. case removePath vl obj r of None \<Rightarrow> (obj, modified) | Some obj' \<Rightarrow> (obj', True)) (o', False) rs), True)" for o'
    by (induction rs arbitrary: o') (auto split: option.splits)
  then show ?thesis by (simp add: removeEach_def split: option.splits)
qed

lemma removeEach_unmodified: "removeEach vl obj rs = (obj', False) \<Longrightarrow> obj' = obj"
proof (induction rs arbitrary: obj)
  case Nil
  then show ?case by (simp add: removeEach_def)
next
  case (Cons r rs)
  then show ?case by (auto simp: removeEach_Cons split: option.splits)
qed

lemma removeEach_hasPath:
  "list_all (\<lambda>r. r \<noteq> [] \<and> list_all is_field r) rs \<Longrightarrow>
    hasPath vl (fst (removeEach vl obj rs)) q \<longleftrightarrow> hasPath vl obj q \<and> \<not> list_ex (hasPrefix q) rs"
proof (induction rs arbitrary: obj)
  case Nil
  then show ?case by (simp add: removeEach_def)
next
  case (Cons r rs)
  show ?case
  proof (cases "removePath vl obj r")
    case None
    then have "\<not> hasPath vl obj r" using removePath_None[of r vl obj] Cons.prems by simp
    then have "hasPath vl obj q \<Longrightarrow> \<not> hasPrefix q r" using hasPath_prefix by blast
    then show ?thesis using Cons None by (auto simp: removeEach_Cons)
  next
    case (Some obj')
    then have "hasPath vl obj' q \<longleftrightarrow> hasPath vl obj q \<and> \<not> hasPrefix q r"
      using removePath_hasPath[of vl obj r obj' q] Cons.prems by simp
    then show ?thesis using Cons Some by (auto simp: removeEach_Cons)
  qed
qed

section \<open>Which paths are removed\<close>

lemma removalLoop_spec:
  "\<not> hasPath vl target p \<Longrightarrow> 1 \<le> i \<Longrightarrow> i + n = length p + 1 \<Longrightarrow>
    \<exists>j. 1 \<le> j \<and> removalLoop vl target p i n = take j p \<and> \<not> hasPath vl target (take j p)"
proof (induction n arbitrary: i)
  case 0
  then show ?case by (intro exI[of _ i]) simp
next
  case (Suc n)
  then show ?case
  proof (cases "hasPath vl target (take i p)")
    case True
    then show ?thesis using Suc.IH[of "Suc i"] Suc.prems by simp
  next
    case False
    then show ?thesis using Suc.prems by (intro exI[of _ i]) simp
  qed
qed

lemma removalPoint_spec:
  assumes "\<not> hasPath vl target p"
  shows "hasPrefix p (removalPoint vl target p) \<and> \<not> hasPath vl target (removalPoint vl target p)"
  using removalLoop_spec[OF assms, of 1 "length p"] by (auto simp: removalPoint_def hasPrefix_iff take_is_prefix)

definition step_inv :: "value_lib \<Rightarrow> json \<Rightarrow> ownedSet list \<Rightarrow> field_path list \<Rightarrow> field_path list \<times> retainedField list \<Rightarrow> bool" where
  "step_inv vl target others ps acc \<longleftrightarrow>
    (\<forall>r\<in>set (fst acc). \<not> hasPath vl target r \<and>
       (\<exists>p\<in>set ps. \<not> hasPath vl target p \<and> ownersOf others p = [] \<and> hasPrefix p r \<and> (ownedUnder others r \<longrightarrow> r = p))) \<and>
    (\<forall>p\<in>set ps. \<not> hasPath vl target p \<longrightarrow>
       (if ownersOf others p = [] then list_ex (hasPrefix p) (fst acc)
        else \<lparr>rf_path = p, rf_owners = ownersOf others p\<rparr> \<in> set (snd acc))) \<and>
    rf_path ` set (snd acc) \<subseteq> set ps"

lemma appliedStep_inv:
  assumes "inj_on (vl_String vl) S" "step_inv vl target others ps acc" "\<And>x. x \<in> set (ps @ [p]) \<Longrightarrow> set (prefixes x) \<subseteq> S"
  shows "step_inv vl target others (ps @ [p]) (appliedStep vl target others acc p)"
proof -
  obtain removals retained where acc: "acc = (removals, retained)" by (cases acc)
  define r where "r = (if ownedUnder others (removalPoint vl target p) then p else removalPoint vl target p)"
  have sub: "set removals \<subseteq> S"
  proof
    fix r' assume "r' \<in> set removals"
    then obtain p' where "p' \<in> set ps" "prefix r' p'" using assms(2) unfolding step_inv_def acc fst_conv hasPrefix_iff by blast
    then show "r' \<in> S" using assms(3)[of p'] by (auto simp: in_set_prefixes)
  qed
  have r: "\<not> hasPath vl target r" "hasPrefix p r" "ownedUnder others r \<longrightarrow> r = p" if "\<not> hasPath vl target p"
    using removalPoint_spec[OF that] that by (auto simp: r_def hasPrefix_iff)
  have m: "vl_String vl r \<in> set (map (vl_String vl) removals) \<longleftrightarrow> r \<in> set removals" if "\<not> hasPath vl target p"
  proof -
    have "r \<in> S" using r(2)[OF that] assms(3)[of p] by (auto simp: hasPrefix_iff in_set_prefixes)
    then show ?thesis using sub inj_on_image_mem_iff[OF assms(1), of r "set removals"] by simp
  qed
  consider "hasPath vl target p" | "\<not> hasPath vl target p" "ownersOf others p \<noteq> []"
    | "\<not> hasPath vl target p" "ownersOf others p = []" by blast
  then show ?thesis
  proof cases
    case 3
    have "appliedStep vl target others acc p = (if r \<in> set removals then removals else removals @ [r], retained)"
      using 3 m[OF 3(1)] by (simp add: appliedStep_def acc Let_def r_def[symmetric])
    then show ?thesis using assms(2) 3 r[OF 3(1)] by (auto simp: step_inv_def acc list_ex_iff)
  qed (use assms(2) in \<open>auto simp: step_inv_def appliedStep_def acc Let_def list_ex_iff\<close>)
qed

lemma applied_inv:
  assumes "inj_on (vl_String vl) S" "\<And>x. x \<in> set ps \<Longrightarrow> set (prefixes x) \<subseteq> S"
  shows "step_inv vl target others ps (foldl (appliedStep vl target others) ([], []) ps)"
  using assms(2)
proof (induction ps rule: rev_induct)
  case Nil
  then show ?case by (simp add: step_inv_def)
next
  case (snoc p ps)
  have "step_inv vl target others ps (foldl (appliedStep vl target others) ([], []) ps)" using snoc by simp
  from appliedStep_inv[OF assms(1) this snoc.prems] show ?case by simp
qed

section \<open>Grouping the retained fields\<close>

definition group_inv :: "value_lib \<Rightarrow> retainedField list \<Rightarrow> string list \<times> (string \<Rightarrow> retainedField option) \<Rightarrow> bool" where
  "group_inv vl xs acc \<longleftrightarrow> distinct (fst acc) \<and> set (fst acc) = (\<lambda>x. vl_String vl (rf_path x)) ` set xs \<and> dom (snd acc) = set (fst acc) \<and>
    (\<forall>k r. snd acc k = Some r \<longrightarrow> vl_String vl (rf_path r) = k \<and> rf_path r \<in> rf_path ` set xs \<and>
       set (rf_owners r) = (\<Union>x\<in>{x \<in> set xs. vl_String vl (rf_path x) = k}. set (rf_owners x)))"

lemma dedupeStep_inv:
  assumes "group_inv vl xs acc"
  shows "group_inv vl (xs @ [r]) (dedupeStep vl acc r)"
proof -
  obtain order byPath where acc: "acc = (order, byPath)" by (cases acc)
  let ?k = "vl_String vl (rf_path r)"
  note I = assms[unfolded group_inv_def acc fst_conv snd_conv]
  have same: "{x \<in> set (xs @ [r]). vl_String vl (rf_path x) = k} =
      (if k = ?k then insert r {x \<in> set xs. vl_String vl (rf_path x) = k} else {x \<in> set xs. vl_String vl (rf_path x) = k})" for k
    by auto
  show ?thesis
  proof (cases "byPath ?k")
    case None
    then have "?k \<notin> dom byPath" by (simp add: domIff)
    then have "?k \<notin> set order" using I by blast
    then have "?k \<notin> (\<lambda>x. vl_String vl (rf_path x)) ` set xs" using I by simp
    then have e: "vl_String vl (rf_path x) \<noteq> ?k" "?k \<noteq> vl_String vl (rf_path x)" if "x \<in> set xs" for x
      using that imageI[of x "set xs" "\<lambda>x. vl_String vl (rf_path x)"] by metis+
    show ?thesis unfolding group_inv_def same using I None \<open>?k \<notin> set order\<close>
      by (auto simp: dedupeStep_def acc Let_def) (use e in metis)?
  next
    case (Some e)
    then have "?k \<in> dom byPath" by (rule domI)
    then have "?k \<in> set order" using I by blast
    then show ?thesis unfolding group_inv_def same using I Some by (auto simp: dedupeStep_def acc Let_def)
  qed
qed

lemma grouped: "group_inv vl xs (foldl (dedupeStep vl) ([], \<lambda>_. None) xs)"
proof (induction xs rule: rev_induct)
  case Nil
  then show ?case by (simp add: group_inv_def)
next
  case (snoc x xs)
  then show ?case using dedupeStep_inv by simp
qed

lemma uniqueFrom_set: "set (uniqueFrom xs) = set xs"
  by (induction xs rule: uniqueFrom.induct) auto

lemma uniqueFrom_sorted: "sorted xs \<Longrightarrow> sorted (uniqueFrom xs) \<and> distinct (uniqueFrom xs)"
proof (induction xs rule: uniqueFrom.induct)
  case (3 s t ss)
  then have "t \<notin> set ss \<or> True" by simp
  have "s \<notin> set (t # ss)" if "s \<noteq> t"
    using 3(3) that by auto
  then show ?case using 3 uniqueFrom_set[of "t # ss"] by auto
qed auto

lemma uniqueSorted_spec: "set (uniqueSorted xs) = set xs" "sorted (uniqueSorted xs)" "distinct (uniqueSorted xs)"
  using uniqueFrom_sorted[of "sort xs"] by (auto simp: uniqueSorted_def uniqueFrom_set)

lemma dedupeRetained_spec:
  shows "map (\<lambda>r. vl_String vl (rf_path r)) (dedupeRetained vl xs) = sorted_list_of_set ((\<lambda>x. vl_String vl (rf_path x)) ` set xs)"
    and "rf \<in> set (dedupeRetained vl xs) \<Longrightarrow> sorted (rf_owners rf) \<and> distinct (rf_owners rf) \<and>
      rf_path rf \<in> rf_path ` set xs \<and>
      set (rf_owners rf) = (\<Union>x\<in>{x \<in> set xs. vl_String vl (rf_path x) = vl_String vl (rf_path rf)}. set (rf_owners x))"
proof -
  obtain order byPath where g: "foldl (dedupeStep vl) ([], \<lambda>_. None) xs = (order, byPath)" by (metis prod.exhaust)
  note I = grouped[of vl xs, unfolded g group_inv_def fst_conv snd_conv]
  have k: "vl_String vl (rf_path (the (byPath k))) = k" if "k \<in> set order" for k
    using I that by (metis domD option.sel)
  have d: "dedupeRetained vl xs = map (\<lambda>k. (the (byPath k))\<lparr>rf_owners := uniqueSorted (rf_owners (the (byPath k)))\<rparr>) (sort order)"
    by (simp add: dedupeRetained_def g Let_def)
  have "map (\<lambda>r. vl_String vl (rf_path r)) (dedupeRetained vl xs) = map (\<lambda>k. k) (sort order)"
    unfolding d map_map by (rule map_cong) (simp_all add: k)
  moreover have "sort order = sorted_list_of_set (set order)"
    unfolding sorted_list_of_set_sort_remdups using I by (simp only: distinct_remdups_id)
  ultimately show "map (\<lambda>r. vl_String vl (rf_path r)) (dedupeRetained vl xs) = sorted_list_of_set ((\<lambda>x. vl_String vl (rf_path x)) ` set xs)"
    using I by simp
  show "sorted (rf_owners rf) \<and> distinct (rf_owners rf) \<and> rf_path rf \<in> rf_path ` set xs \<and>
      set (rf_owners rf) = (\<Union>x\<in>{x \<in> set xs. vl_String vl (rf_path x) = vl_String vl (rf_path rf)}. set (rf_owners x))"
    if "rf \<in> set (dedupeRetained vl xs)"
  proof -
    from that obtain key where key: "key \<in> set order"
      "rf = (the (byPath key))\<lparr>rf_owners := uniqueSorted (rf_owners (the (byPath key)))\<rparr>" by (auto simp: d)
    then obtain r where r: "byPath key = Some r" using I by (metis domD)
    then show ?thesis using I key uniqueSorted_spec[of "rf_owners r"] k[OF key(1)] by auto
  qed
qed

lemma dedupe_keeps:
  assumes "inj_on (vl_String vl) S" "rf_path ` set xs \<subseteq> S" "x \<in> set xs"
  shows "\<exists>rf\<in>set (dedupeRetained vl xs). rf_path rf = rf_path x"
proof -
  have k: "vl_String vl ` rf_path ` set (dedupeRetained vl xs) = vl_String vl ` rf_path ` set xs"
    using arg_cong[OF dedupeRetained_spec(1)[of vl xs], of set] by (simp add: image_image)
  have "rf_path ` set (dedupeRetained vl xs) \<subseteq> rf_path ` set xs"
    using dedupeRetained_spec(2)[of _ vl xs] by blast
  then show ?thesis using inj_on_image_eq_iff[OF assms(1) _ assms(2)] k assms(2,3) by (metis imageE imageI order_trans)
qed

section \<open>Properties\<close>

lemma applyFieldRemovals_parts:
  assumes "splitManagedFields entries None [] = Inr (Some applied, others)"
    and "applyFieldRemovals vl (Some (Inr predicted)) modified entries (Some target) = Inr ((res, m), retained)"
  obtains removals kept where "foldl (appliedStep vl target others) ([], []) applied = (removals, kept)"
    "(case res of None \<Rightarrow> predicted | Some r \<Rightarrow> r) = fst (removeEach vl predicted removals)"
    "retained = dedupeRetained vl (kept @ residueOf vl target (Some applied) others)"
proof -
  obtain removals kept where f: "foldl (appliedStep vl target others) ([], []) applied = (removals, kept)" by (metis prod.exhaust)
  obtain out b where e: "removeEach vl predicted removals = (out, b)" by (metis prod.exhaust)
  have "res = (if b then Some out else None) \<and> retained = dedupeRetained vl (kept @ residueOf vl target (Some applied) others)"
    using assms f e by (auto simp: applyFieldRemovals_def Let_def split: if_splits)
  then show thesis using that[OF f] e removeEach_unmodified[of vl predicted removals out] by (cases b) auto
qed


text \<open>Objects with one value per key, which is what decoding produces and what removing a path leaves.\<close>

fun wf_json :: "json \<Rightarrow> bool" where
  "wf_json (JList l) = (\<forall>v\<in>set l. wf_json v)"
| "wf_json (JObj m) = (distinct (map fst m) \<and> (\<forall>e\<in>set m. wf_json (snd e)))"
| "wf_json _ = True"

lemma wf_json_step: "wf_json obj \<Longrightarrow> json_step vl obj pe = Some nxt \<Longrightarrow> wf_json nxt"
  by (cases obj; cases pe)
    (auto simp: json_step_def listIndex_def find_Some_iff split: option.splits dest!: map_of_SomeD)

lemma keys_replace: "map fst (map (\<lambda>(k, w). if k = n then (k, v) else (k, w)) m) = map fst m"
  by (induction m) auto

lemma wf_json_replace:
  assumes "wf_json obj" "wf_json v"
  shows "wf_json (json_replace vl obj pe v)"
proof -
  have "wf_json (JObj (map (\<lambda>(k, w). if k = n then (k, v) else (k, w)) m))" if "wf_json (JObj m)" for n m
    using that assms(2) unfolding wf_json.simps keys_replace by (auto split: if_splits)
  moreover have "wf_json (JList (l[i := v]))" if "wf_json (JList l)" for l i
    using that assms(2) by (auto dest: set_update_subset_insert[THEN subsetD])
  ultimately show ?thesis
    using assms(1) by (cases obj; cases pe) (simp_all add: json_replace_def del: wf_json.simps split: option.split)
qed

lemma wf_removeLast: "wf_json obj \<Longrightarrow> removeLast vl obj pe = Some obj' \<Longrightarrow> wf_json obj'"
proof -
  assume w: "wf_json obj" and r: "removeLast vl obj pe = Some obj'"
  have "distinct (map fst m) \<Longrightarrow> distinct (map fst (filter P m))" for P and m :: "(string \<times> json) list"
    by (simp add: distinct_map_filter)
  then show ?thesis
    using w r by (cases obj; cases pe)
      (auto simp: removeLast_def split: if_splits option.splits dest!: set_take_subset[THEN subsetD] set_drop_subset[THEN subsetD])
qed

lemma wf_removePath: "wf_json obj \<Longrightarrow> removePath vl obj r = Some obj' \<Longrightarrow> wf_json obj'"
proof (induction vl obj r arbitrary: obj' rule: removePath.induct)
  case (2 vl obj pe)
  then show ?case using wf_removeLast by simp
next
  case (3 vl obj pe q p)
  then show ?case using wf_json_step wf_json_replace by (auto split: option.splits)
qed simp

lemma wf_removeEach: "wf_json obj \<Longrightarrow> wf_json (fst (removeEach vl obj rs))"
proof (induction rs arbitrary: obj)
  case Nil
  then show ?case by (simp add: removeEach_def)
next
  case (Cons r rs)
  then show ?case using wf_removePath by (auto simp: removeEach_Cons split: option.splits)
qed

text \<open>C32 Predicting removals yields a well-formed state: whatever paths the managed fields name, through
  lists as well, the predicted object keeps one value per key at every depth, and the fields that
  are reported come in the order of their paths, each path and each of its owners once.\<close>

theorem prediction_is_well_formed:
  assumes "wf_json predicted"
    and "applyFieldRemovals vl (Some (Inr predicted)) modified entries target = Inr ((res, m), retained)"
  shows "(\<forall>after. res = Some after \<longrightarrow> wf_json after) \<and>
    sorted (map (\<lambda>r. vl_String vl (rf_path r)) retained) \<and> distinct (map (\<lambda>r. vl_String vl (rf_path r)) retained) \<and>
    list_all (\<lambda>r. sorted (rf_owners r) \<and> distinct (rf_owners r)) retained"
proof -
  have d: "sorted (map (\<lambda>r. vl_String vl (rf_path r)) (dedupeRetained vl xs)) \<and>
      distinct (map (\<lambda>r. vl_String vl (rf_path r)) (dedupeRetained vl xs)) \<and>
      list_all (\<lambda>r. sorted (rf_owners r) \<and> distinct (rf_owners r)) (dedupeRetained vl xs)" for xs
    using dedupeRetained_spec(2)[of _ vl xs] unfolding dedupeRetained_spec(1) list_all_iff by simp
  have "retained = [] \<and> res = None \<or> (\<exists>xs. retained = dedupeRetained vl xs) \<and> (\<forall>after. res = Some after \<longrightarrow> wf_json after)"
  proof (cases target)
    case (Some obj)
    show ?thesis
    proof (cases "splitManagedFields entries None []")
      case (Inr ao)
      obtain applied others where ao: "ao = (applied, others)" by (cases ao)
      obtain removals kept where f: "foldl (appliedStep vl obj others) ([], []) (case applied of None \<Rightarrow> [] | Some a \<Rightarrow> a) = (removals, kept)"
        by (metis prod.exhaust)
      obtain out b where e: "removeEach vl predicted removals = (out, b)" by (metis prod.exhaust)
      then have "wf_json out" using wf_removeEach[OF assms(1), of vl removals] by simp
      then show ?thesis using assms(2) Some Inr ao f e
        by (auto simp: applyFieldRemovals_def Let_def split: if_splits)
    qed (use assms(2) Some in \<open>simp add: applyFieldRemovals_def\<close>)
  qed (use assms(2) in \<open>simp add: applyFieldRemovals_def\<close>)
  then show ?thesis using d by auto
qed

definition demo_lib :: value_lib where
  "demo_lib = \<lparr>vl_Equals = (=), vl_String = (\<lambda>p. concat (map (\<lambda>pe. case pe of FieldName n \<Rightarrow> ''.'' @ n | _ \<Rightarrow> ''[]'') p))\<rparr>"

text \<open>Git dropped the replicas, which a scaler also owns, and a label that only ArgoCD owned.\<close>

definition demo_live :: json where
  "demo_live = JObj [(''labels'', JObj [(''app'', JStr ''w''), (''old'', JStr ''x'')]), (''replicas'', JNum ''3'')]"

definition demo_target :: json where
  "demo_target = JObj [(''labels'', JObj [(''app'', JStr ''w'')])]"

definition demo_applied :: "field_path list" where
  "demo_applied = [[FieldName ''labels'', FieldName ''app''], [FieldName ''labels'', FieldName ''old''], [FieldName ''replicas'']]"

definition demo_entries :: "managed_entry list" where
  "demo_entries =
    [\<lparr>mf_Manager = ''argocd-controller'', mf_Operation = ''Apply'', mf_Subresource = [], mf_Fields = Some (Inr demo_applied)\<rparr>,
     \<lparr>mf_Manager = ''hpa'', mf_Operation = ''Update'', mf_Subresource = [], mf_Fields = Some (Inr [[FieldName ''replicas'']])\<rparr>]"

theorem prediction_is_well_formed_witness:
  "wf_json (JObj [(''labels'', JObj [(''app'', JStr ''w'')]), (''replicas'', JNum ''3'')]) \<and>
   sorted (map (\<lambda>r. vl_String demo_lib (rf_path r)) [\<lparr>rf_path = [FieldName ''replicas''], rf_owners = [''hpa/Update'']\<rparr>])"
proof -
  have r: "applyFieldRemovals demo_lib (Some (Inr demo_live)) False demo_entries (Some demo_target) =
      Inr ((Some (JObj [(''labels'', JObj [(''app'', JStr ''w'')]), (''replicas'', JNum ''3'')]), True),
        [\<lparr>rf_path = [FieldName ''replicas''], rf_owners = [''hpa/Update'']\<rparr>])" by code_simp
  have "wf_json demo_live" by (simp add: demo_live_def)
  from prediction_is_well_formed[OF this r] show ?thesis by blast
qed


text \<open>A field that only the apply manager owns and git dropped is predicted to go with everything in it,
  also what another manager owns below it; the prefix chosen for it is checked for such fields, the
  field itself is not.\<close>

lemma foreign_field_below_is_removed:
  "\<exists>entries. fst (the (case applyFieldRemovals demo_lib (Some (Inr (JObj [(''spec'', JObj [(''x'', JStr ''1'')])]))) False entries (Some (JObj []))
      of Inl _ \<Rightarrow> None | Inr (p, _) \<Rightarrow> Some p)) = Some (JObj []) \<and>
    entries = [\<lparr>mf_Manager = ''argocd-controller'', mf_Operation = ''Apply'', mf_Subresource = [], mf_Fields = Some (Inr [[FieldName ''spec'']])\<rparr>,
      \<lparr>mf_Manager = ''op'', mf_Operation = ''Update'', mf_Subresource = [], mf_Fields = Some (Inr [[FieldName ''spec'', FieldName ''x'']])\<rparr>]"
  by (intro exI conjI[rotated], rule refl) code_simp

end
