(* ===== verification/DiffCheck.thy ===== *)
theory DiffCheck
  imports FieldRemovals MsgReport ArgoTypes
begin

text \<open>
  \<open>pkg/checks/diff/diff.go\<close>, \<open>serverside.go\<close> and \<open>diff_text.go\<close>: the comparison of the rendered
  manifests of an application with its live state.  A Kubernetes object is a type parameter; what
  argo-cd, gitops-engine, the YAML printer and the JSON decoder do with objects are the fields of
  the record \<open>diff_lib\<close>, and what the Argo CD API answers those of \<open>argo_answers\<close>.  Bytes are a
  string in which nil is empty.  Spans, log lines and metrics are left out.
\<close>

section \<open>Data\<close>

record resource_key =
  rk_Group :: string
  rk_Kind :: string
  rk_Namespace :: string
  rk_Name :: string

record resource_diff =
  rd_Group :: string
  rd_Kind :: string
  rd_Namespace :: string
  rd_Name :: string
  rd_NormalizedLiveState :: string
  rd_LiveState :: string
  rd_TargetState :: string
  rd_Modified :: bool

record 'o objKeyLiveTarget =
  ol_key :: resource_key
  ol_live :: "'o option"
  ol_target :: "'o option"

record diff_result =
  dr_Modified :: bool
  dr_PredictedLive :: string
  dr_NormalizedLive :: string

text \<open>The further fields of an application that the comparison reads; its sync options are absent when
  it has no sync policy.\<close>

record deployed_app = application +
  da_DestinationNamespace :: string
  da_Project :: string
  da_SyncOptions :: "string list option"

record argo_settings =
  st_AppLabelKey :: string
  st_TrackingMethod :: string
  st_InstallationID :: string
  st_ControllerNamespace :: string

record diff_request =
  dq_App :: deployed_app
  dq_JsonManifests :: "string list"
  dq_ArgoCDNamespace :: string
  dq_ArgoCDServerSideDiff :: bool
  dq_MaxBatchKB :: int

text \<open>What the Argo CD API answers: the two clients, the settings, the managed resources and the
  server-side comparison of some resources.\<close>

record argo_answers =
  aa_settingsClient :: "string option"
  aa_settings :: "string + argo_settings"
  aa_appClient :: "string option"
  aa_managed :: "string \<Rightarrow> string \<Rightarrow> string + resource_diff list"
  aa_serverSideDiff :: "string \<Rightarrow> string \<Rightarrow> string \<Rightarrow> resource_diff list \<Rightarrow> string list \<Rightarrow> string + resource_diff list"

record 'o diff_lib =
  dl_unmarshal :: "string \<Rightarrow> string + 'o"
  dl_LiveObjects :: "resource_diff list \<Rightarrow> string + 'o option list"
  dl_decodeState :: "string \<Rightarrow> string + 'o option"
  dl_IsHook :: "'o \<Rightarrow> bool"
  dl_Ignore :: "'o \<Rightarrow> bool"
  dl_IsCRD :: "'o \<Rightarrow> bool"
  dl_GetResourceKey :: "'o \<Rightarrow> resource_key"
  dl_keyString :: "resource_key \<Rightarrow> string"
  dl_Normalize :: "string \<Rightarrow> 'o list \<Rightarrow> (string \<times> string \<Rightarrow> bool) \<Rightarrow> string + 'o list"
  dl_SetAppInstance :: "argo_settings \<Rightarrow> string \<Rightarrow> string \<Rightarrow> 'o \<Rightarrow> string + 'o"
  dl_InstanceName :: "deployed_app \<Rightarrow> string \<Rightarrow> string"
  dl_buildConfig :: "deployed_app \<Rightarrow> argo_settings \<Rightarrow> string option"
  dl_StateDiff :: "deployed_app \<Rightarrow> argo_settings \<Rightarrow> 'o option \<Rightarrow> 'o option \<Rightarrow> string + diff_result"
  dl_HasOption :: "string list \<Rightarrow> string \<Rightarrow> bool"
  dl_HasAnnotationOption :: "'o \<Rightarrow> string \<Rightarrow> string \<Rightarrow> bool"
  dl_managedFields :: "string \<Rightarrow> managed_entry list option"
  dl_object :: "'o \<Rightarrow> json"
  dl_decodeJson :: "string \<Rightarrow> string + json"
  dl_encodeJson :: "json \<Rightarrow> string"
  dl_values :: value_lib
  dl_marshal :: "'o \<Rightarrow> string + string"
  dl_decodePredicted :: "string \<Rightarrow> 'o"
  dl_yaml :: "'o \<Rightarrow> string + string"
  dl_unified :: "string \<Rightarrow> string \<Rightarrow> nat \<Rightarrow> string"
  dl_decodeApp :: "string \<Rightarrow> string + application"

section \<open>Pairing live and target objects\<close>

definition keyOfResource :: "resource_diff \<Rightarrow> resource_key" where
  "keyOfResource res = \<lparr>rk_Group = rd_Group res, rk_Kind = rd_Kind res, rk_Namespace = rd_Namespace res, rk_Name = rd_Name res\<rparr>"

definition isCoreSecret :: "resource_key \<Rightarrow> bool" where
  "isCoreSecret key = (rk_Kind key = ''Secret'' \<and> rk_Group key = [])"

definition namespacedByGk :: "'o diff_lib \<Rightarrow> 'o option list \<Rightarrow> (string \<times> string \<Rightarrow> bool option)" where
  "namespacedByGk L liveObjs =
    foldl (\<lambda>m live. case live of None \<Rightarrow> m
             | Some obj \<Rightarrow> let key = dl_GetResourceKey L obj in m((rk_Group key, rk_Kind key) \<mapsto> rk_Namespace key \<noteq> []))
      (\<lambda>_. None) liveObjs"

definition IsNamespaced :: "(string \<times> string \<Rightarrow> bool option) \<Rightarrow> string \<times> string \<Rightarrow> bool" where
  "IsNamespaced m gk = (case m gk of None \<Rightarrow> False | Some b \<Rightarrow> b)"

definition groupObjsByKey ::
  "'o diff_lib \<Rightarrow> 'o list \<Rightarrow> 'o option list \<Rightarrow> string \<Rightarrow> string + (resource_key \<Rightarrow> 'o option)" where
  "groupObjsByKey L localObs liveObjs appNamespace =
    (case dl_Normalize L appNamespace localObs (IsNamespaced (namespacedByGk L liveObjs)) of
       Inl err \<Rightarrow> Inl err
     | Inr objs \<Rightarrow>
         Inr (foldl (\<lambda>m obj. if \<not> dl_IsHook L obj \<and> \<not> dl_Ignore L obj then m(dl_GetResourceKey L obj \<mapsto> obj) else m)
                (\<lambda>_. None) objs))"

text \<open>The loop over the managed resources takes each object it pairs out of the map; \<open>track\<close> is
  \<open>SetAppInstance\<close> with the settings filled in.\<close>

fun groupResources ::
  "'o diff_lib \<Rightarrow> ('o \<Rightarrow> string + 'o) \<Rightarrow> resource_diff list \<Rightarrow> (resource_key \<Rightarrow> 'o option) \<Rightarrow> 'o objKeyLiveTarget list \<Rightarrow>
   string + ((resource_key \<Rightarrow> 'o option) \<times> 'o objKeyLiveTarget list)" where
  "groupResources L track [] objs items = Inr (objs, items)"
| "groupResources L track (res # rest) objs items =
    (case dl_decodeState L (rd_NormalizedLiveState res) of
       Inl err \<Rightarrow> Inl err
     | Inr live \<Rightarrow>
         let key = keyOfResource res in
         if isCoreSecret key then groupResources L track rest (objs(key := None)) items
         else (case objs key of
                 None \<Rightarrow>
                   if live = None then groupResources L track rest objs items
                   else groupResources L track rest (objs(key := None))
                          (items @ [\<lparr>ol_key = key, ol_live = live, ol_target = None\<rparr>])
               | Some obj \<Rightarrow>
                   (case (if dl_IsCRD L obj then Inr obj else track obj) of
                      Inl err \<Rightarrow> Inl err
                    | Inr tracked \<Rightarrow> groupResources L track rest (objs(key := None))
                          (items @ [\<lparr>ol_key = key, ol_live = live, ol_target = Some tracked\<rparr>]))))"

text \<open>The loop over what is left in the map, in the order \<open>ks\<close> of the runtime.\<close>

fun groupRemaining ::
  "(resource_key \<Rightarrow> 'o option) \<Rightarrow> resource_key list \<Rightarrow> 'o objKeyLiveTarget list \<Rightarrow> 'o objKeyLiveTarget list" where
  "groupRemaining objs [] items = items"
| "groupRemaining objs (key # ks) items =
    (case objs key of
       None \<Rightarrow> groupRemaining objs ks items
     | Some obj \<Rightarrow>
         if isCoreSecret key then groupRemaining (objs(key := None)) ks items
         else groupRemaining objs ks (items @ [\<lparr>ol_key = key, ol_live = None, ol_target = Some obj\<rparr>]))"

definition groupObjsForDiff ::
  "'o diff_lib \<Rightarrow> argo_settings \<Rightarrow> string \<Rightarrow> string \<Rightarrow> resource_diff list \<Rightarrow> (resource_key \<Rightarrow> 'o option) \<Rightarrow>
   resource_key list \<Rightarrow> string + 'o objKeyLiveTarget list" where
  "groupObjsForDiff L settings appName namespace resources objs ks =
    (case groupResources L (dl_SetAppInstance L settings appName namespace) resources objs [] of
       Inl err \<Rightarrow> Inl err
     | Inr (left, items) \<Rightarrow> Inr (groupRemaining left ks items))"

section \<open>The answers of Argo CD\<close>

definition isAppMissingErr :: "string \<Rightarrow> bool" where
  "isAppMissingErr err = str_contains err ''PermissionDenied''"

definition getArgoSettings :: "argo_answers \<Rightarrow> string + argo_settings" where
  "getArgoSettings A = (case aa_settingsClient A of Some err \<Rightarrow> Inl err | None \<Rightarrow> aa_settings A)"

definition getResources :: "argo_answers \<Rightarrow> diff_request \<Rightarrow> string + resource_diff list" where
  "getResources A q =
    (case aa_appClient A of
       Some err \<Rightarrow> Inl err
     | None \<Rightarrow>
         (case aa_managed A (app_Name (dq_App q)) (app_Namespace (dq_App q)) of
            Inl err \<Rightarrow> if isAppMissingErr err then Inr [] else Inl err
          | Inr items \<Rightarrow> Inr items))"

definition appInstanceName :: "'o diff_lib \<Rightarrow> diff_request \<Rightarrow> argo_settings \<Rightarrow> string" where
  "appInstanceName L q settings =
    dl_InstanceName L (dq_App q) (if st_ControllerNamespace settings = [] then dq_ArgoCDNamespace q else st_ControllerNamespace settings)"

definition findResourceDiff :: "resource_diff list \<Rightarrow> resource_key \<Rightarrow> resource_diff option" where
  "findResourceDiff resources key =
    find (\<lambda>res. rd_Group res = rk_Group key \<and> rd_Kind res = rk_Kind key \<and>
      rd_Namespace res = rk_Namespace key \<and> rd_Name res = rk_Name key) resources"

definition jsonOrNil :: "string \<Rightarrow> string" where
  "jsonOrNil state = (if state = [] \<or> state = ''null'' then [] else state)"

section \<open>Server-side comparison\<close>

record sizeBatch =
  sb_start :: nat
  sb_end :: nat

definition resourceSize :: "resource_diff list \<Rightarrow> string list \<Rightarrow> nat \<Rightarrow> int" where
  "resourceSize liveResources targetManifests i =
    slen (rd_LiveState (liveResources ! i)) + slen (targetManifests ! i)"

text \<open>The inner loop: from the resource \<open>i\<close> with \<open>size\<close> bytes collected since \<open>start\<close>.\<close>

function batchEnd :: "resource_diff list \<Rightarrow> string list \<Rightarrow> int \<Rightarrow> nat \<Rightarrow> nat \<Rightarrow> int \<Rightarrow> nat" where
  "batchEnd lives targets maxBytes start i size' =
    (if i < length lives then
       if size' + resourceSize lives targets i > maxBytes \<and> i > start then i
       else batchEnd lives targets maxBytes start (Suc i) (size' + resourceSize lives targets i)
     else i)"
  by pat_completeness auto
termination by (relation "measure (\<lambda>(lives, _, _, _, i, _). length lives - i)") auto

declare batchEnd.simps [simp del]

lemma batchEnd_ge: "i \<le> batchEnd lives targets maxBytes start i size'"
proof (induction lives targets maxBytes start i size' rule: batchEnd.induct)
  case (1 lives targets maxBytes start i size')
  then show ?case
    by (subst batchEnd.simps) (auto simp del: not_less intro: Suc_leD)
qed

lemma batchEnd_progress: "start < length lives \<Longrightarrow> start < batchEnd lives targets maxBytes start start 0"
  using batchEnd_ge[of "Suc start" lives targets maxBytes start] by (subst batchEnd.simps) (simp add: Suc_le_eq)

function batchesFrom :: "resource_diff list \<Rightarrow> string list \<Rightarrow> int \<Rightarrow> nat \<Rightarrow> sizeBatch list" where
  "batchesFrom lives targets maxBytes i =
    (if i < length lives then
       let e = batchEnd lives targets maxBytes i i 0
       in \<lparr>sb_start = i, sb_end = e\<rparr> # batchesFrom lives targets maxBytes e
     else [])"
  by pat_completeness auto
termination
  by (relation "measure (\<lambda>(lives, _, _, i). length lives - i)") (use batchEnd_progress in \<open>auto simp: diff_less_mono2\<close>)

declare batchesFrom.simps [simp del]

definition batchBySize :: "resource_diff list \<Rightarrow> string list \<Rightarrow> int \<Rightarrow> sizeBatch list" where
  "batchBySize lives targets maxBytes = batchesFrom lives targets maxBytes 0"

definition slice_of :: "'a list \<Rightarrow> sizeBatch \<Rightarrow> 'a list" where
  "slice_of xs b = take (sb_end b - sb_start b) (drop (sb_start b) xs)"

definition isHookItem :: "'o diff_lib \<Rightarrow> 'o objKeyLiveTarget \<Rightarrow> bool" where
  "isHookItem L item =
    ((case ol_target item of None \<Rightarrow> False | Some obj \<Rightarrow> dl_IsHook L obj) \<or>
     (case ol_live item of None \<Rightarrow> False | Some obj \<Rightarrow> dl_IsHook L obj))"

definition placeholder :: "resource_key \<Rightarrow> resource_diff" where
  "placeholder key =
    \<lparr>rd_Group = rk_Group key, rd_Kind = rk_Kind key, rd_Namespace = rk_Namespace key, rd_Name = rk_Name key,
     rd_NormalizedLiveState = [], rd_LiveState = [], rd_TargetState = [], rd_Modified = True\<rparr>"

definition liveResourceOf :: "resource_diff list \<Rightarrow> 'o objKeyLiveTarget \<Rightarrow> resource_diff" where
  "liveResourceOf resources item =
    (case findResourceDiff resources (ol_key item) of Some res \<Rightarrow> res | None \<Rightarrow> placeholder (ol_key item))"

definition targetManifestOf :: "'o diff_lib \<Rightarrow> 'o objKeyLiveTarget \<Rightarrow> string + string" where
  "targetManifestOf L item =
    (case ol_target item of
       None \<Rightarrow> Inr []
     | Some obj \<Rightarrow>
         (case dl_marshal L obj of Inl err \<Rightarrow> Inl (''failed to marshal target for '' @ dl_keyString L (ol_key item) @ '': '' @ err) | Inr raw \<Rightarrow> Inr raw))"

text \<open>The loop that fills the aligned slices of live resources and target manifests.\<close>

fun alignSlices ::
  "'o diff_lib \<Rightarrow> resource_diff list \<Rightarrow> 'o objKeyLiveTarget list \<Rightarrow> resource_diff list \<Rightarrow> string list \<Rightarrow>
   string + (resource_diff list \<times> string list)" where
  "alignSlices L resources [] lives targets = Inr (lives, targets)"
| "alignSlices L resources (item # items) lives targets =
    (if isHookItem L item then alignSlices L resources items lives targets
     else (case targetManifestOf L item of
             Inl err \<Rightarrow> Inl err
           | Inr manifest \<Rightarrow>
               alignSlices L resources items (lives @ [liveResourceOf resources item]) (targets @ [manifest])))"

definition resultOf :: "resource_diff \<Rightarrow> diff_result" where
  "resultOf item = \<lparr>dr_Modified = rd_Modified item, dr_PredictedLive = jsonOrNil (rd_TargetState item),
     dr_NormalizedLive = jsonOrNil (rd_LiveState item)\<rparr>"

text \<open>The batches are asked concurrently; when some fail the comparison fails with one of their errors
  (which one is not observed), otherwise the results are read in the order of the batches.\<close>

fun askBatches :: "(sizeBatch \<Rightarrow> string + resource_diff list) \<Rightarrow> sizeBatch list \<Rightarrow> string + resource_diff list list" where
  "askBatches ask [] = Inr []"
| "askBatches ask (b # bs) =
    (case ask b of
       Inl err \<Rightarrow> Inl err
     | Inr items \<Rightarrow> (case askBatches ask bs of Inl err \<Rightarrow> Inl err | Inr results \<Rightarrow> Inr (items # results)))"

definition keyResults :: "resource_diff list list \<Rightarrow> (resource_key \<Rightarrow> diff_result option)" where
  "keyResults results =
    foldl (\<lambda>out batch. foldl (\<lambda>out item. out(keyOfResource item \<mapsto> resultOf item)) out batch) (\<lambda>_. None) results"

definition serverSideDiff ::
  "'o diff_lib \<Rightarrow> argo_answers \<Rightarrow> diff_request \<Rightarrow> 'o objKeyLiveTarget list \<Rightarrow> resource_diff list \<Rightarrow>
   string + (resource_key \<Rightarrow> diff_result option)" where
  "serverSideDiff L A q items resources =
    (case alignSlices L resources items [] [] of
       Inl err \<Rightarrow> Inl err
     | Inr (lives, targets) \<Rightarrow>
         if lives = [] then Inr (\<lambda>_. None)
         else (case aa_appClient A of
                 Some err \<Rightarrow> Inl err
               | None \<Rightarrow>
                   let app = dq_App q;
                       batches = batchBySize lives targets (dq_MaxBatchKB q * 1024);
                       ask = (\<lambda>b. aa_serverSideDiff A (app_Name app) (app_Namespace app) (da_Project app)
                                (slice_of lives b) (slice_of targets b))
                   in (case askBatches ask batches of
                         Inl err \<Rightarrow> Inl err
                       | Inr results \<Rightarrow> Inr (keyResults results))))"

section \<open>Comparing and rendering one resource\<close>

definition generateDiff ::
  "'o diff_lib \<Rightarrow> diff_request \<Rightarrow> argo_settings \<Rightarrow> 'o objKeyLiveTarget \<Rightarrow> string + diff_result" where
  "generateDiff L q settings item =
    (case dl_buildConfig L (dq_App q) settings of
       Some err \<Rightarrow> Inl err
     | None \<Rightarrow> dl_StateDiff L (dq_App q) settings (ol_live item) (ol_target item))"

definition syncsServerSide :: "'o diff_lib \<Rightarrow> deployed_app \<Rightarrow> 'o option \<Rightarrow> bool" where
  "syncsServerSide L app target =
    (if (case da_SyncOptions app of None \<Rightarrow> False | Some opts \<Rightarrow> dl_HasOption L opts ''ServerSideApply=true'') then True
     else (case target of None \<Rightarrow> False
           | Some obj \<Rightarrow> dl_HasAnnotationOption L obj ''argocd.argoproj.io/sync-options'' ''ServerSideApply=true''))"

definition liveManagedFields :: "'o diff_lib \<Rightarrow> resource_diff list \<Rightarrow> resource_key \<Rightarrow> managed_entry list" where
  "liveManagedFields L resources key =
    (case findResourceDiff resources key of
       None \<Rightarrow> []
     | Some res \<Rightarrow>
         if rd_LiveState res = [] then []
         else (case dl_managedFields L (rd_LiveState res) of None \<Rightarrow> [] | Some entries \<Rightarrow> entries))"

definition predictFieldRemovals ::
  "'o diff_lib \<Rightarrow> deployed_app \<Rightarrow> resource_diff list \<Rightarrow> 'o objKeyLiveTarget \<Rightarrow> diff_result \<Rightarrow>
   diff_result \<times> retainedField list" where
  "predictFieldRemovals L app resources item diffRes =
    (if ol_live item = None \<or> ol_target item = None \<or> \<not> syncsServerSide L app (ol_target item) then (diffRes, [])
     else (case applyFieldRemovals (dl_values L)
                  (if dr_PredictedLive diffRes = [] then None else Some (dl_decodeJson L (dr_PredictedLive diffRes)))
                  (dr_Modified diffRes) (liveManagedFields L resources (ol_key item)) (map_option (dl_object L) (ol_target item)) of
             Inl err \<Rightarrow> (diffRes, [])
           | Inr ((result, modified), retained) \<Rightarrow>
               (case result of
                  None \<Rightarrow> diffRes
                | Some v \<Rightarrow> diffRes\<lparr>dr_PredictedLive := dl_encodeJson L v, dr_Modified := modified\<rparr>, retained)))"

definition PrintDiff :: "'o diff_lib \<Rightarrow> 'o option \<Rightarrow> 'o option \<Rightarrow> string + string" where
  "PrintDiff L live target =
    (case (case target of None \<Rightarrow> Inr [] | Some obj \<Rightarrow> dl_yaml L obj) of
       Inl err \<Rightarrow> Inl err
     | Inr targetData \<Rightarrow>
         (case (case live of None \<Rightarrow> Inr [] | Some obj \<Rightarrow> dl_yaml L obj) of
            Inl err \<Rightarrow> Inl err
          | Inr liveData \<Rightarrow> Inr (dl_unified L liveData targetData 2)))"

definition resourceId :: "'o objKeyLiveTarget \<Rightarrow> string" where
  "resourceId item = rk_Group (ol_key item) @ ''/'' @ rk_Kind (ol_key item) @ '' '' @
     rk_Namespace (ol_key item) @ ''/'' @ rk_Name (ol_key item)"

definition addResourceDiffToMessage ::
  "'o diff_lib \<Rightarrow> string \<Rightarrow> 'o objKeyLiveTarget \<Rightarrow> diff_result \<Rightarrow> retainedField list \<Rightarrow> string + string" where
  "addResourceDiffToMessage L buf item diffRes retained =
    (let target = (if ol_target item \<noteq> None \<and> ol_live item \<noteq> None then Some (dl_decodePredicted L (dr_PredictedLive diffRes))
                   else ol_target item)
     in (case PrintDiff L (ol_live item) target of
           Inl err \<Rightarrow> Inl err
         | Inr text' \<Rightarrow> Inr (buf @ ''===== '' @ resourceId item @ '' ======'' @ [nl] @ text' @ writeRetained (dl_values L) retained)))"

section \<open>The loop over the resources\<close>

datatype app_request = RemoveAppCall application | QueueAppCall application

record diff_state =
  ds_buffer :: string
  ds_added :: nat
  ds_modified :: nat
  ds_removed :: nat
  ds_calls :: "app_request list"

definition diff_start :: diff_state where
  "diff_start = \<lparr>ds_buffer = [], ds_added = 0, ds_modified = 0, ds_removed = 0, ds_calls = []\<rparr>"

definition isApp :: "'o diff_lib \<Rightarrow> resource_key \<Rightarrow> string \<Rightarrow> application option" where
  "isApp L key manifests =
    (if to_lower (rk_Group key) \<noteq> ''argoproj.io'' then None
     else if to_lower (rk_Kind key) \<noteq> ''application'' then None
     else (case dl_decodeApp L manifests of Inl err \<Rightarrow> None | Inr app \<Rightarrow> Some app))"

definition processResources :: "'o diff_lib \<Rightarrow> 'o objKeyLiveTarget \<Rightarrow> diff_result \<Rightarrow> diff_state \<Rightarrow> diff_state" where
  "processResources L item diffRes st =
    (if ol_target item = None then
       st\<lparr>ds_removed := Suc (ds_removed st),
          ds_calls := ds_calls st @ (case isApp L (ol_key item) (dr_NormalizedLive diffRes) of None \<Rightarrow> [] | Some app \<Rightarrow> [RemoveAppCall app])\<rparr>
     else if ol_live item = None then
       st\<lparr>ds_added := Suc (ds_added st),
          ds_calls := ds_calls st @ (case isApp L (ol_key item) (dr_PredictedLive diffRes) of None \<Rightarrow> [] | Some app \<Rightarrow> [QueueAppCall app])\<rparr>
     else if dr_Modified diffRes then
       st\<lparr>ds_modified := Suc (ds_modified st),
          ds_calls := ds_calls st @ (case isApp L (ol_key item) (dr_PredictedLive diffRes) of None \<Rightarrow> [] | Some app \<Rightarrow> [QueueAppCall app])\<rparr>
     else st)"

definition isReported :: "'o objKeyLiveTarget \<Rightarrow> diff_result \<Rightarrow> retainedField list \<Rightarrow> bool" where
  "isReported item diffRes retained =
    (dr_Modified diffRes \<or> retained \<noteq> [] \<or> ol_target item = None \<or> ol_live item = None)"

definition diffItem ::
  "'o diff_lib \<Rightarrow> diff_request \<Rightarrow> argo_settings \<Rightarrow> resource_diff list \<Rightarrow> (resource_key \<Rightarrow> diff_result option) \<Rightarrow>
   diff_state \<Rightarrow> 'o objKeyLiveTarget \<Rightarrow> string + diff_state" where
  "diffItem L q settings resources ssdResults st item =
    (if isHookItem L item then Inr st
     else (case (case ssdResults (ol_key item) of Some r \<Rightarrow> Inr r | None \<Rightarrow> generateDiff L q settings item) of
             Inl err \<Rightarrow> Inl err
           | Inr computed \<Rightarrow>
               let (diffRes, retained) = predictFieldRemovals L (dq_App q) resources item computed in
               if isReported item diffRes retained then
                 (case addResourceDiffToMessage L (ds_buffer st) item diffRes retained of
                    Inl err \<Rightarrow> Inl err
                  | Inr buf \<Rightarrow> Inr (processResources L item diffRes (st\<lparr>ds_buffer := buf\<rparr>)))
               else Inr st))"

text \<open>A loop that ends with the first error; the state then holds what was done before.\<close>

fun untilError :: "('s \<Rightarrow> 'x \<Rightarrow> 'e + 's) \<Rightarrow> 's \<Rightarrow> 'x list \<Rightarrow> 's \<times> 'e option" where
  "untilError f st [] = (st, None)"
| "untilError f st (x # xs) = (case f st x of Inl err \<Rightarrow> (st, Some err) | Inr st' \<Rightarrow> untilError f st' xs)"

section \<open>The check\<close>

definition unmarshalManifests :: "'o diff_lib \<Rightarrow> string list \<Rightarrow> 'o list" where
  "unmarshalManifests L mfsts = concat (map (\<lambda>mfst. case dl_unmarshal L mfst of Inl err \<Rightarrow> [] | Inr obj \<Rightarrow> [obj]) mfsts)"

text \<open>The common beginning of \<open>Check\<close> and \<open>GenerateDiffText\<close>: the settings, the managed resources
  and the pairs to compare; \<open>ks\<close> is the order of the map of the remaining objects.\<close>

definition collectItems ::
  "'o diff_lib \<Rightarrow> argo_answers \<Rightarrow> diff_request \<Rightarrow> resource_key list \<Rightarrow>
   string + (argo_settings \<times> resource_diff list \<times> 'o objKeyLiveTarget list)" where
  "collectItems L A q ks =
    (case getArgoSettings A of
       Inl err \<Rightarrow> Inl err
     | Inr settings \<Rightarrow>
         (case getResources A q of
            Inl err \<Rightarrow> Inl err
          | Inr resources \<Rightarrow>
              (case dl_LiveObjects L resources of
                 Inl err \<Rightarrow> Inl err
               | Inr liveObjs \<Rightarrow>
                   (case groupObjsByKey L (unmarshalManifests L (dq_JsonManifests q)) liveObjs (da_DestinationNamespace (dq_App q)) of
                      Inl err \<Rightarrow> Inl err
                    | Inr objs \<Rightarrow>
                        (case groupObjsForDiff L settings (appInstanceName L q settings) (da_DestinationNamespace (dq_App q))
                                resources objs ks of
                           Inl err \<Rightarrow> Inl err
                         | Inr items \<Rightarrow> Inr (settings, resources, items))))))"

definition diffSummary :: "diff_state \<Rightarrow> bool \<Rightarrow> string \<times> bool" where
  "diffSummary st ssdFellBack =
    (let (summary, noChanges) =
           (if ds_added st \<noteq> 0 \<or> ds_modified st \<noteq> 0 \<or> ds_removed st \<noteq> 0
            then (itoa (ds_added st) @ '' added, '' @ itoa (ds_modified st) @ '' modified, '' @ itoa (ds_removed st) @ '' removed'', False)
            else (''No changes'', True))
     in (if ssdFellBack then summary @ '' (local diff: server-side diff unavailable)'' else summary, noChanges))"

definition diffDetails :: "string \<Rightarrow> string" where
  "diffDetails rendered = ''```diff'' @ [nl] @ rendered @ [nl] @ ''```''"

text \<open>The outcome, with the calls of \<open>RemoveApp\<close> and \<open>QueueApp\<close> made on the way, also when the check
  ends with an error.  The summary that the AI adds to the note afterwards is the theory \<open>AiSummary\<close>.\<close>

definition diff_Check ::
  "'o diff_lib \<Rightarrow> argo_answers \<Rightarrow> diff_request \<Rightarrow> resource_key list \<Rightarrow> (string + result) \<times> app_request list" where
  "diff_Check L A q ks =
    (case collectItems L A q ks of
       Inl err \<Rightarrow> (Inl err, [])
     | Inr (settings, resources, items) \<Rightarrow>
         let (ssdResults, ssdFellBack) =
               (if dq_ArgoCDServerSideDiff q then
                  (case serverSideDiff L A q items resources of Inl err \<Rightarrow> (\<lambda>_. None, True) | Inr out \<Rightarrow> (out, False))
                else (\<lambda>_. None, False))
         in (case untilError (diffItem L q settings resources ssdResults) diff_start items of
               (st, Some err) \<Rightarrow> (Inl err, ds_calls st)
             | (st, None) \<Rightarrow>
                 let (summary, noChanges) = diffSummary st ssdFellBack
                 in (Inr \<lparr>res_State = StateNone, res_Summary = summary, res_Details = diffDetails (ds_buffer st),
                       res_NoChangesDetected = noChanges, res_Sticky = False\<rparr>, ds_calls st)))"

definition textItem ::
  "'o diff_lib \<Rightarrow> diff_request \<Rightarrow> argo_settings \<Rightarrow> resource_diff list \<Rightarrow> string \<Rightarrow> 'o objKeyLiveTarget \<Rightarrow> string + string" where
  "textItem L q settings resources buf item =
    (if isHookItem L item then Inr buf
     else (case generateDiff L q settings item of
             Inl err \<Rightarrow> Inl err
           | Inr computed \<Rightarrow>
               let (diffRes, retained) = predictFieldRemovals L (dq_App q) resources item computed in
               if isReported item diffRes retained then addResourceDiffToMessage L buf item diffRes retained
               else Inr buf))"

definition GenerateDiffText ::
  "'o diff_lib \<Rightarrow> argo_answers \<Rightarrow> diff_request \<Rightarrow> resource_key list \<Rightarrow> string + string" where
  "GenerateDiffText L A q ks =
    (case collectItems L A q ks of
       Inl err \<Rightarrow> Inl err
     | Inr (settings, resources, items) \<Rightarrow>
         (case untilError (textItem L q settings resources) [] items of
            (buf, Some err) \<Rightarrow> Inl err
          | (buf, None) \<Rightarrow> Inr buf))"

section \<open>Pairing: every resource once\<close>

text \<open>The pair that one managed resource contributes.\<close>

definition pairOf ::
  "'o diff_lib \<Rightarrow> ('o \<Rightarrow> string + 'o) \<Rightarrow> (resource_key \<Rightarrow> 'o option) \<Rightarrow> resource_diff \<Rightarrow> 'o objKeyLiveTarget list" where
  "pairOf L track objs res =
    (case dl_decodeState L (rd_NormalizedLiveState res) of
       Inl err \<Rightarrow> []
     | Inr live \<Rightarrow>
         if isCoreSecret (keyOfResource res) then []
         else (case objs (keyOfResource res) of
                 None \<Rightarrow> if live = None then [] else [\<lparr>ol_key = keyOfResource res, ol_live = live, ol_target = None\<rparr>]
               | Some obj \<Rightarrow>
                   (case (if dl_IsCRD L obj then Inr obj else track obj) of
                      Inl err \<Rightarrow> []
                    | Inr tracked \<Rightarrow> [\<lparr>ol_key = keyOfResource res, ol_live = live, ol_target = Some tracked\<rparr>])))"

lemma pairOf_other: "keyOfResource res \<noteq> k \<Longrightarrow> pairOf L track (objs(k := v)) res = pairOf L track objs res"
  by (simp add: pairOf_def split: sum.split option.split)

lemma pairOf_map_other:
  "k \<notin> keyOfResource ` set rest \<Longrightarrow> map (pairOf L track (objs(k := v))) rest = map (pairOf L track objs) rest"
  by (rule map_cong[OF refl], rule pairOf_other) blast

lemma groupResources_spec:
  "groupResources L track resources objs items = Inr (left, out) \<Longrightarrow> distinct (map keyOfResource resources) \<Longrightarrow>
    out = items @ concat (map (pairOf L track objs) resources) \<and>
    left = (\<lambda>k. if k \<in> keyOfResource ` set resources then None else objs k)"
proof (induction L track resources objs items rule: groupResources.induct)
  case (2 L track res rest objs items)
  let ?k = "keyOfResource res"
  have k: "?k \<notin> keyOfResource ` set rest" and d: "distinct (map keyOfResource rest)" using 2(6) by auto
  note m = pairOf_map_other[OF k, of L track objs None]
  obtain live where live: "dl_decodeState L (rd_NormalizedLiveState res) = Inr live"
    using 2(5) by (auto split: sum.splits)
  have left: "(\<lambda>k. if k \<in> keyOfResource ` set rest then None else (objs(?k := None)) k) =
      (\<lambda>k. if k \<in> keyOfResource ` set (res # rest) then None else objs k)" by auto
  show ?case
  proof (cases "isCoreSecret ?k")
    case True
    then show ?thesis using 2(1)[OF live refl True] 2(5) live d unfolding left m
      by (simp add: pairOf_def[of _ _ _ res] Let_def del: fun_upd_apply)
  next
    case secret: False
    show ?thesis
    proof (cases "objs ?k")
      case None
      show ?thesis
      proof (cases "live = None")
        case True
        have "(\<lambda>k. if k \<in> keyOfResource ` set rest then None else objs k) =
            (\<lambda>k. if k \<in> keyOfResource ` set (res # rest) then None else objs k)" using None by auto
        then show ?thesis using 2(2)[OF live refl secret None True] 2(5) live secret None True d
          by (simp add: pairOf_def[of _ _ _ res] Let_def)
      next
        case False
        then obtain lv where "live = Some lv" by blast
        then show ?thesis using 2(3)[OF live refl secret None False] 2(5) live secret None d unfolding left m
          by (simp add: pairOf_def[of _ _ _ res] Let_def del: fun_upd_apply)
      qed
    next
      case (Some obj)
      then obtain tracked where t: "(if dl_IsCRD L obj then Inr obj else track obj) = Inr tracked"
        using 2(5) live secret by (auto simp: Let_def split: sum.splits)
      show ?thesis using 2(4)[OF live refl secret Some t] 2(5) live secret Some t d unfolding left m
        by (simp add: pairOf_def[of _ _ _ res] Let_def del: fun_upd_apply)
    qed
  qed
qed simp

lemma groupResources_ok:
  "groupResources L track resources objs items = Inr (left, out) \<Longrightarrow> distinct (map keyOfResource resources) \<Longrightarrow> res \<in> set resources \<Longrightarrow>
    \<exists>live. dl_decodeState L (rd_NormalizedLiveState res) = Inr live \<and>
      (isCoreSecret (keyOfResource res) \<or>
       (case objs (keyOfResource res) of None \<Rightarrow> True | Some obj \<Rightarrow> \<exists>t. (if dl_IsCRD L obj then Inr obj else track obj) = Inr t))"
proof (induction L track resources objs items rule: groupResources.induct)
  case (2 L track r rest objs items)
  let ?k = "keyOfResource r"
  obtain live where live: "dl_decodeState L (rd_NormalizedLiveState r) = Inr live"
    using 2(5) by (auto split: sum.splits)
  have d: "distinct (map keyOfResource rest)" using 2(6) by simp
  show ?case
  proof (cases "res = r")
    case True
    show ?thesis using 2(5) live unfolding True by (auto simp: Let_def split: option.splits sum.splits)
  next
    case False
    then have res: "res \<in> set rest" using 2(7) by simp
    then have k: "keyOfResource res \<noteq> ?k" using 2(6) by (metis distinct.simps(2) imageI list.set_map list.simps(9))
    then have o: "(objs(?k := None)) (keyOfResource res) = objs (keyOfResource res)" by simp
    show ?thesis
    proof (cases "isCoreSecret ?k")
      case True
      show ?thesis using 2(1)[OF live refl True _ d res] 2(5) live True unfolding o by (simp add: Let_def del: fun_upd_apply)
    next
      case secret: False
      show ?thesis
      proof (cases "objs ?k")
        case None
        show ?thesis
        proof (cases "live = None")
          case True
          show ?thesis using 2(2)[OF live refl secret None True _ d res] 2(5) live secret None True by (simp add: Let_def)
        next
          case False
          then obtain lv where "live = Some lv" by blast
          then show ?thesis using 2(3)[OF live refl secret None False _ d res] 2(5) live secret None unfolding o by (simp add: Let_def del: fun_upd_apply)
        qed
      next
        case (Some obj)
        then obtain tracked where t: "(if dl_IsCRD L obj then Inr obj else track obj) = Inr tracked"
          using 2(5) live secret by (auto simp: Let_def split: sum.splits)
        show ?thesis using 2(4)[OF live refl secret Some t _ d res] 2(5) live secret Some t unfolding o by (simp add: Let_def del: fun_upd_apply)
      qed
    qed
  qed
qed simp

lemma groupRemaining_spec:
  "distinct ks \<Longrightarrow> groupRemaining objs ks items =
    items @ map (\<lambda>k. \<lparr>ol_key = k, ol_live = None, ol_target = objs k\<rparr>) (filter (\<lambda>k. objs k \<noteq> None \<and> \<not> isCoreSecret k) ks)"
proof (induction objs ks items rule: groupRemaining.induct)
  case (2 objs key ks items)
  have "map (\<lambda>k. \<lparr>ol_key = k, ol_live = None, ol_target = (objs(key := None)) k\<rparr>) (filter (\<lambda>k. (objs(key := None)) k \<noteq> None \<and> \<not> isCoreSecret k) ks) =
      map (\<lambda>k. \<lparr>ol_key = k, ol_live = None, ol_target = objs k\<rparr>) (filter (\<lambda>k. objs k \<noteq> None \<and> \<not> isCoreSecret k) ks)"
    using 2(4) by (intro map_cong filter_cong) auto
  then show ?case using 2 by (simp split: option.split del: fun_upd_apply)
qed simp

lemma findResourceDiff_key: "findResourceDiff resources k = find (\<lambda>res. keyOfResource res = k) resources"
proof -
  have "(\<lambda>res. rd_Group res = rk_Group k \<and> rd_Kind res = rk_Kind k \<and> rd_Namespace res = rk_Namespace k \<and> rd_Name res = rk_Name k) =
      (\<lambda>res. keyOfResource res = k)"
    by (rule ext) (cases k; simp add: keyOfResource_def)
  then show ?thesis by (simp add: findResourceDiff_def)
qed

lemma find_by_key:
  "distinct (map f xs) \<Longrightarrow> x \<in> set xs \<Longrightarrow> find (\<lambda>y. f y = f x) xs = Some x"
  by (induction xs) (auto simp: image_iff)

lemma pairOf_props:
  assumes "i \<in> set (pairOf L track objs res)"
  shows "ol_key i = keyOfResource res \<and> \<not> isCoreSecret (ol_key i) \<and> (ol_live i \<noteq> None \<or> ol_target i \<noteq> None) \<and>
    dl_decodeState L (rd_NormalizedLiveState res) = Inr (ol_live i) \<and> (ol_target i = None \<longleftrightarrow> objs (ol_key i) = None)"
proof -
  have s: "\<not> isCoreSecret (keyOfResource res)"
    using assms by (cases "dl_decodeState L (rd_NormalizedLiveState res)") (simp_all add: pairOf_def split: if_splits)
  obtain live where live: "dl_decodeState L (rd_NormalizedLiveState res) = Inr live" "\<not> isCoreSecret (keyOfResource res)"
    using assms s by (cases "dl_decodeState L (rd_NormalizedLiveState res)") (simp_all add: pairOf_def)
  show ?thesis
  proof (cases "objs (keyOfResource res)")
    case None
    then show ?thesis using assms live by (cases live) (simp_all add: pairOf_def)
  next
    case (Some obj)
    then show ?thesis using assms live by (auto simp: pairOf_def simp del: not_None_eq split: sum.splits)
  qed
qed

lemma pairOf_distinct: "distinct (map ol_key (pairOf L track objs res))"
  by (simp add: pairOf_def split: sum.split option.split)

lemma pairs_distinct:
  "distinct (map keyOfResource resources) \<Longrightarrow> distinct (map ol_key (concat (map (pairOf L track objs) resources)))"
proof (induction resources)
  case (Cons res rest)
  have "ol_key i \<noteq> ol_key j" if "i \<in> set (pairOf L track objs res)" "j \<in> set (concat (map (pairOf L track objs) rest))" for i j
  proof -
    from that(2) obtain r where r: "r \<in> set rest" "j \<in> set (pairOf L track objs r)" by auto
    then have "keyOfResource r \<noteq> keyOfResource res" using Cons.prems by (metis distinct.simps(2) imageI list.set_map list.simps(9))
    then show ?thesis using pairOf_props[OF that(1)] pairOf_props[OF r(2)] by simp
  qed
  then show ?case using Cons pairOf_distinct[of L track objs res] by (fastforce simp: image_iff)
qed simp

lemma pairs_cover:
  assumes "groupResources L track resources objs [] = Inr (left, out)" "distinct (map keyOfResource resources)"
    and "res \<in> set resources" "keyOfResource res = k" "\<not> isCoreSecret k"
    and "objs k \<noteq> None \<or> dl_decodeState L (rd_NormalizedLiveState res) \<noteq> Inr None"
  shows "k \<in> ol_key ` set (concat (map (pairOf L track objs) resources))"
proof -
  obtain live where live: "dl_decodeState L (rd_NormalizedLiveState res) = Inr live"
    "case objs k of None \<Rightarrow> True | Some obj \<Rightarrow> \<exists>t. (if dl_IsCRD L obj then Inr obj else track obj) = Inr t"
    using groupResources_ok[OF assms(1,2,3)] assms(4,5) by auto
  have "pairOf L track objs res \<noteq> []"
    using live assms(3-6) by (cases "objs k") (auto simp: pairOf_def simp del: not_None_eq)
  then have "\<exists>i. i \<in> set (pairOf L track objs res)" by (simp add: ex_in_conv)
  then have "\<exists>i. i \<in> set (pairOf L track objs res) \<and> ol_key i = k" using pairOf_props assms(4) by metis
  then show ?thesis using assms(3) by (auto simp: image_iff)
qed

text \<open>The pairs of a comparison: first the resources that Argo CD reported, then what else is rendered.\<close>

lemma groupObjs_parts:
  assumes "distinct (map keyOfResource resources)" "keys_of objs ks"
    and "groupObjsForDiff L settings appName namespace resources objs ks = Inr items"
  obtains track R where
    "items = concat (map (pairOf L track objs) resources) @ map (\<lambda>k. \<lparr>ol_key = k, ol_live = None, ol_target = objs k\<rparr>) R"
    "distinct R" "\<And>k. k \<in> set R \<longleftrightarrow> k \<notin> keyOfResource ` set resources \<and> objs k \<noteq> None \<and> \<not> isCoreSecret k"
    "\<And>res k. res \<in> set resources \<Longrightarrow> keyOfResource res = k \<Longrightarrow> \<not> isCoreSecret k \<Longrightarrow>
      objs k \<noteq> None \<or> dl_decodeState L (rd_NormalizedLiveState res) \<noteq> Inr None \<Longrightarrow>
      k \<in> ol_key ` set (concat (map (pairOf L track objs) resources))"
proof -
  let ?t = "dl_SetAppInstance L settings appName namespace"
  obtain left out where g: "groupResources L ?t resources objs [] = Inr (left, out)" "items = groupRemaining left ks out"
    using assms(3) by (auto simp: groupObjsForDiff_def split: sum.splits)
  define R where "R = filter (\<lambda>k. left k \<noteq> None \<and> \<not> isCoreSecret k) ks"
  note spec = groupResources_spec[OF g(1) assms(1)]
  have left: "left k = (if k \<in> keyOfResource ` set resources then None else objs k)" for k using spec by simp
  have R: "k \<in> set R \<longleftrightarrow> k \<notin> keyOfResource ` set resources \<and> objs k \<noteq> None \<and> \<not> isCoreSecret k" for k
    using assms(2) left[of k] by (auto simp: R_def keys_of_def)
  have "map (\<lambda>k. \<lparr>ol_key = k, ol_live = None, ol_target = left k\<rparr>) R = map (\<lambda>k. \<lparr>ol_key = k, ol_live = None, ol_target = objs k\<rparr>) R"
    using R left by (intro map_cong) (auto split: if_splits)
  then have "items = concat (map (pairOf L ?t objs) resources) @ map (\<lambda>k. \<lparr>ol_key = k, ol_live = None, ol_target = objs k\<rparr>) R"
    using g(2) spec groupRemaining_spec[of ks left out] assms(2) by (simp add: R_def keys_of_def)
  moreover have "distinct R" using assms(2) by (simp add: R_def keys_of_def)
  ultimately show thesis using R pairs_cover[OF g(1) assms(1)] by (intro that) blast+
qed

text \<open>C10 Every resource is compared exactly once.  The pairs have distinct keys; a key is among them
  exactly when it is not a core secret and it is rendered or exists live; the live object is the one
  that Argo CD reported under this key, the target is present exactly when it is rendered, and no
  pair is empty, whatever the order of the map.\<close>

theorem every_resource_is_compared_once:
  assumes "distinct (map keyOfResource resources)" "keys_of objs ks"
    and "groupObjsForDiff L settings appName namespace resources objs ks = Inr items"
  shows "distinct (map ol_key items) \<and>
    (k \<in> ol_key ` set items \<longleftrightarrow> \<not> isCoreSecret k \<and>
       (objs k \<noteq> None \<or> list_ex (\<lambda>res. keyOfResource res = k \<and> dl_decodeState L (rd_NormalizedLiveState res) \<noteq> Inr None) resources)) \<and>
    list_all (\<lambda>i. (ol_live i \<noteq> None \<or> ol_target i \<noteq> None) \<and> (ol_target i = None \<longleftrightarrow> objs (ol_key i) = None) \<and>
      (case findResourceDiff resources (ol_key i) of
         None \<Rightarrow> ol_live i = None
       | Some res \<Rightarrow> dl_decodeState L (rd_NormalizedLiveState res) = Inr (ol_live i))) items"
proof -
  obtain track R where items: "items = concat (map (pairOf L track objs) resources) @ map (\<lambda>k. \<lparr>ol_key = k, ol_live = None, ol_target = objs k\<rparr>) R"
    and dR: "distinct R" and R: "\<And>k. k \<in> set R \<longleftrightarrow> k \<notin> keyOfResource ` set resources \<and> objs k \<noteq> None \<and> \<not> isCoreSecret k"
    and cover: "\<And>res k. res \<in> set resources \<Longrightarrow> keyOfResource res = k \<Longrightarrow> \<not> isCoreSecret k \<Longrightarrow>
      objs k \<noteq> None \<or> dl_decodeState L (rd_NormalizedLiveState res) \<noteq> Inr None \<Longrightarrow>
      k \<in> ol_key ` set (concat (map (pairOf L track objs) resources))"
    by (rule groupObjs_parts[OF assms]) (rule that)
  have P: "\<exists>res\<in>set resources. i \<in> set (pairOf L track objs res)" if "i \<in> set (concat (map (pairOf L track objs) resources))" for i
    using that by auto
  have live: "ol_key i \<in> keyOfResource ` set resources \<and> \<not> isCoreSecret (ol_key i)"
    if "i \<in> set (concat (map (pairOf L track objs) resources))" for i
    using P[OF that] pairOf_props by (metis imageI)
  have "ol_key ` set (concat (map (pairOf L track objs) resources)) \<inter> set R = {}" using live R by blast
  then have dist: "distinct (map ol_key items)"
    using dR pairs_distinct[OF assms(1), of L track objs] by (simp add: items comp_def)
  have each: "(ol_live i \<noteq> None \<or> ol_target i \<noteq> None) \<and> (ol_target i = None \<longleftrightarrow> objs (ol_key i) = None) \<and>
      (case findResourceDiff resources (ol_key i) of None \<Rightarrow> ol_live i = None
       | Some res \<Rightarrow> dl_decodeState L (rd_NormalizedLiveState res) = Inr (ol_live i))" if i: "i \<in> set items" for i
  proof (cases "i \<in> set (concat (map (pairOf L track objs) resources))")
    case True
    then obtain res where res: "res \<in> set resources" "i \<in> set (pairOf L track objs res)" using P by blast
    have "findResourceDiff resources (ol_key i) = Some res"
      using find_by_key[OF assms(1) res(1)] pairOf_props[OF res(2)] by (simp add: findResourceDiff_key)
    then show ?thesis using pairOf_props[OF res(2)] by (auto simp del: not_None_eq)
  next
    case False
    then obtain key where key: "key \<in> set R" "i = \<lparr>ol_key = key, ol_live = None, ol_target = objs key\<rparr>" using i items by auto
    then have "key \<notin> keyOfResource ` set resources" "objs key \<noteq> None" using R[of key] by simp_all
    moreover from this(1) have "findResourceDiff resources key = None" by (auto simp: findResourceDiff_key find_None_iff)
    ultimately show ?thesis using key by simp
  qed
  have keys: "k \<in> ol_key ` set items \<longleftrightarrow> k \<in> ol_key ` set (concat (map (pairOf L track objs) resources)) \<or> k \<in> set R"
    by (simp add: items image_Un image_image)
  have "\<not> isCoreSecret k \<and> (objs k \<noteq> None \<or> list_ex (\<lambda>res. keyOfResource res = k \<and> dl_decodeState L (rd_NormalizedLiveState res) \<noteq> Inr None) resources)"
    if in_pairs: "k \<in> ol_key ` set (concat (map (pairOf L track objs) resources))"
  proof -
    obtain i res where res: "k = ol_key i" "res \<in> set resources" "i \<in> set (pairOf L track objs res)"
      using in_pairs P by blast
    show ?thesis using pairOf_props[OF res(3)] res(1,2) by (cases "ol_live i") (auto simp: list_ex_iff)
  qed
  then have iff: "k \<in> ol_key ` set items \<longleftrightarrow> \<not> isCoreSecret k \<and>
      (objs k \<noteq> None \<or> list_ex (\<lambda>res. keyOfResource res = k \<and> dl_decodeState L (rd_NormalizedLiveState res) \<noteq> Inr None) resources)"
    using keys R[of k] cover[of _ k] by (auto simp only: list_ex_iff)
  have "list_all (\<lambda>i. (ol_live i \<noteq> None \<or> ol_target i \<noteq> None) \<and> (ol_target i = None \<longleftrightarrow> objs (ol_key i) = None) \<and>
      (case findResourceDiff resources (ol_key i) of None \<Rightarrow> ol_live i = None
       | Some res \<Rightarrow> dl_decodeState L (rd_NormalizedLiveState res) = Inr (ol_live i))) items"
    using each by (simp only: list_all_iff) blast
  then show ?thesis using dist iff by blast
qed

section \<open>Batches\<close>

definition batchBytes :: "resource_diff list \<Rightarrow> string list \<Rightarrow> sizeBatch \<Rightarrow> int" where
  "batchBytes lives targets b = sum_list (map (resourceSize lives targets) [sb_start b..<sb_end b])"

lemma batchEnd_spec:
  "start \<le> i \<Longrightarrow> i \<le> length lives \<Longrightarrow> size' = sum_list (map (resourceSize lives targets) [start..<i]) \<Longrightarrow>
    size' \<le> maxBytes \<or> i \<le> Suc start \<Longrightarrow> e = batchEnd lives targets maxBytes start i size' \<Longrightarrow>
    i \<le> e \<and> e \<le> length lives \<and> (sum_list (map (resourceSize lives targets) [start..<e]) \<le> maxBytes \<or> e \<le> Suc start) \<and>
    (e < length lives \<longrightarrow> e > start \<and> sum_list (map (resourceSize lives targets) [start..<Suc e]) > maxBytes)"
proof (induction lives targets maxBytes start i size' rule: batchEnd.induct)
  case (1 lives targets maxBytes start i size')
  let ?s = "size' + resourceSize lives targets i"
  show ?case
  proof (cases "i < length lives \<and> \<not> (?s > maxBytes \<and> i > start)")
    case True
    then have e: "e = batchEnd lives targets maxBytes start (Suc i) ?s"
      using 1(6) by (subst (asm) batchEnd.simps) auto
    have "?s = sum_list (map (resourceSize lives targets) [start..<Suc i])" using 1(2,4) by simp
    moreover have "?s \<le> maxBytes \<or> Suc i \<le> Suc start" using True by auto
    ultimately show ?thesis using 1(1)[OF _ _ _ _ _ _ e] True 1(2) by auto
  next
    case False
    then have "e = i" using 1(6) by (subst (asm) batchEnd.simps) (auto split: if_splits)
    then show ?thesis using 1(2-5) False by auto
  qed
qed

lemma slice_join: "i \<le> e \<Longrightarrow> take (e - i) (drop i xs) @ drop e xs = drop i xs"
  by (metis append_take_drop_id drop_drop le_add_diff_inverse2)

lemma batchesFrom_spec:
  "i \<le> length lives \<Longrightarrow> bs = batchesFrom lives targets maxBytes i \<Longrightarrow> length xs = length lives \<Longrightarrow>
    concat (map (slice_of xs) bs) = drop i xs \<and>
    list_all (\<lambda>b. sb_start b < sb_end b \<and> sb_end b \<le> length lives \<and>
      (batchBytes lives targets b \<le> maxBytes \<or> sb_end b = Suc (sb_start b)) \<and>
      (sb_end b < length lives \<longrightarrow> batchBytes lives targets b + resourceSize lives targets (sb_end b) > maxBytes)) bs"
proof (induction lives targets maxBytes i arbitrary: bs rule: batchesFrom.induct)
  case (1 lives targets maxBytes i)
  show ?case
  proof (cases "i < length lives")
    case True
    define e where "e = batchEnd lives targets maxBytes i i 0"
    have e: "i < e" "e \<le> length lives" "sum_list (map (resourceSize lives targets) [i..<e]) \<le> maxBytes \<or> e \<le> Suc i"
      "e < length lives \<longrightarrow> sum_list (map (resourceSize lives targets) [i..<Suc e]) > maxBytes"
      using batchEnd_spec[of i i lives 0 targets maxBytes e] batchEnd_progress[OF True] True by (auto simp: e_def)
    have bs: "bs = \<lparr>sb_start = i, sb_end = e\<rparr> # batchesFrom lives targets maxBytes e"
      using 1(3) True by (subst (asm) batchesFrom.simps) (simp add: e_def Let_def)
    have "[i..<Suc e] = [i..<e] @ [e]" using e(1) by simp
    then have n: "e < length lives \<longrightarrow> sum_list (map (resourceSize lives targets) [i..<e]) + resourceSize lives targets e > maxBytes"
      using e(4) by simp
    show ?thesis using 1(1)[OF True e_def e(2) refl 1(4)] e n slice_join[of i e xs]
      by (auto simp: bs slice_of_def batchBytes_def)
  next
    case False
    then have "bs = []" using 1(3) by (subst (asm) batchesFrom.simps) simp
    then show ?thesis using False 1(2,4) by simp
  qed
qed

text \<open>The batches of a server-side comparison put every resource in exactly one request, in order, and
  keep live and target aligned; no request is empty or larger than the limit unless a single
  resource is, and none leaves out a next resource that would have fitted.\<close>

theorem batches_partition_resources:
  assumes "length targets = length lives"
  shows "concat (map (slice_of lives) (batchBySize lives targets maxBytes)) = lives \<and>
    concat (map (slice_of targets) (batchBySize lives targets maxBytes)) = targets \<and>
    list_all (\<lambda>b. slice_of lives b \<noteq> [] \<and> length (slice_of lives b) = length (slice_of targets b) \<and>
      (length (slice_of lives b) = 1 \<or> batchBytes lives targets b \<le> maxBytes) \<and>
      (sb_end b = length lives \<or> maxBytes < batchBytes lives targets b + resourceSize lives targets (sb_end b)))
      (batchBySize lives targets maxBytes)"
  using batchesFrom_spec[of 0 lives _ targets maxBytes lives] batchesFrom_spec[of 0 lives _ targets maxBytes targets] assms
  by (auto simp: batchBySize_def list_all_iff slice_of_def) 

section \<open>Results of the server-side comparison\<close>

text \<open>Documented behaviour of the API: it answers each resource of a request on its own, in order, under
  the resource's own key.\<close>

definition answers_each :: "argo_answers \<Rightarrow> deployed_app \<Rightarrow> (resource_diff \<Rightarrow> string \<Rightarrow> resource_diff) \<Rightarrow> bool" where
  "answers_each A app f =
    ((\<forall>lives targets. length lives = length targets \<longrightarrow>
        aa_serverSideDiff A (app_Name app) (app_Namespace app) (da_Project app) lives targets = Inr (map2 f lives targets)) \<and>
     (\<forall>live target. keyOfResource (f live target) = keyOfResource live))"

lemma alignSlices_spec:
  "list_all (\<lambda>i. isHookItem L i \<or> targetManifestOf L i = Inr (manifest i)) items \<Longrightarrow>
    alignSlices L resources items lives targets =
      Inr (lives @ map (liveResourceOf resources) (filter (\<lambda>i. \<not> isHookItem L i) items),
           targets @ map manifest (filter (\<lambda>i. \<not> isHookItem L i) items))"
  by (induction items arbitrary: lives targets) auto

lemma askBatches_spec: "(\<And>b. b \<in> set bs \<Longrightarrow> ask b = Inr (g b)) \<Longrightarrow> askBatches ask bs = Inr (map g bs)"
  by (induction bs) auto

lemma foldl_upd:
  "distinct (map kf xs) \<Longrightarrow>
    (foldl (\<lambda>m x. m(kf x \<mapsto> vf x)) m xs) q = (case find (\<lambda>x. kf x = q) xs of None \<Rightarrow> m q | Some x \<Rightarrow> Some (vf x))"
proof (induction xs arbitrary: m)
  case (Cons x xs)
  have "find (\<lambda>y. kf y = kf x) xs = None" using Cons.prems by (auto simp: find_None_iff image_iff)
  then show ?case using Cons by (auto split: option.splits)
qed simp

lemma keyResults_concat:
  "keyResults results = foldl (\<lambda>out item. out(keyOfResource item \<mapsto> resultOf item)) (\<lambda>_. None) (concat results)"
proof -
  have "foldl (\<lambda>out batch. foldl (\<lambda>out item. out(keyOfResource item \<mapsto> resultOf item)) out batch) m results =
      foldl (\<lambda>out item. out(keyOfResource item \<mapsto> resultOf item)) m (concat results)" for m
    by (induction results arbitrary: m) simp_all
  then show ?thesis by (simp add: keyResults_def)
qed

lemma slice_zip: "slice_of (zip xs ys) b = zip (slice_of xs b) (slice_of ys b)"
  by (simp add: slice_of_def drop_zip take_zip)

lemma liveResourceOf_key: "keyOfResource (liveResourceOf resources i) = ol_key i"
  unfolding liveResourceOf_def findResourceDiff_key
  by (auto simp: find_Some_iff placeholder_def keyOfResource_def split: option.split)

lemma find_map_key: "find (\<lambda>y. g y = q) (map h xs) = map_option h (find (\<lambda>x. g (h x) = q) xs)"
  by (induction xs) auto

lemma find_filter_conj: "find P (filter Q xs) = find (\<lambda>x. P x \<and> Q x) xs"
  by (induction xs) auto

text \<open>The size of the batches does not matter for the outcome of the server-side comparison: every
  resource that is not a hook gets the verdict of the API on its own live state and manifest (an
  empty one when it is absent), and nothing else gets one.\<close>

theorem server_side_verdict_per_resource:
  assumes "aa_appClient A = None" "answers_each A (dq_App q) f" "distinct (map ol_key items)"
    and "list_all (\<lambda>i. isHookItem L i \<or> targetManifestOf L i = Inr (manifest i)) items"
  shows "\<exists>out. serverSideDiff L A q items resources = Inr out \<and>
    out k = map_option (\<lambda>i. resultOf (f (liveResourceOf resources i) (manifest i))) (find (\<lambda>i. ol_key i = k \<and> \<not> isHookItem L i) items)"
proof -
  define xs where "xs = filter (\<lambda>i. \<not> isHookItem L i) items"
  define lives where "lives = map (liveResourceOf resources) xs"
  define targets where "targets = map manifest xs"
  define bs where "bs = batchBySize lives targets (dq_MaxBatchKB q * 1024)"
  have al: "alignSlices L resources items [] [] = Inr (lives, targets)"
    using alignSlices_spec[OF assms(4)] by (simp add: lives_def targets_def xs_def)
  have len: "length targets = length lives" by (simp add: lives_def targets_def)
  have dk: "distinct (map ol_key xs)" using assms(3) by (simp add: xs_def distinct_map_filter)
  note part = batchesFrom_spec[of 0 lives bs targets "dq_MaxBatchKB q * 1024" "zip lives targets"]
  have cat: "concat (map (slice_of (zip lives targets)) bs) = zip lives targets"
    using part len by (simp add: bs_def batchBySize_def)
  have f: "keyOfResource (f l t) = keyOfResource l" for l t using assms(2) by (simp add: answers_each_def)
  have key: "keyOfResource (f (liveResourceOf resources i) t) = ol_key i" for i t by (simp add: f liveResourceOf_key)
  let ?ask = "\<lambda>b. aa_serverSideDiff A (app_Name (dq_App q)) (app_Namespace (dq_App q)) (da_Project (dq_App q)) (slice_of lives b) (slice_of targets b)"
  have ask: "askBatches ?ask bs = Inr (map (\<lambda>b. map (case_prod f) (slice_of (zip lives targets) b)) bs)"
    using assms(2) len by (intro askBatches_spec) (simp add: answers_each_def slice_of_def drop_zip take_zip)
  have z: "concat (map (\<lambda>b. map (case_prod f) (slice_of (zip lives targets) b)) bs) =
      map (\<lambda>i. f (liveResourceOf resources i) (manifest i)) xs"
  proof -
    have "concat (map (\<lambda>b. map (case_prod f) (slice_of (zip lives targets) b)) bs) =
        map (case_prod f) (concat (map (slice_of (zip lives targets)) bs))" by (simp add: map_concat comp_def)
    also have "\<dots> = map (\<lambda>i. f (liveResourceOf resources i) (manifest i)) xs"
      unfolding cat by (simp add: lives_def targets_def zip_map_map zip_same_conv_map)
    finally show ?thesis .
  qed
  let ?out = "foldl (\<lambda>out item. out(keyOfResource item \<mapsto> resultOf item)) (\<lambda>_. None)
      (map (\<lambda>i. f (liveResourceOf resources i) (manifest i)) xs)"
  have "serverSideDiff L A q items resources = Inr ?out"
  proof (cases "lives = []")
    case True
    then show ?thesis using al by (simp add: serverSideDiff_def lives_def)
  next
    case False
    then show ?thesis using al assms(1) ask by (simp add: serverSideDiff_def Let_def bs_def[symmetric] keyResults_concat z)
  qed
  moreover have "?out k = map_option (\<lambda>i. resultOf (f (liveResourceOf resources i) (manifest i))) (find (\<lambda>i. ol_key i = k \<and> \<not> isHookItem L i) items)"
    using dk by (subst foldl_upd) (simp_all add: comp_def key find_map_key xs_def find_filter_conj split: option.split)
  ultimately show ?thesis by blast
qed

section \<open>What the check reports\<close>

definition computedOf ::
  "'o diff_lib \<Rightarrow> diff_request \<Rightarrow> argo_settings \<Rightarrow> (resource_key \<Rightarrow> diff_result option) \<Rightarrow> 'o objKeyLiveTarget \<Rightarrow> string + diff_result" where
  "computedOf L q settings ssd item =
    (case ssd (ol_key item) of Some r \<Rightarrow> Inr r | None \<Rightarrow> generateDiff L q settings item)"

text \<open>The verdict on one resource: the comparison with its predicted removals.\<close>

definition verdictOf ::
  "'o diff_lib \<Rightarrow> diff_request \<Rightarrow> argo_settings \<Rightarrow> resource_diff list \<Rightarrow> (resource_key \<Rightarrow> diff_result option) \<Rightarrow>
   'o objKeyLiveTarget \<Rightarrow> diff_result \<times> retainedField list" where
  "verdictOf L q settings resources ssd item =
    predictFieldRemovals L (dq_App q) resources item (projr (computedOf L q settings ssd item))"

definition callOf :: "'o diff_lib \<Rightarrow> 'o objKeyLiveTarget \<Rightarrow> diff_result \<Rightarrow> app_request list" where
  "callOf L item diffRes =
    (if ol_target item = None then (case isApp L (ol_key item) (dr_NormalizedLive diffRes) of None \<Rightarrow> [] | Some app \<Rightarrow> [RemoveAppCall app])
     else if ol_live item = None \<or> dr_Modified diffRes then
       (case isApp L (ol_key item) (dr_PredictedLive diffRes) of None \<Rightarrow> [] | Some app \<Rightarrow> [QueueAppCall app])
     else [])"

datatype change = Appears | Changes | Disappears | Unchanged

definition changeOf :: "'o objKeyLiveTarget \<Rightarrow> diff_result \<Rightarrow> change" where
  "changeOf item diffRes =
    (if ol_target item = None then Disappears else if ol_live item = None then Appears
     else if dr_Modified diffRes then Changes else Unchanged)"

definition countsOf :: "diff_state \<Rightarrow> change \<Rightarrow> nat" where
  "countsOf st c = (case c of Appears \<Rightarrow> ds_added st | Changes \<Rightarrow> ds_modified st | Disappears \<Rightarrow> ds_removed st | Unchanged \<Rightarrow> 0)"

lemma processResources_spec:
  "(c \<noteq> Unchanged \<longrightarrow> countsOf (processResources L item d st) c = countsOf st c + (if changeOf item d = c then 1 else 0)) \<and>
   ds_calls (processResources L item d st) = ds_calls st @ callOf L item d \<and> ds_buffer (processResources L item d st) = ds_buffer st"
  by (cases c) (auto simp: processResources_def countsOf_def changeOf_def callOf_def)

lemma addResource_prefix:
  "addResourceDiffToMessage L buf item d ret = map_sum id (\<lambda>t. buf @ t) (addResourceDiffToMessage L [] item d ret)"
  by (simp add: addResourceDiffToMessage_def Let_def split: sum.split)

definition sectionOf :: "'o diff_lib \<Rightarrow> 'o objKeyLiveTarget \<Rightarrow> diff_result \<times> retainedField list \<Rightarrow> string" where
  "sectionOf L item v = (if isReported item (fst v) (snd v) then projr (addResourceDiffToMessage L [] item (fst v) (snd v)) else [])"

lemma unreported: "\<not> isReported item d ret \<Longrightarrow> changeOf item d = Unchanged \<and> callOf L item d = []"
  by (auto simp: isReported_def changeOf_def callOf_def)

lemma diffItem_spec:
  assumes "diffItem L q settings resources ssd st item = Inr st'" "\<not> isHookItem L item"
    and "v = verdictOf L q settings resources ssd item"
  shows "(c \<noteq> Unchanged \<longrightarrow> countsOf st' c = countsOf st c + (if changeOf item (fst v) = c then 1 else 0)) \<and> ds_calls st' = ds_calls st @ callOf L item (fst v) \<and>
    ds_buffer st' = ds_buffer st @ sectionOf L item v"
proof -
  obtain computed where comp: "computedOf L q settings ssd item = Inr computed"
    using assms(1,2) by (auto simp: diffItem_def computedOf_def split: sum.splits)
  then have v: "v = predictFieldRemovals L (dq_App q) resources item computed" by (simp add: assms(3) verdictOf_def)
  obtain d ret where dr: "v = (d, ret)" by (cases v)
  with v have pr: "predictFieldRemovals L (dq_App q) resources item computed = (d, ret)" by simp
  show ?thesis
  proof (cases "isReported item d ret")
    case True
    then obtain t where t: "addResourceDiffToMessage L [] item d ret = Inr t" "st' = processResources L item d (st\<lparr>ds_buffer := ds_buffer st @ t\<rparr>)"
      using assms(1,2) comp pr addResource_prefix[of L "ds_buffer st" item d ret]
      by (cases "addResourceDiffToMessage L [] item d ret") (auto simp: diffItem_def computedOf_def[symmetric])
    then show ?thesis using processResources_spec[of c L item d "st\<lparr>ds_buffer := ds_buffer st @ t\<rparr>"] True dr t
      by (cases c) (auto simp: sectionOf_def countsOf_def)
  next
    case False
    then show ?thesis using assms(1,2) comp pr dr unreported[OF False, of L]
      by (simp add: diffItem_def computedOf_def[symmetric] sectionOf_def)
  qed
qed

lemma diff_loop_spec:
  assumes "untilError (diffItem L q settings resources ssd) st items = (st', None)"
  shows "(c \<noteq> Unchanged \<longrightarrow> countsOf st' c = countsOf st c +
      count_list (map (\<lambda>i. changeOf i (fst (verdictOf L q settings resources ssd i))) (filter (\<lambda>i. \<not> isHookItem L i) items)) c) \<and>
    ds_calls st' = ds_calls st @ concat (map (\<lambda>i. callOf L i (fst (verdictOf L q settings resources ssd i))) (filter (\<lambda>i. \<not> isHookItem L i) items)) \<and>
    ds_buffer st' = ds_buffer st @ concat (map (\<lambda>i. sectionOf L i (verdictOf L q settings resources ssd i)) (filter (\<lambda>i. \<not> isHookItem L i) items))"
  using assms
proof (induction items arbitrary: st)
  case (Cons item items)
  then obtain st1 where st1: "diffItem L q settings resources ssd st item = Inr st1"
    "untilError (diffItem L q settings resources ssd) st1 items = (st', None)" by (auto split: sum.splits)
  show ?case
  proof (cases "isHookItem L item")
    case True
    then show ?thesis using Cons.IH[OF st1(2)] st1(1) by (simp add: diffItem_def)
  next
    case False
    then show ?thesis using Cons.IH[OF st1(2)] diffItem_spec[OF st1(1) False refl, of c] by auto
  qed
qed simp

text \<open>The results that the check uses: those of the server-side comparison, when it is enabled and did
  not fail.\<close>

definition usedResults ::
  "'o diff_lib \<Rightarrow> argo_answers \<Rightarrow> diff_request \<Rightarrow> 'o objKeyLiveTarget list \<Rightarrow> resource_diff list \<Rightarrow> (resource_key \<Rightarrow> diff_result option)" where
  "usedResults L A q items resources =
    (if dq_ArgoCDServerSideDiff q then (case serverSideDiff L A q items resources of Inl err \<Rightarrow> (\<lambda>_. None) | Inr out \<Rightarrow> out)
     else (\<lambda>_. None))"

lemma diff_Check_parts:
  assumes "collectItems L A q ks = Inr (settings, resources, items)" "diff_Check L A q ks = (Inr res, calls)"
  obtains st fellBack where "untilError (diffItem L q settings resources (usedResults L A q items resources)) diff_start items = (st, None)"
    "diffSummary st fellBack = (res_Summary res, res_NoChangesDetected res)"
    "res_Details res = diffDetails (ds_buffer st)" "calls = ds_calls st"
    "fellBack \<longleftrightarrow> dq_ArgoCDServerSideDiff q \<and> isl (serverSideDiff L A q items resources)"
  using assms
  by (force simp: diff_Check_def usedResults_def Let_def split: prod.splits option.splits if_splits sum.splits)

definition changeSummary :: "(change \<Rightarrow> nat) \<Rightarrow> string" where
  "changeSummary n = (if n Appears = 0 \<and> n Changes = 0 \<and> n Disappears = 0 then ''No changes''
     else itoa (n Appears) @ '' added, '' @ itoa (n Changes) @ '' modified, '' @ itoa (n Disappears) @ '' removed'')"

text \<open>A check that succeeds reports exactly the changes.  Its details are the sections of the resources
  that change or lose fields, in order; the counts in its summary are the numbers of resources that
  appear, change and disappear, and it claims that there are none exactly when all three are zero;
  the child applications among those resources are queued or removed, one call for each.\<close>

theorem diff_reports_every_change:
  assumes "collectItems L A q ks = Inr (settings, resources, items)" "diff_Check L A q ks = (Inr res, calls)"
    and "compared = filter (\<lambda>i. \<not> isHookItem L i) items"
    and "v = verdictOf L q settings resources (usedResults L A q items resources)"
    and "n = count_list (map (\<lambda>i. changeOf i (fst (v i))) compared)"
  shows "res_Details res = diffDetails (concat (map (\<lambda>i. sectionOf L i (v i)) compared)) \<and>
    (res_NoChangesDetected res \<longleftrightarrow> n Appears = 0 \<and> n Changes = 0 \<and> n Disappears = 0) \<and>
    has_prefix (res_Summary res) (changeSummary n) \<and>
    calls = concat (map (\<lambda>i. callOf L i (fst (v i))) compared)"
proof -
  obtain st fb where st: "untilError (diffItem L q settings resources (usedResults L A q items resources)) diff_start items = (st, None)"
    "diffSummary st fb = (res_Summary res, res_NoChangesDetected res)" "res_Details res = diffDetails (ds_buffer st)" "calls = ds_calls st"
    using diff_Check_parts[OF assms(1,2)] by metis
  note spec = diff_loop_spec[OF st(1), folded assms(3,4), folded assms(5)]
  have n: "ds_added st = n Appears" "ds_modified st = n Changes" "ds_removed st = n Disappears"
    using spec[of Appears] spec[of Changes] spec[of Disappears] by (simp_all add: countsOf_def diff_start_def)
  have "snd (diffSummary st fb) \<longleftrightarrow> n Appears = 0 \<and> n Changes = 0 \<and> n Disappears = 0"
    by (simp add: diffSummary_def Let_def n)
  moreover have "has_prefix (fst (diffSummary st fb)) (changeSummary n)"
    by (simp add: diffSummary_def Let_def n changeSummary_def has_prefix_iff del: itoa.simps)
  ultimately show ?thesis using spec st(2-4) by (simp add: diff_start_def)
qed

section \<open>The text for other checks\<close>

lemma textItem_diffItem:
  "textItem L q settings resources (ds_buffer st) item =
    map_sum id ds_buffer (diffItem L q settings resources (\<lambda>_. None) st item)"
proof -
  have "ds_buffer (processResources L item d s) = ds_buffer s" for d s using processResources_spec by blast
  then show ?thesis
    by (simp add: textItem_def diffItem_def split: sum.split prod.split)
qed

lemma text_loop:
  "untilError (textItem L q settings resources) (ds_buffer st) items =
    map_prod ds_buffer id (untilError (diffItem L q settings resources (\<lambda>_. None)) st items)"
  by (induction items arbitrary: st) (auto simp: textItem_diffItem split: sum.split)

text \<open>The text given to the AI review is what the check itself shows, whenever the check compares
  locally: because server-side comparison is off, or because it failed.  The two also fail
  together, with the same error.\<close>

theorem review_text_is_the_checked_diff:
  assumes "\<not> dq_ArgoCDServerSideDiff q \<or> (\<exists>settings resources items err.
      collectItems L A q ks = Inr (settings, resources, items) \<and> serverSideDiff L A q items resources = Inl err)"
  shows "map_sum id diffDetails (GenerateDiffText L A q ks) = map_sum id res_Details (fst (diff_Check L A q ks))"
proof (cases "collectItems L A q ks")
  case (Inr c)
  obtain settings resources items where c: "c = (settings, resources, items)" by (cases c)
  obtain st e where st: "untilError (diffItem L q settings resources (\<lambda>_. None)) diff_start items = (st, e)" by (metis prod.exhaust)
  have t: "untilError (textItem L q settings resources) [] items = (ds_buffer st, e)"
    using text_loop[of L q settings resources diff_start items] st by (simp add: diff_start_def)
  have "\<not> dq_ArgoCDServerSideDiff q \<or> (\<exists>err. serverSideDiff L A q items resources = Inl err)" using assms Inr c by auto
  then show ?thesis using Inr c st t
    by (cases e) (auto simp: GenerateDiffText_def diff_Check_def Let_def split: prod.split)
qed (simp add: GenerateDiffText_def diff_Check_def)

section \<open>An example\<close>

text \<open>A deployment whose replicas a scaler owns, a rendered child application, a config map that git
  dropped, and a secret.\<close>

definition demo_key :: "string \<Rightarrow> string \<Rightarrow> string \<Rightarrow> resource_key" where
  "demo_key grp kind name = \<lparr>rk_Group = grp, rk_Kind = kind, rk_Namespace = ''ns'', rk_Name = name\<rparr>"

definition demo_deployment :: resource_key where "demo_deployment = demo_key ''apps'' ''Deployment'' ''web''"

definition demo_child :: application where
  "demo_child = \<lparr>app_Name = ''child'', app_Namespace = ''ns'', app_Spec = \<lparr>sp_Source = None, sp_Sources = [],
     sp_DestinationName = [], sp_DestinationServer = []\<rparr>\<rparr>"

definition demo_dapp :: deployed_app where
  "demo_dapp = \<lparr>app_Name = ''parent'', app_Namespace = ''ns'', app_Spec = \<lparr>sp_Source = None, sp_Sources = [],
     sp_DestinationName = [], sp_DestinationServer = []\<rparr>, da_DestinationNamespace = ''ns'', da_Project = ''p'',
     da_SyncOptions = Some [''ServerSideApply=true'']\<rparr>"

definition demo_dlib :: "(resource_key \<times> json) diff_lib" where
  "demo_dlib = \<lparr>
    dl_unmarshal = (\<lambda>s. if s = ''web'' then Inr (demo_deployment, demo_target)
      else if s = ''scaled'' then Inr (demo_deployment, JObj [(''labels'', JObj [(''app'', JStr ''w''), (''old'', JStr ''x'')])])
      else if s = ''child'' then Inr (demo_key ''argoproj.io'' ''Application'' ''child'', JNull)
      else if s = ''token'' then Inr (demo_key [] ''Secret'' ''token'', JNull) else Inl ''bad manifest''),
    dl_LiveObjects = (\<lambda>rs. Inr []),
    dl_decodeState = (\<lambda>s. if s = ''null'' then Inr None else if s = ''web'' then Inr (Some (demo_deployment, demo_live))
      else Inr (Some (demo_key [] ''ConfigMap'' s, JNull))),
    dl_IsHook = (\<lambda>_. False), dl_Ignore = (\<lambda>_. False), dl_IsCRD = (\<lambda>_. False), dl_GetResourceKey = fst, dl_keyString = rk_Name,
    dl_Normalize = (\<lambda>_ objs _. Inr objs), dl_SetAppInstance = (\<lambda>_ _ _. Inr), dl_InstanceName = (\<lambda>app _. app_Name app),
    dl_buildConfig = (\<lambda>_ _. None),
    dl_StateDiff = (\<lambda>_ _ live target. Inr \<lparr>dr_Modified = (target = None \<or> live = None),
      dr_PredictedLive = (case live of None \<Rightarrow> ''new'' | Some _ \<Rightarrow> ''live''), dr_NormalizedLive = ''live''\<rparr>),
    dl_HasOption = (\<lambda>opts opt. opt \<in> set opts), dl_HasAnnotationOption = (\<lambda>_ _ _. False),
    dl_managedFields = (\<lambda>s. if s = ''raw'' then Some demo_entries else None),
    dl_object = snd, dl_decodeJson = (\<lambda>_. Inr demo_live), dl_encodeJson = (\<lambda>_. ''predicted''), dl_values = demo_lib,
    dl_marshal = (\<lambda>o'. Inr (rk_Name (fst o'))), dl_decodePredicted = (\<lambda>s. (demo_key [] [] s, JNull)),
    dl_yaml = (\<lambda>o'. Inr (rk_Name (fst o'))), dl_unified = (\<lambda>a b n. ''-'' @ a @ '' +'' @ b @ [nl]),
    dl_decodeApp = (\<lambda>_. Inr demo_child)\<rparr>"

definition demo_resource :: "string \<Rightarrow> string \<Rightarrow> string \<Rightarrow> resource_diff" where
  "demo_resource grp kind name = \<lparr>rd_Group = grp, rd_Kind = kind, rd_Namespace = ''ns'', rd_Name = name, rd_NormalizedLiveState = name,
     rd_LiveState = ''raw'', rd_TargetState = [], rd_Modified = False\<rparr>"

definition demo_resources :: "resource_diff list" where
  "demo_resources = [demo_resource ''apps'' ''Deployment'' ''web'', demo_resource [] ''ConfigMap'' ''old'', demo_resource [] ''Secret'' ''token'']"

definition demo_settings :: argo_settings where
  "demo_settings = \<lparr>st_AppLabelKey = [], st_TrackingMethod = [], st_InstallationID = [], st_ControllerNamespace = []\<rparr>"

definition demo_answers :: argo_answers where
  "demo_answers = \<lparr>aa_settingsClient = None, aa_settings = Inr demo_settings, aa_appClient = None, aa_managed = (\<lambda>_ _. Inr demo_resources),
     aa_serverSideDiff = (\<lambda>_ _ _ ls ts. Inr (map2 (\<lambda>l t. l\<lparr>rd_TargetState := t, rd_Modified := True\<rparr>) ls ts))\<rparr>"

definition demo_dreq :: "string list \<Rightarrow> diff_request" where
  "demo_dreq mfsts = \<lparr>dq_App = demo_dapp, dq_JsonManifests = mfsts, dq_ArgoCDNamespace = ''argocd'', dq_ArgoCDServerSideDiff = False, dq_MaxBatchKB = 1\<rparr>"

definition demo_order :: "resource_key list" where
  "demo_order = [demo_key ''argoproj.io'' ''Application'' ''child'', demo_deployment, demo_key [] ''Secret'' ''token'']"

theorem diff_reports_every_change_witness:
  "\<exists>res. diff_Check demo_dlib demo_answers (demo_dreq [''web'', ''child'', ''oops?'', ''token'']) demo_order = (Inr res, [QueueAppCall demo_child]) \<and>
    \<not> res_NoChangesDetected res \<and> has_prefix (res_Summary res) ''1 added, 1 modified, 1 removed''"
proof -
  let ?q = "demo_dreq [''web'', ''child'', ''oops?'', ''token'']"
  let ?items = "case collectItems demo_dlib demo_answers ?q demo_order of Inr (_, _, items) \<Rightarrow> items"
  have "snd (diff_Check demo_dlib demo_answers ?q demo_order) = [QueueAppCall demo_child] \<and> \<not> isl (fst (diff_Check demo_dlib demo_answers ?q demo_order))"
    by code_simp
  then obtain res where r: "diff_Check demo_dlib demo_answers ?q demo_order = (Inr res, [QueueAppCall demo_child])"
    by (metis prod.collapse sum.collapse(2))
  have c: "collectItems demo_dlib demo_answers ?q demo_order = Inr (demo_settings, demo_resources, ?items)" by code_simp
  have m: "map (\<lambda>i. changeOf i (fst (verdictOf demo_dlib ?q demo_settings demo_resources (\<lambda>_. None) i)))
      (filter (\<lambda>i. \<not> isHookItem demo_dlib i) ?items) = [Changes, Disappears, Appears]" by code_simp
  have n: "count_list [Changes, Disappears, Appears] = (\<lambda>c. if c = Unchanged then 0 else 1)"
  proof
    show "count_list [Changes, Disappears, Appears] c = (if c = Unchanged then 0 else 1)" for c by (cases c) simp_all
  qed
  have u: "usedResults demo_dlib demo_answers ?q ?items demo_resources = (\<lambda>_. None)" by (simp add: usedResults_def demo_dreq_def)
  have s: "changeSummary (\<lambda>c. if c = Unchanged then 0 else 1) = ''1 added, 1 modified, 1 removed''" by code_simp
  show ?thesis
    using diff_reports_every_change[OF c r refl refl refl] r
    by (simp add: u m n s del: has_prefix_Cons count_list.simps)
qed

theorem every_resource_is_compared_once_witness:
  "\<exists>items. groupObjsForDiff demo_dlib demo_settings ''parent'' ''ns'' demo_resources
      [demo_deployment \<mapsto> (demo_deployment, demo_target), demo_key [] ''Secret'' ''token'' \<mapsto> (demo_key [] ''Secret'' ''token'', JNull)]
      [demo_deployment, demo_key [] ''Secret'' ''token''] = Inr items \<and>
    demo_deployment \<in> ol_key ` set items \<and> demo_key [] ''Secret'' ''token'' \<notin> ol_key ` set items"
proof -
  let ?objs = "[demo_deployment \<mapsto> (demo_deployment, demo_target), demo_key [] ''Secret'' ''token'' \<mapsto> (demo_key [] ''Secret'' ''token'', JNull)]"
  let ?ks = "[demo_deployment, demo_key [] ''Secret'' ''token'']"
  have d: "distinct (map keyOfResource demo_resources)" by code_simp
  have k: "keys_of ?objs ?ks" by (auto simp: keys_of_def demo_deployment_def demo_key_def)
  have "\<not> isl (groupObjsForDiff demo_dlib demo_settings ''parent'' ''ns'' demo_resources ?objs ?ks)" by code_simp
  then obtain items where g: "groupObjsForDiff demo_dlib demo_settings ''parent'' ''ns'' demo_resources ?objs ?ks = Inr items"
    by (metis sum.collapse(2))
  have "\<not> isCoreSecret demo_deployment" "isCoreSecret (demo_key [] ''Secret'' ''token'')" by code_simp+
  then show ?thesis
    using every_resource_is_compared_once[OF d k g, of demo_deployment]
      every_resource_is_compared_once[OF d k g, of "demo_key [] ''Secret'' ''token''"] g by auto
qed

theorem batches_partition_resources_witness:
  "concat (map (slice_of demo_resources) (batchBySize demo_resources [''web'', [], ''token''] 7)) = demo_resources \<and>
   map (\<lambda>b. (sb_start b, sb_end b)) (batchBySize demo_resources [''web'', [], ''token''] 10) = [(0, 2), (2, 3)]"
proof -
  have "length [''web'', [], ''token''] = length demo_resources" by (simp add: demo_resources_def)
  moreover have "map (\<lambda>b. (sb_start b, sb_end b)) (batchBySize demo_resources [''web'', [], ''token''] 10) = [(0, 2), (2, 3)]" by code_simp
  ultimately show ?thesis using batches_partition_resources[of _ demo_resources 7] by blast
qed

theorem server_side_verdict_per_resource_witness:
  "\<exists>out. serverSideDiff demo_dlib demo_answers (demo_dreq [])
      [\<lparr>ol_key = demo_deployment, ol_live = None, ol_target = Some (demo_deployment, JNull)\<rparr>] [] = Inr out \<and>
    out demo_deployment = Some \<lparr>dr_Modified = True, dr_PredictedLive = ''web'', dr_NormalizedLive = []\<rparr>"
proof -
  let ?items = "[\<lparr>ol_key = demo_deployment, ol_live = None, ol_target = Some (demo_deployment, JNull)\<rparr>]"
  let ?f = "\<lambda>l t. l\<lparr>rd_TargetState := t, rd_Modified := True\<rparr>"
  have a: "aa_appClient demo_answers = None" by (simp add: demo_answers_def)
  have e: "answers_each demo_answers (dq_App (demo_dreq [])) ?f"
    by (simp add: answers_each_def demo_answers_def keyOfResource_def)
  have d: "distinct (map ol_key ?items)" by simp
  have m: "list_all (\<lambda>i. isHookItem demo_dlib i \<or> targetManifestOf demo_dlib i = Inr ((\<lambda>_. ''web'') i)) ?items" by code_simp
  have h: "\<not> isHookItem demo_dlib (hd ?items)" by code_simp
  have "resultOf (?f (liveResourceOf [] (hd ?items)) ''web'') = \<lparr>dr_Modified = True, dr_PredictedLive = ''web'', dr_NormalizedLive = []\<rparr>" by code_simp
  then show ?thesis using server_side_verdict_per_resource[OF a e d m, of "[]" demo_deployment] h by simp
qed

theorem review_text_is_the_checked_diff_witness:
  "map_sum id diffDetails (GenerateDiffText demo_dlib demo_answers (demo_dreq [''web'']) []) =
   map_sum id res_Details (fst (diff_Check demo_dlib demo_answers (demo_dreq [''web'']) []))"
  by (rule review_text_is_the_checked_diff) (simp add: demo_dreq_def)

text \<open>A resource whose only difference is a field that a sync keeps is reported in the details and
  counted nowhere, so that the result claims that nothing changes; and such results are dropped
  from the report with their details.\<close>

lemma retained_fields_count_as_unchanged:
  "(case diff_Check demo_dlib (demo_answers\<lparr>aa_managed := (\<lambda>_ _. Inr [demo_resource ''apps'' ''Deployment'' ''web''])\<rparr>) (demo_dreq [''scaled'']) [] of
      (Inr res, _) \<Rightarrow> res_NoChangesDetected res \<and> str_contains (res_Details res) ''! removed from git but kept on sync''
    | _ \<Rightarrow> False)"
  by code_simp

end
