(* ===== verification/AiSummary.thy ===== *)
theory AiSummary
  imports DiffCheck
begin

text \<open>
  \<open>pkg/checks/diff/ai_summary.go\<close>: the summary of a diff that a language model writes, added to the
  note of the application by the check.  The chat with the provider is an argument; the clean-up of
  its answer is a loop that is shown to end.
\<close>

section \<open>The provider\<close>

datatype provider_kind = AnthropicProvider | OpenaiProvider

text \<open>A provider as \<open>New\<close> builds it: its key and the model used when a request names none.\<close>

record chat_provider =
  cp_kind :: provider_kind
  cp_apiKey :: string
  cp_model :: string

record summary_config =
  sc_Provider :: string
  sc_Model :: string
  sc_AnthropicAPIKey :: string
  sc_OpenAIAPIToken :: string

definition anthropicNew :: "string \<Rightarrow> string \<Rightarrow> string + chat_provider" where
  "anthropicNew apiKey model =
    (if apiKey = [] then Inl ''anthropic API key is required''
     else Inr \<lparr>cp_kind = AnthropicProvider, cp_apiKey = apiKey, cp_model = model\<rparr>)"

definition openaiNew :: "string \<Rightarrow> string \<Rightarrow> string + chat_provider" where
  "openaiNew apiKey model =
    (if apiKey = [] then Inl ''openai API key is required''
     else Inr \<lparr>cp_kind = OpenaiProvider, cp_apiKey = apiKey, cp_model = model\<rparr>)"

definition newDiffSummaryProvider :: "summary_config \<Rightarrow> string + chat_provider" where
  "newDiffSummaryProvider cfg =
    (if sc_Provider cfg = ''anthropic'' then
       (if sc_AnthropicAPIKey cfg = [] then Inl ''anthropic API key not configured''
        else anthropicNew (sc_AnthropicAPIKey cfg) (sc_Model cfg))
     else if sc_Provider cfg = ''openai'' then
       (if sc_OpenAIAPIToken cfg = [] then Inl ''openai API key not configured''
        else openaiNew (sc_OpenAIAPIToken cfg) (sc_Model cfg))
     else if sc_OpenAIAPIToken cfg \<noteq> [] then openaiNew (sc_OpenAIAPIToken cfg) ''gpt-4o''
     else Inl ''no AI provider configured for diff summary'')"

section \<open>Cleaning the answer\<close>

definition word_char :: "char \<Rightarrow> bool" where
  "word_char c = (let n = (of_char c :: nat) in
    48 \<le> n \<and> n \<le> 57 \<or> 65 \<le> n \<and> n \<le> 90 \<or> 97 \<le> n \<and> n \<le> 122 \<or> n = 95)"

text \<open>Replacing \<open>^```(\w+)\<close> by nothing.\<close>

definition stripCodeOpen :: "string \<Rightarrow> string" where
  "stripCodeOpen s =
    (if has_prefix s ''```'' \<and> takeWhile word_char (drop 3 s) \<noteq> [] then dropWhile word_char (drop 3 s) else s)"

definition cleanStep :: "string \<Rightarrow> string" where
  "cleanStep s = trim_space (trim_suffix (trim_suffix (trim_prefix (stripCodeOpen s) ''#***'') ''```'') ''#***'')"

definition shrinks :: "(string \<Rightarrow> string) \<Rightarrow> bool" where
  "shrinks f \<longleftrightarrow> (\<forall>s. sublist (f s) s)"

lemma shrinks_comp: "shrinks f \<Longrightarrow> shrinks g \<Longrightarrow> shrinks (\<lambda>s. f (g s))"
  by (meson shrinks_def sublist_order.order_trans)

lemma shrinks_trim_prefix: "shrinks (\<lambda>s. trim_prefix s p)"
  by (simp add: shrinks_def trim_prefix_def)

lemma shrinks_trim_suffix: "shrinks (\<lambda>s. trim_suffix s p)"
  by (simp add: shrinks_def trim_suffix_def)

lemma shrinks_stripCodeOpen: "shrinks stripCodeOpen"
  by (auto simp: shrinks_def stripCodeOpen_def intro: suffix_imp_sublist suffix_order.order_trans[OF suffix_dropWhile suffix_drop])

lemma trim_space_left_rev_drop: "\<exists>k. trim_space_left_rev s = drop k s"
proof (induction s rule: trim_space_left_rev.induct)
  case (1 s)
  show ?case
  proof (cases "space_len_rev s = 0")
    case True
    then have "trim_space_left_rev s = drop 0 s" by (subst trim_space_left_rev.simps) simp
    then show ?thesis by blast
  next
    case False
    then obtain k where "trim_space_left_rev (drop (space_len_rev s) s) = drop k (drop (space_len_rev s) s)"
      using 1 by blast
    then have "trim_space_left_rev s = drop (k + space_len_rev s) s"
      using False by (subst trim_space_left_rev.simps) simp
    then show ?thesis by blast
  qed
qed

lemma shrinks_trim_space: "shrinks trim_space"
  unfolding shrinks_def trim_space_def
proof
  fix s
  obtain k j where "trim_space_left s = drop k s" "trim_space_left_rev (rev (drop k s)) = drop j (rev (drop k s))"
    using trim_space_left_drop trim_space_left_rev_drop by metis
  then show "sublist (rev (trim_space_left_rev (rev (trim_space_left s)))) s"
    by (metis rev_drop rev_rev_ident sublist_drop sublist_order.order_trans sublist_take)
qed

lemma shrinks_cleanStep: "shrinks cleanStep"
  unfolding cleanStep_def[abs_def]
  by (intro shrinks_comp[OF shrinks_trim_space] shrinks_comp[OF shrinks_trim_suffix] shrinks_comp[OF shrinks_trim_prefix]
      shrinks_stripCodeOpen)

lemma shrinks_less: "shrinks f \<Longrightarrow> f s \<noteq> s \<Longrightarrow> length (f s) < length s"
proof -
  assume "shrinks f" "f s \<noteq> s"
  then obtain ps ss where "s = ps @ f s @ ss" "ps \<noteq> [] \<or> ss \<noteq> []" unfolding shrinks_def sublist_def by (metis append_Nil append_Nil2)
  then have "length s = length ps + length (f s) + length ss" "0 < length ps + length ss" by (metis length_append add.assoc, auto)
  then show "length (f s) < length s" by linarith
qed

function cleanLoop :: "string \<Rightarrow> string" where
  "cleanLoop s = (let next' = cleanStep s in if next' = s then s else cleanLoop next')"
  by pat_completeness auto
termination
  by (relation "measure length") (use shrinks_less[OF shrinks_cleanStep] in auto)

declare cleanLoop.simps [simp del]

definition cleanUpAiSummary :: "string \<Rightarrow> string" where
  "cleanUpAiSummary aiSummary = trim_space (cleanLoop (trim_space aiSummary))"

section \<open>The summary\<close>

record chat_request =
  cr_Model :: string
  cr_SystemPrompt :: string
  cr_User :: string
  cr_MaxTokens :: nat

definition diffSummarySystemPrompt :: string where
  "diffSummarySystemPrompt = ''You are a helpful Kubernetes expert.'' @ [nl] @
    ''You can summarize Kubernetes YAML manifests for application developers that may not be familiar with all Kubernetes resource types.'' @ [nl] @
    ''Answer as concisely as possible.''"

definition diffSummaryUserPrompt :: "string \<Rightarrow> string \<Rightarrow> string" where
  "diffSummaryUserPrompt name diff =
    ''Provide a concise summary of the diff (surrounded by the chars \"#***\")'' @ [nl] @
    ''that will be applied to the Kubernetes YAML manifests for an application named: '' @ name @ [nl] @
    ''Use natural language, bullet points, emoji and format as Gitlab flavored markdown.'' @ [nl] @
    ''Describe the impact of each change.'' @ [nl, nl] @ ''#***'' @ [nl] @ diff @ [nl] @ ''#***'' @ [nl]"

definition summaryResult :: "string \<Rightarrow> string \<Rightarrow> result" where
  "summaryResult summary details = \<lparr>res_State = StateNone, res_Summary = summary, res_Details = details,
     res_NoChangesDetected = False, res_Sticky = False\<rparr>"

text \<open>The note is absent in runs without one.\<close>

definition aiDiffSummary ::
  "(chat_provider \<Rightarrow> chat_request \<Rightarrow> string + string) \<Rightarrow> message option \<Rightarrow> summary_config \<Rightarrow> string \<Rightarrow> string \<Rightarrow> message option" where
  "aiDiffSummary chat mrNote cfg name diff =
    (case mrNote of
       None \<Rightarrow> None
     | Some m \<Rightarrow>
         (case newDiffSummaryProvider cfg of
            Inl err \<Rightarrow> Some m
          | Inr provider \<Rightarrow>
              (case chat provider \<lparr>cr_Model = sc_Model cfg, cr_SystemPrompt = diffSummarySystemPrompt,
                      cr_User = diffSummaryUserPrompt name diff, cr_MaxTokens = 500\<rparr> of
                 Inl err \<Rightarrow> Some (AddToAppMessage name (summaryResult ''failed to summarize diff'' err) m)
               | Inr reply \<Rightarrow>
                   let aiSummary = cleanUpAiSummary reply in
                   if aiSummary = [] then Some m
                   else Some (AddToAppMessage name (summaryResult ''<b>Show AI Summary Diff</b>'' aiSummary) m))))"

section \<open>Properties\<close>

lemma cleanLoop_fixpoint: "cleanStep (cleanLoop s) = cleanLoop s \<and> sublist (cleanLoop s) s"
proof (induction s rule: cleanLoop.induct)
  case (1 s)
  show ?case
  proof (cases "cleanStep s = s")
    case True
    then show ?thesis by (subst (1 2 3) cleanLoop.simps) (simp add: Let_def)
  next
    case False
    have "cleanLoop s = cleanLoop (cleanStep s)" using False by (subst cleanLoop.simps) (simp add: Let_def)
    moreover have "sublist (cleanStep s) s" using shrinks_cleanStep by (simp add: shrinks_def)
    ultimately show ?thesis using 1[OF refl False] sublist_order.order_trans by metis
  qed
qed

text \<open>A fixpoint of the step is a fixpoint of each of its parts, which only take away.\<close>

lemma shrinks_fixpoint: "shrinks f \<Longrightarrow> shrinks g \<Longrightarrow> f (g s) = s \<Longrightarrow> g s = s \<and> f s = s"
  unfolding shrinks_def by (metis subseq_order.antisym sublist_imp_subseq)

lemma cleanStep_fixpoint:
  assumes "cleanStep s = s"
  shows "trim_space s = s \<and> trim_suffix s ''#***'' = s \<and> trim_suffix s ''```'' = s \<and> trim_prefix s ''#***'' = s \<and> stripCodeOpen s = s"
proof -
  let ?a = "\<lambda>s. trim_prefix (stripCodeOpen s) ''#***''"
  let ?b = "\<lambda>s. trim_suffix (?a s) ''```''"
  let ?c = "\<lambda>s. trim_suffix (?b s) ''#***''"
  have a: "shrinks ?a" by (rule shrinks_comp[OF shrinks_trim_prefix shrinks_stripCodeOpen])
  have b: "shrinks ?b" by (rule shrinks_comp[OF shrinks_trim_suffix a])
  have c: "shrinks ?c" by (rule shrinks_comp[OF shrinks_trim_suffix b])
  have 1: "?c s = s \<and> trim_space s = s" using shrinks_fixpoint[OF shrinks_trim_space c] assms unfolding cleanStep_def by blast
  then have 2: "?b s = s \<and> trim_suffix s ''#***'' = s" using shrinks_fixpoint[OF shrinks_trim_suffix b] by blast
  then have 3: "?a s = s \<and> trim_suffix s ''```'' = s" using shrinks_fixpoint[OF shrinks_trim_suffix a] by blast
  then have "stripCodeOpen s = s \<and> trim_prefix s ''#***'' = s" using shrinks_fixpoint[OF shrinks_trim_prefix shrinks_stripCodeOpen] by blast
  then show ?thesis using 1 2 3 by simp
qed

lemma trim_suffix_fixpoint: "p \<noteq> [] \<Longrightarrow> trim_suffix s p = s \<Longrightarrow> \<not> has_suffix s p"
  by (auto simp: has_suffix_iff)

lemma trim_prefix_fixpoint: "p \<noteq> [] \<Longrightarrow> trim_prefix s p = s \<Longrightarrow> \<not> has_prefix s p"
  by (auto simp: has_prefix_iff)

lemma stripCodeOpen_fixpoint:
  assumes "stripCodeOpen s = s" "has_prefix s ''```''"
  shows "takeWhile word_char (drop 3 s) = []"
proof (rule ccontr)
  assume n: "takeWhile word_char (drop 3 s) \<noteq> []"
  then have "s = dropWhile word_char (drop 3 s)" using assms by (simp add: stripCodeOpen_def)
  then have "length s \<le> length (drop 3 s)" by (metis length_dropWhile_le)
  then show False using n by auto
qed

text \<open>The clean-up of an AI summary ends for every answer; what remains is a part of the answer, free of
  surrounding space, of the marks around the diff and of a closing fence, and it does not open with
  a fence that names a language; cleaning it again changes nothing.\<close>

theorem cleaned_summary_is_bare:
  shows "sublist (cleanUpAiSummary s) s \<and> trim_space (cleanUpAiSummary s) = cleanUpAiSummary s \<and>
    \<not> has_prefix (cleanUpAiSummary s) ''#***'' \<and> \<not> has_suffix (cleanUpAiSummary s) ''#***'' \<and>
    \<not> has_suffix (cleanUpAiSummary s) ''```'' \<and>
    (\<not> has_prefix (cleanUpAiSummary s) ''```'' \<or> takeWhile word_char (drop 3 (cleanUpAiSummary s)) = []) \<and>
    cleanUpAiSummary (cleanUpAiSummary s) = cleanUpAiSummary s"
proof -
  let ?r = "cleanLoop (trim_space s)"
  note f = cleanStep_fixpoint[OF conjunct1[OF cleanLoop_fixpoint[of "trim_space s"]]]
  have r: "cleanUpAiSummary s = ?r" using f by (simp add: cleanUpAiSummary_def)
  have "cleanLoop ?r = ?r" using cleanLoop_fixpoint[of "trim_space s"] by (subst cleanLoop.simps) (simp add: Let_def)
  then have again: "cleanUpAiSummary ?r = ?r" using f by (simp add: cleanUpAiSummary_def)
  have "sublist ?r s" using cleanLoop_fixpoint[of "trim_space s"] shrinks_trim_space
    unfolding shrinks_def by (meson sublist_order.order_trans)
  then show ?thesis unfolding r again
    using f trim_suffix_fixpoint[of "''#***''" ?r] trim_suffix_fixpoint[of "''```''" ?r] trim_prefix_fixpoint[of "''#***''" ?r]
      stripCodeOpen_fixpoint[of ?r] by blast
qed

text \<open>The request always names the configured model, so that the one the fallback provider is built with
  is used only when none is configured.\<close>

lemma fallback_model_is_overridden:
  "aiDiffSummary (\<lambda>p r. Inr (cp_model p @ ''/'' @ cr_Model r)) (Some (NewMessage ''o/r'' 1 2))
     \<lparr>sc_Provider = [], sc_Model = ''claude'', sc_AnthropicAPIKey = [], sc_OpenAIAPIToken = ''t''\<rparr> ''app'' ''diff'' =
   Some (AddToAppMessage ''app'' (summaryResult ''<b>Show AI Summary Diff</b>'' ''gpt-4o/claude'') (NewMessage ''o/r'' 1 2))"
proof -
  have "cleanUpAiSummary ''gpt-4o/claude'' = ''gpt-4o/claude''" by code_simp
  then show ?thesis by (simp add: aiDiffSummary_def newDiffSummaryProvider_def openaiNew_def)
qed

section \<open>The check with its summary\<close>

text \<open>The end of \<open>Check\<close>: the summary is asked for the text that the details show between their fences.\<close>

definition renderedDiff :: "result \<Rightarrow> string" where
  "renderedDiff res = (let body = drop (length ''```diff'' + 1) (res_Details res) in take (length body - 4) body)"

lemma renderedDiff_details: "res_Details res = diffDetails rendered \<Longrightarrow> renderedDiff res = rendered"
  by (simp add: renderedDiff_def diffDetails_def Let_def)

definition diff_CheckOnNote ::
  "(chat_provider \<Rightarrow> chat_request \<Rightarrow> string + string) \<Rightarrow> bool \<Rightarrow> summary_config \<Rightarrow> string \<Rightarrow> message option \<Rightarrow>
   'o diff_lib \<Rightarrow> argo_answers \<Rightarrow> diff_request \<Rightarrow> resource_key list \<Rightarrow>
   (string + result) \<times> app_request list \<times> message option" where
  "diff_CheckOnNote chat enableSummary cfg name note L A q ks =
    (case diff_Check L A q ks of
       (Inl err, calls) \<Rightarrow> (Inl err, calls, note)
     | (Inr res, calls) \<Rightarrow> (Inr res, calls, if enableSummary then aiDiffSummary chat note cfg name (renderedDiff res) else note))"

text \<open>The summary never touches the results of other applications, and adds at most one.\<close>

lemma summary_adds_one_result:
  assumes "diff_CheckOnNote chat enableSummary cfg name (Some m) L A q ks = (out, calls, note)"
  shows "note = Some m \<or> (\<exists>summary details. note = Some (AddToAppMessage name (summaryResult summary details) m) \<and> enableSummary \<and> \<not> isl out)"
  using assms
  by (auto simp: diff_CheckOnNote_def aiDiffSummary_def Let_def split: prod.splits sum.splits if_splits)

end
