(* ===== verification/GoText.thy ===== *)
theory GoText
  imports GoStrings
begin

text \<open>
  Further functions of Go's standard library on text: \<open>strings.Split\<close> with a separator, \<open>strings.ToUpper\<close>,
  and the verbs \<open>%q\<close>, \<open>%4d\<close> and \<open>%v\<close> of \<open>fmt\<close>.  The standard library, so nothing here maps to a
  line of the repository.
\<close>

text \<open>\<open>strings.Split(s, sep)\<close> for a separator that is not empty.\<close>

function str_split :: "string \<Rightarrow> string \<Rightarrow> string list" where
  "str_split sep s =
    (case (if sep = [] then None else str_index s sep) of
       None \<Rightarrow> [s]
     | Some i \<Rightarrow> take i s # str_split sep (drop (i + length sep) s))"
  by pat_completeness auto
termination
proof (relation "measure (\<lambda>(sep, s). length s)", simp)
  fix sep s i
  assume "(if sep = [] then None else str_index s sep) = Some i"
  then have "sep \<noteq> []" "str_index s sep = Some i" by (auto split: if_splits)
  then have "has_prefix (drop i s) sep" using str_index_Some by blast
  then have "drop i s \<noteq> []" using \<open>sep \<noteq> []\<close> by (auto simp: has_prefix_def)
  then show "((sep, drop (i + length sep) s), (sep, s)) \<in> measure (\<lambda>(sep, s). length s)"
    using \<open>sep \<noteq> []\<close> by (cases sep) auto
qed

declare str_split.simps [simp del]

text \<open>Letters other than the ASCII ones are left as they are: none of them has an upper case that occurs in
  the words the program compares with.\<close>

definition upper_char :: "char \<Rightarrow> char" where
  "upper_char c = (let n = of_char c :: nat in if 97 \<le> n \<and> n \<le> 122 then char_of (n - 32) else c)"

definition to_upper :: "string \<Rightarrow> string" where
  "to_upper s = map upper_char s"

text \<open>\<open>%q\<close>: bytes from 0x80 are taken to belong to printable runes, which are kept.\<close>

definition hex_digit :: "nat \<Rightarrow> char" where
  "hex_digit n = (if n < 10 then char_of (48 + n) else char_of (87 + n))"

definition quote_char :: "char \<Rightarrow> string" where
  "quote_char c =
    (let n = (of_char c :: nat) in
     if n = 34 then [char_of (92::nat), c] else if n = 92 then [c, c]
     else if n = 7 then char_of (92::nat) # ''a'' else if n = 8 then char_of (92::nat) # ''b''
     else if n = 12 then char_of (92::nat) # ''f'' else if n = 10 then char_of (92::nat) # ''n''
     else if n = 13 then char_of (92::nat) # ''r'' else if n = 9 then char_of (92::nat) # ''t''
     else if n = 11 then char_of (92::nat) # ''v''
     else if n < 32 \<or> n = 127 then char_of (92::nat) # CHR ''x'' # [hex_digit (n div 16), hex_digit (n mod 16)]
     else [c])"

definition go_quote :: "string \<Rightarrow> string" where
  "go_quote s = CHR 0x22 # concat (map quote_char s) @ [CHR 0x22]"

text \<open>\<open>%4d\<close> of a number that is not negative, and \<open>%v\<close> of a slice of strings.\<close>

definition pad4 :: "nat \<Rightarrow> string" where
  "pad4 n = replicate (4 - length (itoa n)) (CHR '' '') @ itoa n"

definition show_slice :: "string list \<Rightarrow> string" where
  "show_slice xs = ''['' @ str_join '' '' xs @ '']''"

section \<open>Splitting\<close>

lemma str_split_nonempty [simp]: "str_split sep s \<noteq> []"
  by (subst str_split.simps) (simp split: option.split)

lemma str_join_split [simp]: "sep \<noteq> [] \<Longrightarrow> str_join sep (str_split sep s) = s"
proof (induction sep s rule: str_split.induct)
  case (1 sep s)
  show ?case
  proof (cases "str_index s sep")
    case None
    then show ?thesis by (subst str_split.simps) simp
  next
    case (Some i)
    then have "s = take i s @ sep @ drop (i + length sep) s"
      using str_cut_Some[of s sep "take i s" "drop (i + length sep) s"] by (simp add: str_cut_def)
    moreover have "str_split sep s = take i s # str_split sep (drop (i + length sep) s)"
      using Some 1(2) by (subst str_split.simps) simp
    moreover have "str_join sep (str_split sep (drop (i + length sep) s)) = drop (i + length sep) s"
      using 1(1)[of i] Some 1(2) by simp
    ultimately show ?thesis by (metis str_join_Cons str_split_nonempty)
  qed
qed

text \<open>A separator whose last character does not occur before in it cannot overlap itself.\<close>

lemma str_index_last:
  assumes "\<not> str_contains a (p @ [c])" "c \<notin> set p"
  shows "str_index (a @ p @ c # t) (p @ [c]) = Some (length a)"
proof -
  let ?s = "a @ p @ c # t"
  have "\<not> has_prefix (drop j ?s) (p @ [c])" if j: "j < length a" for j
  proof
    assume h: "has_prefix (drop j ?s) (p @ [c])"
    show False
    proof (cases "j + length (p @ [c]) \<le> length a")
      case True
      then have "has_prefix (drop j a) (p @ [c])" using has_prefix_drop_append[OF True] h by blast
      then show False using assms(1) str_index_None by (auto simp: str_contains_def)
    next
      case False
      define k where "k = j + length p - length a"
      have k: "j + length p = length a + k" "k < length p" using False j by (auto simp: k_def)
      have "?s ! (j + length p) = c" using has_prefix_nth[OF h, of "length p"] by simp
      moreover have "?s ! (j + length p) = p ! k" using k by (simp add: nth_append)
      ultimately show False using assms(2) k(2) nth_mem by metis
    qed
  qed
  moreover have "has_prefix (drop (length a) ?s) (p @ [c])" by (simp add: has_prefix_iff)
  ultimately show ?thesis using str_index_eqI[of "length a" ?s "p @ [c]"] by simp
qed

lemma str_split_sections:
  assumes "list_all (\<lambda>x. \<not> str_contains x (p @ [c])) xs" "c \<notin> set p" "\<not> str_contains a (p @ [c])"
  shows "str_split (p @ [c]) (a @ concat (map (\<lambda>x. p @ c # x) xs)) = a # xs"
  using assms
proof (induction xs arbitrary: a)
  case Nil
  then show ?case by (subst str_split.simps) (simp add: str_contains_def)
next
  case (Cons x xs)
  have "str_index (a @ p @ c # x @ concat (map (\<lambda>x. p @ c # x) xs)) (p @ [c]) = Some (length a)"
    using str_index_last[of a p c "x @ concat (map (\<lambda>x. p @ c # x) xs)"] Cons.prems by simp
  then show ?case using Cons by (subst str_split.simps) simp
qed

end
