(* ===== verification/HelmCharts.thy ===== *)
theory HelmCharts
  imports GoPaths GoText
begin

text \<open>
  \<open>pkg/helmchart/cache.go\<close>: Helm charts extracted on disk.  A state of the disk says which directories
  exist and which files have which content; downloading a chart, which Helm does, is an argument
  that yields the files of the chart below the name of its directory.
\<close>

section \<open>Paths\<close>

definition chartPath :: "string \<Rightarrow> string \<Rightarrow> string \<Rightarrow> string + string" where
  "chartPath cacheDir chart version =
    (let cleanChart = path_clean chart; cleanVersion = path_clean version in
     if cleanChart \<noteq> chart \<or> cleanVersion \<noteq> version \<or> rooted cleanChart \<or> rooted cleanVersion \<or>
        str_contains cleanChart ''..'' \<or> str_contains cleanVersion ''..''
     then Inl (''invalid chart '' @ go_quote chart @ '' or version '' @ go_quote version @ '': path traversal detected'')
     else Inr (path_join [cacheDir, cleanChart, cleanVersion]))"

section \<open>The cache\<close>

text \<open>A chart on disk: the paths of its files relative to its directory, with their contents.\<close>

type_synonym chart_files = "(string \<times> string) list"

type_synonym chart_disk = "string \<Rightarrow> chart_files option"

text \<open>\<open>EnsureChart\<close> runs under the lock of the cache.  The pull yields the directories it extracted,
  the first named as the chart when there is one; the temporary directory is gone afterwards.\<close>

definition EnsureChart ::
  "(string \<Rightarrow> string \<Rightarrow> string \<Rightarrow> string + (string \<times> chart_files) list) \<Rightarrow> string \<Rightarrow> string \<Rightarrow> string \<Rightarrow> string \<Rightarrow> chart_disk \<Rightarrow>
   (string + string) \<times> chart_disk" where
  "EnsureChart pull cacheDir repoURL chart version disk =
    (case chartPath cacheDir chart version of
       Inl err \<Rightarrow> (Inl err, disk)
     | Inr chartDir \<Rightarrow>
         if disk chartDir \<noteq> None then (Inr chartDir, disk)
         else (case pull repoURL chart version of
                 Inl err \<Rightarrow> (Inl (''failed to pull chart '' @ chart @ ''@'' @ version @ '': '' @ err), disk)
               | Inr dirs \<Rightarrow>
                   (case (case map_of dirs chart of Some files \<Rightarrow> Some files
                          | None \<Rightarrow> (case dirs of [] \<Rightarrow> None | d # _ \<Rightarrow> Some (snd d))) of
                      None \<Rightarrow> (Inl (''no chart directory found after extracting '' @ chart @ ''@'' @ version), disk)
                    | Some files \<Rightarrow> (Inr chartDir, disk(chartDir \<mapsto> files)))))"

definition ListFiles :: "string \<Rightarrow> string \<Rightarrow> string \<Rightarrow> chart_disk \<Rightarrow> string + string list" where
  "ListFiles cacheDir chart version disk =
    (case chartPath cacheDir chart version of
       Inl err \<Rightarrow> Inl err
     | Inr chartDir \<Rightarrow>
         (case disk chartDir of
            None \<Rightarrow> Inl (''chart '' @ chart @ ''@'' @ version @ '' not cached'')
          | Some files \<Rightarrow> Inr (map fst files)))"

text \<open>Reading a file by its full path is an argument: its content, or no such file, or another error.\<close>

datatype file_answer = FileData string | FileMissing | FileError string

definition ReadChartFile ::
  "(string \<Rightarrow> file_answer) \<Rightarrow> string \<Rightarrow> string \<Rightarrow> string \<Rightarrow> string \<Rightarrow> string + string" where
  "ReadChartFile read cacheDir chart version path =
    (case chartPath cacheDir chart version of
       Inl err \<Rightarrow> Inl err
     | Inr chartDir \<Rightarrow>
         let fullPath = path_join [chartDir, path_clean path] in
         if \<not> has_prefix fullPath (chartDir @ [slash]) then Inl (''invalid path: '' @ path)
         else (case read fullPath of
                 FileMissing \<Rightarrow> Inl (''file '' @ go_quote path @ '' not found in chart '' @ chart @ ''@'' @ version)
               | FileError err \<Rightarrow> Inl (''failed to read '' @ path @ '': '' @ err)
               | FileData data \<Rightarrow> Inr data))"

record chart_dependency =
  cd_Name :: string
  cd_Version :: string
  cd_Repository :: string

definition ParseDependencies ::
  "(string \<Rightarrow> file_answer) \<Rightarrow> (string \<Rightarrow> string + chart_dependency list) \<Rightarrow> string \<Rightarrow> string + chart_dependency list" where
  "ParseDependencies read parse chartYAMLPath =
    (case read chartYAMLPath of
       FileMissing \<Rightarrow> Inl ''failed to read Chart.yaml: file does not exist''
     | FileError err \<Rightarrow> Inl (''failed to read Chart.yaml: '' @ err)
     | FileData data \<Rightarrow> (case parse data of Inl err \<Rightarrow> Inl (''failed to parse Chart.yaml: '' @ err) | Inr deps \<Rightarrow> Inr deps))"

section \<open>Confinement\<close>

lemma no_dots_pushes:
  "list_all (\<lambda>c. c \<noteq> ''..'') cs \<Longrightarrow> \<exists>new. foldl (clean_push r) st cs = new @ st"
proof (induction cs arbitrary: st)
  case (Cons c cs)
  then obtain new where n: "foldl (clean_push r) (clean_push r st c) cs = new @ clean_push r st c" by auto
  have "clean_push r st c = st \<or> clean_push r st c = [c] @ st" using Cons.prems by (simp add: clean_push_def)
  then have "\<exists>new'. new @ clean_push r st c = new' @ st" by (metis append_assoc)
  then show ?case using n by simp
qed simp

lemma split_char_sublist: "c \<in> set (split_char d s) \<Longrightarrow> sublist c s"
proof (induction s arbitrary: c)
  case (Cons x s)
  obtain l ls where l: "split_char d s = l # ls" by (cases "split_char d s") auto
  have "sublist l s" using Cons.IH l by simp
  moreover have "prefix l s"
  proof -
    have "str_join [d] (l # ls) = s" using str_join_split_char[of d s] l by simp
    then show ?thesis by (cases ls) (auto simp: prefix_def)
  qed
  moreover have "sublist z (x # s)" if "sublist z s" for z using that by (auto simp: sublist_def) (metis append_Cons)
  ultimately show ?case using Cons l by (auto simp: sublist_def prefix_def split: if_splits) (metis append_Cons append_Nil)+
qed simp

lemma no_dots_comps: "\<not> str_contains p ''..'' \<Longrightarrow> list_all (\<lambda>c. c \<noteq> ''..'') (split_char slash p)"
  unfolding list_all_iff str_contains_iff using split_char_sublist by metis

text \<open>A path joined below a rooted directory without going up stays below it.\<close>

lemma render_below:
  "render_state (True, new @ st) = render_state (True, st) \<or>
   has_prefix (render_state (True, new @ st)) (render_state (True, st) @ (if st = [] then [] else [slash]))"
proof (cases "new = [] \<or> st = []")
  case True
  then show ?thesis by (auto simp: render_state_def has_prefix_iff)
next
  case False
  have j: "xs \<noteq> [] \<Longrightarrow> ys \<noteq> [] \<Longrightarrow> str_join [slash] (xs @ ys) = str_join [slash] xs @ slash # str_join [slash] ys" for xs ys
  proof (induction xs)
    case (Cons x xs)
    then show ?case by (cases xs) (auto simp: str_join_Cons)
  qed simp
  show ?thesis using False j[of "rev st" "rev new"] by (auto simp: render_state_def has_prefix_iff)
qed

lemma chartPath_below:
  assumes "chartPath cacheDir chart version = Inr d" "rooted cacheDir" "path_clean cacheDir \<noteq> ''/''"
  shows "d = path_clean cacheDir \<or> has_prefix d (path_clean cacheDir @ [slash])"
proof -
  define bad where "bad \<longleftrightarrow> path_clean chart \<noteq> chart \<or> path_clean version \<noteq> version \<or> rooted (path_clean chart) \<or> rooted (path_clean version) \<or>
      str_contains (path_clean chart) ''..'' \<or> str_contains (path_clean version) ''..''"
  have p: "chartPath cacheDir chart version = (if bad then Inl (''invalid chart '' @ go_quote chart @ '' or version '' @ go_quote version @ '': path traversal detected'')
      else Inr (path_join [cacheDir, path_clean chart, path_clean version]))"
    unfolding chartPath_def Let_def bad_def by (rule refl)
  have nb: "\<not> bad" using assms(1) unfolding p by (metis sum.distinct(1))
  note nbs = nb[unfolded bad_def de_Morgan_disj not_not]
  have e: "path_clean chart = chart" "path_clean version = version" by (rule conjunct1[OF nbs], rule conjunct1[OF conjunct2[OF nbs]])
  have ok: "\<not> str_contains chart ''..''" "\<not> str_contains version ''..''" using nbs by (simp_all only: e simp_thms)
  have "chartPath cacheDir chart version = Inr (path_join [cacheDir, chart, version])" unfolding p if_not_P[OF nb] e by (rule refl)
  then have d: "d = path_join [cacheDir, chart, version]" unfolding assms(1) sum.inject .
  have c: "cacheDir \<noteq> []" using assms(2) by (auto simp: rooted_def)
  have st: "fst (clean_state cacheDir)" "snd (clean_state cacheDir) \<noteq> []"
    using assms(2,3) by (auto simp: clean_state_def path_clean_state render_state_def)
  have "d = render_state (clean_below (clean_state cacheDir) (chart @ slash # version))"
    using c by (simp add: d path_join_def path_clean_state clean_state_below)
  moreover have "list_all (\<lambda>c. c \<noteq> ''..'') (split_char slash (chart @ slash # version))"
    using no_dots_comps ok by (simp add: split_char_append)
  then obtain new where n: "foldl (clean_push True) (snd (clean_state cacheDir)) (split_char slash (chart @ slash # version)) = new @ snd (clean_state cacheDir)"
    using no_dots_pushes by blast
  have "clean_below (clean_state cacheDir) (chart @ slash # version) = (True, new @ snd (clean_state cacheDir))"
    using st(1) n by (simp add: clean_below_def)
  ultimately have r: "d = render_state (True, new @ snd (clean_state cacheDir))" by simp
  have "path_clean cacheDir = render_state (True, snd (clean_state cacheDir))"
    using st(1) by (metis path_clean_state prod.collapse)
  then show ?thesis using render_below[of new "snd (clean_state cacheDir)"] st(2) r by simp
qed

text \<open>Whatever chart, version and path a language model asks for, only files below the cache directory are
  read: what lies elsewhere on the disk cannot influence the answer.\<close>

theorem chart_reads_are_confined:
  assumes "rooted cacheDir" "path_clean cacheDir \<noteq> ''/''"
    and "\<And>p. has_prefix p (path_clean cacheDir @ ''/'') \<Longrightarrow> read p = read' p"
  shows "ReadChartFile read cacheDir chart version path = ReadChartFile read' cacheDir chart version path"
proof (cases "chartPath cacheDir chart version")
  case (Inr d)
  let ?f = "path_join [d, path_clean path]"
  have "read ?f = read' ?f" if "has_prefix ?f (d @ [slash])"
  proof -
    have "has_prefix ?f (path_clean cacheDir @ ''/'')"
      using that chartPath_below[OF Inr assms(1,2)] by (auto simp: has_prefix_iff)
    then show ?thesis by (rule assms(3))
  qed
  then show ?thesis using Inr by (simp add: ReadChartFile_def Let_def)
qed (simp add: ReadChartFile_def)

theorem chart_reads_are_confined_witness:
  "ReadChartFile (\<lambda>p. if p = ''/cache/web/1.0/values.yaml'' then FileData ''a: 1'' else FileData ''secret'') ''/cache'' ''web'' ''1.0'' ''./values.yaml'' = Inr ''a: 1'' \<and>
   ReadChartFile (\<lambda>p. if p = ''/cache/web/1.0/values.yaml'' then FileData ''a: 1'' else FileData ''secret'') ''/cache'' ''web'' ''1.0'' ''../../../etc/passwd'' =
   ReadChartFile (\<lambda>p. if has_prefix p ''/cache/'' then (if p = ''/cache/web/1.0/values.yaml'' then FileData ''a: 1'' else FileData ''secret'') else FileMissing)
     ''/cache'' ''web'' ''1.0'' ''../../../etc/passwd''"
proof -
  have r: "rooted ''/cache''" "path_clean ''/cache'' = ''/cache''" by code_simp+
  have "ReadChartFile (\<lambda>p. if p = ''/cache/web/1.0/values.yaml'' then FileData ''a: 1'' else FileData ''secret'') ''/cache'' ''web'' ''1.0'' ''./values.yaml'' = Inr ''a: 1''"
    by code_simp
  then show ?thesis
    using chart_reads_are_confined[of "''/cache''" "\<lambda>p. if p = ''/cache/web/1.0/values.yaml'' then FileData ''a: 1'' else FileData ''secret''"
        "\<lambda>p. if has_prefix p ''/cache/'' then (if p = ''/cache/web/1.0/values.yaml'' then FileData ''a: 1'' else FileData ''secret'') else FileMissing"
        "''web''" "''1.0''" "''../../../etc/passwd''"] r by simp
qed

text \<open>The directory of a chart does not depend on the repository it comes from: a second chart with the
  name and version of a cached one is answered with the first.\<close>

lemma chart_of_other_repository:
  assumes "chartPath cacheDir chart version = Inr d" "disk d = None"
    and "pull repo1 chart version = Inr [(chart, files)]"
  shows "EnsureChart pull cacheDir repo2 chart version (snd (EnsureChart pull cacheDir repo1 chart version disk)) =
    (Inr d, disk(d \<mapsto> files))"
  using assms by (simp add: EnsureChart_def)

end
