(* ===== verification/AiAgent.thy ===== *)
theory AiAgent
  imports AiPrompts HelmCharts DiffCheck VcsTypes
begin

text \<open>
  \<open>pkg/aireview\<close>: the review agent, its collectors and its tools (\<open>agent.go\<close>, \<open>suggestion.go\<close>,
  \<open>recommendation.go\<close>, \<open>aggregator.go\<close>, \<open>tools/\<close>).  What the language model replies is an argument, a
  function of the conversation; so is the order in which the tool calls of one reply, which run
  concurrently, take effect.  Schemas and descriptions of the tools, which only the model reads,
  and log lines are left out.
\<close>

section \<open>Collectors\<close>

record recommendation_entry =
  re_Recommendation :: string
  re_Reason :: string
  re_Source :: string

definition MapRecommendation :: "string \<Rightarrow> commit_state" where
  "MapRecommendation rec =
    (let r = to_upper rec in
     if r = ''FLAG'' then StateError else if r = ''WARN'' then StateWarning
     else if r = ''APPROVE'' then StateSuccess else StateNone)"

definition recommendationEmoji :: "string \<Rightarrow> string" where
  "recommendationEmoji rec =
    (let r = to_upper rec in
     if r = ''FLAG'' then '':red_circle:'' else if r = ''WARN'' then '':warning:''
     else if r = ''APPROVE'' then '':white_check_mark:'' else '':question:'')"

definition recommendationState :: "recommendation_entry list \<Rightarrow> commit_state" where
  "recommendationState entries = foldl (\<lambda>worst e. WorstState worst (MapRecommendation (re_Recommendation e))) StateNone entries"

definition recommendationRow :: "nat \<Rightarrow> recommendation_entry \<Rightarrow> string" where
  "recommendationRow i e = ''| '' @ itoa (i + 1) @ '' | '' @ recommendationEmoji (re_Recommendation e) @ '' '' @ re_Recommendation e @
     '' | '' @ re_Source e @ '' | '' @ re_Reason e @ '' |'' @ [nl]"

definition recommendationSummary :: "recommendation_entry list \<Rightarrow> string" where
  "recommendationSummary entries =
    (if entries = [] then []
     else ''<details>'' @ [nl] @ ''<summary><b>Recommendation Chain</b> '' @ [CHR 0xE2, CHR 0x80, CHR 0x94] @ '' Final: '' @
       BareString (recommendationState entries) @ '' (worst-wins)</summary>'' @ [nl, nl] @
       ''| # | Recommendation | Source | Reason |'' @ [nl] @ ''|---|----------------|--------|--------|'' @ [nl] @
       concat (map (\<lambda>(i, e). recommendationRow i e) (enumerate 0 entries)) @ [nl] @ ''</details>'')"

text \<open>What a review has collected: suggestions and recommendations, each list in the order of the calls.\<close>

record review_notes =
  rn_suggestions :: "review_suggestion list"
  rn_recommendations :: "recommendation_entry list"

definition no_notes :: review_notes where
  "no_notes = \<lparr>rn_suggestions = [], rn_recommendations = []\<rparr>"

section \<open>Tools\<close>

text \<open>A tool takes the arguments of the call and yields its output or an error, with its effect on the
  notes.\<close>

type_synonym executor = "string \<Rightarrow> review_notes \<Rightarrow> (string + string) \<times> review_notes"

record review_tool =
  tl_Name :: string
  tl_Execute :: executor

text \<open>Decoding the arguments, YAML and JSON belongs to libraries.\<close>

record resource_query =
  qr_AppName :: string
  qr_Group :: string
  qr_Kind :: string
  qr_Name :: string
  qr_Namespace :: string

record review_lib =
  rl_suggestion :: "string \<Rightarrow> string + review_suggestion"
  rl_recommendation :: "string \<Rightarrow> string + recommendation_entry"
  rl_appName :: "string \<Rightarrow> string + string"
  rl_resourceQuery :: "string \<Rightarrow> string + resource_query"
  rl_chartParams :: "string \<Rightarrow> string + (string \<times> string \<times> string)"
  rl_manifestKind :: "string \<Rightarrow> string option"
  rl_live :: "string \<Rightarrow> string + json"
  rl_marshal :: "json \<Rightarrow> string"

definition invalidInput :: "string \<Rightarrow> string" where
  "invalidInput err = ''invalid input: '' @ err"

definition PostSuggestionTool :: "review_lib \<Rightarrow> string list \<Rightarrow> review_tool" where
  "PostSuggestionTool L changedFiles =
    \<lparr>tl_Name = ''post_suggestion'',
     tl_Execute = (\<lambda>input st.
       case rl_suggestion L input of
         Inl err \<Rightarrow> (Inl (invalidInput err), st)
       | Inr s \<Rightarrow>
           if sg_Path s = [] then (Inr (''Error: '' @ [CHR 0x27] @ ''path'' @ [CHR 0x27] @ '' is required.''), st)
           else if sg_EndLine s \<le> 0 then (Inr (''Error: '' @ [CHR 0x27] @ ''end_line'' @ [CHR 0x27] @ '' must be a positive integer.''), st)
           else if sg_Suggestion s = [] then (Inr (''Error: '' @ [CHR 0x27] @ ''suggestion'' @ [CHR 0x27] @ '' is required.''), st)
           else if sg_Path s \<notin> set changedFiles then
             (Inr (''Error: file '' @ go_quote (sg_Path s) @ '' is not part of this PR'' @ [CHR 0x27] @
               ''s changed files. Can only suggest changes to: '' @ show_slice changedFiles), st)
           else (Inr ''Suggestion recorded. It will be posted as a review comment after the review completes.'',
                 st\<lparr>rn_suggestions := rn_suggestions st @ [s]\<rparr>))\<rparr>"

definition SubmitRecommendationTool :: "review_lib \<Rightarrow> review_tool" where
  "SubmitRecommendationTool L =
    \<lparr>tl_Name = ''submit_recommendation'',
     tl_Execute = (\<lambda>input st.
       case rl_recommendation L input of
         Inl err \<Rightarrow> (Inl (invalidInput err), st)
       | Inr e \<Rightarrow>
           let rec = to_upper (re_Recommendation e) in
           if rec \<noteq> ''APPROVE'' \<and> rec \<noteq> ''WARN'' \<and> rec \<noteq> ''FLAG'' then
             (Inr (''Error: recommendation must be APPROVE, WARN, or FLAG (got '' @ go_quote (re_Recommendation e) @ '')''), st)
           else if re_Reason e = [] then (Inr ''Error: reason is required'', st)
           else if re_Source e = [] then (Inr ''Error: source is required'', st)
           else let st' = st\<lparr>rn_recommendations := rn_recommendations st @ [e\<lparr>re_Recommendation := rec\<rparr>]\<rparr>
                in (Inr (''Recommendation recorded: '' @ rec @ '' ('' @ re_Source e @ ''). Total recommendations so far: '' @
                      itoa (length (rn_recommendations st'))), st'))\<rparr>"

definition excludedKinds :: "string set" where
  "excludedKinds = {''CustomResourceDefinition'', ''Secret''}"

text \<open>The kind in the header of a section, between the last slash before the first space and that space.\<close>

definition extractKindFromDiffHeader :: "string \<Rightarrow> string" where
  "extractKindFromDiffHeader sect =
    (let header = takeWhile (\<lambda>c. c \<noteq> nl) sect;
         groupKind = takeWhile (\<lambda>c. c \<noteq> CHR '' '') header
     in rev (takeWhile (\<lambda>c. c \<noteq> slash) (rev groupKind)))"

definition filterDiffSections :: "string \<Rightarrow> string" where
  "filterDiffSections diff =
    concat (map (\<lambda>sect. ''===== '' @ sect)
      (filter (\<lambda>sect. sect \<noteq> [] \<and> extractKindFromDiffHeader sect \<notin> excludedKinds) (str_split ''===== '' diff)))"

definition DiffTool :: "string \<Rightarrow> review_tool" where
  "DiffTool diff =
    \<lparr>tl_Name = ''get_diff'',
     tl_Execute = (\<lambda>input st.
       if diff = [] then (Inr ''No changes detected.'', st)
       else let filtered = filterDiffSections diff in
         if filtered = [] then (Inr ''No changes detected (CRDs and Secrets excluded).'', st) else (Inr filtered, st))\<rparr>"

definition maxManifestBytes :: nat where "maxManifestBytes = 100000"

definition dash :: string where "dash = [CHR 0xE2, CHR 0x80, CHR 0x94]"

definition isExcludedKind :: "review_lib \<Rightarrow> string \<Rightarrow> bool" where
  "isExcludedKind L manifest = (case rl_manifestKind L manifest of None \<Rightarrow> False | Some k \<Rightarrow> k \<in> excludedKinds)"

definition filterManifests :: "review_lib \<Rightarrow> string list \<Rightarrow> string list" where
  "filterManifests L manifests = filter (\<lambda>m. \<not> isExcludedKind L m) manifests"

definition truncateAt :: "string \<Rightarrow> string \<Rightarrow> string" where
  "truncateAt what s =
    (if length s > maxManifestBytes then take maxManifestBytes s @ [nl, nl] @ ''[truncated '' @ dash @ '' '' @ what @ '' exceeded size limit]'' else s)"

definition RenderedManifestsTool :: "review_lib \<Rightarrow> string list \<Rightarrow> review_tool" where
  "RenderedManifestsTool L yamlManifests =
    \<lparr>tl_Name = ''get_rendered_manifests'',
     tl_Execute = (\<lambda>input st.
       let filtered = filterManifests L yamlManifests in
       if filtered = [] then (Inr ''No manifests available (CRDs and Secrets excluded).'', st)
       else (Inr (truncateAt ''manifests'' (str_join ([nl] @ ''---'' @ [nl]) filtered)), st))\<rparr>"

text \<open>The encoder sorts the keys of a map.\<close>

definition AppInfoTool :: "review_lib \<Rightarrow> string \<Rightarrow> string \<Rightarrow> string \<Rightarrow> string \<Rightarrow> string \<Rightarrow> review_tool" where
  "AppInfoTool L appName namespace cluster project sourceInfo =
    \<lparr>tl_Name = ''get_app_info'',
     tl_Execute = (\<lambda>input st.
       (Inr (rl_marshal L (JObj [(''cluster'', JStr cluster), (''name'', JStr appName), (''namespace'', JStr namespace),
          (''project'', JStr project), (''source'', JStr sourceInfo)])), st))\<rparr>"

section \<open>Resources of Argo CD\<close>

text \<open>Deleting a key of an object; the fields that repeat the object are deleted from what is shown.\<close>

definition json_delete :: "string \<Rightarrow> (string \<times> json) list \<Rightarrow> (string \<times> json) list" where
  "json_delete k m = filter (\<lambda>(k', _). k' \<noteq> k) m"

definition json_update :: "string \<Rightarrow> (json \<Rightarrow> json) \<Rightarrow> (string \<times> json) list \<Rightarrow> (string \<times> json) list" where
  "json_update k f m = map (\<lambda>(k', v). (k', if k' = k then f v else v)) m"

definition cleanAnnotations :: "json \<Rightarrow> json" where
  "cleanAnnotations v = (case v of JObj m \<Rightarrow> JObj (json_delete ''kubectl.kubernetes.io/last-applied-configuration'' m) | _ \<Rightarrow> v)"

definition cleanMetadata :: "json \<Rightarrow> json" where
  "cleanMetadata v = (case v of JObj m \<Rightarrow> JObj (json_update ''annotations'' cleanAnnotations (json_delete ''managedFields'' m)) | _ \<Rightarrow> v)"

definition cleanObject :: "json \<Rightarrow> json" where
  "cleanObject v = (case v of JObj m \<Rightarrow> JObj (json_update ''metadata'' cleanMetadata m) | _ \<Rightarrow> v)"

definition marshalCompact :: "review_lib \<Rightarrow> json \<Rightarrow> string" where
  "marshalCompact L v = truncateAt ''response'' (rl_marshal L v)"

text \<open>The Argo CD client: its error, or the resources of an application by name (none at all is \<open>None\<close>).\<close>

record review_argo =
  ra_client :: "string option"
  ra_managed :: "string \<Rightarrow> string + resource_diff list option"

definition resourceItem :: "review_lib \<Rightarrow> resource_diff \<Rightarrow> json" where
  "resourceItem L r =
    JObj ([(''group'', JStr (rd_Group r)), (''kind'', JStr (rd_Kind r))] @
      (if rd_LiveState r = [] then [] else (case rl_live L (rd_LiveState r) of Inl err \<Rightarrow> [] | Inr v \<Rightarrow> [(''live'', cleanObject v)])) @
      [(''name'', JStr (rd_Name r)), (''namespace'', JStr (rd_Namespace r))])"

definition queryItems :: "review_lib \<Rightarrow> resource_diff list \<Rightarrow> json list" where
  "queryItems L resources = map (resourceItem L) (filter (\<lambda>r. rd_Kind r \<noteq> ''Secret'') resources)"

definition QueryAppResourcesTool :: "review_lib \<Rightarrow> review_argo \<Rightarrow> review_tool" where
  "QueryAppResourcesTool L A =
    \<lparr>tl_Name = ''query_app_resources'',
     tl_Execute = (\<lambda>input st. (case rl_appName L input of
         Inl err \<Rightarrow> Inl (invalidInput err)
       | Inr appName \<Rightarrow>
           (case ra_client A of
              Some err \<Rightarrow> Inl err
            | None \<Rightarrow>
                (case ra_managed A appName of
                   Inl err \<Rightarrow> Inr (''Failed to get resources for app '' @ go_quote appName @ '': '' @ err)
                 | Inr answer \<Rightarrow>
                     let resources = (case answer of None \<Rightarrow> [] | Some rs \<Rightarrow> rs) in
                     if resources = [] then
                       Inr (''No managed resources found for app '' @ go_quote appName @ '' (app may be new or not yet synced).'')
                     else let items = queryItems L resources
                          in Inr (marshalCompact L (if items = [] then JNull else JList items)))), st))\<rparr>"

definition resourceMatches :: "resource_query \<Rightarrow> resource_diff \<Rightarrow> bool" where
  "resourceMatches q r =
    (EqualFold (rd_Kind r) (qr_Kind q) \<and> (qr_Group q = [] \<or> rd_Group r = qr_Group q) \<and>
     rd_Name r = qr_Name q \<and> rd_Namespace r = qr_Namespace q)"

definition availableLine :: "resource_diff \<Rightarrow> string" where
  "availableLine r = rd_Group r @ ''/'' @ rd_Kind r @ '' '' @ rd_Namespace r @ ''/'' @ rd_Name r"

definition GetAppResourceTool :: "review_lib \<Rightarrow> review_argo \<Rightarrow> review_tool" where
  "GetAppResourceTool L A =
    \<lparr>tl_Name = ''get_app_resource'',
     tl_Execute = (\<lambda>input st. (case rl_resourceQuery L input of
         Inl err \<Rightarrow> Inl (invalidInput err)
       | Inr q \<Rightarrow>
           if EqualFold (qr_Kind q) ''Secret'' then Inr ''Secret resources are excluded from AI review to prevent leaking sensitive data.''
           else (case ra_client A of
              Some err \<Rightarrow> Inl err
            | None \<Rightarrow>
                (case ra_managed A (qr_AppName q) of
                   Inl err \<Rightarrow> Inr (''Failed to get resources for app '' @ go_quote (qr_AppName q) @ '': '' @ err)
                 | Inr None \<Rightarrow> Inr (''No resources found for app '' @ go_quote (qr_AppName q) @ ''.'')
                 | Inr (Some resources) \<Rightarrow>
                     (case find (resourceMatches q) resources of
                        Some r \<Rightarrow>
                          if rd_LiveState r = [] then
                            Inr (''Resource '' @ qr_Kind q @ ''/'' @ qr_Name q @ '' found but has no live state (not yet deployed).'')
                          else (case rl_live L (rd_LiveState r) of
                                  Inl err \<Rightarrow> Inr (''Failed to parse live state: '' @ err)
                                | Inr v \<Rightarrow> Inr (marshalCompact L (cleanObject v)))
                      | None \<Rightarrow>
                          Inr (''Resource '' @ qr_Kind q @ ''/'' @ qr_Name q @ '' not found in app '' @ go_quote (qr_AppName q) @
                            ''. Available resources:'' @ [nl] @ str_join [nl] (map availableLine resources))))), st))\<rparr>"

section \<open>Helm charts\<close>

record chart_source =
  cs_Name :: string
  cs_Version :: string
  cs_Repository :: string

definition buildRepoMap :: "chart_source list \<Rightarrow> string strmap" where
  "buildRepoMap sources = foldl (\<lambda>m s. m(cs_Name s \<mapsto> cs_Repository s)) (\<lambda>_. None) sources"

definition formatAvailableCharts :: "chart_source list \<Rightarrow> string" where
  "formatAvailableCharts sources = str_join '', '' (map (\<lambda>s. cs_Name s @ ''@'' @ cs_Version s) sources)"

text \<open>The chart cache as the tools use it: ensuring a chart, listing its files and reading one.\<close>

record chart_access =
  ca_Ensure :: "string \<Rightarrow> string \<Rightarrow> string \<Rightarrow> string + string"
  ca_List :: "string \<Rightarrow> string \<Rightarrow> string + string list"
  ca_Read :: "string \<Rightarrow> string \<Rightarrow> string \<Rightarrow> string + string"

definition unknownChart :: "string \<Rightarrow> chart_source list \<Rightarrow> string" where
  "unknownChart chart sources = ''Unknown chart '' @ go_quote chart @ ''. Available charts: '' @ formatAvailableCharts sources"

definition downloadFailed :: "string \<Rightarrow> string \<Rightarrow> string \<Rightarrow> string" where
  "downloadFailed chart version err = ''Failed to download chart '' @ chart @ ''@'' @ version @ '': '' @ err"

definition ListChartFilesTool :: "review_lib \<Rightarrow> chart_access \<Rightarrow> chart_source list \<Rightarrow> review_tool" where
  "ListChartFilesTool L C sources =
    \<lparr>tl_Name = ''list_chart_files'',
     tl_Execute = (\<lambda>input st. (case rl_chartParams L input of
         Inl err \<Rightarrow> Inl (invalidInput err)
       | Inr (chart, version, _) \<Rightarrow>
           (case buildRepoMap sources chart of
              None \<Rightarrow> Inr (unknownChart chart sources)
            | Some repoURL \<Rightarrow>
                (case ca_Ensure C repoURL chart version of
                   Inl err \<Rightarrow> Inr (downloadFailed chart version err)
                 | Inr _ \<Rightarrow>
                     (case ca_List C chart version of
                        Inl err \<Rightarrow> Inl (''failed to list chart files: '' @ err)
                      | Inr files \<Rightarrow> Inr (str_join [nl] files)))), st))\<rparr>"

definition ReadChartFileTool :: "review_lib \<Rightarrow> chart_access \<Rightarrow> chart_source list \<Rightarrow> review_tool" where
  "ReadChartFileTool L C sources =
    \<lparr>tl_Name = ''read_chart_file'',
     tl_Execute = (\<lambda>input st. (case rl_chartParams L input of
         Inl err \<Rightarrow> Inl (invalidInput err)
       | Inr (chart, version, path) \<Rightarrow>
           (case buildRepoMap sources chart of
              None \<Rightarrow> Inr (unknownChart chart sources)
            | Some repoURL \<Rightarrow>
                (case ca_Ensure C repoURL chart version of
                   Inl err \<Rightarrow> Inr (downloadFailed chart version err)
                 | Inr _ \<Rightarrow>
                     (case ca_Read C chart version path of
                        Inl err \<Rightarrow> Inr (''File not found: '' @ err)
                      | Inr content \<Rightarrow> Inr (truncateAt ''file'' content)))), st))\<rparr>"

section \<open>The agent\<close>

datatype stop_reason = StopEndTurn | StopToolUse | StopMaxTokens

record tool_call =
  tc_ID :: string
  tc_Name :: string
  tc_Arguments :: string

record tool_result =
  tr_ToolCallID :: string
  tr_Content :: string
  tr_IsError :: bool

datatype chat_role = RoleUser | RoleAssistant

record chat_message =
  cm_Role :: chat_role
  cm_Text :: string
  cm_ToolCalls :: "tool_call list"
  cm_ToolResults :: "tool_result list"

record chat_response =
  rs_Text :: string
  rs_ToolCalls :: "tool_call list"
  rs_StopReason :: stop_reason

definition toolMap :: "review_tool list \<Rightarrow> executor strmap" where
  "toolMap tools = foldl (\<lambda>m t. m(tl_Name t \<mapsto> tl_Execute t)) (\<lambda>_. None) tools"

definition runCall :: "review_tool list \<Rightarrow> tool_call \<Rightarrow> review_notes \<Rightarrow> tool_result \<times> review_notes" where
  "runCall tools tc st =
    (case toolMap tools (tc_Name tc) of
       None \<Rightarrow> (\<lparr>tr_ToolCallID = tc_ID tc, tr_Content = ''error: unknown tool '' @ go_quote (tc_Name tc), tr_IsError = True\<rparr>, st)
     | Some execute \<Rightarrow>
         (case execute (tc_Arguments tc) st of
            (Inl err, st') \<Rightarrow> (\<lparr>tr_ToolCallID = tc_ID tc, tr_Content = ''error: '' @ err, tr_IsError = True\<rparr>, st')
          | (Inr output, st') \<Rightarrow> (\<lparr>tr_ToolCallID = tc_ID tc, tr_Content = output, tr_IsError = False\<rparr>, st')))"

text \<open>The calls of one reply take effect in the order \<open>sched\<close> of their indices; each writes its own slot of
  the results.\<close>

definition zero_result :: tool_result where
  "zero_result = \<lparr>tr_ToolCallID = [], tr_Content = [], tr_IsError = False\<rparr>"

definition runCalls :: "review_tool list \<Rightarrow> tool_call list \<Rightarrow> nat list \<Rightarrow> review_notes \<Rightarrow> tool_result list \<times> review_notes" where
  "runCalls tools calls sched st =
    foldl (\<lambda>(results, st) i. case runCall tools (calls ! i) st of (r, st') \<Rightarrow> (results[i := r], st'))
      (replicate (length calls) zero_result, st) sched"

definition reviewTruncatedNote :: string where
  "reviewTruncatedNote = [nl, nl] @ ''> **Note:** This review was truncated due to output length limits.''"

text \<open>The loop over the turns, with the number of turns left; the conversation is returned as well.  The
  schedule gives the order of effects by the turn and the number of its calls.\<close>

definition turnLimit :: "int \<Rightarrow> string" where
  "turnLimit maxTurns = ''aireview agent exceeded max turns ('' @
     (if maxTurns < 0 then ''-'' @ itoa (nat (- maxTurns)) else itoa (nat maxTurns)) @ '')''"

fun agentLoop ::
  "(chat_message list \<Rightarrow> string + chat_response) \<Rightarrow> (nat \<Rightarrow> nat \<Rightarrow> nat list) \<Rightarrow> review_tool list \<Rightarrow> int \<Rightarrow> nat \<Rightarrow> nat \<Rightarrow>
   chat_message list \<Rightarrow> review_notes \<Rightarrow> (string + string) \<times> chat_message list \<times> review_notes" where
  "agentLoop chat sched tools maxTurns turn 0 messages st = (Inl (turnLimit maxTurns), messages, st)"
| "agentLoop chat sched tools maxTurns turn (Suc left) messages st =
    (case chat messages of
       Inl err \<Rightarrow> (Inl (''aireview turn '' @ itoa turn @ '': '' @ err), messages, st)
     | Inr resp \<Rightarrow>
         (case rs_StopReason resp of
            StopEndTurn \<Rightarrow> (Inr (rs_Text resp), messages, st)
          | StopMaxTokens \<Rightarrow> (Inr (rs_Text resp @ reviewTruncatedNote), messages, st)
          | StopToolUse \<Rightarrow>
              (case runCalls tools (rs_ToolCalls resp) (sched turn (length (rs_ToolCalls resp))) st of
                 (results, st') \<Rightarrow>
                   agentLoop chat sched tools maxTurns (Suc turn) left
                     (messages @ [\<lparr>cm_Role = RoleAssistant, cm_Text = rs_Text resp, cm_ToolCalls = rs_ToolCalls resp, cm_ToolResults = []\<rparr>,
                                  \<lparr>cm_Role = RoleUser, cm_Text = [], cm_ToolCalls = [], cm_ToolResults = results\<rparr>]) st')))"

definition userMessage :: "string \<Rightarrow> chat_message" where
  "userMessage prompt = \<lparr>cm_Role = RoleUser, cm_Text = prompt, cm_ToolCalls = [], cm_ToolResults = []\<rparr>"

definition agent_Run ::
  "(chat_message list \<Rightarrow> string + chat_response) \<Rightarrow> (nat \<Rightarrow> nat \<Rightarrow> nat list) \<Rightarrow> int \<Rightarrow> string \<Rightarrow> review_tool list \<Rightarrow> review_notes \<Rightarrow>
   (string + string) \<times> chat_message list \<times> review_notes" where
  "agent_Run chat sched maxTurns userPrompt tools st =
    agentLoop chat sched tools maxTurns 0 (nat maxTurns) [userMessage userPrompt] st"

section \<open>Aggregation\<close>

definition reviewHeading :: "string \<Rightarrow> string \<Rightarrow> string" where
  "reviewHeading appName review =
    ''---'' @ [nl] @ ''## Review for `'' @ appName @ ''`'' @ [nl, nl] @ review @ [nl, nl]"

definition buildFallbackReview :: "(string \<times> string) list \<Rightarrow> string" where
  "buildFallbackReview appReviews = concat (map (\<lambda>(appName, review).
     ''<details>'' @ [nl] @ ''<summary><code>'' @ appName @ ''</code></summary>'' @ [nl, nl] @ review @ [nl, nl] @ ''</details>'' @ [nl, nl]) appReviews)"

text \<open>The reviews in the order in which the map is enumerated, both for the prompt and for the fallback.\<close>

definition AggregateReviews ::
  "(string \<Rightarrow> string \<Rightarrow> string + string) \<Rightarrow> (string \<times> string) list \<Rightarrow> (string \<times> string) list \<Rightarrow> string" where
  "AggregateReviews ask appReviews again =
    (case appReviews of
       [] \<Rightarrow> []
     | [(_, review)] \<Rightarrow> review
     | _ \<Rightarrow>
         (case ask aggregatorPrompt (''Here are the individual AI review reports to consolidate:'' @ [nl, nl] @
                 concat (map (\<lambda>(appName, review). reviewHeading appName review) appReviews)) of
            Inl err \<Rightarrow> buildFallbackReview again
          | Inr reply \<Rightarrow> reply))"

section \<open>Tool calls and their results\<close>

lemma runCall_id: "tr_ToolCallID (fst (runCall tools tc st)) = tc_ID tc"
  by (auto simp: runCall_def split: option.split prod.split sum.split)

lemma runCalls_slots:
  assumes "runCalls tools calls sched st = (results, st')" "mset sched = mset [0..<length calls]"
  shows "map tr_ToolCallID results = map tc_ID calls"
proof -
  let ?f = "\<lambda>(results, st) i. case runCall tools (calls ! i) st of (r, st') \<Rightarrow> (results[i := r], st')"
  have inv: "length (fst (foldl ?f (rs, s) is)) = length rs \<and>
      (\<forall>j<length rs. tr_ToolCallID (fst (foldl ?f (rs, s) is) ! j) = (if j \<in> set is then tc_ID (calls ! j) else tr_ToolCallID (rs ! j)))"
    for rs s "is"
  proof (induction "is" arbitrary: rs s)
    case (Cons i "is")
    obtain r s' where r: "runCall tools (calls ! i) s = (r, s')" by (metis prod.exhaust)
    have "tr_ToolCallID r = tc_ID (calls ! i)" using runCall_id[of tools "calls ! i" s] r by simp
    then show ?case using Cons.IH[of "rs[i := r]" s'] r by (simp add: nth_list_update)
  qed simp
  have "set sched = {..<length calls}" using mset_eq_setD[OF assms(2)] by (simp add: atLeast_upt)
  then show ?thesis using inv[of "replicate (length calls) zero_result" st sched] assms(1)
    by (auto simp: runCalls_def list_eq_iff_nth_eq)
qed

text \<open>A conversation: the prompt, then replies of the model that call tools, each followed by the results of
  its calls, one for each and in their order.\<close>

fun turns_ok :: "chat_message list \<Rightarrow> bool" where
  "turns_ok [] = True"
| "turns_ok [m] = False"
| "turns_ok (a # u # ms) =
    (cm_Role a = RoleAssistant \<and> cm_ToolResults a = [] \<and> cm_Role u = RoleUser \<and> cm_ToolCalls u = [] \<and>
     map tr_ToolCallID (cm_ToolResults u) = map tc_ID (cm_ToolCalls a) \<and> turns_ok ms)"

lemma turns_ok_append: "turns_ok ms \<Longrightarrow> turns_ok ns \<Longrightarrow> turns_ok (ms @ ns)"
  by (induction ms rule: turns_ok.induct) auto

lemma agentLoop_turns:
  assumes "agentLoop chat sched tools maxTurns turn left (p # ms) st = (out, conv, st')"
    and "turns_ok ms" "\<And>t n. mset (sched t n) = mset [0..<n]"
  shows "\<exists>more. conv = p # ms @ more \<and> turns_ok (ms @ more) \<and> length more \<le> 2 * left \<and>
    (out = Inl (turnLimit maxTurns) \<or> length more < 2 * left)"
  using assms(1,2)
proof (induction left arbitrary: turn ms st)
  case (Suc left)
  show ?case
  proof (cases "chat (p # ms)")
    case (Inr resp)
    show ?thesis
    proof (cases "rs_StopReason resp")
      case StopToolUse
      obtain results st1 where r: "runCalls tools (rs_ToolCalls resp) (sched turn (length (rs_ToolCalls resp))) st = (results, st1)"
        by (metis prod.exhaust)
      let ?new = "[\<lparr>cm_Role = RoleAssistant, cm_Text = rs_Text resp, cm_ToolCalls = rs_ToolCalls resp, cm_ToolResults = []\<rparr>,
                   \<lparr>cm_Role = RoleUser, cm_Text = [], cm_ToolCalls = [], cm_ToolResults = results\<rparr>]"
      have "turns_ok (ms @ ?new)" using Suc.prems(2) runCalls_slots[OF r] assms(3) by (intro turns_ok_append) simp_all
      then obtain more where "conv = p # (ms @ ?new) @ more" "turns_ok ((ms @ ?new) @ more)" "length more \<le> 2 * left"
        "out = Inl (turnLimit maxTurns) \<or> length more < 2 * left"
        using Suc.IH[of "Suc turn" "ms @ ?new" st1] Suc.prems(1) Inr StopToolUse r
        unfolding agentLoop.simps by (simp only: sum.case stop_reason.case prod.case append.simps append_assoc) blast
      then show ?thesis by (intro exI[of _ "?new @ more"]) auto
    qed (use Suc.prems Inr in auto)
  qed (use Suc.prems in auto)
qed simp

text \<open>C15 The agent keeps the protocol of tool use, whatever the model replies and however the concurrent calls
  interleave: every call of a reply is answered exactly once, in order and under its own id, also
  when the tool is unknown or fails; and the model is asked at most as often as configured.\<close>

theorem tool_calls_are_answered:
  assumes "agent_Run chat sched maxTurns prompt tools st = (out, conversation, st')"
    and "\<And>t n. mset (sched t n) = mset [0..<n]"
  shows "hd conversation = userMessage prompt \<and> turns_ok (tl conversation) \<and> length (tl conversation) \<le> 2 * nat maxTurns \<and>
    (out = Inl (turnLimit maxTurns) \<or> length (tl conversation) < 2 * nat maxTurns)"
  using agentLoop_turns[of chat sched tools maxTurns 0 "nat maxTurns" "userMessage prompt" "[]" st out conversation st'] assms
  by (auto simp: agent_Run_def)

section \<open>Invariants of the notes\<close>

lemma toolMap_in: "toolMap tools name = Some ex \<Longrightarrow> \<exists>t\<in>set tools. tl_Execute t = ex"
proof -
  have "foldl (\<lambda>m t. m(tl_Name t \<mapsto> tl_Execute t)) m tools name = Some ex \<Longrightarrow> (\<exists>t\<in>set tools. tl_Execute t = ex) \<or> m name = Some ex" for m
    by (induction tools arbitrary: m) (fastforce split: if_splits)+
  then show "toolMap tools name = Some ex \<Longrightarrow> \<exists>t\<in>set tools. tl_Execute t = ex" unfolding toolMap_def by blast
qed

text \<open>The interface between the agent and a set of tools: each tool keeps what must hold of the notes.\<close>

locale tool_set =
  fixes tools :: "review_tool list" and inv :: "review_notes \<Rightarrow> bool"
  assumes keeps: "t \<in> set tools \<Longrightarrow> inv st \<Longrightarrow> inv (snd (tl_Execute t input st))"
begin

lemma runCall_keeps: "inv st \<Longrightarrow> inv (snd (runCall tools tc st))"
proof -
  assume inv: "inv st"
  have "inv (snd (execute (tc_Arguments tc) st))" if "toolMap tools (tc_Name tc) = Some execute" for execute
    using keeps[OF _ inv] toolMap_in[OF that] by metis
  then show ?thesis using inv by (auto simp: runCall_def split: option.split prod.split sum.split)
qed

lemma runCalls_keeps: "inv st \<Longrightarrow> inv (snd (runCalls tools calls sched st))"
proof -
  assume "inv st"
  have "inv (snd (case p of (results, s) \<Rightarrow> case runCall tools (calls ! i) s of (r, s') \<Rightarrow> (results[i := r], s')))"
    if "inv (snd p)" for p :: "tool_result list \<times> review_notes" and i
    using runCall_keeps[OF that, of "calls ! i"] by (simp add: case_prod_beta)
  then show ?thesis unfolding runCalls_def using \<open>inv st\<close>
    by (intro foldl_invariant[of "\<lambda>x. inv (snd x)"]) (simp_all add: case_prod_beta)
qed

lemma agentLoop_keeps: "inv st \<Longrightarrow> inv (snd (snd (agentLoop chat sched tools maxTurns turn left messages st)))"
proof (induction left arbitrary: turn messages st)
  case (Suc left)
  then show ?case
    using Suc.IH[OF runCalls_keeps[OF Suc.prems]] by (simp add: case_prod_beta split: sum.split stop_reason.split)
qed simp

end

definition suggestion_ok :: "string list \<Rightarrow> review_suggestion \<Rightarrow> bool" where
  "suggestion_ok changedFiles s = (sg_Path s \<in> set changedFiles \<and> 0 < sg_EndLine s \<and> sg_Suggestion s \<noteq> [])"

definition recommendation_ok :: "recommendation_entry \<Rightarrow> bool" where
  "recommendation_ok e = (re_Recommendation e \<in> {''APPROVE'', ''WARN'', ''FLAG''} \<and> re_Reason e \<noteq> [] \<and> re_Source e \<noteq> [])"

definition notes_ok :: "string list \<Rightarrow> review_notes \<Rightarrow> bool" where
  "notes_ok changedFiles st = (list_all (suggestion_ok changedFiles) (rn_suggestions st) \<and> list_all recommendation_ok (rn_recommendations st))"

lemma post_suggestion_keeps: "notes_ok cf st \<Longrightarrow> notes_ok cf (snd (tl_Execute (PostSuggestionTool L cf) input st))"
  by (auto simp: PostSuggestionTool_def notes_ok_def suggestion_ok_def split: sum.split)

lemma submit_recommendation_keeps: "notes_ok cf st \<Longrightarrow> notes_ok cf (snd (tl_Execute (SubmitRecommendationTool L) input st))"
  by (auto simp: SubmitRecommendationTool_def notes_ok_def recommendation_ok_def Let_def split: sum.split)

lemma reading_tools_keep:
  "snd (tl_Execute (DiffTool d) input st) = st" "snd (tl_Execute (RenderedManifestsTool L ms) input st) = st"
  "snd (tl_Execute (AppInfoTool L a b c e f) input st) = st" "snd (tl_Execute (QueryAppResourcesTool L A) input st) = st"
  "snd (tl_Execute (GetAppResourceTool L A) input st) = st" "snd (tl_Execute (ListChartFilesTool L C cs) input st) = st"
  "snd (tl_Execute (ReadChartFileTool L C cs) input st) = st"
  by (simp_all add: DiffTool_def RenderedManifestsTool_def AppInfoTool_def QueryAppResourcesTool_def GetAppResourceTool_def
      ListChartFilesTool_def ReadChartFileTool_def Let_def)

end
