(* ===== verification/AiReview.thy ===== *)
theory AiReview
  imports AiAgent
begin

text \<open>
  \<open>pkg/checks/aireview/check.go\<close>: the AI review of one application, from the diff and the files it shows
  to the model to the result and the suggestions.  Reading a file by its path, the working
  directory, the text of the diff (\<open>GenerateDiffText\<close> of the theory \<open>DiffCheck\<close>) and the sources that
  argo-cd's \<open>GetSource\<close> and \<open>GetSources\<close> choose are arguments.  The recovery from panics and the log
  lines are left out.
\<close>

section \<open>Data\<close>

record review_source = app_source +
  vs_Chart :: string
  vs_HelmValues :: string

record ai_request =
  rq_AppName :: string
  rq_Namespace :: string
  rq_Server :: string
  rq_ServerName :: string
  rq_Project :: string
  rq_Source :: review_source
  rq_Sources :: "review_source list"
  rq_RepoDir :: "string option"
  rq_NoteID :: "int option"
  rq_KubernetesVersion :: string
  rq_YamlManifests :: "string list"
  rq_ChangedFiles :: "string list"
  rq_RenderedDiff :: string
  rq_PRTitle :: string
  rq_PRDescription :: string

record review_checker =
  rc_maxTurns :: int
  rc_systemPrompt :: string
  rc_extraInstructions :: string
  rc_chartAccess :: "chart_access option"

record review_result =
  rr_Result :: result
  rr_Suggestions :: "review_suggestion list"

section \<open>Texts for the model\<close>

fun numberLines :: "nat \<Rightarrow> string list \<Rightarrow> string list" where
  "numberLines i [] = []"
| "numberLines i (l # ls) = (pad4 (i + 1) @ '' | '' @ l) # numberLines (i + 1) ls"

definition addLineNumbers :: "string \<Rightarrow> string" where
  "addLineNumbers content = str_join [nl] (numberLines 0 (split_char nl content))"

definition path_abs :: "string option \<Rightarrow> string \<Rightarrow> string option" where
  "path_abs cwd p = (if rooted p then Some (path_clean p) else map_option (\<lambda>d. path_join [d, p]) cwd)"

definition insideRepo :: "string \<Rightarrow> string \<Rightarrow> bool" where
  "insideRepo absRepoDir absPath = has_prefix absPath (absRepoDir @ [slash])"

definition valueFileParts :: "string option \<Rightarrow> (string \<Rightarrow> string option) \<Rightarrow> string \<Rightarrow> string \<Rightarrow> string \<Rightarrow> string list" where
  "valueFileParts cwd read repoDir srcPath vf =
    (let filePath = path_join [repoDir, srcPath, vf] in
     if (case path_abs cwd repoDir of
           None \<Rightarrow> False
         | Some absRepoDir \<Rightarrow> (case path_abs cwd filePath of None \<Rightarrow> True | Some absPath \<Rightarrow> \<not> insideRepo absRepoDir absPath))
     then []
     else (case read filePath of
             None \<Rightarrow> []
           | Some data \<Rightarrow>
               [''# Values file: '' @ path_join [srcPath, vf] @ '' (use this path and line numbers for post_suggestion)'',
                addLineNumbers data]))"

definition extractHelmValues :: "string option \<Rightarrow> (string \<Rightarrow> string option) \<Rightarrow> ai_request \<Rightarrow> string" where
  "extractHelmValues cwd read q =
    (case src_Helm (rq_Source q) of
       None \<Rightarrow> []
     | Some helm \<Rightarrow>
         str_join ([nl] @ ''---'' @ [nl])
           ((if vs_HelmValues (rq_Source q) = [] then []
             else [''# Inline values (spec.source.helm.values)'', addLineNumbers (vs_HelmValues (rq_Source q))]) @
            (case rq_RepoDir q of
               None \<Rightarrow> []
             | Some repoDir \<Rightarrow> concat (map (valueFileParts cwd read repoDir (src_Path (rq_Source q))) (h_ValueFiles helm)))))"

definition changedFilePart :: "string option \<Rightarrow> (string \<Rightarrow> string option) \<Rightarrow> string \<Rightarrow> string \<Rightarrow> string list" where
  "changedFilePart cwd read repoDir f =
    (let filePath = path_join [repoDir, f] in
     case (path_abs cwd filePath, path_abs cwd repoDir) of
       (Some absPath, Some absRepoDir) \<Rightarrow>
         if \<not> insideRepo absRepoDir absPath then []
         else (case read filePath of
                 None \<Rightarrow> []
               | Some data \<Rightarrow> [''### File: `'' @ f @ ''`'' @ [nl] @ ''```'' @ [nl] @ addLineNumbers data @ [nl] @ ''```''])
     | _ \<Rightarrow> [])"

definition buildChangedFilesContent :: "string option \<Rightarrow> (string \<Rightarrow> string option) \<Rightarrow> ai_request \<Rightarrow> string" where
  "buildChangedFilesContent cwd read q =
    (case rq_RepoDir q of
       None \<Rightarrow> []
     | Some repoDir \<Rightarrow>
         let parts = concat (map (changedFilePart cwd read repoDir) (rq_ChangedFiles q)) in
         if parts = [] then []
         else ''## Changed Files (with line numbers)'' @ [nl] @ ''Use these line numbers when calling post_suggestion.'' @ [nl, nl] @
           str_join [nl, nl] parts)"

definition sourceInfo :: "review_source \<Rightarrow> string" where
  "sourceInfo src =
    ''repo='' @ src_RepoURL src @
    (if src_Path src \<noteq> [] then '', path='' @ src_Path src else []) @
    (if vs_Chart src \<noteq> [] then '', chart='' @ vs_Chart src else []) @
    (if src_TargetRevision src \<noteq> [] then '', revision='' @ src_TargetRevision src else []) @
    (case src_Helm src of
       None \<Rightarrow> []
     | Some helm \<Rightarrow> if h_ValueFiles helm = [] then [] else '', valueFiles='' @ str_join '','' (h_ValueFiles helm))"

definition formatSourceInfo :: "review_source list \<Rightarrow> string" where
  "formatSourceInfo sources = (if sources = [] then ''no source configured'' else str_join ''; '' (map sourceInfo sources))"

section \<open>The tools of a review\<close>

definition chartTools :: "review_lib \<Rightarrow> chart_access \<Rightarrow> chart_source list \<Rightarrow> review_tool list" where
  "chartTools L C sources = [ListChartFilesTool L C sources, ReadChartFileTool L C sources]"

definition buildChartTools ::
  "review_lib \<Rightarrow> (string \<Rightarrow> string + chart_dependency list) \<Rightarrow> chart_access \<Rightarrow> ai_request \<Rightarrow> review_tool list" where
  "buildChartTools L dependencies C q =
    (let src = rq_Source q in
     if vs_Chart src \<noteq> [] \<and> src_RepoURL src \<noteq> [] then
       chartTools L C [\<lparr>cs_Name = vs_Chart src, cs_Version = src_TargetRevision src, cs_Repository = src_RepoURL src\<rparr>]
     else (case rq_RepoDir q of
             None \<Rightarrow> []
           | Some repoDir \<Rightarrow>
               if src_Path src = [] then []
               else (case dependencies (path_join [repoDir, src_Path src, ''Chart.yaml'']) of
                       Inl err \<Rightarrow> []
                     | Inr deps \<Rightarrow>
                         let sources = map (\<lambda>d. \<lparr>cs_Name = cd_Name d, cs_Version = cd_Version d, cs_Repository = cd_Repository d\<rparr>)
                               (filter (\<lambda>d. cd_Repository d \<noteq> [] \<and> cd_Name d \<noteq> []) deps)
                         in if sources = [] then [] else chartTools L C sources)))"

definition reviewTools ::
  "review_lib \<Rightarrow> review_argo option \<Rightarrow> (string \<Rightarrow> string + chart_dependency list) \<Rightarrow> review_checker \<Rightarrow> ai_request \<Rightarrow> string \<Rightarrow>
   review_tool list" where
  "reviewTools L argo dependencies c q renderedDiff =
    [DiffTool renderedDiff, RenderedManifestsTool L (rq_YamlManifests q),
     AppInfoTool L (rq_AppName q) (rq_Namespace q) (if rq_ServerName q \<noteq> [] then rq_ServerName q else rq_Server q)
       (rq_Project q) (formatSourceInfo (rq_Sources q))] @
    (case argo of None \<Rightarrow> [] | Some A \<Rightarrow> [QueryAppResourcesTool L A, GetAppResourceTool L A]) @
    (case rc_chartAccess c of None \<Rightarrow> [] | Some C \<Rightarrow> buildChartTools L dependencies C q) @
    (if rq_ChangedFiles q = [] then [] else [PostSuggestionTool L (rq_ChangedFiles q)]) @
    [SubmitRecommendationTool L]"

section \<open>The review\<close>

definition reviewDiff :: "ai_request \<Rightarrow> string + string \<Rightarrow> string" where
  "reviewDiff q generated =
    (if rq_RenderedDiff q \<noteq> [] then rq_RenderedDiff q else (case generated of Inl err \<Rightarrow> [] | Inr text' \<Rightarrow> text'))"

definition reviewPrompts ::
  "string option \<Rightarrow> (string \<Rightarrow> string option) \<Rightarrow> review_checker \<Rightarrow> ai_request \<Rightarrow> string \<Rightarrow> review_tool list \<Rightarrow> string \<times> string" where
  "reviewPrompts cwd read c q renderedDiff tools =
    (BuildSystemPrompt (rq_AppName q) (rq_Namespace q) (if rq_ServerName q \<noteq> [] then rq_ServerName q else rq_Server q)
       (rq_KubernetesVersion q) (rc_systemPrompt c) (rc_extraInstructions c),
     BuildUserPrompt (rq_AppName q) (rq_PRTitle q) (rq_PRDescription q) renderedDiff
       (str_join ([nl] @ ''---'' @ [nl]) (rq_YamlManifests q)) (extractHelmValues cwd read q) (buildChangedFilesContent cwd read q)
       (map tl_Name tools))"

definition reviewResult :: "string \<Rightarrow> review_notes \<Rightarrow> review_result" where
  "reviewResult reviewText notes =
    (let summary = recommendationSummary (rn_recommendations notes) in
     \<lparr>rr_Result = \<lparr>res_State = (if rn_recommendations notes = [] then StateSuccess else recommendationState (rn_recommendations notes)),
        res_Summary = ''<b>AI Impact Review</b>'',
        res_Details = (if summary \<noteq> [] then reviewText @ [nl, nl] @ summary else reviewText),
        res_NoChangesDetected = False, res_Sticky = False\<rparr>,
      rr_Suggestions = rn_suggestions notes\<rparr>)"

text \<open>The model is asked with the system prompt of the review and the conversation so far.\<close>

definition review_Check ::
  "review_lib \<Rightarrow> string option \<Rightarrow> (string \<Rightarrow> string option) \<Rightarrow> review_argo option \<Rightarrow> (string \<Rightarrow> string + chart_dependency list) \<Rightarrow>
   (string \<Rightarrow> chat_message list \<Rightarrow> string + chat_response) \<Rightarrow> (nat \<Rightarrow> nat \<Rightarrow> nat list) \<Rightarrow>
   review_checker option \<Rightarrow> ai_request \<Rightarrow> string + string \<Rightarrow> string + review_result" where
  "review_Check L cwd read argo dependencies chat sched checker q generated =
    (case checker of
       None \<Rightarrow> Inl ''AI review checker is nil''
     | Some c \<Rightarrow>
         let renderedDiff = reviewDiff q generated;
             tools = reviewTools L argo dependencies c q renderedDiff;
             (systemPrompt, userPrompt) = reviewPrompts cwd read c q renderedDiff tools
         in (case agent_Run (chat systemPrompt) sched (rc_maxTurns c) userPrompt tools no_notes of
               (Inl err, _, _) \<Rightarrow> Inl (''ai review agent failed: '' @ err)
             | (Inr reviewText, _, notes) \<Rightarrow> Inr (reviewResult reviewText notes)))"

section \<open>What a review may post\<close>

lemma reviewTools_keep:
  assumes "t \<in> set (reviewTools L argo dependencies c q d)" "notes_ok (rq_ChangedFiles q) st"
  shows "notes_ok (rq_ChangedFiles q) (snd (tl_Execute t input st))"
proof -
  consider "t = PostSuggestionTool L (rq_ChangedFiles q)" | "t = SubmitRecommendationTool L" | "snd (tl_Execute t input st) = st"
    using assms(1)
    by (auto simp: reviewTools_def buildChartTools_def chartTools_def Let_def reading_tools_keep split: option.splits if_splits sum.splits)
  then show ?thesis using assms(2) post_suggestion_keeps submit_recommendation_keeps by cases auto
qed

interpretation rt: tool_set "reviewTools L argo dependencies c q d" "notes_ok (rq_ChangedFiles q)" for L argo dependencies c q d
  by unfold_locales (rule reviewTools_keep)

lemma recommendationState_Max:
  "recommendationState es = Max (insert StateNone (set (map (\<lambda>e. MapRecommendation (re_Recommendation e)) es)))"
proof -
  have "recommendationState es = foldl WorstState StateNone (map (\<lambda>e. MapRecommendation (re_Recommendation e)) es)"
    unfolding recommendationState_def by (induction es rule: rev_induct) simp_all
  then show ?thesis by (simp add: foldl_WorstState_Max)
qed

lemma recommendation_states:
  "MapRecommendation ''FLAG'' = StateError" "MapRecommendation ''WARN'' = StateWarning" "MapRecommendation ''APPROVE'' = StateSuccess"
  by code_simp+

lemma review_state:
  assumes "list_all recommendation_ok es" "s = (if es = [] then StateSuccess else recommendationState es)"
  shows "(s = StateError \<longleftrightarrow> list_ex (\<lambda>e. re_Recommendation e = ''FLAG'') es) \<and>
    (s = StateWarning \<longleftrightarrow> list_ex (\<lambda>e. re_Recommendation e = ''WARN'') es \<and> \<not> list_ex (\<lambda>e. re_Recommendation e = ''FLAG'') es) \<and>
    s \<in> {StateSuccess, StateWarning, StateError}"
proof (cases "es = []")
  case False
  let ?S = "set (map (\<lambda>e. MapRecommendation (re_Recommendation e)) es)"
  have s: "s = Max (insert StateNone ?S)" using assms(2) False by (simp add: recommendationState_Max)
  have r: "re_Recommendation e \<in> {''APPROVE'', ''WARN'', ''FLAG''}" if "e \<in> set es" for e
    using assms(1) that by (auto simp: list_all_iff recommendation_ok_def)
  have sub: "?S \<subseteq> {StateSuccess, StateWarning, StateError}" using r recommendation_states by fastforce
  have ord: "StateNone < StateSuccess" "StateSuccess < StateWarning" "StateWarning < StateError" by code_simp+
  have in_S: "s \<in> ?S"
  proof -
    obtain x where "x \<in> ?S" using False by (cases es) auto
    then have "StateNone < x" using sub ord by auto
    moreover have "x \<le> s" using s \<open>x \<in> ?S\<close> by (simp add: Max_ge)
    ultimately have "s \<noteq> StateNone" by auto
    then show ?thesis using s Max_in[of "insert StateNone ?S"] by auto
  qed
  have ge: "x \<le> s" if "x \<in> ?S" for x using that s by simp
  have F: "StateError \<in> ?S \<longleftrightarrow> list_ex (\<lambda>e. re_Recommendation e = ''FLAG'') es"
    and W: "StateWarning \<in> ?S \<longleftrightarrow> list_ex (\<lambda>e. re_Recommendation e = ''WARN'') es"
    using r recommendation_states ord by (force simp: list_ex_iff image_iff)+
  have se: "s \<in> {StateSuccess, StateWarning, StateError}" using in_S sub by blast
  have "s = StateError \<longleftrightarrow> StateError \<in> ?S"
  proof
    assume "StateError \<in> ?S"
    then have "StateError \<le> s" by (rule ge)
    then show "s = StateError" using se ord by (metis empty_iff insert_iff leD order_less_trans)
  qed (use in_S in blast)
  moreover have "s = StateWarning \<longleftrightarrow> StateWarning \<in> ?S \<and> StateError \<notin> ?S"
  proof
    assume w: "StateWarning \<in> ?S \<and> StateError \<notin> ?S"
    then have "StateWarning \<le> s" using ge by blast
    then have "s \<noteq> StateSuccess" using ord by (metis leD)
    then show "s = StateWarning" using se w in_S by blast
  next
    assume "s = StateWarning"
    then show "StateWarning \<in> ?S \<and> StateError \<notin> ?S" using in_S ge ord by (metis leD)
  qed
  ultimately show ?thesis using F W se by blast
qed (use assms(2) in \<open>simp add: state_defs\<close>)


section \<open>What a review may read\<close>

lemma path_join_rooted: "rooted d \<Longrightarrow> rooted (path_join (d # ps))"
proof -
  assume r: "rooted d"
  then have "d \<noteq> []" "rooted (str_join [slash] (d # ps))" by (cases ps; auto simp: rooted_def)+
  then show ?thesis by (simp add: path_join_def path_clean_def) (simp add: rooted_def)
qed

text \<open>Only files of the repository are shown to the language model: file names of the pull request and value
  files of the application that lead elsewhere, by any number of parent directories, do not make
  the review depend on what is there.\<close>

theorem only_repository_files_are_shown:
  assumes "rq_RepoDir q = Some repoDir" "rooted repoDir"
    and "\<And>p. has_prefix (path_clean p) (path_clean repoDir @ ''/'') \<Longrightarrow> read p = read' p"
  shows "buildChangedFilesContent cwd read q = buildChangedFilesContent cwd read' q \<and>
    extractHelmValues cwd read q = extractHelmValues cwd read' q"
proof -
  have j: "rooted (path_join (repoDir # ps))" for ps by (rule path_join_rooted[OF assms(2)])
  have c: "changedFilePart cwd read repoDir = changedFilePart cwd read' repoDir"
  proof
    show "changedFilePart cwd read repoDir f = changedFilePart cwd read' repoDir f" for f
      using assms(3)[of "path_join [repoDir, f]"] j[of "[f]"] assms(2)
      by (simp add: changedFilePart_def path_abs_def insideRepo_def Let_def)
  qed
  have v: "valueFileParts cwd read repoDir s = valueFileParts cwd read' repoDir s" for s
  proof
    show "valueFileParts cwd read repoDir s vf = valueFileParts cwd read' repoDir s vf" for vf
      using assms(3)[of "path_join [repoDir, s, vf]"] j[of "[s, vf]"] assms(2)
      by (simp add: valueFileParts_def path_abs_def insideRepo_def Let_def)
  qed
  show ?thesis unfolding buildChangedFilesContent_def extractHelmValues_def assms(1) option.case c v by simp
qed

section \<open>Secrets\<close>

text \<open>The answers of Argo CD with other contents of its secrets.\<close>

definition withSecret :: "string \<Rightarrow> resource_diff \<Rightarrow> resource_diff" where
  "withSecret content r = (if rd_Kind r = ''Secret'' then r\<lparr>rd_LiveState := content\<rparr> else r)"

definition withSecrets :: "string \<Rightarrow> review_argo \<Rightarrow> review_argo" where
  "withSecrets content A = A\<lparr>ra_managed := (\<lambda>n. map_sum id (map_option (map (withSecret content))) (ra_managed A n))\<rparr>"

lemma withSecret_simps [simp]:
  "rd_Kind (withSecret c r) = rd_Kind r" "resourceMatches q (withSecret c r) = resourceMatches q r"
  "availableLine (withSecret c r) = availableLine r"
  by (simp_all add: withSecret_def resourceMatches_def availableLine_def)

lemma filter_withSecret: "filter (\<lambda>r. rd_Kind r \<noteq> ''Secret'') (map (withSecret c) rs) = filter (\<lambda>r. rd_Kind r \<noteq> ''Secret'') rs"
  by (induction rs) (auto simp: withSecret_def)

lemma queryItems_withSecret: "queryItems L (map (withSecret c) rs) = queryItems L rs"
  by (simp add: queryItems_def filter_withSecret)

lemma find_map_same: "(\<And>x. P (h x) = P x) \<Longrightarrow> find P (map h xs) = map_option h (find P xs)"
  by (induction xs) auto

lemma find_satisfies: "find P xs = Some x \<Longrightarrow> P x"
  by (auto simp: find_Some_iff)

text \<open>C26 The tools that read live resources tell the language model nothing of a secret: with any other
  contents of the secrets, every call has the same answer, whatever kind, in whatever case, it asks
  for.\<close>

theorem tools_hide_secrets:
  "tl_Execute (QueryAppResourcesTool L (withSecrets content A)) = tl_Execute (QueryAppResourcesTool L A) \<and>
   tl_Execute (GetAppResourceTool L (withSecrets content A)) = tl_Execute (GetAppResourceTool L A)"
proof -
  have q: "ra_client (withSecrets content A) = ra_client A"
    "ra_managed (withSecrets content A) n = map_sum id (map_option (map (withSecret content))) (ra_managed A n)" for n
    by (simp_all add: withSecrets_def)
  have f: "find (resourceMatches p) (map (withSecret content) rs) = find (resourceMatches p) rs"
    if k: "\<not> EqualFold (qr_Kind p) ''Secret''" for p rs
  proof (cases "find (resourceMatches p) rs")
    case (Some r)
    then have "EqualFold (rd_Kind r) (qr_Kind p)" using find_satisfies by (fastforce simp: resourceMatches_def)
    then have "rd_Kind r \<noteq> ''Secret''" using k unfolding EqualFold_def by metis
    then show ?thesis using Some find_map_same[of "resourceMatches p" "withSecret content" rs, OF withSecret_simps(2)] by (simp add: withSecret_def)
  qed (use find_map_same[of "resourceMatches p" "withSecret content" rs, OF withSecret_simps(2)] in simp)
  have "tl_Execute (QueryAppResourcesTool L (withSecrets content A)) input st = tl_Execute (QueryAppResourcesTool L A) input st" for input st
  proof (cases "rl_appName L input")
    case (Inr n)
    then show ?thesis
      by (cases "ra_client A"; cases "ra_managed A n"; cases "projr (ra_managed A n)")
        (simp_all add: QueryAppResourcesTool_def q Let_def queryItems_withSecret)
  qed (simp add: QueryAppResourcesTool_def)
  moreover have "tl_Execute (GetAppResourceTool L (withSecrets content A)) input st = tl_Execute (GetAppResourceTool L A) input st" for input st
    unfolding GetAppResourceTool_def review_tool.simps q using f
    by (auto simp: comp_def split: sum.split option.split)
  ultimately show ?thesis by (metis ext)
qed

lemma sublist_skip: "sublist x y \<Longrightarrow> sublist x (a @ y)"
  by (metis sublist_append_leftI sublist_order.order_trans)

lemma sublist_keep: "sublist x a \<Longrightarrow> sublist x (a @ y)"
  by (metis sublist_append_rightI sublist_order.order_trans)

lemma in_str_join: "x \<in> set xs \<Longrightarrow> sublist x (str_join sep xs)"
proof (induction xs)
  case (Cons y ys)
  show ?case
  proof (cases "ys = []")
    case False
    then have "str_join sep (y # ys) = y @ sep @ str_join sep ys" by (rule str_join_Cons)
    moreover have "x = y \<or> sublist x (str_join sep ys)" using Cons by auto
    ultimately show ?thesis by (auto intro: sublist_skip sublist_keep)
  qed (use Cons in simp)
qed simp

text \<open>The prompt itself carries every rendered manifest, secrets and custom resource definitions included,
  which the tools of the same review withhold.\<close>

lemma secrets_reach_the_prompt:
  assumes "m \<in> set (rq_YamlManifests q)" "m \<noteq> []"
  shows "sublist m (snd (reviewPrompts cwd read c q d tools))"
proof -
  let ?ms = "str_join ([nl] @ ''---'' @ [nl]) (rq_YamlManifests q)"
  have s: "sublist m ?ms" using in_str_join[OF assms(1)] .
  then have ne: "?ms \<noteq> []" using assms(2) by auto
  have "sublist ?ms (snd (reviewPrompts cwd read c q d tools))"
    unfolding reviewPrompts_def snd_conv BuildUserPrompt_def if_P[OF ne] fence_def
    by (rule sublist_skip, rule sublist_skip, rule sublist_skip, rule sublist_skip, rule sublist_skip, rule sublist_skip,
        rule sublist_skip, rule sublist_skip) (rule sublist_keep, rule sublist_skip, rule sublist_skip, rule sublist_skip,
        rule sublist_skip, rule sublist_skip, rule sublist_keep, rule sublist_order.order_refl)
  then show ?thesis using s sublist_order.order_trans by blast
qed

section \<open>The diff tool\<close>

text \<open>The section that the diff check writes for a resource, and what makes it one for the tool.\<close>

definition diffSection :: "'o objKeyLiveTarget \<times> string \<Rightarrow> string" where
  "diffSection s = resourceId (fst s) @ '' ======'' @ [nl] @ snd s"

definition plain_section :: "'o objKeyLiveTarget \<times> string \<Rightarrow> bool" where
  "plain_section s = (\<not> str_contains (diffSection s) ''===== '' \<and>
     list_all (\<lambda>c. c \<noteq> nl \<and> c \<noteq> CHR '' '') (rk_Group (ol_key (fst s)) @ rk_Kind (ol_key (fst s))) \<and>
     slash \<notin> set (rk_Kind (ol_key (fst s))))"

lemma kind_of_section:
  assumes "plain_section s"
  shows "extractKindFromDiffHeader (diffSection s) = rk_Kind (ol_key (fst s))"
proof -
  let ?k = "ol_key (fst s)"
  let ?gk = "rk_Group ?k @ ''/'' @ rk_Kind ?k"
  have c: "\<forall>c\<in>set ?gk. c \<noteq> nl \<and> c \<noteq> CHR '' ''" using assms by (auto simp: plain_section_def list_all_iff)
  obtain rest where r: "diffSection s = ?gk @ '' '' @ rest" by (simp add: diffSection_def resourceId_def)
  have "takeWhile (\<lambda>c. c \<noteq> nl) (?gk @ '' '' @ rest) = ?gk @ '' '' @ takeWhile (\<lambda>c. c \<noteq> nl) rest"
    using c by (subst takeWhile_append2) auto
  moreover have "takeWhile (\<lambda>c. c \<noteq> CHR '' '') (?gk @ '' '' @ r') = ?gk" for r'
    using c by (subst takeWhile_append2) auto
  ultimately have "extractKindFromDiffHeader (diffSection s) = rev (takeWhile (\<lambda>c. c \<noteq> slash) (rev ?gk))"
    unfolding extractKindFromDiffHeader_def r Let_def by simp
  also have "rev ?gk = rev (rk_Kind ?k) @ slash # rev (rk_Group ?k)" by simp
  also have "takeWhile (\<lambda>c. c \<noteq> slash) \<dots> = rev (rk_Kind ?k)"
    using assms by (subst takeWhile_append2) (auto simp: plain_section_def)
  finally show ?thesis by simp
qed

text \<open>The diff tool withholds exactly the custom resource definitions and secrets of the diff: from the text
  that the diff check writes it removes the sections of these kinds and keeps all others unchanged
  and in order, as long as no section contains the mark that starts one.\<close>

theorem diff_tool_hides_kinds:
  assumes "list_all plain_section sections"
  shows "filterDiffSections (concat (map (\<lambda>s. ''===== '' @ diffSection s) sections)) =
    concat (map (\<lambda>s. ''===== '' @ diffSection s) (filter (\<lambda>s. rk_Kind (ol_key (fst s)) \<notin> excludedKinds) sections))"
proof -
  have n: "list_all (\<lambda>x. \<not> str_contains x (''====='' @ [CHR '' ''])) (map diffSection sections)"
    using assms by (auto simp: list_all_iff plain_section_def)
  have e: "\<not> str_contains [] (''====='' @ [CHR '' ''])" by code_simp
  have "str_split ''===== '' (concat (map (\<lambda>s. ''===== '' @ diffSection s) sections)) = [] # map diffSection sections"
    using str_split_sections[OF n _ e] by (simp add: comp_def)
  moreover have "diffSection s \<noteq> []" for s :: "'a objKeyLiveTarget \<times> string" by (simp add: diffSection_def)
  moreover have "filter (\<lambda>s. extractKindFromDiffHeader (diffSection s) \<notin> excludedKinds) sections =
      filter (\<lambda>s. rk_Kind (ol_key (fst s)) \<notin> excludedKinds) sections"
  proof (rule filter_cong[OF refl])
    fix s assume "s \<in> set sections"
    then have "plain_section s" using assms by (simp add: list_all_iff)
    then show "extractKindFromDiffHeader (diffSection s) \<notin> excludedKinds \<longleftrightarrow> rk_Kind (ol_key (fst s)) \<notin> excludedKinds"
      by (simp only: kind_of_section)
  qed
  ultimately show ?thesis by (simp add: filterDiffSections_def filter_map comp_def)
qed

section \<open>Examples\<close>

definition demo_rlib :: review_lib where
  "demo_rlib = \<lparr>
    rl_suggestion = (\<lambda>s. if s = ''other'' then Inr \<lparr>sg_Path = ''b.yaml'', sg_StartLine = 0, sg_EndLine = 3, sg_Body = [], sg_Suggestion = ''x''\<rparr>
      else Inr \<lparr>sg_Path = ''a.yaml'', sg_StartLine = 0, sg_EndLine = 3, sg_Body = [], sg_Suggestion = ''x''\<rparr>),
    rl_recommendation = (\<lambda>s. Inr \<lparr>re_Recommendation = s, re_Reason = ''r'', re_Source = ''limits''\<rparr>),
    rl_appName = Inr, rl_resourceQuery = (\<lambda>_. Inl ''bad''), rl_chartParams = (\<lambda>_. Inl ''bad''), rl_manifestKind = (\<lambda>_. None),
    rl_live = (\<lambda>_. Inr JNull), rl_marshal = (\<lambda>_. [])\<rparr>"

definition demo_source :: review_source where
  "demo_source = \<lparr>src_RepoURL = ''https://example.com/r'', src_Path = ''app'', src_TargetRevision = ''main'',
     src_Helm = Some \<lparr>h_FileParameters = [], h_ValueFiles = [''values.yaml'', ''../../etc/passwd'']\<rparr>, vs_Chart = [], vs_HelmValues = []\<rparr>"

definition demo_review :: ai_request where
  "demo_review = \<lparr>rq_AppName = ''web'', rq_Namespace = ''ns'', rq_Server = [], rq_ServerName = [], rq_Project = ''p'', rq_Source = demo_source,
     rq_Sources = [demo_source], rq_RepoDir = Some ''/tmp/r'', rq_NoteID = None, rq_KubernetesVersion = [], rq_YamlManifests = [],
     rq_ChangedFiles = [''a.yaml'', ''../../etc/passwd''], rq_RenderedDiff = ''d'', rq_PRTitle = [], rq_PRDescription = []\<rparr>"

text \<open>A model that first makes a suggestion for a changed file and one for another, flags something and
  calls an unknown tool, and then ends.\<close>

definition demo_calls :: "tool_call list" where
  "demo_calls = [\<lparr>tc_ID = ''1'', tc_Name = ''post_suggestion'', tc_Arguments = ''ok''\<rparr>, \<lparr>tc_ID = ''2'', tc_Name = ''post_suggestion'', tc_Arguments = ''other''\<rparr>,
     \<lparr>tc_ID = ''3'', tc_Name = ''submit_recommendation'', tc_Arguments = ''flag''\<rparr>, \<lparr>tc_ID = ''4'', tc_Name = ''rm'', tc_Arguments = []\<rparr>]"

definition demo_chat :: "chat_message list \<Rightarrow> string + chat_response" where
  "demo_chat ms = (if length ms = 1 then Inr \<lparr>rs_Text = [], rs_ToolCalls = demo_calls, rs_StopReason = StopToolUse\<rparr>
     else Inr \<lparr>rs_Text = ''done'', rs_ToolCalls = [], rs_StopReason = StopEndTurn\<rparr>)"

definition demo_checker :: review_checker where
  "demo_checker = \<lparr>rc_maxTurns = 20, rc_systemPrompt = ''p'', rc_extraInstructions = [], rc_chartAccess = None\<rparr>"

definition demo_schedule :: "nat \<Rightarrow> nat \<Rightarrow> nat list" where
  "demo_schedule t n = rev [0..<n]"

definition demo_run :: "string + review_result" where
  "demo_run = review_Check demo_rlib None (\<lambda>_. None) None (\<lambda>_. Inl []) (\<lambda>_. demo_chat) demo_schedule (Some demo_checker) demo_review (Inr [])"


theorem tool_calls_are_answered_witness:
  "\<exists>out conversation st. agent_Run demo_chat demo_schedule 20 ''review'' [PostSuggestionTool demo_rlib [''a.yaml'']] no_notes = (out, conversation, st) \<and>
    turns_ok (tl conversation) \<and> length conversation = 3"
proof -
  obtain out conversation st where r: "agent_Run demo_chat demo_schedule 20 ''review'' [PostSuggestionTool demo_rlib [''a.yaml'']] no_notes = (out, conversation, st)"
    by (metis prod.exhaust)
  have "length (fst (snd (agent_Run demo_chat demo_schedule 20 ''review'' [PostSuggestionTool demo_rlib [''a.yaml'']] no_notes))) = 3" by code_simp
  then show ?thesis using tool_calls_are_answered[OF r] r by (simp add: demo_schedule_def)
qed

theorem only_repository_files_are_shown_witness:
  "buildChangedFilesContent None (\<lambda>p. if p = ''/etc/passwd'' then Some ''root'' else if p = ''/tmp/r/a.yaml'' then Some ''a: 1'' else None) demo_review =
   buildChangedFilesContent None (\<lambda>p. if p = ''/tmp/r/a.yaml'' then Some ''a: 1'' else None) demo_review"
proof -
  have d: "rq_RepoDir demo_review = Some ''/tmp/r''" "rooted ''/tmp/r''" by code_simp+
  have e: "\<not> has_prefix (path_clean ''/etc/passwd'') (path_clean ''/tmp/r'' @ ''/'')" by code_simp
  show ?thesis
    by (rule conjunct1[OF only_repository_files_are_shown[OF d]]) (use e in auto)
qed

theorem diff_tool_hides_kinds_witness:
  "filterDiffSections (''===== /Secret ns/token ======'' @ [nl] @ ''+key'' @ [nl] @ ''===== apps/Deployment ns/web ======'' @ [nl] @ ''+replicas'') =
   ''===== apps/Deployment ns/web ======'' @ [nl] @ ''+replicas''"
proof -
  let ?s = "[(\<lparr>ol_key = demo_key [] ''Secret'' ''token'', ol_live = None, ol_target = Some ()\<rparr>, ''+key'' @ [nl]),
             (\<lparr>ol_key = demo_key ''apps'' ''Deployment'' ''web'', ol_live = None, ol_target = Some ()\<rparr>, ''+replicas'')]"
  have p: "list_all plain_section ?s" by code_simp
  show ?thesis using diff_tool_hides_kinds[OF p]
    by (simp add: diffSection_def resourceId_def demo_key_def excludedKinds_def)
qed

end
