(* ===== verification/GitRepo.thy ===== *)
theory GitRepo
  imports GoText
begin

text \<open>
  \<open>pkg/git/repo.go\<close>: a checkout of a Git repository.  What go-git does with the directory of a
  repository is a record of functions on an abstract state of that directory; the disk maps
  directories to such states.  Spans, metrics and log lines are left out.
\<close>

section \<open>Data\<close>

record git_creds =
  gk_GitCreds :: "(string + (string \<times> string)) option"
  gk_VcsToken :: string
  gk_userOfUrl :: "string \<Rightarrow> string option"

text \<open>An error of go-git: whether it is (or wraps) \<open>ErrReferenceNotFound\<close>, and its text.\<close>

record git_error =
  ge_isRefNotFound :: bool
  ge_text :: string

record basic_auth =
  au_Username :: string
  au_Password :: string

record repo =
  rp_BranchName :: string
  rp_CloneURL :: string
  rp_Directory :: string
  rp_TempBranch :: string
  rp_BaseBranchName :: string

datatype fetch_outcome = AlreadyUpToDate | FetchFailed string

text \<open>References by name with the hash they resolve to; remote references by name with the short name of
  what they point to; a change has the names of both sides, empty when there is none.\<close>

record 'g git_api =
  ga_PlainClone :: "string \<Rightarrow> basic_auth option \<Rightarrow> string \<Rightarrow> git_error + 'g"
  ga_Remote :: "'g \<Rightarrow> string option"
  ga_List :: "basic_auth option \<Rightarrow> 'g \<Rightarrow> string + (string \<times> string) list"
  ga_SetSymbolic :: "string \<Rightarrow> string \<Rightarrow> 'g \<Rightarrow> string + 'g"
  ga_SetHash :: "string \<Rightarrow> string \<Rightarrow> 'g \<Rightarrow> string + 'g"
  ga_RemoveReference :: "string \<Rightarrow> 'g \<Rightarrow> string + 'g"
  ga_Reference :: "string \<Rightarrow> 'g \<Rightarrow> string + (string \<times> string)"
  ga_Head :: "'g \<Rightarrow> string + (string \<times> string)"
  ga_Worktree :: "'g \<Rightarrow> string option"
  ga_CheckoutBranch :: "string \<Rightarrow> 'g \<Rightarrow> string + 'g"
  ga_CheckoutHash :: "string \<Rightarrow> 'g \<Rightarrow> string + 'g"
  ga_Fetch :: "basic_auth option \<Rightarrow> string list \<Rightarrow> 'g \<Rightarrow> fetch_outcome + 'g"
  ga_Reset :: "string \<Rightarrow> 'g \<Rightarrow> string + 'g"
  ga_CommitObject :: "string \<Rightarrow> 'g \<Rightarrow> string option"
  ga_Tree :: "string \<Rightarrow> 'g \<Rightarrow> string + string"
  ga_Diff :: "string \<Rightarrow> string \<Rightarrow> string + (string \<times> string) list"

type_synonym 'g disk = "string \<Rightarrow> 'g option"

definition wrapError :: "string \<Rightarrow> string \<Rightarrow> string" where
  "wrapError what err = what @ '': '' @ err"

definition refHeads :: string where "refHeads = ''refs/heads/''"
definition refTags :: string where "refTags = ''refs/tags/''"
definition refOrigin :: string where "refOrigin = ''refs/remotes/origin/''"

section \<open>Names\<close>

definition git_New :: "string \<Rightarrow> string \<Rightarrow> repo" where
  "git_New cloneUrl branchName =
    \<lparr>rp_BranchName = (if branchName = [] then ''HEAD'' else branchName), rp_CloneURL = cloneUrl, rp_Directory = [],
     rp_TempBranch = [], rp_BaseBranchName = []\<rparr>"

definition getAuth :: "git_creds \<Rightarrow> string \<Rightarrow> string + basic_auth option" where
  "getAuth cfg cloneURL =
    (case gk_GitCreds cfg of
       Some (Inl err) \<Rightarrow> Inl err
     | Some (Inr (username, password)) \<Rightarrow>
         if password = [] then Inr None else Inr (Some \<lparr>au_Username = username, au_Password = password\<rparr>)
     | None \<Rightarrow>
         if gk_VcsToken cfg = [] then Inr None
         else Inr (Some \<lparr>au_Username = (case gk_userOfUrl cfg cloneURL of Some u \<Rightarrow> u | None \<Rightarrow> ''git''), au_Password = gk_VcsToken cfg\<rparr>))"

definition isRefNotFound :: "git_error \<Rightarrow> bool" where
  "isRefNotFound err =
    (ge_isRefNotFound err \<or> str_contains (ge_text err) ''reference not found'' \<or>
     str_contains (ge_text err) (''couldn'' @ [CHR 0x27] @ ''t find remote ref''))"

definition hex_char :: "char \<Rightarrow> bool" where
  "hex_char c = (let n = (of_char c :: nat) in 48 \<le> n \<and> n \<le> 57 \<or> 97 \<le> n \<and> n \<le> 102 \<or> 65 \<le> n \<and> n \<le> 70)"

definition isHexString :: "string \<Rightarrow> bool" where
  "isHexString s = (if length s < 7 then False else list_all hex_char s)"

definition replaceInvalid :: "char \<Rightarrow> char" where
  "replaceInvalid c = (if c \<in> {CHR '' '', CHR ''/'', CHR 0x5C, CHR '':'', CHR ''~'', CHR ''^'', CHR ''?'', CHR ''*'', CHR ''['', CHR '']''}
     then CHR ''-'' else c)"

text \<open>\<open>strings.ReplaceAll\<close> of two hyphens by one, from left to right.\<close>

fun halveHyphens :: "string \<Rightarrow> string" where
  "halveHyphens (a # b # s) = (if a = CHR ''-'' \<and> b = CHR ''-'' then CHR ''-'' # halveHyphens s else a # halveHyphens (b # s))"
| "halveHyphens s = s"

lemma halveHyphens_length: "length (halveHyphens s) \<le> length s"
  by (induction s rule: halveHyphens.induct) auto

fun doubled :: "string \<Rightarrow> bool" where
  "doubled (a # b # s) = (a = CHR ''-'' \<and> b = CHR ''-'' \<or> doubled (b # s))"
| "doubled _ = False"

lemma doubled_contains: "doubled s \<longleftrightarrow> str_contains s ''--''"
proof (induction s rule: doubled.induct)
  case (1 a b s)
  then show ?case by (auto simp: str_contains_def)
qed (auto simp: str_contains_def)

lemma halveHyphens_shorter: "doubled s \<Longrightarrow> length (halveHyphens s) < length s"
proof (induction s rule: halveHyphens.induct)
  case (1 a b s)
  then show ?case using halveHyphens_length[of s] by auto
qed auto

function collapseHyphens :: "string \<Rightarrow> string" where
  "collapseHyphens s = (if str_contains s ''--'' then collapseHyphens (halveHyphens s) else s)"
  by pat_completeness auto
termination
  by (relation "measure length") (use halveHyphens_shorter doubled_contains in auto)

declare collapseHyphens.simps [simp del]

definition trimHyphens :: "string \<Rightarrow> string" where
  "trimHyphens s = trim_right (trim_left s ''-'') ''-''"

definition sanitizeBranchName :: "string \<Rightarrow> string" where
  "sanitizeBranchName name = trimHyphens (collapseHyphens (map replaceInvalid name))"

section \<open>Cloning\<close>

text \<open>The default branch of the remote, and the symbolic reference set up for it.\<close>

definition remoteHead :: "(string \<times> string) list \<Rightarrow> string option" where
  "remoteHead refs = map_option snd (find (\<lambda>r. fst r = ''HEAD'') refs)"

definition setupRemoteHead :: "'g git_api \<Rightarrow> git_creds \<Rightarrow> repo \<Rightarrow> 'g \<Rightarrow> string + 'g" where
  "setupRemoteHead A cfg r g =
    (case ga_Remote A g of
       Some err \<Rightarrow> Inl (wrapError ''failed to get origin remote'' err)
     | None \<Rightarrow>
         (case getAuth cfg (rp_CloneURL r) of
            Inl err \<Rightarrow> Inl (wrapError ''failed to get git credentials'' err)
          | Inr auth \<Rightarrow>
              (case ga_List A auth g of
                 Inl err \<Rightarrow> Inl (wrapError ''failed to list remote refs'' err)
               | Inr refs \<Rightarrow>
                   let defaultBranch = (case remoteHead refs of None \<Rightarrow> [] | Some b \<Rightarrow> b) in
                   if defaultBranch = [] then Inl ''remote HEAD not found''
                   else (case ga_SetSymbolic A (refOrigin @ ''HEAD'') (refOrigin @ defaultBranch) g of
                           Inl err \<Rightarrow> Inl (wrapError ''failed to set refs/remotes/origin/HEAD'' err)
                         | Inr g' \<Rightarrow> Inr g'))))"

text \<open>The clone of a branch, then of a tag, then of the default branch with the commit checked out.\<close>

definition cloneAny :: "'g git_api \<Rightarrow> string \<Rightarrow> basic_auth option \<Rightarrow> string \<Rightarrow> string option \<times> 'g option" where
  "cloneAny A url auth branch =
    (let named = (branch \<noteq> ''HEAD'' \<and> branch \<noteq> []) in
     case ga_PlainClone A url auth (if named then refHeads @ branch else []) of
       Inr g \<Rightarrow> (None, Some g)
     | Inl err \<Rightarrow>
         if named \<and> isRefNotFound err then
           (case ga_PlainClone A url auth (refTags @ branch) of
              Inr g \<Rightarrow> (None, Some g)
            | Inl err2 \<Rightarrow>
                if isRefNotFound err2 \<and> isHexString branch then
                  (case ga_PlainClone A url auth [] of
                     Inl err3 \<Rightarrow> (Some (ge_text err3), None)
                   | Inr g \<Rightarrow>
                       (case ga_Worktree A g of
                          Some err4 \<Rightarrow> (Some (wrapError ''failed to get worktree for SHA checkout'' err4), Some g)
                        | None \<Rightarrow>
                            (case ga_CheckoutHash A branch g of
                               Inl err4 \<Rightarrow> (Some (wrapError (''failed to checkout commit SHA '' @ branch) err4), Some g)
                             | Inr g' \<Rightarrow> (None, Some g'))))
                else (Some (ge_text err2), None))
         else (Some (ge_text err), None))"

text \<open>\<open>tmp\<close> is the name of a fresh temporary directory, or why there is none.  A failed clone leaves the
  temporary directory behind: empty, or with the clone when only the checkout of the commit failed.\<close>

definition repo_Clone ::
  "'g git_api \<Rightarrow> git_creds \<Rightarrow> string + string \<Rightarrow> repo \<Rightarrow> 'g disk \<Rightarrow> string option \<times> repo \<times> 'g disk" where
  "repo_Clone A cfg tmp r disk =
    (case (if rp_Directory r = [] then tmp else Inr (rp_Directory r)) of
       Inl err \<Rightarrow> (Some (wrapError ''failed to make temp dir'' err), r, disk)
     | Inr dir \<Rightarrow>
         let r = r\<lparr>rp_Directory := dir\<rparr> in
         (case getAuth cfg (rp_CloneURL r) of
            Inl err \<Rightarrow> (Some (wrapError ''failed to get git credentials'' err), r, disk)
          | Inr auth \<Rightarrow>
              (case cloneAny A (rp_CloneURL r) auth (rp_BranchName r) of
                 (Some err, left) \<Rightarrow>
                   (Some (wrapError ''failed to clone repository'' err), r, (case left of None \<Rightarrow> disk | Some g \<Rightarrow> disk(dir \<mapsto> g)))
               | (None, None) \<Rightarrow> (None, r, disk)
               | (None, Some g) \<Rightarrow>
                   let g = (case setupRemoteHead A cfg r g of Inl err \<Rightarrow> g | Inr g' \<Rightarrow> g')
                   in (None, r, disk(dir \<mapsto> g)))))"

lemma cloneAny_holds: "cloneAny A url auth branch = (None, left) \<Longrightarrow> \<exists>g. left = Some g"
  by (auto simp: cloneAny_def Let_def split: sum.splits if_splits option.splits)

text \<open>The scheme and host that \<open>net/url\<close> reads are an argument.\<close>

definition BuildCloneURL ::
  "(string \<Rightarrow> string + (string \<times> string)) \<Rightarrow> string \<Rightarrow> string \<Rightarrow> string \<Rightarrow> string + string" where
  "BuildCloneURL parseUrl baseURL user password =
    (case parseUrl baseURL of
       Inl err \<Rightarrow> Inl (wrapError (''failed to parse '' @ go_quote baseURL) err)
     | Inr (scheme, hostname) \<Rightarrow> Inr (scheme @ ''://'' @ user @ '':'' @ password @ ''@'' @ hostname))"

section \<open>Queries\<close>

text \<open>Opening a directory that holds no repository fails.\<close>

definition plainOpen :: "'g disk \<Rightarrow> repo \<Rightarrow> string + 'g" where
  "plainOpen disk r =
    (case disk (rp_Directory r) of
       None \<Rightarrow> Inl (wrapError ''failed to open repository'' ''repository does not exist'')
     | Some g \<Rightarrow> Inr g)"

definition GetRemoteHead :: "'g git_api \<Rightarrow> git_creds \<Rightarrow> 'g disk \<Rightarrow> repo \<Rightarrow> string + string" where
  "GetRemoteHead A cfg disk r =
    (case plainOpen disk r of
       Inl err \<Rightarrow> Inl err
     | Inr g \<Rightarrow>
         (case ga_Reference A (refOrigin @ ''HEAD'') g of
            Inr (name, _) \<Rightarrow> Inr (trim_prefix name refOrigin)
          | Inl _ \<Rightarrow>
              (case ga_Remote A g of
                 Some err \<Rightarrow> Inl (wrapError (''failed to get remote '' @ [CHR 0x27] @ ''origin'' @ [CHR 0x27]) err)
               | None \<Rightarrow>
                   (case getAuth cfg (rp_CloneURL r) of
                      Inl err \<Rightarrow> Inl (wrapError ''failed to get git credentials'' err)
                    | Inr auth \<Rightarrow>
                        (case ga_List A auth g of
                           Inl err \<Rightarrow> Inl (wrapError ''failed to list remote refs'' err)
                         | Inr refs \<Rightarrow>
                             (case remoteHead refs of
                                Some b \<Rightarrow> Inr b
                              | None \<Rightarrow> Inl ''failed to determine remote HEAD''))))))"

text \<open>\<open>ReferenceName.Short\<close>: the name without the prefix of its kind; \<open>None\<close> cannot occur for a branch.\<close>

definition shortName :: "string \<Rightarrow> string" where
  "shortName name =
    (if has_prefix name refHeads then trim_prefix name refHeads
     else if has_prefix name refTags then trim_prefix name refTags
     else if has_prefix name ''refs/remotes/'' then trim_prefix name ''refs/remotes/''
     else name)"

definition GetCurrentBranch :: "'g git_api \<Rightarrow> 'g disk \<Rightarrow> repo \<Rightarrow> string + string" where
  "GetCurrentBranch A disk r =
    (case plainOpen disk r of
       Inl err \<Rightarrow> Inl err
     | Inr g \<Rightarrow>
         (case ga_Head A g of
            Inl err \<Rightarrow> Inl (wrapError ''failed to determine which branch HEAD points to'' err)
          | Inr (name, _) \<Rightarrow> Inr (shortName name)))"

definition GetCurrentCommitSHA :: "'g git_api \<Rightarrow> 'g disk \<Rightarrow> repo \<Rightarrow> string + string" where
  "GetCurrentCommitSHA A disk r =
    (case plainOpen disk r of
       Inl err \<Rightarrow> Inl err
     | Inr g \<Rightarrow>
         (case ga_Head A g of
            Inl err \<Rightarrow> Inl (wrapError ''failed to get current commit SHA'' err)
          | Inr (_, hash) \<Rightarrow> Inr hash))"

definition changeNames :: "string \<times> string \<Rightarrow> string list" where
  "changeNames c =
    (if fst c \<noteq> [] then [fst c] else []) @ (if snd c \<noteq> [] \<and> snd c \<noteq> fst c then [snd c] else [])"

definition repo_GetListOfChangedFiles :: "'g git_api \<Rightarrow> 'g disk \<Rightarrow> repo \<Rightarrow> string + string list" where
  "repo_GetListOfChangedFiles A disk r =
    (case plainOpen disk r of
       Inl err \<Rightarrow> Inl err
     | Inr g \<Rightarrow>
         (case ga_Head A g of
            Inl err \<Rightarrow> Inl (wrapError ''failed to get HEAD'' err)
          | Inr (_, headHash) \<Rightarrow>
              (case ga_Reference A (refOrigin @ rp_BranchName r) g of
                 Inl err \<Rightarrow> Inl (wrapError (''failed to get reference '' @ refOrigin @ rp_BranchName r) err)
               | Inr (_, baseHash) \<Rightarrow>
                   (case ga_CommitObject A headHash g of
                      Some err \<Rightarrow> Inl (wrapError ''failed to get HEAD commit'' err)
                    | None \<Rightarrow>
                        (case ga_CommitObject A baseHash g of
                           Some err \<Rightarrow> Inl (wrapError ''failed to get base commit'' err)
                         | None \<Rightarrow>
                             (case ga_Tree A headHash g of
                                Inl err \<Rightarrow> Inl (wrapError ''failed to get HEAD tree'' err)
                              | Inr headTree \<Rightarrow>
                                  (case ga_Tree A baseHash g of
                                     Inl err \<Rightarrow> Inl (wrapError ''failed to get base tree'' err)
                                   | Inr baseTree \<Rightarrow>
                                       (case ga_Diff A baseTree headTree of
                                          Inl err \<Rightarrow> Inl (wrapError ''failed to diff trees'' err)
                                        | Inr changes \<Rightarrow> Inr (concat (map changeNames changes))))))))))"

section \<open>Updates\<close>

definition repo_Checkout :: "'g git_api \<Rightarrow> string \<Rightarrow> repo \<Rightarrow> 'g disk \<Rightarrow> string option \<times> 'g disk" where
  "repo_Checkout A branchName r disk =
    (case plainOpen disk r of
       Inl err \<Rightarrow> (Some err, disk)
     | Inr g \<Rightarrow>
         (case ga_Worktree A g of
            Some err \<Rightarrow> (Some (wrapError ''failed to get worktree'' err), disk)
          | None \<Rightarrow>
              (case ga_CheckoutBranch A (refHeads @ branchName) g of
                 Inl err \<Rightarrow> (Some (wrapError (''failed to checkout branch '' @ branchName) err), disk)
               | Inr g' \<Rightarrow> (None, disk(rp_Directory r \<mapsto> g')))))"

definition fetchSpecs :: "repo \<Rightarrow> string list" where
  "fetchSpecs r =
    (if rp_BranchName r \<noteq> ''HEAD'' \<and> rp_BranchName r \<noteq> []
     then [''+refs/heads/'' @ rp_BranchName r @ '':refs/remotes/origin/'' @ rp_BranchName r] else [])"

definition repo_Update :: "'g git_api \<Rightarrow> git_creds \<Rightarrow> repo \<Rightarrow> 'g disk \<Rightarrow> string option \<times> 'g disk" where
  "repo_Update A cfg r disk =
    (case plainOpen disk r of
       Inl err \<Rightarrow> (Some err, disk)
     | Inr g \<Rightarrow>
         (case getAuth cfg (rp_CloneURL r) of
            Inl err \<Rightarrow> (Some (wrapError ''failed to get git credentials'' err), disk)
          | Inr auth \<Rightarrow>
              (case (case ga_Fetch A auth (fetchSpecs r) g of
                       Inr g' \<Rightarrow> Inr g'
                     | Inl AlreadyUpToDate \<Rightarrow> Inr g
                     | Inl (FetchFailed err) \<Rightarrow> Inl (wrapError (''failed to fetch branch '' @ rp_BranchName r) err)) of
                 Inl err \<Rightarrow> (Some err, disk)
               | Inr g \<Rightarrow>
                   let disk = disk(rp_Directory r \<mapsto> g) in
                   (case ga_Worktree A g of
                      Some err \<Rightarrow> (Some (wrapError ''failed to get worktree'' err), disk)
                    | None \<Rightarrow>
                        (case ga_Reference A (refOrigin @ rp_BranchName r) g of
                           Inl err \<Rightarrow> (Some (wrapError (''failed to get reference to '' @ refOrigin @ rp_BranchName r) err), disk)
                         | Inr (_, hash) \<Rightarrow>
                             (case ga_Reset A hash g of
                                Inl err \<Rightarrow> (Some (wrapError (''failed to reset to origin/'' @ rp_BranchName r) err), disk)
                              | Inr g' \<Rightarrow> (None, disk(rp_Directory r \<mapsto> g'))))))))"

definition repo_Wipe :: "repo \<Rightarrow> 'g disk \<Rightarrow> 'g disk" where
  "repo_Wipe r disk = disk(rp_Directory r := None)"

definition tempBranchName :: "string \<Rightarrow> string \<Rightarrow> string" where
  "tempBranchName prIdentifier commitSHA =
    ''temp-pr-'' @ sanitizeBranchName prIdentifier @ ''-'' @ sanitizeBranchName commitSHA"

definition CreateTempBranch ::
  "'g git_api \<Rightarrow> string \<Rightarrow> string \<Rightarrow> repo \<Rightarrow> 'g disk \<Rightarrow> (string + string) \<times> 'g disk" where
  "CreateTempBranch A prIdentifier commitSHA r disk =
    (let tempBranch = tempBranchName prIdentifier commitSHA; branchRef = refHeads @ tempBranch in
     case plainOpen disk r of
       Inl err \<Rightarrow> (Inl err, disk)
     | Inr g \<Rightarrow>
         (case ga_Head A g of
            Inl err \<Rightarrow> (Inl (wrapError ''failed to get HEAD'' err), disk)
          | Inr (_, hash) \<Rightarrow>
              (case ga_SetHash A branchRef hash g of
                 Inl err \<Rightarrow> (Inl (wrapError (''failed to create branch '' @ tempBranch) err), disk)
               | Inr g \<Rightarrow>
                   let disk = disk(rp_Directory r \<mapsto> g) in
                   (case ga_Worktree A g of
                      Some err \<Rightarrow> (Inl (wrapError ''failed to get worktree'' err), disk)
                    | None \<Rightarrow>
                        (case ga_CheckoutBranch A branchRef g of
                           Inl err \<Rightarrow> (Inl (wrapError (''failed to checkout branch '' @ tempBranch) err), disk)
                         | Inr g' \<Rightarrow> (Inr tempBranch, disk(rp_Directory r \<mapsto> g')))))))"

definition CleanupTempBranch ::
  "'g git_api \<Rightarrow> string \<Rightarrow> string \<Rightarrow> repo \<Rightarrow> 'g disk \<Rightarrow> string option \<times> 'g disk" where
  "CleanupTempBranch A tempBranch baseBranch r disk =
    (if tempBranch = [] then (None, disk)
     else let disk = snd (repo_Checkout A baseBranch r disk) in
       (case plainOpen disk r of
          Inl err \<Rightarrow> (Some err, disk)
        | Inr g \<Rightarrow>
            (case ga_RemoveReference A (refHeads @ tempBranch) g of
               Inl err \<Rightarrow> (Some (wrapError (''failed to delete temp branch '' @ tempBranch) err), disk)
             | Inr g' \<Rightarrow> (None, disk(rp_Directory r \<mapsto> g')))))"

section \<open>Branch names\<close>

lemma halveHyphens_set: "set (halveHyphens s) \<subseteq> set s"
  by (induction s rule: halveHyphens.induct) auto

lemma collapseHyphens_spec: "\<not> doubled (collapseHyphens s) \<and> set (collapseHyphens s) \<subseteq> set s"
proof (induction s rule: collapseHyphens.induct)
  case (1 s)
  show ?case
  proof (cases "str_contains s ''--''")
    case True
    then have "collapseHyphens s = collapseHyphens (halveHyphens s)" by (subst collapseHyphens.simps) simp
    then show ?thesis using 1[OF True] halveHyphens_set[of s] by auto
  next
    case False
    then have "collapseHyphens s = s" by (subst collapseHyphens.simps) simp
    then show ?thesis using False doubled_contains by simp
  qed
qed

lemma doubled_infix: "doubled ys \<Longrightarrow> doubled (xs @ ys @ zs)"
  unfolding doubled_contains str_contains_iff by (metis sublist_appendI sublist_order.order_trans)

lemma trim_hyphens: "trimHyphens s = rev (dropWhile (\<lambda>c. c = CHR ''-'') (rev (dropWhile (\<lambda>c. c = CHR ''-'') s)))"
  by (simp add: trimHyphens_def trim_left_def trim_right_def)

lemma dropWhile_splits: "\<exists>a. s = a @ dropWhile P s"
  by (rule exI[of _ "takeWhile P s"]) simp

lemma dropWhile_back_splits: "\<exists>b. s = rev (dropWhile P (rev s)) @ b"
proof -
  obtain a where "rev s = a @ dropWhile P (rev s)" using dropWhile_splits by blast
  then have "rev (rev s) = rev (a @ dropWhile P (rev s))" by (rule arg_cong[of _ _ rev])
  then have "s = rev (dropWhile P (rev s)) @ rev a" unfolding rev_append rev_rev_ident .
  then show ?thesis by (rule exI)
qed

lemma trimHyphens_infix: "\<exists>a b. s = a @ trimHyphens s @ b"
proof -
  let ?l = "dropWhile (\<lambda>c. c = CHR ''-'') s"
  obtain a where a: "s = a @ ?l" using dropWhile_splits by blast
  obtain b where b: "?l = trimHyphens s @ b" using dropWhile_back_splits[of ?l] unfolding trim_hyphens by blast
  have "s = a @ trimHyphens s @ b" unfolding b[symmetric] by (rule a)
  then show ?thesis by (intro exI)
qed

lemma trimHyphens_ends:
  assumes "trimHyphens s \<noteq> []"
  shows "hd (trimHyphens s) \<noteq> CHR ''-'' \<and> last (trimHyphens s) \<noteq> CHR ''-''"
proof -
  let ?P = "\<lambda>c. c = CHR ''-''"
  let ?l = "dropWhile ?P s"
  have l: "?l \<noteq> []" using assms unfolding trim_hyphens by (rule contrapos_nn) (simp only: rev.simps dropWhile.simps)
  obtain b where b: "?l = trimHyphens s @ b" using dropWhile_back_splits[of ?l] unfolding trim_hyphens by blast
  have h: "hd ?l = hd (trimHyphens s)" using arg_cong[OF b, of hd] assms by (simp only: hd_append2 simp_thms)
  have n: "dropWhile ?P (rev ?l) \<noteq> []" using assms by (simp only: trim_hyphens rev_is_Nil_conv simp_thms)
  have e: "last (trimHyphens s) = hd (dropWhile ?P (rev ?l))" using n unfolding trim_hyphens by (simp only: last_rev)
  show ?thesis using hd_dropWhile[OF l] hd_dropWhile[OF n] unfolding e h by simp
qed

lemma has_suffix_last: "has_suffix s [c] \<longleftrightarrow> s \<noteq> [] \<and> last s = c"
proof
  assume "has_suffix s [c]"
  then show "s \<noteq> [] \<and> last s = c" by (auto simp: has_suffix_iff)
next
  assume "s \<noteq> [] \<and> last s = c"
  then show "has_suffix s [c]" unfolding has_suffix_iff by (metis append_butlast_last_id)
qed

lemma has_prefix_hd: "has_prefix s [c] \<longleftrightarrow> s \<noteq> [] \<and> hd s = c"
  by (cases s) auto

definition refused :: "char set" where
  "refused = set ('' /:~^?*[]'' @ [CHR 0x5C])"

lemma replaceInvalid_refused: "replaceInvalid c \<notin> refused" "c \<notin> refused \<Longrightarrow> replaceInvalid c = c"
  by (auto simp: replaceInvalid_def refused_def)

text \<open>Sanitising a name ends, whatever it contains, and leaves none of the characters that Git refuses in
  a branch name, no two hyphens in a row and none at the start or the end; a name without any of
  these is not changed.\<close>

theorem sanitized_names_are_clean:
  "set (sanitizeBranchName name) \<inter> refused = {} \<and> \<not> str_contains (sanitizeBranchName name) ''--'' \<and>
   \<not> has_prefix (sanitizeBranchName name) ''-'' \<and> \<not> has_suffix (sanitizeBranchName name) ''-'' \<and>
   (set name \<inter> refused = {} \<and> \<not> str_contains name ''--'' \<and> \<not> has_prefix name ''-'' \<and> \<not> has_suffix name ''-'' \<longrightarrow>
    sanitizeBranchName name = name)"
proof -
  let ?m = "map replaceInvalid name"
  let ?c = "collapseHyphens ?m"
  obtain a b where ab: "?c = a @ sanitizeBranchName name @ b" using trimHyphens_infix[of ?c] by (auto simp: sanitizeBranchName_def)
  have "set (sanitizeBranchName name) \<subseteq> set ?c" using ab by (metis Un_iff set_append subsetI)
  then have "set (sanitizeBranchName name) \<subseteq> set ?m" using collapseHyphens_spec by blast
  then have clean: "set (sanitizeBranchName name) \<inter> refused = {}" using replaceInvalid_refused(1) by auto
  have single: "\<not> str_contains (sanitizeBranchName name) ''--''"
    using doubled_infix[of "sanitizeBranchName name" a b] collapseHyphens_spec[of ?m] unfolding ab doubled_contains[symmetric] by metis
  have edges: "\<not> has_prefix (sanitizeBranchName name) ''-''" "\<not> has_suffix (sanitizeBranchName name) ''-''"
    using trimHyphens_ends[of ?c] by (auto simp: has_prefix_hd has_suffix_last sanitizeBranchName_def)
  have same: "sanitizeBranchName name = name" if n: "set name \<inter> refused = {}" "\<not> str_contains name ''--''" "\<not> has_prefix name ''-''" "\<not> has_suffix name ''-''"
  proof -
  have m: "?m = name" using n(1) replaceInvalid_refused(2) by (intro map_idI) blast
  have c: "?c = name" unfolding m using n(2) by (subst collapseHyphens.simps) simp
  have "dropWhile (\<lambda>c. c = CHR ''-'') name = name" using n(3) by (cases name) auto
  moreover have "dropWhile (\<lambda>c. c = CHR ''-'') (rev name) = rev name" using n(4) by (cases "rev name") (auto simp: has_suffix_def)
  ultimately show "sanitizeBranchName name = name" unfolding sanitizeBranchName_def c trim_hyphens by simp
  qed
  show ?thesis using clean single edges same by blast
qed

theorem sanitized_names_are_clean_witness:
  "sanitizeBranchName ''feat-1'' = ''feat-1'' \<and> sanitizeBranchName ''-feat//x '' = ''feat-x''"
  using sanitized_names_are_clean[of "''feat-1''"] by code_simp

end
