(* ===== verification/GitManager.thy ===== *)
theory GitManager
  imports GitRepo GoPaths
begin

text \<open>
  \<open>pkg/git/manager.go\<close>: who clones repositories and who removes the clones.  The persistent manager
  keeps one checkout per repository and cuts a temporary branch for each check; the ephemeral one clones
  for each request.  The clock, the names of temporary directories, the hexadecimal SHA-256 and the
  errors of \<open>rename(2)\<close> are arguments.  The queue runs the checks of a repository one after the
  other, so an operation is one step.
\<close>

section \<open>State\<close>

record persistent_repo =
  pr_Repo :: repo
  pr_lastUsed :: int
  pr_refCount :: "32 word"
  pr_baseBranch :: string

record 'g manager =
  pm_repos :: "string \<Rightarrow> persistent_repo option"
  pm_disk :: "'g disk"

record 'g manager_env =
  me_api :: "'g git_api"
  me_creds :: git_creds
  me_persistentDir :: string
  me_TTL :: int
  me_sha256 :: "string \<Rightarrow> string"
  me_rename :: "string \<Rightarrow> string \<Rightarrow> string option"

definition NewPersistentRepoManager :: "'g disk \<Rightarrow> 'g manager" where
  "NewPersistentRepoManager disk = \<lparr>pm_repos = \<lambda>_. None, pm_disk = disk\<rparr>"

definition cacheKey :: "string \<Rightarrow> string" where
  "cacheKey cloneURL = trim_suffix (to_lower cloneURL) ''.git''"

definition sanitizeRepoName :: "'g manager_env \<Rightarrow> string \<Rightarrow> string" where
  "sanitizeRepoName E cloneURL = me_sha256 E cloneURL"

definition repoDir :: "'g manager_env \<Rightarrow> string \<Rightarrow> string" where
  "repoDir E cloneURL = path_join [me_persistentDir E, sanitizeRepoName E cloneURL]"

text \<open>\<open>os.Rename\<close> refuses to replace a directory.\<close>

definition os_Rename :: "'g manager_env \<Rightarrow> string \<Rightarrow> string \<Rightarrow> 'g disk \<Rightarrow> string option \<times> 'g disk" where
  "os_Rename E old new disk =
    (if disk new \<noteq> None then (Some ''file exists'', disk)
     else (case me_rename E old new of
             Some err \<Rightarrow> (Some err, disk)
           | None \<Rightarrow> (None, disk(new := disk old, old := None))))"

section \<open>The persistent manager\<close>

definition GetOrCloneRepo ::
  "'g manager_env \<Rightarrow> string + string \<Rightarrow> int \<Rightarrow> string \<Rightarrow> string \<Rightarrow> 'g manager \<Rightarrow> (string + persistent_repo) \<times> 'g manager" where
  "GetOrCloneRepo E tmp now cloneURL baseBranch m =
    (case pm_repos m (cacheKey cloneURL) of
       Some pr \<Rightarrow> (Inr pr, m)
     | None \<Rightarrow>
         (case repo_Clone (me_api E) (me_creds E) tmp (git_New cloneURL baseBranch) (pm_disk m) of
            (Some err, _, disk) \<Rightarrow> (Inl (wrapError ''failed to clone repository to persistent cache'' err), m\<lparr>pm_disk := disk\<rparr>)
          | (None, r, disk) \<Rightarrow>
              let tempDir = rp_Directory r; dir = repoDir E cloneURL in
              (case os_Rename E tempDir dir disk of
                 (Some err, disk) \<Rightarrow>
                   (Inl (wrapError (''failed to move repository from '' @ tempDir @ '' to '' @ dir) err), m\<lparr>pm_disk := disk(tempDir := None)\<rparr>)
               | (None, disk) \<Rightarrow>
                   let pr = \<lparr>pr_Repo = r\<lparr>rp_Directory := dir\<rparr>, pr_lastUsed = now, pr_refCount = 0, pr_baseBranch = baseBranch\<rparr>
                   in (Inr pr, m\<lparr>pm_repos := (pm_repos m)(cacheKey cloneURL \<mapsto> pr), pm_disk := disk\<rparr>))))"

text \<open>The branch is noted as soon as it is checked out, before the update that may fail.\<close>

definition switchBranch ::
  "'g manager_env \<Rightarrow> string \<Rightarrow> persistent_repo \<Rightarrow> 'g disk \<Rightarrow> string option \<times> persistent_repo \<times> 'g disk" where
  "switchBranch E baseBranch pr disk =
    (if baseBranch \<noteq> [] \<and> rp_BranchName (pr_Repo pr) \<noteq> baseBranch then
       (case repo_Checkout (me_api E) baseBranch (pr_Repo pr) disk of
          (Some err, disk) \<Rightarrow> (Some (wrapError (''failed to checkout branch '' @ baseBranch) err), pr, disk)
        | (None, disk) \<Rightarrow> (None, pr\<lparr>pr_Repo := (pr_Repo pr)\<lparr>rp_BranchName := baseBranch\<rparr>\<rparr>, disk))
     else (None, pr, disk))"

definition UpdateBaseBranch ::
  "'g manager_env \<Rightarrow> int \<Rightarrow> string \<Rightarrow> persistent_repo \<Rightarrow> 'g disk \<Rightarrow> string option \<times> persistent_repo \<times> 'g disk" where
  "UpdateBaseBranch E now baseBranch pr disk =
    (case switchBranch E baseBranch pr disk of
       (Some err, pr, disk) \<Rightarrow> (Some err, pr, disk)
     | (None, pr, disk) \<Rightarrow>
         (case repo_Update (me_api E) (me_creds E) (pr_Repo pr) disk of
            (Some err, disk) \<Rightarrow> (Some (wrapError ''failed to update base branch'' err), pr, disk)
          | (None, disk) \<Rightarrow> (None, pr\<lparr>pr_baseBranch := baseBranch, pr_lastUsed := now\<rparr>, disk)))"

text \<open>The wrapper in the cache is the one that the update changes.\<close>

definition store :: "string \<Rightarrow> persistent_repo \<Rightarrow> 'g disk \<Rightarrow> 'g manager \<Rightarrow> 'g manager" where
  "store cloneUrl pr disk m = m\<lparr>pm_repos := (pm_repos m)(cacheKey cloneUrl \<mapsto> pr), pm_disk := disk\<rparr>"

definition persistent_Clone ::
  "'g manager_env \<Rightarrow> string + string \<Rightarrow> nat \<Rightarrow> string \<Rightarrow> string \<Rightarrow> 'g manager \<Rightarrow> (string + repo) \<times> 'g manager" where
  "persistent_Clone E tmp now cloneUrl branchName m =
    (case GetOrCloneRepo E tmp (int now) cloneUrl branchName m of
       (Inl err, m) \<Rightarrow> (Inl err, m)
     | (Inr pr, m) \<Rightarrow>
         (case UpdateBaseBranch E (int now) branchName pr (pm_disk m) of
            (Some err, pr, disk) \<Rightarrow> (Inl (wrapError ''failed to update base branch'' err), store cloneUrl pr disk m)
          | (None, pr, disk) \<Rightarrow>
              let commitSHA = (case GetCurrentCommitSHA (me_api E) disk (pr_Repo pr) of Inl err \<Rightarrow> ''00000000'' | Inr sha \<Rightarrow> sha) in
              (case CreateTempBranch (me_api E) (itoa now) commitSHA (pr_Repo pr) disk of
                 (Inl err, disk) \<Rightarrow> (Inl (wrapError ''failed to create temp branch'' err), store cloneUrl pr disk m)
               | (Inr tempBranch, disk) \<Rightarrow>
                   (Inr ((pr_Repo pr)\<lparr>rp_TempBranch := tempBranch, rp_BaseBranchName := branchName\<rparr>), store cloneUrl pr disk m))))"

definition ReleaseRepo :: "int \<Rightarrow> string \<Rightarrow> 'g manager \<Rightarrow> 'g manager" where
  "ReleaseRepo now cloneURL m =
    (case pm_repos m (cacheKey cloneURL) of
       None \<Rightarrow> m
     | Some pr \<Rightarrow> m\<lparr>pm_repos := (pm_repos m)(cacheKey cloneURL \<mapsto> pr\<lparr>pr_refCount := pr_refCount pr - 1, pr_lastUsed := now\<rparr>)\<rparr>)"

definition CleanupTempBranchForRepo :: "'g manager_env \<Rightarrow> int \<Rightarrow> repo \<Rightarrow> 'g manager \<Rightarrow> 'g manager" where
  "CleanupTempBranchForRepo E now r m =
    (if rp_TempBranch r = [] then m
     else (case pm_repos m (cacheKey (rp_CloneURL r)) of
       None \<Rightarrow> m
     | Some pr \<Rightarrow>
         let disk = snd (CleanupTempBranch (me_api E) (rp_TempBranch r) (rp_BaseBranchName r) (pr_Repo pr) (pm_disk m))
         in store (rp_CloneURL r) (pr\<lparr>pr_refCount := pr_refCount pr - 1, pr_lastUsed := now\<rparr>) disk m))"

definition removeStale :: "'g manager_env \<Rightarrow> int \<Rightarrow> string \<Rightarrow> 'g manager \<Rightarrow> 'g manager" where
  "removeStale E now key m =
    (case pm_repos m key of
       None \<Rightarrow> m
     | Some pr \<Rightarrow>
         if sint (pr_refCount pr) > 0 then m
         else if now - pr_lastUsed pr > me_TTL E
         then m\<lparr>pm_repos := (pm_repos m)(key := None), pm_disk := repo_Wipe (pr_Repo pr) (pm_disk m)\<rparr>
         else m)"

text \<open>The keys in the order in which the map is walked.\<close>

definition cleanupStaleRepos :: "'g manager_env \<Rightarrow> int \<Rightarrow> string list \<Rightarrow> 'g manager \<Rightarrow> 'g manager" where
  "cleanupStaleRepos E now keys m = fold (removeStale E now) keys m"

section \<open>The ephemeral manager\<close>

record 'g ephemeral =
  em_repos :: "repo list"
  em_disk :: "'g disk"

definition NewEphemeralRepoManager :: "'g disk \<Rightarrow> 'g ephemeral" where
  "NewEphemeralRepoManager disk = \<lparr>em_repos = [], em_disk = disk\<rparr>"

definition ephemeral_Clone ::
  "'g manager_env \<Rightarrow> string + string \<Rightarrow> string \<Rightarrow> string \<Rightarrow> 'g ephemeral \<Rightarrow> (string + repo) \<times> 'g ephemeral" where
  "ephemeral_Clone E tmp cloneUrl branchName m =
    (case repo_Clone (me_api E) (me_creds E) tmp (git_New cloneUrl branchName) (em_disk m) of
       (Some err, _, disk) \<Rightarrow> (Inl (wrapError ''failed to clone repository'' err), m\<lparr>em_disk := disk\<rparr>)
     | (None, r, disk) \<Rightarrow> (Inr r, m\<lparr>em_repos := em_repos m @ [r], em_disk := disk\<rparr>))"

definition ephemeral_Cleanup :: "'g ephemeral \<Rightarrow> 'g ephemeral" where
  "ephemeral_Cleanup m = m\<lparr>em_disk := fold repo_Wipe (em_repos m) (em_disk m)\<rparr>"

section \<open>What an operation does to the disk\<close>

definition same_dirs :: "'g disk \<Rightarrow> 'g disk \<Rightarrow> bool" where
  "same_dirs disk disk' \<longleftrightarrow> dom disk' = dom disk"

named_theorems keeps_dirs

lemma same_dirs_refl [simp, intro]: "same_dirs disk disk"
  by (simp add: same_dirs_def)

lemma same_dirs_trans: "same_dirs a b \<Longrightarrow> same_dirs b c \<Longrightarrow> same_dirs a c"
  by (simp add: same_dirs_def)

lemma plainOpen_dir: "plainOpen disk r = Inr g \<Longrightarrow> disk (rp_Directory r) = Some g"
  by (simp add: plainOpen_def split: option.splits)

lemma same_dirs_update: "disk d = Some g \<Longrightarrow> same_dirs disk (disk(d \<mapsto> g'))"
  by (auto simp: same_dirs_def)

lemma repo_Checkout_dirs [keeps_dirs]: "same_dirs disk (snd (repo_Checkout A b r disk))"
  by (auto simp: repo_Checkout_def dest!: plainOpen_dir intro!: same_dirs_update split: sum.split option.split)

lemma repo_Update_dirs [keeps_dirs]: "same_dirs disk (snd (repo_Update A cfg r disk))"
  by (auto simp: repo_Update_def same_dirs_def Let_def dest!: plainOpen_dir
      split: sum.split option.split fetch_outcome.split)

lemma CreateTempBranch_dirs [keeps_dirs]: "same_dirs disk (snd (CreateTempBranch A i c r disk))"
  by (auto simp: CreateTempBranch_def same_dirs_def Let_def dest!: plainOpen_dir split: sum.split option.split)

lemma CleanupTempBranch_dirs [keeps_dirs]: "same_dirs disk (snd (CleanupTempBranch A t b r disk))"
proof (cases "t = []")
  case False
  then have "same_dirs (snd (repo_Checkout A b r disk)) (snd (CleanupTempBranch A t b r disk))"
    by (auto simp: CleanupTempBranch_def Let_def dest!: plainOpen_dir intro!: same_dirs_update split: sum.split)
  then show ?thesis using same_dirs_trans[OF repo_Checkout_dirs] by blast
qed (simp add: CleanupTempBranch_def)

lemma repo_Clone_dirs:
  assumes "repo_Clone A cfg tmp (git_New u b) disk = (e, r, disk')"
  shows "(\<forall>d. tmp \<noteq> Inr d \<longrightarrow> disk' d = disk d)
    \<and> (e = None \<longrightarrow> tmp = Inr (rp_Directory r) \<and> disk' (rp_Directory r) \<noteq> None \<and> rp_CloneURL r = u)"
  using assms unfolding repo_Clone_def git_New_def
  by (auto simp: Let_def dest: cloneAny_holds split: sum.splits option.splits prod.splits)

text \<open>The name and the directory of a checkout stay what they were.\<close>

definition same_place :: "persistent_repo \<Rightarrow> persistent_repo \<Rightarrow> bool" where
  "same_place pr pr' \<longleftrightarrow> rp_Directory (pr_Repo pr') = rp_Directory (pr_Repo pr) \<and> rp_CloneURL (pr_Repo pr') = rp_CloneURL (pr_Repo pr)"

lemma switchBranch_keeps:
  assumes "switchBranch E b pr disk = (e, pr', disk')"
  shows "same_dirs disk disk' \<and> same_place pr pr'"
  using assms repo_Checkout_dirs[of disk "me_api E" b "pr_Repo pr"]
  by (auto simp: switchBranch_def same_place_def split: if_splits prod.splits option.splits)

lemma UpdateBaseBranch_keeps:
  assumes "UpdateBaseBranch E now b pr disk = (e, pr', disk')"
  shows "same_dirs disk disk' \<and> same_place pr pr'"
proof -
  obtain e1 pr1 disk1 where 1: "switchBranch E b pr disk = (e1, pr1, disk1)" by (cases "switchBranch E b pr disk")
  obtain e2 disk2 where 2: "repo_Update (me_api E) (me_creds E) (pr_Repo pr1) disk1 = (e2, disk2)" by fastforce
  have "same_dirs disk1 disk2" using repo_Update_dirs[of disk1 "me_api E" "me_creds E" "pr_Repo pr1"] 2 by simp
  then show ?thesis using assms switchBranch_keeps[OF 1] same_dirs_trans[of disk disk1 disk2] unfolding UpdateBaseBranch_def 1
    by (auto simp: 2 same_place_def split: option.splits)
qed

section \<open>Every cached checkout exists\<close>

definition present :: "'g disk \<Rightarrow> string \<Rightarrow> bool" where
  "present disk d \<longleftrightarrow> disk d \<noteq> None"

definition placed :: "'g manager_env \<Rightarrow> 'g disk \<Rightarrow> string \<Rightarrow> persistent_repo \<Rightarrow> bool" where
  "placed E disk k pr \<longleftrightarrow> present disk (rp_Directory (pr_Repo pr)) \<and>
    rp_Directory (pr_Repo pr) = repoDir E (rp_CloneURL (pr_Repo pr)) \<and> cacheKey (rp_CloneURL (pr_Repo pr)) = k"

definition checkouts_ok :: "'g manager_env \<Rightarrow> 'g manager \<Rightarrow> bool" where
  "checkouts_ok E m \<longleftrightarrow>
    (\<forall>k pr. pm_repos m k = Some pr \<longrightarrow> placed E (pm_disk m) k pr) \<and>
    (\<forall>k pr k' pr'. pm_repos m k = Some pr \<longrightarrow> pm_repos m k' = Some pr' \<longrightarrow>
      rp_Directory (pr_Repo pr) = rp_Directory (pr_Repo pr') \<longrightarrow> k = k')"

lemma placed_present: "placed E disk k pr \<Longrightarrow> present disk (rp_Directory (pr_Repo pr))"
  unfolding placed_def by (elim conjE)

lemma placed_disk: "placed E disk k pr \<Longrightarrow> present disk' (rp_Directory (pr_Repo pr)) \<Longrightarrow> placed E disk' k pr"
  unfolding placed_def by blast

lemma placed_same: "placed E disk k pr \<Longrightarrow> same_place pr pr' \<Longrightarrow> placed E disk k pr'"
  unfolding placed_def same_place_def by metis

lemma checkouts_ok_entry: "checkouts_ok E m \<Longrightarrow> pm_repos m k = Some pr \<Longrightarrow> placed E (pm_disk m) k pr"
  unfolding checkouts_ok_def by blast

lemma checkouts_ok_apart:
  assumes "checkouts_ok E m" "pm_repos m k = Some pr" "pm_repos m k' = Some pr'" "k \<noteq> k'"
  shows "rp_Directory (pr_Repo pr) \<noteq> rp_Directory (pr_Repo pr')"
  using assms unfolding checkouts_ok_def by blast

lemma checkouts_ok_disk:
  assumes ok: "checkouts_ok E m" and here: "\<And>k pr. pm_repos m k = Some pr \<Longrightarrow> present disk (rp_Directory (pr_Repo pr))"
  shows "checkouts_ok E (m\<lparr>pm_disk := disk\<rparr>)"
proof -
  have "placed E disk k pr" if "pm_repos m k = Some pr" for k pr
    using placed_disk checkouts_ok_entry[OF ok that] here[OF that] .
  then show ?thesis using ok unfolding checkouts_ok_def by simp
qed

lemma checkouts_ok_insert:
  assumes ok: "checkouts_ok E m" and new: "placed E disk k pr"
    and other: "\<And>k' q. k' \<noteq> k \<Longrightarrow> pm_repos m k' = Some q \<Longrightarrow>
      present disk (rp_Directory (pr_Repo q)) \<and> rp_Directory (pr_Repo q) \<noteq> rp_Directory (pr_Repo pr)"
  shows "checkouts_ok E (m\<lparr>pm_repos := (pm_repos m)(k \<mapsto> pr), pm_disk := disk\<rparr>)"
proof -
  let ?m = "(pm_repos m)(k \<mapsto> pr)"
  have one: "placed E disk k' q" if q: "?m k' = Some q" for k' q
  proof (cases "k' = k")
    case False
    then have "pm_repos m k' = Some q" using q by simp
    then show ?thesis using placed_disk[OF checkouts_ok_entry[OF ok]] other False by blast
  qed (use q new in simp)
  have two: "k1 = k2" if q: "?m k1 = Some q1" "?m k2 = Some q2" "rp_Directory (pr_Repo q1) = rp_Directory (pr_Repo q2)" for k1 k2 q1 q2
  proof (rule ccontr)
    assume n: "k1 \<noteq> k2"
    consider "k1 = k" "k2 \<noteq> k" | "k2 = k" "k1 \<noteq> k" | "k1 \<noteq> k" "k2 \<noteq> k" using n by blast
    then show False
    proof cases
      case 1
      then have "q1 = pr" "pm_repos m k2 = Some q2" using q by simp_all
      then show False using other[OF 1(2)] q(3) by metis
    next
      case 2
      then have "q2 = pr" "pm_repos m k1 = Some q1" using q by simp_all
      then show False using other[OF 2(2)] q(3) by metis
    next
      case 3
      then have "pm_repos m k1 = Some q1" "pm_repos m k2 = Some q2" using q by simp_all
      then show False using checkouts_ok_apart[OF ok _ _ n] q(3) by blast
    qed
  qed
  have "pm_repos (m\<lparr>pm_repos := ?m, pm_disk := disk\<rparr>) = ?m" "pm_disk (m\<lparr>pm_repos := ?m, pm_disk := disk\<rparr>) = disk" by simp_all
  then show ?thesis unfolding checkouts_ok_def using one two by metis
qed

lemma checkouts_ok_store:
  assumes ok: "checkouts_ok E m" and pr: "pm_repos m (cacheKey u) = Some pr" and d: "same_dirs (pm_disk m) disk" and p: "same_place pr pr'"
  shows "checkouts_ok E (store u pr' disk m)"
proof -
  have disk: "present disk d \<longleftrightarrow> present (pm_disk m) d" for d using d unfolding same_dirs_def dom_def present_def by blast
  note e = checkouts_ok_entry[OF ok pr]
  show ?thesis unfolding store_def
  proof (rule checkouts_ok_insert[OF ok])
    show "placed E disk (cacheKey u) pr'"
      using placed_same[OF placed_disk[OF e] p] placed_present[OF e] disk by blast
  next
    fix k q
    assume q: "k \<noteq> cacheKey u" "pm_repos m k = Some q"
    show "present disk (rp_Directory (pr_Repo q)) \<and> rp_Directory (pr_Repo q) \<noteq> rp_Directory (pr_Repo pr')"
      using placed_present[OF checkouts_ok_entry[OF ok q(2)]] checkouts_ok_apart[OF ok q(2) pr q(1)] disk p
      unfolding same_place_def by metis
  qed
qed

lemma GetOrCloneRepo_ok:
  assumes ok: "checkouts_ok E m" and fresh: "\<And>d. tmp = Inr d \<Longrightarrow> pm_disk m d = None"
    and run: "GetOrCloneRepo E tmp now u b m = (res, m')"
  shows "checkouts_ok E m' \<and> (\<forall>pr. res = Inr pr \<longrightarrow> pm_repos m' (cacheKey u) = Some pr)"
proof (cases "pm_repos m (cacheKey u)")
  case (Some pr)
  then show ?thesis using run ok by (auto simp: GetOrCloneRepo_def)
next
  case None
  obtain e r disk where c: "repo_Clone (me_api E) (me_creds E) tmp (git_New u b) (pm_disk m) = (e, r, disk)"
    using prod_cases3 by blast
  note cd = repo_Clone_dirs[OF c]
  have here: "disk d = pm_disk m d" if "present (pm_disk m) d" for d
  proof -
    have "tmp \<noteq> Inr d" using fresh[of d] that by (auto simp: present_def)
    then show ?thesis using cd by simp
  qed
  show ?thesis
  proof (cases e)
    case e: (Some err)
    then have "m' = m\<lparr>pm_disk := disk\<rparr>" "\<nexists>pr. res = Inr pr" using run None c by (auto simp: GetOrCloneRepo_def)
    moreover have "present disk (rp_Directory (pr_Repo pr))" if "pm_repos m k = Some pr" for k pr
      using placed_present[OF checkouts_ok_entry[OF ok that]] here unfolding present_def by metis
    ultimately show ?thesis using checkouts_ok_disk[OF ok] by simp
  next
    case e: None
    let ?t = "rp_Directory r" and ?d = "repoDir E u"
    have t: "pm_disk m ?t = None" "disk ?t \<noteq> None" "rp_CloneURL r = u" using cd e fresh by auto
    obtain e2 disk2 where mv: "os_Rename E ?t ?d disk = (e2, disk2)" by fastforce
    show ?thesis
    proof (cases e2)
      case e2: (Some err)
      then have "disk2 = disk" using mv by (auto simp: os_Rename_def split: if_splits option.splits)
      then have "m' = m\<lparr>pm_disk := disk(?t := None)\<rparr>" "\<nexists>pr. res = Inr pr" using run None c e mv e2 by (auto simp: GetOrCloneRepo_def Let_def)
      moreover have "present (disk(?t := None)) (rp_Directory (pr_Repo pr))" if "pm_repos m k = Some pr" for k pr
      proof -
        have p: "present (pm_disk m) (rp_Directory (pr_Repo pr))" using placed_present[OF checkouts_ok_entry[OF ok that]] .
        then have "rp_Directory (pr_Repo pr) \<noteq> ?t" using t(1) by (metis present_def)
        then show ?thesis using p here[OF p] unfolding present_def by simp
      qed
      ultimately show ?thesis using checkouts_ok_disk[OF ok] by simp
    next
      case e2: None
      define pr where "pr = \<lparr>pr_Repo = r\<lparr>rp_Directory := ?d\<rparr>, pr_lastUsed = now, pr_refCount = 0, pr_baseBranch = b\<rparr>"
      have mv': "disk ?d = None" "disk2 = disk(?d := disk ?t, ?t := None)"
        using mv e2 by (auto simp: os_Rename_def split: if_splits option.splits)
      have m': "m' = m\<lparr>pm_repos := (pm_repos m)(cacheKey u \<mapsto> pr), pm_disk := disk2\<rparr>" "res = Inr pr"
        using run None c e mv e2 by (auto simp: GetOrCloneRepo_def Let_def pr_def)
      have old: "present disk2 (rp_Directory (pr_Repo q)) \<and> rp_Directory (pr_Repo q) \<noteq> ?d" if "pm_repos m k = Some q" for k q
      proof -
        have p: "present (pm_disk m) (rp_Directory (pr_Repo q))" using placed_present[OF checkouts_ok_entry[OF ok that]] .
        then have "rp_Directory (pr_Repo q) \<noteq> ?t" "rp_Directory (pr_Repo q) \<noteq> ?d" using t(1) mv'(1) here[OF p] by (metis present_def)+
        then show ?thesis using p here[OF p] unfolding present_def mv'(2) by simp
      qed
      have td: "?t \<noteq> ?d" using mv'(1) t(2) by metis
      have new: "placed E disk2 (cacheKey u) pr"
        using t td unfolding mv'(2) by (simp add: pr_def present_def placed_def)
      have at: "rp_Directory (pr_Repo pr) = ?d" by (simp add: pr_def)
      have "checkouts_ok E m'" unfolding m' by (rule checkouts_ok_insert[OF ok new]) (use old at in simp)
      then show ?thesis using m' by simp
    qed
  qed
qed

lemma persistent_Clone_ok:
  assumes ok: "checkouts_ok E m" and fresh: "\<And>d. tmp = Inr d \<Longrightarrow> pm_disk m d = None"
  shows "checkouts_ok E (snd (persistent_Clone E tmp now u b m))"
proof -
  obtain res m1 where g: "GetOrCloneRepo E tmp (int now) u b m = (res, m1)" by fastforce
  note ok1 = GetOrCloneRepo_ok[OF ok fresh g]
  show ?thesis
  proof (cases res)
    case (Inl err)
    then show ?thesis using ok1 by (simp add: persistent_Clone_def g)
  next
    case res: (Inr pr)
    have pr: "pm_repos m1 (cacheKey u) = Some pr" using ok1 res by blast
    obtain e pr' disk where up: "UpdateBaseBranch E (int now) b pr (pm_disk m1) = (e, pr', disk)" using prod_cases3 by blast
    note kept = UpdateBaseBranch_keeps[OF up]
    show ?thesis
    proof (cases e)
      case (Some err)
      then show ?thesis using checkouts_ok_store[OF conjunct1[OF ok1] pr] kept by (simp add: persistent_Clone_def g res up)
    next
      case None
      define sha where "sha = (case GetCurrentCommitSHA (me_api E) disk (pr_Repo pr') of Inl err \<Rightarrow> ''00000000'' | Inr sha \<Rightarrow> sha)"
      obtain r2 disk2 where c: "CreateTempBranch (me_api E) (itoa now) sha (pr_Repo pr') disk = (r2, disk2)" by fastforce
      have "snd (persistent_Clone E tmp now u b m) = store u pr' disk2 m1"
        using c by (cases r2) (simp_all add: persistent_Clone_def g res up None sha_def Let_def)
      moreover have "same_dirs (pm_disk m1) disk2"
        using same_dirs_trans kept CreateTempBranch_dirs[of disk "me_api E" "itoa now" sha "pr_Repo pr'"] c by (metis snd_conv)
      ultimately show ?thesis using checkouts_ok_store[OF conjunct1[OF ok1] pr] kept by simp
    qed
  qed
qed

lemma ReleaseRepo_ok: "checkouts_ok E m \<Longrightarrow> checkouts_ok E (ReleaseRepo now u m)"
proof -
  assume ok: "checkouts_ok E m"
  show ?thesis
  proof (cases "pm_repos m (cacheKey u)")
    case (Some pr)
    let ?pr = "pr\<lparr>pr_refCount := pr_refCount pr - 1, pr_lastUsed := now\<rparr>"
    have "same_place pr ?pr" by (simp add: same_place_def)
    then have "checkouts_ok E (store u ?pr (pm_disk m) m)" by (rule checkouts_ok_store[OF ok Some same_dirs_refl])
    moreover have "ReleaseRepo now u m = store u ?pr (pm_disk m) m" by (simp add: ReleaseRepo_def Some store_def)
    ultimately show ?thesis by simp
  qed (simp add: ReleaseRepo_def ok)
qed

lemma CleanupTempBranchForRepo_ok: "checkouts_ok E m \<Longrightarrow> checkouts_ok E (CleanupTempBranchForRepo E now r m)"
proof -
  assume ok: "checkouts_ok E m"
  show ?thesis
  proof (cases "rp_TempBranch r = [] \<or> pm_repos m (cacheKey (rp_CloneURL r)) = None")
    case True
    then show ?thesis using ok by (auto simp: CleanupTempBranchForRepo_def)
  next
    case False
    then obtain pr where pr: "pm_repos m (cacheKey (rp_CloneURL r)) = Some pr" and t: "rp_TempBranch r \<noteq> []" by blast
    let ?pr = "pr\<lparr>pr_refCount := pr_refCount pr - 1, pr_lastUsed := now\<rparr>"
    have "same_place pr ?pr" by (simp add: same_place_def)
    then show ?thesis using checkouts_ok_store[OF ok pr CleanupTempBranch_dirs] t
      by (simp add: CleanupTempBranchForRepo_def pr Let_def)
  qed
qed

lemma removeStale_ok: "checkouts_ok E m \<Longrightarrow> checkouts_ok E (removeStale E now key m)"
proof -
  assume ok: "checkouts_ok E m"
  show ?thesis
  proof (cases "\<exists>pr. pm_repos m key = Some pr \<and> \<not> sint (pr_refCount pr) > 0 \<and> now - pr_lastUsed pr > me_TTL E")
    case False
    then have "removeStale E now key m = m" by (auto simp: removeStale_def split: option.split)
    then show ?thesis using ok by simp
  next
    case True
    then obtain pr where pr: "pm_repos m key = Some pr"
      and go: "\<not> sint (pr_refCount pr) > 0" "now - pr_lastUsed pr > me_TTL E" by blast
    let ?disk = "repo_Wipe (pr_Repo pr) (pm_disk m)"
    define m1 where "m1 = m\<lparr>pm_repos := (pm_repos m)(key := None)\<rparr>"
    have ok1: "checkouts_ok E m1" using ok unfolding m1_def checkouts_ok_def by (auto split: if_splits)
    have "present ?disk (rp_Directory (pr_Repo q))" if "pm_repos m1 k = Some q" for k q
    proof -
      have q: "pm_repos m k = Some q" "k \<noteq> key" using that unfolding m1_def by (auto split: if_splits)
      show ?thesis using checkouts_ok_apart[OF ok q(1) pr q(2)] placed_present[OF checkouts_ok_entry[OF ok q(1)]]
        by (simp add: present_def repo_Wipe_def)
    qed
    then have "checkouts_ok E (m1\<lparr>pm_disk := ?disk\<rparr>)" by (rule checkouts_ok_disk[OF ok1])
    moreover have "removeStale E now key m = m1\<lparr>pm_disk := ?disk\<rparr>" using pr go by (simp add: removeStale_def m1_def)
    ultimately show ?thesis by simp
  qed
qed

lemma cleanupStaleRepos_ok: "checkouts_ok E m \<Longrightarrow> checkouts_ok E (cleanupStaleRepos E now keys m)"
  unfolding cleanupStaleRepos_def by (induction keys arbitrary: m) (auto intro: removeStale_ok)

text \<open>The states of a manager, over all the restarts of the program on the same volume.  A temporary
  directory is one that did not exist.\<close>

inductive managed :: "'g manager_env \<Rightarrow> 'g manager \<Rightarrow> bool" for E where
  started: "managed E (NewPersistentRepoManager disk)"
| cloned: "managed E m \<Longrightarrow> (\<And>d. tmp = Inr d \<Longrightarrow> pm_disk m d = None) \<Longrightarrow> managed E (snd (persistent_Clone E tmp now u b m))"
| released: "managed E m \<Longrightarrow> managed E (ReleaseRepo now u m)"
| cleaned: "managed E m \<Longrightarrow> managed E (CleanupTempBranchForRepo E now r m)"
| swept: "managed E m \<Longrightarrow> managed E (cleanupStaleRepos E now keys m)"
| restarted: "managed E m \<Longrightarrow> managed E (NewPersistentRepoManager (pm_disk m))"

lemma NewPersistentRepoManager_ok: "checkouts_ok E (NewPersistentRepoManager disk)"
  by (simp add: NewPersistentRepoManager_def checkouts_ok_def)

lemma managed_ok: "managed E m \<Longrightarrow> checkouts_ok E m"
proof (induction rule: managed.induct)
  case (cloned m tmp now u b)
  then show ?case by (intro persistent_Clone_ok)
qed (auto intro: NewPersistentRepoManager_ok ReleaseRepo_ok CleanupTempBranchForRepo_ok cleanupStaleRepos_ok)


section \<open>What a clone hands out\<close>

text \<open>What go-git documents: a hard reset and a checkout move only the local branches and \<open>HEAD\<close>, setting a
  reference sets that one, and checking out a branch needs the branch to exist and leaves \<open>HEAD\<close> on it.\<close>

definition git_laws :: "'g git_api \<Rightarrow> bool" where
  "git_laws A \<longleftrightarrow>
    (\<forall>h g g' b. ga_Reset A h g = Inr g' \<longrightarrow>
      ga_Reference A (refOrigin @ b) g' = ga_Reference A (refOrigin @ b) g \<and> (\<exists>name. ga_Head A g' = Inr (name, h))) \<and>
    (\<forall>t h g g' b. ga_SetHash A (refHeads @ t) h g = Inr g' \<longrightarrow>
      ga_Reference A (refOrigin @ b) g' = ga_Reference A (refOrigin @ b) g \<and> ga_Reference A (refHeads @ t) g' = Inr (refHeads @ t, h)) \<and>
    (\<forall>t g g' b. ga_CheckoutBranch A (refHeads @ t) g = Inr g' \<longrightarrow>
      ga_Reference A (refOrigin @ b) g' = ga_Reference A (refOrigin @ b) g \<and>
      (\<exists>h. ga_Reference A (refHeads @ t) g = Inr (refHeads @ t, h) \<and> ga_Head A g' = Inr (refHeads @ t, h)))"

lemma git_laws_reset:
  assumes "git_laws A" "ga_Reset A h g = Inr g'"
  shows "ga_Reference A (refOrigin @ b) g' = ga_Reference A (refOrigin @ b) g \<and> (\<exists>name. ga_Head A g' = Inr (name, h))"
  using assms unfolding git_laws_def by blast

lemma git_laws_set:
  assumes "git_laws A" "ga_SetHash A (refHeads @ t) h g = Inr g'"
  shows "ga_Reference A (refOrigin @ b) g' = ga_Reference A (refOrigin @ b) g \<and> ga_Reference A (refHeads @ t) g' = Inr (refHeads @ t, h)"
  using assms unfolding git_laws_def by blast

lemma git_laws_checkout:
  assumes "git_laws A" "ga_CheckoutBranch A (refHeads @ t) g = Inr g'"
  shows "ga_Reference A (refOrigin @ b) g' = ga_Reference A (refOrigin @ b) g \<and>
    (\<exists>h. ga_Reference A (refHeads @ t) g = Inr (refHeads @ t, h) \<and> ga_Head A g' = Inr (refHeads @ t, h))"
  using assms unfolding git_laws_def by blast

lemma repo_Update_latest:
  assumes laws: "git_laws A" and up: "repo_Update A cfg r disk = (None, disk')"
  shows "\<exists>g name x h. disk' (rp_Directory r) = Some g \<and> ga_Reference A (refOrigin @ rp_BranchName r) g = Inr (x, h) \<and>
    ga_Head A g = Inr (name, h)"
proof -
  obtain g g' x h where "ga_Reference A (refOrigin @ rp_BranchName r) g = Inr (x, h)" "ga_Reset A h g = Inr g'"
    "disk' = disk(rp_Directory r \<mapsto> g')"
    using up unfolding repo_Update_def by (auto simp: Let_def split: sum.splits option.splits prod.splits fetch_outcome.splits)
  then show ?thesis using git_laws_reset[OF laws] by (metis fun_upd_same)
qed

lemma CreateTempBranch_head:
  assumes laws: "git_laws A" and run: "CreateTempBranch A i c r disk = (Inr t, disk')"
    and g: "disk (rp_Directory r) = Some g" "ga_Reference A (refOrigin @ b) g = Inr (x, h)" "ga_Head A g = Inr (name, h)"
  shows "\<exists>g'. t = tempBranchName i c \<and> disk' (rp_Directory r) = Some g' \<and> ga_Reference A (refOrigin @ b) g' = Inr (x, h) \<and>
    ga_Head A g' = Inr (refHeads @ t, h)"
proof -
  have o: "plainOpen disk r = Inr g" using g(1) by (simp add: plainOpen_def)
  note run' = run[unfolded CreateTempBranch_def Let_def o g(3) sum.case prod.case]
  obtain g1 where s1: "ga_SetHash A (refHeads @ tempBranchName i c) h g = Inr g1"
    using run' by (cases "ga_SetHash A (refHeads @ tempBranchName i c) h g") simp_all
  have w: "ga_Worktree A g1 = None" using run' by (cases "ga_Worktree A g1") (simp_all add: s1)
  obtain g2 where s2: "ga_CheckoutBranch A (refHeads @ tempBranchName i c) g1 = Inr g2"
    using run' by (cases "ga_CheckoutBranch A (refHeads @ tempBranchName i c) g1") (simp_all add: s1 w)
  have s: "t = tempBranchName i c" "disk' (rp_Directory r) = Some g2" using run' by (auto simp: s1 w s2)
  have "ga_Reference A (refOrigin @ b) g2 = Inr (x, h)"
    using conjunct1[OF git_laws_set[OF laws s1, of b]] conjunct1[OF git_laws_checkout[OF laws s2, of b]] g(2) by simp
  moreover have "ga_Head A g2 = Inr (refHeads @ t, h)"
    using conjunct2[OF git_laws_set[OF laws s1, of b]] conjunct2[OF git_laws_checkout[OF laws s2, of b]] s(1) by auto
  ultimately show ?thesis using s by blast
qed

text \<open>A clone that the persistent manager hands out is the latest base branch on a branch of its own: the
  directory holds a repository whose HEAD is the new temporary branch, at the very commit that
  origin has for the branch that was asked for; the name of the temporary branch is made of the time and that commit.\<close>

theorem clone_hands_out_latest_base:
  assumes laws: "git_laws (me_api E)" and run: "persistent_Clone E tmp now u branchName m = (Inr r, m')"
  shows "\<exists>g x h. pm_disk m' (rp_Directory r) = Some g \<and> ga_Reference (me_api E) (refOrigin @ rp_BranchName r) g = Inr (x, h) \<and>
    ga_Head (me_api E) g = Inr (refHeads @ rp_TempBranch r, h) \<and> rp_TempBranch r = tempBranchName (itoa now) h \<and>
    (branchName = [] \<or> rp_BranchName r = branchName) \<and> rp_BaseBranchName r = branchName"
proof -
  let ?A = "me_api E"
  obtain pr m1 where g: "GetOrCloneRepo E tmp (int now) u branchName m = (Inr pr, m1)"
    using run by (auto simp: persistent_Clone_def split: prod.splits sum.splits)
  obtain pr' disk where up: "UpdateBaseBranch E (int now) branchName pr (pm_disk m1) = (None, pr', disk)"
    using run by (auto simp: persistent_Clone_def g split: prod.splits option.splits)
  define sha where "sha = (case GetCurrentCommitSHA ?A disk (pr_Repo pr') of Inl err \<Rightarrow> ''00000000'' | Inr sha \<Rightarrow> sha)"
  obtain t disk2 where c: "CreateTempBranch ?A (itoa now) sha (pr_Repo pr') disk = (Inr t, disk2)"
    and r: "r = (pr_Repo pr')\<lparr>rp_TempBranch := t, rp_BaseBranchName := branchName\<rparr>" and m': "m' = store u pr' disk2 m1"
    using run unfolding sha_def by (auto simp: persistent_Clone_def g up Let_def split: prod.splits sum.splits)
  obtain pr1 disk1 where sw: "switchBranch E branchName pr (pm_disk m1) = (None, pr1, disk1)"
    and u: "repo_Update ?A (me_creds E) (pr_Repo pr1) disk1 = (None, disk)" "pr_Repo pr' = pr_Repo pr1"
    using up by (auto simp: UpdateBaseBranch_def split: prod.splits option.splits)
  have b: "branchName = [] \<or> rp_BranchName (pr_Repo pr') = branchName"
    using sw u(2) by (auto simp: switchBranch_def split: if_splits prod.splits option.splits)
  obtain g0 name x h where g0: "disk (rp_Directory (pr_Repo pr')) = Some g0" "ga_Reference ?A (refOrigin @ rp_BranchName (pr_Repo pr')) g0 = Inr (x, h)"
      "ga_Head ?A g0 = Inr (name, h)"
    using repo_Update_latest[OF laws u(1)] u(2) by auto
  have sha: "sha = h" using g0 by (simp add: sha_def GetCurrentCommitSHA_def plainOpen_def)
  obtain g' where g': "t = tempBranchName (itoa now) sha" "disk2 (rp_Directory (pr_Repo pr')) = Some g'"
      "ga_Reference ?A (refOrigin @ rp_BranchName (pr_Repo pr')) g' = Inr (x, h)" "ga_Head ?A g' = Inr (refHeads @ t, h)"
    using CreateTempBranch_head[OF laws c g0] by blast
  have "pm_disk m' (rp_Directory r) = Some g'" using g'(2) by (simp add: r m' store_def)
  then show ?thesis using g'(1,3,4) b unfolding sha by (simp add: r)
qed

section \<open>A small Git\<close>

text \<open>References as a list, and the branch that is checked out.\<close>

record small_git =
  dg_refs :: "(string \<times> string) list"
  dg_HEAD :: string

definition demo_lookup :: "string \<Rightarrow> small_git \<Rightarrow> string + (string \<times> string)" where
  "demo_lookup name g =
    (case map_of (dg_refs g) name of None \<Rightarrow> Inl ''reference not found'' | Some h \<Rightarrow> Inr (name, h))"

definition git_demo_api :: "small_git git_api" where
  "git_demo_api =
    \<lparr>ga_PlainClone = \<lambda>url auth name.
       let b = (if name = [] then ''main'' else trim_prefix name refHeads);
           remote = [(''main'', ''m1''), (''release'', ''r1'')]
       in (case map_of remote b of
             None \<Rightarrow> Inl \<lparr>ge_isRefNotFound = True, ge_text = ''reference not found''\<rparr>
           | Some h \<Rightarrow> Inr \<lparr>dg_refs = (refHeads @ b, h) # map (\<lambda>(n, h). (refOrigin @ n, h)) remote, dg_HEAD = refHeads @ b\<rparr>),
     ga_Remote = \<lambda>_. None,
     ga_List = \<lambda>_ _. Inr [(''HEAD'', ''main'')],
     ga_SetSymbolic = \<lambda>name target g. Inr g,
     ga_SetHash = \<lambda>name h g. Inr (g\<lparr>dg_refs := (name, h) # dg_refs g\<rparr>),
     ga_RemoveReference = \<lambda>name g. Inr (g\<lparr>dg_refs := filter (\<lambda>p. fst p \<noteq> name) (dg_refs g)\<rparr>),
     ga_Reference = demo_lookup,
     ga_Head = \<lambda>g. demo_lookup (dg_HEAD g) g,
     ga_Worktree = \<lambda>_. None,
     ga_CheckoutBranch = \<lambda>name g.
       (case demo_lookup name g of Inl err \<Rightarrow> Inl err | Inr _ \<Rightarrow> Inr (g\<lparr>dg_HEAD := name\<rparr>)),
     ga_CheckoutHash = \<lambda>h g. Inl ''object not found'',
     ga_Fetch = \<lambda>_ _ g. Inl AlreadyUpToDate,
     ga_Reset = \<lambda>h g.
       (if has_prefix (dg_HEAD g) refHeads then Inr (g\<lparr>dg_refs := (dg_HEAD g, h) # dg_refs g\<rparr>) else Inl ''detached''),
     ga_CommitObject = \<lambda>_ _. None,
     ga_Tree = \<lambda>h _. Inr h,
     ga_Diff = \<lambda>_ _. Inr []\<rparr>"

definition git_demo_env :: "small_git manager_env" where
  "git_demo_env =
    \<lparr>me_api = git_demo_api, me_creds = \<lparr>gk_GitCreds = None, gk_VcsToken = [], gk_userOfUrl = \<lambda>_. None\<rparr>,
     me_persistentDir = ''/repos'', me_TTL = 60, me_sha256 = \<lambda>s. map (\<lambda>c. if c = CHR ''/'' then CHR ''-'' else c) s,
     me_rename = \<lambda>_ _. None\<rparr>"

lemma heads_not_origin: "has_prefix n refHeads \<Longrightarrow> refOrigin @ b \<noteq> n"
  by (auto simp: has_prefix_iff refHeads_def refOrigin_def)

lemma demo_laws: "git_laws (me_api git_demo_env)"
proof -
  have h: "refOrigin @ b \<noteq> refHeads @ t" for b t by (rule heads_not_origin) (simp add: has_prefix_iff)
  show ?thesis unfolding git_laws_def git_demo_env_def git_demo_api_def
    using h heads_not_origin by (auto simp: demo_lookup_def split: option.splits if_splits)
qed

definition demo_first :: "small_git manager" where
  "demo_first = snd (persistent_Clone git_demo_env (Inr ''/tmp/a'') 5 ''http://h/o/r.git'' ''main'' (NewPersistentRepoManager (\<lambda>_. None)))"

definition demo_second :: "small_git manager" where
  "demo_second = snd (persistent_Clone git_demo_env (Inr ''/tmp/b'') 6 ''http://h/o/q'' ''main'' demo_first)"

lemma demo_managed: "managed git_demo_env demo_second"
proof -
  have "managed git_demo_env demo_first" unfolding demo_first_def
    by (rule managed.cloned[OF managed.started]) (simp add: NewPersistentRepoManager_def)
  moreover have "pm_disk demo_first ''/tmp/b'' = None" by code_simp
  ultimately show ?thesis unfolding demo_second_def by (intro managed.cloned) simp_all
qed


definition demo_repo :: repo where
  "demo_repo = \<lparr>rp_BranchName = ''main'', rp_CloneURL = ''http://h/o/r.git'', rp_Directory = ''/repos/http:--h-o-r.git'',
    rp_TempBranch = ''temp-pr-5-m1'', rp_BaseBranchName = ''main''\<rparr>"

lemma demo_first_run:
  "persistent_Clone git_demo_env (Inr ''/tmp/a'') 5 ''http://h/o/r.git'' ''main'' (NewPersistentRepoManager (\<lambda>_. None)) = (Inr demo_repo, demo_first)"
proof -
  have "fst (persistent_Clone git_demo_env (Inr ''/tmp/a'') 5 ''http://h/o/r.git'' ''main'' (NewPersistentRepoManager (\<lambda>_. None))) = Inr demo_repo"
    by code_simp
  then show ?thesis unfolding demo_first_def by (rule prod_eqI[OF trans]) simp_all
qed

theorem clone_hands_out_latest_base_witness:
  "\<exists>g x h. pm_disk demo_first (rp_Directory demo_repo) = Some g \<and> ga_Reference (me_api git_demo_env) (refOrigin @ ''main'') g = Inr (x, h) \<and>
    ga_Head (me_api git_demo_env) g = Inr (refHeads @ ''temp-pr-5-m1'', h)"
proof -
  have r: "rp_BranchName demo_repo = ''main''" "rp_TempBranch demo_repo = ''temp-pr-5-m1''" by (simp_all add: demo_repo_def)
  show ?thesis using clone_hands_out_latest_base[OF demo_laws demo_first_run] unfolding r by (elim exE conjE) (intro exI conjI)
qed

section \<open>Limits of the two managers\<close>

text \<open>After a restart the directory of a repository is still there, so no clone can be moved to it: every check
  of that repository fails.\<close>

lemma restart_blocks_clones:
  assumes there: "disk (repoDir E u) \<noteq> None" and tmp: "tmp \<noteq> Inr (repoDir E u)"
  shows "\<exists>err m. persistent_Clone E tmp now u b (NewPersistentRepoManager disk) = (Inl err, m) \<and>
    pm_disk m (repoDir E u) = disk (repoDir E u) \<and> pm_repos m = (\<lambda>_. None)"
proof -
  obtain e r d2 where c: "repo_Clone (me_api E) (me_creds E) tmp (git_New u b) disk = (e, r, d2)" using prod_cases3 by blast
  note cd = repo_Clone_dirs[OF c]
  have d2: "d2 (repoDir E u) = disk (repoDir E u)" using cd tmp by blast
  show ?thesis
  proof (cases e)
    case (Some err)
    then show ?thesis using d2 by (simp add: persistent_Clone_def GetOrCloneRepo_def NewPersistentRepoManager_def c)
  next
    case None
    then have "rp_Directory r \<noteq> repoDir E u" using cd tmp by metis
    then show ?thesis using d2 there None by (simp add: persistent_Clone_def GetOrCloneRepo_def NewPersistentRepoManager_def c os_Rename_def Let_def)
  qed
qed

text \<open>A cached repository serves the branch it was cloned with: a checkout of another one needs a local
  branch, which nothing creates.\<close>

lemma other_branch_fails:
  assumes "pm_repos m (cacheKey u) = Some pr" "b \<noteq> []" "rp_BranchName (pr_Repo pr) \<noteq> b"
    and "pm_disk m (rp_Directory (pr_Repo pr)) = Some g" "ga_CheckoutBranch (me_api E) (refHeads @ b) g = Inl err"
  shows "\<exists>err. fst (persistent_Clone E tmp now u b m) = Inl err"
  using assms by (cases "ga_Worktree (me_api E) g")
    (simp_all add: persistent_Clone_def GetOrCloneRepo_def UpdateBaseBranch_def switchBranch_def repo_Checkout_def plainOpen_def)

lemma demo_other_branch: "fst (persistent_Clone git_demo_env (Inr ''/tmp/b'') 6 ''http://h/o/r.git'' ''release'' demo_first) =
    Inl (''failed to update base branch: failed to checkout branch release: failed to checkout branch release: reference not found'')"
  by code_simp

text \<open>A clone takes no reference, so the guard of the sweep never holds a checkout that is in use.\<close>

lemma sweep_ignores_use:
  assumes "pm_repos m k = Some pr" "pr_refCount pr = 0" "now - pr_lastUsed pr > me_TTL E"
  shows "pm_disk (removeStale E now k m) (rp_Directory (pr_Repo pr)) = None"
  using assms by (simp add: removeStale_def repo_Wipe_def)

lemma demo_in_use: "pm_disk (cleanupStaleRepos git_demo_env 100 [''http://h/o/r''] demo_first) (rp_Directory demo_repo) = None"
  by code_simp

text \<open>The ephemeral manager wipes whatever it has ever handed out, also the checkouts of other checks that
  still run, and keeps them all in its list.\<close>

lemma Wipe_gone: "disk d = None \<Longrightarrow> fold repo_Wipe rs disk d = None"
  by (induction rs arbitrary: disk) (simp_all add: repo_Wipe_def)

lemma cleanup_wipes_all:
  assumes "r \<in> set (em_repos m)"
  shows "em_disk (ephemeral_Cleanup m) (rp_Directory r) = None \<and> em_repos (ephemeral_Cleanup m) = em_repos m"
proof -
  obtain xs ys where "em_repos m = xs @ r # ys" using split_list[OF assms] by blast
  then show ?thesis by (simp add: ephemeral_Cleanup_def Wipe_gone repo_Wipe_def)
qed

lemma handed_out_is_listed:
  "ephemeral_Clone E tmp u b m = (Inr r, m') \<Longrightarrow> em_repos m' = em_repos m @ [r]"
  by (auto simp: ephemeral_Clone_def split: prod.splits option.splits)

end
