(* ===== verification/Locations.thy ===== *)
theory Locations
  imports GitManager RepoUrl
begin

text \<open>
  \<open>cmd/locations.go\<close>: the directories of policies and schemas that the configuration names; the ones that
  are Git URLs are cloned when the program starts and refreshed from then on.  The manager that clones
  is an argument, a function on its own state.
\<close>

definition fragmentMark :: "string" where
  "fragmentMark = ''.git#''"

text \<open>The pattern \<open>\.git(?:#.+)?$\<close>: at the end, or before a fragment of at least one character that has no newline.\<close>

definition fragmentSuffix :: "string \<Rightarrow> bool" where
  "fragmentSuffix s =
    (has_suffix s ''.git'' \<or>
     list_ex (\<lambda>i. has_prefix (drop i s) fragmentMark \<and> drop (i + 5) s \<noteq> [] \<and> CHR 0x0A \<notin> set (drop (i + 5) s)) [0..<length s])"

text \<open>The scheme that \<open>net/url\<close> reads, if the text parses.\<close>

definition isValidURL :: "(string \<Rightarrow> string option) \<Rightarrow> string \<Rightarrow> bool" where
  "isValidURL scheme s = (case scheme s of None \<Rightarrow> False | Some x \<Rightarrow> x = ''http'' \<or> x = ''https'')"

definition isGitURL :: "(string \<Rightarrow> string option) \<Rightarrow> string \<Rightarrow> bool" where
  "isGitURL scheme url =
    (let s = to_lower url in
     isValidURL scheme s \<and> fragmentSuffix s \<or>
     list_ex (has_prefix s) [''git://'', ''github.com/'', ''gitlab.com/'', ''git@''])"

definition query_Get :: "(string \<times> string) list \<Rightarrow> string \<Rightarrow> string" where
  "query_Get query key = (case map_of query key of None \<Rightarrow> [] | Some v \<Rightarrow> v)"

record 's cloner =
  cl_parsers :: url_parsers
  cl_scheme :: "string \<Rightarrow> string option"
  cl_Clone :: "string \<Rightarrow> string \<Rightarrow> 's \<Rightarrow> (string + repo) \<times> 's"
  cl_username :: string
  cl_refresh :: int

text \<open>A refresher is the repository it looks at, with what it was asked to clone.\<close>

record refresher =
  rf_repo :: repo
  rf_cloneUrl :: string
  rf_branch :: string

definition cloneLocation :: "'s cloner \<Rightarrow> string \<Rightarrow> 's \<Rightarrow> (string + string) \<times> refresher option \<times> 's" where
  "cloneLocation C location st =
    (case NormalizeRepoUrl (cl_parsers C) location of
       Inl err \<Rightarrow> (Inl (wrapError (''invalid git url: '' @ go_quote location) err), None, st)
     | Inr (repoUrl, query) \<Rightarrow>
         let cloneUrl = CloneURL repoUrl (cl_username C); branch = query_Get query ''branch'' in
         (case cl_Clone C cloneUrl branch st of
            (Inl err, st) \<Rightarrow> (Inl (wrapError ''failed to clone'' err), None, st)
          | (Inr r, st) \<Rightarrow>
              let refreshing = (if cl_refresh C \<noteq> 0 then Some \<lparr>rf_repo = r, rf_cloneUrl = cloneUrl, rf_branch = branch\<rparr> else None);
                  subdir = query_Get query ''subdir'';
                  path = (if subdir \<noteq> [] then path_join [rp_Directory r, subdir] else rp_Directory r)
              in (Inr path, refreshing, st)))"

definition maybeCloneGitUrl ::
  "'s cloner \<Rightarrow> string \<Rightarrow> 's \<Rightarrow> (string + string) \<times> refresher option \<times> 's" where
  "maybeCloneGitUrl C location st =
    (let (path, rest) = (case str_cut location ''?'' of None \<Rightarrow> (location, None) | Some (a, b) \<Rightarrow> (a, Some b)) in
     if \<not> isGitURL (cl_scheme C) path then
       (case rest of
          Some _ \<Rightarrow> (Inl ''relative and absolute file paths cannot have query parameters'', None, st)
        | None \<Rightarrow> (Inr path, None, st))
     else cloneLocation C location st)"

text \<open>The list is changed in place: what stands after a failure is the third component, and the error
  names the location as it was written.\<close>

fun processFrom :: "'s cloner \<Rightarrow> string list \<Rightarrow> 's \<Rightarrow> string option \<times> refresher list \<times> string list \<times> 's" where
  "processFrom C [] st = (None, [], [], st)"
| "processFrom C (location # rest) st =
    (case maybeCloneGitUrl C location st of
       (Inl err, _, st) \<Rightarrow> (Some (wrapError (''failed to clone '' @ go_quote location) err), [], location # rest, st)
     | (Inr newLocation, refreshing, st) \<Rightarrow>
         let (err, more, done', st) = processFrom C rest st in
         (err, (case refreshing of None \<Rightarrow> more | Some f \<Rightarrow> f # more),
          (if newLocation \<noteq> [] then newLocation else location) # done', st))"

definition processLocations :: "'s cloner \<Rightarrow> string list \<Rightarrow> 's \<Rightarrow> string option \<times> refresher list \<times> string list \<times> 's" where
  "processLocations C locations st = processFrom C locations st"

text \<open>One tick of a refresher, on a persistent or ephemeral state that holds a disk: \<open>update\<close> is
  \<open>Repo.Update\<close>, \<open>stat\<close> whether the directory is there.\<close>

definition refreshTick ::
  "'s cloner \<Rightarrow> (repo \<Rightarrow> 's \<Rightarrow> bool) \<Rightarrow> (repo \<Rightarrow> 's \<Rightarrow> 's) \<Rightarrow> refresher \<Rightarrow> 's \<Rightarrow> refresher \<times> 's" where
  "refreshTick C stat update f st =
    (if \<not> stat (rf_repo f) st then
       (case cl_Clone C (rf_cloneUrl f) (rf_branch f) st of
          (Inl err, st) \<Rightarrow> (f, st)
        | (Inr newRepo, st) \<Rightarrow> (f\<lparr>rf_repo := newRepo\<rparr>, st))
     else (f, update (rf_repo f) st))"

section \<open>The two managers as cloners\<close>

text \<open>A supply of temporary directories and the clock are threaded through the state.\<close>

definition ephemeral_cloner ::
  "'g manager_env \<Rightarrow> url_parsers \<Rightarrow> (string \<Rightarrow> string option) \<Rightarrow> string \<Rightarrow> int \<Rightarrow> (string list \<times> 'g ephemeral) cloner" where
  "ephemeral_cloner E ps scheme user refresh =
    \<lparr>cl_parsers = ps, cl_scheme = scheme,
     cl_Clone = \<lambda>url branch (tmps, m).
       (case tmps of
          [] \<Rightarrow> (let (res, m) = ephemeral_Clone E (Inl ''no space left on device'') url branch m in (res, [], m))
        | t # ts \<Rightarrow> (let (res, m) = ephemeral_Clone E (Inr t) url branch m in (res, ts, m))),
     cl_username = user, cl_refresh = refresh\<rparr>"

definition there :: "repo \<Rightarrow> string list \<times> 'g ephemeral \<Rightarrow> bool" where
  "there r st \<longleftrightarrow> em_disk (snd st) (rp_Directory r) \<noteq> None"

definition ephemeral_update :: "'g manager_env \<Rightarrow> repo \<Rightarrow> string list \<times> 'g ephemeral \<Rightarrow> string list \<times> 'g ephemeral" where
  "ephemeral_update E r st =
    (fst st, (snd st)\<lparr>em_disk := snd (repo_Update (me_api E) (me_creds E) r (em_disk (snd st)))\<rparr>)"

section \<open>What becomes of the locations\<close>

definition names_git :: "'s cloner \<Rightarrow> string \<Rightarrow> bool" where
  "names_git C l = isGitURL (cl_scheme C) (case str_cut l ''?'' of None \<Rightarrow> l | Some (a, b) \<Rightarrow> a)"

lemma maybeCloneGitUrl_spec:
  assumes "maybeCloneGitUrl C l st = (Inr new, f, st')"
  shows "if names_git C l
    then \<exists>r url branch sub. cl_Clone C url branch st = (Inr r, st') \<and> new = (if sub \<noteq> [] then path_join [rp_Directory r, sub] else rp_Directory r) \<and>
      f = (if cl_refresh C \<noteq> 0 then Some \<lparr>rf_repo = r, rf_cloneUrl = url, rf_branch = branch\<rparr> else None)
    else new = l \<and> f = None \<and> st' = st"
proof (cases "names_git C l")
  case False
  then show ?thesis using assms by (cases "str_cut l ''?''") (auto simp: maybeCloneGitUrl_def names_git_def)
next
  case True
  then have m: "cloneLocation C l st = (Inr new, f, st')"
    using assms by (cases "str_cut l ''?''") (auto simp: maybeCloneGitUrl_def names_git_def)
  obtain u q where n: "NormalizeRepoUrl (cl_parsers C) l = Inr (u, q)"
    using m by (cases "NormalizeRepoUrl (cl_parsers C) l") (auto simp: cloneLocation_def)
  define url where "url = CloneURL u (cl_username C)"
  define branch where "branch = query_Get q ''branch''"
  define sub where "sub = query_Get q ''subdir''"
  obtain res st1 where c: "cl_Clone C url branch st = (res, st1)" by fastforce
  note m' = m[unfolded cloneLocation_def n Let_def sum.case prod.case, folded url_def branch_def sub_def, unfolded c prod.case]
  obtain r where res: "res = Inr r" using m' by (cases res) simp_all
  have "st' = st1" "new = (if sub \<noteq> [] then path_join [rp_Directory r, sub] else rp_Directory r)"
    "f = (if cl_refresh C \<noteq> 0 then Some \<lparr>rf_repo = r, rf_cloneUrl = url, rf_branch = branch\<rparr> else None)"
    using m' unfolding res by simp_all
  then show ?thesis using True c unfolding res by (simp only: if_True) blast
qed

lemma processFrom_spec:
  assumes "processFrom C ls st = (None, fs, ls', st')"
  shows "length ls' = length ls \<and> list_all (\<lambda>(l, l'). names_git C l \<or> l' = l) (zip ls ls') \<and>
    length fs = (if cl_refresh C \<noteq> 0 then length (filter (names_git C) ls) else 0)"
  using assms
proof (induction ls arbitrary: st fs ls' st')
  case (Cons l ls)
  obtain res f st1 where m: "maybeCloneGitUrl C l st = (res, f, st1)" using prod_cases3 by blast
  obtain new where res: "res = Inr new" using Cons.prems by (cases res) (simp_all add: m)
  obtain fs1 ls1 where rest: "processFrom C ls st1 = (None, fs1, ls1, st')"
    and r: "fs = (case f of None \<Rightarrow> fs1 | Some f \<Rightarrow> f # fs1)" "ls' = (if new \<noteq> [] then new else l) # ls1"
    using Cons.prems by (auto simp: m res Let_def split: prod.splits)
  show ?case using Cons.IH[OF rest] maybeCloneGitUrl_spec[OF m[unfolded res]] r by (auto split: if_splits)
qed simp

text \<open>When the locations of the configuration are resolved without an error, there are as many as before, every
  one that is not a Git URL is left as it is, and each Git URL has its refresher exactly when a refresh
  interval is set; a location that fails is named in the error.\<close>

theorem locations_are_resolved:
  assumes "processLocations C ls st = (err, fs, ls', st')"
  shows "length ls' = length ls \<and>
    (if err = None then list_all (\<lambda>(l, l'). names_git C l \<or> l' = l) (zip ls ls') \<and>
       length fs = (if cl_refresh C \<noteq> 0 then length (filter (names_git C) ls) else 0)
     else \<exists>l \<in> set ls. \<exists>e. err = Some (wrapError (''failed to clone '' @ go_quote l) e))"
proof (cases err)
  case None
  then show ?thesis using processFrom_spec[of C ls st fs ls' st'] assms by (simp add: processLocations_def)
next
  case (Some e)
  have "length ls' = length ls \<and> (\<exists>l \<in> set ls. \<exists>x. e = wrapError (''failed to clone '' @ go_quote l) x)"
    using assms unfolding processLocations_def Some
  proof (induction ls arbitrary: st fs ls' st')
    case (Cons l ls)
    obtain res f st1 where m: "maybeCloneGitUrl C l st = (res, f, st1)" using prod_cases3 by blast
    show ?case
    proof (cases res)
      case (Inl x)
      then show ?thesis using Cons.prems by (auto simp: m)
    next
      case (Inr new)
      obtain fs1 ls1 where rest: "processFrom C ls st1 = (Some e, fs1, ls1, st')" and "length ls' = Suc (length ls1)"
        using Cons.prems by (auto simp: m Inr Let_def split: prod.splits)
      then show ?thesis using Cons.IH[OF rest] by auto
    qed
  qed simp
  then show ?thesis using Some by simp
qed

definition demo_cloner :: "(string list \<times> small_git ephemeral) cloner" where
  "demo_cloner = ephemeral_cloner git_demo_env
    \<lparr>up_http = \<lambda>s. Inr \<lparr>u_Host = ''h'', u_Path = ''/o/p.git'', u_Query = [(''subdir'', ''rego'')]\<rparr>, up_git = \<lambda>_. Inl ''bad''\<rparr>
    (\<lambda>s. if has_prefix s ''https:'' then Some ''https'' else None) ''git'' 5"

definition demo_start :: "string list \<times> small_git ephemeral" where
  "demo_start = ([''/tmp/a'', ''/tmp/b''], NewEphemeralRepoManager (\<lambda>_. None))"

definition loc_demo_run :: "string option \<times> refresher list \<times> string list \<times> string list \<times> small_git ephemeral" where
  "loc_demo_run = processLocations demo_cloner [''./policies'', ''https://h/o/p.git?subdir=rego''] demo_start"

theorem locations_are_resolved_witness:
  "fst loc_demo_run = None \<and> fst (snd (snd loc_demo_run)) = [''./policies'', ''/tmp/a/rego''] \<and> length (fst (snd loc_demo_run)) = 1"
proof -
  have v: "fst loc_demo_run = None" "fst (snd (snd loc_demo_run)) = [''./policies'', ''/tmp/a/rego'']"
    "length (filter (names_git demo_cloner) [''./policies'', ''https://h/o/p.git?subdir=rego'']) = 1" "cl_refresh demo_cloner \<noteq> 0"
    by code_simp+
  have "processLocations demo_cloner [''./policies'', ''https://h/o/p.git?subdir=rego''] demo_start =
      (fst loc_demo_run, fst (snd loc_demo_run), fst (snd (snd loc_demo_run)), snd (snd (snd loc_demo_run)))"
    unfolding loc_demo_run_def by simp
  then show ?thesis using locations_are_resolved v by (metis (no_types, lifting))
qed

text \<open>The refresher of a policy repository that was wiped clones it to another directory; the location that
  the checks were given still names the first one.\<close>

lemma refresh_misses_location:
  assumes "refreshTick (ephemeral_cloner E ps scheme user i) there (ephemeral_update E) f (t # ts, m) = (f', tmps, m')"
    and "em_disk m (rp_Directory (rf_repo f)) = None" "t \<noteq> rp_Directory (rf_repo f)"
  shows "em_disk m' (rp_Directory (rf_repo f)) = None"
proof -
  obtain res m1 where c: "ephemeral_Clone E (Inr t) (rf_cloneUrl f) (rf_branch f) m = (res, m1)" by fastforce
  have m': "m' = m1" using assms(1,2) by (cases res) (simp_all add: refreshTick_def there_def ephemeral_cloner_def c)
  obtain e r d where d: "repo_Clone (me_api E) (me_creds E) (Inr t) (git_New (rf_cloneUrl f) (rf_branch f)) (em_disk m) = (e, r, d)"
    using prod_cases3 by blast
  have "em_disk m1 = d" using c by (cases e) (auto simp: ephemeral_Clone_def d)
  then show ?thesis using repo_Clone_dirs[OF d] assms(2,3) m' by auto
qed


end
