(* ===== verification/GoRel.thy ===== *)
theory GoRel
  imports GoPaths GoText
begin

text \<open>
  \<open>filepath.Rel\<close>, \<open>filepath.Abs\<close> and \<open>filepath.IsAbs\<close> of Go on a slash-separated system, and what the first says of
  one directory lying below another.  The standard library, so nothing here maps to a line of the
  repository.
\<close>

section \<open>Definitions\<close>

fun strip_common :: "string list \<Rightarrow> string list \<Rightarrow> string list \<times> string list" where
  "strip_common (a # as) (b # bs) = (if a = b then strip_common as bs else (a # as, b # bs))"
| "strip_common as bs = (as, bs)"

text \<open>The path from one directory to another: up over what is left of the first, down what is left of the second.\<close>

definition path_rel :: "string \<Rightarrow> string \<Rightarrow> string + string" where
  "path_rel base targ =
    (let (up, down) = strip_common (clean_comps base) (clean_comps targ) in
     if rooted base \<noteq> rooted targ \<or> (up \<noteq> [] \<and> hd up = ''..'')
     then Inl (''Rel: can'' @ [CHR 0x27] @ ''t make '' @ targ @ '' relative to '' @ base)
     else let cs = replicate (length up) ''..'' @ down in
       Inr (if cs = [] then ''.'' else str_join [slash] cs))"

definition path_Abs :: "string + string \<Rightarrow> string \<Rightarrow> string + string" where
  "path_Abs cwd p = (if rooted p then Inr (path_clean p) else (case cwd of Inl err \<Rightarrow> Inl err | Inr d \<Rightarrow> Inr (path_join [d, p])))"

section \<open>Facts\<close>

lemma strip_common_spec:
  "\<exists>cs. as = cs @ fst (strip_common as bs) \<and> bs = cs @ snd (strip_common as bs) \<and>
    (fst (strip_common as bs) = [] \<or> snd (strip_common as bs) = [] \<or> hd (fst (strip_common as bs)) \<noteq> hd (snd (strip_common as bs)))"
proof (induction as bs rule: strip_common.induct)
  case (1 a as b bs)
  show ?case
  proof (cases "a = b")
    case True
    then obtain cs where "as = cs @ fst (strip_common as bs)" "bs = cs @ snd (strip_common as bs)"
      "fst (strip_common as bs) = [] \<or> snd (strip_common as bs) = [] \<or> hd (fst (strip_common as bs)) \<noteq> hd (snd (strip_common as bs))"
      using 1 by blast
    then show ?thesis using True by (intro exI[of _ "a # cs"]) simp
  qed simp
qed auto

lemma strip_common_prefix: "fst (strip_common as bs) = [] \<longleftrightarrow> prefix as bs"
proof
  obtain cs where c: "as = cs @ fst (strip_common as bs)" "bs = cs @ snd (strip_common as bs)" using strip_common_spec by blast
  assume "fst (strip_common as bs) = []"
  then show "prefix as bs" using c by (metis append_Nil2 prefixI)
next
  show "prefix as bs \<Longrightarrow> fst (strip_common as bs) = []" by (induction as bs rule: strip_common.induct) auto
qed

lemma foldl_push_no_dots:
  assumes "list_all (\<lambda>c. c \<noteq> ''..'') st"
  shows "list_all (\<lambda>c. c \<noteq> ''..'') (foldl (clean_push True) st cs)"
  using assms
proof (induction cs arbitrary: st)
  case (Cons c cs)
  have "list_all (\<lambda>c. c \<noteq> ''..'') (clean_push True st c)"
    using Cons.prems by (cases st) (auto simp: clean_push_def)
  then show ?case using Cons.IH by simp
qed simp

lemma rooted_no_dots: "rooted s \<Longrightarrow> c \<in> set (clean_comps s) \<Longrightarrow> c \<noteq> ''..''"
  using foldl_push_no_dots[of "[]" "split_char slash s"] by (auto simp: clean_comps_def list_all_iff)

lemma join_no_slash_head:
  assumes "slash \<notin> set c" "c \<noteq> ''..''"
  shows "str_join [slash] (c # cs) \<noteq> ''..'' \<and> \<not> has_prefix (str_join [slash] (c # cs)) ''../''"
proof -
  obtain r where r: "str_join [slash] (c # cs) = c @ r" "r = [] \<or> hd r = slash" by (cases cs) auto
  have eq: "c = ''..''" if "c @ r = ''..'' @ t" "t = [] \<or> hd t = slash" for t
    using comp_split_unique[OF assms(1) _ that(1) r(2) that(2)] by simp
  have "c @ r \<noteq> ''..''" using eq[of "[]"] assms(2) by auto
  moreover have "\<not> has_prefix (c @ r) ''../''"
  proof
    assume "has_prefix (c @ r) ''../''"
    then obtain t where "c @ r = ''../'' @ t" unfolding has_prefix_iff by blast
    then have "c @ r = ''..'' @ slash # t" by simp
    then show False using eq[of "slash # t"] assms(2) by simp
  qed
  ultimately show ?thesis using r(1) by simp
qed

lemma join_dots_head: "str_join [slash] (''..'' # cs) = ''..'' \<or> has_prefix (str_join [slash] (''..'' # cs)) ''../''"
  by (cases cs) (auto simp: has_prefix_iff)

text \<open>From one directory to another without going up is the same as lying below it.\<close>

definition stays_below :: "string \<Rightarrow> bool" where
  "stays_below rel \<longleftrightarrow> rel \<noteq> ''..'' \<and> \<not> has_prefix rel ''../''"

lemma path_rel_below:
  assumes "rooted base" "rooted targ"
  shows "\<exists>rel. path_rel base targ = Inr rel \<and> (stays_below rel \<longleftrightarrow> prefix (clean_comps base) (clean_comps targ))"
proof -
  let ?u = "fst (strip_common (clean_comps base) (clean_comps targ))"
  let ?d = "snd (strip_common (clean_comps base) (clean_comps targ))"
  obtain cs where cs: "clean_comps base = cs @ ?u" "clean_comps targ = cs @ ?d" using strip_common_spec by blast
  have u: "\<not> (?u \<noteq> [] \<and> hd ?u = ''..'')"
  proof
    assume a: "?u \<noteq> [] \<and> hd ?u = ''..''"
    then have "''..'' \<in> set ?u" by (metis list.set_sel(1))
    then have "''..'' \<in> set (clean_comps base)" using arg_cong[OF cs(1), of set] by auto
    then show False using rooted_no_dots[OF assms(1)] by blast
  qed
  have d: "c \<noteq> ''..'' \<and> slash \<notin> set c" if "c \<in> set ?d" for c
  proof -
    have "c \<in> set (clean_comps targ)" using that arg_cong[OF cs(2), of set] by auto
    then show ?thesis using rooted_no_dots[OF assms(2)] clean_comps_ok unfolding comp_ok_def by blast
  qed
  let ?cs = "replicate (length ?u) ''..'' @ ?d"
  let ?rel = "if ?cs = [] then ''.'' else str_join [slash] ?cs"
  have r: "path_rel base targ = Inr ?rel" using u assms by (simp add: path_rel_def case_prod_beta Let_def)
  have "stays_below ?rel \<longleftrightarrow> ?u = []"
  proof (cases ?u)
    case Nil
    show ?thesis
    proof (cases ?d)
      case (Cons c cs')
      then have "c \<noteq> ''..''" "slash \<notin> set c" using d by simp_all
      then show ?thesis using join_no_slash_head[of c cs'] Nil Cons by (simp add: stays_below_def)
    qed (simp add: Nil stays_below_def has_prefix_def)
  next
    case (Cons x xs)
    then show ?thesis using join_dots_head[of "replicate (length xs) ''..'' @ ?d"] by (auto simp: stays_below_def)
  qed
  then show ?thesis using r strip_common_prefix by blast
qed

end
