(* ===== verification/ArgoPackage.thy ===== *)
theory ArgoPackage
  imports GoRel Kustomize ArgoTypes GitRepo RepoUrl
begin

text \<open>
  \<open>pkg/argo_client\<close>, the files of an application: \<open>packageApp\<close> of \<open>manifests.go\<close> with all that it copies,
  \<open>helm_values.go\<close> and \<open>kustomize.go\<close>.  What the operating system answers (opening and reading a file, walking
  a directory, globbing, resolving symbolic links, making directories) is a record of functions; what is
  written is explicit state.  The list of value files is rewritten in place in the application that the
  caller holds, so it is part of the result, also when packaging fails.
\<close>

section \<open>Sources\<close>

record content_source = app_source +
  cs_Ref :: string
  cs_Chart :: string
  cs_IgnoreMissing :: bool

datatype os_error = ErrNotExist string | OsError string

fun os_text :: "os_error \<Rightarrow> string" where
  "os_text (ErrNotExist s) = s"
| "os_text (OsError s) = s"

fun os_wrap :: "string \<Rightarrow> os_error \<Rightarrow> os_error" where
  "os_wrap what (ErrNotExist s) = ErrNotExist (wrapError what s)"
| "os_wrap what (OsError s) = OsError (wrapError what s)"

text \<open>What a walk below a directory comes to, in its order, the directory itself left out unless it fails.\<close>

datatype walk_item = WalkDir string | WalkFile string | WalkFailed string

record chart_dep =
  cd_Name :: string
  cd_Version :: string
  cd_Repository :: string

text \<open>Opening a file gives the bytes that reading it delivers, and how the reading failed if it did.\<close>

record pack_os =
  po_open :: "string \<Rightarrow> os_error + (string \<times> string option)"
  po_walk :: "string \<Rightarrow> walk_item list"
  po_mkdir :: "string \<Rightarrow> os_error option"
  po_create :: "string \<Rightarrow> os_error option"
  po_glob :: "string \<Rightarrow> string + string list"
  po_links :: "string \<Rightarrow> string + string"
  po_cwd :: "string + string"
  po_temp :: "string + string"
  po_stat :: "string \<Rightarrow> bool"
  po_chart :: "string \<Rightarrow> string + chart_dep list"
  po_kustFS :: "string \<Rightarrow> string \<Rightarrow> fs_entry"
  po_kustParse :: "string \<Rightarrow> kustomization option"
  po_kustFuel :: nat
  po_kustText :: "kust_error \<Rightarrow> string"
  po_parsers :: url_parsers

text \<open>What has been written: files with their content, directories that were made.\<close>

record written =
  wr_files :: "string \<Rightarrow> string option"
  wr_made :: "string list"

definition lies_below :: "string \<Rightarrow> string \<Rightarrow> bool" where
  "lies_below child parent = (rooted child = rooted parent \<and> prefix (clean_comps parent) (clean_comps child))"

definition wr_exists :: "string \<Rightarrow> written \<Rightarrow> bool" where
  "wr_exists p w = (wr_files w p \<noteq> None \<or> list_ex (\<lambda>m. lies_below m p) (wr_made w))"

definition MkdirAll :: "pack_os \<Rightarrow> string \<Rightarrow> written \<Rightarrow> os_error option \<times> written" where
  "MkdirAll E p w = (case po_mkdir E p of Some err \<Rightarrow> (Some err, w) | None \<Rightarrow> (None, w\<lparr>wr_made := p # wr_made w\<rparr>))"

definition RemoveAll :: "string \<Rightarrow> written \<Rightarrow> written" where
  "RemoveAll d w = \<lparr>wr_files = \<lambda>p. if lies_below p d then None else wr_files w p, wr_made = filter (\<lambda>p. \<not> lies_below p d) (wr_made w)\<rparr>"

section \<open>Copying\<close>

definition writeFrom :: "pack_os \<Rightarrow> string \<times> string option \<Rightarrow> string \<Rightarrow> written \<Rightarrow> os_error option \<times> written" where
  "writeFrom E input dst w =
    (case po_create E dst of
       Some err \<Rightarrow> (Some err, w)
     | None \<Rightarrow> (map_option OsError (snd input), w\<lparr>wr_files := (wr_files w)(dst \<mapsto> fst input)\<rparr>))"

definition copyFile :: "pack_os \<Rightarrow> string \<Rightarrow> string \<Rightarrow> written \<Rightarrow> os_error option \<times> written" where
  "copyFile E srcpath dstpath w =
    (case MkdirAll E (path_dir dstpath) w of
       (Some err, w) \<Rightarrow> (Some (os_wrap ''failed to make directories'' err), w)
     | (None, w) \<Rightarrow>
         (case po_open E srcpath of
            Inl err \<Rightarrow> (Some err, w)
          | Inr input \<Rightarrow> writeFrom E input dstpath w))"

fun copyWalk :: "pack_os \<Rightarrow> string \<Rightarrow> string \<Rightarrow> walk_item list \<Rightarrow> written \<Rightarrow> os_error option \<times> written" where
  "copyWalk E src dst [] w = (None, w)"
| "copyWalk E src dst (WalkFailed err # items) w = (Some (OsError err), w)"
| "copyWalk E src dst (WalkDir p # items) w =
    (case path_rel src p of
       Inl err \<Rightarrow> (Some (OsError (wrapError (''failed to get relative path for '' @ p) err)), w)
     | Inr rel \<Rightarrow>
         (case MkdirAll E (path_join [dst, rel]) w of
            (Some err, w) \<Rightarrow> (Some (os_wrap (''failed to create directory '' @ path_join [dst, rel]) err), w)
          | (None, w) \<Rightarrow> copyWalk E src dst items w))"
| "copyWalk E src dst (WalkFile p # items) w =
    (case path_rel src p of
       Inl err \<Rightarrow> (Some (OsError (wrapError (''failed to get relative path for '' @ p) err)), w)
     | Inr rel \<Rightarrow>
         (case copyFile E p (path_join [dst, rel]) w of
            (Some err, w) \<Rightarrow> (Some err, w)
          | (None, w) \<Rightarrow> copyWalk E src dst items w))"

definition copyDir :: "pack_os \<Rightarrow> string \<Rightarrow> string \<Rightarrow> written \<Rightarrow> os_error option \<times> written" where
  "copyDir E src dst w =
    (case (if wr_exists dst w then (None, w) else MkdirAll E dst w) of
       (Some err, w) \<Rightarrow> (Some (os_wrap (''failed to create directory '' @ dst) err), w)
     | (None, w) \<Rightarrow> copyWalk E src dst (po_walk E src) w)"

definition kust_addFile :: "pack_os \<Rightarrow> string \<Rightarrow> string \<Rightarrow> string \<Rightarrow> written \<Rightarrow> os_error option \<times> written" where
  "kust_addFile E repoRoot tempDir relPath w =
    (let absDepPath = path_clean (path_join [repoRoot, relPath]) in
     case path_rel repoRoot absDepPath of
       Inl err \<Rightarrow> (Some (OsError (wrapError (''failed to get relative path for '' @ absDepPath) err)), w)
     | Inr rel \<Rightarrow>
         let tempPath = path_join [tempDir, rel] in
         if wr_exists tempPath w then (None, w)
         else (case MkdirAll E (path_dir tempPath) w of
                 (Some err, w) \<Rightarrow> (Some (os_wrap ''failed to make directories'' err), w)
               | (None, w) \<Rightarrow>
                   (case po_open E absDepPath of
                      Inl err \<Rightarrow> (Some err, w)
                    | Inr input \<Rightarrow>
                        (case po_create E tempPath of
                           Some err \<Rightarrow> (Some err, w)
                         | None \<Rightarrow> (map_option (\<lambda>err. OsError (wrapError ''failed to copy file'' err)) (snd input),
                                     w\<lparr>wr_files := (wr_files w)(tempPath \<mapsto> fst input)\<rparr>)))))"

fun addFiles :: "pack_os \<Rightarrow> string \<Rightarrow> string \<Rightarrow> string list \<Rightarrow> written \<Rightarrow> os_error option \<times> written" where
  "addFiles E repoRoot tempDir [] w = (None, w)"
| "addFiles E repoRoot tempDir (f # fs) w =
    (case kust_addFile E repoRoot tempDir f w of
       (Some err, w) \<Rightarrow> (Some (os_wrap ''failed to add file'' err), w)
     | (None, w) \<Rightarrow> addFiles E repoRoot tempDir fs w)"

section \<open>Value files\<close>

definition containsGlob :: "string \<Rightarrow> bool" where
  "containsGlob p = list_ex (\<lambda>c. c \<in> {CHR ''*'', CHR ''?'', CHR ''[''}) p"

definition resolveExisting :: "pack_os \<Rightarrow> string \<Rightarrow> string + string" where
  "resolveExisting E p = (case path_Abs (po_cwd E) p of Inl err \<Rightarrow> Inl err | Inr a \<Rightarrow> po_links E a)"

definition absClean :: "pack_os \<Rightarrow> string \<Rightarrow> string + string" where
  "absClean E p = (case path_Abs (po_cwd E) p of Inl err \<Rightarrow> Inl err | Inr a \<Rightarrow> Inr (path_clean a))"

definition isWithin :: "string \<Rightarrow> string \<Rightarrow> bool" where
  "isWithin child parent =
    (case path_rel parent child of
       Inl _ \<Rightarrow> False
     | Inr rel \<Rightarrow> if rel = ''.'' then True else if rel = ''..'' then False else \<not> has_prefix rel ''../'')"

definition ignoreValuesFileCopyError :: "bool \<Rightarrow> os_error \<Rightarrow> bool" where
  "ignoreValuesFileCopyError ignoreMissing err = ((case err of ErrNotExist _ \<Rightarrow> True | OsError _ \<Rightarrow> False) \<and> ignoreMissing)"

text \<open>One match of a glob, checked on both sides before it is copied.\<close>

definition copyMatch ::
  "pack_os \<Rightarrow> string \<Rightarrow> string \<Rightarrow> string \<Rightarrow> string \<Rightarrow> bool \<Rightarrow> string \<Rightarrow> written \<Rightarrow> string option \<times> written" where
  "copyMatch E resolvedRepoRoot absDestDir srcAppPath destAppDir ignoreMissing match w =
    (case resolveExisting E match of
       Inl err \<Rightarrow> (Some (wrapError (''failed to resolve '' @ go_quote match) err), w)
     | Inr resolvedMatch \<Rightarrow>
         if \<not> isWithin resolvedMatch resolvedRepoRoot
         then (Some (''globbed value file '' @ go_quote match @ '' escapes repo root''), w)
         else (case path_rel srcAppPath match of
             Inl err \<Rightarrow> (Some (wrapError (''failed to compute relative path for '' @ go_quote match) err), w)
           | Inr rel \<Rightarrow>
               let dst = path_join [destAppDir, rel] in
               (case absClean E dst of
                  Inl err \<Rightarrow> (Some (wrapError (''failed to resolve destination '' @ go_quote dst) err), w)
                | Inr absDst \<Rightarrow>
                    if \<not> isWithin absDst absDestDir
                    then (Some (''destination for '' @ go_quote match @ '' escapes package dir''), w)
                    else (case copyFile E match dst w of
                        (Some err, w) \<Rightarrow>
                          (if ignoreValuesFileCopyError ignoreMissing err then None
                           else Some (wrapError (''failed to copy globbed value file '' @ go_quote match) (os_text err)), w)
                      | (None, w) \<Rightarrow> (None, w)))))"

fun copyMatches ::
  "pack_os \<Rightarrow> string \<Rightarrow> string \<Rightarrow> string \<Rightarrow> string \<Rightarrow> bool \<Rightarrow> string list \<Rightarrow> written \<Rightarrow> string option \<times> written" where
  "copyMatches E root dest src dst ig [] w = (None, w)"
| "copyMatches E root dest src dst ig (m # ms) w =
    (case copyMatch E root dest src dst ig m w of
       (Some err, w) \<Rightarrow> (Some err, w)
     | (None, w) \<Rightarrow> copyMatches E root dest src dst ig ms w)"

definition copyGlobValueFiles ::
  "pack_os \<Rightarrow> string \<Rightarrow> string \<Rightarrow> string \<Rightarrow> string \<Rightarrow> bool \<Rightarrow> string \<Rightarrow> written \<Rightarrow> string option \<times> written" where
  "copyGlobValueFiles E repoRoot destDir srcAppPath destAppDir ignoreMissing valueFile w =
    (if rooted valueFile then (Some (''absolute value file paths are not permitted: '' @ go_quote valueFile), w)
     else (case po_glob E (path_join [srcAppPath, valueFile]) of
         Inl err \<Rightarrow> (Some (wrapError (''failed to expand glob '' @ go_quote valueFile) err), w)
       | Inr matches \<Rightarrow>
           if matches = [] then
             (if ignoreMissing then None else Some (''glob value file '' @ go_quote valueFile @ '' matched no files''), w)
           else (case resolveExisting E repoRoot of
               Inl err \<Rightarrow> (Some (wrapError ''failed to resolve repo root'' err), w)
             | Inr resolvedRepoRoot \<Rightarrow>
                 (case absClean E destDir of
                    Inl err \<Rightarrow> (Some (wrapError ''failed to resolve package dir'' err), w)
                  | Inr absDestDir \<Rightarrow> copyMatches E resolvedRepoRoot absDestDir srcAppPath destAppDir ignoreMissing matches w))))"

text \<open>The pattern \<open>^\$([^/]+)/(.*)$\<close>, whose last group has no newline.\<close>

definition splitRefFromPath :: "string \<Rightarrow> string + (string \<times> string)" where
  "splitRefFromPath file =
    (let name = takeWhile (\<lambda>c. c \<noteq> slash) (tl file); rest = dropWhile (\<lambda>c. c \<noteq> slash) (tl file) in
     if has_prefix file ''$'' \<and> name \<noteq> [] \<and> rest \<noteq> [] \<and> CHR 0x0A \<notin> set (tl rest)
     then Inr (name, tl rest) else Inl ''invalid value ref'')"

text \<open>\<open>errors.Wrap\<close> of no error is no error.\<close>

definition errors_Wrap :: "string option \<Rightarrow> string \<Rightarrow> string option" where
  "errors_Wrap err what = map_option (wrapError what) err"

type_synonym repo_getter = "string \<Rightarrow> string \<Rightarrow> string + repo"

definition refsByName :: "content_source list \<Rightarrow> string \<Rightarrow> content_source option" where
  "refsByName refs = map_of (rev (map (\<lambda>r. (cs_Ref r, r)) refs))"

definition processValueReference ::
  "pack_os \<Rightarrow> repo_getter \<Rightarrow> bool \<Rightarrow> string \<Rightarrow> (string \<Rightarrow> content_source option) \<Rightarrow> repo \<Rightarrow> string \<Rightarrow> string \<Rightarrow> written \<Rightarrow>
    (string + string) \<times> written" where
  "processValueReference E G ignoreMissing valueFile refs r tempDir tempAppDir w =
    (case splitRefFromPath valueFile of
       Inl err \<Rightarrow> (Inl (wrapError ''failed to parse value file'' err), w)
     | Inr (refName, refPath) \<Rightarrow>
         (case refs refName of
            None \<Rightarrow> (case errors_Wrap None ''value file points at missing ref'' of Some err \<Rightarrow> (Inl err, w) | None \<Rightarrow> (Inr [], w))
          | Some ref \<Rightarrow>
              (case (if AreSameRepos (po_parsers E) (src_RepoURL ref) (rp_CloneURL r) then Inr r
                     else G (src_RepoURL ref) (src_TargetRevision ref)) of
                 Inl err \<Rightarrow> (Inl (wrapError (''failed to clone repo: '' @ go_quote (src_RepoURL ref)) err), w)
               | Inr refRepo \<Rightarrow>
                   let dst = path_join [tempDir, ''.refs'', refName, refPath]; (err, w) = copyFile E (path_join [rp_Directory refRepo, refPath]) dst w in
                   (case (case err of None \<Rightarrow> None | Some e \<Rightarrow> if ignoreValuesFileCopyError ignoreMissing e then None else Some e) of
                      Some e \<Rightarrow> (Inl (wrapError (''failed to copy referenced value file: '' @ go_quote valueFile) (os_text e)), w)
                    | None \<Rightarrow>
                        (case path_rel tempAppDir dst of
                           Inl e \<Rightarrow> (Inl (wrapError ''failed to find a relative path'' e), w)
                         | Inr rel \<Rightarrow> (Inr rel, w))))))"

record pack_dirs =
  pd_repo :: repo
  pd_destDir :: string
  pd_srcApp :: string
  pd_destApp :: string

text \<open>One entry of the list of value files: the entry that takes its place.\<close>

definition valueFileStep ::
  "pack_os \<Rightarrow> repo_getter \<Rightarrow> content_source \<Rightarrow> content_source list \<Rightarrow> pack_dirs \<Rightarrow> string \<Rightarrow> written \<Rightarrow> (string + string) \<times> written" where
  "valueFileStep E G source refs D valueFile w =
    (if has_prefix valueFile ''$'' then
       processValueReference E G (cs_IgnoreMissing source) valueFile (refsByName refs) (pd_repo D) (pd_destDir D) (pd_destApp D) w
     else if str_contains valueFile ''://'' then (Inr valueFile, w)
     else if containsGlob valueFile then
       (case copyGlobValueFiles E (rp_Directory (pd_repo D)) (pd_destDir D) (pd_srcApp D) (pd_destApp D) (cs_IgnoreMissing source) valueFile w of
          (Some err, w) \<Rightarrow> (Inl err, w)
        | (None, w) \<Rightarrow> (Inr valueFile, w))
     else (case path_rel (src_Path source) valueFile of
         Inl err \<Rightarrow> (Inl (wrapError ''failed to calculate relative path'' err), w)
       | Inr rel \<Rightarrow>
           if \<not> has_prefix rel ''../'' then (Inr valueFile, w)
           else (case copyFile E (path_join [pd_srcApp D, valueFile]) (path_join [pd_destApp D, valueFile]) w of
               (Some err, w) \<Rightarrow>
                 (if ignoreValuesFileCopyError (cs_IgnoreMissing source) err then Inr valueFile
                  else Inl (wrapError (''failed to copy file: '' @ go_quote valueFile) (os_text err)), w)
             | (None, w) \<Rightarrow> (Inr valueFile, w))))"

fun valueFilesFrom ::
  "pack_os \<Rightarrow> repo_getter \<Rightarrow> content_source \<Rightarrow> content_source list \<Rightarrow> pack_dirs \<Rightarrow> string list \<Rightarrow> written \<Rightarrow>
    string option \<times> string list \<times> written" where
  "valueFilesFrom E G source refs D [] w = (None, [], w)"
| "valueFilesFrom E G source refs D (v # vs) w =
    (case valueFileStep E G source refs D v w of
       (Inl err, w) \<Rightarrow> (Some err, v # vs, w)
     | (Inr v', w) \<Rightarrow> (let (err, vs', w) = valueFilesFrom E G source refs D vs w in (err, v' # vs', w)))"

section \<open>Packaging\<close>

definition processLocalHelmDependency :: "pack_os \<Rightarrow> string \<Rightarrow> string \<Rightarrow> string \<Rightarrow> written \<Rightarrow> os_error option \<times> written" where
  "processLocalHelmDependency E srcAppPath destAppDir dependencyPath w =
    (let cleanPath = trim_prefix dependencyPath ''file://'';
         absDepPath = path_join [srcAppPath, cleanPath]; destDepPath = path_join [destAppDir, cleanPath] in
     case MkdirAll E destDepPath w of
       (Some err, w) \<Rightarrow> (Some (os_wrap (''failed to create charts directory '' @ destDepPath) err), w)
     | (None, w) \<Rightarrow>
         (case copyDir E absDepPath destDepPath w of
            (Some err, w) \<Rightarrow> (Some (os_wrap (''failed to copy helm dependency from '' @ absDepPath @ '' to '' @ destDepPath) err), w)
          | (None, w) \<Rightarrow> (None, w)))"

definition parseChartYAML :: "pack_os \<Rightarrow> string \<Rightarrow> string + chart_dep list" where
  "parseChartYAML E chartPath =
    (case po_open E chartPath of
       Inl err \<Rightarrow> Inl (wrapError ''failed to read Chart.yaml'' (os_text err))
     | Inr (content, Some err) \<Rightarrow> Inl (wrapError ''failed to read Chart.yaml'' err)
     | Inr (content, None) \<Rightarrow>
         (case po_chart E content of
            Inl err \<Rightarrow> Inl (wrapError ''failed to parse Chart.yaml'' err)
          | Inr deps \<Rightarrow> Inr deps))"

fun copyDependencies :: "pack_os \<Rightarrow> string \<Rightarrow> string \<Rightarrow> chart_dep list \<Rightarrow> written \<Rightarrow> string option \<times> written" where
  "copyDependencies E srcAppPath destAppDir [] w = (None, w)"
| "copyDependencies E srcAppPath destAppDir (d # ds) w =
    (if has_prefix (cd_Repository d) ''file://'' then
       (case processLocalHelmDependency E srcAppPath destAppDir (cd_Repository d) w of
          (Some err, w) \<Rightarrow> (Some (wrapError (''failed to process local helm dependency '' @ cd_Name d) (os_text err)), w)
        | (None, w) \<Rightarrow> copyDependencies E srcAppPath destAppDir ds w)
     else copyDependencies E srcAppPath destAppDir ds w)"

definition chartDependencies :: "pack_os \<Rightarrow> pack_dirs \<Rightarrow> written \<Rightarrow> string option \<times> written" where
  "chartDependencies E D w =
    (let chartPath = path_join [pd_srcApp D, ''Chart.yaml''] in
     if \<not> po_stat E chartPath then (None, w)
     else (case parseChartYAML E chartPath of
         Inl err \<Rightarrow> (Some (wrapError ''failed to parse Chart.yaml'' err), w)
       | Inr deps \<Rightarrow> copyDependencies E (pd_srcApp D) (pd_destApp D) deps w))"

text \<open>\<open>None\<close> for a walk over kustomizations that did not end within its fuel.\<close>

definition kustomizeFiles :: "pack_os \<Rightarrow> content_source \<Rightarrow> pack_dirs \<Rightarrow> written \<Rightarrow> (string option \<times> written) option" where
  "kustomizeFiles E source D w =
    (let relKustPath = path_join [src_Path source, ''kustomization.yaml''] in
     if \<not> wr_exists (path_join [pd_destDir D, relKustPath]) w then Some (None, w)
     else (case ProcessKustomizationFile (po_kustFuel E) (po_kustFS E (rp_Directory (pd_repo D))) (po_kustParse E) relKustPath of
         None \<Rightarrow> None
       | Some (Inl err) \<Rightarrow> Some (Some (wrapError ''failed to process kustomization dependencies'' (po_kustText E err)), w)
       | Some (Inr (files, dirs)) \<Rightarrow>
           (case addFiles E (rp_Directory (pd_repo D)) (pd_destDir D) files w of
              (err, w) \<Rightarrow> Some (map_option os_text err, w))))"

definition helmFiles ::
  "pack_os \<Rightarrow> repo_getter \<Rightarrow> content_source \<Rightarrow> content_source list \<Rightarrow> pack_dirs \<Rightarrow> written \<Rightarrow> string option \<times> string list \<times> written" where
  "helmFiles E G source refs D w =
    (case src_Helm source of
       None \<Rightarrow> (None, [], w)
     | Some helm \<Rightarrow>
         (case chartDependencies E D w of
            (Some err, w) \<Rightarrow> (Some err, h_ValueFiles helm, w)
          | (None, w) \<Rightarrow> valueFilesFrom E G source refs D (h_ValueFiles helm) w))"

definition sourceValueFiles :: "content_source \<Rightarrow> string list" where
  "sourceValueFiles source = (case src_Helm source of None \<Rightarrow> [] | Some helm \<Rightarrow> h_ValueFiles helm)"

definition packageSteps ::
  "pack_os \<Rightarrow> repo_getter \<Rightarrow> content_source \<Rightarrow> content_source list \<Rightarrow> pack_dirs \<Rightarrow> written \<Rightarrow> (string option \<times> string list \<times> written) option" where
  "packageSteps E G source refs D w =
    (case copyDir E (pd_srcApp D) (pd_destApp D) w of
       (Some err, w) \<Rightarrow> Some (Some (wrapError ''failed to copy base directory'' (os_text err)), sourceValueFiles source, w)
     | (None, w) \<Rightarrow>
         (case kustomizeFiles E source D w of
            None \<Rightarrow> None
          | Some (Some err, w) \<Rightarrow> Some (Some err, sourceValueFiles source, w)
          | Some (None, w) \<Rightarrow> Some (helmFiles E G source refs D w)))"

text \<open>The result, the value files as the source has them afterwards, and what has been written; a package that
  failed is removed.\<close>

definition packageApp ::
  "pack_os \<Rightarrow> repo_getter \<Rightarrow> content_source \<Rightarrow> content_source list \<Rightarrow> repo \<Rightarrow> written \<Rightarrow> ((string + string) \<times> string list \<times> written) option" where
  "packageApp E G source refs r w =
    (case po_temp E of
       Inl err \<Rightarrow> Some (Inl (wrapError ''failed to make temp dir'' err), sourceValueFiles source, w)
     | Inr destDir \<Rightarrow>
         let D = \<lparr>pd_repo = r, pd_destDir = destDir, pd_srcApp = path_join [rp_Directory r, src_Path source],
                  pd_destApp = path_join [destDir, src_Path source]\<rparr> in
         (case packageSteps E G source refs D (w\<lparr>wr_made := destDir # wr_made w\<rparr>) of
            None \<Rightarrow> None
          | Some (Some err, vfs, w) \<Rightarrow> Some (Inl err, vfs, RemoveAll destDir w)
          | Some (None, vfs, w) \<Rightarrow> Some (Inr destDir, vfs, w)))"

section \<open>Lying within\<close>

lemma isWithin_prefix:
  assumes "rooted child" "rooted parent"
  shows "isWithin child parent = prefix (clean_comps parent) (clean_comps child)"
proof -
  obtain rel where r: "path_rel parent child = Inr rel" "stays_below rel \<longleftrightarrow> prefix (clean_comps parent) (clean_comps child)"
    using path_rel_below[OF assms(2,1)] by blast
  have "isWithin child parent = stays_below rel" unfolding isWithin_def r(1) stays_below_def by (auto simp: has_prefix_def)
  then show ?thesis using r(2) by simp
qed

text \<open>The lexical containment test agrees with its meaning: of two absolute paths one is within the other
  exactly when the components of the outer one begin those of the inner one, so \<open>/repo-x\<close> is not within \<open>/repo\<close>
  and no climbing by \<open>..\<close> passes.\<close>

theorem within_means_below:
  assumes "rooted child" "rooted parent"
  shows "isWithin child parent = prefix (clean_comps parent) (clean_comps child)"
  using isWithin_prefix[OF assms] .

theorem within_means_below_witness:
  "isWithin ''/repo/a/../b'' ''/repo'' \<and> \<not> isWithin ''/repo-x/b'' ''/repo'' \<and> \<not> isWithin ''/repo/../etc'' ''/repo''"
  using within_means_below[of "''/repo/a/../b''" "''/repo''"] within_means_below[of "''/repo-x/b''" "''/repo''"]
    within_means_below[of "''/repo/../etc''" "''/repo''"] by code_simp

section \<open>What a glob copies\<close>

lemma render_rooted: "fst st \<Longrightarrow> rooted (render_state st)"
  by (simp add: render_state_def rooted_def)

lemma path_Abs_rooted:
  assumes "path_Abs cwd p = Inr a" "\<And>d. cwd = Inr d \<Longrightarrow> rooted d"
  shows "rooted a"
proof (cases "rooted p")
  case True
  then have "a = path_clean p" using assms(1) by (simp add: path_Abs_def)
  then show ?thesis using True by (simp add: path_clean_state render_rooted clean_state_def)
next
  case False
  then obtain d where d: "cwd = Inr d" "a = path_join [d, p]" using assms(1) by (auto simp: path_Abs_def split: sum.splits)
  then have "rooted d" using assms(2) by blast
  then have "d \<noteq> []" by (auto simp: rooted_def)
  then show ?thesis using d(2) \<open>rooted d\<close> by (simp add: path_join_below render_rooted clean_below_def clean_state_def)
qed

lemma absClean_rooted:
  assumes "absClean E p = Inr a" "\<And>d. po_cwd E = Inr d \<Longrightarrow> rooted d"
  shows "rooted a"
proof -
  obtain b where b: "path_Abs (po_cwd E) p = Inr b" "a = path_clean b" using assms(1) by (auto simp: absClean_def split: sum.splits)
  have "rooted b" using path_Abs_rooted[OF b(1)] assms(2) by blast
  then show ?thesis using b(2) by (simp add: path_clean_state render_rooted clean_state_def)
qed

lemma copyFile_writes:
  assumes "copyFile E src dst w = (err, w')"
  shows "wr_files w' = wr_files w \<or> (\<exists>c x. po_open E src = Inr (c, x) \<and> wr_files w' = (wr_files w)(dst \<mapsto> c))"
  using assms by (auto simp: copyFile_def MkdirAll_def writeFrom_def split: option.splits sum.splits)

text \<open>What the operating system promises of absolute paths.\<close>

definition absolute_os :: "pack_os \<Rightarrow> bool" where
  "absolute_os E \<longleftrightarrow> (\<forall>d. po_cwd E = Inr d \<longrightarrow> rooted d) \<and> (\<forall>p r. rooted p \<longrightarrow> po_links E p = Inr r \<longrightarrow> rooted r)"

lemma resolveExisting_rooted: "absolute_os E \<Longrightarrow> resolveExisting E p = Inr r \<Longrightarrow> rooted r"
  using path_Abs_rooted[of "po_cwd E" p] by (auto simp: absolute_os_def resolveExisting_def split: sum.splits)

definition glob_copy :: "pack_os \<Rightarrow> string \<Rightarrow> string \<Rightarrow> string \<Rightarrow> string \<Rightarrow> string option \<Rightarrow> bool" where
  "glob_copy E root dest match p content \<longleftrightarrow>
    (\<exists>r a c x. resolveExisting E match = Inr r \<and> lies_below r root \<and> absClean E p = Inr a \<and> lies_below a dest \<and>
      po_open E match = Inr (c, x) \<and> content = Some c)"

lemma copyMatch_writes:
  assumes os: "absolute_os E" and root: "rooted root" and dest: "rooted dest"
    and run: "copyMatch E root dest src dst ig match w = (err, w')"
  shows "wr_files w' p = wr_files w p \<or> glob_copy E root dest match p (wr_files w' p)"
proof (cases "\<exists>r rel a. resolveExisting E match = Inr r \<and> isWithin r root \<and> path_rel src match = Inr rel \<and>
    absClean E (path_join [dst, rel]) = Inr a \<and> isWithin a dest")
  case False
  then have "w' = w" using run by (auto simp: copyMatch_def Let_def split: sum.splits if_splits prod.splits option.splits)
  then show ?thesis by simp
next
  case True
  then obtain r rel a where s: "resolveExisting E match = Inr r" "isWithin r root" "path_rel src match = Inr rel"
    "absClean E (path_join [dst, rel]) = Inr a" "isWithin a dest" by blast
  obtain e w1 where c: "copyFile E match (path_join [dst, rel]) w = (e, w1)" by fastforce
  have w1: "w' = w1" using run by (cases e) (auto simp: copyMatch_def s c Let_def)
  have "rooted r" using resolveExisting_rooted[OF os s(1)] .
  moreover have "rooted a" using absClean_rooted[OF s(4)] os by (auto simp: absolute_os_def)
  ultimately have b: "lies_below r root" "lies_below a dest"
    using s(2,5) isWithin_prefix[of r root] isWithin_prefix[of a dest] root dest by (auto simp: lies_below_def)
  consider "wr_files w1 = wr_files w" | x y where "po_open E match = Inr (x, y)" "wr_files w1 = (wr_files w)(path_join [dst, rel] \<mapsto> x)"
    using copyFile_writes[OF c] by blast
  then show ?thesis
  proof cases
    case 1
    then show ?thesis using w1 by simp
  next
    case 2
    show ?thesis
    proof (cases "p = path_join [dst, rel]")
      case True
      then show ?thesis unfolding w1 glob_copy_def 2(2) using s(1,4) b 2(1) by auto
    qed (simp add: w1 2(2))
  qed
qed

lemma copyMatches_writes:
  assumes os: "absolute_os E" and root: "rooted root" and dest: "rooted dest"
    and run: "copyMatches E root dest src dst ig ms w = (err, w')"
  shows "wr_files w' p = wr_files w p \<or> list_ex (\<lambda>m. glob_copy E root dest m p (wr_files w' p)) ms"
  using run
proof (induction ms arbitrary: w)
  case (Cons m ms)
  obtain e w1 where c: "copyMatch E root dest src dst ig m w = (e, w1)" by fastforce
  note step = copyMatch_writes[OF os root dest c, of p]
  show ?case
  proof (cases e)
    case None
    then have "copyMatches E root dest src dst ig ms w1 = (err, w')" using Cons.prems by (simp add: c)
    then show ?thesis using Cons.IH[of w1] step by fastforce
  qed (use Cons.prems c step in auto)
qed simp

text \<open>C13 Expanding a glob of value files writes only below the package directory, and only what files of the
  repository contain: whatever file differs afterwards lies below the package directory and holds the bytes
  of a match whose path, with its symbolic links resolved, lies below the resolved root of the repository.\<close>

theorem glob_copies_are_confined:
  assumes os: "absolute_os E"
    and run: "copyGlobValueFiles E repoRoot destDir src dst ig valueFile w = (err, w')"
    and changed: "wr_files w' p \<noteq> wr_files w p"
  shows "\<exists>ms root dest. po_glob E (path_join [src, valueFile]) = Inr ms \<and> resolveExisting E repoRoot = Inr root \<and>
    absClean E destDir = Inr dest \<and> \<not> rooted valueFile \<and> list_ex (\<lambda>m. glob_copy E root dest m p (wr_files w' p)) ms"
proof -
  obtain ms root dest where s: "\<not> rooted valueFile" "po_glob E (path_join [src, valueFile]) = Inr ms" "resolveExisting E repoRoot = Inr root"
      "absClean E destDir = Inr dest" "copyMatches E root dest src dst ig ms w = (err, w')"
    using run changed by (auto simp: copyGlobValueFiles_def split: if_splits sum.splits)
  have "rooted root" "rooted dest" using resolveExisting_rooted[OF os s(3)] absClean_rooted[OF s(4)] os by (auto simp: absolute_os_def)
  then show ?thesis using copyMatches_writes[OF os _ _ s(5), of p] changed s(1-4) by blast
qed

section \<open>What a directory copy leaves\<close>

text \<open>The files of a walk with the places they go to.\<close>

fun walkPairs :: "string \<Rightarrow> string \<Rightarrow> walk_item list \<Rightarrow> (string \<times> string) list" where
  "walkPairs src dst [] = []"
| "walkPairs src dst (WalkFile p # items) =
    (case path_rel src p of Inl err \<Rightarrow> [] | Inr rel \<Rightarrow> [(p, path_join [dst, rel])]) @ walkPairs src dst items"
| "walkPairs src dst (i # items) = walkPairs src dst items"

definition contentOf :: "pack_os \<Rightarrow> string \<Rightarrow> string" where
  "contentOf E p = (case po_open E p of Inl _ \<Rightarrow> [] | Inr (c, _) \<Rightarrow> c)"

lemma copyFile_done:
  assumes "copyFile E src dst w = (None, w')"
  shows "wr_files w' = (wr_files w)(dst \<mapsto> contentOf E src)"
  using assms by (auto simp: copyFile_def MkdirAll_def writeFrom_def contentOf_def split: option.splits sum.splits)

lemma upd_then_add: "f(k \<mapsto> v) ++ m = f ++ ([k \<mapsto> v] ++ m)"
  by (rule ext) (simp add: map_add_def split: option.split)

lemma copyWalk_done:
  assumes "copyWalk E src dst items w = (None, w')"
  shows "wr_files w' = wr_files w ++ map_of (rev (map (\<lambda>(s, d). (d, contentOf E s)) (walkPairs src dst items)))"
  using assms
proof (induction E src dst items w rule: copyWalk.induct)
  case (3 E src dst p items w)
  then obtain rel w1 where "path_rel src p = Inr rel" "MkdirAll E (path_join [dst, rel]) w = (None, w1)"
    "copyWalk E src dst items w1 = (None, w')"
    by (auto split: sum.splits prod.splits option.splits)
  moreover have "wr_files w1 = wr_files w" using calculation(2) by (auto simp: MkdirAll_def split: option.splits)
  ultimately show ?case using 3(1) by simp
next
  case (4 E src dst p items w)
  then obtain rel w1 where s: "path_rel src p = Inr rel" "copyFile E p (path_join [dst, rel]) w = (None, w1)"
    "copyWalk E src dst items w1 = (None, w')"
    by (auto split: sum.splits prod.splits option.splits)
  let ?m = "map_of (rev (map (\<lambda>(s, d). (d, contentOf E s)) (walkPairs src dst items)))"
  have "wr_files w' = wr_files w1 ++ ?m" using 4(1)[of rel None w1] s by simp
  moreover have "map_of (rev (map (\<lambda>(s, d). (d, contentOf E s)) (walkPairs src dst (WalkFile p # items)))) =
      [path_join [dst, rel] \<mapsto> contentOf E p] ++ ?m" using s(1) by simp
  ultimately show ?case by (simp only: copyFile_done[OF s(2)] upd_then_add[of "wr_files w"])
qed auto

lemma copyDir_done:
  assumes "copyDir E src dst w = (None, w')"
  shows "wr_files w' = wr_files w ++ map_of (rev (map (\<lambda>(s, d). (d, contentOf E s)) (walkPairs src dst (po_walk E src))))"
proof -
  obtain e w1 where m: "(if wr_exists dst w then (None, w) else MkdirAll E dst w) = (e, w1)" by fastforce
  then have w1: "wr_files w1 = wr_files w" by (auto simp: MkdirAll_def split: option.splits if_splits)
  have "e = None" using assms unfolding copyDir_def m by (cases e) simp_all
  then have w2: "copyWalk E src dst (po_walk E src) w1 = (None, w')" using assms unfolding copyDir_def m by simp
  show ?thesis using copyWalk_done[OF w2] w1 by simp
qed

section \<open>What a package holds\<close>

definition holds_file :: "written \<Rightarrow> string \<Rightarrow> bool" where
  "holds_file w p = (p \<in> dom (wr_files w))"

text \<open>Nothing written is lost.\<close>

definition grows :: "written \<Rightarrow> written \<Rightarrow> bool" where
  "grows w w' \<longleftrightarrow> dom (wr_files w) \<subseteq> dom (wr_files w')"

lemma grows_refl [simp]: "grows w w"
  by (simp add: grows_def)

lemma grows_trans: "grows a b \<Longrightarrow> grows b c \<Longrightarrow> grows a c"
  by (auto simp: grows_def)

lemma grows_holds: "grows w w' \<Longrightarrow> holds_file w p \<Longrightarrow> holds_file w' p"
  by (auto simp: grows_def holds_file_def)

lemma grows_files: "wr_files w' = wr_files w \<Longrightarrow> grows w w'"
  by (simp add: grows_def)

lemma MkdirAll_grows: "MkdirAll E p w = (e, w') \<Longrightarrow> grows w w'"
  by (auto simp: MkdirAll_def grows_def split: option.splits)

lemma copyFile_grows: "copyFile E s d w = (e, w') \<Longrightarrow> grows w w'"
  using copyFile_writes[of E s d w e w'] by (auto simp: grows_def)

lemma copyWalk_grows: "copyWalk E s d items w = (e, w') \<Longrightarrow> grows w w'"
proof (induction E s d items w rule: copyWalk.induct)
  case (3 E src dst p items w)
  show ?case
  proof (cases "path_rel src p")
    case (Inr rel)
    obtain e1 w1 where m: "MkdirAll E (path_join [dst, rel]) w = (e1, w1)" by fastforce
    show ?thesis using 3 MkdirAll_grows[OF m] grows_trans by (cases e1) (auto simp: Inr m)
  qed (use 3 in simp)
next
  case (4 E src dst p items w)
  show ?case
  proof (cases "path_rel src p")
    case (Inr rel)
    obtain e1 w1 where m: "copyFile E p (path_join [dst, rel]) w = (e1, w1)" by fastforce
    show ?thesis using 4 copyFile_grows[OF m] grows_trans by (cases e1) (auto simp: Inr m)
  qed (use 4 in simp)
qed auto

lemma copyDir_grows: "copyDir E s d w = (e, w') \<Longrightarrow> grows w w'"
proof -
  assume run: "copyDir E s d w = (e, w')"
  obtain e1 w1 where m: "(if wr_exists d w then (None, w) else MkdirAll E d w) = (e1, w1)" by fastforce
  then have "grows w w1" by (auto dest: MkdirAll_grows split: if_splits)
  then show ?thesis using run copyWalk_grows grows_trans unfolding copyDir_def m by (cases e1) auto
qed

lemma addFile_grows:
  assumes "kust_addFile E root tmp f w = (e, w')"
  shows "grows w w'"
  using assms by (auto simp: kust_addFile_def MkdirAll_def grows_def Let_def split: option.splits sum.splits if_splits)

lemma addFile_done:
  assumes "kust_addFile E root tmp f w = (None, w')"
  shows "\<exists>rel. path_rel root (path_clean (path_join [root, f])) = Inr rel \<and> wr_exists (path_join [tmp, rel]) w'"
  using assms by (auto simp: kust_addFile_def MkdirAll_def wr_exists_def Let_def split: option.splits sum.splits if_splits)

lemma addFiles_grows: "addFiles E root tmp fs w = (e, w') \<Longrightarrow> grows w w'"
proof (induction fs arbitrary: w)
  case (Cons f fs)
  obtain e1 w1 where m: "kust_addFile E root tmp f w = (e1, w1)" by fastforce
  show ?case using Cons addFile_grows[OF m] grows_trans by (cases e1) (auto simp: m)
qed simp

lemma copyMatch_grows: "copyMatch E root dest s d ig m w = (e, w') \<Longrightarrow> grows w w'"
  by (auto simp: copyMatch_def Let_def dest: copyFile_grows split: sum.splits if_splits prod.splits option.splits)

lemma copyMatches_grows: "copyMatches E root dest s d ig ms w = (e, w') \<Longrightarrow> grows w w'"
proof (induction ms arbitrary: w)
  case (Cons m ms)
  obtain e1 w1 where m: "copyMatch E root dest s d ig m w = (e1, w1)" by fastforce
  show ?case using Cons copyMatch_grows[OF m] grows_trans by (cases e1) (auto simp: m)
qed simp

lemma copyGlob_grows: "copyGlobValueFiles E root dest s d ig v w = (e, w') \<Longrightarrow> grows w w'"
  by (auto simp: copyGlobValueFiles_def dest: copyMatches_grows split: if_splits sum.splits)

text \<open>What an entry of the list of value files becomes.\<close>

definition resolved_entry :: "bool \<Rightarrow> content_source list \<Rightarrow> pack_dirs \<Rightarrow> written \<Rightarrow> string \<Rightarrow> string \<Rightarrow> bool" where
  "resolved_entry ig refs D w v v' \<longleftrightarrow>
    (if has_prefix v ''$'' then
       (case splitRefFromPath v of
          Inl _ \<Rightarrow> False
        | Inr (name, p) \<Rightarrow>
            if refsByName refs name = None then v' = []
            else path_rel (pd_destApp D) (path_join [pd_destDir D, ''.refs'', name, p]) = Inr v' \<and>
              (ig \<or> holds_file w (path_join [pd_destDir D, ''.refs'', name, p])))
     else v' = v)"

lemma resolved_entry_grows: "grows w w' \<Longrightarrow> resolved_entry ig refs D w v v' \<Longrightarrow> resolved_entry ig refs D w' v v'"
  by (auto simp: resolved_entry_def dest: grows_holds split: sum.splits if_splits)

lemma processValueReference_done:
  assumes "processValueReference E G ig v (refsByName refs) r (pd_destDir D) (pd_destApp D) w = (res, w')" and d: "has_prefix v ''$''"
  shows "grows w w' \<and> (\<forall>v'. res = Inr v' \<longrightarrow> resolved_entry ig refs D w' v v')"
proof (cases "splitRefFromPath v")
  case (Inl e)
  then show ?thesis using assms by (auto simp: processValueReference_def)
next
  case (Inr np)
  obtain name p where np: "splitRefFromPath v = Inr (name, p)" using Inr by (cases np) simp
  show ?thesis
  proof (cases "refsByName refs name")
    case None
    then show ?thesis using assms by (auto simp: processValueReference_def np errors_Wrap_def resolved_entry_def)
  next
    case (Some ref)
    let ?repo = "if AreSameRepos (po_parsers E) (src_RepoURL ref) (rp_CloneURL r) then Inr r else G (src_RepoURL ref) (src_TargetRevision ref)"
    let ?dst = "path_join [pd_destDir D, ''.refs'', name, p]"
    show ?thesis
    proof (cases ?repo)
      case (Inl e)
      then show ?thesis using assms by (auto simp: processValueReference_def np Some)
    next
      case repo: (Inr rr)
      obtain e w1 where c: "copyFile E (path_join [rp_Directory rr, p]) ?dst w = (e, w1)" by fastforce
      have g: "grows w w1" using copyFile_grows[OF c] .
      note run = assms(1)[unfolded processValueReference_def np Some sum.case prod.case option.case repo Let_def c]
      show ?thesis
      proof (cases e)
        case None
        have "holds_file w1 ?dst" using copyFile_done[OF c[unfolded None]] by (simp add: holds_file_def)
        then show ?thesis using run g d by (auto simp: None resolved_entry_def np Some split: sum.splits)
      next
        case (Some err)
        then show ?thesis using run g d \<open>refsByName refs name = Some ref\<close>
          by (cases ig) (auto simp: resolved_entry_def np ignoreValuesFileCopyError_def split: sum.splits if_splits os_error.splits)
      qed
    qed
  qed
qed

lemma valueFileStep_done:
  assumes "valueFileStep E G source refs D v w = (res, w')"
  shows "grows w w' \<and> (\<forall>v'. res = Inr v' \<longrightarrow> resolved_entry (cs_IgnoreMissing source) refs D w' v v')"
proof (cases "has_prefix v ''$''")
  case True
  then show ?thesis using assms processValueReference_done[OF _ True] by (simp add: valueFileStep_def)
next
  case False
  then show ?thesis using assms
    by (auto simp: valueFileStep_def resolved_entry_def dest: copyGlob_grows copyFile_grows split: if_splits prod.splits option.splits sum.splits)
qed

lemma valueFilesFrom_done:
  assumes "valueFilesFrom E G source refs D vs w = (err, vs', w')"
  shows "grows w w' \<and> (err = None \<longrightarrow> length vs' = length vs \<and> list_all (\<lambda>(v, v'). resolved_entry (cs_IgnoreMissing source) refs D w' v v') (zip vs vs'))"
  using assms
proof (induction vs arbitrary: w err vs' w')
  case (Cons v vs)
  obtain res w1 where s: "valueFileStep E G source refs D v w = (res, w1)" by fastforce
  note step = valueFileStep_done[OF s]
  show ?case
  proof (cases res)
    case (Inl e)
    then show ?thesis using Cons.prems step by (auto simp: s)
  next
    case (Inr v1)
    obtain e vs1 w2 where r: "valueFilesFrom E G source refs D vs w1 = (e, vs1, w2)" using prod_cases3 by blast
    have eqs: "err = e" "vs' = v1 # vs1" "w' = w2" using Cons.prems by (auto simp: s Inr r Let_def)
    have g: "grows w w'" using step Cons.IH[OF r] grows_trans eqs by blast
    have "resolved_entry (cs_IgnoreMissing source) refs D w' v v1" using resolved_entry_grows step Inr Cons.IH[OF r] eqs by blast
    then show ?thesis using Cons.IH[OF r] g eqs by simp
  qed
qed simp

lemma copyDependencies_grows: "copyDependencies E s d deps w = (e, w') \<Longrightarrow> grows w w'"
proof (induction deps arbitrary: w)
  case (Cons x deps)
  show ?case
  proof (cases "has_prefix (cd_Repository x) ''file://''")
    case True
    obtain e1 w1 where p: "processLocalHelmDependency E s d (cd_Repository x) w = (e1, w1)" by fastforce
    have "grows w w1" using p
      by (auto simp: processLocalHelmDependency_def Let_def dest!: MkdirAll_grows copyDir_grows intro: grows_trans split: prod.splits option.splits)
    then show ?thesis using Cons True grows_trans by (cases e1) (auto simp: p)
  qed (use Cons in simp)
qed simp

lemma chartDependencies_grows: "chartDependencies E D w = (e, w') \<Longrightarrow> grows w w'"
  by (auto simp: chartDependencies_def Let_def dest: copyDependencies_grows split: if_splits sum.splits)

lemma helmFiles_done:
  assumes "helmFiles E G source refs D w = (err, vs', w')"
  shows "grows w w' \<and> (err = None \<longrightarrow> length vs' = length (sourceValueFiles source) \<and>
    list_all (\<lambda>(v, v'). resolved_entry (cs_IgnoreMissing source) refs D w' v v') (zip (sourceValueFiles source) vs'))"
proof (cases "src_Helm source")
  case None
  then show ?thesis using assms by (simp add: helmFiles_def sourceValueFiles_def)
next
  case (Some helm)
  obtain e w1 where c: "chartDependencies E D w = (e, w1)" by fastforce
  note g = chartDependencies_grows[OF c]
  show ?thesis
  proof (cases e)
    case None
    then have "valueFilesFrom E G source refs D (h_ValueFiles helm) w1 = (err, vs', w')" using assms by (simp add: helmFiles_def Some c)
    from valueFilesFrom_done[OF this] show ?thesis using g grows_trans by (auto simp: sourceValueFiles_def Some)
  qed (use assms g in \<open>auto simp: helmFiles_def Some c\<close>)
qed

lemma copyWalk_holds:
  assumes "copyWalk E src dst items w = (None, w')"
  shows "list_all (\<lambda>(s, d). holds_file w' d) (walkPairs src dst items)"
  unfolding holds_file_def copyWalk_done[OF assms]
  by (force simp: list_all_iff dom_map_add dom_map_of_conv_image_fst image_image)

lemma copyDir_holds:
  assumes "copyDir E src dst w = (None, w')"
  shows "list_all (\<lambda>(s, d). holds_file w' d) (walkPairs src dst (po_walk E src))"
proof -
  obtain e w1 where m: "(if wr_exists dst w then (None, w) else MkdirAll E dst w) = (e, w1)" by fastforce
  have "e = None" using assms unfolding copyDir_def m by (cases e) simp_all
  then show ?thesis using assms copyWalk_holds unfolding copyDir_def m by simp
qed

definition dirsOf :: "repo \<Rightarrow> content_source \<Rightarrow> string \<Rightarrow> pack_dirs" where
  "dirsOf r source destDir = \<lparr>pd_repo = r, pd_destDir = destDir, pd_srcApp = path_join [rp_Directory r, src_Path source],
     pd_destApp = path_join [destDir, src_Path source]\<rparr>"

text \<open>A package that is returned is complete: every file found below the source directory has its place in it, and
  the value files are as many as before, each one that refers to another source replaced by the path to its
  copy, which is there unless missing files are ignored, and every other one left as it was.  A reference to a
  source that does not exist becomes an empty entry.\<close>

theorem package_is_complete:
  assumes "packageApp E G source refs r w = Some (Inr destDir, vfs, w')"
  shows "list_all (\<lambda>(s, d). holds_file w' d)
      (walkPairs (path_join [rp_Directory r, src_Path source]) (path_join [destDir, src_Path source]) (po_walk E (path_join [rp_Directory r, src_Path source]))) \<and>
    length vfs = length (sourceValueFiles source) \<and>
    list_all (\<lambda>(v, v'). resolved_entry (cs_IgnoreMissing source) refs (dirsOf r source destDir) w' v v') (zip (sourceValueFiles source) vfs)"
proof -
  let ?D = "dirsOf r source destDir"
  let ?w = "w\<lparr>wr_made := destDir # wr_made w\<rparr>"
  have t: "po_temp E = Inr destDir" and run: "packageSteps E G source refs ?D ?w = Some (None, vfs, w')"
    using assms by (auto simp: packageApp_def dirsOf_def Let_def split: sum.splits option.splits)
  obtain e w1 where c: "copyDir E (pd_srcApp ?D) (pd_destApp ?D) ?w = (e, w1)" by fastforce
  have e: "e = None" using run by (cases e) (simp_all add: packageSteps_def c)
  obtain w2 where k: "kustomizeFiles E source ?D w1 = Some (None, w2)" and h: "helmFiles E G source refs ?D w2 = (None, vfs, w')"
    using run by (auto simp: packageSteps_def c e split: option.splits)
  have "grows w1 w2" using k
    by (auto simp: kustomizeFiles_def Let_def dest: addFiles_grows split: if_splits option.splits sum.splits prod.splits)
  then have g: "grows w1 w'" using helmFiles_done[OF h] grows_trans by blast
  have "list_all (\<lambda>(s, d). holds_file w' d) (walkPairs (pd_srcApp ?D) (pd_destApp ?D) (po_walk E (pd_srcApp ?D)))"
    using copyDir_holds[OF c[unfolded e]] grows_holds[OF g] by (auto simp: list_all_iff)
  then show ?thesis using helmFiles_done[OF h] by (simp add: dirsOf_def)
qed

section \<open>A package\<close>

definition demo_open :: "string \<Rightarrow> os_error + (string \<times> string option)" where
  "demo_open p =
    (if p = ''/r/app/Chart.yaml'' then Inr (''c'', None)
     else if p = ''/r/app/values.yaml'' then Inr (''v'', None)
     else if p = ''/r/env/a.yaml'' then Inr (''a'', None)
     else if p = ''/q/base.yaml'' then Inr (''b'', None)
     else if p = ''/secret/key'' then Inr (''s'', None)
     else Inl (ErrNotExist ''no such file''))"

definition demo_os :: pack_os where
  "demo_os =
    \<lparr>po_open = demo_open,
     po_walk = \<lambda>d. if d = ''/r/app'' then [WalkFile ''/r/app/Chart.yaml'', WalkFile ''/r/app/values.yaml''] else [],
     po_mkdir = \<lambda>_. None, po_create = \<lambda>_. None,
     po_glob = \<lambda>p. Inr (if p = ''/r/env/*.yaml'' then [''/r/env/a.yaml''] else []),
     po_links = Inr, po_cwd = Inr ''/'', po_temp = Inr ''/tmp/p'',
     po_stat = \<lambda>p. p = ''/r/app/Chart.yaml'', po_chart = \<lambda>_. Inr [],
     po_kustFS = \<lambda>_ _. NotExist, po_kustParse = \<lambda>_. None, po_kustFuel = 1, po_kustText = \<lambda>_. [],
     po_parsers = \<lparr>up_http = \<lambda>s. Inr \<lparr>u_Host = [], u_Path = s, u_Query = []\<rparr>, up_git = \<lambda>s. Inr \<lparr>u_Host = [], u_Path = s, u_Query = []\<rparr>\<rparr>\<rparr>"

definition demo_content :: "string list \<Rightarrow> content_source" where
  "demo_content vfs =
    \<lparr>src_RepoURL = ''https://h/r'', src_Path = ''app'', src_TargetRevision = ''main'',
     src_Helm = Some \<lparr>h_FileParameters = [], h_ValueFiles = vfs\<rparr>, cs_Ref = [], cs_Chart = [], cs_IgnoreMissing = False\<rparr>"

definition demo_ref :: content_source where
  "demo_ref = \<lparr>src_RepoURL = ''https://h/q'', src_Path = [], src_TargetRevision = ''main'', src_Helm = None,
     cs_Ref = ''q'', cs_Chart = [], cs_IgnoreMissing = False\<rparr>"

definition demo_checkout :: "string \<Rightarrow> repo" where
  "demo_checkout d = \<lparr>rp_BranchName = ''main'', rp_CloneURL = ''https://h/r'', rp_Directory = d, rp_TempBranch = [], rp_BaseBranchName = []\<rparr>"

definition demo_getter :: repo_getter where
  "demo_getter url branch = (if url = ''https://h/q'' then Inr (demo_checkout ''/q'') else Inl ''not found'')"

definition nothing_written :: written where
  "nothing_written = \<lparr>wr_files = \<lambda>_. None, wr_made = []\<rparr>"

definition pack_vfs :: "string list \<Rightarrow> string list \<times> string option" where
  "pack_vfs vfs =
    (case packageApp demo_os demo_getter (demo_content vfs) [demo_ref] (demo_checkout ''/r'') nothing_written of
       None \<Rightarrow> ([], None)
     | Some (res, vfs', w) \<Rightarrow> (vfs', case res of Inl err \<Rightarrow> Some err | Inr _ \<Rightarrow> None))"

lemma demo_vfs: "pack_vfs [''values.yaml'', ''$q/base.yaml'', ''../env/*.yaml''] = ([''values.yaml'', ''../.refs/q/base.yaml'', ''../env/*.yaml''], None)"
  by code_simp

theorem package_is_complete_witness:
  "\<exists>w'. packageApp demo_os demo_getter (demo_content [''$q/base.yaml'']) [demo_ref] (demo_checkout ''/r'') nothing_written =
      Some (Inr ''/tmp/p'', [''../.refs/q/base.yaml''], w') \<and> holds_file w' ''/tmp/p/app/values.yaml''"
proof -
  let ?p = "packageApp demo_os demo_getter (demo_content [''$q/base.yaml'']) [demo_ref] (demo_checkout ''/r'') nothing_written"
  have "map_option (\<lambda>(res, vfs, w). (res, vfs)) ?p = Some (Inr ''/tmp/p'', [''../.refs/q/base.yaml''])" by code_simp
  then obtain w' where p: "?p = Some (Inr ''/tmp/p'', [''../.refs/q/base.yaml''], w')" unfolding map_option_eq_Some by auto
  have "walkPairs ''/r/app'' ''/tmp/p/app'' (po_walk demo_os ''/r/app'') =
      [(''/r/app/Chart.yaml'', ''/tmp/p/app/Chart.yaml''), (''/r/app/values.yaml'', ''/tmp/p/app/values.yaml'')]" by code_simp
  moreover have "path_join [rp_Directory (demo_checkout ''/r''), src_Path (demo_content [''$q/base.yaml''])] = ''/r/app''"
    "path_join [''/tmp/p'', src_Path (demo_content [''$q/base.yaml''])] = ''/tmp/p/app''" by code_simp+
  ultimately have "holds_file w' ''/tmp/p/app/values.yaml''" using conjunct1[OF package_is_complete[OF p]] by simp
  then show ?thesis using p by blast
qed

theorem glob_copies_are_confined_witness:
  "\<exists>root dest. root = ''/r'' \<and> dest = ''/tmp/p'' \<and> glob_copy demo_os root dest ''/r/env/a.yaml'' ''/tmp/p/env/a.yaml'' (Some ''a'')"
proof -
  let ?run = "copyGlobValueFiles demo_os ''/r'' ''/tmp/p'' ''/r/app'' ''/tmp/p/app'' False ''../env/*.yaml'' nothing_written"
  have os: "absolute_os demo_os" by (simp add: absolute_os_def demo_os_def rooted_def)
  have v: "fst ?run = None" "wr_files (snd ?run) ''/tmp/p/env/a.yaml'' = Some ''a''" by code_simp+
  have g: "po_glob demo_os (path_join [''/r/app'', ''../env/*.yaml'']) = Inr [''/r/env/a.yaml'']"
    "resolveExisting demo_os ''/r'' = Inr ''/r''" "absClean demo_os ''/tmp/p'' = Inr ''/tmp/p''" by code_simp+
  have "wr_files (snd ?run) ''/tmp/p/env/a.yaml'' \<noteq> wr_files nothing_written ''/tmp/p/env/a.yaml''"
    unfolding v by (simp add: nothing_written_def)
  from glob_copies_are_confined[OF os surjective_pairing this]
  show ?thesis unfolding g v by auto
qed

section \<open>Limits of packaging\<close>

text \<open>A reference to a source that the application does not have is meant to be an error; the error wraps nothing,
  so there is none and the entry becomes empty.\<close>

lemma missing_ref_is_silent:
  assumes "splitRefFromPath v = Inr (name, p)" "refs name = None"
  shows "processValueReference E G ig v refs r tmp app w = (Inr [], w)"
  using assms by (simp add: processValueReference_def errors_Wrap_def)

lemma demo_missing_ref: "pack_vfs [''$other/base.yaml''] = ([[]], None)"
  by code_simp

text \<open>A value file that is not a glob is copied from wherever it leads, in and out of the repository.\<close>

definition pack_files :: "string list \<Rightarrow> string \<Rightarrow> string option" where
  "pack_files vfs p =
    (case packageApp demo_os demo_getter (demo_content vfs) [demo_ref] (demo_checkout ''/r'') nothing_written of
       None \<Rightarrow> None | Some (res, vfs', w) \<Rightarrow> wr_files w p)"

lemma plain_value_file_escapes:
  "pack_files [''../../secret/key''] ''/tmp/secret/key'' = Some ''s'' \<and> pack_vfs [''../../secret/key''] = ([''../../secret/key''], None)"
  by code_simp

text \<open>Packaging rewrites the list of the application that the caller keeps.  A second attempt, as after a transient
  error of Argo CD, finds the path into the first package in place of the reference, and fails.\<close>

lemma second_attempt_fails:
  "pack_vfs (fst (pack_vfs [''$q/base.yaml''])) =
    ([''../.refs/q/base.yaml''], Some (''failed to copy file: '' @ go_quote ''../.refs/q/base.yaml'' @ '': no such file''))"
  by code_simp

end
