(* ===== verification/ArgoManifests.thy ===== *)
theory ArgoManifests
  imports ArgoPackage VcsTypes
begin

text \<open>
  \<open>pkg/argo_client/manifests.go\<close>, the requests: which sources of an application are rendered from which revision,
  and the exchange with the repository server of Argo CD.  The services of Argo CD and its settings are a record
  of functions; their values, which the code only passes on, have one opaque type.  A stream is the list of the parts
  that were sent on it.
\<close>

section \<open>Data\<close>

record manifest_app =
  ma_Name :: string
  ma_Namespace :: string
  ma_Project :: string
  ma_DestName :: string
  ma_DestServer :: string
  ma_DestNamespace :: string
  ma_Source :: "content_source option"
  ma_Sources :: "content_source list"

record 'v manifest_request =
  mr_Repo :: "'v + string"
  mr_Revision :: string
  mr_AppName :: string
  mr_Namespace :: string
  mr_Source :: content_source
  mr_Settings :: 'v
  mr_Cluster :: 'v
  mr_Repos :: 'v
  mr_HelmRepoCreds :: 'v
  mr_HelmOptions :: 'v
  mr_EnabledSourceTypes :: 'v
  mr_Project :: 'v
  mr_HasMultipleSources :: bool
  mr_RefSources :: 'v

datatype 'v stream_part = PartRequest "'v manifest_request" | PartMetadata string | PartChunk string

text \<open>A file as successive reads deliver it, and how the reading ends: at the end of the file or with an error.\<close>

record file_reads =
  fr_chunks :: "string list"
  fr_end :: "string option"

record packed_file =
  pf_reads :: file_reads
  pf_checksum :: string

record 'v argo_server =
  av_HasMultiple :: "manifest_app \<Rightarrow> bool"
  av_GetSource :: "manifest_app \<Rightarrow> content_source"
  av_InstanceName :: "manifest_app \<Rightarrow> string \<Rightarrow> string"
  av_clusterClient :: "string option"
  av_cluster :: "string \<Rightarrow> string \<Rightarrow> string + 'v"
  av_settingsClient :: "string option"
  av_settings :: "string + 'v"
  av_controllerNamespace :: "'v \<Rightarrow> string"
  av_projectClient :: "string option"
  av_project :: "string \<Rightarrow> string + 'v"
  av_helmRepos :: "string + 'v"
  av_permittedRepos :: "'v \<Rightarrow> 'v \<Rightarrow> string + 'v"
  av_helmCreds :: "string + 'v"
  av_permittedCreds :: "'v \<Rightarrow> 'v \<Rightarrow> string + 'v"
  av_helmSettings :: "string + 'v"
  av_sourceTypes :: "string + 'v"
  av_refSources :: "content_source list \<Rightarrow> string \<Rightarrow> string + 'v"
  av_repository :: "string \<Rightarrow> string \<Rightarrow> string + 'v"
  av_repoClient :: "string option"
  av_generate :: "'v manifest_request \<Rightarrow> string + string list"
  av_stream :: "string option"
  av_send :: "'v stream_part list \<Rightarrow> 'v stream_part \<Rightarrow> string option"
  av_response :: "'v stream_part list \<Rightarrow> string + string list"

record manifest_config =
  mc_ArgoCDNamespace :: string
  mc_SendFullRepository :: bool
  mc_IncludeDotGit :: bool

text \<open>The archive of a directory, from what has been written and from what was there.\<close>

record 'v manifest_env =
  mv_server :: "'v argo_server"
  mv_os :: pack_os
  mv_cfg :: manifest_config
  mv_compress :: "string \<Rightarrow> string list \<Rightarrow> written \<Rightarrow> string + packed_file"
  mv_ctxErr :: "nat \<Rightarrow> string option"

definition try_then :: "(string + 'a) \<Rightarrow> ('a \<Rightarrow> string + 'b) \<Rightarrow> string + 'b" where
  "try_then r f = (case r of Inl err \<Rightarrow> Inl err | Inr x \<Rightarrow> f x)"

definition err_as :: "string \<Rightarrow> (string + 'a) \<Rightarrow> string + 'a" where
  "err_as what r = (case r of Inl err \<Rightarrow> Inl (wrapError what err) | Inr x \<Rightarrow> Inr x)"

definition none_ok :: "string option \<Rightarrow> string + unit" where
  "none_ok e = (case e of None \<Rightarrow> Inr () | Some err \<Rightarrow> Inl err)"

lemma try_then_Inr: "try_then r f = Inr y \<longleftrightarrow> (\<exists>x. r = Inr x \<and> f x = Inr y)"
  by (auto simp: try_then_def split: sum.splits)

lemma err_as_Inr [simp]: "err_as what r = Inr x \<longleftrightarrow> r = Inr x"
  by (auto simp: err_as_def split: sum.splits)

lemma none_ok_Inr [simp]: "none_ok e = Inr x \<longleftrightarrow> e = None"
  by (auto simp: none_ok_def split: option.splits)

section \<open>Sources\<close>

definition redirectRef :: "url_parsers \<Rightarrow> pull_request \<Rightarrow> content_source \<Rightarrow> content_source" where
  "redirectRef ps pr source =
    (if AreSameRepos ps (src_RepoURL source) (pr_CloneURL pr) \<and> src_TargetRevision source = pr_BaseRef pr
     then source\<lparr>src_TargetRevision := pr_HeadRef pr\<rparr> else source)"

definition preprocessSources ::
  "'v argo_server \<Rightarrow> url_parsers \<Rightarrow> manifest_app \<Rightarrow> pull_request \<Rightarrow> content_source list \<times> content_source list" where
  "preprocessSources S ps app pr =
    (if \<not> av_HasMultiple S app then ([av_GetSource S app], [])
     else (filter (\<lambda>s. cs_Ref s = []) (ma_Sources app), map (redirectRef ps pr) (filter (\<lambda>s. cs_Ref s \<noteq> []) (ma_Sources app))))"

definition isExternalHelmChart :: "content_source \<Rightarrow> bool" where
  "isExternalHelmChart source =
    (if cs_Chart source = [] then False
     else if has_prefix (src_RepoURL source) ''oci://'' then True
     else if has_prefix (src_RepoURL source) ''https://'' \<and> \<not> has_suffix (src_RepoURL source) ''.git'' \<and> src_Path source = [] then True
     else if cs_Chart source \<noteq> [] \<and> \<not> str_contains (src_RepoURL source) ''://'' \<and> \<not> has_suffix (src_RepoURL source) ''.git'' then True
     else False)"

definition manifestInstanceName :: "'v manifest_env \<Rightarrow> manifest_app \<Rightarrow> 'v \<Rightarrow> string" where
  "manifestInstanceName M app settings =
    (let ns = av_controllerNamespace (mv_server M) settings in
     av_InstanceName (mv_server M) app (if ns = [] then mc_ArgoCDNamespace (mv_cfg M) else ns))"

definition areSameTargetRef :: "string \<Rightarrow> string \<Rightarrow> bool" where
  "areSameTargetRef ref1 ref2 = (ref1 = ref2)"

definition repoTarget :: "url_parsers \<Rightarrow> pull_request \<Rightarrow> content_source \<Rightarrow> string" where
  "repoTarget ps pr source =
    (if AreSameRepos ps (src_RepoURL source) (pr_CloneURL pr) \<and> areSameTargetRef (src_TargetRevision source) (pr_BaseRef pr)
     then pr_HeadRef pr else src_TargetRevision source)"

section \<open>Charts of a registry\<close>

definition externalRequest :: "'v manifest_env \<Rightarrow> manifest_app \<Rightarrow> content_source \<Rightarrow> content_source list \<Rightarrow> string + 'v manifest_request" where
  "externalRequest M app source refs =
    (let S = mv_server M in
     try_then (none_ok (av_clusterClient S)) (\<lambda>_.
     try_then (err_as ''failed to get cluster'' (av_cluster S (ma_DestName app) (ma_DestServer app))) (\<lambda>cluster.
     try_then (none_ok (av_settingsClient S)) (\<lambda>_.
     try_then (err_as ''failed to get settings'' (av_settings S)) (\<lambda>settings.
     try_then (err_as ''error listing helm repositories'' (av_helmRepos S)) (\<lambda>helmRepos.
     try_then (err_as ''error getting app project''
       (try_then (err_as ''failed to get project client'' (none_ok (av_projectClient S))) (\<lambda>_. av_project S (ma_Project app)))) (\<lambda>proj.
     try_then (err_as ''error getting permitted helm repos'' (av_permittedRepos S proj helmRepos)) (\<lambda>repos.
     try_then (err_as ''error getting helm repository credentials'' (av_helmCreds S)) (\<lambda>helmCreds.
     try_then (err_as ''error getting permitted repos credentials'' (av_permittedCreds S proj helmCreds)) (\<lambda>creds.
     try_then (err_as ''error getting settings enabled source types'' (av_sourceTypes S)) (\<lambda>types.
     try_then (err_as ''error getting helm settings'' (av_helmSettings S)) (\<lambda>helmOptions.
     try_then (err_as ''failed to get ref sources'' (av_refSources S (source # refs) (ma_Project app))) (\<lambda>refSources.
     Inr \<lparr>mr_Repo = (case av_repository S (src_RepoURL source) (ma_Project app) of Inl err \<Rightarrow> Inr (src_RepoURL source) | Inr r \<Rightarrow> Inl r),
          mr_Revision = src_TargetRevision source, mr_AppName = manifestInstanceName M app settings, mr_Namespace = ma_DestNamespace app,
          mr_Source = source, mr_Settings = settings, mr_Cluster = cluster, mr_Repos = repos, mr_HelmRepoCreds = creds,
          mr_HelmOptions = helmOptions, mr_EnabledSourceTypes = types, mr_Project = proj,
          mr_HasMultipleSources = av_HasMultiple S app, mr_RefSources = refSources\<rparr>)))))))))))))"

definition generateManifestForExternalChart ::
  "'v manifest_env \<Rightarrow> manifest_app \<Rightarrow> content_source \<Rightarrow> content_source list \<Rightarrow> string + string list" where
  "generateManifestForExternalChart M app source refs =
    try_then (externalRequest M app source refs) (\<lambda>q.
    try_then (err_as ''error creating repo client'' (none_ok (av_repoClient (mv_server M)))) (\<lambda>_.
    err_as (''failed to generate manifests for external Helm chart '' @ ma_Name app) (av_generate (mv_server M) q)))"

section \<open>The stream\<close>

text \<open>A read that delivers nothing sends nothing.  The argument counts the rounds of the loop, in each of which the
  context is asked first.\<close>

fun sendChunks ::
  "(nat \<Rightarrow> string option) \<Rightarrow> ('v stream_part list \<Rightarrow> 'v stream_part \<Rightarrow> string option) \<Rightarrow> nat \<Rightarrow> string list \<Rightarrow> string option \<Rightarrow>
    'v stream_part list \<Rightarrow> string option \<times> 'v stream_part list" where
  "sendChunks ctxErr send i [] ending sent =
    (case ctxErr i of
       Some err \<Rightarrow> (Some (wrapError ''client stream context error'' err), sent)
     | None \<Rightarrow> (map_option (wrapError ''buffer reader error'') ending, sent))"
| "sendChunks ctxErr send i (c # cs) ending sent =
    (case ctxErr i of
       Some err \<Rightarrow> (Some (wrapError ''client stream context error'' err), sent)
     | None \<Rightarrow>
         if c = [] then sendChunks ctxErr send (Suc i) cs ending sent
         else (case send sent (PartChunk c) of
                 Some err \<Rightarrow> (Some (wrapError ''error sending stream'' err), sent)
               | None \<Rightarrow> sendChunks ctxErr send (Suc i) cs ending (sent @ [PartChunk c])))"

definition sendFile ::
  "(nat \<Rightarrow> string option) \<Rightarrow> ('v stream_part list \<Rightarrow> 'v stream_part \<Rightarrow> string option) \<Rightarrow> file_reads \<Rightarrow>
    'v stream_part list \<Rightarrow> string option \<times> 'v stream_part list" where
  "sendFile ctxErr send f sent = sendChunks ctxErr send 0 (fr_chunks f) (fr_end f) sent"

definition sendParts :: "'v manifest_env \<Rightarrow> 'v manifest_request \<Rightarrow> packed_file \<Rightarrow> string + string list" where
  "sendParts M q f =
    (let S = mv_server M; metadata = PartMetadata (pf_checksum f) in
     try_then (err_as ''error creating repo client'' (none_ok (av_repoClient S))) (\<lambda>_.
     try_then (err_as ''failed to get manifests with files'' (none_ok (av_stream S))) (\<lambda>_.
     try_then (err_as ''failed to send request'' (none_ok (av_send S [] (PartRequest q)))) (\<lambda>_.
     try_then (err_as ''failed to send metadata'' (none_ok (av_send S [PartRequest q] metadata))) (\<lambda>_.
     (case sendFile (mv_ctxErr M) (av_send S) (pf_reads f) [PartRequest q, metadata] of
        (Some err, sent) \<Rightarrow> Inl (wrapError ''failed to send manifest stream file'' err)
      | (None, sent) \<Rightarrow> err_as ''failed to get response'' (av_response S sent)))))))"

section \<open>Files of a repository\<close>

text \<open>The request; the sources of the application are replaced before it is asked whether it has several.\<close>

definition fileRequest ::
  "'v manifest_env \<Rightarrow> manifest_app \<Rightarrow> content_source \<Rightarrow> content_source list \<Rightarrow> 'v \<Rightarrow> 'v \<Rightarrow> string + 'v manifest_request" where
  "fileRequest M app source refs cluster settings =
    (let S = mv_server M in
     try_then (err_as ''failed to get project client'' (none_ok (av_projectClient S))) (\<lambda>_.
     try_then (err_as ''error getting app project'' (av_project S (ma_Project app))) (\<lambda>proj.
     try_then (err_as ''error listing helm repositories'' (av_helmRepos S)) (\<lambda>helmRepos.
     try_then (err_as ''error retrieving permitted repos'' (av_permittedRepos S proj helmRepos)) (\<lambda>repos.
     try_then (err_as ''error getting helm repository credentials'' (av_helmCreds S)) (\<lambda>helmCreds.
     try_then (err_as ''error getting helm settings'' (av_helmSettings S)) (\<lambda>helmOptions.
     try_then (err_as ''error getting permitted repos credentials'' (av_permittedCreds S proj helmCreds)) (\<lambda>creds.
     try_then (err_as ''error getting settings enabled source types'' (av_sourceTypes S)) (\<lambda>types.
     try_then (err_as ''failed to get ref sources'' (av_refSources S (ma_Sources app) (ma_Project app))) (\<lambda>refSources.
     let app = app\<lparr>ma_Sources := source # refs\<rparr> in
     Inr \<lparr>mr_Repo = Inr (src_RepoURL source), mr_Revision = src_TargetRevision source, mr_AppName = manifestInstanceName M app settings,
          mr_Namespace = ma_DestNamespace app, mr_Source = source, mr_Settings = settings, mr_Cluster = cluster, mr_Repos = repos,
          mr_HelmRepoCreds = creds, mr_HelmOptions = helmOptions, mr_EnabledSourceTypes = types, mr_Project = proj,
          mr_HasMultipleSources = av_HasMultiple S app, mr_RefSources = refSources\<rparr>))))))))))"

definition withValueFiles :: "string list \<Rightarrow> content_source \<Rightarrow> content_source" where
  "withValueFiles vfs source = source\<lparr>src_Helm := map_option (\<lambda>h. h\<lparr>h_ValueFiles := vfs\<rparr>) (src_Helm source)\<rparr>"

text \<open>The archive of a directory, its request and the answer.\<close>

definition submitFiles ::
  "'v manifest_env \<Rightarrow> manifest_app \<Rightarrow> content_source \<Rightarrow> content_source list \<Rightarrow> 'v \<Rightarrow> 'v \<Rightarrow> string \<Rightarrow> written \<Rightarrow> string + string list" where
  "submitFiles M app source refs cluster settings packageDir w =
    try_then (err_as ''failed to compress files''
      (mv_compress M packageDir (if mc_IncludeDotGit (mv_cfg M) then [] else [''.git'']) w)) (\<lambda>f.
    try_then (fileRequest M app source refs cluster settings) (\<lambda>q. sendParts M q f))"

text \<open>The manifests, the value files of the source afterwards, and what has been written.\<close>

definition generateManifests ::
  "'v manifest_env \<Rightarrow> repo_getter \<Rightarrow> manifest_app \<Rightarrow> content_source \<Rightarrow> content_source list \<Rightarrow> pull_request \<Rightarrow> written \<Rightarrow>
    ((string + string list) \<times> string list \<times> written) option" where
  "generateManifests M G app source refs pr w =
    (let S = mv_server M; kept = sourceValueFiles source in
     if isExternalHelmChart source then Some (generateManifestForExternalChart M app source refs, kept, w)
     else (case try_then (none_ok (av_clusterClient S)) (\<lambda>_.
                try_then (err_as ''failed to get cluster'' (av_cluster S (ma_DestName app) (ma_DestServer app))) (\<lambda>cluster.
                try_then (none_ok (av_settingsClient S)) (\<lambda>_.
                try_then (err_as ''failed to get settings'' (av_settings S)) (\<lambda>settings.
                try_then (err_as ''failed to get repo'' (G (src_RepoURL source) (repoTarget (po_parsers (mv_os M)) pr source))) (\<lambda>r.
                Inr (cluster, settings, r)))))) of
        Inl err \<Rightarrow> Some (Inl err, kept, w)
      | Inr (cluster, settings, r) \<Rightarrow>
          if mc_SendFullRepository (mv_cfg M)
          then Some (submitFiles M app source refs cluster settings (rp_Directory r) w, kept, w)
          else (case packageApp (mv_os M) G source refs r w of
              None \<Rightarrow> None
            | Some (Inl err, vfs, w) \<Rightarrow> Some (Inl (wrapError ''failed to package application'' err), vfs, w)
            | Some (Inr packageDir, vfs, w) \<Rightarrow>
                Some (submitFiles M app (withValueFiles vfs source) refs cluster settings packageDir w, vfs, RemoveAll packageDir w))))"

section \<open>All sources\<close>

text \<open>The value files of each source afterwards, next to the manifests of all or the first error.\<close>

fun generateAll ::
  "'v manifest_env \<Rightarrow> repo_getter \<Rightarrow> manifest_app \<Rightarrow> content_source list \<Rightarrow> content_source list \<Rightarrow> pull_request \<Rightarrow> written \<Rightarrow>
    ((string + string list) \<times> string list list \<times> written) option" where
  "generateAll M G app [] refs pr w = Some (Inr [], [], w)"
| "generateAll M G app (source # rest) refs pr w =
    (case generateManifests M G app source refs pr w of
       None \<Rightarrow> None
     | Some (Inl err, vfs, w) \<Rightarrow> Some (Inl (wrapError ''failed to generate manifests'' err), vfs # map sourceValueFiles rest, w)
     | Some (Inr ms, vfs, w) \<Rightarrow>
         (case generateAll M G app rest refs pr w of
            None \<Rightarrow> None
          | Some (Inl err, vfss, w) \<Rightarrow> Some (Inl err, vfs # vfss, w)
          | Some (Inr others, vfss, w) \<Rightarrow> Some (Inr (ms @ others), vfs # vfss, w)))"

definition GetManifests ::
  "'v manifest_env \<Rightarrow> repo_getter \<Rightarrow> manifest_app \<Rightarrow> pull_request \<Rightarrow> written \<Rightarrow> ((string + string list) \<times> string list list \<times> written) option" where
  "GetManifests M G app pr w =
    (case preprocessSources (mv_server M) (po_parsers (mv_os M)) app pr of
       (contentRefs, refs) \<Rightarrow> generateAll M G app contentRefs refs pr w)"

section \<open>What a stream carries\<close>

lemma sendChunks_done:
  assumes "sendChunks ctxErr send i cs ending sent = (None, sent')"
  shows "sent' = sent @ map PartChunk (filter (\<lambda>c. c \<noteq> []) cs) \<and> ending = None"
  using assms
proof (induction cs arbitrary: i sent)
  case Nil
  then show ?case by (cases "ctxErr i") simp_all
next
  case (Cons c cs)
  show ?case
  proof (cases "ctxErr i = None \<and> c \<noteq> []")
    case True
    then have "send sent (PartChunk c) = None" using Cons.prems by (cases "send sent (PartChunk c)") simp_all
    then show ?thesis using Cons.IH[of "Suc i" "sent @ [PartChunk c]"] Cons.prems True by simp
  next
    case False
    then show ?thesis using Cons.IH[of "Suc i" sent] Cons.prems by (cases "ctxErr i") auto
  qed
qed

fun chunkBytes :: "'v stream_part \<Rightarrow> string" where
  "chunkBytes (PartChunk c) = c"
| "chunkBytes _ = []"

lemma chunkBytes_chunks: "concat (map chunkBytes (map PartChunk (filter (\<lambda>c. c \<noteq> []) cs))) = concat cs"
  by (induction cs) auto

text \<open>C24 A file that was sent without an error reached the stream whole: after what was there come chunks only,
  none of them empty, whose bytes in order are the bytes that the file was read as, up to its end.\<close>

theorem sent_file_is_whole:
  fixes sent :: "'v stream_part list"
  assumes "sendFile ctxErr send f sent = (None, sent')"
  shows "\<exists>parts. sent' = sent @ parts \<and> concat (map chunkBytes parts) = concat (fr_chunks f) \<and> fr_end f = None \<and>
    list_all (\<lambda>p. chunkBytes p \<noteq> []) parts"
proof -
  have s: "sent' = sent @ map PartChunk (filter (\<lambda>c. c \<noteq> []) (fr_chunks f))" "fr_end f = None"
    using sendChunks_done assms unfolding sendFile_def by blast+
  have "concat (map chunkBytes (map PartChunk (filter (\<lambda>c. c \<noteq> []) (fr_chunks f)) :: 'v stream_part list)) = concat (fr_chunks f)"
    by (rule chunkBytes_chunks)
  then show ?thesis using s by (auto simp: list_all_iff)
qed

section \<open>Which files Argo CD renders\<close>

definition rendered_from :: "url_parsers \<Rightarrow> pull_request \<Rightarrow> content_source \<Rightarrow> string \<Rightarrow> bool" where
  "rendered_from ps pr source revision \<longleftrightarrow>
    (if AreSameRepos ps (src_RepoURL source) (pr_CloneURL pr) \<and> src_TargetRevision source = pr_BaseRef pr
     then revision = pr_HeadRef pr else revision = src_TargetRevision source)"

lemma sendParts_done:
  fixes M :: "'v manifest_env"
  assumes "sendParts M q f = Inr ms"
  shows "\<exists>parts. av_response (mv_server M) ([PartRequest q, PartMetadata (pf_checksum f)] @ parts) = Inr ms \<and>
    concat (map chunkBytes parts) = concat (fr_chunks (pf_reads f))"
proof -
  obtain err sent where s: "sendFile (mv_ctxErr M) (av_send (mv_server M)) (pf_reads f) [PartRequest q, PartMetadata (pf_checksum f)] = (err, sent)"
    by fastforce
  have "err = None" "av_response (mv_server M) sent = Inr ms"
    using assms by (auto simp: sendParts_def Let_def try_then_Inr s split: option.splits)
  moreover have "sent = [PartRequest q, PartMetadata (pf_checksum f)] @ map PartChunk (filter (\<lambda>c. c \<noteq> []) (fr_chunks (pf_reads f)))"
    using sendChunks_done s calculation(1) unfolding sendFile_def by blast
  moreover have "concat (map chunkBytes (map PartChunk (filter (\<lambda>c. c \<noteq> []) (fr_chunks (pf_reads f))) :: 'v stream_part list)) = concat (fr_chunks (pf_reads f))"
    by (rule chunkBytes_chunks)
  ultimately show ?thesis by metis
qed

lemma fileRequest_done:
  assumes "fileRequest M app source refs cluster settings = Inr q"
  shows "mr_Source q = source \<and> mr_Revision q = src_TargetRevision source \<and> mr_Repo q = Inr (src_RepoURL source) \<and>
    mr_HasMultipleSources q = av_HasMultiple (mv_server M) (app\<lparr>ma_Sources := source # refs\<rparr>)"
  using assms unfolding fileRequest_def Let_def by (auto simp: try_then_Inr)

definition archived :: "'v manifest_env \<Rightarrow> 'v manifest_request \<Rightarrow> string list \<Rightarrow> string \<Rightarrow> written \<Rightarrow> bool" where
  "archived M q ms dir w \<longleftrightarrow>
    (\<exists>f parts. mv_compress M dir (if mc_IncludeDotGit (mv_cfg M) then [] else [''.git'']) w = Inr f \<and>
      av_response (mv_server M) ([PartRequest q, PartMetadata (pf_checksum f)] @ parts) = Inr ms \<and>
      concat (map chunkBytes parts) = concat (fr_chunks (pf_reads f)))"

lemma submitFiles_done:
  assumes "submitFiles M app source refs cluster settings dir w = Inr ms"
  shows "\<exists>q. archived M q ms dir w \<and> mr_Source q = source \<and> mr_Revision q = src_TargetRevision source"
proof -
  obtain f q where s: "mv_compress M dir (if mc_IncludeDotGit (mv_cfg M) then [] else [''.git'']) w = Inr f"
      "fileRequest M app source refs cluster settings = Inr q" "sendParts M q f = Inr ms"
    using assms by (auto simp: submitFiles_def try_then_Inr)
  show ?thesis using s(1) sendParts_done[OF s(3)] fileRequest_done[OF s(2)] unfolding archived_def by blast
qed


text \<open>The manifests of an application are those of its sources in their order, and there are either all or none; the sources
  that only lend their files to others are rendered for nobody, and every one of them that
  follows the base branch of the pull request's repository follows its head instead.\<close>

theorem manifests_of_all_sources:
  assumes run: "GetManifests M G app pr w = Some (Inr ms, vfss, w')" and several: "av_HasMultiple (mv_server M) app"
  shows "\<exists>mss refs. ms = concat mss \<and> length mss = length (filter (\<lambda>s. cs_Ref s = []) (ma_Sources app)) \<and> length vfss = length mss \<and>
    list_all (\<lambda>(source, ms'). \<exists>v vfs v'. generateManifests M G app source refs pr v = Some (Inr ms', vfs, v'))
      (zip (filter (\<lambda>s. cs_Ref s = []) (ma_Sources app)) mss) \<and>
    list_all2 (\<lambda>r s. src_RepoURL r = src_RepoURL s \<and> cs_Ref r = cs_Ref s \<and>
        rendered_from (po_parsers (mv_os M)) pr s (src_TargetRevision r))
      refs (filter (\<lambda>s. cs_Ref s \<noteq> []) (ma_Sources app))"
proof -
  let ?ps = "po_parsers (mv_os M)"
  have all: "\<exists>mss. ms = concat mss \<and> length mss = length sources \<and> length vfss = length mss \<and>
      list_all (\<lambda>(source, ms'). \<exists>v vfs v'. generateManifests M G app source refs pr v = Some (Inr ms', vfs, v')) (zip sources mss)"
    if "generateAll M G app sources refs pr w = Some (Inr ms, vfss, w')" for sources refs w ms vfss
    using that
  proof (induction sources arbitrary: w ms vfss)
    case (Cons source rest)
    then obtain m1 vfs w1 m2 vfss2 where s: "generateManifests M G app source refs pr w = Some (Inr m1, vfs, w1)"
        "generateAll M G app rest refs pr w1 = Some (Inr m2, vfss2, w')" "ms = m1 @ m2" "vfss = vfs # vfss2"
      by (auto split: option.splits sum.splits)
    obtain mss where mss: "m2 = concat mss" "length mss = length rest" "length vfss2 = length mss"
      "list_all (\<lambda>(source, ms'). \<exists>v vfs v'. generateManifests M G app source refs pr v = Some (Inr ms', vfs, v')) (zip rest mss)"
      using Cons.IH[OF s(2)] by blast
    show ?case using s mss by (intro exI[of _ "m1 # mss"]) auto
  qed simp
  let ?refs = "map (redirectRef ?ps pr) (filter (\<lambda>s. cs_Ref s \<noteq> []) (ma_Sources app))"
  have "generateAll M G app (filter (\<lambda>s. cs_Ref s = []) (ma_Sources app)) ?refs pr w = Some (Inr ms, vfss, w')"
    using run several by (simp add: GetManifests_def preprocessSources_def)
  from all[OF this] obtain mss where mss: "ms = concat mss" "length mss = length (filter (\<lambda>s. cs_Ref s = []) (ma_Sources app))" "length vfss = length mss"
    "list_all (\<lambda>(source, ms'). \<exists>v vfs v'. generateManifests M G app source ?refs pr v = Some (Inr ms', vfs, v')) (zip (filter (\<lambda>s. cs_Ref s = []) (ma_Sources app)) mss)"
    by blast
  have "list_all2 (\<lambda>r s. src_RepoURL r = src_RepoURL s \<and> cs_Ref r = cs_Ref s \<and> rendered_from ?ps pr s (src_TargetRevision r))
      ?refs (filter (\<lambda>s. cs_Ref s \<noteq> []) (ma_Sources app))"
    unfolding list_all2_map1 by (rule list.rel_refl) (simp add: redirectRef_def rendered_from_def)
  then show ?thesis using mss by blast
qed

section \<open>An exchange\<close>

definition demo_server :: "nat argo_server" where
  "demo_server =
    \<lparr>av_HasMultiple = \<lambda>a. ma_Sources a \<noteq> [], av_GetSource = \<lambda>a. hd (ma_Sources a), av_InstanceName = \<lambda>a ns. ma_Name a,
     av_clusterClient = None, av_cluster = \<lambda>_ _. Inr 1, av_settingsClient = None, av_settings = Inr 2, av_controllerNamespace = \<lambda>_. [],
     av_projectClient = None, av_project = \<lambda>_. Inr 3, av_helmRepos = Inr 4, av_permittedRepos = \<lambda>_ _. Inr 5, av_helmCreds = Inr 6,
     av_permittedCreds = \<lambda>_ _. Inr 7, av_helmSettings = Inr 8, av_sourceTypes = Inr 9, av_refSources = \<lambda>_ _. Inr 10,
     av_repository = \<lambda>_ _. Inr 11, av_repoClient = None, av_generate = \<lambda>q. Inr [''chart''], av_stream = None,
     av_send = \<lambda>_ _. None, av_response = \<lambda>parts. Inr [concat (map chunkBytes parts)]\<rparr>"

definition demo_menv :: "nat manifest_env" where
  "demo_menv =
    \<lparr>mv_server = demo_server, mv_os = demo_os, mv_cfg = \<lparr>mc_ArgoCDNamespace = ''argocd'', mc_SendFullRepository = False, mc_IncludeDotGit = False\<rparr>,
     mv_compress = \<lambda>dir ex w. Inr \<lparr>pf_reads = \<lparr>fr_chunks = [''tar'', [], ''gz''], fr_end = None\<rparr>, pf_checksum = ''sum''\<rparr>, mv_ctxErr = \<lambda>_. None\<rparr>"

definition demo_manifest_app :: manifest_app where
  "demo_manifest_app =
    \<lparr>ma_Name = ''a'', ma_Namespace = ''argocd'', ma_Project = ''default'', ma_DestName = [], ma_DestServer = ''s'', ma_DestNamespace = ''n'',
     ma_Source = None, ma_Sources = [demo_content [''$q/base.yaml''], demo_ref]\<rparr>"

definition demo_head_pr :: pull_request where
  "demo_head_pr = pr_zero\<lparr>pr_CloneURL := ''https://h/r'', pr_BaseRef := ''main'', pr_HeadRef := ''feature''\<rparr>"

definition demo_heads :: repo_getter where
  "demo_heads url branch =
    (if url = ''https://h/r'' \<and> branch = ''feature'' then Inr (demo_checkout ''/r'')
     else if url = ''https://h/q'' \<and> branch = ''main'' then Inr (demo_checkout ''/q'') else Inl ''not found'')"

theorem sent_file_is_whole_witness:
  "sendFile (\<lambda>_. None) (\<lambda>_ _. None) \<lparr>fr_chunks = [''ab'', [], ''c''], fr_end = None\<rparr> [PartMetadata ''m'' :: nat stream_part] =
      (None, [PartMetadata ''m'', PartChunk ''ab'', PartChunk ''c'']) \<and>
   (\<exists>parts :: nat stream_part list. concat (map chunkBytes parts) = ''abc'')"
proof -
  let ?f = "\<lparr>fr_chunks = [''ab'', [], ''c''], fr_end = None\<rparr>"
  have r: "sendFile (\<lambda>_. None) (\<lambda>_ _. None) ?f [PartMetadata ''m'' :: nat stream_part] = (None, [PartMetadata ''m'', PartChunk ''ab'', PartChunk ''c''])"
    by (simp add: sendFile_def)
  obtain parts :: "nat stream_part list" where "concat (map chunkBytes parts) = concat (fr_chunks ?f)"
    using sent_file_is_whole[OF r] by blast
  then have "concat (map chunkBytes parts) = ''abc''" by simp
  then show ?thesis using r by blast
qed

definition demo_rendering :: "((string + string list) \<times> string list \<times> written) option" where
  "demo_rendering = generateManifests demo_menv demo_heads demo_manifest_app (demo_content [''$q/base.yaml'']) [demo_ref] demo_head_pr nothing_written"


definition demo_manifests :: "((string + string list) \<times> string list list \<times> written) option" where
  "demo_manifests = GetManifests demo_menv demo_heads demo_manifest_app demo_head_pr nothing_written"

theorem manifests_of_all_sources_witness:
  "\<exists>vfss w'. demo_manifests = Some (Inr [''targz''], vfss, w') \<and> length vfss = 1"
proof -
  have "map_option fst demo_manifests = Some (Inr [''targz''])" by code_simp
  then obtain vfss w' where g: "demo_manifests = Some (Inr [''targz''], vfss, w')" unfolding map_option_eq_Some by auto
  have m: "av_HasMultiple (mv_server demo_menv) demo_manifest_app" by code_simp
  have "length (filter (\<lambda>s. cs_Ref s = []) (ma_Sources demo_manifest_app)) = 1" by code_simp
  then have "length vfss = 1" using manifests_of_all_sources[OF g[unfolded demo_manifests_def] m] by auto
  then show ?thesis using g by blast
qed

text \<open>A second rendering of the same application, as after a transient error, finds its value files rewritten.\<close>

definition again :: "string list list \<Rightarrow> manifest_app \<Rightarrow> manifest_app" where
  "again vfss app = app\<lparr>ma_Sources := map (\<lambda>(vfs, s). withValueFiles vfs s) (zip vfss (ma_Sources app)) @ drop (length vfss) (ma_Sources app)\<rparr>"

lemma second_rendering_fails:
  "case demo_manifests of
     Some (Inr ms, vfss, w) \<Rightarrow>
       (case GetManifests demo_menv demo_heads (again vfss demo_manifest_app) demo_head_pr nothing_written of
          Some (Inl err, _) \<Rightarrow> True | _ \<Rightarrow> False)
   | _ \<Rightarrow> False"
  by code_simp

end
