(* ===== verification/HookPhases.thy ===== *)
theory HookPhases
  imports CheckRunner GoText "HOL-Library.AList"
begin

text \<open>
  \<open>pkg/checks/hooks\<close>: which hooks of an application run in which phase and wave of a sync, and the report on
  them.  The JSON and YAML codecs and the reader of comma-separated annotations are arguments; a Go map with
  ordered reads is an association list without duplicate keys.
\<close>

section \<open>Data\<close>

record hook_object =
  ho_ApiVersion :: string
  ho_Kind :: string
  ho_Namespace :: string
  ho_Name :: string
  ho_Annotation :: "string \<Rightarrow> string"
  ho_CSVs :: "string \<Rightarrow> string list"

type_synonym sync_waves = "(int \<times> hook_object list) list"
type_synonym grouped_waves = "string \<Rightarrow> sync_waves option"

definition sortedPhases :: "string list" where
  "sortedPhases = [''PreSync'', ''Sync'', ''PostSync'', ''SyncFail'', ''PostDelete'']"

section \<open>Grouping\<close>

definition addResource :: "string \<Rightarrow> int \<Rightarrow> hook_object \<Rightarrow> grouped_waves \<Rightarrow> grouped_waves" where
  "addResource phase wave r g =
    (let syncWaves = (case g phase of None \<Rightarrow> [] | Some ws \<Rightarrow> ws);
         phaseResources = (case map_of syncWaves wave of None \<Rightarrow> [] | Some rs \<Rightarrow> rs)
     in g(phase \<mapsto> AList.update wave (phaseResources @ [r]) syncWaves))"

definition getSortedPhasesAndWaves :: "grouped_waves \<Rightarrow> (string \<times> sync_waves) list" where
  "getSortedPhasesAndWaves g =
    concat (map (\<lambda>phase.
      case g phase of
        None \<Rightarrow> []
      | Some waves \<Rightarrow>
          [(phase, map (\<lambda>wave. (wave, case map_of waves wave of None \<Rightarrow> [] | Some rs \<Rightarrow> rs)) (sort (map fst waves)))]) sortedPhases)"

text \<open>\<open>strconv.ParseInt\<close> in base 10 for 32 bits.\<close>

definition decimal :: "string \<Rightarrow> bool" where
  "decimal s = (s \<noteq> [] \<and> list_all (\<lambda>c. 48 \<le> (of_char c :: nat) \<and> (of_char c :: nat) \<le> 57) s)"

definition digitsValue :: "string \<Rightarrow> int" where
  "digitsValue s = foldl (\<lambda>v c. 10 * v + (of_char c - 48)) 0 s"

definition ParseInt32 :: "string \<Rightarrow> string + int" where
  "ParseInt32 s =
    (let neg = has_prefix s ''-''; t = (if neg \<or> has_prefix s ''+'' then tl s else s);
         fails = (\<lambda>why. ''strconv.ParseInt: parsing '' @ go_quote s @ '': '' @ why);
         v = (if neg then - digitsValue t else digitsValue t)
     in if \<not> decimal t then Inl (fails ''invalid syntax'')
        else if v < - (2 ^ 31) \<or> 2 ^ 31 \<le> v then Inl (fails ''value out of range'')
        else Inr v)"

definition helmHookToArgocdPhase :: "string \<Rightarrow> string option" where
  "helmHookToArgocdPhase = map_of
    [(''crd-install'', ''PreSync''), (''pre-install'', ''PreSync''), (''pre-upgrade'', ''PreSync''),
     (''post-upgrade'', ''PostSync''), (''post-install'', ''PostSync''), (''post-delete'', ''PostDelete'')]"

definition hookTypes :: "hook_object \<Rightarrow> string list" where
  "hookTypes obj =
    (let types = remdups (ho_CSVs obj ''argocd.argoproj.io/hook'') in
     if types = [] then remdups (List.map_filter helmHookToArgocdPhase (ho_CSVs obj ''helm.sh/hook'')) else types)"

definition phasesAndWaves :: "hook_object \<Rightarrow> string + (string \<times> int) list" where
  "phasesAndWaves obj =
    (let own = ho_Annotation obj ''argocd.argoproj.io/sync-wave'';
         syncWaveStr = (if own = [] then ho_Annotation obj ''helm.sh/hook-weight'' else own)
     in case (if syncWaveStr \<noteq> [] then ParseInt32 syncWaveStr else Inr 0) of
          Inl err \<Rightarrow> Inl (''failed to parse sync wave '' @ syncWaveStr @ '': '' @ err)
        | Inr syncWave \<Rightarrow> Inr (map (\<lambda>t. (t, syncWave)) (hookTypes obj)))"

definition addInfos :: "(string \<times> int) list \<Rightarrow> hook_object \<Rightarrow> grouped_waves \<Rightarrow> grouped_waves" where
  "addInfos infos obj g = fold (\<lambda>(t, w). addResource t w obj) infos g"

fun groupManifests :: "(string \<Rightarrow> string + hook_object) \<Rightarrow> string list \<Rightarrow> grouped_waves \<Rightarrow> string + grouped_waves" where
  "groupManifests parse [] g = Inr g"
| "groupManifests parse (manifest # rest) g =
    (case parse manifest of
       Inl err \<Rightarrow> Inl (''failed to parse manifest: '' @ err)
     | Inr obj \<Rightarrow>
         (case phasesAndWaves obj of
            Inl err \<Rightarrow> Inl (''failed to get phases and waves: '' @ err)
          | Inr infos \<Rightarrow> groupManifests parse rest (addInfos infos obj g)))"

section \<open>The report\<close>

definition hook_plural :: "'a list \<Rightarrow> string \<Rightarrow> string \<Rightarrow> string" where
  "hook_plural items one many = itoa (length items) @ '' '' @ (if length items = 1 then one else many)"

definition hook_code :: "string \<Rightarrow> string \<Rightarrow> string" where
  "hook_code lang content = ''```'' @ lang @ [nl] @ content @ [nl] @ ''```''"

definition collapsible :: "string \<Rightarrow> string \<Rightarrow> string" where
  "collapsible summary details =
    ''<details>'' @ [nl] @ ''<summary>'' @ summary @ ''</summary>'' @ [nl, nl] @ details @ [nl] @ ''</details>''"

definition show_int :: "int \<Rightarrow> string" where
  "show_int n = (if n < 0 then CHR ''-'' # itoa (nat (- n)) else itoa (nat n))"

fun hookResources :: "(hook_object \<Rightarrow> string + string) \<Rightarrow> hook_object list \<Rightarrow> string + string list" where
  "hookResources render [] = Inr []"
| "hookResources render (r # rs) =
    (case render r of
       Inl err \<Rightarrow> Inl (''failed to unmarshal yaml: '' @ err)
     | Inr data \<Rightarrow>
         (case hookResources render rs of
            Inl err \<Rightarrow> Inl err
          | Inr others \<Rightarrow>
              Inr (collapsible (ho_ApiVersion r @ ''/'' @ ho_Kind r @ '' '' @ ho_Namespace r @ ''/'' @ ho_Name r)
                     (hook_code ''yaml'' (trim_space data)) # others)))"

fun waveSections :: "(hook_object \<Rightarrow> string + string) \<Rightarrow> sync_waves \<Rightarrow> string + string list" where
  "waveSections render [] = Inr []"
| "waveSections render ((wave, rs) # ws) =
    (case hookResources render rs of
       Inl err \<Rightarrow> Inl err
     | Inr resources \<Rightarrow>
         (case waveSections render ws of
            Inl err \<Rightarrow> Inl err
          | Inr others \<Rightarrow>
              Inr (collapsible (''Wave '' @ show_int wave @ '' ('' @ hook_plural resources ''resource'' ''resources'' @ '')'')
                     (str_join [nl, nl] resources) # others)))"

fun phaseSections :: "(hook_object \<Rightarrow> string + string) \<Rightarrow> (string \<times> sync_waves) list \<Rightarrow> string + string list" where
  "phaseSections render [] = Inr []"
| "phaseSections render ((phase, ws) # ps) =
    (case waveSections render ws of
       Inl err \<Rightarrow> Inl err
     | Inr waveDetails \<Rightarrow>
         (case phaseSections render ps of
            Inl err \<Rightarrow> Inl err
          | Inr others \<Rightarrow>
              Inr (collapsible (phase @ '' phase ('' @ hook_plural waveDetails ''wave'' ''waves'' @ '')'')
                     (str_join [nl, nl] waveDetails) # others)))"

definition hooks_Check ::
  "(string \<Rightarrow> string + hook_object) \<Rightarrow> (hook_object \<Rightarrow> string + string) \<Rightarrow> string list \<Rightarrow> string + result" where
  "hooks_Check parse render manifests =
    (case groupManifests parse manifests (\<lambda>_. None) of
       Inl err \<Rightarrow> Inl err
     | Inr grouped \<Rightarrow>
         let results = getSortedPhasesAndWaves grouped in
         (case phaseSections render results of
            Inl err \<Rightarrow> Inl err
          | Inr phaseDetails \<Rightarrow>
              let phaseNames = remdups (map fst results) in
              if phaseNames = [] then Inr (plain_result StateSkip [] [])
              else Inr (plain_result StateNone (''<b>Sync Phases: '' @ str_join '', '' phaseNames @ ''</b>'') (str_join [nl, nl] phaseDetails))))"

section \<open>What grouping keeps\<close>

text \<open>A grouping stands for a function from phases and waves to the resources added there, in their order.\<close>

definition stands_at :: "sync_waves option \<Rightarrow> (int \<Rightarrow> hook_object list) \<Rightarrow> bool" where
  "stands_at waves h \<longleftrightarrow>
    (case waves of
       None \<Rightarrow> \<forall>w. h w = []
     | Some ws \<Rightarrow> distinct (map fst ws) \<and> (\<exists>w. h w \<noteq> []) \<and> (\<forall>w. map_of ws w = (if h w = [] then None else Some (h w))))"

definition stands_for :: "grouped_waves \<Rightarrow> (string \<Rightarrow> int \<Rightarrow> hook_object list) \<Rightarrow> bool" where
  "stands_for g f \<longleftrightarrow> (\<forall>p. stands_at (g p) (f p))"

lemma stands_at_get: "stands_at waves h \<Longrightarrow>
    (case map_of (case waves of None \<Rightarrow> [] | Some ws \<Rightarrow> ws) w of None \<Rightarrow> [] | Some rs \<Rightarrow> rs) = h w"
  by (auto simp: stands_at_def split: option.splits)

lemma stands_at_update:
  assumes "stands_at waves h" "rs \<noteq> []"
  shows "stands_at (Some (AList.update w rs (case waves of None \<Rightarrow> [] | Some ws \<Rightarrow> ws))) (h(w := rs))"
proof -
  let ?ws = "case waves of None \<Rightarrow> [] | Some ws \<Rightarrow> ws"
  have ws: "distinct (map fst ?ws)" "map_of ?ws v = (if h v = [] then None else Some (h v))" for v
    using assms(1) by (auto simp: stands_at_def split: option.splits)
  have new: "distinct (map fst (AList.update w rs ?ws))" using ws(1) by (rule distinct_update)
  have "map_of (AList.update w rs ?ws) v = (if (h(w := rs)) v = [] then None else Some ((h(w := rs)) v))" for v
    using ws(2)[of v] assms(2) by (simp add: update_conv)
  moreover have "\<exists>v. (h(w := rs)) v \<noteq> []" using assms(2) by (intro exI[of _ w]) simp
  ultimately show ?thesis using new unfolding stands_at_def by simp
qed

lemma stands_for_add:
  assumes "stands_for g f"
  shows "stands_for (addResource p w r g) (f(p := (f p)(w := f p w @ [r])))"
proof -
  have p: "stands_at (g p) (f p)" using assms by (simp add: stands_for_def)
  have g: "addResource p w r g = g(p \<mapsto> AList.update w (f p w @ [r]) (case g p of None \<Rightarrow> [] | Some ws \<Rightarrow> ws))"
    using stands_at_get[OF p, of w] by (simp add: addResource_def Let_def)
  show ?thesis using assms stands_at_update[OF p, of "f p w @ [r]" w] unfolding g stands_for_def by simp
qed

lemma stands_for_infos:
  assumes "stands_for g f" "distinct infos"
  shows "stands_for (addInfos infos r g) (\<lambda>p w. f p w @ (if (p, w) \<in> set infos then [r] else []))"
  using assms
proof (induction infos arbitrary: g f)
  case (Cons i infos)
  obtain t v where i: "i = (t, v)" by (cases i)
  let ?f = "f(t := (f t)(v := f t v @ [r]))"
  have "stands_for (addInfos infos r (addResource t v r g)) (\<lambda>p w. ?f p w @ (if (p, w) \<in> set infos then [r] else []))"
    using Cons.IH[OF stands_for_add[OF Cons.prems(1)]] Cons.prems(2) by simp
  moreover have "(\<lambda>p w. ?f p w @ (if (p, w) \<in> set infos then [r] else [])) = (\<lambda>p w. f p w @ (if (p, w) \<in> set (i # infos) then [r] else []))"
    using Cons.prems(2) i by (intro ext) (auto simp: fun_upd_def)
  ultimately show ?case by (simp add: addInfos_def i)
qed (simp add: addInfos_def)

definition hook_at :: "string \<Rightarrow> int \<Rightarrow> hook_object \<Rightarrow> bool" where
  "hook_at p w r = (case phasesAndWaves r of Inl _ \<Rightarrow> False | Inr infos \<Rightarrow> (p, w) \<in> set infos)"

lemma hookTypes_distinct: "distinct (hookTypes r)"
  by (simp add: hookTypes_def Let_def)

lemma infos_distinct:
  assumes "phasesAndWaves r = Inr infos"
  shows "distinct infos"
proof -
  obtain v where "infos = map (\<lambda>t. (t, v)) (hookTypes r)"
    using assms by (auto simp: phasesAndWaves_def Let_def split: if_splits sum.splits)
  then show ?thesis using hookTypes_distinct[of r] by (simp add: distinct_map inj_on_def)
qed

lemma groupManifests_stands_for:
  assumes "groupManifests parse manifests g = Inr g'" "stands_for g f"
  shows "\<exists>objs. map parse manifests = map Inr objs \<and> stands_for g' (\<lambda>p w. f p w @ filter (hook_at p w) objs)"
  using assms
proof (induction manifests arbitrary: g f)
  case (Cons m ms)
  obtain r infos where r: "parse m = Inr r" "phasesAndWaves r = Inr infos" "groupManifests parse ms (addInfos infos r g) = Inr g'"
    using Cons.prems(1) by (auto split: sum.splits)
  obtain objs where objs: "map parse ms = map Inr objs"
      "stands_for g' (\<lambda>p w. (f p w @ (if (p, w) \<in> set infos then [r] else [])) @ filter (hook_at p w) objs)"
    using Cons.IH[OF r(3) stands_for_infos[OF Cons.prems(2) infos_distinct[OF r(2)]]] by blast
  have "(\<lambda>p w. (f p w @ (if (p, w) \<in> set infos then [r] else [])) @ filter (hook_at p w) objs) =
      (\<lambda>p w. f p w @ filter (hook_at p w) (r # objs))"
    by (intro ext) (simp add: hook_at_def[of _ _ r] r(2))
  then show ?case using objs r(1) by (intro exI[of _ "r # objs"]) simp
qed (auto intro: exI[of _ "[]"])

text \<open>The report on a function of phases and waves, without the maps.\<close>

definition phase_table :: "(string \<Rightarrow> int \<Rightarrow> hook_object list) \<Rightarrow> (string \<times> sync_waves) list" where
  "phase_table f =
    map (\<lambda>p. (p, map (\<lambda>w. (w, f p w)) (sorted_list_of_set {w. f p w \<noteq> []}))) (filter (\<lambda>p. \<exists>w. f p w \<noteq> []) sortedPhases)"

lemma sorted_of_grouping:
  assumes "stands_for g f"
  shows "getSortedPhasesAndWaves g = phase_table f"
proof -
  have one: "(case g p of None \<Rightarrow> [] | Some waves \<Rightarrow>
        [(p, map (\<lambda>wave. (wave, case map_of waves wave of None \<Rightarrow> [] | Some rs \<Rightarrow> rs)) (sort (map fst waves)))]) =
      (if \<exists>w. f p w \<noteq> [] then [(p, map (\<lambda>w. (w, f p w)) (sorted_list_of_set {w. f p w \<noteq> []}))] else [])" for p
  proof -
   have p: "stands_at (g p) (f p)" using assms by (simp add: stands_for_def)
   show ?thesis
   proof (cases "g p")
    case None
    then have "\<forall>w. f p w = []" using p by (simp add: stands_at_def)
    then show ?thesis using None by simp
  next
    case (Some ws)
    then have ws: "distinct (map fst ws)" "\<exists>w. f p w \<noteq> []" "\<And>w. map_of ws w = (if f p w = [] then None else Some (f p w))"
      using p by (simp_all add: stands_at_def)
    have "set (map fst ws) = {w. f p w \<noteq> []}" using ws(3) by (auto simp: map_of_eq_None_iff[symmetric] simp flip: dom_map_of_conv_image_fst)
    then have "sort (map fst ws) = sorted_list_of_set {w. f p w \<noteq> []}"
      using sorted_list_of_set_sort_remdups[of "map fst ws"] distinct_remdups_id[OF ws(1)] by simp
    moreover have "(case map_of ws w of None \<Rightarrow> [] | Some rs \<Rightarrow> rs) = f p w" for w by (simp add: ws(3))
    ultimately show ?thesis using Some ws(2) by simp
   qed
  qed
  have "concat (map (\<lambda>p. if P p then [h p] else []) ps) = map h (filter P ps)" for P and h :: "string \<Rightarrow> string \<times> sync_waves" and ps
    by (induction ps) auto
  then show ?thesis unfolding getSortedPhasesAndWaves_def one phase_table_def by simp
qed

text \<open>C25 The table of hooks that the report shows is the reference table: the phases in the order of a sync, in each the
  waves in ascending order, each once, and in each wave exactly the resources that ask for this phase and wave,
  in the order of the manifests; a wave always fits 32 bits.\<close>

theorem hooks_are_grouped:
  assumes "groupManifests parse manifests (\<lambda>_. None) = Inr g"
  shows "\<exists>objs. map parse manifests = map Inr objs \<and> getSortedPhasesAndWaves g = phase_table (\<lambda>p w. filter (hook_at p w) objs)"
proof -
  have "stands_for (\<lambda>_. None) (\<lambda>_ _. [])" by (simp add: stands_for_def stands_at_def)
  from groupManifests_stands_for[OF assms this] show ?thesis using sorted_of_grouping by auto
qed

lemma wave_fits:
  assumes "hook_at p w r"
  shows "- (2 ^ 31) \<le> w \<and> w < 2 ^ 31"
  using assms by (auto simp: hook_at_def phasesAndWaves_def ParseInt32_def Let_def split: if_splits sum.splits)

definition demo_hook :: "string \<Rightarrow> string \<Rightarrow> string \<Rightarrow> hook_object" where
  "demo_hook name phase wave =
    \<lparr>ho_ApiVersion = ''batch/v1'', ho_Kind = ''Job'', ho_Namespace = ''n'', ho_Name = name,
     ho_Annotation = (\<lambda>k. if k = ''argocd.argoproj.io/sync-wave'' then wave else []),
     ho_CSVs = (\<lambda>k. if k = ''argocd.argoproj.io/hook'' then [phase] else [])\<rparr>"

definition demo_parse_hook :: "string \<Rightarrow> string + hook_object" where
  "demo_parse_hook s =
    (if s = ''a'' then Inr (demo_hook ''a'' ''PostSync'' ''5'') else if s = ''b'' then Inr (demo_hook ''b'' ''PreSync'' ''-1'')
     else if s = ''c'' then Inr (demo_hook ''c'' ''PostSync'' ''-2'') else if s = ''s'' then Inr (demo_hook ''s'' ''Skip'' []) else Inl ''bad'')"

definition demo_grouped :: "string + grouped_waves" where
  "demo_grouped = groupManifests demo_parse_hook [''a'', ''b'', ''c''] (\<lambda>_. None)"

definition demo_table :: "(string \<times> (int \<times> string list) list) list" where
  "demo_table = (case demo_grouped of Inl _ \<Rightarrow> []
    | Inr g \<Rightarrow> map (\<lambda>(p, ws). (p, map (\<lambda>(w, rs). (w, map ho_Name rs)) ws)) (getSortedPhasesAndWaves g))"

theorem hooks_are_grouped_witness:
  "demo_table = [(''PreSync'', [(-1, [''b''])]), (''PostSync'', [(-2, [''c'']), (5, [''a''])])] \<and>
   (\<exists>g f. demo_grouped = Inr g \<and> getSortedPhasesAndWaves g = phase_table f)"
proof -
  have t: "demo_table = [(''PreSync'', [(-1, [''b''])]), (''PostSync'', [(-2, [''c'']), (5, [''a''])])]" by code_simp
  have "\<not> isl demo_grouped" by code_simp
  then obtain g where g: "demo_grouped = Inr g" by (metis sum.collapse(2))
  then show ?thesis using t hooks_are_grouped[OF g[unfolded demo_grouped_def]] by blast
qed

text \<open>A hook of a phase that is not in the list is grouped and never shown.\<close>

lemma unlisted_phase_is_hidden:
  "map_sum id (\<lambda>r. res_State r = StateSkip) (hooks_Check demo_parse_hook (\<lambda>r. Inr (ho_Name r)) [''s'']) = Inr True"
  by code_simp

end
