(* ===== verification/Conftest.thy ===== *)
theory Conftest
  imports CheckRunner GoText GoPaths
begin

text \<open>
  \<open>pkg/checks/rego/check.go\<close> and \<open>pkg/checks/preupgrade\<close>: the policies of conftest and the deprecations of kubepug.  Both
  tools read manifests from files, so each check writes them to a temporary directory first.  The
  YAML parser, the two tools, the table writer and the version parser are arguments; the files that were written
  are a map.
\<close>

section \<open>Files\<close>

text \<open>Of a manifest: its kind, and the name and namespace of its metadata, where they are strings.\<close>

record manifest_head =
  mh_kind :: "string option"
  mh_metadata :: "(string option \<times> string option) option"

definition getFilenameFromRawManifest :: "(string \<Rightarrow> string + manifest_head) \<Rightarrow> string \<Rightarrow> string + string" where
  "getFilenameFromRawManifest parse manifest =
    (case parse manifest of
       Inl err \<Rightarrow> Inl (''failed to unmarshal resource: '' @ err)
     | Inr h \<Rightarrow>
         (case mh_kind h of
            None \<Rightarrow> Inl ''resource does not have kind''
          | Some kind \<Rightarrow>
              (case mh_metadata h of
                 None \<Rightarrow> Inl ''resource does not have metadata''
               | Some (None, _) \<Rightarrow> Inl ''resource does not have name''
               | Some (Some name, None) \<Rightarrow> Inr (''kind='' @ kind @ '',name='' @ name @ ''.yaml'')
               | Some (Some name, Some namespace) \<Rightarrow>
                   Inr (''namespace='' @ namespace @ '',kind='' @ kind @ '',name='' @ name @ ''.yaml''))))"

fun dumpFrom ::
  "(string \<Rightarrow> string + manifest_head) \<Rightarrow> (string \<Rightarrow> string option) \<Rightarrow> string \<Rightarrow> string list \<Rightarrow> (string \<Rightarrow> string option) \<Rightarrow>
    string option \<times> (string \<Rightarrow> string option)" where
  "dumpFrom parse writeErr dir [] files = (None, files)"
| "dumpFrom parse writeErr dir (m # ms) files =
    (case getFilenameFromRawManifest parse m of
       Inl err \<Rightarrow> (Some (''failed to get filename from manifest: '' @ err), files)
     | Inr filename \<Rightarrow>
         let fullPath = path_join [dir, filename] in
         (case writeErr fullPath of
            Some err \<Rightarrow> (Some (''failed to write '' @ filename @ '': '' @ err), files)
          | None \<Rightarrow> dumpFrom parse writeErr dir ms (files(fullPath \<mapsto> m))))"

text \<open>The directory, which the caller removes, the error and the files.\<close>

definition dumpFiles ::
  "(string \<Rightarrow> string + manifest_head) \<Rightarrow> (string \<Rightarrow> string option) \<Rightarrow> string + string \<Rightarrow> string list \<Rightarrow>
    string \<times> string option \<times> (string \<Rightarrow> string option)" where
  "dumpFiles parse writeErr tmp manifests =
    (case tmp of
       Inl err \<Rightarrow> ([], Some (''failed to create temp dir: '' @ err), \<lambda>_. None)
     | Inr dir \<Rightarrow> (dir, dumpFrom parse writeErr dir manifests (\<lambda>_. None)))"

section \<open>Policies\<close>

record policy_finding =
  pl_Message :: string
  pl_Passed :: bool

record policy_result =
  po_FileName :: string
  po_Exceptions :: "policy_finding list"
  po_Warnings :: "policy_finding list"
  po_Skipped :: "policy_finding list"
  po_Failures :: "policy_finding list"

record policy_env =
  pv_parse :: "string \<Rightarrow> string + manifest_head"
  pv_writeErr :: "string \<Rightarrow> string option"
  pv_tmp :: "string + string"
  pv_run :: "string list \<Rightarrow> bool \<Rightarrow> (string \<Rightarrow> string option) \<Rightarrow> string \<Rightarrow> string + policy_result list"
  pv_addRows :: "string list list \<Rightarrow> string option"
  pv_render :: "string list list \<Rightarrow> string + string"
  pv_emoji :: "commit_state \<Rightarrow> string"

definition NewChecker :: "string list \<Rightarrow> string + string list" where
  "NewChecker locations = (if locations = [] then Inl ''no policy locations configured'' else Inr locations)"

definition file_code :: "string \<Rightarrow> string" where
  "file_code s = ''`'' @ s @ ''`''"

definition policyRows :: "(commit_state \<Rightarrow> string) \<Rightarrow> policy_result \<Rightarrow> string list list" where
  "policyRows emoji r =
    map (\<lambda>f. [emoji StateError, file_code (po_FileName r), pl_Message f]) (po_Exceptions r) @
    map (\<lambda>f. [emoji StateWarning, file_code (po_FileName r), pl_Message f]) (po_Warnings r) @
    map (\<lambda>f. ['' :arrow_right:  '', file_code (po_FileName r), pl_Message f]) (po_Skipped r) @
    map (\<lambda>f. [emoji StateFailure, file_code (po_FileName r), pl_Message f]) (po_Failures r)"

definition formatConftestResults :: "policy_env \<Rightarrow> policy_result list \<Rightarrow> string + string" where
  "formatConftestResults E results =
    (let tableData = concat (map (policyRows (pv_emoji E)) results) in
     if tableData = [] then Inr []
     else (case pv_addRows E tableData of
         Some err \<Rightarrow> Inl (''failed to add rows to table: '' @ err)
       | None \<Rightarrow>
           (case pv_render E tableData of
              Inl err \<Rightarrow> Inl (''failed to render table: '' @ err)
            | Inr text \<Rightarrow> Inr text)))"

definition policyState :: "policy_result list \<Rightarrow> commit_state" where
  "policyState results =
    (if list_ex (\<lambda>r. list_ex (\<lambda>f. \<not> pl_Passed f) (po_Failures r)) results then StateFailure
     else if list_ex (\<lambda>r. list_ex (\<lambda>f. \<not> pl_Passed f) (po_Warnings r)) results then StateWarning
     else StateSuccess)"

definition removeAllOf :: "string \<Rightarrow> string \<Rightarrow> string" where
  "removeAllOf sep s = concat (str_split sep s)"

definition policy_Check :: "policy_env \<Rightarrow> string list \<Rightarrow> bool \<Rightarrow> string list \<Rightarrow> string + result" where
  "policy_Check E locations showDebug manifests =
    (if manifests = []
     then Inr \<lparr>res_State = StateNone, res_Summary = ''No manifests to validate'', res_Details = [], res_NoChangesDetected = True, res_Sticky = False\<rparr>
     else (case dumpFiles (pv_parse E) (pv_writeErr E) (pv_tmp E) manifests of
         (dir, Some err, files) \<Rightarrow> Inl (''failed to write manifests to disk: '' @ err)
       | (dir, None, files) \<Rightarrow>
           (case pv_run E locations showDebug files dir of
              Inl err \<Rightarrow> Inl err
            | Inr results \<Rightarrow>
                (case formatConftestResults E results of
                   Inl err \<Rightarrow> Inl (''failed to format conftest results: '' @ err)
                 | Inr text \<Rightarrow>
                     let shown = removeAllOf (dir @ ''/'') text in
                     Inr (plain_result (policyState results) ''<b>Show Conftest Validation result</b>''
                            (if trim_space shown = [] then ''Passed all policy checks.'' else shown))))))"

section \<open>Deprecations\<close>

record deprecation =
  dp_Group :: string
  dp_Version :: string
  dp_Kind :: string
  dp_Items :: "string list"

record deprecations =
  ds_Deprecated :: "deprecation list"
  ds_Deleted :: "deprecation list"

text \<open>A parsed version: its text and its major and minor number.\<close>

record k8s_version =
  kv_text :: string
  kv_Major :: nat
  kv_Minor :: nat

record pug_env =
  pg_tmp :: "string + string"
  pg_writeErr :: "string \<Rightarrow> string option"
  pg_parseVersion :: "string \<Rightarrow> string + k8s_version"
  pg_IncMinor :: "k8s_version \<Rightarrow> k8s_version"
  pg_new :: "string \<Rightarrow> string \<Rightarrow> string \<Rightarrow> string option"
  pg_deprecated :: "string \<Rightarrow> (string \<Rightarrow> string option) \<Rightarrow> string + deprecations"
  pg_table :: "string list \<Rightarrow> string list list \<Rightarrow> string"
  pg_store :: string

fun binary :: "nat \<Rightarrow> string" where
  "binary n = (if n < 2 then [if n = 1 then CHR ''1'' else CHR ''0''] else binary (n div 2) @ [if n mod 2 = 1 then CHR ''1'' else CHR ''0''])"

declare binary.simps [simp del]

text \<open>A file that cannot be written is logged and left out.\<close>

fun writeManifests :: "(string \<Rightarrow> string option) \<Rightarrow> string \<Rightarrow> nat \<Rightarrow> string list \<Rightarrow> (string \<Rightarrow> string option) \<Rightarrow> string \<Rightarrow> string option" where
  "writeManifests writeErr dir i [] files = files"
| "writeManifests writeErr dir i (m # ms) files =
    (let tmpFile = dir @ ''/'' @ binary i @ ''.yaml'' in
     writeManifests writeErr dir (Suc i) ms (case writeErr tmpFile of None \<Rightarrow> files(tmpFile \<mapsto> m) | Some _ \<Rightarrow> files))"

definition nextKubernetesVersion :: "pug_env \<Rightarrow> string \<Rightarrow> string + k8s_version" where
  "nextKubernetesVersion E current =
    (case pg_parseVersion E current of Inl err \<Rightarrow> Inl err | Inr v \<Rightarrow> Inr (pg_IncMinor E v))"

definition formatItems :: "string list \<Rightarrow> string" where
  "formatItems items = str_join [nl] items"

definition docLink :: "string \<Rightarrow> k8s_version \<Rightarrow> string" where
  "docLink kind v =
    ''['' @ kind @ '' Deprecation Notes](https://kubernetes.io/docs/reference/using-api/deprecation-guide/#'' @ to_lower kind @
    ''-v'' @ itoa (kv_Major v) @ itoa (kv_Minor v) @ '')''"

definition deprecationRow :: "k8s_version \<Rightarrow> deprecation \<Rightarrow> string list" where
  "deprecationRow v d = [dp_Group d @ ''/'' @ dp_Version d, dp_Kind d, formatItems (dp_Items d), docLink (dp_Kind d) v]"

definition pugSection :: "pug_env \<Rightarrow> string \<Rightarrow> k8s_version \<Rightarrow> deprecation list \<Rightarrow> string list" where
  "pugSection E title v ds =
    (if ds = [] then []
     else [[nl, nl] @ ''**'' @ title @ '' APIs**'' @ [nl],
           pg_table E [''API Version'', ''Kind'', ''Objects'', ''Docs''] (map (deprecationRow v) ds)])"

definition pugStatus :: "deprecations \<Rightarrow> commit_state" where
  "pugStatus r = (if ds_Deleted r \<noteq> [] then StateWarning else if ds_Deprecated r \<noteq> [] then StateWarning else StateSuccess)"

definition pug_checkApp :: "pug_env \<Rightarrow> string \<Rightarrow> string list \<Rightarrow> string + result" where
  "pug_checkApp E targetKubernetesVersion manifests =
    (case pg_tmp E of
       Inl err \<Rightarrow> Inl (''failed to create temporary directory: '' @ err)
     | Inr tempDir \<Rightarrow>
         let files = writeManifests (pg_writeErr E) tempDir 0 manifests (\<lambda>_. None) in
         (case nextKubernetesVersion E targetKubernetesVersion of
            Inl err \<Rightarrow> Inl err
          | Inr v \<Rightarrow>
              (case pg_new E (''v'' @ kv_text v) tempDir (pg_store E) of
                 Some err \<Rightarrow> Inl err
               | None \<Rightarrow>
                   (case pg_deprecated E (''v'' @ kv_text v) files of
                      Inl err \<Rightarrow> Inl err
                    | Inr r \<Rightarrow>
                        let outputString =
                          (if ds_Deprecated r \<noteq> [] \<or> ds_Deleted r \<noteq> []
                           then pugSection E ''Deprecated'' v (ds_Deprecated r) @ pugSection E ''Deleted'' v (ds_Deleted r)
                           else [''No Deprecated or Deleted APIs found.''])
                        in Inr (plain_result (pugStatus r) ''<b>Show kubepug report:</b>''
                             (''> This provides a list of Kubernetes resources in this application that are either deprecated or deleted from the **next** version (v'' @
                              kv_text v @ '') of Kubernetes.'' @ [nl, nl] @ str_join [nl] outputString))))))"

definition preupgrade_Check :: "pug_env \<Rightarrow> string \<Rightarrow> string list \<Rightarrow> string + result" where
  "preupgrade_Check E kubernetesVersion yamlManifests = pug_checkApp E kubernetesVersion yamlManifests"

section \<open>What the tools read\<close>

lemma dumpFrom_done:
  assumes "dumpFrom parse writeErr dir ms files = (None, files')"
  shows "\<exists>names. map (getFilenameFromRawManifest parse) ms = map Inr names \<and>
    files' = files ++ map_of (rev (zip (map (\<lambda>n. path_join [dir, n]) names) ms))"
  using assms
proof (induction ms arbitrary: files)
  case (Cons m ms)
  obtain n where n: "getFilenameFromRawManifest parse m = Inr n" and rest: "dumpFrom parse writeErr dir ms (files(path_join [dir, n] \<mapsto> m)) = (None, files')"
    using Cons.prems by (auto simp: Let_def split: sum.splits option.splits)
  obtain names where names: "map (getFilenameFromRawManifest parse) ms = map Inr names"
      "files' = files(path_join [dir, n] \<mapsto> m) ++ map_of (rev (zip (map (\<lambda>n. path_join [dir, n]) names) ms))"
    using Cons.IH[OF rest] by blast
  have "files' = files ++ map_of (rev (zip (map (\<lambda>n. path_join [dir, n]) (n # names)) (m # ms)))"
    unfolding names(2) by (rule ext) (simp add: map_add_def split: option.split)
  then show ?case using n names(1) by (intro exI[of _ "n # names"]) simp
qed (auto intro: exI[of _ "[]"])

lemma policyState_cases:
  "(policyState results = StateFailure \<longleftrightarrow> list_ex (\<lambda>r. list_ex (\<lambda>f. \<not> pl_Passed f) (po_Failures r)) results) \<and>
   (policyState results = StateSuccess \<longleftrightarrow>
      list_all (\<lambda>r. list_all pl_Passed (po_Failures r) \<and> list_all pl_Passed (po_Warnings r)) results) \<and>
   policyState results \<in> {StateFailure, StateWarning, StateSuccess}"
proof -
  have apart: "StateFailure \<noteq> StateWarning" "StateFailure \<noteq> StateSuccess" "StateWarning \<noteq> StateSuccess" by (simp_all add: state_defs)
  have all: "list_all (\<lambda>r. list_all pl_Passed (po_Failures r) \<and> list_all pl_Passed (po_Warnings r)) results \<longleftrightarrow>
      \<not> list_ex (\<lambda>r. list_ex (\<lambda>f. \<not> pl_Passed f) (po_Failures r)) results \<and> \<not> list_ex (\<lambda>r. list_ex (\<lambda>f. \<not> pl_Passed f) (po_Warnings r)) results"
    by (auto simp: list_ex_iff list_all_iff)
  show ?thesis unfolding all policyState_def using apart by auto
qed


fun unbinary :: "string \<Rightarrow> nat" where
  "unbinary s = foldl (\<lambda>v c. 2 * v + (if c = CHR ''1'' then 1 else 0)) 0 s"

lemma unbinary_binary: "unbinary (binary n) = n"
proof (induction n rule: binary.induct)
  case (1 n)
  show ?case
  proof (cases "n < 2")
    case True
    then have "n = 0 \<or> n = 1" by auto
    then show ?thesis by (subst binary.simps) auto
  next
    case False
    then have "2 * (n div 2) + n mod 2 = n" by simp
    then show ?thesis using 1[OF False] False by (subst binary.simps) (auto split: if_splits; presburger)
  qed
qed

lemma binary_inject: "binary a = binary b \<longleftrightarrow> a = b"
  by (metis unbinary_binary)

lemma writeManifests_other:
  assumes "\<And>j. i \<le> j \<Longrightarrow> p \<noteq> dir @ ''/'' @ binary j @ ''.yaml''"
  shows "writeManifests writeErr dir i ms files p = files p"
  using assms
proof (induction ms arbitrary: i files)
  case (Cons m ms)
  then show ?case using Cons.prems[of i] by (auto simp: Let_def split: option.split)
qed simp

lemma writeManifests_all:
  assumes "\<And>j. writeErr (dir @ ''/'' @ binary j @ ''.yaml'') = None" "k < length ms"
  shows "writeManifests writeErr dir i ms files (dir @ ''/'' @ binary (i + k) @ ''.yaml'') = Some (ms ! k)"
  using assms(2)
proof (induction ms arbitrary: i k files)
  case (Cons m ms)
  show ?case
  proof (cases k)
    case 0
    have "dir @ ''/'' @ binary i @ ''.yaml'' \<noteq> dir @ ''/'' @ binary j @ ''.yaml''" if "Suc i \<le> j" for j
      using that by (simp add: binary_inject)
    then show ?thesis using 0 writeManifests_other[of "Suc i"] assms(1) by (simp add: Let_def)
  next
    case (Suc j)
    then show ?thesis using Cons.IH[of j "Suc i"] Cons.prems assms(1) by (simp add: Let_def)
  qed
qed simp

text \<open>The deprecation report is about every manifest of the application: when all files can be written, each manifest has
  a file of its own in the directory that kubepug reads, and the report warns exactly when a deprecated or
  deleted API was found, and never does worse.\<close>

theorem deprecations_cover_every_manifest:
  assumes run: "pug_checkApp E version manifests = Inr res" and written: "\<And>p. pg_writeErr E p = None" and k: "k < length manifests"
  shows "\<exists>dir v files r. pg_tmp E = Inr dir \<and> nextKubernetesVersion E version = Inr v \<and>
    pg_deprecated E (''v'' @ kv_text v) files = Inr r \<and> files (dir @ ''/'' @ binary k @ ''.yaml'') = Some (manifests ! k) \<and>
    res_State res = (if ds_Deprecated r = [] \<and> ds_Deleted r = [] then StateSuccess else StateWarning)"
proof -
  obtain dir where d: "pg_tmp E = Inr dir" using run by (auto simp: pug_checkApp_def split: sum.splits)
  define files where "files = writeManifests (pg_writeErr E) dir 0 manifests (\<lambda>_. None)"
  obtain v where v: "nextKubernetesVersion E version = Inr v" using run by (auto simp: pug_checkApp_def d Let_def split: sum.splits)
  obtain r where r: "pg_deprecated E (''v'' @ kv_text v) files = Inr r" "res_State res = pugStatus r"
    using run by (auto simp: pug_checkApp_def d v files_def plain_result_def Let_def split: sum.splits option.splits)
  have "files (dir @ ''/'' @ binary k @ ''.yaml'') = Some (manifests ! k)"
    using writeManifests_all[of "pg_writeErr E" dir k manifests 0] written k by (simp add: files_def)
  then show ?thesis using d v r by (intro exI[of _ dir] exI[of _ v] exI[of _ files] exI[of _ r]) (auto simp: pugStatus_def)
qed

section \<open>Two checks\<close>

definition demo_heads_of :: "string \<Rightarrow> string + manifest_head" where
  "demo_heads_of m =
    (if m = ''ingress.networking'' \<or> m = ''ingress.extensions'' then Inr \<lparr>mh_kind = Some ''Ingress'', mh_metadata = Some (Some ''web'', Some ''n'')\<rparr>
     else if m = ''job'' then Inr \<lparr>mh_kind = Some ''Job'', mh_metadata = Some (Some ''j'', None)\<rparr> else Inl ''bad'')"

definition demo_policies :: policy_env where
  "demo_policies =
    \<lparr>pv_parse = demo_heads_of, pv_writeErr = \<lambda>_. None, pv_tmp = Inr ''/t'',
     pv_run = \<lambda>locs dbg files dir.
       Inr [\<lparr>po_FileName = ''/t/kind=Job,name=j.yaml'', po_Exceptions = [], po_Warnings = [], po_Skipped = [],
             po_Failures = (if files ''/t/kind=Job,name=j.yaml'' = None then [] else [\<lparr>pl_Message = ''no jobs'', pl_Passed = False\<rparr>])\<rparr>],
     pv_addRows = \<lambda>_. None, pv_render = \<lambda>rows. Inr (concat (concat rows)), pv_emoji = \<lambda>_. ''!''\<rparr>"

definition demo_policy_result :: "string + result" where
  "demo_policy_result = policy_Check demo_policies [''p''] False [''job'', ''ingress.networking'']"


definition demo_pug :: pug_env where
  "demo_pug =
    \<lparr>pg_tmp = Inr ''/t'', pg_writeErr = \<lambda>_. None,
     pg_parseVersion = \<lambda>s. Inr \<lparr>kv_text = s, kv_Major = 1, kv_Minor = 30\<rparr>,
     pg_IncMinor = \<lambda>v. v\<lparr>kv_text := ''1.31.0'', kv_Minor := Suc (kv_Minor v)\<rparr>,
     pg_new = \<lambda>_ _ _. None,
     pg_deprecated = \<lambda>v files. Inr \<lparr>ds_Deprecated = (if files ''/t/10.yaml'' = Some ''c'' then [\<lparr>dp_Group = ''g'', dp_Version = ''v1'', dp_Kind = ''K'', dp_Items = [''x'']\<rparr>] else []), ds_Deleted = []\<rparr>,
     pg_table = \<lambda>h rows. concat (concat rows), pg_store = []\<rparr>"

definition demo_pug_result :: "string + result" where
  "demo_pug_result = pug_checkApp demo_pug ''1.30.0'' [''a'', ''b'', ''c'']"

theorem deprecations_cover_every_manifest_witness:
  "\<exists>res files. demo_pug_result = Inr res \<and> res_State res = StateWarning \<and> files ''/t/10.yaml'' = Some ''c''"
proof -
  have v: "\<not> isl demo_pug_result" "res_State (projr demo_pug_result) = StateWarning" by code_simp+
  then obtain res where r1: "demo_pug_result = Inr res" by (metis sum.collapse(2))
  have "res_State res = StateWarning" using v(2) unfolding r1 sum.sel .
  note r = r1 this
  have w: "pg_writeErr demo_pug p = None" for p by (simp add: demo_pug_def)
  have b: "binary 2 = ''10''" by code_simp
  have t: "pg_tmp demo_pug = Inr ''/t''" by (simp add: demo_pug_def)
  obtain files where "files (''/t'' @ ''/'' @ binary 2 @ ''.yaml'') = Some ([''a'', ''b'', ''c''] ! 2)"
    using deprecations_cover_every_manifest[OF r(1)[unfolded demo_pug_result_def] w, of 2] t by auto
  then have "files ''/t/10.yaml'' = Some ''c''" by (simp add: b)
  then show ?thesis using r by blast
qed

text \<open>The name of a file has no API group, so of two resources that differ in it only the last is checked.\<close>

lemma same_name_hides_manifest:
  "snd (snd (dumpFiles demo_heads_of (\<lambda>_. None) (Inr ''/t'') [''ingress.networking'', ''ingress.extensions''])) ''/t/namespace=n,kind=Ingress,name=web.yaml'' =
    Some ''ingress.extensions''"
  by code_simp

end
