(* ===== verification/SchemaCheck.thy ===== *)
theory SchemaCheck
  imports CheckRunner GoRel
begin

text \<open>
  \<open>pkg/checks/kubeconform/validate.go\<close>: where the schemas of resources are looked for, and the report on the
  validation.  The working directory, whether a path is a directory, and the validator of the kubeconform module
  are arguments; the cache directory of the validator and the log lines are left out.
\<close>

section \<open>Locations\<close>

record schema_env =
  se_cwd :: "string + string"
  se_isDir :: "string \<Rightarrow> bool"

definition looksRemote :: "string \<Rightarrow> bool" where
  "looksRemote location =
    (if str_contains location ''://'' then True
     else (case str_index location ''@'' of
             None \<Rightarrow> False
           | Some i \<Rightarrow> i > 0 \<and> str_contains (drop i location) '':''))"

definition NeedsCheckout :: "string list \<Rightarrow> bool" where
  "NeedsCheckout locations =
    list_ex (\<lambda>l. let location = trim_space l in location \<noteq> [] \<and> \<not> rooted location \<and> \<not> looksRemote location) locations"

text \<open>The directory a location names: all of it, or what precedes its template without a partial file name.\<close>

definition locationDir :: "string \<Rightarrow> string" where
  "locationDir location = (case str_index location ''{{'' of None \<Rightarrow> location | Some i \<Rightarrow> path_dir (take i location))"

definition resolveInCheckout :: "schema_env \<Rightarrow> string \<Rightarrow> string \<Rightarrow> string option" where
  "resolveInCheckout E location repoDir =
    (if repoDir = [] then None
     else (case path_Abs (se_cwd E) repoDir of
         Inl err \<Rightarrow> None
       | Inr root \<Rightarrow>
           let resolvedDir = path_join [root, locationDir location] in
           if resolvedDir \<noteq> root \<and> \<not> has_prefix resolvedDir (root @ ''/'') then None
           else if \<not> se_isDir E resolvedDir then None
           else Some (path_join [root, location])))"

fun resolveSchemaLocations :: "schema_env \<Rightarrow> string list \<Rightarrow> string \<Rightarrow> string list" where
  "resolveSchemaLocations E [] repoDir = []"
| "resolveSchemaLocations E (c # cs) repoDir =
    (let location = trim_space c; others = resolveSchemaLocations E cs repoDir in
     if location = [] then others
     else if rooted location \<or> looksRemote location then location # others
     else (case resolveInCheckout E location repoDir of Some resolved \<Rightarrow> resolved # others | None \<Rightarrow> others))"

definition schemaTemplate :: string where
  "schemaTemplate = ''{{ .NormalizedKubernetesVersion }}/{{ .ResourceKind }}{{ .KindSuffix }}.json''"

definition processLocation :: "string \<Rightarrow> string" where
  "processLocation location =
    (if location = ''default'' \<or> str_contains location ''{{'' then location
     else (if has_suffix location ''/'' then location else location @ ''/'') @ schemaTemplate)"

definition getSchemaLocations :: "schema_env \<Rightarrow> string list \<Rightarrow> string \<Rightarrow> string list" where
  "getSchemaLocations E configured repoDir = map processLocation (''default'' # resolveSchemaLocations E configured repoDir)"

definition describeSearchedLocations :: "schema_env \<Rightarrow> string list \<Rightarrow> string \<Rightarrow> string" where
  "describeSearchedLocations E locations repoDir =
    (let root = (case path_Abs (se_cwd E) repoDir of Inl err \<Rightarrow> repoDir | Inr r \<Rightarrow> r);
         shown = (\<lambda>location.
           if root \<noteq> [] then
             (case path_rel root location of
                Inl err \<Rightarrow> location
              | Inr relative \<Rightarrow> if \<not> has_prefix relative ''..'' then relative @ ''  _(in this repository)_'' else location)
           else location)
     in str_join [nl] ([[], ''Schemas for the kinds above were looked for in, in order:''] @
          map (\<lambda>l. '' * `'' @ shown l @ ''`'') locations))"

section \<open>Validation\<close>

datatype validity = Valid | InvalidResource | ErrorResource | EmptyResource | SkippedResource

record validation =
  va_Status :: validity
  va_Version :: string
  va_Kind :: string
  va_Name :: string
  va_Err :: "string option"

definition validationLines :: "validation \<Rightarrow> string list" where
  "validationLines r =
    (let sig = va_Version r @ '' '' @ va_Kind r @ '' '' @ va_Name r in
     case va_Status r of
       InvalidResource \<Rightarrow> ['' * :warning: **Invalid**: '' @ sig, ''   * '' @ (case va_Err r of None \<Rightarrow> ''%!s(<nil>)'' | Some e \<Rightarrow> e) @ '' '']
     | ErrorResource \<Rightarrow> ['' * :red_circle: **Error**: '' @ sig @ '' - '' @ (case va_Err r of None \<Rightarrow> ''<nil>'' | Some e \<Rightarrow> e)]
     | EmptyResource \<Rightarrow> []
     | SkippedResource \<Rightarrow> ['' * :right_arrow: Skipped: '' @ sig]
     | Valid \<Rightarrow> ['' * :white_check_mark: Passed: '' @ sig])"

definition missingSchemaOf :: "validation \<Rightarrow> bool" where
  "missingSchemaOf r = (va_Status r = ErrorResource \<and> (case va_Err r of None \<Rightarrow> False | Some e \<Rightarrow> str_contains e ''could not find schema''))"

definition validationState :: "validation list \<Rightarrow> commit_state" where
  "validationState results =
    (if list_ex (\<lambda>r. va_Status r = InvalidResource) results then StateWarning
     else if list_ex (\<lambda>r. va_Status r = ErrorResource) results then StateFailure
     else StateSuccess)"

text \<open>\<open>cacheDir\<close> is the error of making the cache, if any; \<open>validate\<close> gets the locations, the version and the joined
  manifests.\<close>

definition argoCdAppValidate ::
  "schema_env \<Rightarrow> string list \<Rightarrow> string option \<Rightarrow> (string list \<Rightarrow> string \<Rightarrow> string \<Rightarrow> string + validation list) \<Rightarrow>
    string \<Rightarrow> string \<Rightarrow> string list \<Rightarrow> string + result" where
  "argoCdAppValidate E configured cacheDir validate targetKubernetesVersion repoDir appManifests =
    (case cacheDir of
       Some err \<Rightarrow> Inl (''failed to create schema cache: '' @ err)
     | None \<Rightarrow>
         let schemaLocations = getSchemaLocations E configured repoDir in
         (case validate schemaLocations targetKubernetesVersion (str_join [nl] appManifests) of
            Inl err \<Rightarrow> Inl (''could not create kubeconform validator: '' @ err)
          | Inr results \<Rightarrow>
              let outputString = concat (map validationLines results) @
                    (if list_ex missingSchemaOf results then [describeSearchedLocations E schemaLocations repoDir] else [])
              in Inr (plain_result (validationState results) ''<b>Show kubeconform report:</b>''
                   (''>Validated against Kubernetes Version: '' @ targetKubernetesVersion @ [nl, nl] @ str_join [nl] outputString))))"

definition kubeconform_Check ::
  "schema_env \<Rightarrow> string list \<Rightarrow> string option \<Rightarrow> (string list \<Rightarrow> string \<Rightarrow> string \<Rightarrow> string + validation list) \<Rightarrow>
    string \<Rightarrow> string option \<Rightarrow> string list \<Rightarrow> string + result" where
  "kubeconform_Check E configured cacheDir validate version repoDir manifests =
    argoCdAppValidate E configured cacheDir validate version (case repoDir of None \<Rightarrow> [] | Some d \<Rightarrow> d) manifests"

section \<open>What is searched\<close>

text \<open>A configured location either stands for itself or was found in the checkout.\<close>

definition configured_as :: "schema_env \<Rightarrow> string \<Rightarrow> string \<Rightarrow> string \<Rightarrow> bool" where
  "configured_as E repoDir c l \<longleftrightarrow>
    (if rooted (trim_space c) \<or> looksRemote (trim_space c) then l = trim_space c
     else trim_space c \<noteq> [] \<and> (\<exists>root. path_Abs (se_cwd E) repoDir = Inr root \<and> l = path_join [root, trim_space c] \<and>
       se_isDir E (path_join [root, locationDir (trim_space c)]) \<and>
       (str_contains (trim_space c) ''{{'' \<or> l = root \<or> has_prefix l (root @ ''/''))))"

lemma locationDir_plain: "\<not> str_contains l ''{{'' \<Longrightarrow> locationDir l = l"
  by (simp add: locationDir_def str_contains_def split: option.splits)

lemma resolved_configured:
  "l \<in> set (resolveSchemaLocations E cs repoDir) \<Longrightarrow> list_ex (\<lambda>c. configured_as E repoDir c l) cs"
proof (induction cs)
  case (Cons c cs)
  show ?case
  proof (cases "l \<in> set (resolveSchemaLocations E cs repoDir)")
    case False
    consider "rooted (trim_space c) \<or> looksRemote (trim_space c)" "l = trim_space c"
      | "\<not> (rooted (trim_space c) \<or> looksRemote (trim_space c))" "trim_space c \<noteq> []" "resolveInCheckout E (trim_space c) repoDir = Some l"
      using Cons.prems False by (auto simp: Let_def split: if_splits option.splits)
    then have "configured_as E repoDir c l"
    proof cases
      case 1
      then show ?thesis by (simp add: configured_as_def)
    next
      case 2
      then show ?thesis using locationDir_plain[of "trim_space c"]
        by (auto simp: configured_as_def resolveInCheckout_def Let_def split: if_splits sum.splits)
    qed
    then show ?thesis by simp
  qed (use Cons.IH in simp)
qed simp


definition demo_schema_env :: schema_env where
  "demo_schema_env = \<lparr>se_cwd = Inr ''/'', se_isDir = \<lambda>p. p \<in> {''/r/schemas'', ''/r/a''}\<rparr>"

lemma demo_searched:
  "getSchemaLocations demo_schema_env ['' schemas'', ''https://s/x'', ''../etc'', ''missing''] ''/r'' =
    [''default'', ''/r/schemas/'' @ schemaTemplate, ''https://s/x/'' @ schemaTemplate]"
  by code_simp


section \<open>Limits\<close>

text \<open>The check for an escape looks at what precedes a template only.\<close>

lemma template_escapes:
  "resolveInCheckout demo_schema_env ''a/{{ .ResourceKind }}/../../../etc/x.json'' ''/r'' = Some ''/etc/x.json''"
  by code_simp

text \<open>One invalid resource turns the failure of another into a warning.\<close>

lemma invalid_masks_error:
  assumes "list_ex (\<lambda>r. va_Status r = ErrorResource) results"
  shows "validationState (\<lparr>va_Status = InvalidResource, va_Version = v, va_Kind = k, va_Name = n, va_Err = e\<rparr> # results) = StateWarning"
    and "\<not> list_ex (\<lambda>r. va_Status r = InvalidResource) results \<Longrightarrow> validationState results = StateFailure"
  using assms by (simp_all add: validationState_def)

end
