(* ===== verification/AppWorker.thy ===== *)
theory AppWorker
  imports CheckEvent AiReview SchemaCheck
begin

text \<open>
  \<open>pkg/events/worker.go\<close> after the manifests: the version and the checkout that the checks of an application get, and
  the AI review that runs beside them.  How the review ends is an argument of the step that records it,
  so that the review itself (theory \<open>AiReview\<close>) and a panic of it are both covered.
\<close>

section \<open>What the checks get\<close>

record worker_config =
  wc_SchemasLocations :: "string list"
  wc_FallbackK8sVersion :: string
  wc_EnableAIReview :: bool
  wc_AIReviewMaxApps :: int
  wc_ReplanCommentMessage :: string

record worker_env =
  we_cfg :: worker_config
  we_hasReviewer :: bool
  we_getRepo :: "string + string"
  we_version :: "string + string"
  we_parseVersion :: "string \<Rightarrow> (nat \<times> nat) option"
  we_toYaml :: "string \<Rightarrow> string option"
  we_diffText :: "string list \<Rightarrow> string + string"

definition kubernetesVersion :: "worker_env \<Rightarrow> string" where
  "kubernetesVersion W =
    (let fallback = wc_FallbackK8sVersion (we_cfg W);
         k8sVersion = (case we_version W of Inl err \<Rightarrow> fallback | Inr v \<Rightarrow> v)
     in normalizeK8sVersion (we_parseVersion W) k8sVersion fallback)"

definition checkoutRepo :: "worker_env \<Rightarrow> string option" where
  "checkoutRepo W =
    (if NeedsCheckout (wc_SchemasLocations (we_cfg W))
     then (case we_getRepo W of Inl err \<Rightarrow> None | Inr dir \<Rightarrow> Some dir) else None)"

text \<open>The text of the diff with which a review starts, if one does.\<close>

definition startAIReview :: "worker_env \<Rightarrow> string list \<Rightarrow> ai_slots \<Rightarrow> string option \<times> ai_slots" where
  "startAIReview W jsonManifests slots =
    (if wc_EnableAIReview (we_cfg W) \<and> we_hasReviewer W then
       (let diffText = (case we_diffText W jsonManifests of Inl err \<Rightarrow> ''unknown'' | Inr t \<Rightarrow> t) in
        if trim_space diffText = [] then (None, slots)
        else (let (ok, slots) = claimAIReviewSlot (wc_AIReviewMaxApps (we_cfg W)) slots
              in (if ok then Some diffText else None, slots)))
     else (None, slots))"

record app_checks =
  ac_jsonManifests :: "string list"
  ac_yamlManifests :: "string list"
  ac_k8sVersion :: string
  ac_checkout :: "string option"
  ac_review :: "string option"

text \<open>\<open>None\<close> when there are no manifests; the processors (theory \<open>CheckRunner\<close>) run on what is returned.\<close>

definition worker_processApp ::
  "worker_env \<Rightarrow> (manifest_error \<Rightarrow> string) \<Rightarrow> application \<Rightarrow> (nat \<Rightarrow> manifest_error + string list) \<Rightarrow> (nat \<Rightarrow> manifest_error option) \<Rightarrow>
    message \<times> ai_slots \<Rightarrow> app_checks option \<times> message \<times> ai_slots" where
  "worker_processApp W errText app get cancelled st =
    (case beginApp errText app get cancelled (fst st) of
       (None, note) \<Rightarrow> (None, note, snd st)
     | (Some jsonManifests, note) \<Rightarrow>
         let (review, slots) = startAIReview W jsonManifests (snd st) in
         (Some \<lparr>ac_jsonManifests = jsonManifests, ac_yamlManifests = convertJsonToYamlManifests (we_toYaml W) jsonManifests,
                ac_k8sVersion = kubernetesVersion W, ac_checkout = checkoutRepo W, ac_review = review\<rparr>, note, slots))"

section \<open>The review of an application\<close>

datatype review_ending = ReviewPanicked string | ReviewEnded "string + review_result"

definition reviewRequestOf :: "worker_env \<Rightarrow> app_checks \<Rightarrow> ai_request \<Rightarrow> string list \<Rightarrow> string \<Rightarrow> string \<Rightarrow> ai_request" where
  "reviewRequestOf W c base changedFiles title description =
    base\<lparr>rq_RepoDir := (case we_getRepo W of Inl err \<Rightarrow> None | Inr dir \<Rightarrow> Some dir), rq_KubernetesVersion := ac_k8sVersion c,
      rq_YamlManifests := ac_yamlManifests c, rq_ChangedFiles := changedFiles,
      rq_RenderedDiff := (case ac_review c of None \<Rightarrow> [] | Some d \<Rightarrow> d), rq_PRTitle := title, rq_PRDescription := description\<rparr>"

definition reviewFailed :: "string \<Rightarrow> string \<Rightarrow> result" where
  "reviewFailed appName replan =
    plain_result StateNone ''AI review failed''
      ('':warning: AI review for `'' @ appName @ ''` encountered an error. Try again by commenting `'' @ replan @ ''`.'')"

text \<open>What the review adds to the reviews that are collected.\<close>

definition runAIReview :: "worker_env \<Rightarrow> string \<Rightarrow> review_ending \<Rightarrow> ai_review option" where
  "runAIReview W appName ending =
    (case ending of
       ReviewPanicked err \<Rightarrow> None
     | ReviewEnded (Inl err) \<Rightarrow> Some \<lparr>ar_AppName = appName, ar_Result = reviewFailed appName (wc_ReplanCommentMessage (we_cfg W)), ar_Suggestions = []\<rparr>
     | ReviewEnded (Inr r) \<Rightarrow>
         if res_Details (rr_Result r) = [] then None else Some \<lparr>ar_AppName = appName, ar_Result = rr_Result r, ar_Suggestions = rr_Suggestions r\<rparr>)"

section \<open>Many applications\<close>

text \<open>Applications one after the other, as the counter of the slots orders them.\<close>

fun processAll ::
  "worker_env \<Rightarrow> (manifest_error \<Rightarrow> string) \<Rightarrow> (nat \<Rightarrow> manifest_error option) \<Rightarrow>
    (application \<times> (nat \<Rightarrow> manifest_error + string list)) list \<Rightarrow> message \<times> ai_slots \<Rightarrow> app_checks option list \<times> message \<times> ai_slots" where
  "processAll W errText cancelled [] st = ([], st)"
| "processAll W errText cancelled ((app, get) # apps) st =
    (let (c, st) = worker_processApp W errText app get cancelled st; (cs, st) = processAll W errText cancelled apps st in (c # cs, st))"

definition reviewed :: "app_checks option \<Rightarrow> bool" where
  "reviewed c = (case c of None \<Rightarrow> False | Some a \<Rightarrow> ac_review a \<noteq> None)"

definition changedApp :: "worker_env \<Rightarrow> app_checks \<Rightarrow> bool" where
  "changedApp W a = (case we_diffText W (ac_jsonManifests a) of Inl err \<Rightarrow> True | Inr t \<Rightarrow> trim_space t \<noteq> [])"

lemma unknown_is_text: "trim_space ''unknown'' \<noteq> []"
  by code_simp

lemma startAIReview_claims:
  assumes "startAIReview W ms s = (r, s')"
  shows "(r \<noteq> None \<longrightarrow> sl_count s' = sl_count s + 1 \<and> sl_count s' \<le> effectiveAIReviewMax (wc_AIReviewMaxApps (we_cfg W))) \<and>
    sl_count s \<le> sl_count s' \<and>
    (r \<noteq> None \<longrightarrow> wc_EnableAIReview (we_cfg W) \<and> (case we_diffText W ms of Inl err \<Rightarrow> True | Inr t \<Rightarrow> trim_space t \<noteq> []))"
  using assms by (auto simp: startAIReview_def claimAIReviewSlot_def Let_def split: if_splits sum.splits)

lemma worker_processApp_claims:
  assumes "worker_processApp W errText app get cancelled (note, s) = (c, note', s')"
  shows "sl_count s \<le> sl_count s' \<and>
    (reviewed c \<longrightarrow> sl_count s' = sl_count s + 1 \<and> sl_count s' \<le> effectiveAIReviewMax (wc_AIReviewMaxApps (we_cfg W)) \<and>
      wc_EnableAIReview (we_cfg W) \<and> (case c of None \<Rightarrow> False | Some a \<Rightarrow> changedApp W a))"
proof -
  obtain ms n1 where b: "beginApp errText app get cancelled note = (ms, n1)" by fastforce
  show ?thesis
  proof (cases ms)
    case None
    then show ?thesis using assms by (auto simp: worker_processApp_def b reviewed_def)
  next
    case (Some js)
    obtain r s1 where s: "startAIReview W js s = (r, s1)" by fastforce
    have c: "s' = s1" "c = Some \<lparr>ac_jsonManifests = js, ac_yamlManifests = convertJsonToYamlManifests (we_toYaml W) js,
        ac_k8sVersion = kubernetesVersion W, ac_checkout = checkoutRepo W, ac_review = r\<rparr>"
      using assms by (auto simp: worker_processApp_def b Some s Let_def)
    show ?thesis using startAIReview_claims[OF s] by (cases r) (auto simp: c reviewed_def changedApp_def)
  qed
qed

lemma processAll_claims:
  assumes "processAll W errText cancelled apps (nt, s) = (cs, note', s')"
  shows "sl_count s \<le> sl_count s' \<and>
    sl_count s + int (length (filter reviewed cs)) \<le> max (sl_count s) (effectiveAIReviewMax (wc_AIReviewMaxApps (we_cfg W))) \<and>
    list_all (\<lambda>c. reviewed c \<longrightarrow> wc_EnableAIReview (we_cfg W) \<and> (case c of None \<Rightarrow> False | Some a \<Rightarrow> changedApp W a)) cs"
  using assms
proof (induction apps arbitrary: nt s cs)
  case (Cons x apps)
  obtain app get where x: "x = (app, get)" by (cases x)
  obtain c n1 s1 where c: "worker_processApp W errText app get cancelled (nt, s) = (c, n1, s1)" using prod_cases3 by blast
  obtain cs1 n2 s2 where r: "processAll W errText cancelled apps (n1, s1) = (cs1, n2, s2)" using prod_cases3 by blast
  have eqs: "cs = c # cs1" "note' = n2" "s' = s2" using Cons.prems by (auto simp: x c r Let_def)
  have ih: "sl_count s1 \<le> sl_count s2 \<and>
      sl_count s1 + int (length (filter reviewed cs1)) \<le> max (sl_count s1) (effectiveAIReviewMax (wc_AIReviewMaxApps (we_cfg W))) \<and>
      list_all (\<lambda>c. reviewed c \<longrightarrow> wc_EnableAIReview (we_cfg W) \<and> (case c of None \<Rightarrow> False | Some a \<Rightarrow> changedApp W a)) cs1"
    using Cons.IH r eqs by simp
  show ?case using worker_processApp_claims[OF c] ih unfolding eqs by (cases "reviewed c") auto
qed simp

text \<open>C35 However many applications are checked, the reviews that the model is asked for are at most the configured number and at
  most 50; each is of an application whose manifests differ from the live ones or could not be compared, and
  none is started when reviews are off.\<close>

theorem reviews_are_capped:
  assumes "processAll W errText cancelled apps (note, \<lparr>sl_count = 0, sl_skipped = 0\<rparr>) = (cs, note', s')"
  shows "int (length (filter reviewed cs)) \<le> 50 \<and>
    (0 < wc_AIReviewMaxApps (we_cfg W) \<longrightarrow> int (length (filter reviewed cs)) \<le> wc_AIReviewMaxApps (we_cfg W)) \<and>
    list_all (\<lambda>c. reviewed c \<longrightarrow> wc_EnableAIReview (we_cfg W) \<and> (case c of None \<Rightarrow> False | Some a \<Rightarrow> changedApp W a)) cs"
proof -
  have "0 < effectiveAIReviewMax m \<and> effectiveAIReviewMax m \<le> 50 \<and> (0 < m \<longrightarrow> effectiveAIReviewMax m \<le> m)" for m
    by (auto simp: effectiveAIReviewMax_def AIReviewHardMaxApps_def Let_def)
  from this[of "wc_AIReviewMaxApps (we_cfg W)"] show ?thesis using processAll_claims[OF assms] by auto
qed

section \<open>Two applications\<close>

definition demo_worker :: worker_env where
  "demo_worker =
    \<lparr>we_cfg = \<lparr>wc_SchemasLocations = [''schemas''], wc_FallbackK8sVersion = ''1.28.0'', wc_EnableAIReview = True, wc_AIReviewMaxApps = 1,
       wc_ReplanCommentMessage = ''kubechecks again''\<rparr>,
     we_hasReviewer = True, we_getRepo = Inr ''/r'', we_version = Inr ''v1.30'',
     we_parseVersion = \<lambda>v. if v = ''v1.30'' then Some (1, 30) else None, we_toYaml = Some,
     we_diffText = \<lambda>ms. if ms = [''same''] then Inr [] else if ms = [''odd''] then Inl ''failed'' else Inr ''+ x''\<rparr>"

definition demo_apps :: "(application \<times> (nat \<Rightarrow> manifest_error + string list)) list" where
  "demo_apps = [(single_app ''a'' ''p'', \<lambda>_. Inr [''same'']), (single_app ''b'' ''p'', \<lambda>_. Inr [''new'']), (single_app ''c'' ''p'', \<lambda>_. Inr [''odd''])]"

definition demo_processed :: "app_checks option list \<times> message \<times> ai_slots" where
  "demo_processed = processAll demo_worker (\<lambda>_. []) (\<lambda>_. None) demo_apps (NewMessage ''r'' 1 2, \<lparr>sl_count = 0, sl_skipped = 0\<rparr>)"

lemma demo_processed_reviews: "map reviewed (fst demo_processed) = [False, True, False]"
  by code_simp

theorem reviews_are_capped_witness:
  "map reviewed (fst demo_processed) = [False, True, False] \<and> int (length (filter reviewed (fst demo_processed))) \<le> 1"
proof -
  have c: "0 < wc_AIReviewMaxApps (we_cfg demo_worker)" "wc_AIReviewMaxApps (we_cfg demo_worker) = 1" by (simp_all add: demo_worker_def)
  obtain cs nt s where p: "demo_processed = (cs, nt, s)" using prod_cases3 by blast
  have "int (length (filter reviewed cs)) \<le> 1"
    using reviews_are_capped[OF p[unfolded demo_processed_def]] c by simp
  then show ?thesis using demo_processed_reviews by (simp add: p)
qed

section \<open>A diff that failed\<close>

text \<open>When the diff cannot be made, the review is started with a word in its place, which the model then
  gets as the diff.\<close>

lemma failed_diff_is_shown_as_text:
  assumes "wc_EnableAIReview (we_cfg W)" "we_hasReviewer W" "we_diffText W (ac_jsonManifests c) = Inl err"
    and "startAIReview W (ac_jsonManifests c) s = (Some d, s')" "ac_review c = Some d"
  shows "reviewDiff (reviewRequestOf W c base files title desc) generated = ''unknown''"
  using assms unknown_is_text by (auto simp: startAIReview_def reviewDiff_def reviewRequestOf_def Let_def split: if_splits prod.splits)

end
