(* ===== verification/Extract.thy ===== *)
theory Extract
  imports Archive GoRel
begin

text \<open>
  \<open>pkg/archive/download.go\<close>: an archive is downloaded and its entries are written below a target directory.
  The directory is a map from the components of a path below it to what stands there; \<open>root_MkdirAll\<close> and
  \<open>root_OpenFile\<close> walk it as \<open>os.Root\<close> of the standard library does, one component after the other, and
  refuse a walk that leaves the directory.  Symbolic links that stand in the directory beforehand and
  permission bits are left out; the HTTP client, the reader of zip files and the errors of the
  operating system are arguments.
\<close>

section \<open>Entries and the directory\<close>

datatype entry_kind = DirEntry | RegularEntry | OtherEntry

text \<open>\<open>ze_Open\<close> is the content of the entry with the error at which reading it stopped, if any.\<close>

record zip_entry =
  ze_Name :: string
  ze_Kind :: entry_kind
  ze_Open :: "string + (string \<times> string option)"

text \<open>The zip reader takes every entry whose name ends in a slash for a directory.\<close>

definition entryMode :: "zip_entry \<Rightarrow> entry_kind" where
  "entryMode e = (if has_suffix (ze_Name e) ''/'' then DirEntry else ze_Kind e)"

datatype node = DirNode | FileNode string

type_synonym dir_tree = "string list \<Rightarrow> node option"

section \<open>Paths of the standard library\<close>

definition path_IsLocal :: "string \<Rightarrow> bool" where
  "path_IsLocal p =
    (if rooted p \<or> p = [] then False
     else (let hasDots = list_ex (\<lambda>c. c = ''.'' \<or> c = ''..'') (split_char slash p);
               q = (if hasDots then path_clean p else p)
           in \<not> (q = ''..'' \<or> has_prefix q ''../'')))"

text \<open>The components that \<open>os.Root\<close> walks: a dot is kept only at the end.\<close>

definition root_parts :: "string \<Rightarrow> string list" where
  "root_parts p =
    (let cs = filter (\<lambda>c. c \<noteq> []) (split_char slash p)
     in if cs = [] then [] else filter (\<lambda>c. c \<noteq> ''.'') (butlast cs) @ [last cs])"

fun walkDirs :: "bool \<Rightarrow> (string list \<Rightarrow> string option) \<Rightarrow> dir_tree \<Rightarrow> string list \<Rightarrow> string list \<Rightarrow> dir_tree \<times> (string + string list)" where
  "walkDirs mk io t cwd [] = (t, Inr cwd)"
| "walkDirs mk io t cwd (c # cs) =
    (if c = ''.'' then walkDirs mk io t cwd cs
     else if c = ''..'' then (if cwd = [] then (t, Inl ''path escapes from parent'') else walkDirs mk io t (butlast cwd) cs)
     else (case t (cwd @ [c]) of
         Some DirNode \<Rightarrow> walkDirs mk io t (cwd @ [c]) cs
       | Some (FileNode _) \<Rightarrow> (t, Inl ''not a directory'')
       | None \<Rightarrow>
           if mk then (case io (cwd @ [c]) of
                         Some err \<Rightarrow> (t, Inl err)
                       | None \<Rightarrow> walkDirs mk io (t(cwd @ [c] \<mapsto> DirNode)) (cwd @ [c]) cs)
           else (t, Inl ''no such file or directory'')))"

definition root_MkdirAll :: "(string list \<Rightarrow> string option) \<Rightarrow> string \<Rightarrow> dir_tree \<Rightarrow> dir_tree \<times> string option" where
  "root_MkdirAll io name t =
    (if name = [] then (t, Some ''empty path'') else if rooted name then (t, Some ''path escapes from parent'')
     else (case walkDirs True io t [] (root_parts name) of (t, Inl err) \<Rightarrow> (t, Some err) | (t, Inr cwd) \<Rightarrow> (t, None)))"

text \<open>Opened for writing and truncated.\<close>

definition root_OpenFile :: "(string list \<Rightarrow> string option) \<Rightarrow> string \<Rightarrow> dir_tree \<Rightarrow> dir_tree \<times> (string + string list)" where
  "root_OpenFile io name t =
    (if name = [] then (t, Inl ''empty path'') else if rooted name then (t, Inl ''path escapes from parent'')
     else (case walkDirs False io t [] (butlast (root_parts name)) of
         (t, Inl err) \<Rightarrow> (t, Inl err)
       | (t, Inr cwd) \<Rightarrow>
           let c = last (root_parts name) in
           if c = ''..'' \<and> cwd = [] then (t, Inl ''path escapes from parent'')
           else if c = ''.'' \<or> c = ''..'' then (t, Inl ''is a directory'')
           else (case t (cwd @ [c]) of
               Some DirNode \<Rightarrow> (t, Inl ''is a directory'')
             | _ \<Rightarrow> (case io (cwd @ [c]) of
                     Some err \<Rightarrow> (t, Inl err)
                   | None \<Rightarrow> (t(cwd @ [c] \<mapsto> FileNode []), Inr (cwd @ [c]))))))"

section \<open>Extraction\<close>

definition extractFile :: "(string list \<Rightarrow> string option) \<Rightarrow> zip_entry \<Rightarrow> dir_tree \<Rightarrow> dir_tree \<times> string option" where
  "extractFile io file t =
    (let name = ze_Name file in
     if \<not> path_IsLocal name then (t, Some (''invalid file path (path traversal detected): '' @ name))
     else (case entryMode file of
         DirEntry \<Rightarrow> root_MkdirAll io name t
       | OtherEntry \<Rightarrow> (t, None)
       | RegularEntry \<Rightarrow>
           (case (if path_dir name \<noteq> ''.'' then root_MkdirAll io (path_dir name) t else (t, None)) of
              (t, Some err) \<Rightarrow> (t, Some err)
            | (t, None) \<Rightarrow>
                (case ze_Open file of
                   Inl err \<Rightarrow> (t, Some err)
                 | Inr (content, stopped) \<Rightarrow>
                     (case root_OpenFile io name t of
                        (t, Inl err) \<Rightarrow> (t, Some err)
                      | (t, Inr loc) \<Rightarrow> (t(loc \<mapsto> FileNode content), stopped))))))"

text \<open>The first component of the first directory among the entries.\<close>

definition trackTop :: "zip_entry \<Rightarrow> string \<Rightarrow> string" where
  "trackTop file topLevelDir =
    (if topLevelDir = [] \<and> entryMode file = DirEntry then takeWhile (\<lambda>c. c \<noteq> slash) (ze_Name file) else topLevelDir)"

fun extractFrom :: "(string list \<Rightarrow> string option) \<Rightarrow> zip_entry list \<Rightarrow> string \<Rightarrow> dir_tree \<Rightarrow> dir_tree \<times> (string + string)" where
  "extractFrom io [] topDir t = (t, Inr topDir)"
| "extractFrom io (file # files) topDir t =
    (case extractFile io file t of
       (t, Some err) \<Rightarrow> (t, Inl (''failed to extract file: '' @ ze_Name file @ '': '' @ err))
     | (t, None) \<Rightarrow> extractFrom io files (trackTop file topDir) t)"

record http_response =
  hr_StatusCode :: nat
  hr_Body :: "archive_error + string"

record extract_env =
  xe_NewRequest :: "string \<Rightarrow> archive_error option"
  xe_Do :: "string \<Rightarrow> headers \<Rightarrow> archive_error + http_response"
  xe_CreateTemp :: "string option"
  xe_WriteTemp :: "string \<Rightarrow> string option"
  xe_CloseTemp :: "string option"
  xe_OpenReader :: "string \<Rightarrow> string + zip_entry list"
  xe_MkdirTarget :: "string \<Rightarrow> string option"
  xe_OpenRoot :: "string \<Rightarrow> string option"
  xe_io :: "string list \<Rightarrow> string option"

definition extractZip :: "extract_env \<Rightarrow> string \<Rightarrow> string \<Rightarrow> dir_tree \<Rightarrow> dir_tree \<times> (string + string)" where
  "extractZip E zipData targetDir t =
    (case xe_CreateTemp E of Some err \<Rightarrow> (t, Inl (''failed to create temp file: '' @ err)) | None \<Rightarrow>
     case xe_WriteTemp E zipData of Some err \<Rightarrow> (t, Inl (''failed to write zip data: '' @ err)) | None \<Rightarrow>
     case xe_CloseTemp E of Some err \<Rightarrow> (t, Inl (''failed to close temp file: '' @ err)) | None \<Rightarrow>
     case xe_OpenReader E zipData of Inl err \<Rightarrow> (t, Inl (''failed to open zip file: '' @ err)) | Inr files \<Rightarrow>
     case xe_MkdirTarget E targetDir of Some err \<Rightarrow> (t, Inl (''failed to create target directory: '' @ err)) | None \<Rightarrow>
     case xe_OpenRoot E targetDir of Some err \<Rightarrow> (t, Inl (''failed to open target directory: '' @ err)) | None \<Rightarrow>
     case extractFrom (xe_io E) files [] t of
       (t, Inl err) \<Rightarrow> (t, Inl err)
     | (t, Inr topLevelDir) \<Rightarrow> (t, Inr (if topLevelDir \<noteq> [] then path_join [targetDir, topLevelDir] else targetDir)))"

section \<open>Download\<close>

text \<open>The text of an HTTP error, which only the log shows, is left out.\<close>

definition download :: "extract_env \<Rightarrow> string \<Rightarrow> headers \<Rightarrow> archive_error + string" where
  "download E archiveURL authHeaders =
    (case xe_NewRequest E archiveURL of
       Some err \<Rightarrow> Inl (wrap ''failed to create request'' err)
     | None \<Rightarrow>
         (case xe_Do E archiveURL authHeaders of
            Inl err \<Rightarrow> Inl (wrap ''failed to download archive'' err)
          | Inr resp \<Rightarrow>
              (case hr_Body resp of
                 Inl err \<Rightarrow> Inl (wrap ''failed to read response body'' err)
               | Inr data \<Rightarrow> if hr_StatusCode resp \<noteq> 200 then Inl [HttpCause (hr_StatusCode resp)] else Inr data)))"

definition DownloadAndExtract :: "extract_env \<Rightarrow> string \<Rightarrow> string \<Rightarrow> headers \<Rightarrow> dir_tree \<Rightarrow> dir_tree \<times> (archive_error + string)" where
  "DownloadAndExtract E archiveURL targetDir authHeaders t =
    (case download E archiveURL authHeaders of
       Inl err \<Rightarrow> (t, Inl (wrap ''failed to download archive'' err))
     | Inr zipData \<Rightarrow>
         (case extractZip E zipData targetDir t of
            (t, Inl err) \<Rightarrow> (t, Inl [ExtractCause, TextCause ''failed to extract archive'', TextCause err])
          | (t, Inr path) \<Rightarrow> (t, Inr path)))"

section \<open>Where a walk leads\<close>

text \<open>The components of a path, one after the other, never lead out of where they start.\<close>

fun stays_inside :: "nat \<Rightarrow> string list \<Rightarrow> bool" where
  "stays_inside depth [] = True"
| "stays_inside depth (c # cs) =
    (if c = [] \<or> c = ''.'' then stays_inside depth cs
     else if c = ''..'' then 0 < depth \<and> stays_inside (depth - 1) cs
     else stays_inside (Suc depth) cs)"

lemma push_keeps_bottom:
  assumes "st \<noteq> []" "last st = ''..''"
  shows "clean_push False st c \<noteq> [] \<and> last (clean_push False st c) = ''..''"
proof -
  obtain s ss where st: "st = s # ss" using assms(1) by (cases st) auto
  show ?thesis
  proof (cases "s = ''..''")
    case False
    then have "ss \<noteq> []" "last ss = ''..''" using assms(2) st by (auto split: if_splits)
    then show ?thesis using st by (simp add: clean_push_def)
  next
    case True
    then show ?thesis using st assms(2) by (simp add: clean_push_def)
  qed
qed

lemma foldl_keeps_bottom:
  "st \<noteq> [] \<Longrightarrow> last st = ''..'' \<Longrightarrow> foldl (clean_push False) st cs \<noteq> [] \<and> last (foldl (clean_push False) st cs) = ''..''"
  by (induction cs arbitrary: st) (simp_all add: push_keeps_bottom)

lemma last_dots: "st \<noteq> [] \<Longrightarrow> last st = ''..'' \<Longrightarrow> \<not> list_all (\<lambda>c. c \<noteq> ''..'') st"
  unfolding list_all_iff using last_in_set by fastforce

lemma foldl_push_below:
  "list_all (\<lambda>c. c \<noteq> ''..'') st \<Longrightarrow>
    list_all (\<lambda>c. c \<noteq> ''..'') (foldl (clean_push False) st cs) \<longleftrightarrow> stays_inside (length st) cs"
proof (induction cs arbitrary: st)
  case (Cons c cs)
  show ?case
  proof (cases "c = ''..'' \<and> st = []")
    case True
    moreover have "clean_push False [] ''..'' = [''..'']" by (simp add: clean_push_def)
    ultimately show ?thesis using foldl_keeps_bottom[of "[''..'']" cs] last_dots[of "foldl (clean_push False) [''..''] cs"] by simp
  next
    case False
    have "stays_inside (length st) (c # cs) = stays_inside (length (clean_push False st c)) cs" "list_all (\<lambda>c. c \<noteq> ''..'') (clean_push False st c)"
      using False Cons.prems by (cases st; auto simp: clean_push_def)+
    then show ?thesis using Cons.IH by simp
  qed
qed simp

lemma foldl_push_bottom:
  assumes "st = [] \<or> last st = ''..'' \<or> list_all (\<lambda>c. c \<noteq> ''..'') st"
  shows "foldl (clean_push False) st cs = [] \<or> last (foldl (clean_push False) st cs) = ''..'' \<or>
    list_all (\<lambda>c. c \<noteq> ''..'') (foldl (clean_push False) st cs)"
  using assms
proof (induction cs arbitrary: st)
  case (Cons c cs)
  have "clean_push False st c = [] \<or> last (clean_push False st c) = ''..'' \<or> list_all (\<lambda>c. c \<noteq> ''..'') (clean_push False st c)"
  proof (cases st)
    case (Cons s ss)
    then show ?thesis using Cons.prems push_keeps_bottom[of st c] by (auto simp: clean_push_def)
  qed (simp add: clean_push_def)
  then show ?case using Cons.IH by simp
qed simp

lemma clean_starts_outside:
  assumes "\<not> rooted p"
  shows "(path_clean p = ''..'' \<or> has_prefix (path_clean p) ''../'') \<longleftrightarrow> \<not> stays_inside 0 (split_char slash p)"
proof -
  let ?st = "foldl (clean_push False) [] (split_char slash p)"
  have c: "clean_comps p = rev ?st" using assms by (simp add: clean_comps_def)
  have inside: "stays_inside 0 (split_char slash p) \<longleftrightarrow> list_all (\<lambda>c. c \<noteq> ''..'') ?st" using foldl_push_below[of "[]"] by simp
  show ?thesis
  proof (cases "clean_comps p")
    case Nil
    then show ?thesis using assms inside c by (simp add: path_clean_def has_prefix_def)
  next
    case (Cons d ds)
    then have "?st = rev ds @ [d]" using c by (metis rev.simps(2) rev_rev_ident)
    then have l: "?st \<noteq> []" "last ?st = d" by simp_all
    have p: "path_clean p = str_join [slash] (d # ds)" using assms Cons by (simp add: path_clean_def)
    have "slash \<notin> set d" using clean_comps_ok[of d p] Cons by (simp add: comp_ok_def)
    show ?thesis
    proof (cases "d = ''..''")
      case True
      then have "\<not> list_all (\<lambda>c. c \<noteq> ''..'') ?st" using l last_dots by simp
      then show ?thesis using join_dots_head[of ds] inside p True by simp
    next
      case False
      then have "list_all (\<lambda>c. c \<noteq> ''..'') ?st" using foldl_push_bottom[of "[]" "split_char slash p"] l by simp
      then show ?thesis using join_no_slash_head[OF \<open>slash \<notin> set d\<close> False, of ds] inside p by simp
    qed
  qed
qed

lemma no_dots_inside: "list_all (\<lambda>c. c \<noteq> ''..'') cs \<Longrightarrow> stays_inside n cs"
  by (induction cs arbitrary: n) auto

text \<open>The check of an entry's name accepts exactly the relative names whose components, taken one after the
  other, never lead out of the target directory, wherever the dots stand.\<close>

theorem local_names_stay_inside:
  "path_IsLocal p \<longleftrightarrow> p \<noteq> [] \<and> \<not> rooted p \<and> stays_inside 0 (split_char slash p)"
proof (cases "rooted p \<or> p = []")
  case False
  then have r: "\<not> rooted p" by simp
  show ?thesis
  proof (cases "list_ex (\<lambda>c. c = ''.'' \<or> c = ''..'') (split_char slash p)")
    case True
    then show ?thesis using clean_starts_outside[OF r] False by (simp add: path_IsLocal_def Let_def) blast
  next
    case no: False
    then have "list_all (\<lambda>c. c \<noteq> ''..'') (split_char slash p)" by (auto simp: list_ex_iff list_all_iff)
    moreover obtain d ds where d: "split_char slash p = d # ds" by (metis neq_Nil_conv split_char_nonempty)
    moreover have "p = str_join [slash] (d # ds)" using str_join_split_char[of slash p] d by simp
    moreover have "slash \<notin> set d" using split_char_no_sep[of d slash p] d by simp
    ultimately have "\<not> (p = ''..'' \<or> has_prefix p ''../'')" "stays_inside 0 (split_char slash p)"
      using join_no_slash_head[of d ds] no_dots_inside by auto
    then show ?thesis using no False by (simp add: path_IsLocal_def)
  qed
qed (auto simp: path_IsLocal_def)

section \<open>What an extraction leaves\<close>

text \<open>A tree tree_grows when directories are added where nothing stood.\<close>

definition tree_grows :: "dir_tree \<Rightarrow> dir_tree \<Rightarrow> bool" where
  "tree_grows t t' \<longleftrightarrow> (\<forall>p. t' p = t p \<or> t p = None \<and> t' p = Some DirNode)"

definition stands :: "dir_tree \<Rightarrow> string list \<Rightarrow> bool" where
  "stands t cwd \<longleftrightarrow> (\<forall>p. prefix p cwd \<longrightarrow> p \<noteq> [] \<longrightarrow> t p = Some DirNode)"

lemma tree_grows_refl [simp]: "tree_grows t t"
  by (simp add: tree_grows_def)

lemma tree_grows_trans: "tree_grows t u \<Longrightarrow> tree_grows u v \<Longrightarrow> tree_grows t v"
  unfolding tree_grows_def by metis

lemma tree_grows_dir: "tree_grows t u \<Longrightarrow> t p = Some DirNode \<Longrightarrow> u p = Some DirNode"
  unfolding tree_grows_def by (metis option.distinct(1))

lemma stands_push: "stands t cwd \<Longrightarrow> t (cwd @ [c]) = Some DirNode \<Longrightarrow> stands t (cwd @ [c])"
  by (auto simp: stands_def prefix_snoc)

lemma stands_butlast: "stands t cwd \<Longrightarrow> stands t (butlast cwd)"
  unfolding stands_def by (meson prefix_order.trans prefixeq_butlast)

lemma stands_here: "stands t cwd \<Longrightarrow> cwd = [] \<or> t cwd = Some DirNode"
  by (auto simp: stands_def)

lemma push_step:
  assumes "list_all (\<lambda>c. c \<noteq> ''..'') cwd" "c \<noteq> []"
  shows "c = ''.'' \<Longrightarrow> clean_push False (rev cwd) c = rev cwd"
    and "c = ''..'' \<Longrightarrow> cwd \<noteq> [] \<Longrightarrow> clean_push False (rev cwd) c = rev (butlast cwd)"
    and "c \<noteq> ''.'' \<Longrightarrow> c \<noteq> ''..'' \<Longrightarrow> clean_push False (rev cwd) c = rev (cwd @ [c])"
proof -
  assume "c = ''..''" "cwd \<noteq> []"
  then obtain ds d where "cwd = ds @ [d]" "d \<noteq> ''..''" using assms(1) by (cases cwd rule: rev_cases) auto
  then show "clean_push False (rev cwd) c = rev (butlast cwd)" using \<open>c = ''..''\<close> by (simp add: clean_push_def)
qed (use assms in \<open>simp_all add: clean_push_def\<close>)

lemma walkDirs_spec:
  assumes "walkDirs mk io t cwd cs = (t', Inr cwd')" "stands t cwd" "list_all (\<lambda>c. c \<noteq> ''..'') cwd" "list_all (\<lambda>c. c \<noteq> []) cs"
  shows "tree_grows t t' \<and> (\<not> mk \<longrightarrow> t' = t) \<and> stands t' cwd' \<and> cwd' = rev (foldl (clean_push False) (rev cwd) cs)"
  using assms
proof (induction mk io t cwd cs rule: walkDirs.induct)
  case (2 mk io t cwd c cs)
  have ne: "c \<noteq> []" "list_all (\<lambda>c. c \<noteq> []) cs" using "2.prems"(4) by simp_all
  note push = push_step[OF "2.prems"(3) ne(1)]
  consider "c = ''.''" | "c = ''..''" | "c \<noteq> ''.''" "c \<noteq> ''..''" by blast
  then show ?case
  proof cases
    case 1
    then show ?thesis using 2 ne push(1) by auto
  next
    case dd: 2
    then have "cwd \<noteq> []" using "2.prems"(1) by (auto split: if_splits)
    moreover from this have "list_all (\<lambda>c. c \<noteq> ''..'') (butlast cwd)"
      using "2.prems"(3) unfolding list_all_iff by (meson in_set_butlastD)
    ultimately show ?thesis using 2 dd ne push(2) stands_butlast[of t cwd] by auto
  next
    case 3
    have nd: "list_all (\<lambda>c. c \<noteq> ''..'') (cwd @ [c])" using "2.prems"(3) 3 by simp
    show ?thesis
    proof (cases "t (cwd @ [c])")
      case (Some n)
      then have "n = DirNode" using "2.prems"(1) 3 by (cases n) auto
      then have "tree_grows t t' \<and> (\<not> mk \<longrightarrow> t' = t) \<and> stands t' cwd' \<and> cwd' = rev (foldl (clean_push False) (rev (cwd @ [c])) cs)"
        using 2(4)[OF 3 Some] "2.prems"(1,2) 3 Some nd ne stands_push[of t cwd c] by auto
      then show ?thesis using 3 push(3) by auto
    next
      case None
      then have mk: "mk" "io (cwd @ [c]) = None" using "2.prems"(1) 3 by (auto split: if_splits option.splits)
      let ?u = "t(cwd @ [c] \<mapsto> DirNode)"
      have g: "tree_grows t ?u" using None by (simp add: tree_grows_def)
      have w: "walkDirs mk io ?u (cwd @ [c]) cs = (t', Inr cwd')" using "2.prems"(1) 3 None mk by simp
      have "stands ?u (cwd @ [c])" using "2.prems"(2) tree_grows_dir[OF g] by (auto simp: stands_def prefix_snoc)
      then have "tree_grows ?u t' \<and> (\<not> mk \<longrightarrow> t' = ?u) \<and> stands t' cwd' \<and> cwd' = rev (foldl (clean_push False) (rev (cwd @ [c])) cs)"
        by (intro 2(3)[OF 3 None mk w] nd ne(2))
      then show ?thesis using tree_grows_trans[OF g] mk push(3) 3 by auto
    qed
  qed
qed simp

lemma foldl_push_kept: "foldl (clean_push r) st (filter (\<lambda>c. c \<noteq> [] \<and> c \<noteq> ''.'') cs) = foldl (clean_push r) st cs"
  by (induction cs arbitrary: st) (simp_all add: clean_push_def)

lemma filter_implied: "(\<And>x. P x \<Longrightarrow> Q x) \<Longrightarrow> filter P (filter Q xs) = filter P xs"
  by (induction xs) auto

lemma filter_butlast:
  assumes "\<And>x. P x \<Longrightarrow> Q x" "xs \<noteq> []"
  shows "filter P (filter Q (butlast xs) @ [last xs]) = filter P xs"
proof -
  obtain ys y where "xs = ys @ [y]" using assms(2) by (cases xs rule: rev_cases) auto
  then show ?thesis using filter_implied[OF assms(1)] by simp
qed

lemma root_parts_kept:
  "filter (\<lambda>c. c \<noteq> [] \<and> c \<noteq> ''.'') (root_parts p) = filter (\<lambda>c. c \<noteq> [] \<and> c \<noteq> ''.'') (split_char slash p)"
  using filter_butlast[of "\<lambda>c. c \<noteq> [] \<and> c \<noteq> ''.''" "\<lambda>c. c \<noteq> ''.''" "filter (\<lambda>c. c \<noteq> []) (split_char slash p)"]
    filter_implied[of "\<lambda>c. c \<noteq> [] \<and> c \<noteq> ''.''" "\<lambda>c. c \<noteq> []" "split_char slash p"]
  by (cases "filter (\<lambda>c. c \<noteq> []) (split_char slash p) = []") (auto simp: root_parts_def Let_def)

lemma root_parts_clean: "\<not> rooted p \<Longrightarrow> rev (foldl (clean_push False) [] (root_parts p)) = clean_comps p"
  using root_parts_kept[of p] foldl_push_kept[of False "[]" "root_parts p"] foldl_push_kept[of False "[]" "split_char slash p"]
  by (simp add: clean_comps_def)

lemma root_parts_ne: "list_all (\<lambda>c. c \<noteq> []) (root_parts p)"
proof -
  let ?cs = "filter (\<lambda>c. c \<noteq> []) (split_char slash p)"
  have "last ?cs \<noteq> []" if "?cs \<noteq> []" using last_in_set[OF that] by auto
  then show ?thesis by (auto simp: root_parts_def Let_def list_all_iff dest: in_set_butlastD)
qed

lemma mkdirAll_spec:
  assumes "root_MkdirAll io name t = (t', None)"
  shows "tree_grows t t' \<and> stands t' (clean_comps name)"
proof -
  have r: "\<not> rooted name" using assms by (auto simp: root_MkdirAll_def split: if_splits)
  obtain cwd where w: "walkDirs True io t [] (root_parts name) = (t', Inr cwd)"
    using assms by (auto simp: root_MkdirAll_def split: if_splits prod.splits sum.splits)
  show ?thesis using walkDirs_spec[OF w _ _ root_parts_ne] root_parts_clean[OF r] by (simp add: stands_def)
qed

lemma openFile_spec:
  assumes "root_OpenFile io name t = (t', Inr loc)" "path_IsLocal name"
  shows "t' = t(loc \<mapsto> FileNode []) \<and> t loc \<noteq> Some DirNode \<and> loc = clean_comps name \<and> loc \<noteq> []"
proof -
  have r: "\<not> rooted name" "name \<noteq> []" using assms(1) by (auto simp: root_OpenFile_def split: if_splits)
  let ?ps = "root_parts name" let ?c = "last ?ps"
  obtain u cwd where w: "walkDirs False io t [] (butlast ?ps) = (u, Inr cwd)"
    using assms(1) by (auto simp: root_OpenFile_def r split: prod.splits sum.splits)
  have "list_all (\<lambda>c. c \<noteq> []) (butlast ?ps)" using root_parts_ne[of name] unfolding list_all_iff by (meson in_set_butlastD)
  then have u: "u = t" "cwd = rev (foldl (clean_push False) [] (butlast ?ps))"
    using walkDirs_spec[OF w] by (simp_all add: stands_def)
  have f: "?c \<noteq> ''.''" "?c \<noteq> ''..''" "t (cwd @ [?c]) \<noteq> Some DirNode" "t' = t(cwd @ [?c] \<mapsto> FileNode [])" "loc = cwd @ [?c]"
    using assms(1) by (auto simp: root_OpenFile_def r w u(1) Let_def split: if_splits option.splits node.splits)
  have "?ps \<noteq> []"
  proof
    assume "?ps = []"
    then have n: "filter (\<lambda>c. c \<noteq> []) (split_char slash name) = []" by (auto simp: root_parts_def Let_def split: if_splits)
    obtain d ds where d: "split_char slash name = d # ds" by (metis neq_Nil_conv split_char_nonempty)
    then have "d = []" using n by (auto split: if_splits)
    then have "rooted name" using str_join_split_char[of slash name] d r(2) by (cases ds) (auto simp: rooted_def)
    then show False using r(1) by simp
  qed
  then have ps: "?ps = butlast ?ps @ [?c]" "?c \<noteq> []" using root_parts_ne[of name] by (simp_all add: list_all_iff)
  then have "foldl (clean_push False) [] ?ps = ?c # foldl (clean_push False) [] (butlast ?ps)"
    using f(1,2) by (metis (no_types, lifting) clean_push_def foldl_Cons foldl_Nil foldl_append)
  then have "clean_comps name = cwd @ [?c]" using root_parts_clean[OF r(1)] u(2) by (metis rev.simps(2))
  then show ?thesis using f by simp
qed

text \<open>What the archive has at a path: the whole content of the last regular entry with that path.\<close>

definition entryContent :: "zip_entry \<Rightarrow> string option" where
  "entryContent e = (case ze_Open e of Inr (content, None) \<Rightarrow> Some content | _ \<Rightarrow> None)"

fun fileAt :: "zip_entry list \<Rightarrow> string list \<Rightarrow> string option" where
  "fileAt [] p = None"
| "fileAt (e # es) p =
    (case fileAt es p of
       Some c \<Rightarrow> Some c
     | None \<Rightarrow> if entryMode e = RegularEntry \<and> clean_comps (ze_Name e) = p then entryContent e else None)"

definition archive_stands :: "zip_entry list \<Rightarrow> dir_tree \<Rightarrow> dir_tree \<Rightarrow> bool" where
  "archive_stands es t t' \<longleftrightarrow>
    (\<forall>p. case fileAt es p of
           Some c \<Rightarrow> t' p = Some (FileNode c)
         | None \<Rightarrow> t' p = t p \<or> t p = None \<and> t' p = Some DirNode)"

definition dirStands :: "dir_tree \<Rightarrow> zip_entry \<Rightarrow> bool" where
  "dirStands t e \<longleftrightarrow> entryMode e = DirEntry \<longrightarrow> stands t (clean_comps (ze_Name e))"

text \<open>One entry adds directories and, when it is regular, its file, never in the place of a directory.\<close>

lemma extractFile_spec:
  assumes "extractFile io e t = (t', None)"
  shows "\<exists>u. tree_grows t u \<and> dirStands u e \<and>
    (if entryMode e = RegularEntry
     then (\<exists>c. entryContent e = Some c \<and> t' = u(clean_comps (ze_Name e) \<mapsto> FileNode c) \<and> u (clean_comps (ze_Name e)) \<noteq> Some DirNode \<and> clean_comps (ze_Name e) \<noteq> [])
     else t' = u)"
proof -
  have loc: "path_IsLocal (ze_Name e)" using assms by (auto simp: extractFile_def Let_def split: if_splits)
  show ?thesis
  proof (cases "entryMode e")
    case DirEntry
    then have "root_MkdirAll io (ze_Name e) t = (t', None)" using assms loc by (simp add: extractFile_def)
    then show ?thesis using mkdirAll_spec DirEntry by (intro exI[of _ t']) (auto simp: dirStands_def)
  next
    case RegularEntry
    obtain u where u: "(if path_dir (ze_Name e) \<noteq> ''.'' then root_MkdirAll io (path_dir (ze_Name e)) t else (t, None)) = (u, None)"
      using assms loc RegularEntry by (auto simp: extractFile_def Let_def split: prod.splits option.splits if_splits)
    obtain c s where c: "ze_Open e = Inr (c, s)"
      using assms loc RegularEntry u by (auto simp: extractFile_def Let_def split: sum.splits)
    obtain v l where v: "root_OpenFile io (ze_Name e) u = (v, Inr l)" "t' = v(l \<mapsto> FileNode c)" "s = None"
      using assms loc RegularEntry u c by (auto simp: extractFile_def Let_def split: prod.splits sum.splits)
    have "tree_grows t u" using u mkdirAll_spec by (auto split: if_splits)
    then show ?thesis using openFile_spec[OF v(1) loc] v(2,3) RegularEntry c
      by (intro exI[of _ u]) (auto simp: dirStands_def entryContent_def)
  next
    case OtherEntry
    then show ?thesis using assms loc by (intro exI[of _ t]) (auto simp: extractFile_def dirStands_def)
  qed
qed

lemma extractFile_dirs:
  assumes "extractFile io e t = (t', None)" "t p = Some DirNode"
  shows "t' p = Some DirNode"
  using extractFile_spec[OF assms(1)] tree_grows_dir assms(2) by (auto split: if_splits)

lemma extractFrom_dirs:
  "extractFrom io es top0 t = (t', Inr r) \<Longrightarrow> t p = Some DirNode \<Longrightarrow> t' p = Some DirNode"
  by (induction es arbitrary: top0 t) (auto split: prod.splits option.splits dest: extractFile_dirs)

lemma extractFrom_spec:
  assumes "extractFrom io es top0 t = (t', Inr r)"
  shows "archive_stands es t t' \<and> list_all (dirStands t') es"
  using assms
proof (induction es arbitrary: top0 t)
  case Nil
  then show ?case by (simp add: archive_stands_def)
next
  case (Cons e es)
  obtain s where s: "extractFile io e t = (s, None)" using Cons.prems by (auto split: prod.splits option.splits)
  have rest: "extractFrom io es (trackTop e top0) s = (t', Inr r)" using Cons.prems s by simp
  have ih: "archive_stands es s t'" "list_all (dirStands t') es" using Cons.IH[OF rest] by simp_all
  obtain u where u: "tree_grows t u" "dirStands u e"
    "if entryMode e = RegularEntry
     then (\<exists>c. entryContent e = Some c \<and> s = u(clean_comps (ze_Name e) \<mapsto> FileNode c) \<and> u (clean_comps (ze_Name e)) \<noteq> Some DirNode \<and> clean_comps (ze_Name e) \<noteq> [])
     else s = u"
    using extractFile_spec[OF s] by blast
  have "dirStands t' e"
  proof (cases "entryMode e = DirEntry")
    case True
    then have "s = u" using u(3) by simp
    then show ?thesis using u(2) True extractFrom_dirs[OF rest] by (simp add: dirStands_def stands_def)
  qed (simp add: dirStands_def)
  moreover have "archive_stands (e # es) t t'"
    unfolding archive_stands_def
  proof
    fix p
    have i: "case fileAt es p of Some c \<Rightarrow> t' p = Some (FileNode c) | None \<Rightarrow> t' p = s p \<or> s p = None \<and> t' p = Some DirNode"
      using ih(1) by (simp add: archive_stands_def)
    have g: "u p = t p \<or> t p = None \<and> u p = Some DirNode" using u(1) by (simp add: tree_grows_def)
    show "case fileAt (e # es) p of Some c \<Rightarrow> t' p = Some (FileNode c) | None \<Rightarrow> t' p = t p \<or> t p = None \<and> t' p = Some DirNode"
      using i g u(3) by (auto split: option.splits if_splits)
  qed
  ultimately show ?case using ih(2) by simp
qed

text \<open>C11 A successful download leaves the archive that the server answered with status 200, and nothing else: below the
  target directory stands every regular file with its whole content, every directory of the archive exists,
  no other file is made or changed and no directory is replaced.\<close>

theorem download_leaves_the_archive:
  assumes "DownloadAndExtract E url targetDir auth t = (t', Inr path)"
  shows "case xe_Do E url auth of
      Inl err \<Rightarrow> False
    | Inr resp \<Rightarrow> hr_StatusCode resp = 200 \<and>
        (case hr_Body resp of
           Inl err \<Rightarrow> False
         | Inr data \<Rightarrow>
             (case xe_OpenReader E data of
                Inl err \<Rightarrow> False
              | Inr files \<Rightarrow> archive_stands files t t' \<and> list_all (dirStands t') files \<and> (\<forall>p. t p = Some DirNode \<longrightarrow> t' p = Some DirNode)))"
proof -
  obtain data where d: "download E url auth = Inr data" using assms by (auto simp: DownloadAndExtract_def split: sum.splits)
  then obtain resp where r: "xe_Do E url auth = Inr resp" "hr_Body resp = Inr data" "hr_StatusCode resp = 200"
    by (auto simp: download_def split: option.splits sum.splits if_splits)
  have "extractZip E data targetDir t = (t', Inr path)"
    using assms d by (auto simp: DownloadAndExtract_def split: sum.splits prod.splits)
  then obtain files top0 where f: "xe_OpenReader E data = Inr files" "extractFrom (xe_io E) files [] t = (t', Inr top0)"
    by (auto simp: extractZip_def split: option.splits sum.splits prod.splits)
  show ?thesis using extractFrom_spec[OF f(2)] extractFrom_dirs[OF f(2)] r f(1) by auto
qed

section \<open>Archives\<close>

definition demo_entry :: "string \<Rightarrow> string \<Rightarrow> zip_entry" where
  "demo_entry name content = \<lparr>ze_Name = name, ze_Kind = RegularEntry, ze_Open = Inr (content, None)\<rparr>"

definition demo_link :: zip_entry where
  "demo_link = \<lparr>ze_Name = ''r-1/link'', ze_Kind = OtherEntry, ze_Open = Inr (''/etc'', None)\<rparr>"

definition demo_download_env :: extract_env where
  "demo_download_env = \<lparr>xe_NewRequest = \<lambda>_. None, xe_Do = \<lambda>url auth. Inr \<lparr>hr_StatusCode = 200, hr_Body = Inr ''zip''\<rparr>,
     xe_CreateTemp = None, xe_WriteTemp = \<lambda>_. None, xe_CloseTemp = None,
     xe_OpenReader = \<lambda>_. Inr [demo_entry ''r-1/'' [], demo_entry ''r-1/a.yaml'' ''A'', demo_link, demo_entry ''r-1/d/b.yaml'' ''B''],
     xe_MkdirTarget = \<lambda>_. None, xe_OpenRoot = \<lambda>_. None, xe_io = \<lambda>_. None\<rparr>"

definition demo_download :: "dir_tree \<times> (archive_error + string)" where
  "demo_download = DownloadAndExtract demo_download_env ''https://h/r'' ''/c/k'' [] (\<lambda>_. None)"

lemma demo_download_path: "snd demo_download = Inr ''/c/k/r-1''"
  by code_simp

theorem download_leaves_the_archive_witness:
  "fst demo_download [''r-1'', ''a.yaml''] = Some (FileNode ''A'') \<and> fst demo_download [''r-1'', ''link''] = None \<and>
    stands (fst demo_download) [''r-1'']"
proof -
  have d: "DownloadAndExtract demo_download_env ''https://h/r'' ''/c/k'' [] (\<lambda>_. None) = (fst demo_download, Inr ''/c/k/r-1'')"
    using demo_download_path by (metis demo_download_def prod.collapse)
  have a: "fst demo_download [''r-1'', ''a.yaml''] = Some (FileNode ''A'')" "fst demo_download [''r-1'', ''link''] = None" by code_simp+
  have c: "entryMode (demo_entry ''r-1/'' []) = DirEntry" "clean_comps (ze_Name (demo_entry ''r-1/'' [])) = [''r-1'']" by code_simp+
  have "dirStands (fst demo_download) (demo_entry ''r-1/'' [])"
    using download_leaves_the_archive[OF d] by (simp add: demo_download_env_def)
  then show ?thesis using a c by (simp add: dirStands_def)
qed

text \<open>An archive without a top-level directory is read from the first directory in it, which leaves out the files beside
  that directory.\<close>

lemma first_directory_is_taken_for_top:
  "extractFrom (\<lambda>_. None) [demo_entry ''a.yaml'' ''A'', demo_entry ''d/'' []] [] t = (t', Inr top0) \<Longrightarrow> top0 = ''d''"
  by (auto simp: trackTop_def entryMode_def demo_entry_def has_suffix_def split: prod.splits option.splits if_splits)

lemma unrooted_archive_is_cut:
  "snd (extractZip (demo_download_env\<lparr>xe_OpenReader := \<lambda>_. Inr [demo_entry ''a.yaml'' ''A'', demo_entry ''d/'' [], demo_entry ''d/b.yaml'' ''B'']\<rparr>)
      [] ''/c/k'' (\<lambda>_. None)) = Inr ''/c/k/d''"
  by code_simp

text \<open>Names with dots inside the directory are accepted, yet their file is not made when the directory they pass through
  is missing.\<close>

lemma dots_through_missing_directory:
  "path_IsLocal ''x/../a.yaml'' \<and> snd (extractFile (\<lambda>_. None) (demo_entry ''x/../a.yaml'' ''A'') (\<lambda>_. None)) = Some ''no such file or directory''"
  by code_simp

end
