(* ===== verification/ChatProviders.thy ===== *)
theory ChatProviders
  imports Complex_Main AiReview AiSummary
begin

text \<open>
  \<open>pkg/aiproviders/anthropic/chat.go\<close> and \<open>openai/chat.go\<close>: how the conversation of the agent becomes a request
  of either vendor, and how a reply comes back.  The two clients and the decoding of JSON belong to
  libraries and are arguments; a temperature is a real number.
\<close>

section \<open>Requests\<close>

record tool_def =
  td_Name :: string
  td_Description :: string
  td_Parameters :: string

record full_request =
  fr_Model :: string
  fr_SystemPrompt :: string
  fr_Messages :: "chat_message list"
  fr_Tools :: "tool_def list"
  fr_MaxTokens :: int
  fr_Temperature :: real

text \<open>\<open>jl_schema\<close> yields the properties and the required fields of a schema, as far as it could be decoded;
  \<open>jl_params\<close> the schema itself.\<close>

record 'j json_lib =
  jl_parse :: "string \<Rightarrow> 'j option"
  jl_empty :: 'j
  jl_schema :: "string \<Rightarrow> 'j \<times> string list"
  jl_params :: "string \<Rightarrow> 'j"

section \<open>Anthropic\<close>

text \<open>A text block, with whether the prefix up to it is cached; a call of a tool; its result.\<close>

datatype 'j a_block = AText string bool | AToolUse string 'j string | AToolResult string string bool

datatype 'j a_message = AAssistant "'j a_block list" | AUser "'j a_block list"

record 'j a_tool =
  at_Name :: string
  at_Description :: string
  at_Properties :: 'j
  at_Required :: "string list"

record 'j a_params =
  ap_Model :: string
  ap_MaxTokens :: int
  ap_Messages :: "'j a_message list"
  ap_System :: "string option"
  ap_Temperature :: "real option"
  ap_Tools :: "'j a_tool list"

definition toolInput :: "'j json_lib \<Rightarrow> string \<Rightarrow> 'j" where
  "toolInput J arguments = (case jl_parse J arguments of Some input \<Rightarrow> input | None \<Rightarrow> jl_empty J)"

definition anthropicMessage :: "'j json_lib \<Rightarrow> chat_message \<Rightarrow> 'j a_message" where
  "anthropicMessage J m =
    (case cm_Role m of
       RoleAssistant \<Rightarrow>
         AAssistant ((if cm_Text m \<noteq> [] then [AText (cm_Text m) False] else []) @
           map (\<lambda>tc. AToolUse (tc_ID tc) (toolInput J (tc_Arguments tc)) (tc_Name tc)) (cm_ToolCalls m))
     | RoleUser \<Rightarrow>
         if cm_ToolResults m \<noteq> []
         then AUser (map (\<lambda>tr. AToolResult (tr_ToolCallID tr) (tr_Content tr) (tr_IsError tr)) (cm_ToolResults m))
         else AUser [AText (cm_Text m) True])"

definition anthropicMessages :: "'j json_lib \<Rightarrow> chat_message list \<Rightarrow> 'j a_message list" where
  "anthropicMessages J msgs = map (anthropicMessage J) msgs"

definition anthropicTools :: "'j json_lib \<Rightarrow> tool_def list \<Rightarrow> 'j a_tool list" where
  "anthropicTools J tools =
    map (\<lambda>t. \<lparr>at_Name = td_Name t, at_Description = td_Description t,
                at_Properties = fst (jl_schema J (td_Parameters t)), at_Required = snd (jl_schema J (td_Parameters t))\<rparr>) tools"

datatype a_reply_block = AReplyText string | AReplyToolUse string string string | AReplyOther

record a_reply =
  ay_StopReason :: string
  ay_Content :: "a_reply_block list"

definition anthropicResponse :: "a_reply \<Rightarrow> chat_response" where
  "anthropicResponse msg =
    \<lparr>rs_Text = concat (map (\<lambda>b. case b of AReplyText t \<Rightarrow> t | _ \<Rightarrow> []) (ay_Content msg)),
     rs_ToolCalls = concat (map (\<lambda>b. case b of
         AReplyToolUse i name input \<Rightarrow> [\<lparr>tc_ID = i, tc_Name = name, tc_Arguments = input\<rparr>] | _ \<Rightarrow> []) (ay_Content msg)),
     rs_StopReason = (if ay_StopReason msg = ''tool_use'' then StopToolUse
                      else if ay_StopReason msg = ''max_tokens'' then StopMaxTokens else StopEndTurn)\<rparr>"

definition anthropicParams :: "'j json_lib \<Rightarrow> chat_provider \<Rightarrow> full_request \<Rightarrow> 'j a_params" where
  "anthropicParams J p req =
    \<lparr>ap_Model = (if fr_Model req \<noteq> [] then fr_Model req else cp_model p),
     ap_MaxTokens = (if fr_MaxTokens req = 0 then 4096 else fr_MaxTokens req),
     ap_Messages = anthropicMessages J (fr_Messages req),
     ap_System = (if fr_SystemPrompt req \<noteq> [] then Some (fr_SystemPrompt req) else None),
     ap_Temperature = (if fr_Temperature req > 0 then Some (fr_Temperature req) else None),
     ap_Tools = (if fr_Tools req \<noteq> [] then anthropicTools J (fr_Tools req) else [])\<rparr>"

definition anthropicChat :: "'j json_lib \<Rightarrow> ('j a_params \<Rightarrow> string + a_reply) \<Rightarrow> chat_provider \<Rightarrow> full_request \<Rightarrow> string + chat_response" where
  "anthropicChat J create p req =
    (case create (anthropicParams J p req) of
       Inl err \<Rightarrow> Inl (''anthropic chat: '' @ err)
     | Inr msg \<Rightarrow> Inr (anthropicResponse msg))"

section \<open>OpenAI\<close>

datatype o_message =
    OSystem string
  | OAssistant string
  | OAssistantCalls "string option" "(string \<times> string \<times> string) list"
  | OTool string string
  | OUser string

record 'j o_tool =
  ot_Name :: string
  ot_Description :: string
  ot_Parameters :: 'j

record 'j o_params =
  op_Model :: string
  op_Messages :: "o_message list"
  op_MaxTokens :: "int option"
  op_Temperature :: "real option"
  op_Tools :: "'j o_tool list"

definition openaiMessage :: "chat_message \<Rightarrow> o_message list" where
  "openaiMessage m =
    (case cm_Role m of
       RoleAssistant \<Rightarrow>
         if cm_ToolCalls m = [] then [OAssistant (cm_Text m)]
         else [OAssistantCalls (if cm_Text m \<noteq> [] then Some (cm_Text m) else None)
                (map (\<lambda>tc. (tc_ID tc, tc_Name tc, tc_Arguments tc)) (cm_ToolCalls m))]
     | RoleUser \<Rightarrow>
         if cm_ToolResults m \<noteq> [] then map (\<lambda>tr. OTool (tr_Content tr) (tr_ToolCallID tr)) (cm_ToolResults m)
         else [OUser (cm_Text m)])"

definition openaiMessages :: "string \<Rightarrow> chat_message list \<Rightarrow> o_message list" where
  "openaiMessages systemPrompt msgs =
    (if systemPrompt \<noteq> [] then [OSystem systemPrompt] else []) @ concat (map openaiMessage msgs)"

definition openaiTools :: "'j json_lib \<Rightarrow> tool_def list \<Rightarrow> 'j o_tool list" where
  "openaiTools J tools =
    map (\<lambda>t. \<lparr>ot_Name = td_Name t, ot_Description = td_Description t, ot_Parameters = jl_params J (td_Parameters t)\<rparr>) tools"

record o_choice =
  oc_Content :: string
  oc_FinishReason :: string
  oc_ToolCalls :: "(string \<times> string \<times> string) list"

definition openaiResponse :: "o_choice \<Rightarrow> chat_response" where
  "openaiResponse choice =
    \<lparr>rs_Text = oc_Content choice,
     rs_ToolCalls = map (\<lambda>(i, name, args). \<lparr>tc_ID = i, tc_Name = name, tc_Arguments = args\<rparr>) (oc_ToolCalls choice),
     rs_StopReason = (if oc_FinishReason choice = ''tool_calls'' \<or> oc_FinishReason choice = ''function_call'' then StopToolUse
                      else if oc_FinishReason choice = ''length'' then StopMaxTokens else StopEndTurn)\<rparr>"

definition openaiParams :: "'j json_lib \<Rightarrow> chat_provider \<Rightarrow> full_request \<Rightarrow> 'j o_params" where
  "openaiParams J p req =
    \<lparr>op_Model = (if fr_Model req \<noteq> [] then fr_Model req else cp_model p),
     op_Messages = openaiMessages (fr_SystemPrompt req) (fr_Messages req),
     op_MaxTokens = (if fr_MaxTokens req > 0 then Some (fr_MaxTokens req) else None),
     op_Temperature = (if fr_Temperature req > 0 then Some (fr_Temperature req) else None),
     op_Tools = (if fr_Tools req \<noteq> [] then openaiTools J (fr_Tools req) else [])\<rparr>"

definition openaiChat :: "'j json_lib \<Rightarrow> ('j o_params \<Rightarrow> string + o_choice list) \<Rightarrow> chat_provider \<Rightarrow> full_request \<Rightarrow> string + chat_response" where
  "openaiChat J create p req =
    (case create (openaiParams J p req) of
       Inl err \<Rightarrow> Inl (''openai chat: '' @ err)
     | Inr [] \<Rightarrow> Inl ''openai chat: no choices returned''
     | Inr (choice # _) \<Rightarrow> Inr (openaiResponse choice))"

section \<open>What a request says\<close>

text \<open>The content of a request, whatever its form: what was said, which tools were called, what was answered.\<close>

datatype 'j chat_item = Said chat_role string | Called string string 'j | Answered string string

fun a_item :: "chat_role \<Rightarrow> 'j a_block \<Rightarrow> 'j chat_item" where
  "a_item r (AText t cached) = Said r t"
| "a_item r (AToolUse i input name) = Called i name input"
| "a_item r (AToolResult i content isErr) = Answered i content"

fun a_items :: "'j a_message \<Rightarrow> 'j chat_item list" where
  "a_items (AAssistant bs) = map (a_item RoleAssistant) bs"
| "a_items (AUser bs) = map (a_item RoleUser) bs"

fun o_items :: "'j json_lib \<Rightarrow> o_message \<Rightarrow> 'j chat_item list" where
  "o_items J (OSystem t) = []"
| "o_items J (OAssistant t) = [Said RoleAssistant t]"
| "o_items J (OAssistantCalls t cs) =
    (case t of None \<Rightarrow> [] | Some t \<Rightarrow> [Said RoleAssistant t]) @ map (\<lambda>(i, name, args). Called i name (toolInput J args)) cs"
| "o_items J (OTool content i) = [Answered i content]"
| "o_items J (OUser t) = [Said RoleUser t]"

text \<open>Nothing is said by an empty text.\<close>

definition says :: "'j chat_item \<Rightarrow> bool" where
  "says it = (case it of Said r t \<Rightarrow> t \<noteq> [] | _ \<Rightarrow> True)"

definition anthropicItems :: "'j json_lib \<Rightarrow> chat_message list \<Rightarrow> 'j chat_item list" where
  "anthropicItems J msgs = filter says (concat (map a_items (anthropicMessages J msgs)))"

definition openaiItems :: "'j json_lib \<Rightarrow> string \<Rightarrow> chat_message list \<Rightarrow> 'j chat_item list" where
  "openaiItems J systemPrompt msgs = filter says (concat (map (o_items J) (openaiMessages systemPrompt msgs)))"

lemma message_items:
  "filter says (a_items (anthropicMessage J m)) = filter says (concat (map (o_items J) (openaiMessage m)))"
  by (cases "cm_Role m") (auto simp: anthropicMessage_def openaiMessage_def says_def comp_def concat_map_singleton)

lemma same_items: "anthropicItems J msgs = openaiItems J systemPrompt msgs"
proof -
  have "filter says (concat (map a_items (map (anthropicMessage J) msgs))) =
      filter says (concat (map (o_items J) (concat (map openaiMessage msgs))))"
  proof (induction msgs)
    case (Cons m msgs)
    then show ?case using message_items[of J m] by simp
  qed simp
  moreover have "filter says (concat (map (o_items J) (if systemPrompt \<noteq> [] then [OSystem systemPrompt] else []))) = []"
    by simp
  ultimately show ?thesis by (simp add: anthropicItems_def openaiItems_def anthropicMessages_def openaiMessages_def)
qed

text \<open>Both providers are told the same conversation: the same texts, calls and results under the same ids, in the
  same order, with the same arguments where they can be decoded and with none where they cannot.\<close>

theorem providers_are_told_the_same:
  "anthropicItems J msgs = openaiItems J systemPrompt msgs"
  by (rule same_items)

section \<open>Calls and results\<close>

text \<open>What both vendors demand: the results of the calls follow them, each once and in order, and nothing is said
  in between.\<close>

fun settled :: "string list \<Rightarrow> 'j chat_item list \<Rightarrow> bool" where
  "settled pending [] \<longleftrightarrow> pending = []"
| "settled pending (Said r t # its) \<longleftrightarrow> pending = [] \<and> settled [] its"
| "settled pending (Called i name input # its) \<longleftrightarrow> settled (pending @ [i]) its"
| "settled pending (Answered i content # its) \<longleftrightarrow> (case pending of [] \<Rightarrow> False | p # ps \<Rightarrow> p = i \<and> settled ps its)"

lemma settled_calls:
  "settled pending (map (\<lambda>tc. Called (tc_ID tc) (tc_Name tc) (f tc)) calls @ its) = settled (pending @ map tc_ID calls) its"
  by (induction calls arbitrary: pending) simp_all

lemma settled_results:
  "settled (map tr_ToolCallID results @ pending) (map (\<lambda>tr. Answered (tr_ToolCallID tr) (tr_Content tr)) results @ its) = settled pending its"
  by (induction results) simp_all

lemma says_called [simp]: "filter says (map (\<lambda>tc. Called (f tc) (g tc) (h tc)) calls) = map (\<lambda>tc. Called (f tc) (g tc) (h tc)) calls"
  by (induction calls) (simp_all add: says_def)

lemma says_answered [simp]: "filter says (map (\<lambda>tr. Answered (f tr) (g tr)) results) = map (\<lambda>tr. Answered (f tr) (g tr)) results"
  by (induction results) (simp_all add: says_def)

lemma settled_turn:
  assumes "cm_Role a = RoleAssistant" "cm_Role u = RoleUser" "map tr_ToolCallID (cm_ToolResults u) = map tc_ID (cm_ToolCalls a)"
  shows "settled [] (filter says (a_items (anthropicMessage J a)) @ filter says (a_items (anthropicMessage J u)) @ its) = settled [] its"
proof -
  have a: "filter says (a_items (anthropicMessage J a)) =
      (if cm_Text a \<noteq> [] then [Said RoleAssistant (cm_Text a)] else []) @
        map (\<lambda>tc. Called (tc_ID tc) (tc_Name tc) (toolInput J (tc_Arguments tc))) (cm_ToolCalls a)"
    using assms(1) by (simp add: anthropicMessage_def comp_def says_def[of "Said _ _"])
  have u: "filter says (a_items (anthropicMessage J u)) =
      (if cm_ToolResults u \<noteq> [] then map (\<lambda>tr. Answered (tr_ToolCallID tr) (tr_Content tr)) (cm_ToolResults u)
       else if cm_Text u \<noteq> [] then [Said RoleUser (cm_Text u)] else [])"
    using assms(2) by (simp add: anthropicMessage_def comp_def says_def[of "Said _ _"])
  have "settled [] (map (\<lambda>tc. Called (tc_ID tc) (tc_Name tc) (toolInput J (tc_Arguments tc))) (cm_ToolCalls a) @
      filter says (a_items (anthropicMessage J u)) @ its) = settled [] its"
    using settled_results[of "cm_ToolResults u" "[]" its] assms(3) unfolding settled_calls u by auto
  then show ?thesis unfolding a by simp
qed

lemma settled_turns: "turns_ok ms \<Longrightarrow> settled [] (anthropicItems J ms)"
proof (induction ms rule: turns_ok.induct)
  case (3 a u ms)
  then show ?case using settled_turn[of a u J "anthropicItems J ms"] by (simp add: anthropicItems_def anthropicMessages_def)
qed (simp_all add: anthropicItems_def anthropicMessages_def)

lemma settled_conversation:
  assumes "turns_ok ms"
  shows "settled [] (anthropicItems J (userMessage prompt # ms))"
proof -
  have "anthropicItems J (userMessage prompt # ms) = (if prompt \<noteq> [] then [Said RoleUser prompt] else []) @ anthropicItems J ms"
    by (simp add: anthropicItems_def anthropicMessages_def userMessage_def anthropicMessage_def says_def)
  then show ?thesis using settled_turns[OF assms, of J] by simp
qed

lemma turns_ok_take: "turns_ok ms \<Longrightarrow> turns_ok (take (2 * k) ms)"
proof (induction ms arbitrary: k rule: turns_ok.induct)
  case (3 a u ms)
  then show ?case by (cases k) simp_all
qed simp_all

text \<open>C27 Every request the agent makes of either provider keeps the rule of the vendors that calls of tools are followed
  at once by their results, each under its id and in order.\<close>

theorem requests_answer_their_calls:
  assumes "agent_Run chat sched maxTurns prompt tools st = (out, conversation, st')" "\<And>t n. mset (sched t n) = mset [0..<n]"
  shows "settled [] (anthropicItems J (take (Suc (2 * k)) conversation)) \<and> settled [] (openaiItems J' systemPrompt (take (Suc (2 * k)) conversation))"
proof -
  obtain ms where c: "conversation = userMessage prompt # ms" "turns_ok ms"
    using agentLoop_turns[of chat sched tools maxTurns 0 "nat maxTurns" "userMessage prompt" "[]" st out conversation st'] assms
    by (auto simp: agent_Run_def)
  have "settled [] (anthropicItems K (userMessage prompt # take (2 * k) ms))" for K :: "'k json_lib"
    using settled_conversation[OF turns_ok_take[OF c(2)]] .
  from this[of J] this[of J'] show ?thesis unfolding c(1) same_items[of J', symmetric] by simp
qed

definition demo_json :: "string json_lib" where
  "demo_json = \<lparr>jl_parse = Some, jl_empty = ''{}'', jl_schema = \<lambda>s. (s, []), jl_params = \<lambda>s. s\<rparr>"

definition demo_conversation :: "chat_message list" where
  "demo_conversation = fst (snd (agent_Run demo_chat demo_schedule 20 ''review'' [PostSuggestionTool demo_rlib [''a.yaml'']] no_notes))"

definition demo_calls_made :: nat where
  "demo_calls_made = length (filter (\<lambda>it. case it of Called i n v \<Rightarrow> True | _ \<Rightarrow> False) (anthropicItems demo_json demo_conversation))"

lemma demo_conversation_calls: "demo_calls_made = length demo_calls \<and> demo_calls_made = 4"
  by code_simp

theorem requests_answer_their_calls_witness:
  "settled [] (anthropicItems demo_json (take (Suc (2 * 1)) demo_conversation)) \<and>
   demo_calls_made = 4"
proof -
  obtain out conversation st where r: "agent_Run demo_chat demo_schedule 20 ''review'' [PostSuggestionTool demo_rlib [''a.yaml'']] no_notes = (out, conversation, st)"
    by (metis prod.exhaust)
  have "settled [] (anthropicItems demo_json (take (Suc (2 * 1)) conversation))"
    using conjunct1[OF requests_answer_their_calls[OF r, of demo_json 1 demo_json "[]"]] by (simp add: demo_schedule_def)
  moreover have "demo_conversation = conversation" by (simp add: demo_conversation_def r)
  ultimately show ?thesis using demo_conversation_calls by simp
qed

section \<open>Replies\<close>

text \<open>A reply of Anthropic comes back in the next request: its text first, then its calls with their inputs.\<close>

lemma reply_is_echoed:
  assumes "rs = anthropicResponse msg"
  shows "anthropicMessage J \<lparr>cm_Role = RoleAssistant, cm_Text = rs_Text rs, cm_ToolCalls = rs_ToolCalls rs, cm_ToolResults = []\<rparr> =
    AAssistant ((if rs_Text rs \<noteq> [] then [AText (rs_Text rs) False] else []) @
      concat (map (\<lambda>b. case b of AReplyToolUse i name input \<Rightarrow> [AToolUse i (toolInput J input) name] | _ \<Rightarrow> []) (ay_Content msg)))"
proof -
  have "map (\<lambda>tc. AToolUse (tc_ID tc) (toolInput J (tc_Arguments tc)) (tc_Name tc)) (concat (map (\<lambda>b. case b of
         AReplyToolUse i name input \<Rightarrow> [\<lparr>tc_ID = i, tc_Name = name, tc_Arguments = input\<rparr>] | _ \<Rightarrow> []) bs)) =
      concat (map (\<lambda>b. case b of AReplyToolUse i name input \<Rightarrow> [AToolUse i (toolInput J input) name] | _ \<Rightarrow> []) bs)" for bs
    by (induction bs) (auto split: a_reply_block.splits)
  from this[of "ay_Content msg"] show ?thesis
    unfolding assms anthropicMessage_def anthropicResponse_def by (simp only: chat_message.select_convs chat_response.select_convs chat_role.case)
qed

text \<open>A reply that stops for tools without calling any makes the next request carry an empty text.\<close>

lemma turn_without_calls_sends_nothing:
  assumes "anthropicResponse \<lparr>ay_StopReason = ''tool_use'', ay_Content = []\<rparr> = rs"
  shows "rs_StopReason rs = StopToolUse \<and>
    anthropicMessages J [\<lparr>cm_Role = RoleAssistant, cm_Text = rs_Text rs, cm_ToolCalls = rs_ToolCalls rs, cm_ToolResults = []\<rparr>,
      \<lparr>cm_Role = RoleUser, cm_Text = [], cm_ToolCalls = [], cm_ToolResults = []\<rparr>] = [AAssistant [], AUser [AText [] True]]"
  unfolding assms[symmetric] by (simp add: anthropicResponse_def anthropicMessages_def anthropicMessage_def)

end
