(* ===== verification/Startup.thy ===== *)
theory Startup
  imports VcsArgoMap Locations Conftest AiReview AiSummary
begin

text \<open>
  \<open>cmd/flags.go\<close>, \<open>root.go\<close> and \<open>controller.go\<close>, \<open>pkg/config/config.go\<close>, \<open>pkg/container/main.go\<close> and the end of
  \<open>cmd/processors.go\<close>: the flags, the configuration read from them, and the order in which the controller
  prepares what the checks use before it serves.  The libraries for flags and settings, the construction of
  the clients and the watchers are arguments; log lines, telemetry and signals are left out.
\<close>

section \<open>Flags\<close>

datatype flag_kind = StrFlag | BoolFlag | IntFlag | DurFlag | ListFlag

text \<open>A duration is a number of seconds.\<close>

datatype flag_value = FStr string | FBool bool | FInt int | FDur int | FList "string list"

record doc_opt =
  do_choices :: "string list option"
  do_default :: "flag_value option"
  do_short :: "string option"

definition docopt_zero :: doc_opt where
  "docopt_zero = \<lparr>do_choices = None, do_default = None, do_short = None\<rparr>"

definition docopt_combine :: "doc_opt \<Rightarrow> doc_opt \<Rightarrow> doc_opt" where
  "docopt_combine dst src =
    \<lparr>do_choices = (if do_choices src \<noteq> None then do_choices src else do_choices dst),
     do_default = (if do_default src \<noteq> None then do_default src else do_default dst),
     do_short = (if do_short src \<noteq> None then do_short src else do_short dst)\<rparr>"

definition ViperNameToEnv :: "string \<Rightarrow> string" where
  "ViperNameToEnv s = to_upper (''kubechecks_'' @ map (\<lambda>c. if c = CHR ''-'' then CHR ''_'' else c) s)"

text \<open>\<open>None\<close> is a panic.\<close>

definition generateUsage :: "doc_opt \<Rightarrow> string \<Rightarrow> string \<Rightarrow> string option" where
  "generateUsage opt usage name =
    (if \<not> has_suffix usage ''.'' then None
     else (let usage = (case do_choices opt of None \<Rightarrow> usage | Some cs \<Rightarrow> usage @ '' One of '' @ str_join '', '' cs @ ''.'')
           in Some (usage @ '' ('' @ ViperNameToEnv name @ '')'')))"

definition flag_zero :: "flag_kind \<Rightarrow> flag_value" where
  "flag_zero k = (case k of StrFlag \<Rightarrow> FStr [] | BoolFlag \<Rightarrow> FBool False | IntFlag \<Rightarrow> FInt 0 | DurFlag \<Rightarrow> FDur 0 | ListFlag \<Rightarrow> FList [])"

type_synonym flag_decl = "flag_kind \<times> string \<times> string \<times> doc_opt list"

record bound_flag =
  bf_Name :: string
  bf_Short :: "string option"
  bf_Default :: flag_value
  bf_Usage :: string

definition addFlag :: "flag_decl \<Rightarrow> bound_flag option" where
  "addFlag decl =
    (case decl of (kind, name, usage, opts) \<Rightarrow>
       let opt = foldl docopt_combine docopt_zero opts in
       (case generateUsage opt usage name of
          None \<Rightarrow> None
        | Some u \<Rightarrow> Some \<lparr>bf_Name = name, bf_Short = do_short opt,
                         bf_Default = (case do_default opt of None \<Rightarrow> flag_zero kind | Some v \<Rightarrow> v), bf_Usage = u\<rparr>))"

text \<open>The flags of the root command and of the controller, as their declarations name them.\<close>

definition rootFlags :: "flag_decl list" where
  "rootFlags =
    [(StrFlag, ''log-level'',
        ''Set the log output level.'', [\<lparr>do_choices = Some [''error'', ''warn'', ''info'', ''debug'', ''trace''], do_default = Some (FStr ''info''), do_short = Some ''l''\<rparr>]),
     (BoolFlag, ''persist-log-level'',
        ''Persists the set log level down to other module loggers.'', []),
     (StrFlag, ''vcs-base-url'',
        ''VCS base url, useful if self hosting gitlab, enterprise github, etc.'', []),
     (StrFlag, ''vcs-upload-url'',
        ''VCS upload url, required for enterprise github.'', []),
     (StrFlag, ''vcs-type'',
        ''VCS type. One of gitlab or github. Defaults to gitlab.'', [\<lparr>do_choices = Some [''github'', ''gitlab''], do_default = Some (FStr ''gitlab''), do_short = None\<rparr>]),
     (StrFlag, ''vcs-token'',
        ''VCS API token.'', []),
     (StrFlag, ''vcs-username'',
        ''VCS Username.'', []),
     (StrFlag, ''vcs-email'',
        ''VCS Email.'', []),
     (StrFlag, ''github-private-key'',
        ''Github App Private Key.'', []),
     (IntFlag, ''github-app-id'',
        ''Github App ID.'', []),
     (IntFlag, ''github-installation-id'',
        ''Github Installation ID.'', []),
     (StrFlag, ''argocd-api-token'',
        ''ArgoCD API token.'', []),
     (StrFlag, ''argocd-api-server-addr'',
        ''ArgoCD API Server Address.'', [\<lparr>do_choices = None, do_default = Some (FStr ''argocd-server''), do_short = None\<rparr>]),
     (BoolFlag, ''argocd-api-insecure'',
        ''Enable to use insecure connections over TLS to the ArgoCD API server.'', []),
     (StrFlag, ''argocd-api-namespace'',
        ''ArgoCD namespace where the application watcher will read Custom Resource Definitions (CRD) for Application and ApplicationSet resources.'', [\<lparr>do_choices = None, do_default = Some (FStr ''argocd''), do_short = None\<rparr>]),
     (BoolFlag, ''argocd-api-plaintext'',
        ''Enable to use plaintext connections without TLS.'', []),
     (StrFlag, ''kubernetes-type'',
        ''Kubernetes Type One of eks, or local. Defaults to local.'', [\<lparr>do_choices = Some [''eks'', ''local''], do_default = Some (FStr ''local''), do_short = None\<rparr>]),
     (StrFlag, ''kubernetes-clusterid'',
        ''Kubernetes Cluster ID, must be specified if kubernetes-type is eks.'', []),
     (StrFlag, ''kubernetes-config'',
        ''Path to your kubernetes config file, used to monitor applications.'', []),
     (StrFlag, ''otel-collector-port'',
        ''The OpenTelemetry collector port.'', []),
     (StrFlag, ''otel-collector-host'',
        ''The OpenTelemetry collector host.'', []),
     (BoolFlag, ''otel-enabled'',
        ''Enable OpenTelemetry.'', []),
     (BoolFlag, ''allow-fork-pull-requests'',
        ''Check pull requests opened from forks. Their content is rendered by the ArgoCD repo-server, so enable only when every fork is trusted.'', []),
     (StrFlag, ''tidy-outdated-comments-mode'',
        ''Sets the mode to use when tidying outdated comments.'', [\<lparr>do_choices = Some [''hide'', ''delete''], do_default = Some (FStr ''hide''), do_short = None\<rparr>]),
     (ListFlag, ''schemas-location'',
        ''Sets schema locations to be used for every check request. An absolute path on the host, or a git url in either git or http(s) format, is used as given. A relative path names a directory inside the repository being checked, so that schemas committed alongside the manifests that use them are found. Any location may be a kubeconform path template, such as \".github/schemas/{{ .ResourceKind }}_{{ .ResourceAPIVersion }}.json\", when the files are not named \"<kind>-<group>-<version>.json\".'', []),
     (BoolFlag, ''enable-conftest'',
        ''Set to true to enable conftest policy checking of manifests.'', []),
     (ListFlag, ''policies-location'',
        ''Sets rego policy locations to be used for every check request. Can be common path inside the repos being checked or git urls in either git or http(s) format.'', [\<lparr>do_choices = None, do_default = Some (FList [''./policies'']), do_short = None\<rparr>]),
     (StrFlag, ''worst-conftest-state'',
        ''The worst state that can be returned from conftest.'', [\<lparr>do_choices = None, do_default = Some (FStr ''panic''), do_short = None\<rparr>]),
     (BoolFlag, ''enable-kubeconform'',
        ''Enable kubeconform checks.'', [\<lparr>do_choices = None, do_default = Some (FBool True), do_short = None\<rparr>]),
     (StrFlag, ''worst-kubeconform-state'',
        ''The worst state that can be returned from kubeconform.'', [\<lparr>do_choices = None, do_default = Some (FStr ''panic''), do_short = None\<rparr>]),
     (BoolFlag, ''enable-preupgrade'',
        ''Enable preupgrade checks.'', [\<lparr>do_choices = None, do_default = Some (FBool True), do_short = None\<rparr>]),
     (StrFlag, ''worst-preupgrade-state'',
        ''The worst state that can be returned from preupgrade checks.'', [\<lparr>do_choices = None, do_default = Some (FStr ''panic''), do_short = None\<rparr>]),
     (IntFlag, ''max-queue-size'',
        ''Size of app diff check queue.'', [\<lparr>do_choices = None, do_default = Some (FInt 1024), do_short = None\<rparr>]),
     (IntFlag, ''max-concurrent-checks'',
        ''Number of concurrent checks to run.'', [\<lparr>do_choices = None, do_default = Some (FInt 32), do_short = None\<rparr>]),
     (IntFlag, ''max-repo-worker-queue-size'',
        ''Maximum size of check request queue per repository worker.'', [\<lparr>do_choices = None, do_default = Some (FInt 100), do_short = None\<rparr>]),
     (BoolFlag, ''enable-hooks-renderer'',
        ''Render hooks.'', [\<lparr>do_choices = None, do_default = Some (FBool True), do_short = None\<rparr>]),
     (StrFlag, ''worst-hooks-state'',
        ''The worst state that can be returned from the hooks renderer.'', [\<lparr>do_choices = None, do_default = Some (FStr ''panic''), do_short = None\<rparr>]),
     (StrFlag, ''replan-comment-msg'',
        ''comment message which re-triggers kubechecks on PR.'', [\<lparr>do_choices = None, do_default = Some (FStr ''kubechecks again''), do_short = None\<rparr>]),
     (ListFlag, ''additional-apps-namespaces'',
        ''Additional namespaces other than the ArgoCDNamespace to monitor for applications.'', []),
     (BoolFlag, ''repo-cache-enabled'',
        ''Enable persistent repository caching.'', [\<lparr>do_choices = None, do_default = Some (FBool True), do_short = None\<rparr>]),
     (StrFlag, ''repo-cache-dir'',
        ''Directory for persistent repository cache.'', [\<lparr>do_choices = None, do_default = Some (FStr ''/tmp/kubechecks/repos''), do_short = None\<rparr>]),
     (DurFlag, ''repo-cache-ttl'',
        ''Time-to-live for cached repositories.'', [\<lparr>do_choices = None, do_default = Some (FDur 86400), do_short = None\<rparr>]),
     (StrFlag, ''archive-cache-dir'',
        ''Directory for archive cache.'', [\<lparr>do_choices = None, do_default = Some (FStr ''/tmp/kubechecks/archives''), do_short = None\<rparr>]),
     (DurFlag, ''archive-cache-ttl'',
        ''Time-to-live for cached archives.'', [\<lparr>do_choices = None, do_default = Some (FDur 3600), do_short = None\<rparr>]),
     (DurFlag, ''check-timeout'',
        ''Maximum time a single PR check may run before it is cancelled. 0 disables the limit.'', [\<lparr>do_choices = None, do_default = Some (FDur 900), do_short = None\<rparr>]),
     (DurFlag, ''shutdown-timeout'',
        ''How long to wait for in-flight checks and the HTTP server on SIGTERM. Keep it below the pod's terminationGracePeriodSeconds.'', [\<lparr>do_choices = None, do_default = Some (FDur 30), do_short = None\<rparr>]),
     (StrFlag, ''identifier'',
        ''Identifier for the kubechecks instance. Used to differentiate between multiple kubechecks instances.'', [\<lparr>do_choices = None, do_default = Some (FStr []), do_short = None\<rparr>]),
     (IntFlag, ''max-comments-per-check'',
        ''Maximum number of comments posted per check run, 1 to 999. What does not fit is left out of the report, with a warning.'', [\<lparr>do_choices = None, do_default = Some (FInt 999), do_short = None\<rparr>]),
     (StrFlag, ''kubepug-generated-store'',
        ''URL for the kubepug generated store.'', [\<lparr>do_choices = None, do_default = Some (FStr ''https://kubepug.xyz/data/data.json''), do_short = None\<rparr>]),
     (BoolFlag, ''enable-ai-diff-summary'',
        ''Enable AI-powered diff summary. Requires openai-api-token or anthropic-api-key.'', []),
     (BoolFlag, ''enable-ai-review'',
        ''Enable AI-powered impact review of manifest changes.'', []),
     (BoolFlag, ''ai-review-post-suggestions'',
        ''Post AI-generated inline code suggestions as PR/MR review comments. When false, the AI review summary comment is still posted but inline suggestions are suppressed.'', []),
     (StrFlag, ''ai-review-provider'',
        ''AI review provider.'', [\<lparr>do_choices = Some [''anthropic'', ''openai''], do_default = Some (FStr ''anthropic''), do_short = None\<rparr>]),
     (StrFlag, ''ai-review-model'',
        ''AI review model ID.'', [\<lparr>do_choices = None, do_default = Some (FStr ''claude-sonnet-4-6''), do_short = None\<rparr>]),
     (IntFlag, ''ai-review-max-apps'',
        ''Maximum number of apps to AI review per MR/PR. Apps beyond this cap are skipped.'', [\<lparr>do_choices = None, do_default = Some (FInt 10), do_short = None\<rparr>]),
     (IntFlag, ''ai-review-max-turns'',
        ''Maximum tool use iterations for AI review.'', [\<lparr>do_choices = None, do_default = Some (FInt 20), do_short = None\<rparr>]),
     (DurFlag, ''ai-review-timeout'',
        ''Timeout per AI review.'', [\<lparr>do_choices = None, do_default = Some (FDur 300), do_short = None\<rparr>]),
     (StrFlag, ''ai-review-system-prompt'',
        ''Custom system prompt for AI review. Overrides the default review instructions.'', []),
     (StrFlag, ''ai-review-extra-instructions'',
        ''Extra instructions appended to the AI review prompt. Use for org-wide policies (e.g. 'all deployments must have resource limits').'', []),
     (StrFlag, ''anthropic-api-key'',
        ''Anthropic API key for AI review.'', []),
     (StrFlag, ''chart-cache-dir'',
        ''Directory for caching downloaded Helm charts for AI review.'', [\<lparr>do_choices = None, do_default = Some (FStr ''/tmp/kubechecks/charts''), do_short = None\<rparr>]),
     (StrFlag, ''worst-ai-review-state'',
        ''The worst state that can be returned from AI review.'', [\<lparr>do_choices = None, do_default = Some (FStr ''warning''), do_short = None\<rparr>])]"

definition controllerFlags :: "flag_decl list" where
  "controllerFlags =
    [(StrFlag, ''fallback-k8s-version'',
        ''Fallback target Kubernetes version for schema / upgrade checks (KUBECHECKS_FALLBACK_K8S_VERSION).'', [\<lparr>do_choices = None, do_default = Some (FStr ''1.23.0''), do_short = None\<rparr>]),
     (BoolFlag, ''show-debug-info'',
        ''Set to true to print debug info to the footer of MR comments (KUBECHECKS_SHOW_DEBUG_INFO).'', []),
     (StrFlag, ''argocd-repository-endpoint'',
        ''Location of the argocd repository service endpoint.'', [\<lparr>do_choices = None, do_default = Some (FStr ''argocd-repo-server.argocd:8081''), do_short = None\<rparr>]),
     (BoolFlag, ''argocd-repository-insecure'',
        ''True if you need to skip validating the grpc tls certificate.'', [\<lparr>do_choices = None, do_default = Some (FBool True), do_short = None\<rparr>]),
     (BoolFlag, ''argocd-send-full-repository'',
        ''Set to true if you want to try to send the full repository to ArgoCD when generating manifests.'', []),
     (BoolFlag, ''argocd-server-side-diff'',
        ''Ask the ArgoCD API to compute diffs with a server-side apply dry run, so fields set by defaulting or mutating webhooks stop showing as changes.'', []),
     (IntFlag, ''argocd-server-side-diff-concurrency'',
        ''Maximum concurrent server-side diff batches per application.'', [\<lparr>do_choices = None, do_default = Some (FInt 4), do_short = None\<rparr>]),
     (IntFlag, ''argocd-server-side-diff-max-batch-kb'',
        ''Maximum server-side diff request batch size in KB.'', [\<lparr>do_choices = None, do_default = Some (FInt 250), do_short = None\<rparr>]),
     (StrFlag, ''label-filter'',
        ''(Optional) If set, The label that must be set on an MR (as \"kubechecks:<value>\") for kubechecks to process the merge request webhook (KUBECHECKS_LABEL_FILTER).'', []),
     (StrFlag, ''openai-api-token'',
        ''OpenAI API Token.'', []),
     (StrFlag, ''webhook-url-base'',
        ''The endpoint to listen on for incoming PR/MR event webhooks. For example, 'https://checker.mycompany.com'.'', []),
     (StrFlag, ''webhook-url-prefix'',
        ''If your application is running behind a proxy that uses path based routing, set this value to match the path prefix. For example, '/hello/world'.'', []),
     (StrFlag, ''webhook-secret'',
        ''Optional secret key for validating the source of incoming webhooks.'', []),
     (BoolFlag, ''monitor-all-applications'',
        ''Monitor all applications in argocd automatically.'', [\<lparr>do_choices = None, do_default = Some (FBool True), do_short = None\<rparr>]),
     (BoolFlag, ''ensure-webhooks'',
        ''Ensure that webhooks are created in repositories referenced by argo.'', []),
     (StrFlag, ''repo-refresh-interval'',
        ''Interval between static repo refreshes (for schemas and policies).'', [\<lparr>do_choices = None, do_default = Some (FStr ''5m''), do_short = None\<rparr>])]"

text \<open>The keys of the configuration, as its fields are tagged.\<close>

definition configKeys :: "string list" where
  "configKeys =
    [''argocd-api-server-addr'', ''argocd-api-token'', ''argocd-api-path-prefix'', ''argocd-api-insecure'',
     ''argocd-api-namespace'', ''argocd-api-plaintext'', ''argocd-repository-endpoint'',
     ''argocd-repository-insecure'', ''argocd-send-full-repository'', ''argocd-include-dot-git'',
     ''argocd-server-side-diff'', ''argocd-server-side-diff-concurrency'', ''argocd-server-side-diff-max-batch-kb'',
     ''kubernetes-config'', ''kubernetes-type'', ''kubernetes-clusterid'', ''otel-enabled'', ''otel-collector-host'',
     ''otel-collector-port'', ''vcs-username'', ''vcs-email'', ''vcs-base-url'', ''vcs-upload-url'', ''vcs-token'',
     ''vcs-type'', ''github-private-key'', ''github-app-id'', ''github-installation-id'', ''ensure-webhooks'',
     ''webhook-secret'', ''webhook-url-base'', ''webhook-url-prefix'', ''enable-conftest'', ''policies-location'',
     ''worst-conftest-state'', ''enable-hooks-renderer'', ''worst-hooks-state'', ''enable-kubeconform'',
     ''worst-kubeconform-state'', ''enable-preupgrade'', ''worst-preupgrade-state'', ''kubepug-generated-store'',
     ''enable-ai-diff-summary'', ''enable-ai-review'', ''ai-review-post-suggestions'', ''ai-review-provider'',
     ''ai-review-model'', ''ai-review-max-apps'', ''ai-review-max-turns'', ''ai-review-timeout'',
     ''ai-review-system-prompt'', ''ai-review-extra-instructions'', ''anthropic-api-key'', ''chart-cache-dir'',
     ''worst-ai-review-state'', ''additional-apps-namespaces'', ''fallback-k8s-version'', ''label-filter'',
     ''log-level'', ''monitor-all-applications'', ''openai-api-token'', ''repo-refresh-interval'',
     ''repo-cache-enabled'', ''repo-cache-dir'', ''repo-cache-ttl'', ''archive-cache-dir'', ''archive-cache-ttl'',
     ''shutdown-timeout'', ''check-timeout'', ''schemas-location'', ''show-debug-info'',
     ''tidy-outdated-comments-mode'', ''allow-fork-pull-requests'', ''max-queue-size'', ''max-concurrent-checks'',
     ''max-repo-worker-queue-size'', ''replan-comment-msg'', ''identifier'', ''max-comments-per-check'']"

definition boundKeys :: "string list" where
  "boundKeys = map (\<lambda>(kind, name, usage, opts). name) (rootFlags @ controllerFlags)"

section \<open>Configuration\<close>

text \<open>What the hook for decoding is given: a string, or something else, to be stored in a field of a kind.\<close>

datatype config_target = LevelField | StateField | DurationField | StringsField | OtherField

datatype 'v raw_value = RawString string | RawValue 'v

datatype ('l, 'v) decoded = DecLevel 'l | DecState commit_state | DecDuration int | DecStrings "string list" | DecRaw "'v raw_value"

definition decodeHook ::
  "(string \<Rightarrow> string + 'l) \<Rightarrow> (string \<Rightarrow> string + int) \<Rightarrow> config_target \<Rightarrow> 'v raw_value \<Rightarrow> string + ('l, 'v) decoded" where
  "decodeHook ParseLevel ParseDuration out value =
    (case value of
       RawValue v \<Rightarrow> Inr (DecRaw value)
     | RawString s \<Rightarrow>
         (case out of
            LevelField \<Rightarrow> map_sum id DecLevel (ParseLevel s)
          | StateField \<Rightarrow> map_sum id DecState (ParseCommitState s)
          | DurationField \<Rightarrow> map_sum id DecDuration (ParseDuration s)
          | StringsField \<Rightarrow> Inr (DecStrings (split_char CHR '','' s))
          | OtherField \<Rightarrow> Inr (DecRaw value)))"

text \<open>The part of the configuration that the start reads.\<close>

record start_config =
  sv_VcsType :: string
  sv_VcsBaseUrl :: string
  sv_MaxCommentsPerCheck :: int
  sv_KubernetesType :: string
  sv_MonitorAllApplications :: bool
  sv_PoliciesLocation :: "string list"
  sv_SchemasLocations :: "string list"
  sv_Processors :: processors_config
  sv_EnableAIReview :: bool
  sv_AIReviewProvider :: string
  sv_AIReviewModel :: string
  sv_AIReviewMaxTurns :: int
  sv_AIReviewSystemPrompt :: string
  sv_AIReviewExtraInstructions :: string
  sv_AnthropicAPIKey :: string
  sv_OpenAIAPIToken :: string
  sv_ChartCacheDir :: string

definition NewWithViper :: "string + start_config \<Rightarrow> string + start_config" where
  "NewWithViper unmarshalled =
    (case unmarshalled of
       Inl err \<Rightarrow> Inl (''failed to read configuration: '' @ err)
     | Inr cfg \<Rightarrow>
         let cfg = (if sv_VcsBaseUrl cfg = [] then cfg\<lparr>sv_VcsBaseUrl := ''https://'' @ sv_VcsType cfg @ ''.com''\<rparr> else cfg);
             cfg = (if sv_MaxCommentsPerCheck cfg = 0 then cfg\<lparr>sv_MaxCommentsPerCheck := int MaxCommentsPerCheck\<rparr> else cfg)
         in if sv_MaxCommentsPerCheck cfg < 1 \<or> sv_MaxCommentsPerCheck cfg > int MaxCommentsPerCheck
            then Inl (''max-comments-per-check must be between 1 and 999, got '' @
              (if sv_MaxCommentsPerCheck cfg < 0 then ''-'' @ itoa (nat (- sv_MaxCommentsPerCheck cfg)) else itoa (nat (sv_MaxCommentsPerCheck cfg))))
            else Inr cfg)"

section \<open>Container\<close>

record start_env =
  se_vcsClient :: "string \<Rightarrow> string option"
  se_vcsUser :: string
  se_kubeClient :: "string \<Rightarrow> string option"
  se_argoClient :: "string option"
  se_api :: argo_api
  se_parsers :: url_parsers
  se_applications :: "string + application list"
  se_appSets :: "string + application_set list"
  se_appWatcher :: "string option"
  se_appSetWatcher :: "string option"
  se_telemetry :: "string option"
  se_chartCache :: "string \<Rightarrow> string + chart_access"

text \<open>How the program ends before it serves: with a fatal message or with a panic.\<close>

datatype start_end = FatalEnd string | PanicEnd

definition NewVcsClient :: "start_env \<Rightarrow> start_config \<Rightarrow> string option" where
  "NewVcsClient E cfg =
    (if sv_VcsType cfg = ''gitlab'' \<or> sv_VcsType cfg = ''github'' then se_vcsClient E (sv_VcsType cfg)
     else Some (''unknown vcs-type: '' @ go_quote (sv_VcsType cfg)))"

text \<open>The client of the cluster, \<open>None\<close> when the type is none of the known ones, and its use without a check.\<close>

definition NewKubeClient :: "start_env \<Rightarrow> start_config \<Rightarrow> string + string option" where
  "NewKubeClient E cfg =
    (if sv_KubernetesType cfg = ''local'' \<or> sv_KubernetesType cfg = ''eks''
     then (case se_kubeClient E (sv_KubernetesType cfg) of Some err \<Rightarrow> Inl err | None \<Rightarrow> Inr (Some (sv_KubernetesType cfg)))
     else Inr None)"

definition NewArgoClient :: "start_env \<Rightarrow> string option \<Rightarrow> start_end option" where
  "NewArgoClient E kubeClient =
    (case se_argoClient E of
       Some err \<Rightarrow> Some (FatalEnd (''failed to create container: failed to create argo client: '' @ err))
     | None \<Rightarrow> if kubeClient = None then Some PanicEnd else None)"

definition fillIndex :: "start_env \<Rightarrow> vcs_map \<Rightarrow> start_end + vcs_map" where
  "fillIndex E v =
    (case se_applications E of
       Inl err \<Rightarrow> Inl (FatalEnd (''failed to build apps map: failed to list applications: '' @ err))
     | Inr apps \<Rightarrow>
         (case buildAppsMap (se_api E) (se_parsers E) apps v of
            None \<Rightarrow> Inl PanicEnd
          | Some v \<Rightarrow>
              (case se_appSets E of
                 Inl err \<Rightarrow> Inl (FatalEnd (''failed to build appsets map: failed to list application sets: '' @ err))
               | Inr sets \<Rightarrow> Inr (buildAppSetsMap (se_api E) (se_parsers E) sets v))))"

definition container_New :: "start_env \<Rightarrow> start_config \<Rightarrow> start_end + vcs_map" where
  "container_New E cfg =
    (case NewVcsClient E cfg of
       Some err \<Rightarrow> Inl (FatalEnd (''failed to create container: failed to create vcs client: '' @ err))
     | None \<Rightarrow>
         (case NewKubeClient E cfg of
            Inl err \<Rightarrow> Inl (FatalEnd (''failed to create container: failed to create kube client: '' @ err))
          | Inr kubeClient \<Rightarrow>
              (case NewArgoClient E kubeClient of
                 Some e \<Rightarrow> Inl e
               | None \<Rightarrow>
                   let vcsToArgoMap = NewVcsToArgoMap (se_vcsUser E) in
                   if sv_MonitorAllApplications cfg then fillIndex E vcsToArgoMap else Inr vcsToArgoMap)))"

section \<open>The reviewer\<close>

definition newAIProvider :: "start_config \<Rightarrow> string + chat_provider" where
  "newAIProvider cfg =
    (if sv_AIReviewProvider cfg = ''anthropic'' then anthropicNew (sv_AnthropicAPIKey cfg) (sv_AIReviewModel cfg)
     else if sv_AIReviewProvider cfg = ''openai'' then openaiNew (sv_OpenAIAPIToken cfg) (sv_AIReviewModel cfg)
     else Inl (''unsupported AI review provider: '' @ go_quote (sv_AIReviewProvider cfg)))"

definition getAIReviewChecker :: "start_env \<Rightarrow> start_config \<Rightarrow> (chat_provider \<times> review_checker) option" where
  "getAIReviewChecker E cfg =
    (if \<not> sv_EnableAIReview cfg then None
     else (case newAIProvider cfg of
         Inl err \<Rightarrow> None
       | Inr provider \<Rightarrow> Some (provider,
           \<lparr>rc_maxTurns = sv_AIReviewMaxTurns cfg, rc_systemPrompt = sv_AIReviewSystemPrompt cfg,
            rc_extraInstructions = sv_AIReviewExtraInstructions cfg,
            rc_chartAccess = (if sv_ChartCacheDir cfg \<noteq> []
              then (case se_chartCache E (sv_ChartCacheDir cfg) of Inl err \<Rightarrow> None | Inr c \<Rightarrow> Some c) else None)\<rparr>)))"

section \<open>The controller\<close>

record running =
  ru_index :: vcs_map
  ru_policies :: "string list"
  ru_schemas :: "string list"
  ru_refreshers :: "refresher list"
  ru_processors :: "processor_entry list"
  ru_reviewer :: "(chat_provider \<times> review_checker) option"
  ru_readiness :: "string list"

definition startWatchers :: "start_env \<Rightarrow> start_config \<Rightarrow> start_end option" where
  "startWatchers E cfg =
    (if \<not> sv_MonitorAllApplications cfg then None
     else (case se_appWatcher E of
         Some err \<Rightarrow> Some (FatalEnd (''failed to create watch applications: '' @ err))
       | None \<Rightarrow>
           (case se_appSetWatcher E of
              Some err \<Rightarrow> Some (FatalEnd (''failed to create watch application sets: '' @ err))
            | None \<Rightarrow> None)))"

definition readinessNames :: "start_config \<Rightarrow> string list" where
  "readinessNames cfg =
    (if sv_MonitorAllApplications cfg then [''application-informer-synced'', ''applicationset-informer-synced''] else [])"

text \<open>Up to the start of the server.\<close>

definition controllerRun :: "start_env \<Rightarrow> 's cloner \<Rightarrow> string + start_config \<Rightarrow> 's \<Rightarrow> start_end + running" where
  "controllerRun E C unmarshalled st =
    (case NewWithViper unmarshalled of Inl err \<Rightarrow> Inl (FatalEnd (''failed to parse configuration: '' @ err)) | Inr cfg \<Rightarrow>
     case container_New E cfg of Inl e \<Rightarrow> Inl e | Inr vcsToArgoMap \<Rightarrow>
     case startWatchers E cfg of Some e \<Rightarrow> Inl e | None \<Rightarrow>
     case processLocations C (sv_PoliciesLocation cfg) st of
       (Some err, _) \<Rightarrow> Inl (FatalEnd (''failed to process policy locations: '' @ err))
     | (None, refreshers, policies, st) \<Rightarrow>
         (case processLocations C (sv_SchemasLocations cfg) st of
            (Some err, _) \<Rightarrow> Inl (FatalEnd (''failed to process schema locations: '' @ err))
          | (None, refreshers', schemas, st) \<Rightarrow>
              (case getProcessors (sv_Processors cfg) (case NewChecker policies of Inl err \<Rightarrow> Some err | Inr _ \<Rightarrow> None) of
                 Inl err \<Rightarrow> Inl (FatalEnd (''failed to create processors: '' @ err))
               | Inr procs \<Rightarrow>
                   (case se_telemetry E of
                      Some err \<Rightarrow> Inl PanicEnd
                    | None \<Rightarrow> Inr \<lparr>ru_index = vcsToArgoMap, ru_policies = policies, ru_schemas = schemas,
                        ru_refreshers = refreshers @ refreshers', ru_processors = procs,
                        ru_reviewer = getAIReviewChecker E cfg, ru_readiness = readinessNames cfg\<rparr>))))"

text \<open>Waiting for the applications in flight: \<open>inFlight n\<close> of them at the \<open>n\<close>-th tick, \<open>deadline\<close> the tick at which
  the time is up.  The result is the number of ticks waited.\<close>

function waitForPendingRequest :: "(nat \<Rightarrow> nat) \<Rightarrow> nat \<Rightarrow> nat \<Rightarrow> nat" where
  "waitForPendingRequest inFlight deadline n =
    (if inFlight n = 0 \<or> deadline \<le> n then n else waitForPendingRequest inFlight deadline (Suc n))"
  by pat_completeness auto
termination by (relation "measure (\<lambda>(f, d, n). d - n)") auto

declare waitForPendingRequest.simps [simp del]

section \<open>A single run\<close>

text \<open>\<open>cmd/process.go\<close>: one check of one pull request, with the errors of its preparation.\<close>

record 'pr single_env =
  sg_MkdirTemp :: "string option"
  sg_UserHomeDir :: "string + string"
  sg_Symlink :: "string \<Rightarrow> string option"
  sg_Setenv :: "string option"
  sg_LoadHook :: "string \<Rightarrow> string + 'pr"
  sg_ProcessCheckEvent :: "'pr \<Rightarrow> running \<Rightarrow> string option"

definition prepareSSH :: "'pr single_env \<Rightarrow> string option" where
  "prepareSSH P =
    (case sg_UserHomeDir P of
       Inl err \<Rightarrow> Some (''failed to get user home dir: '' @ err)
     | Inr homeDir \<Rightarrow>
         (case sg_Symlink P (path_join [homeDir, ''.ssh'', ''known_hosts'']) of
            Some err \<Rightarrow> Some (''fail to symlink ssh_known_hosts file: '' @ err)
          | None \<Rightarrow> map_option (\<lambda>err. ''fail to set ARGOCD_SSH_DATA_PATH: '' @ err) (sg_Setenv P)))"

text \<open>The processors are made before the locations are resolved; the policy checker holds the slice of locations
  that is then overwritten, so that it reads the resolved ones.\<close>

definition prepareRun ::
  "start_env \<Rightarrow> 's cloner \<Rightarrow> 'pr single_env \<Rightarrow> string + start_config \<Rightarrow> string list \<Rightarrow> 's \<Rightarrow> start_end + 'pr \<times> running" where
  "prepareRun E C P unmarshalled args st =
    (case NewWithViper unmarshalled of Inl err \<Rightarrow> Inl (FatalEnd (''failed to generate config: '' @ err)) | Inr cfg \<Rightarrow>
     if length args \<noteq> 1 then Inl (FatalEnd ''usage: kubechecks process PR_REF'') else
     case container_New E cfg of Inl e \<Rightarrow> Inl e | Inr vcsToArgoMap \<Rightarrow>
     case sg_LoadHook P (hd args) of Inl err \<Rightarrow> Inl (FatalEnd (''failed to load hook: '' @ err)) | Inr repo \<Rightarrow>
     case getProcessors (sv_Processors cfg) (case NewChecker (sv_PoliciesLocation cfg) of Inl err \<Rightarrow> Some err | Inr _ \<Rightarrow> None) of
       Inl err \<Rightarrow> Inl (FatalEnd (''failed to create processors: '' @ err))
     | Inr procs \<Rightarrow>
         (case processLocations C (sv_PoliciesLocation cfg) st of
            (Some err, _) \<Rightarrow> Inl (FatalEnd (''failed to process policy locations: '' @ err))
          | (None, refreshers, policies, st) \<Rightarrow>
              (case processLocations C (sv_SchemasLocations cfg) st of
                 (Some err, _) \<Rightarrow> Inl (FatalEnd (''failed to process schema locations: '' @ err))
               | (None, refreshers', schemas, st) \<Rightarrow>
                   Inr (repo, \<lparr>ru_index = vcsToArgoMap, ru_policies = policies, ru_schemas = schemas,
                     ru_refreshers = refreshers @ refreshers', ru_processors = procs,
                     ru_reviewer = getAIReviewChecker E cfg, ru_readiness = []\<rparr>))))"

text \<open>The end of the run, if it is not a normal one, and whether the temporary directory is left behind: a fatal
  message ends the process without its deferred calls.\<close>

definition processRun ::
  "start_env \<Rightarrow> 's cloner \<Rightarrow> 'pr single_env \<Rightarrow> string + start_config \<Rightarrow> string list \<Rightarrow> 's \<Rightarrow> start_end option \<times> bool" where
  "processRun E C P unmarshalled args st =
    (case sg_MkdirTemp P of Some err \<Rightarrow> (Some (FatalEnd (''fail to create ssh data dir: '' @ err)), False) | None \<Rightarrow>
     case prepareSSH P of Some err \<Rightarrow> (Some (FatalEnd err), True) | None \<Rightarrow>
     case prepareRun E C P unmarshalled args st of
       Inl PanicEnd \<Rightarrow> (Some PanicEnd, False)
     | Inl (FatalEnd err) \<Rightarrow> (Some (FatalEnd err), True)
     | Inr (repo, r) \<Rightarrow>
         (case sg_ProcessCheckEvent P repo r of
            Some err \<Rightarrow> (Some (FatalEnd (''failed to process check: '' @ err)), True)
          | None \<Rightarrow> (None, False)))"

section \<open>Properties\<close>

lemma addFlag_panics: "addFlag (kind, name, usage, opts) = None \<longleftrightarrow> \<not> has_suffix usage ''.''"
  by (simp add: addFlag_def generateUsage_def Let_def)

lemma usages_end: "list_all (\<lambda>(kind, name, usage, opts). has_suffix usage ''.'') (rootFlags @ controllerFlags)"
  by code_simp

lemma names_distinct: "distinct boundKeys"
  by code_simp

lemma unbound_keys: "filter (\<lambda>k. k \<notin> set boundKeys) configKeys = [''argocd-api-path-prefix'', ''argocd-include-dot-git'']"
  by code_simp

lemma unread_flags: "filter (\<lambda>k. k \<notin> set configKeys) boundKeys = [''persist-log-level'']"
  by code_simp

text \<open>No declaration of a flag panics, no name is declared twice, and every key of the configuration can be set by
  a flag or its environment variable except for two; one flag sets no key.\<close>

theorem flags_reach_the_configuration:
  "list_all (\<lambda>d. addFlag d \<noteq> None) (rootFlags @ controllerFlags) \<and> distinct boundKeys \<and>
   filter (\<lambda>k. k \<notin> set boundKeys) configKeys = [''argocd-api-path-prefix'', ''argocd-include-dot-git''] \<and>
   filter (\<lambda>k. k \<notin> set configKeys) boundKeys = [''persist-log-level'']"
proof -
  have "list_all (\<lambda>d. addFlag d \<noteq> None) (rootFlags @ controllerFlags)"
    using usages_end addFlag_panics unfolding list_all_iff by fastforce
  then show ?thesis using names_distinct unbound_keys unread_flags by (intro conjI)
qed

lemma NewWithViper_range:
  "NewWithViper u = Inr cfg \<Longrightarrow> 1 \<le> sv_MaxCommentsPerCheck cfg \<and> sv_MaxCommentsPerCheck cfg \<le> int MaxCommentsPerCheck \<and> sv_VcsBaseUrl cfg \<noteq> []"
  by (auto simp: NewWithViper_def Let_def MaxCommentsPerCheck_def split: sum.splits if_splits)

lemma container_New_kinds:
  "container_New E cfg = Inr v \<Longrightarrow> (sv_VcsType cfg = ''gitlab'' \<or> sv_VcsType cfg = ''github'') \<and> (sv_KubernetesType cfg = ''local'' \<or> sv_KubernetesType cfg = ''eks'')"
  by (auto simp: container_New_def NewVcsClient_def NewKubeClient_def NewArgoClient_def split: option.splits sum.splits if_splits)

lemma onSets_keep_apps: "v_apps (buildAppSetsMap api ps sets v) = v_apps v"
  by (induction sets arbitrary: v) (simp_all add: buildAppSetsMap_def v2a_AddAppSet_def onSetRepo_def GetAppSetsInRepo_def Let_def split: option.splits)

lemma fillIndex_spec:
  assumes "argo_api_ok (se_api E)" "fillIndex E (NewVcsToArgoMap user) = Inr v"
  shows "case se_applications E of Inl err \<Rightarrow> False
    | Inr apps \<Rightarrow> \<forall>a \<in> set apps. \<forall>r \<in> repos_of (se_parsers E) a. indexed v r (app_Name a)"
proof -
  obtain apps where a: "se_applications E = Inr apps" using assms(2) by (auto simp: fillIndex_def split: sum.splits)
  have "map_ok (se_api E) (NewVcsToArgoMap user)" by (simp add: map_ok_def NewVcsToArgoMap_def)
  then obtain u where u: "buildAppsMap (se_api E) (se_parsers E) apps (NewVcsToArgoMap user) = Some u"
    "\<forall>a \<in> set apps. \<forall>r \<in> repos_of (se_parsers E) a. indexed u r (app_Name a)"
    using buildAppsMap_spec[OF assms(1)] by blast
  obtain sets where "v = buildAppSetsMap (se_api E) (se_parsers E) sets u"
    using assms(2) a u(1) by (auto simp: fillIndex_def split: sum.splits)
  then show ?thesis using a u(2) by (simp add: indexed_def onSets_keep_apps)
qed

lemma getProcessors_diff: "getProcessors cfg e = Inr ps \<Longrightarrow> ps \<noteq> [] \<and> pe_Name (hd ps) = ''generating diff for app''"
  by (auto simp: getProcessors_def Let_def split: if_splits option.splits)


definition demo_controller_config :: start_config where
  "demo_controller_config = \<lparr>sv_VcsType = ''github'', sv_VcsBaseUrl = [], sv_MaxCommentsPerCheck = 0, sv_KubernetesType = ''local'', sv_MonitorAllApplications = True,
     sv_PoliciesLocation = [''./policies''], sv_SchemasLocations = [],
     sv_Processors = \<lparr>pc_EnableHooksRenderer = True, pc_EnableKubeConform = True, pc_EnablePreupgrade = False, pc_EnableConfTest = True,
       pc_WorstHooksState = StatePanic, pc_WorstKubeConformState = StatePanic, pc_WorstPreupgradeState = StatePanic, pc_WorstConfTestState = StatePanic\<rparr>,
     sv_EnableAIReview = False, sv_AIReviewProvider = ''anthropic'', sv_AIReviewModel = [], sv_AIReviewMaxTurns = 20, sv_AIReviewSystemPrompt = [],
     sv_AIReviewExtraInstructions = [], sv_AnthropicAPIKey = [], sv_OpenAIAPIToken = [], sv_ChartCacheDir = []\<rparr>"

definition demo_start_env :: start_env where
  "demo_start_env = \<lparr>se_vcsClient = \<lambda>_. None, se_vcsUser = ''bot'', se_kubeClient = \<lambda>_. None, se_argoClient = None, se_api = demo_api,
     se_parsers = demo_parsers, se_applications = Inr [], se_appSets = Inr [], se_appWatcher = None, se_appSetWatcher = None,
     se_telemetry = None, se_chartCache = \<lambda>_. Inl ''none''\<rparr>"

definition demo_started :: "start_end + running" where
  "demo_started = controllerRun demo_start_env demo_cloner (Inr demo_controller_config) demo_start"


text \<open>A single run checks under the conditions under which the controller serves, except for what the controller
  alone needs: its watchers and its telemetry.\<close>

lemma single_run_agrees_with_controller:
  assumes "prepareRun E C P u args st = Inr (repo, r)" "se_appWatcher E = None" "se_appSetWatcher E = None" "se_telemetry E = None"
  shows "\<exists>cfg s. NewWithViper u = Inr cfg \<and> controllerRun E C u st = Inr s \<and> s = r\<lparr>ru_readiness := readinessNames cfg\<rparr> \<and>
    length args = 1 \<and> sg_LoadHook P (hd args) = Inr repo"
proof -
  obtain cfg where c: "NewWithViper u = Inr cfg" "length args = 1" using assms(1) by (auto simp: prepareRun_def split: sum.splits if_splits)
  obtain v where v: "container_New E cfg = Inr v" "sg_LoadHook P (hd args) = Inr repo"
    using assms(1) c by (auto simp: prepareRun_def split: sum.splits prod.splits option.splits)
  obtain procs where g: "getProcessors (sv_Processors cfg) (case NewChecker (sv_PoliciesLocation cfg) of Inl err \<Rightarrow> Some err | Inr _ \<Rightarrow> None) = Inr procs"
    using assms(1) c v by (auto simp: prepareRun_def split: sum.splits)
  obtain fs ps st1 where p: "processLocations C (sv_PoliciesLocation cfg) st = (None, fs, ps, st1)"
    using assms(1) c v g by (auto simp: prepareRun_def split: option.splits prod.splits)
  obtain fs' ss st2 where q: "processLocations C (sv_SchemasLocations cfg) st1 = (None, fs', ss, st2)"
    using assms(1) c v p g by (auto simp: prepareRun_def split: option.splits prod.splits)
  have "length ps = length (sv_PoliciesLocation cfg)" using p processFrom_spec[of C "sv_PoliciesLocation cfg" st fs ps st1] by (simp add: processLocations_def)
  then have "(case NewChecker ps of Inl err \<Rightarrow> Some err | Inr _ \<Rightarrow> None) =
      (case NewChecker (sv_PoliciesLocation cfg) of Inl err \<Rightarrow> Some err | Inr _ \<Rightarrow> None)"
    by (cases ps; cases "sv_PoliciesLocation cfg") (simp_all add: NewChecker_def)
  then show ?thesis using assms c v g p q by (auto simp: prepareRun_def controllerRun_def startWatchers_def)
qed

text \<open>The temporary directory is left behind exactly by the runs that end with a message after it was made.\<close>

lemma failed_run_leaves_directory:
  "snd (processRun E C P u args st) \<longleftrightarrow> sg_MkdirTemp P = None \<and> (\<exists>err. fst (processRun E C P u args st) = Some (FatalEnd err))"
  by (auto simp: processRun_def split: option.splits sum.splits start_end.splits prod.splits)

text \<open>A kind of cluster that is none of the known ones is not reported but makes the start panic.\<close>

lemma unknown_cluster_panics:
  assumes "NewVcsClient E cfg = None" "sv_KubernetesType cfg \<noteq> ''local''" "sv_KubernetesType cfg \<noteq> ''eks''" "se_argoClient E = None"
  shows "container_New E cfg = Inl PanicEnd"
  using assms by (simp add: container_New_def NewKubeClient_def NewArgoClient_def)

text \<open>The wait ends by the deadline, and before it only when nothing is in flight.\<close>

lemma wait_is_bounded:
  "n \<le> d \<Longrightarrow> n \<le> waitForPendingRequest f d n \<and> waitForPendingRequest f d n \<le> d \<and>
    (waitForPendingRequest f d n < d \<longrightarrow> f (waitForPendingRequest f d n) = 0)"
proof (induction f d n rule: waitForPendingRequest.induct)
  case (1 f d n)
  show ?case
  proof (cases "f n = 0 \<or> d \<le> n")
    case True
    then show ?thesis using 1(2) by (auto simp: waitForPendingRequest.simps[of f d n])
  next
    case False
    then have "waitForPendingRequest f d n = waitForPendingRequest f d (Suc n)" by (subst waitForPendingRequest.simps) simp
    then show ?thesis using 1(1) False by auto
  qed
qed

end
