(* ===== verification/ArgoQueries.thy ===== *)
theory ArgoQueries
  imports GoStrings ArgoTypes
begin

text \<open>
  \<open>pkg/argo_client/client.go\<close> and \<open>applications.go\<close>: connections to Argo CD, made again after errors of the
  network, and the queries made over them.  The library that repeats calls is an argument: it takes
  the outcome of every call and gives the number of the last one with the error it ends with.
\<close>

section \<open>Repeated calls\<close>

datatype 'e op_result = OpOk | OpPermanent 'e | OpRetry 'e

type_synonym 'e retrier = "(nat \<Rightarrow> 'e op_result) \<Rightarrow> nat \<times> 'e option"

text \<open>Documented behaviour of \<open>backoff.RetryNotify\<close>: only calls that failed with an error that is not permanent are
  repeated, and without an error it ends after a call that succeeded only.\<close>

definition retrier_ok :: "'e retrier \<Rightarrow> bool" where
  "retrier_ok retry =
    (\<forall>ops. case retry ops of (n, e) \<Rightarrow>
      (\<forall>i<n. \<exists>err. ops i = OpRetry err) \<and> (e = None \<longleftrightarrow> ops n = OpOk) \<and> (\<forall>err. ops n = OpPermanent err \<longrightarrow> e = Some err))"

section \<open>Connections\<close>

text \<open>The chain of an error: what \<open>errors.As\<close> looks for in it.\<close>

datatype err_node = DNSError bool | OpError | OtherError

record dial_error =
  de_text :: string
  de_chain :: "err_node list"

definition is_dns :: "err_node \<Rightarrow> bool" where
  "is_dns n = (case n of DNSError _ \<Rightarrow> True | _ \<Rightarrow> False)"

definition isTransientDialError :: "dial_error \<Rightarrow> bool" where
  "isTransientDialError err =
    (case find is_dns (de_chain err) of
       Some (DNSError True) \<Rightarrow> False
     | _ \<Rightarrow> OpError \<in> set (de_chain err))"

text \<open>\<open>newClient n\<close> is what the \<open>n\<close>-th attempt yields: an error or a connection.\<close>

definition newClientWithRetry :: "dial_error retrier \<Rightarrow> string \<Rightarrow> (nat \<Rightarrow> dial_error option \<times> 'c) \<Rightarrow> string + 'c" where
  "newClientWithRetry retry name newClient =
    (case retry (\<lambda>n. case fst (newClient n) of
            None \<Rightarrow> OpOk
          | Some err \<Rightarrow> if \<not> isTransientDialError err then OpPermanent err else OpRetry err) of
       (n, Some err) \<Rightarrow> Inl (''could not create ArgoCD '' @ name @ '': '' @ de_text err)
     | (n, None) \<Rightarrow> Inr (snd (newClient n)))"

section \<open>Queries\<close>

record application_client =
  cl_GetApp :: "string \<Rightarrow> string + application"
  cl_ListApps :: "string option \<Rightarrow> string + application list"

type_synonym cluster_client = "string \<times> string \<Rightarrow> string + string"

type_synonym appset_client = "string + application_set list"

record argo_client =
  ac_retry :: "dial_error retrier"
  ac_NewApplicationClient :: "nat \<Rightarrow> dial_error option \<times> application_client"
  ac_NewApplicationSetClient :: "nat \<Rightarrow> dial_error option \<times> appset_client"
  ac_NewClusterClient :: "nat \<Rightarrow> dial_error option \<times> cluster_client"

definition GetApplicationClient :: "argo_client \<Rightarrow> string + application_client" where
  "GetApplicationClient a = newClientWithRetry (ac_retry a) ''Application Client'' (ac_NewApplicationClient a)"

definition GetApplicationSetClient :: "argo_client \<Rightarrow> string + appset_client" where
  "GetApplicationSetClient a = newClientWithRetry (ac_retry a) ''Application Set Client'' (ac_NewApplicationSetClient a)"

definition GetClusterClient :: "argo_client \<Rightarrow> string + cluster_client" where
  "GetClusterClient a = newClientWithRetry (ac_retry a) ''Cluster Client'' (ac_NewClusterClient a)"

text \<open>What is done with a connection, in order.\<close>

datatype argo_call = GetApp string | ListApps "string option" | ListAppSets | GetCluster string string | CloseConn

definition GetApplicationByName :: "argo_client \<Rightarrow> string \<Rightarrow> (string + application) \<times> argo_call list" where
  "GetApplicationByName a name =
    (case GetApplicationClient a of
       Inl err \<Rightarrow> (Inl err, [])
     | Inr appClient \<Rightarrow>
         (case cl_GetApp appClient name of
            Inl err \<Rightarrow> (Inl (''failed to retrieve the application: '' @ err), [GetApp name, CloseConn])
          | Inr app \<Rightarrow> (Inr app, [GetApp name, CloseConn])))"

definition clusterQuery :: "application \<Rightarrow> string \<times> string" where
  "clusterQuery app =
    (if sp_DestinationServer (app_Spec app) \<noteq> [] then (sp_DestinationServer (app_Spec app), [])
     else ([], sp_DestinationName (app_Spec app)))"

definition cleanVersion :: "string \<Rightarrow> string" where
  "cleanVersion version = trim_space (trim_suffix version ''+'')"

definition GetKubernetesVersionByApplication :: "argo_client \<Rightarrow> application \<Rightarrow> (string + string) \<times> argo_call list" where
  "GetKubernetesVersionByApplication a app =
    (let (server, name) = clusterQuery app; log = [GetCluster server name, CloseConn] in
     case GetClusterClient a of
       Inl err \<Rightarrow> (Inl err, [])
     | Inr clusterClient \<Rightarrow>
         (case clusterClient (server, name) of
            Inl err \<Rightarrow> (Inl (''failed to retrieve the destination Kubernetes cluster: '' @ err), log)
          | Inr version \<Rightarrow>
              if cleanVersion version = [] then (Inl ''no kubernetes version found'', log)
              else (Inr (cleanVersion version), log)))"

definition GetApplicationsByLabels :: "argo_client \<Rightarrow> string \<Rightarrow> (string + application list) \<times> argo_call list" where
  "GetApplicationsByLabels a labels =
    (case GetApplicationClient a of
       Inl err \<Rightarrow> (Inl err, [])
     | Inr appClient \<Rightarrow>
         (case cl_ListApps appClient (Some labels) of
            Inl err \<Rightarrow> (Inl (''failed to retrieve applications from labels: '' @ err), [ListApps (Some labels), CloseConn])
          | Inr apps \<Rightarrow> (Inr apps, [ListApps (Some labels), CloseConn])))"

definition GetApplicationsByAppset :: "argo_client \<Rightarrow> string \<Rightarrow> (string + application list) \<times> argo_call list" where
  "GetApplicationsByAppset a name = GetApplicationsByLabels a (''argocd.argoproj.io/application-set-name='' @ name)"

definition GetApplications :: "argo_client \<Rightarrow> (string + application list) \<times> argo_call list" where
  "GetApplications a =
    (case GetApplicationClient a of
       Inl err \<Rightarrow> (Inl err, [])
     | Inr appClient \<Rightarrow>
         (case cl_ListApps appClient None of
            Inl err \<Rightarrow> (Inl (''failed to list applications: '' @ err), [ListApps None, CloseConn])
          | Inr apps \<Rightarrow> (Inr apps, [ListApps None, CloseConn])))"

definition GetApplicationSets :: "argo_client \<Rightarrow> (string + application_set list) \<times> argo_call list" where
  "GetApplicationSets a =
    (case GetApplicationSetClient a of
       Inl err \<Rightarrow> (Inl err, [])
     | Inr resp \<Rightarrow>
         (case resp of
            Inl err \<Rightarrow> (Inl (''failed to list application sets: '' @ err), [ListAppSets, CloseConn])
          | Inr sets \<Rightarrow> (Inr sets, [ListAppSets, CloseConn])))"

section \<open>Properties\<close>

text \<open>An unknown host is final even when it is wrapped in an error of the network; other errors of the network are not.\<close>

lemma unknown_host_is_final:
  "find is_dns (de_chain err) = Some (DNSError True) \<Longrightarrow> \<not> isTransientDialError err"
  by (simp add: isTransientDialError_def)

text \<open>A connection that is returned comes from the last attempt, which succeeded, and all before it failed with an
  error of the network; an error is returned only when no attempt succeeded.\<close>

lemma connection_is_of_last_attempt:
  assumes "retrier_ok retry" "newClientWithRetry retry name newClient = Inr c"
  obtains n where "newClient n = (None, c)"
    "\<forall>i<n. \<exists>err. fst (newClient i) = Some err \<and> isTransientDialError err"
proof -
  let ?ops = "\<lambda>n. case fst (newClient n) of None \<Rightarrow> OpOk
    | Some err \<Rightarrow> if \<not> isTransientDialError err then OpPermanent err else OpRetry err"
  obtain n e where r: "retry ?ops = (n, e)" by (cases "retry ?ops")
  then have e: "e = None" "c = snd (newClient n)"
    using assms(2) by (auto simp: newClientWithRetry_def split: option.splits)
  have "(\<forall>i<n. \<exists>err. ?ops i = OpRetry err) \<and> (e = None \<longleftrightarrow> ?ops n = OpOk)"
    using assms(1) r unfolding retrier_ok_def by (smt (verit) case_prod_conv)
  then have l: "\<forall>i<n. \<exists>err. ?ops i = OpRetry err" "?ops n = OpOk" using e(1) by blast+
  from l(2) have "newClient n = (None, c)" using e(2) by (cases "newClient n") (simp split: option.splits if_splits)
  moreover have "\<exists>err. fst (newClient i) = Some err \<and> isTransientDialError err" if "i < n" for i
    using l(1) that by (cases "fst (newClient i)") (auto split: if_splits)
  ultimately show thesis using that by blast
qed

lemma failing_attempts_yield_error:
  assumes "retrier_ok retry" "\<forall>n. fst (newClient n) \<noteq> None"
  shows "isl (newClientWithRetry retry name newClient)"
proof (rule ccontr)
  assume "\<not> isl (newClientWithRetry retry name newClient)"
  then obtain c where "newClientWithRetry retry name newClient = Inr c" by (cases "newClientWithRetry retry name newClient") auto
  then show False using connection_is_of_last_attempt[OF assms(1)] assms(2) by (metis fst_conv)
qed

text \<open>Every query uses its connection once and closes it.\<close>

definition one_query :: "argo_call list \<Rightarrow> bool" where
  "one_query log = (log = [] \<or> (\<exists>q. q \<noteq> CloseConn \<and> log = [q, CloseConn]))"

lemma queries_close_their_connection:
  "one_query (snd (GetApplicationByName a name))" "one_query (snd (GetKubernetesVersionByApplication a app))"
  "one_query (snd (GetApplicationsByLabels a labels))" "one_query (snd (GetApplicationsByAppset a name))"
  "one_query (snd (GetApplications a))" "one_query (snd (GetApplicationSets a))"
  by (auto simp: one_query_def GetApplicationByName_def GetKubernetesVersionByApplication_def GetApplicationsByLabels_def
      GetApplicationsByAppset_def GetApplications_def GetApplicationSets_def Let_def split: sum.splits prod.splits)

text \<open>A version that is returned is not empty and is what the cluster of the destination reports, without a
  trailing plus; the server is asked for when the destination names one.\<close>

lemma version_is_of_destination:
  assumes "fst (GetKubernetesVersionByApplication a app) = Inr v"
  obtains clusterClient version where "GetClusterClient a = Inr clusterClient" "clusterClient (clusterQuery app) = Inr version"
    "v = cleanVersion version" "v \<noteq> []"
  using assms by (auto simp: GetKubernetesVersionByApplication_def Let_def split: sum.splits prod.splits if_splits)

definition demo_versions :: "(string + string) list" where
  "demo_versions = map (\<lambda>v. fst (GetKubernetesVersionByApplication
     \<lparr>ac_retry = \<lambda>ops. (1, None), ac_NewApplicationClient = \<lambda>_. (None, \<lparr>cl_GetApp = \<lambda>_. Inl [], cl_ListApps = \<lambda>_. Inr []\<rparr>),
      ac_NewApplicationSetClient = \<lambda>_. (None, Inr []),
      ac_NewClusterClient = \<lambda>n. (if n = 0 then Some \<lparr>de_text = ''refused'', de_chain = [OpError]\<rparr> else None, \<lambda>q. Inr v)\<rparr>
     \<lparr>app_Name = ''a'', app_Namespace = ''argocd'', app_Spec = \<lparr>sp_Source = None, sp_Sources = [], sp_DestinationName = ''in-cluster'', sp_DestinationServer = []\<rparr>\<rparr>))
     [''1.31+'', '' 1.31 '', ''+'', ''1.31+ '']"

text \<open>Blanks are removed after the plus, so that a plus followed by a blank stays.\<close>

lemma demo_versions_are: "demo_versions = [Inr ''1.31'', Inr ''1.31'', Inl ''no kubernetes version found'', Inr ''1.31+'']"
  by code_simp

end
