(* ===== verification/GitlabHelpers.thy ===== *)
theory GitlabHelpers
  imports GitlabClient ArgoQueries
begin

text \<open>
  \<open>pkg/vcs/gitlab_client/merge.go\<close>, \<open>project.go\<close> and \<open>backoff.go\<close>: the differences of a merge request page by page,
  the configuration in a project, and calls that are repeated when GitLab limits their rate.
\<close>

section \<open>Differences\<close>

record merge_changes =
  ch_OldPath :: string
  ch_NewPath :: string
  ch_AMode :: string
  ch_BMode :: string
  ch_Diff :: string
  ch_NewFile :: bool
  ch_RenamedFile :: bool
  ch_DeletedFile :: bool

text \<open>\<open>list page\<close> is what GitLab answers for a page: its differences and the number of the next one, 0 after the
  last.  The loop has no bound of its own, so that not returning is \<open>None\<close>.\<close>

type_synonym page_listing = "int \<Rightarrow> string + merge_changes list \<times> int"

partial_function (option) mergeChangesLoop ::
  "page_listing \<Rightarrow> int \<Rightarrow> merge_changes list \<Rightarrow> (merge_changes list \<times> string option) option" where
  "mergeChangesLoop list_page page changes =
    (case list_page page of
       Inl err \<Rightarrow> Some (changes, Some err)
     | Inr (diffs, nextPage) \<Rightarrow>
         if nextPage = 0 then Some (changes @ diffs, None) else mergeChangesLoop list_page nextPage (changes @ diffs))"

definition GetMergeChanges :: "page_listing \<Rightarrow> (merge_changes list \<times> string option) option" where
  "GetMergeChanges list_page = mergeChangesLoop list_page 1 []"

text \<open>Pages that are numbered from 1 and end.\<close>

definition listing_of :: "(string + merge_changes list) list \<Rightarrow> page_listing" where
  "listing_of pages page =
    (let i = nat (page - 1) in
     case pages ! i of Inl err \<Rightarrow> Inl err | Inr diffs \<Rightarrow> Inr (diffs, if Suc i < length pages then page + 1 else 0))"

fun pagesUpTo :: "(string + merge_changes list) list \<Rightarrow> merge_changes list \<times> string option" where
  "pagesUpTo [] = ([], None)"
| "pagesUpTo (Inl err # rest) = ([], Some err)"
| "pagesUpTo (Inr diffs # rest) = (let (others, err) = pagesUpTo rest in (diffs @ others, err))"

lemma mergeChangesLoop_pages:
  "i < length pages \<Longrightarrow> mergeChangesLoop (listing_of pages) (int i + 1) acc =
    Some (case pagesUpTo (drop i pages) of (others, err) \<Rightarrow> (acc @ others, err))"
proof (induction "length pages - i" arbitrary: i acc)
  case 0
  then show ?case by simp
next
  case (Suc n)
  have d: "drop i pages = pages ! i # drop (Suc i) pages" using Suc.prems by (simp add: Cons_nth_drop_Suc)
  show ?case
  proof (cases "pages ! i")
    case (Inl err)
    then show ?thesis using d by (subst mergeChangesLoop.simps) (simp add: listing_of_def)
  next
    case (Inr diffs)
    show ?thesis
    proof (cases "Suc i < length pages")
      case True
      then have "mergeChangesLoop (listing_of pages) (int (Suc i) + 1) (acc @ diffs) =
        Some (case pagesUpTo (drop (Suc i) pages) of (others, err) \<Rightarrow> ((acc @ diffs) @ others, err))"
        using Suc.hyps(1)[of "Suc i" "acc @ diffs"] Suc.hyps(2) by simp
      then show ?thesis using Inr d True
        by (subst mergeChangesLoop.simps) (simp add: listing_of_def Let_def algebra_simps split: prod.splits)
    next
      case False
      then have "drop (Suc i) pages = []" by simp
      then show ?thesis using Inr d False by (subst mergeChangesLoop.simps) (simp add: listing_of_def Let_def)
    qed
  qed
qed

text \<open>On a listing that ends the loop returns the differences of all pages in order, or of those before the first
  error with that error.\<close>

lemma merge_changes_are_all_pages:
  assumes "pages \<noteq> []"
  shows "GetMergeChanges (listing_of pages) = Some (pagesUpTo pages)"
  using mergeChangesLoop_pages[of 0 pages "[]"] assms by (simp add: GetMergeChanges_def split: prod.split)

section \<open>Configuration\<close>

fun firstFile :: "(string \<Rightarrow> string \<Rightarrow> string + string) \<Rightarrow> string list \<Rightarrow> string + string" where
  "firstFile get [] = Inl ''.kubecheck.yaml file not found''"
| "firstFile get (file # files) =
    (case get file ''HEAD'' of Inl err \<Rightarrow> firstFile get files | Inr b \<Rightarrow> Inr b)"

definition GetRepoConfigFile :: "(string \<Rightarrow> string \<Rightarrow> string + string) \<Rightarrow> string + string" where
  "GetRepoConfigFile getRawFile = firstFile getRawFile RepoConfigFilenameVariations"

lemma firstFile_iff:
  "firstFile get files = Inr b \<longleftrightarrow>
    (\<exists>before file after. files = before @ file # after \<and> get file ''HEAD'' = Inr b \<and> list_all (\<lambda>f. isl (get f ''HEAD'')) before)"
proof (induction files)
  case Nil
  then show ?case by simp
next
  case (Cons f files)
  show ?case
  proof (cases "get f ''HEAD''")
    case (Inl err)
    then have "firstFile get (f # files) = Inr b \<longleftrightarrow> firstFile get files = Inr b" by simp
    moreover have "(\<exists>before file after. f # files = before @ file # after \<and> get file ''HEAD'' = Inr b \<and> list_all (\<lambda>f. isl (get f ''HEAD'')) before) \<longleftrightarrow>
      (\<exists>before file after. files = before @ file # after \<and> get file ''HEAD'' = Inr b \<and> list_all (\<lambda>f. isl (get f ''HEAD'')) before)" (is "?l \<longleftrightarrow> ?r")
    proof
      assume ?l
      then obtain bs x as where w: "f # files = bs @ x # as" "get x ''HEAD'' = Inr b"
        "list_all (\<lambda>f. isl (get f ''HEAD'')) bs" by blast
      then show ?r using Inl by (cases bs) auto
    next
      assume ?r
      then obtain bs x as where w: "f # files = (f # bs) @ x # as" "get x ''HEAD'' = Inr b"
        "list_all (\<lambda>f. isl (get f ''HEAD'')) (f # bs)" using Inl by auto
      then show ?l by blast
    qed
    ultimately show ?thesis using Cons.IH by simp
  next
    case (Inr c)
    then have l: "firstFile get (f # files) = Inr b \<longleftrightarrow> c = b" by simp
    show ?thesis
    proof (cases "c = b")
      case True
      then have "f # files = [] @ f # files \<and> get f ''HEAD'' = Inr b \<and> list_all (\<lambda>f. isl (get f ''HEAD'')) []" using Inr by simp
      then show ?thesis unfolding l using True by blast
    next
      case False
      then show ?thesis unfolding l using Inr by (auto simp: Cons_eq_append_conv)
    qed
  qed
qed

text \<open>The content is that of the first variation of the name that exists at the head of the project, not of the
  merge request.\<close>

lemma config_file_is_of_project_head:
  "GetRepoConfigFile get = Inr b \<longleftrightarrow>
    (\<exists>before file after. RepoConfigFilenameVariations = before @ file # after \<and> get file ''HEAD'' = Inr b \<and>
       list_all (\<lambda>f. isl (get f ''HEAD'')) before)"
  by (simp only: GetRepoConfigFile_def firstFile_iff)

section \<open>Repeated calls\<close>

record backoff_config =
  bk_InitialInterval :: int
  bk_MaxInterval :: int
  bk_RandomizationFactor :: int
  bk_MaxElapsedTime :: int

definition getBackOff :: backoff_config where
  "getBackOff = \<lparr>bk_InitialInterval = 60, bk_MaxInterval = 10, bk_RandomizationFactor = 0, bk_MaxElapsedTime = 180\<rparr>"

definition checkReturnForBackoff :: "int option \<Rightarrow> string option \<Rightarrow> string op_result" where
  "checkReturnForBackoff status err =
    (if status = Some 429 then OpRetry ''Rate Limited''
     else case err of Some e \<Rightarrow> OpPermanent e | None \<Rightarrow> OpOk)"

record project_answer =
  pj_project :: "string option"
  pj_status :: "int option"
  pj_error :: "string option"

definition GetProjectByID :: "string retrier \<Rightarrow> (nat \<Rightarrow> project_answer) \<Rightarrow> string option \<times> string option" where
  "GetProjectByID retry getProject =
    (case retry (\<lambda>n. checkReturnForBackoff (pj_status (getProject n)) (pj_error (getProject n))) of
       (n, err) \<Rightarrow> (pj_project (getProject n), err))"

text \<open>Only a limited rate makes the call be repeated, and a project without an error is the answer of a call that
  was neither limited nor failed.\<close>

lemma project_is_of_answered_call:
  assumes "retrier_ok retry" "GetProjectByID retry getProject = (p, None)"
  shows "\<exists>n. pj_project (getProject n) = p \<and> pj_error (getProject n) = None \<and> pj_status (getProject n) \<noteq> Some 429 \<and>
    (\<forall>i<n. pj_status (getProject i) = Some 429)"
proof -
  let ?ops = "\<lambda>n. checkReturnForBackoff (pj_status (getProject n)) (pj_error (getProject n))"
  obtain n e where r: "retry ?ops = (n, e)" by (cases "retry ?ops")
  then have e: "e = None" "pj_project (getProject n) = p" using assms(2) by (auto simp: GetProjectByID_def)
  have "(\<forall>i<n. \<exists>err. ?ops i = OpRetry err) \<and> (e = None \<longleftrightarrow> ?ops n = OpOk)"
    using assms(1) r unfolding retrier_ok_def by (smt (verit) case_prod_conv)
  then have "\<forall>i<n. \<exists>err. ?ops i = OpRetry err" "?ops n = OpOk" using e(1) by blast+
  then show ?thesis using e(2) by (fastforce simp: checkReturnForBackoff_def split: if_splits option.splits)
qed

end
