(* ===== verification/KubeClient.thy ===== *)
theory KubeClient
  imports GoStrings
begin

text \<open>
  \<open>pkg/kubernetes\<close>: the configuration of the client of the cluster, its options, and the token of an EKS cluster
  that is renewed before requests.  The AWS and Kubernetes libraries are arguments: what they
  answer, and the tokens that they sign.  Instants are seconds.
\<close>

section \<open>Base64\<close>

definition base64Alphabet :: "string \<Rightarrow> string" where
  "base64Alphabet extra = ''ABCDEFGHIJKLMNOPQRSTUVWXYZabcdefghijklmnopqrstuvwxyz0123456789'' @ extra"

definition enc6 :: "int \<Rightarrow> char" where
  "enc6 n = base64Alphabet ''-_'' ! nat (n mod 64)"

text \<open>\<open>base64.RawURLEncoding\<close>: no padding.\<close>

fun rawURLEncode :: "string \<Rightarrow> string" where
  "rawURLEncode [] = []"
| "rawURLEncode [a] = [enc6 (of_char a div 4), enc6 (of_char a * 16)]"
| "rawURLEncode [a, b] = [enc6 (of_char a div 4), enc6 (of_char a * 16 + of_char b div 16), enc6 (of_char b * 4)]"
| "rawURLEncode (a # b # c # rest) =
    enc6 (of_char a div 4) # enc6 (of_char a * 16 + of_char b div 16) # enc6 (of_char b * 4 + of_char c div 64) #
    enc6 (of_char c) # rawURLEncode rest"

fun index_of :: "char \<Rightarrow> string \<Rightarrow> int option" where
  "index_of c [] = None"
| "index_of c (x # xs) = (if c = x then Some 0 else map_option (\<lambda>i. i + 1) (index_of c xs))"

definition dec6 :: "char \<Rightarrow> int option" where
  "dec6 c = index_of c (base64Alphabet ''+/'')"

definition threeBytes :: "int \<Rightarrow> int \<Rightarrow> int \<Rightarrow> int \<Rightarrow> string" where
  "threeBytes a b c d = [char_of (a * 4 + b div 16), char_of (b * 16 + c div 4), char_of (c * 64 + d)]"

text \<open>Groups of four, the last of which may end in padding; bits left over are ignored.\<close>

fun decodeGroups :: "string \<Rightarrow> string option" where
  "decodeGroups [] = Some []"
| "decodeGroups (a # b # c # d # rest) =
    (if rest = [] \<and> d = CHR ''='' then
       (case (dec6 a, dec6 b) of
          (Some a, Some b) \<Rightarrow>
            if c = CHR ''='' then Some (take 1 (threeBytes a b 0 0))
            else (case dec6 c of Some c \<Rightarrow> Some (take 2 (threeBytes a b c 0)) | None \<Rightarrow> None)
        | _ \<Rightarrow> None)
     else (case (dec6 a, dec6 b, dec6 c, dec6 d, decodeGroups rest) of
          (Some a, Some b, Some c, Some d, Some s) \<Rightarrow> Some (threeBytes a b c d @ s)
        | _ \<Rightarrow> None))"
| "decodeGroups _ = None"

text \<open>\<open>base64.StdEncoding.DecodeString\<close> skips the ends of lines.\<close>

definition stdDecode :: "string \<Rightarrow> string option" where
  "stdDecode s = decodeGroups (filter (\<lambda>c. c \<notin> {CHR 0x0A, CHR 0x0D}) s)"

lemma enc6_safe: "enc6 n \<in> set (base64Alphabet ''-_'')"
proof -
  have "nat (n mod 64) < length (base64Alphabet ''-_'')" by (simp add: base64Alphabet_def nat_less_iff)
  then show ?thesis unfolding enc6_def by (rule nth_mem)
qed

lemma rawURLEncode_safe: "set (rawURLEncode s) \<subseteq> set (base64Alphabet ''-_'')"
  by (induction s rule: rawURLEncode.induct) (use enc6_safe in auto)

lemma rawURLEncode_length: "length (rawURLEncode s) = (length s * 4 + 2) div 3"
  by (induction s rule: rawURLEncode.induct) auto

lemma base64_examples:
  "rawURLEncode ''any carnal pleas?>'' = ''YW55IGNhcm5hbCBwbGVhcz8-'' \<and> rawURLEncode ''ab'' = ''YWI'' \<and>
   stdDecode (''YW55IGNh'' @ [CHR 0x0A] @ ''cm5hbA=='') = Some ''any carnal'' \<and> stdDecode ''YWI='' = Some ''ab'' \<and>
   stdDecode ''YWI'' = None \<and> stdDecode ''YW=I'' = None"
  by code_simp

section \<open>Configuration\<close>

record rest_config =
  kc_Host :: string
  kc_BearerToken :: string
  kc_CAData :: string

record client_input =
  ci_ClusterType :: string
  ci_KubernetesConfigPath :: string
  ci_restConfig :: "rest_config option"

type_synonym client_option = "client_input \<Rightarrow> client_input"

definition ClusterTypeEKS :: string where "ClusterTypeEKS = ''eks''"

definition ClusterTypeLOCAL :: string where "ClusterTypeLOCAL = ''local''"

record kube_env =
  ke_BuildConfigFromFlags :: "string \<Rightarrow> string + rest_config"
  ke_InClusterConfig :: "string + rest_config"
  ke_NewForConfig :: "rest_config \<Rightarrow> string option"
  ke_clientgoScheme :: "string option"
  ke_argoScheme :: "string option"
  ke_controllerNew :: "rest_config \<Rightarrow> string option"

definition localConfig :: "kube_env \<Rightarrow> client_input \<Rightarrow> string + rest_config option" where
  "localConfig E input =
    (if ci_ClusterType input = ClusterTypeLOCAL then
       (if ci_KubernetesConfigPath input \<noteq> []
        then (case ke_BuildConfigFromFlags E (ci_KubernetesConfigPath input) of Inl err \<Rightarrow> Inr None | Inr c \<Rightarrow> Inr (Some c))
        else (case ke_InClusterConfig E of Inl err \<Rightarrow> Inl err | Inr c \<Rightarrow> Inr (Some c)))
     else Inr None)"

text \<open>The clients are told by the configuration that they are made with.\<close>

definition kube_New :: "kube_env \<Rightarrow> client_input \<Rightarrow> client_option list \<Rightarrow> string + rest_config" where
  "kube_New E input opts =
    (case localConfig E input of Inl err \<Rightarrow> Inl err | Inr k8sConfig \<Rightarrow>
     case ci_restConfig (foldl (\<lambda>i opt. opt i) (input\<lparr>ci_restConfig := k8sConfig\<rparr>) opts) of
       None \<Rightarrow> Inl ''failed to init kubernetes configuration''
     | Some c \<Rightarrow>
         (case ke_NewForConfig E c of Some err \<Rightarrow> Inl err | None \<Rightarrow>
          case ke_clientgoScheme E of Some err \<Rightarrow> Inl (''failed to register client-go scheme: '' @ err) | None \<Rightarrow>
          case ke_argoScheme E of Some err \<Rightarrow> Inl (''failed to register argo v1alpha1 scheme: '' @ err) | None \<Rightarrow>
          case ke_controllerNew E c of Some err \<Rightarrow> Inl err | None \<Rightarrow> Inr c))"

section \<open>EKS\<close>

definition presignedURLExpiration :: int where "presignedURLExpiration = 10 * 60"

definition v1Prefix :: string where "v1Prefix = ''k8s-aws-v1.''"

record eks_cluster =
  ek_Name :: string
  ek_Endpoint :: string
  ek_CAData :: string

record aws_env =
  aw_LoadDefaultConfig :: "string option"
  aw_DescribeCluster :: "string \<Rightarrow> string + eks_cluster"
  aw_presign :: "string \<Rightarrow> string + string"

definition getEKSToken :: "aws_env \<Rightarrow> string \<Rightarrow> string + string" where
  "getEKSToken A clusterName =
    (case aw_presign A clusterName of
       Inl err \<Rightarrow> Inl (''failed to presign caller identity: '' @ err)
     | Inr url \<Rightarrow> Inr (v1Prefix @ rawURLEncode url))"

record token_refresher =
  tr_clusterID :: string
  tr_restConfig :: rest_config
  tr_token :: string
  tr_tokenExpiration :: int

text \<open>What the option leaves behind: the input with the configuration, and the refresher that wraps its transport.\<close>

definition EKSClientOption :: "aws_env \<Rightarrow> int \<Rightarrow> string \<Rightarrow> client_input \<Rightarrow> client_input \<times> token_refresher option" where
  "EKSClientOption A now clusterID c =
    (if ci_ClusterType c \<noteq> ClusterTypeEKS then (c, None)
     else case aw_LoadDefaultConfig A of Some err \<Rightarrow> (c, None) | None \<Rightarrow>
     case aw_DescribeCluster A clusterID of Inl err \<Rightarrow> (c, None) | Inr cluster \<Rightarrow>
     case getEKSToken A (ek_Name cluster) of Inl err \<Rightarrow> (c, None) | Inr token \<Rightarrow>
     case stdDecode (ek_CAData cluster) of None \<Rightarrow> (c, None) | Some caData \<Rightarrow>
     let k8sConfig = \<lparr>kc_Host = ek_Endpoint cluster, kc_BearerToken = token, kc_CAData = caData\<rparr>
     in (c\<lparr>ci_restConfig := Some k8sConfig\<rparr>,
         Some \<lparr>tr_clusterID = ek_Name cluster, tr_restConfig = k8sConfig, tr_token = token,
           tr_tokenExpiration = now + presignedURLExpiration\<rparr>))"

text \<open>The lock makes a refresh one step: \<open>now\<close> is the instant of the test, \<open>now'\<close> that after the token is signed.\<close>

definition refreshToken :: "aws_env \<Rightarrow> int \<Rightarrow> int \<Rightarrow> token_refresher \<Rightarrow> string option \<times> token_refresher" where
  "refreshToken A now now' t =
    (if now > tr_tokenExpiration t then
       (case getEKSToken A (tr_clusterID t) of
          Inl err \<Rightarrow> (Some (''unable to refresh EKS token, '' @ err), t)
        | Inr token \<Rightarrow>
            (None, t\<lparr>tr_token := token, tr_tokenExpiration := now' + presignedURLExpiration,
                     tr_restConfig := (tr_restConfig t)\<lparr>kc_BearerToken := token\<rparr>\<rparr>))
     else (None, t))"

type_synonym header = "string \<Rightarrow> string option"

definition RoundTrip :: "aws_env \<Rightarrow> int \<Rightarrow> int \<Rightarrow> header \<Rightarrow> token_refresher \<Rightarrow> header \<times> token_refresher" where
  "RoundTrip A now now' req t =
    (case refreshToken A now now' t of
       (Some err, t) \<Rightarrow> (req, t)
     | (None, t) \<Rightarrow> (req(''Authorization'' \<mapsto> ''Bearer '' @ tr_token t), t))"

text \<open>The requests of a client, one after the other, each at its instant.\<close>

fun roundTrips :: "aws_env \<Rightarrow> (int \<times> int \<times> header) list \<Rightarrow> token_refresher \<Rightarrow> header list \<times> token_refresher" where
  "roundTrips A [] t = ([], t)"
| "roundTrips A ((now, now', req) # rest) t =
    (let (h, t) = RoundTrip A now now' req t; (hs, t) = roundTrips A rest t in (h # hs, t))"

section \<open>Properties\<close>

lemma config_comes_from_options:
  assumes "kube_New E input opts = Inr c"
  shows "\<exists>k. localConfig E input = Inr k \<and> ci_restConfig (foldl (\<lambda>i opt. opt i) (input\<lparr>ci_restConfig := k\<rparr>) opts) = Some c"
  using assms by (auto simp: kube_New_def split: sum.splits option.splits)

text \<open>Without options a cluster that is not local has no client, whatever the environment.\<close>

lemma remote_cluster_needs_option: "ci_ClusterType input \<noteq> ClusterTypeLOCAL \<Longrightarrow> isl (kube_New E input [])"
  by (simp add: kube_New_def localConfig_def)

text \<open>An option that fails leaves the input as it was: the failure is seen by the caller only as a missing configuration.\<close>

lemma failed_option_changes_nothing: "snd (EKSClientOption A now cid c) = None \<Longrightarrow> fst (EKSClientOption A now cid c) = c"
  by (auto simp: EKSClientOption_def Let_def split: sum.splits option.splits if_splits)

text \<open>The token, the configuration and the expiry of a refresher agree.\<close>

definition refresher_ok :: "int \<Rightarrow> token_refresher \<Rightarrow> bool" where
  "refresher_ok now t = (kc_BearerToken (tr_restConfig t) = tr_token t \<and> tr_tokenExpiration t \<le> now + presignedURLExpiration)"

lemma new_refresher_ok: "EKSClientOption A now cid c = (c', Some t) \<Longrightarrow>
    refresher_ok now t \<and> ci_restConfig c' = Some (tr_restConfig t) \<and> getEKSToken A (tr_clusterID t) = Inr (tr_token t)"
  by (auto simp: EKSClientOption_def refresher_ok_def Let_def split: sum.splits option.splits if_splits)

lemma refreshToken_ok:
  assumes "refresher_ok s t" "s \<le> now'" "refreshToken A now now' t = (e, t')"
  shows "refresher_ok now' t' \<and> tr_clusterID t' = tr_clusterID t \<and>
    (e = None \<longrightarrow> now \<le> tr_tokenExpiration t \<and> t' = t \<or> getEKSToken A (tr_clusterID t) = Inr (tr_token t')) \<and>
    (e \<noteq> None \<longrightarrow> t' = t \<and> tr_tokenExpiration t < now)"
  using assms by (auto simp: refreshToken_def refresher_ok_def split: sum.splits if_splits)

text \<open>A request carries the header of a token that was not older than ten minutes when it was tested, or was signed
  for it; only when signing fails does it go out as it came.\<close>

lemma requests_carry_fresh_tokens:
  assumes "refresher_ok s t" "s \<le> now'" "RoundTrip A now now' req t = (h, t')"
  shows "refresher_ok now' t' \<and>
    (h ''Authorization'' = Some (''Bearer '' @ tr_token t') \<and>
       (now \<le> tr_tokenExpiration t \<and> t' = t \<or> getEKSToken A (tr_clusterID t) = Inr (tr_token t')) \<or>
     h = req \<and> t' = t \<and> tr_tokenExpiration t < now \<and> isl (getEKSToken A (tr_clusterID t)))"
proof -
  obtain e u where r: "refreshToken A now now' t = (e, u)" by (cases "refreshToken A now now' t")
  have "e \<noteq> None \<Longrightarrow> isl (getEKSToken A (tr_clusterID t))"
    using r by (auto simp: refreshToken_def split: sum.splits if_splits)
  then show ?thesis using refreshToken_ok[OF assms(1,2) r] assms(3) r by (cases e) (auto simp: RoundTrip_def)
qed

text \<open>The invariant holds after any sequence of requests whose instants do not go back.\<close>

lemma roundTrips_ok:
  "refresher_ok s t \<Longrightarrow> sorted (s # map (\<lambda>(_, now', _). now') rs) \<Longrightarrow> \<exists>s'. refresher_ok s' (snd (roundTrips A rs t))"
proof (induction rs arbitrary: s t)
  case Nil
  then show ?case by auto
next
  case (Cons r rs)
  obtain now now' req where r: "r = (now, now', req)" by (cases r)
  obtain h t' where t: "RoundTrip A now now' req t = (h, t')" by (cases "RoundTrip A now now' req t")
  have "refresher_ok now' t'" using requests_carry_fresh_tokens[OF Cons.prems(1) _ t] Cons.prems(2) r by simp
  then obtain s' where "refresher_ok s' (snd (roundTrips A rs t'))" using Cons.IH[of now' t'] Cons.prems(2) r by auto
  then show ?case using t r by (auto simp: split: prod.split)
qed

text \<open>A renewed token reaches a request through the header only: the configuration is overwritten as well, but a
  request whose renewal failed keeps the header with which it came.\<close>

definition demo_aws :: aws_env where
  "demo_aws = \<lparr>aw_LoadDefaultConfig = None, aw_DescribeCluster = \<lambda>c. Inr \<lparr>ek_Name = c, ek_Endpoint = ''https://eks'', ek_CAData = ''Y2E=''\<rparr>,
     aw_presign = \<lambda>c. Inr (''url-of-'' @ c)\<rparr>"

definition demo_refresher :: token_refresher where
  "demo_refresher = \<lparr>tr_clusterID = ''prod'', tr_restConfig = \<lparr>kc_Host = ''h'', kc_BearerToken = ''old'', kc_CAData = []\<rparr>,
     tr_token = ''old'', tr_tokenExpiration = 600\<rparr>"

lemma demo_round_trips:
  "map (\<lambda>h. h ''Authorization'') (fst (roundTrips demo_aws [(600, 600, Map.empty), (601, 602, Map.empty), (1202, 1202, Map.empty)] demo_refresher)) =
     [Some ''Bearer old'', Some ''Bearer k8s-aws-v1.dXJsLW9mLXByb2Q'', Some ''Bearer k8s-aws-v1.dXJsLW9mLXByb2Q'']"
  by code_simp

end
