(* ===== verification/Spec2Isabelle.thy ===== *)
theory Spec2Isabelle
  imports RepoQueue Affected ArchiveCache CheckEvent VcsReview ServerHooks AiSummary AiReview Locations ArgoManifests HookPhases Conftest AppWorker Extract ChatProviders Startup GitlabHelpers KubeClient
begin

text \<open>
  A model of kubechecks, the server that checks pull requests against the applications that Argo CD deploys from
  them, with the theorems that make it correct.  Definitions have the names of the functions and types under
  \<open>src/\<close> that they translate; each theory opens with the files it models.

  The program and its parts.  A webhook (or a comment that asks for a new check) reaches \<open>pkg/server\<close>,
  which has the client of the version control system (\<open>pkg/vcs\<close>) verify and read it, filters it by label and
  fork, and puts it into the queue of its repository (\<open>pkg/queue\<close>).  The worker of the queue runs one check
  event at a time (\<open>pkg/events/check.go\<close>): it downloads the merge of the pull request as an archive
  (\<open>pkg/archive\<close>), finds the affected applications and ApplicationSets in the indexes of what Argo CD deploys
  from which directory (\<open>pkg/appdir\<close>, \<open>pkg/affected_apps\<close>, \<open>pkg/kustomize\<close>), and hands them to a pool of workers
  (\<open>pkg/events/worker.go\<close>).  A worker renders the manifests of an application through the repository server of
  Argo CD (\<open>pkg/argo_client\<close>) and runs the checks (\<open>pkg/checks\<close>) as goroutines that add their results to a
  note (\<open>pkg/msg\<close>).  The note becomes one or more comments of bounded length and a status of the commit.  Beside
  the checks an agent on a language model (\<open>pkg/aireview\<close>, \<open>pkg/aiproviders\<close>) reviews the difference.

  Theories, from the ground up.
  \<^item> \<open>Prelude\<close>, \<open>GoStrings\<close>, \<open>GoText\<close>, \<open>GoPaths\<close>, \<open>GoRel\<close>: shared automation, and what the program uses of
    Go's standard library.  A Go string is the list of its bytes.
  \<^item> \<open>CommitState\<close>, \<open>MsgMarkdown\<close>, \<open>MsgComment\<close>, \<open>MsgReport\<close>: states, the markdown state machine, packing of
    sections into comments, the note and the report built from it.
  \<^item> \<open>RepoUrl\<close>, \<open>ArgoTypes\<close>, \<open>VcsTypes\<close>: repositories, the objects of Argo CD, pull requests.
  \<^item> \<open>AppDir\<close>, \<open>AppSetDir\<close>, \<open>Kustomize\<close>, \<open>VcsArgoMap\<close>, \<open>RepoConfig\<close>, \<open>Affected\<close>: the indexes, their initial fill and
    their watchers, the configuration in a repository, and the matchers.
  \<^item> \<open>Archive\<close>, \<open>ArchiveCache\<close>, \<open>Extract\<close>, \<open>RepoCache\<close>: archives from the request to the files on disk, their
    reference-counted cache under all interleavings, and the checkouts of one check.
  \<^item> \<open>RepoQueue\<close>, \<open>CheckRunner\<close>, \<open>AppSetSpec\<close>, \<open>CheckEvent\<close>, \<open>AppWorker\<close>: the queue, the goroutines of an application,
    the findings on ApplicationSets, the check event and the worker.
  \<^item> \<open>GitRepo\<close>, \<open>GitManager\<close>, \<open>Locations\<close>: checkouts with Git, the two managers that own them, and the repositories
    of policies and schemas.
  \<^item> \<open>ArgoPackage\<close>, \<open>ArgoManifests\<close>: what is sent to the repository server, from which revision, and how.
  \<^item> \<open>FieldRemovals\<close>, \<open>DiffCheck\<close>, \<open>HookPhases\<close>, \<open>SchemaCheck\<close>, \<open>Conftest\<close>: the checks.
  \<^item> \<open>AiPrompts\<close>, \<open>HelmCharts\<close>, \<open>AiAgent\<close>, \<open>AiReview\<close>, \<open>AiSummary\<close>, \<open>ChatProviders\<close>: prompts, tools, the loop of the
    agent, the review, the summary, and the requests made of the two vendors.
  \<^item> \<open>GithubRetry\<close>, \<open>GithubClient\<close>, \<open>GitlabClient\<close>, \<open>VcsCommon\<close>, \<open>VcsReview\<close>, \<open>VcsClients\<close>, \<open>GitlabHelpers\<close>,
    \<open>ServerHooks\<close>: the two clients, what they promise alike, and the server.
  \<^item> \<open>ArgoQueries\<close>, \<open>KubeClient\<close>: connections to Argo CD and the queries over them, the client of the cluster and the
    renewal of its token.
  \<^item> \<open>Startup\<close>: flags, configuration, the order in which the controller prepares what it serves, and the single run.

  How it is modelled.  State is a record that each operation returns updated; an error is the left side of a sum; a
  panic is \<open>None\<close> or a constructor of its own.  What runs concurrently is an inductive step relation
  (\<open>qstep\<close>, \<open>rstep\<close>, \<open>pstep\<close>, \<open>cstep\<close>) with its reachable states, or a schedule that is an argument.  A Go
  map is a partial function, and where the order of its enumeration can be seen, that order is an argument.
  Third-party code (go-github, go-gitlab, go-git, argo-cd, Helm, conftest, kubeconform, kubepug, YAML and JSON) is
  a field of a record of functions that the definitions take; what is relied on of it is a named predicate, such as
  \<open>argo_api_ok\<close> or \<open>git_laws\<close>, which an example satisfies.  Calls of a version control system are a log.

  What the theorems show.
  \<^item> A check always settles: one final status, unless it was superseded (\<open>CheckEvent\<close>); requests are served in order, one
    at a time for a repository, and a newer commit cancels an older check (\<open>RepoQueue\<close>); every affected
    application is checked, no result is lost, the pool ends (\<open>CheckRunner\<close>).
  \<^item> What is posted: comments within the limits, whatever the order of maps, each rendered on its own
    (\<open>MsgMarkdown\<close>, \<open>MsgComment\<close>, \<open>MsgReport\<close>), written in order by both clients (\<open>VcsClients\<close>); suggestions once
    (\<open>VcsReview\<close>).
  \<^item> What is checked: the affected applications are exactly those around the changed files (\<open>AppDir\<close>, \<open>AppSetDir\<close>,
    \<open>Affected\<close>); their manifests are rendered from the head of the pull request (\<open>ArgoManifests\<close>), read from
    the archive of the very merge that was asked for (\<open>GithubRetry\<close>, \<open>GitlabClient\<close>, \<open>Extract\<close>); each
    resource is compared once (\<open>DiffCheck\<close>), and removals follow the ownership of fields (\<open>FieldRemovals\<close>).
  \<^item> What is kept apart: value files stay below the package (\<open>ArgoPackage\<close>), held archives and cached checkouts stay on disk
    (\<open>ArchiveCache\<close>, \<open>GitManager\<close>), forks and unverified requests reach nothing (\<open>ServerHooks\<close>), secrets are
    hidden from the tools of the agent, whose suggestions are confined to changed files (\<open>AiReview\<close>).
  \<^item> The locales are the contracts between a component and its users, each interpreted where the code provides it:
    \<open>combiner\<close> and \<open>neutral_combiner\<close> (folding of states, \<open>CommitState\<close>), \<open>name_index\<close> (an index by name,
    \<open>AppDir\<close>), \<open>bounded_markdown\<close> (parts of a section, \<open>MsgMarkdown\<close>), \<open>tool_set\<close> (what the tools of the agent
    keep, \<open>AiAgent\<close> and \<open>AiReview\<close>), \<open>webhook_client\<close> (what the server relies on of a client,
    \<open>ServerHooks\<close>), \<open>suggestion_format\<close> (reading back what was posted, \<open>VcsReview\<close>).

  Bounds and fuel.  Loops that count towards a limit of the source recurse on what is left of it.  The walk over
  kustomizations takes fuel, and some amount is shown to be enough on every finite checkout, with any more giving
  the same result.  The loop over the pages of \<open>GitlabHelpers\<close> has no bound in the code: it is a partial function,
  and a listing that ends is shown to give a result.  Everything else is structural or has a measure.  Durations are whole seconds or milliseconds as the
  comments of a theory say; the reference count of a checkout is a word of 32 bits, waves of hooks are checked
  against 32 bits.

  Not modelled.  Telemetry, metrics and log lines; the construction of the clients of GitHub, GitLab, Kubernetes and
  Argo CD and their transport; the informers that feed the watchers (their handlers are modelled); the signing of
  tokens; tools for developers and mocks.  These are calls of libraries or have no state that a check reads, so
  that a definition would be made up or empty.  Of files, permission bits and modification times are left out, and
  symbolic links except where a check resolves them.
\<close>

end
